(* ===== verification/Prelude.thy ===== *)
theory Prelude
  imports Main "HOL-Library.Word" "HOL-Library.Monad_Syntax"
begin

text \<open>
  What the components share: the names of the machine types, the Rust operations that can
  panic, Unicode scalar values and the predicates of \<open>char\<close> the sources use, and generic
  lemmas on lists and options.

  A panic (an index out of range, an arithmetic overflow in a build with overflow checks, a
  failed \<open>assert\<close> or \<open>expect\<close>) is the value \<open>None\<close> of an \<open>option\<close>; a function of the
  sources that cannot panic has no \<open>option\<close>. \<open>usize\<close> is 64 bits wide, so the conversions
  between \<open>u64\<close> and \<open>usize\<close> never fail. Lengths and indexes are natural numbers: a Rust
  \<open>Vec\<close> never has more than \<open>isize::MAX\<close> bytes, so sums of two indexes into one never
  overflow. Where a \<open>u64\<close> comes from outside (rows and columns of a page) its arithmetic is
  written with the checked operations below.
\<close>

named_theorems panic_simps "unfolding of the operations that may panic"

section \<open>Machine types\<close>

type_synonym u8 = "8 word"
type_synonym u16 = "16 word"
type_synonym u32 = "32 word"
type_synonym u64 = "64 word"
type_synonym u128 = "128 word"
type_synonym usize = nat
type_synonym coord = nat  \<comment> \<open>a \<open>u64\<close> row, column or count, with checked arithmetic\<close>
type_synonym rchar = "32 word"  \<comment> \<open>a Unicode scalar value\<close>
type_synonym bytes = "u8 list"

section \<open>Operations that may panic\<close>

definition u64_lim :: nat where
  "u64_lim = 2 ^ 64"

definition add64 :: "nat \<Rightarrow> nat \<Rightarrow> nat option" where
  [panic_simps]: "add64 a b = (if a + b < u64_lim then Some (a + b) else None)"

definition mul64 :: "nat \<Rightarrow> nat \<Rightarrow> nat option" where
  [panic_simps]: "mul64 a b = (if a * b < u64_lim then Some (a * b) else None)"

definition sub64 :: "nat \<Rightarrow> nat \<Rightarrow> nat option" where
  [panic_simps]: "sub64 a b = (if b \<le> a then Some (a - b) else None)"

definition div64 :: "nat \<Rightarrow> nat \<Rightarrow> nat option" where
  [panic_simps]: "div64 a b = (if b = 0 then None else Some (a div b))"

definition mod64 :: "nat \<Rightarrow> nat \<Rightarrow> nat option" where
  [panic_simps]: "mod64 a b = (if b = 0 then None else Some (a mod b))"

text \<open>The bound is compared as an integer when the checked operations are evaluated.\<close>

lemma add64_code [code]:
  "add64 a b = (if int a + int b < 18446744073709551616 then Some (a + b) else None)"
  by (simp add: add64_def u64_lim_def)

lemma mul64_code [code]:
  "mul64 a b = (if int a * int b < 18446744073709551616 then Some (a * b) else None)"
proof -
  have "a * b < 18446744073709551616 \<longleftrightarrow> int a * int b < 18446744073709551616"
    by (metis of_nat_less_iff of_nat_mult of_nat_numeral)
  then show ?thesis by (simp add: mul64_def u64_lim_def)
qed

text \<open>Indexing \<open>v[i]\<close> and the assignment \<open>v[i] = x\<close>, and the total \<open>v.get(i)\<close>.\<close>

definition idx :: "'a list \<Rightarrow> nat \<Rightarrow> 'a option" where
  [panic_simps]: "idx xs i = (if i < length xs then Some (xs ! i) else None)"

definition store :: "'a list \<Rightarrow> nat \<Rightarrow> 'a \<Rightarrow> 'a list option" where
  [panic_simps]: "store xs i v = (if i < length xs then Some (xs[i := v]) else None)"

definition vec_get :: "'a list \<Rightarrow> nat \<Rightarrow> 'a option" where
  "vec_get xs i = (if i < length xs then Some (xs ! i) else None)"

section \<open>Outcomes\<close>

text \<open>
  The outcome of a function that returns a \<open>Result\<close>: a value, an error, or a panic. \<open>obind\<close> is
  the \<open>?\<close> operator, \<open>from_opt\<close> is \<open>expect\<close> on an \<open>Option\<close>.
\<close>

datatype ('e, 'a) outcome = Ok 'a | Err 'e | Panic

primrec obind :: "('e, 'a) outcome \<Rightarrow> ('a \<Rightarrow> ('e, 'b) outcome) \<Rightarrow> ('e, 'b) outcome" where
  "obind (Ok x) f = f x"
| "obind (Err e) f = Err e"
| "obind Panic f = Panic"

primrec map_err :: "('e \<Rightarrow> 'f) \<Rightarrow> ('e, 'a) outcome \<Rightarrow> ('f, 'a) outcome" where
  "map_err f (Ok x) = Ok x"
| "map_err f (Err e) = Err (f e)"
| "map_err f Panic = Panic"

definition from_opt :: "'a option \<Rightarrow> ('e, 'a) outcome" where
  "from_opt x = (case x of Some y \<Rightarrow> Ok y | None \<Rightarrow> Panic)"

definition ok_or :: "'a option \<Rightarrow> 'e \<Rightarrow> ('e, 'a) outcome" where
  "ok_or x e = (case x of Some y \<Rightarrow> Ok y | None \<Rightarrow> Err e)"

lemma obind_Ok_iff: "obind m f = Ok y \<longleftrightarrow> (\<exists>x. m = Ok x \<and> f x = Ok y)"
  by (cases m) auto

lemma map_err_Ok_iff [simp]: "map_err f m = Ok x \<longleftrightarrow> m = Ok x"
  by (cases m) auto

lemma from_opt_simps [simp]:
  "from_opt (Some x) = Ok x" "from_opt None = Panic"
  "from_opt m = Ok x \<longleftrightarrow> m = Some x" "from_opt m \<noteq> Err e"
  by (auto simp: from_opt_def split: option.splits)

lemma ok_or_simps [simp]:
  "ok_or (Some x) e = Ok x" "ok_or None e = Err e" "ok_or m e = Ok x \<longleftrightarrow> m = Some x"
  "ok_or m e \<noteq> Panic"
  by (auto simp: ok_or_def split: option.splits)

section \<open>Hexadecimal text\<close>

definition hex_digit :: "nat \<Rightarrow> char" where
  "hex_digit n = char_of (if n < 10 then 48 + n else 87 + n)"

definition to_hex :: "bytes \<Rightarrow> string" where
  "to_hex bs = concat (map (\<lambda>b. [hex_digit (unat b div 16), hex_digit (unat b mod 16)]) bs)"

section \<open>Characters\<close>

definition is_scalar :: "u32 \<Rightarrow> bool" where
  "is_scalar c \<longleftrightarrow> c < 0xD800 \<or> (0xDFFF < c \<and> c < 0x110000)"

definition char_from_u32 :: "u32 \<Rightarrow> rchar option" where
  "char_from_u32 c = (if is_scalar c then Some c else None)"

definition REPLACEMENT_CHARACTER :: rchar where
  "REPLACEMENT_CHARACTER = 0xFFFD"

abbreviation newline :: rchar where
  "newline \<equiv> 10"

abbreviation tab :: rchar where
  "tab \<equiv> 9"

abbreviation space :: rchar where
  "space \<equiv> 32"

text \<open>\<open>char::is_whitespace\<close>: the Unicode property \<open>White_Space\<close>.\<close>

definition is_whitespace :: "rchar \<Rightarrow> bool" where
  "is_whitespace c \<longleftrightarrow> (9 \<le> c \<and> c \<le> 13) \<or> c = 32 \<or> c = 0x85 \<or> c = 0xA0 \<or> c = 0x1680 \<or>
     (0x2000 \<le> c \<and> c \<le> 0x200A) \<or> c = 0x2028 \<or> c = 0x2029 \<or> c = 0x202F \<or> c = 0x205F \<or>
     c = 0x3000"

text \<open>\<open>char::is_control\<close>: the general category \<open>Cc\<close>.\<close>

definition is_control :: "rchar \<Rightarrow> bool" where
  "is_control c \<longleftrightarrow> c \<le> 0x1F \<or> (0x7F \<le> c \<and> c \<le> 0x9F)"

text \<open>
  A \<open>String\<close> is the list of its characters; \<open>len()\<close> counts the bytes of its UTF-8 form.
\<close>

definition len_utf8 :: "rchar \<Rightarrow> nat" where
  "len_utf8 c = (if c < 0x80 then 1 else if c < 0x800 then 2 else if c < 0x10000 then 3 else 4)"

definition str_len :: "rchar list \<Rightarrow> nat" where
  "str_len s = sum_list (map len_utf8 s)"

definition ascii :: "rchar list \<Rightarrow> bool" where
  "ascii s \<longleftrightarrow> (\<forall>c \<in> set s. c < 0x80)"

text \<open>\<open>std::str::from_utf8\<close>: well-formed UTF-8 byte sequences.\<close>

definition cont_byte :: "u8 \<Rightarrow> bool" where
  "cont_byte b \<longleftrightarrow> 0x80 \<le> b \<and> b \<le> 0xBF"

fun utf8_valid :: "bytes \<Rightarrow> bool" where
  "utf8_valid [] = True"
| "utf8_valid (a # bs) =
     (if a < 0x80 then utf8_valid bs
      else if 0xC2 \<le> a \<and> a \<le> 0xDF then
        (case bs of b # rest \<Rightarrow> cont_byte b \<and> utf8_valid rest | _ \<Rightarrow> False)
      else if 0xE0 \<le> a \<and> a \<le> 0xEF then
        (case bs of b # c # rest \<Rightarrow>
           cont_byte b \<and> (a = 0xE0 \<longrightarrow> 0xA0 \<le> b) \<and> (a = 0xED \<longrightarrow> b \<le> 0x9F) \<and> cont_byte c \<and> utf8_valid rest
         | _ \<Rightarrow> False)
      else if 0xF0 \<le> a \<and> a \<le> 0xF4 then
        (case bs of b # c # d # rest \<Rightarrow>
           cont_byte b \<and> (a = 0xF0 \<longrightarrow> 0x90 \<le> b) \<and> (a = 0xF4 \<longrightarrow> b \<le> 0x8F) \<and> cont_byte c \<and> cont_byte d \<and> utf8_valid rest
         | _ \<Rightarrow> False)
      else False)"

lemma len_utf8_pos: "1 \<le> len_utf8 c"
  by (simp add: len_utf8_def)

lemma len_utf8_eq_1: "len_utf8 c = 1 \<longleftrightarrow> c < 0x80"
  by (simp add: len_utf8_def)

lemma str_len_simps [simp]:
  "str_len [] = 0"
  "str_len (c # s) = len_utf8 c + str_len s"
  "str_len (s @ t) = str_len s + str_len t"
  by (simp_all add: str_len_def)

lemma str_len_ge_length: "length s \<le> str_len s"
proof (induction s)
  case (Cons c s)
  then show ?case using len_utf8_pos [of c] by simp
qed simp

lemma str_len_ascii [simp]: "ascii s \<Longrightarrow> str_len s = length s"
  by (induction s) (auto simp: ascii_def len_utf8_def)

lemma ascii_simps [simp]:
  "ascii []"
  "ascii (c # s) \<longleftrightarrow> c < 0x80 \<and> ascii s"
  "ascii (s @ t) \<longleftrightarrow> ascii s \<and> ascii t"
  by (auto simp: ascii_def)

lemma ascii_utf8_valid: "\<forall>b \<in> set bs. b < 0x80 \<Longrightarrow> utf8_valid bs"
  by (induction bs rule: utf8_valid.induct) auto

lemma ascii_scalar: "c < 0x80 \<Longrightarrow> is_scalar c"
  by (simp add: is_scalar_def word_less_nat_alt)

lemma ascii_take_drop: "ascii s \<Longrightarrow> ascii (take n s) \<and> ascii (drop n s)"
  by (auto simp: ascii_def dest: in_set_takeD in_set_dropD)

section \<open>Generic lemmas\<close>

lemma bind_Some_iff: "(m \<bind> f) = Some y \<longleftrightarrow> (\<exists>x. m = Some x \<and> f x = Some y)"
  by (cases m) auto

lemma idx_Some_iff: "idx xs i = Some x \<longleftrightarrow> i < length xs \<and> xs ! i = x"
  by (auto simp: idx_def)

lemma store_Some_iff: "store xs i v = Some ys \<longleftrightarrow> i < length xs \<and> ys = xs[i := v]"
  by (auto simp: store_def)

lemma take_update_last: "i < length xs \<Longrightarrow> take (Suc i) (xs[i := v]) = take i xs @ [v]"
  by (simp add: take_Suc_conv_app_nth)

lemma drop_Suc_nth: "i < length xs \<Longrightarrow> drop i xs = xs ! i # drop (Suc i) xs"
  by (rule Cons_nth_drop_Suc [symmetric])

end
