(* ===== verification/Char_Buff.thy ===== *)
theory Char_Buff
  imports Prelude
begin

unbundle bit_operations_syntax

text \<open>
  The character buffer of \<open>src/ui/charbuff.rs\<close>: a grid of coloured cells kept as one vector
  of known width, with printing at a place, word-wrapped printing and lookup. Rows and
  columns come from pages, so their arithmetic is checked: \<open>None\<close> is an overflow or a
  division by a width of zero.
\<close>

section \<open>Colours and cells\<close>

record Color =
  col_r :: u8
  col_g :: u8
  col_b :: u8

text \<open>\<open>u8::try_from\<close> of a \<open>u32\<close>.\<close>

definition u8_try_from :: "u32 \<Rightarrow> u8 option" where
  "u8_try_from x = (if x \<le> 255 then Some (ucast x) else None)"

definition color_from_u32 :: "u32 \<Rightarrow> Color option" where
  "color_from_u32 c =
     do { r \<leftarrow> u8_try_from (drop_bit 16 (c AND 0x00ff0000));
          g \<leftarrow> u8_try_from (drop_bit 8 (c AND 0x0000ff00));
          b \<leftarrow> u8_try_from (c AND 0x000000ff);
          Some \<lparr>col_r = r, col_g = g, col_b = b\<rparr> }"

text \<open>The argument of \<open>Value::UInt\<close> in \<open>to_clarity_value\<close>.\<close>

definition color_to_uint :: "Color \<Rightarrow> u128" where
  "color_to_uint c = push_bit 16 (ucast (col_r c)) OR push_bit 8 (ucast (col_g c)) OR ucast (col_b c)"

definition color_rgb :: "u8 \<Rightarrow> u8 \<Rightarrow> u8 \<Rightarrow> Color" where
  "color_rgb r g b = \<lparr>col_r = r, col_g = g, col_b = b\<rparr>"

datatype CharCell = Blank | Fill (cell_value: rchar) (cell_bg: Color) (cell_fg: Color) (cell_element: u128)

definition charcell_new :: "u128 \<Rightarrow> rchar \<Rightarrow> Color \<Rightarrow> Color \<Rightarrow> CharCell" where
  "charcell_new element_id value bg fg = Fill value bg fg element_id"

datatype PrintPartType = Word "rchar list" nat | Newline

record CharBuff =
  cb_num_cols :: coord
  cb_cells :: "CharCell list"

definition cb_new :: "coord \<Rightarrow> CharBuff" where
  "cb_new num_cols = \<lparr>cb_num_cols = num_cols, cb_cells = []\<rparr>"

definition cb_clear :: "CharBuff \<Rightarrow> CharBuff" where
  "cb_clear b = b\<lparr>cb_cells := []\<rparr>"

definition cb_num_rows :: "CharBuff \<Rightarrow> coord option" where
  "cb_num_rows b = div64 (length (cb_cells b)) (cb_num_cols b)"

section \<open>Printing\<close>

text \<open>The cell a character becomes: control characters are replaced.\<close>

definition print_cell :: "u128 \<Rightarrow> Color \<Rightarrow> Color \<Rightarrow> rchar \<Rightarrow> CharCell" where
  "print_cell element_id bg fg c =
     (if c \<le> 0x1f \<or> is_control c then charcell_new element_id REPLACEMENT_CHARACTER bg fg
      else charcell_new element_id c bg fg)"

text \<open>The loop of \<open>print_at_iter\<close>: overwrite below the end of the vector, push at its end.\<close>

fun put_cells :: "CharCell list \<Rightarrow> nat \<Rightarrow> CharCell list \<Rightarrow> CharCell list \<times> nat" where
  "put_cells cells offset [] = (cells, offset)"
| "put_cells cells offset (x # xs) =
     put_cells (if offset < length cells then cells[offset := x] else cells @ [x]) (offset + 1) xs"

definition print_at_iter ::
  "CharBuff \<Rightarrow> u128 \<Rightarrow> coord \<Rightarrow> coord \<Rightarrow> Color \<Rightarrow> Color \<Rightarrow> rchar list \<Rightarrow>
   (CharBuff \<times> (coord \<times> coord)) option" where
  "print_at_iter b element_id start_row start_col bg fg text =
     do { o1 \<leftarrow> mul64 (cb_num_cols b) start_row;
          offset \<leftarrow> add64 o1 start_col;
          let padded = cb_cells b @ replicate (offset - length (cb_cells b)) Blank;
          let (cells, offset) = put_cells padded offset (map (print_cell element_id bg fg) text);
          r \<leftarrow> div64 offset (cb_num_cols b);
          c \<leftarrow> mod64 offset (cb_num_cols b);
          Some (b\<lparr>cb_cells := cells\<rparr>, (r, c)) }"

definition print_at ::
  "CharBuff \<Rightarrow> u128 \<Rightarrow> coord \<Rightarrow> coord \<Rightarrow> Color \<Rightarrow> Color \<Rightarrow> rchar list \<Rightarrow>
   (CharBuff \<times> (coord \<times> coord)) option" where
  "print_at b element_id start_row start_col bg fg text =
     print_at_iter b element_id start_row start_col bg fg text"

text \<open>Splitting into words, single whitespace characters and newlines.\<close>

fun split_parts :: "rchar list \<Rightarrow> rchar list \<Rightarrow> nat \<Rightarrow> PrintPartType list" where
  "split_parts [] cur_part cur_len =
     (if str_len cur_part > 0 then [Word cur_part cur_len] else [])"
| "split_parts (c # cs) cur_part cur_len =
     (if is_whitespace c then
        (if str_len cur_part > 0 then [Word cur_part cur_len] else []) @
        (if c = newline then [Newline] else [Word [c] 1]) @
        (if str_len cur_part > 0 then split_parts cs [] 0 else split_parts cs cur_part cur_len)
      else split_parts cs (cur_part @ [c]) (cur_len + 1))"

text \<open>The printing loop of \<open>inner_print\<close> over the parts.\<close>

fun print_parts ::
  "u128 \<Rightarrow> Color \<Rightarrow> Color \<Rightarrow> PrintPartType list \<Rightarrow> CharBuff \<Rightarrow> coord \<Rightarrow> coord \<Rightarrow> coord \<times> coord \<Rightarrow>
   (CharBuff \<times> (coord \<times> coord)) option" where
  "print_parts element_id bg fg [] b row i ret = Some (b, ret)"
| "print_parts element_id bg fg (Newline # ps) b row i ret =
     do { row \<leftarrow> add64 row 1;
          print_parts element_id bg fg ps b row 0 ret }"
| "print_parts element_id bg fg (Word part charlen # ps) b row i ret =
     do { j \<leftarrow> add64 i charlen;
          (b, ret, row, i) \<leftarrow>
            (if j < cb_num_cols b then
               do { (b', ret) \<leftarrow> print_at b element_id row i bg fg part;
                    Some (b', ret, row, j) }
             else
               do { row \<leftarrow> add64 row 1;
                    (b', ret) \<leftarrow> print_at b element_id row 0 bg fg part;
                    i \<leftarrow> mod64 charlen (cb_num_cols b');
                    Some (b', ret, row, i) });
          extra \<leftarrow> div64 charlen (cb_num_cols b);
          row \<leftarrow> (if extra \<ge> 1 then add64 row extra else Some row);
          print_parts element_id bg fg ps b row i ret }"

definition inner_print ::
  "CharBuff \<Rightarrow> u128 \<Rightarrow> coord \<Rightarrow> coord \<Rightarrow> Color \<Rightarrow> Color \<Rightarrow> rchar list \<Rightarrow> bool \<Rightarrow>
   (CharBuff \<times> (coord \<times> coord)) option" where
  "inner_print b element_id start_row start_col bg fg text nl =
     do { (b, ret) \<leftarrow> print_parts element_id bg fg (split_parts text [] 0) b start_row start_col
                         (start_row, start_col);
          if nl then do { r \<leftarrow> add64 (fst ret) 1; Some (b, (r, 0)) }
          else Some (b, ret) }"

definition cb_print ::
  "CharBuff \<Rightarrow> u128 \<Rightarrow> coord \<Rightarrow> coord \<Rightarrow> Color \<Rightarrow> Color \<Rightarrow> rchar list \<Rightarrow>
   (CharBuff \<times> (coord \<times> coord)) option" where
  "cb_print b element_id start_row start_col bg fg text =
     inner_print b element_id start_row start_col bg fg text False"

definition cb_print_iter ::
  "CharBuff \<Rightarrow> u128 \<Rightarrow> coord \<Rightarrow> coord \<Rightarrow> Color \<Rightarrow> Color \<Rightarrow> rchar list \<Rightarrow>
   (CharBuff \<times> (coord \<times> coord)) option" where
  "cb_print_iter b element_id start_row start_col bg fg text =
     inner_print b element_id start_row start_col bg fg text False"

definition cb_println ::
  "CharBuff \<Rightarrow> u128 \<Rightarrow> coord \<Rightarrow> coord \<Rightarrow> Color \<Rightarrow> Color \<Rightarrow> rchar list \<Rightarrow>
   (CharBuff \<times> (coord \<times> coord)) option" where
  "cb_println b element_id start_row start_col bg fg text =
     inner_print b element_id start_row start_col bg fg text True"

section \<open>Lookup\<close>

definition cb_charcell_at :: "CharBuff \<Rightarrow> coord \<Rightarrow> coord \<Rightarrow> CharCell option option" where
  "cb_charcell_at b row col =
     do { o1 \<leftarrow> mul64 (cb_num_cols b) row;
          i \<leftarrow> add64 o1 col;
          Some (vec_get (cb_cells b) i) }"

definition cb_element_at :: "CharBuff \<Rightarrow> coord \<Rightarrow> coord \<Rightarrow> u128 option option" where
  "cb_element_at b row col =
     map_option (\<lambda>c. case c of Some (Fill _ _ _ e) \<Rightarrow> Some e | _ \<Rightarrow> None) (cb_charcell_at b row col)"

text \<open>\<open>dump_charbuff\<close>: \<open>_\<close> for a blank cell, \<open>*\<close> where there is no cell.\<close>

definition dump_cell :: "CharCell option \<Rightarrow> rchar" where
  "dump_cell c = (case c of Some (Fill v _ _ _) \<Rightarrow> v | Some Blank \<Rightarrow> 95 | None \<Rightarrow> 42)"

fun dump_row :: "CharBuff \<Rightarrow> coord \<Rightarrow> coord \<Rightarrow> nat \<Rightarrow> rchar list option" where
  "dump_row b row col 0 = Some []"
| "dump_row b row col (Suc n) =
     do { c \<leftarrow> cb_charcell_at b row col;
          rest \<leftarrow> dump_row b row (Suc col) n;
          Some (dump_cell c # rest) }"

fun dump_rows :: "CharBuff \<Rightarrow> coord \<Rightarrow> nat \<Rightarrow> rchar list option" where
  "dump_rows b row 0 = Some []"
| "dump_rows b row (Suc n) =
     do { l \<leftarrow> dump_row b row 0 (cb_num_cols b);
          rest \<leftarrow> dump_rows b (Suc row) n;
          Some (l @ [newline] @ rest) }"

definition dump_charbuff :: "CharBuff \<Rightarrow> coord \<Rightarrow> rchar list option" where
  "dump_charbuff b num_rows = dump_rows b 0 num_rows"

section \<open>Colours\<close>

lemma u8_try_from_and: "u8_try_from (x AND 0xff) = Some (ucast x)"
proof -
  have "x AND 0xff \<le> 0xff" by (rule word_and_le1)
  moreover have "(0xff :: u32) = mask 8" by (simp add: mask_eq_exp_minus_1)
  then have "ucast (x AND 0xff) = (ucast x :: u8)" by (auto simp: bit_eq_iff bit_simps)
  ultimately show ?thesis by (simp add: u8_try_from_def)
qed

lemma color_from_u32_eq:
  "color_from_u32 c = Some \<lparr>col_r = ucast (drop_bit 16 c), col_g = ucast (drop_bit 8 c), col_b = ucast c\<rparr>"
  by (simp add: color_from_u32_def drop_bit_and u8_try_from_and)

lemma color_roundtrip_bits:
  "ucast (drop_bit 16 (ucast (color_to_uint c) :: u32)) = col_r c"
  "ucast (drop_bit 8 (ucast (color_to_uint c) :: u32)) = col_g c"
  "ucast (ucast (color_to_uint c) :: u32) = col_b c"
  by (auto simp: color_to_uint_def bit_eq_iff bit_simps dest: bit_imp_le_length)

section \<open>Printing at a place\<close>

lemma put_cells_eq:
  "offset \<le> length cells \<Longrightarrow>
     put_cells cells offset xs =
       (take offset cells @ xs @ drop (offset + length xs) cells, offset + length xs)"
proof (induction xs arbitrary: cells offset)
  case (Cons x xs)
  show ?case
  proof (cases "offset < length cells")
    case True
    then show ?thesis
      using Cons.IH [of "Suc offset" "cells[offset := x]"]
      by (simp add: take_update_last)
  next
    case False
    then show ?thesis
      using Cons.IH [of "Suc offset" "cells @ [x]"] Cons.prems by simp
  qed
qed simp

text \<open>The vector after printing: padded to the offset, then overwritten.\<close>

definition cells_put :: "CharCell list \<Rightarrow> nat \<Rightarrow> CharCell list \<Rightarrow> CharCell list" where
  "cells_put cells off xs =
     (let p = cells @ replicate (off - length cells) Blank
      in take off p @ xs @ drop (off + length xs) p)"

lemma length_cells_put: "length (cells_put cells off xs) = max (length cells) (off + length xs)"
  by (simp add: cells_put_def Let_def)

lemma cells_put_nth:
  assumes "i < length (cells_put cells off xs)"
  shows "cells_put cells off xs ! i =
     (if off \<le> i \<and> i < off + length xs then xs ! (i - off)
      else if i < length cells then cells ! i else Blank)"
proof -
  define p where "p = cells @ replicate (off - length cells) Blank"
  have len: "off \<le> length p" and len': "length p = max (length cells) off" by (auto simp: p_def)
  have nth: "p ! j = (if j < length cells then cells ! j else Blank)" if "j < length p" for j
    using that by (auto simp: p_def nth_append)
  show ?thesis
    using assms len len' unfolding length_cells_put
    by (auto simp: cells_put_def Let_def nth_append nth simp flip: p_def)
qed

lemma cells_put_window:
  "take (length xs) (drop off (cells_put cells off xs)) = xs"
  by (simp add: cells_put_def Let_def)

lemma cells_put_other_window:
  assumes "take m (drop o1 cells) = ys" "length ys = m" "o1 + m \<le> off"
  shows "take m (drop o1 (cells_put cells off xs)) = ys"
proof -
  have len: "o1 + m \<le> length cells \<or> m = 0" using assms(1,2) by auto
  show ?thesis
  proof (rule nth_equalityI)
    show "length (take m (drop o1 (cells_put cells off xs))) = length ys"
      using assms(2) len by (auto simp: length_cells_put)
    fix i assume "i < length (take m (drop o1 (cells_put cells off xs)))"
    then have i: "i < m" and b: "o1 + i < length (cells_put cells off xs)" by auto
    have "ys ! i = cells ! (o1 + i)" using i len assms(1) by (auto simp: nth_append)
    then show "take m (drop o1 (cells_put cells off xs)) ! i = ys ! i"
      using i b len assms(3) cells_put_nth [OF b] by (auto simp: less_imp_le_nat)
  qed
qed

lemma print_at_iter_eq:
  assumes "0 < cb_num_cols b" and "cb_num_cols b * row + col < u64_lim"
  defines "off \<equiv> cb_num_cols b * row + col"
  shows "print_at_iter b e row col bg fg s =
     Some (b\<lparr>cb_cells := cells_put (cb_cells b) off (map (print_cell e bg fg) s)\<rparr>,
           ((off + length s) div cb_num_cols b, (off + length s) mod cb_num_cols b))"
  using assms by (simp add: print_at_iter_def panic_simps put_cells_eq cells_put_def Let_def)

lemma print_at_iter_Some:
  assumes "print_at_iter b e row col bg fg s = Some (b', p)"
  shows "0 < cb_num_cols b" "cb_num_cols b * row + col < u64_lim"
    "b' = b\<lparr>cb_cells := cells_put (cb_cells b) (cb_num_cols b * row + col) (map (print_cell e bg fg) s)\<rparr>"
    "p = ((cb_num_cols b * row + col + length s) div cb_num_cols b,
          (cb_num_cols b * row + col + length s) mod cb_num_cols b)"
proof -
  show *: "0 < cb_num_cols b" "cb_num_cols b * row + col < u64_lim"
    using assms by (auto simp: print_at_iter_def panic_simps Let_def bind_Some_iff split: if_splits prod.splits)
  show "b' = b\<lparr>cb_cells := cells_put (cb_cells b) (cb_num_cols b * row + col) (map (print_cell e bg fg) s)\<rparr>"
    "p = ((cb_num_cols b * row + col + length s) div cb_num_cols b,
          (cb_num_cols b * row + col + length s) mod cb_num_cols b)"
    using assms print_at_iter_eq [OF *] by simp_all
qed

section \<open>No control characters\<close>

definition cell_safe :: "CharCell \<Rightarrow> bool" where
  "cell_safe c \<longleftrightarrow> (case c of Blank \<Rightarrow> True | Fill v _ _ _ \<Rightarrow> \<not> is_control v)"

definition cb_safe :: "CharBuff \<Rightarrow> bool" where
  "cb_safe b \<longleftrightarrow> (\<forall>c \<in> set (cb_cells b). cell_safe c)"

lemma print_cell_safe: "cell_safe (print_cell e bg fg c)"
  by (auto simp: print_cell_def charcell_new_def cell_safe_def is_control_def REPLACEMENT_CHARACTER_def)

lemma cells_put_set: "set (cells_put cells off xs) \<subseteq> set cells \<union> set xs \<union> {Blank}"
  by (auto simp: cells_put_def Let_def dest: in_set_takeD in_set_dropD split: if_splits)

lemma print_at_iter_safe:
  assumes "print_at_iter b e row col bg fg s = Some (b', p)" and "cb_safe b"
  shows "cb_safe b'"
  using assms(2) cells_put_set [of "cb_cells b" "cb_num_cols b * row + col" "map (print_cell e bg fg) s"]
  by (auto simp: print_at_iter_Some(3) [OF assms(1)] cb_safe_def cell_safe_def [of Blank] print_cell_safe
      dest!: subsetD)

section \<open>Word wrapping\<close>

text \<open>
  Where \<open>inner_print\<close> puts each word, as a function of the width: the reference for the
  printing loop, without a buffer and without overflow.
\<close>

fun place :: "nat \<Rightarrow> PrintPartType list \<Rightarrow> nat \<Rightarrow> nat \<Rightarrow> (nat \<times> nat \<times> rchar list) list" where
  "place n [] row i = []"
| "place n (Newline # ps) row i = place n ps (row + 1) 0"
| "place n (Word w l # ps) row i =
     (if i + l < n then (row, i, w) # place n ps (row + l div n) (i + l)
      else (row + 1, 0, w) # place n ps (row + 1 + l div n) (l mod n))"

fun put_all :: "nat \<Rightarrow> (rchar \<Rightarrow> CharCell) \<Rightarrow> (nat \<times> nat \<times> rchar list) list \<Rightarrow> CharCell list \<Rightarrow> CharCell list" where
  "put_all n f [] cells = cells"
| "put_all n f ((r, c, w) # ws) cells = put_all n f ws (cells_put cells (n * r + c) (map f w))"

text \<open>The parts of a text: every word carries its length, and no part spans a newline.\<close>

fun part_ok :: "PrintPartType \<Rightarrow> bool" where
  "part_ok Newline = True"
| "part_ok (Word w l) = (l = length w \<and> w \<noteq> [])"

fun part_text :: "PrintPartType \<Rightarrow> rchar list" where
  "part_text Newline = [newline]"
| "part_text (Word w l) = w"

lemma str_len_pos: "0 < str_len s \<longleftrightarrow> s \<noteq> []"
  using str_len_ge_length [of s] by (cases s) auto

lemma split_parts_ok:
  "n = length cur \<Longrightarrow> \<forall>p \<in> set (split_parts s cur n). part_ok p"
  by (induction s cur n rule: split_parts.induct) (auto simp: str_len_pos)

lemma split_parts_text:
  "concat (map part_text (split_parts s cur n)) = cur @ s"
  by (induction s cur n rule: split_parts.induct) (auto simp: str_len_pos)

lemma print_parts_fits:
  assumes "print_parts e bg fg (Word w l # ps) b row i ret = Some (b', ret')" "i + l < cb_num_cols b"
  obtains ret1 where "print_parts e bg fg ps
      (b\<lparr>cb_cells := cells_put (cb_cells b) (cb_num_cols b * row + i) (map (print_cell e bg fg) w)\<rparr>)
      row (i + l) ret1 = Some (b', ret')"
proof -
  obtain b1 ret1 where p: "print_at_iter b e row i bg fg w = Some (b1, ret1)"
    and rest: "print_parts e bg fg ps b1 (row + l div cb_num_cols b1) (i + l) ret1 = Some (b', ret')"
    using assms(1,2)
    by (auto simp: bind_Some_iff print_at_def add64_def div64_def not_less_eq_eq split: if_splits)
  then show ?thesis using that assms(2) print_at_iter_Some(3) [OF p] by simp
qed

lemma print_parts_wraps:
  assumes "print_parts e bg fg (Word w l # ps) b row i ret = Some (b', ret')" "\<not> i + l < cb_num_cols b"
  obtains ret1 where "print_parts e bg fg ps
      (b\<lparr>cb_cells := cells_put (cb_cells b) (cb_num_cols b * (row + 1)) (map (print_cell e bg fg) w)\<rparr>)
      (row + 1 + l div cb_num_cols b) (l mod cb_num_cols b) ret1 = Some (b', ret')"
proof -
  obtain b1 ret1 where p: "print_at_iter b e (row + 1) 0 bg fg w = Some (b1, ret1)"
    and rest: "print_parts e bg fg ps b1 (row + 1 + l div cb_num_cols b1) (l mod cb_num_cols b1) ret1
               = Some (b', ret')"
    using assms
    by (auto simp: bind_Some_iff print_at_def add64_def div64_def mod64_def not_less_eq_eq
        dest: print_at_iter_Some(3) split: if_splits)
  then show ?thesis using that print_at_iter_Some(3) [OF p] by simp
qed

lemma print_parts_place:
  assumes "print_parts e bg fg ps b row i ret = Some (b', ret')"
  shows "b' = b\<lparr>cb_cells := put_all (cb_num_cols b) (print_cell e bg fg)
                   (place (cb_num_cols b) ps row i) (cb_cells b)\<rparr>"
  using assms
proof (induction ps arbitrary: b row i ret)
  case (Cons p ps)
  show ?case
  proof (cases p)
    case Newline
    then show ?thesis
      using Cons by (auto simp: bind_Some_iff add64_def split: if_splits)
  next
    case (Word w l)
    show ?thesis
    proof (cases "i + l < cb_num_cols b")
      case True
      obtain ret1 where "print_parts e bg fg ps
          (b\<lparr>cb_cells := cells_put (cb_cells b) (cb_num_cols b * row + i) (map (print_cell e bg fg) w)\<rparr>)
          row (i + l) ret1 = Some (b', ret')"
        using print_parts_fits [OF Cons.prems [unfolded Word] True] .
      from Cons.IH [OF this] show ?thesis using True Word by simp
    next
      case False
      obtain ret1 where "print_parts e bg fg ps
          (b\<lparr>cb_cells := cells_put (cb_cells b) (cb_num_cols b * (row + 1)) (map (print_cell e bg fg) w)\<rparr>)
          (row + 1 + l div cb_num_cols b) (l mod cb_num_cols b) ret1 = Some (b', ret')"
        using print_parts_wraps [OF Cons.prems [unfolded Word] False] .
      from Cons.IH [OF this] show ?thesis using False Word by simp
    qed
  qed
qed simp

lemma place_wrap:
  "(r, c, w) \<in> set (place n ps row i) \<Longrightarrow> \<forall>p \<in> set ps. part_ok p \<Longrightarrow> length w < n \<Longrightarrow>
     c + length w < n"
  by (induction n ps row i rule: place.induct) (auto split: if_splits)

lemma place_text:
  "\<forall>p \<in> set ps. part_ok p \<Longrightarrow>
   concat (map (\<lambda>(r, c, w). w) (place n ps row i)) =
     concat (map (\<lambda>p. if p = Newline then [] else part_text p) ps)"
  by (induction n ps row i rule: place.induct) auto

text \<open>Later words start after earlier ones end.\<close>

lemma place_after:
  assumes "0 < n" and "\<forall>p \<in> set ps. part_ok p" and "i \<le> n"
    and "(r, c, w) \<in> set (place n ps row i)"
  shows "n * row + i \<le> n * r + c"
  using assms
proof (induction n ps row i rule: place.induct)
  case (3 n v l ps row i)
  have e: "n * (l div n) + l mod n = l" by simp
  show ?case
  proof (cases "i + l < n")
    case True
    then have "l div n = 0" by simp
    then show ?thesis using 3 True by (auto simp: algebra_simps)
  next
    case False
    have "n * row + i \<le> n * (row + 1)" using 3(5) by (simp add: algebra_simps)
    moreover have "(r, c, w) \<in> set (place n ps (row + 1 + l div n) (l mod n)) \<Longrightarrow>
        n * (row + 1) \<le> n * r + c"
      using 3(2) [OF False 3(3)] 3(4) 3(3) mod_less_divisor [OF 3(3), of l]
      by (auto simp: algebra_simps)
    ultimately show ?thesis using 3(6) False by auto
  qed
qed (auto simp: algebra_simps)

lemma place_sorted:
  assumes "0 < n" and "\<forall>p \<in> set ps. part_ok p"
  shows "sorted_wrt (\<lambda>(r, c, w) (r', c', w'). n * r + c + length w \<le> n * r' + c') (place n ps row i)"
  using assms
proof (induction n ps row i rule: place.induct)
  case (3 n w l ps row i)
  have l: "l = length w" and ok: "\<forall>p \<in> set ps. part_ok p" using 3(4) by simp_all
  show ?case
  proof (cases "i + l < n")
    case True
    then have "l div n = 0" by simp
    then have "n * row + i + l \<le> n * r + c" if "(r, c, v) \<in> set (place n ps row (i + l))" for r c v
      using place_after [OF 3(3) ok _ that] True by simp
    then show ?thesis using 3(1) [OF True 3(3) ok] True l \<open>l div n = 0\<close> by auto
  next
    case False
    have e: "n * (row + 1) + l = n * (row + 1 + l div n) + l mod n"
      by (simp add: algebra_simps)
    have "n * (row + 1) + l \<le> n * r + c"
      if "(r, c, v) \<in> set (place n ps (row + 1 + l div n) (l mod n))" for r c v
      unfolding e using place_after [OF 3(3) ok _ that] mod_less_divisor [OF 3(3), of l] by simp
    then show ?thesis using 3(2) [OF False 3(3) ok] False l by auto
  qed
qed auto

lemma put_all_keeps:
  "take m (drop o1 cells) = ys \<Longrightarrow> length ys = m \<Longrightarrow> \<forall>(r, c, w) \<in> set ws. o1 + m \<le> n * r + c \<Longrightarrow>
     take m (drop o1 (put_all n f ws cells)) = ys"
proof (induction n f ws cells rule: put_all.induct)
  case (2 n f r c w ws cells)
  then show ?case using cells_put_other_window [OF 2(2,3)] by simp
qed simp

lemma put_all_window:
  assumes "sorted_wrt (\<lambda>(r, c, w) (r', c', w'). n * r + c + length w \<le> n * r' + c') ws"
    and "(r, c, w) \<in> set ws"
  shows "take (length w) (drop (n * r + c) (put_all n f ws cells)) = map f w"
  using assms
proof (induction n f ws cells rule: put_all.induct)
  case (2 n f r1 c1 w1 ws cells)
  show ?case
  proof (cases "(r, c, w) \<in> set ws")
    case True
    then show ?thesis using 2 by simp
  next
    case False
    then have eq: "r1 = r" "c1 = c" "w1 = w" using 2(3) by auto
    have win: "take (length w) (drop (n * r + c) (cells_put cells (n * r + c) (map f w))) = map f w"
      using cells_put_window [of "map f w"] by simp
    show ?thesis
      using put_all_keeps [OF win, of ws n f] 2(2) eq by auto
  qed
qed simp

subsection \<open>Printing does not overflow on sane sizes\<close>

fun part_weight :: "PrintPartType \<Rightarrow> nat" where
  "part_weight Newline = 1"
| "part_weight (Word w l) = Suc l"

definition parts_weight :: "PrintPartType list \<Rightarrow> nat" where
  "parts_weight ps = sum_list (map part_weight ps)"

lemma parts_weight_simps [simp]:
  "parts_weight [] = 0" "parts_weight (p # ps) = part_weight p + parts_weight ps"
  by (simp_all add: parts_weight_def)

lemma split_parts_weight: "parts_weight (split_parts s [] 0) \<le> 2 * length s"
proof -
  have "parts_weight ps \<le> 2 * length (concat (map part_text ps))" if "\<forall>p \<in> set ps. part_ok p" for ps
    using that
  proof (induction ps)
    case (Cons p ps)
    then show ?case by (cases p) (auto simp flip: length_greater_0_conv)
  qed simp
  from this [of "split_parts s [] 0"] show ?thesis
    using split_parts_ok [of 0 "[]" s] split_parts_text [of s "[]" 0] by simp
qed

lemma print_at_fits_row:
  assumes "0 < cb_num_cols b" and "cb_num_cols b * row + col < u64_lim"
  obtains ret1 where "print_at b e row col bg fg w =
      Some (b\<lparr>cb_cells := cells_put (cb_cells b) (cb_num_cols b * row + col) (map (print_cell e bg fg) w)\<rparr>, ret1)"
    "fst ret1 = (cb_num_cols b * row + col + length w) div cb_num_cols b"
  using print_at_iter_eq [OF assms] that by (simp add: print_at_def)

lemma print_parts_total:
  assumes "0 < cb_num_cols b" and "\<forall>p \<in> set ps. part_ok p"
    and "cb_num_cols b * (row + parts_weight ps + 1) < u64_lim"
    and "i + parts_weight ps < u64_lim" and "fst ret + 1 < u64_lim"
  shows "\<exists>b' ret'. print_parts e bg fg ps b row i ret = Some (b', ret') \<and> fst ret' + 1 < u64_lim"
  using assms
proof (induction ps arbitrary: b row i ret)
  case (Cons p ps)
  let ?n = "cb_num_cols b"
  have mono: "x \<le> ?n * x" for x using Cons.prems(1) by simp
  have ok: "\<forall>p \<in> set ps. part_ok p" using Cons.prems(2) by simp
  have rl: "row + parts_weight (p # ps) + 1 < u64_lim"
    using mono [of "row + parts_weight (p # ps) + 1"] Cons.prems(3) by linarith
  show ?case
  proof (cases p)
    case Newline
    then show ?thesis
      using Cons.IH [of b "row + 1" 0 ret] Cons.prems rl ok by (auto simp: add64_def)
  next
    case (Word w l)
    then have l: "l = length w" using Cons.prems(2) by simp
    have bound: "?n * (row + l + parts_weight ps + 2) < u64_lim"
      using Cons.prems(3) Word by (simp add: algebra_simps)
    show ?thesis
    proof (cases "i + l < ?n")
      case True
      have off: "?n * row + i < u64_lim"
      proof -
        have "?n * row + i \<le> ?n * (row + l + parts_weight ps + 2)"
          using True by (simp add: algebra_simps)
        then show ?thesis using bound by linarith
      qed
      obtain ret1 where p: "print_at b e row i bg fg w =
          Some (b\<lparr>cb_cells := cells_put (cb_cells b) (?n * row + i) (map (print_cell e bg fg) w)\<rparr>, ret1)"
        and r: "fst ret1 = (?n * row + i + length w) div ?n"
        using print_at_fits_row [OF Cons.prems(1) off] .
      have "fst ret1 = row" using r True l by (simp add: add.assoc)
      moreover have "l div ?n = 0" using True by simp
      ultimately show ?thesis
        using Cons.IH [of "b\<lparr>cb_cells := cells_put (cb_cells b) (?n * row + i) (map (print_cell e bg fg) w)\<rparr>"
            row "i + l" ret1] Cons.prems p True Word rl ok bound
        by (auto simp: add64_def div64_def algebra_simps)
    next
      case False
      have off: "?n * (row + 1) + 0 < u64_lim"
      proof -
        have "?n * (row + 1) + 0 \<le> ?n * (row + l + parts_weight ps + 2)"
          by (simp add: algebra_simps)
        then show ?thesis using bound by linarith
      qed
      obtain ret1 where p: "print_at b e (row + 1) 0 bg fg w =
          Some (b\<lparr>cb_cells := cells_put (cb_cells b) (?n * (row + 1) + 0) (map (print_cell e bg fg) w)\<rparr>, ret1)"
        and r: "fst ret1 = (?n * (row + 1) + 0 + length w) div ?n"
        using print_at_fits_row [OF Cons.prems(1) off] .
      have q: "l div ?n \<le> l" by (rule div_le_dividend)
      have rb: "row + 1 + l div ?n + 1 < u64_lim"
        using rl q unfolding Word parts_weight_simps part_weight.simps by linarith
      have "fst ret1 = row + 1 + l div ?n"
        using r l Cons.prems(1) by (metis add.right_neutral div_mult_self2 less_not_refl add.commute mult.commute)
      moreover have "?n * (row + 1 + l div ?n + parts_weight ps + 1) < u64_lim"
      proof -
        have "?n * (row + 1 + l div ?n + parts_weight ps + 1) \<le> ?n * (row + l + parts_weight ps + 2)"
          by (rule mult_le_mono2) (use q in simp)
        then show ?thesis using bound by linarith
      qed
      moreover have "l mod ?n + parts_weight ps < u64_lim"
        using Cons.prems(4) mod_less_eq_dividend [of l ?n]
        unfolding Word parts_weight_simps part_weight.simps by linarith
      ultimately show ?thesis
        using Cons.IH [of "b\<lparr>cb_cells := cells_put (cb_cells b) (?n * (row + 1) + 0) (map (print_cell e bg fg) w)\<rparr>"
            "row + 1 + l div ?n" "l mod ?n" ret1] Cons.prems p False Word rl ok rb
        by (auto simp: add64_def div64_def mod64_def not_less_eq_eq)
    qed
  qed
qed simp

section \<open>The contract of a printer\<close>

text \<open>
  The three ways to print that \<open>CharBuff\<close> offers and \<open>Viewport\<close> passes on. Whatever the
  target, printing may only add cells without control characters and never changes the width.
\<close>

datatype print_op = PrintAt | PrintWrap | PrintLn

type_synonym print_cmd = "print_op \<times> u128 \<times> coord \<times> coord \<times> Color \<times> Color \<times> rchar list"

fun run_prints :: "(print_cmd \<Rightarrow> 'b \<Rightarrow> ('b \<times> (coord \<times> coord)) option) \<Rightarrow> print_cmd list \<Rightarrow> 'b \<Rightarrow> 'b option" where
  "run_prints pr [] b = Some b"
| "run_prints pr (x # xs) b = do { (b', _) \<leftarrow> pr x b; run_prints pr xs b' }"

locale safe_printer =
  fixes pr :: "print_cmd \<Rightarrow> 'b \<Rightarrow> ('b \<times> (coord \<times> coord)) option"
    and grid :: "'b \<Rightarrow> CharBuff"
  assumes pr_safe: "pr x b = Some (b', p) \<Longrightarrow> cb_safe (grid b) \<Longrightarrow> cb_safe (grid b')"
    and pr_width: "pr x b = Some (b', p) \<Longrightarrow> cb_num_cols (grid b') = cb_num_cols (grid b)"
begin

lemma run_prints_safe:
  "run_prints pr xs b = Some b' \<Longrightarrow> cb_safe (grid b) \<Longrightarrow>
     cb_safe (grid b') \<and> cb_num_cols (grid b') = cb_num_cols (grid b)"
proof (induction xs arbitrary: b)
  case (Cons x xs)
  then obtain b1 p where "pr x b = Some (b1, p)" "run_prints pr xs b1 = Some b'"
    by (auto simp: bind_Some_iff)
  then show ?case using Cons.IH [of b1] Cons.prems(2) pr_safe pr_width by metis
qed simp

end

definition cb_exec :: "print_cmd \<Rightarrow> CharBuff \<Rightarrow> (CharBuff \<times> (coord \<times> coord)) option" where
  "cb_exec x b = (case x of (op, e, r, c, bg, fg, s) \<Rightarrow>
     (case op of PrintAt \<Rightarrow> print_at b e r c bg fg s
      | PrintWrap \<Rightarrow> cb_print b e r c bg fg s
      | PrintLn \<Rightarrow> cb_println b e r c bg fg s))"

lemma put_all_safe:
  "\<forall>c \<in> set cells. cell_safe c \<Longrightarrow>
     \<forall>c \<in> set (put_all n (print_cell e bg fg) ws cells). cell_safe c"
proof (induction n "print_cell e bg fg" ws cells rule: put_all.induct)
  case (2 n r c w ws cells)
  have "\<forall>x \<in> set (cells_put cells (n * r + c) (map (print_cell e bg fg) w)). cell_safe x"
    using cells_put_set [of cells "n * r + c" "map (print_cell e bg fg) w"] 2(2)
    by (auto simp: cell_safe_def [of Blank] print_cell_safe dest!: subsetD)
  then show ?case using 2(1) by simp
qed simp

lemma inner_print_buff:
  assumes "inner_print b e row col bg fg s nl = Some (b', p)"
  shows "b' = b\<lparr>cb_cells := put_all (cb_num_cols b) (print_cell e bg fg)
                  (place (cb_num_cols b) (split_parts s [] 0) row col) (cb_cells b)\<rparr>"
  using assms
  by (auto simp: inner_print_def bind_Some_iff dest!: print_parts_place split: if_splits)

interpretation cb_printer: safe_printer cb_exec "\<lambda>b. b"
proof (unfold_locales, goal_cases)
  case (1 x b b' p)
  then show ?case
    by (auto simp: cb_exec_def print_at_def cb_print_def cb_println_def cb_safe_def
        dest!: print_at_iter_safe [unfolded cb_safe_def] inner_print_buff
        intro: put_all_safe [rule_format] split: print_op.splits prod.splits)
next
  case (2 x b b' p)
  then show ?case
    by (auto simp: cb_exec_def print_at_def cb_print_def cb_println_def
        dest!: print_at_iter_Some(3) inner_print_buff split: print_op.splits prod.splits)
qed

lemma split_parts_no_newline:
  "newline \<notin> set cur \<Longrightarrow>
     \<forall>p \<in> set (split_parts s cur n). p \<noteq> Newline \<longrightarrow> newline \<notin> set (part_text p)"
proof (induction s cur n rule: split_parts.induct)
  case (2 c cs cur_part cur_len)
  have "c \<noteq> newline" if "\<not> is_whitespace c" using that by (auto simp: is_whitespace_def)
  then show ?case using 2 by auto
qed auto

lemma concat_parts_filter:
  "\<forall>p \<in> set ps. p \<noteq> Newline \<longrightarrow> newline \<notin> set (part_text p) \<Longrightarrow>
     concat (map (\<lambda>p. if p = Newline then [] else part_text p) ps) =
       filter (\<lambda>c. c \<noteq> newline) (concat (map part_text ps))"
proof (induction ps)
  case (Cons p ps)
  then show ?case by (auto intro!: filter_True [symmetric])
qed simp

section \<open>Properties\<close>

text \<open>
  Colours survive the trip through a Clarity value. Reading a colour from a \<open>u32\<close> never
  panics, and reading back the low 32 bits of the value \<open>to_clarity_value\<close> writes gives the
  same colour.
\<close>

theorem color_roundtrip:
  "color_from_u32 x \<noteq> None \<and> color_from_u32 (ucast (color_to_uint c)) = Some c"
  by (simp add: color_from_u32_eq color_roundtrip_bits)

text \<open>
  What printing at a place changes. After \<open>print_at\<close> the cells of the printed range hold
  the characters of the text, every other cell is as it was, and a gap before the range is
  blank; the returned coordinate is the place right after the last character.
\<close>

theorem print_at_cells:
  assumes "print_at b e row col bg fg s = Some (b', p)" and "cb_num_cols b * r' + c' < u64_lim"
  defines "off \<equiv> cb_num_cols b * row + col" and "i \<equiv> cb_num_cols b * r' + c'"
  shows "cb_charcell_at b' r' c' = Some
     (if off \<le> i \<and> i < off + length s then Some (print_cell e bg fg (s ! (i - off)))
      else if i < length (cb_cells b) then Some (cb_cells b ! i)
      else if i < off then Some Blank else None) \<and>
     cb_num_cols b * fst p + snd p = off + length s"
proof -
  note pr = print_at_iter_Some [OF assms(1) [unfolded print_at_def]]
  have le: "cb_num_cols b * r' < u64_lim" using assms(2) by simp
  show ?thesis
    using pr(4) assms(2) le
    by (auto simp: cb_charcell_at_def pr(3) mul64_def add64_def vec_get_def length_cells_put
        cells_put_nth off_def i_def)
qed

definition demo_color :: Color where
  "demo_color = \<lparr>col_r = 1, col_g = 2, col_b = 3\<rparr>"

theorem print_at_cells_witness:
  "\<exists>b' p. print_at (cb_new 4) 7 1 1 demo_color demo_color [104, 105] = Some (b', p) \<and>
     cb_charcell_at b' 1 2 = Some (Some (print_cell 7 demo_color demo_color 105))"
proof -
  obtain b' p where pr: "print_at (cb_new 4) 7 1 1 demo_color demo_color [104, 105] = Some (b', p)"
    using print_at_iter_eq [of "cb_new 4" 1 1] by (simp add: print_at_def cb_new_def u64_lim_def)
  show ?thesis
    using print_at_cells [OF pr, of 1 2] pr by (simp add: cb_new_def u64_lim_def)
qed

text \<open>
  No terminal escapes. Whatever sequence of prints a page performs (at a place,
  word-wrapped, with or without a newline, any text), no cell of the buffer ever holds a
  control character, and the width stays the same.
\<close>

theorem cb_prints_safe:
  assumes "run_prints cb_exec xs (cb_new n) = Some b"
  shows "cb_safe b \<and> cb_num_cols b = n"
  using cb_printer.run_prints_safe [OF assms] by (simp add: cb_safe_def cb_new_def)

theorem cb_prints_safe_witness:
  "\<exists>b. run_prints cb_exec [(PrintAt, 1, 0, 0, demo_color, demo_color, [27, 91])] (cb_new 4) = Some b \<and>
     cb_safe b \<and> cb_num_cols b = 4"
proof -
  obtain b where "run_prints cb_exec [(PrintAt, 1, 0, 0, demo_color, demo_color, [27, 91])] (cb_new 4) = Some b"
    using print_at_iter_eq [of "cb_new 4" 0 0] by (simp add: cb_exec_def print_at_def cb_new_def u64_lim_def)
  then show ?thesis using cb_prints_safe by blast
qed

text \<open>
  Word wrapping. When \<open>inner_print\<close> returns, it has placed words whose concatenation is
  the text without its newlines, in order; no word shorter than the width crosses the end of
  a row; and every placed word can be read back from the buffer at its place.
\<close>

theorem inner_print_words:
  assumes pr: "inner_print b e row col bg fg s nl = Some (b', p)" and n: "0 < cb_num_cols b"
  defines "ws \<equiv> place (cb_num_cols b) (split_parts s [] 0) row col"
  shows "concat (map (\<lambda>(r, c, w). w) ws) = filter (\<lambda>c. c \<noteq> newline) s \<and>
    (\<forall>(r, c, w) \<in> set ws. (length w < cb_num_cols b \<longrightarrow> c + length w < cb_num_cols b) \<and>
       take (length w) (drop (cb_num_cols b * r + c) (cb_cells b')) = map (print_cell e bg fg) w)"
proof -
  let ?ps = "split_parts s [] 0"
  have ok: "\<forall>p \<in> set ?ps. part_ok p" by (rule split_parts_ok) simp
  have nl: "\<forall>p \<in> set ?ps. p \<noteq> Newline \<longrightarrow> newline \<notin> set (part_text p)"
    by (rule split_parts_no_newline) simp
  have "concat (map (\<lambda>(r, c, w). w) ws) = filter (\<lambda>c. c \<noteq> newline) (concat (map part_text ?ps))"
    unfolding ws_def place_text [OF ok] using nl by (rule concat_parts_filter)
  then have "concat (map (\<lambda>(r, c, w). w) ws) = filter (\<lambda>c. c \<noteq> newline) s"
    by (simp add: split_parts_text)
  moreover have "take (length w) (drop (cb_num_cols b * r + c) (cb_cells b')) = map (print_cell e bg fg) w"
    if "(r, c, w) \<in> set ws" for r c w
    using put_all_window [OF place_sorted [OF n ok]] that inner_print_buff [OF pr]
    by (simp add: ws_def)
  ultimately show ?thesis using place_wrap [OF _ ok] by (auto simp: ws_def)
qed

text \<open>
  Printing returns. On a buffer of positive width, with coordinates for which the rows
  the text can take stay below \<open>2^64\<close> cells, \<open>inner_print\<close> does not panic.
\<close>

theorem inner_print_total:
  assumes "0 < cb_num_cols b" and "cb_num_cols b * (row + 2 * length s + 1) < u64_lim"
    and "col + 2 * length s < u64_lim"
  shows "\<exists>b' p. inner_print b e row col bg fg s nl = Some (b', p)"
proof -
  have w: "parts_weight (split_parts s [] 0) \<le> 2 * length s" by (rule split_parts_weight)
  have ok: "\<forall>p \<in> set (split_parts s [] 0). part_ok p" by (rule split_parts_ok) simp
  have "cb_num_cols b * (row + parts_weight (split_parts s [] 0) + 1)
      \<le> cb_num_cols b * (row + 2 * length s + 1)"
    by (rule mult_le_mono2) (use w in simp)
  then have n: "cb_num_cols b * (row + parts_weight (split_parts s [] 0) + 1) < u64_lim"
    using assms(2) by linarith
  have "row + 2 * length s + 1 \<le> cb_num_cols b * (row + 2 * length s + 1)"
    using assms(1) by (cases "cb_num_cols b") simp_all
  then have r: "fst (row, col) + 1 < u64_lim" using assms(2) unfolding fst_conv by linarith
  have c: "col + parts_weight (split_parts s [] 0) < u64_lim" using w assms(3) by linarith
  obtain b' ret where "print_parts e bg fg (split_parts s [] 0) b row col (row, col) = Some (b', ret)"
    "fst ret + 1 < u64_lim"
    using print_parts_total [OF assms(1) ok n c r] by blast
  then show ?thesis by (auto simp: inner_print_def add64_def)
qed

theorem inner_print_words_witness:
  "\<exists>b' p. inner_print (cb_new 4) 7 0 0 demo_color demo_color [97, 98, 32, 99, 100] False = Some (b', p) \<and>
     place 4 (split_parts [97, 98, 32, 99, 100] [] 0) 0 0 = [(0, 0, [97, 98]), (0, 2, [32]), (1, 0, [99, 100])] \<and>
     take 2 (drop 4 (cb_cells b')) = map (print_cell 7 demo_color demo_color) [99, 100]"
proof -
  have pl: "place 4 (split_parts [97, 98, 32, 99, 100] [] 0) 0 0 =
      [(0, 0, [97, 98]), (0, 2, [32]), (1, 0, [99, 100])]" by code_simp
  have "inner_print (cb_new 4) 7 0 0 demo_color demo_color [97, 98, 32, 99, 100] False \<noteq> None"
    by code_simp
  then obtain b' p where pr: "inner_print (cb_new 4) 7 0 0 demo_color demo_color [97, 98, 32, 99, 100] False = Some (b', p)"
    by auto
  have cols: "cb_num_cols (cb_new 4) = 4" by (simp add: cb_new_def)
  have "(1, 0, [99, 100]) \<in> set (place 4 (split_parts [97, 98, 32, 99, 100] [] 0) 0 0)"
    unfolding pl by simp
  then have "take (length [99, 100 :: rchar]) (drop (4 * 1 + 0) (cb_cells b')) =
      map (print_cell 7 demo_color demo_color) [99, 100]"
    using conjunct2 [OF inner_print_words [OF pr]] unfolding cols by fastforce
  then show ?thesis using pr pl by (intro exI conjI) (simp_all add: numeral_2_eq_2 del: split_parts.simps)
qed

theorem inner_print_total_witness:
  "\<exists>b' p. inner_print (cb_new 80) 7 3 5 demo_color demo_color [104, 105] True = Some (b', p)"
  by (rule inner_print_total) (simp_all add: cb_new_def u64_lim_def)

end
