(* ===== verification/Clarity_Values.thy ===== *)
theory Clarity_Values
  imports Char_Buff
begin

text \<open>
  How the user interface reads Clarity values (\<open>src/ui/mod.rs\<close> and the \<open>from_clarity_value\<close>
  functions). The \<open>Value\<close> type and its \<open>expect_\<close> methods are those of the \<open>clarity\<close> crate:
  they are the fields of a record that every reader takes. A missing tuple entry is a panic
  (the sources call \<open>expect\<close>), a value of the wrong type is an error.
\<close>

unbundle bit_operations_syntax

section \<open>The errors of the user interface\<close>

typedecl clarity_error
typedecl io_error
typedecl vm_error
typedecl db_error

datatype UiError =
    Codec string
  | Overflow usize usize
  | IOError io_error
  | VMError vm_error
  | Clarity clarity_error
  | NoViewport u128
  | DB db_error
  | Page string
  | Event string
  | Wrb string

section \<open>The interface of a Clarity value\<close>

record 'v clarity =
  cl_expect_tuple :: "'v \<Rightarrow> (clarity_error, string \<Rightarrow> 'v option) outcome"
  cl_expect_u128 :: "'v \<Rightarrow> (clarity_error, u128) outcome"
  cl_expect_bool :: "'v \<Rightarrow> (clarity_error, bool) outcome"
  cl_expect_optional :: "'v \<Rightarrow> (clarity_error, 'v option) outcome"
  cl_expect_list :: "'v \<Rightarrow> (clarity_error, 'v list) outcome"
  cl_utf8_data :: "'v \<Rightarrow> bytes list option"  \<comment> \<open>the match on a UTF-8 sequence\<close>
  cl_interpreter_expect :: "string \<Rightarrow> clarity_error"
  cl_bool :: "bool \<Rightarrow> 'v"
  cl_string_utf8 :: "rchar list \<Rightarrow> (clarity_error, 'v) outcome"
  cl_tuple :: "(string \<times> 'v) list \<Rightarrow> (clarity_error, 'v) outcome"
  cl_cons_list :: "'v list \<Rightarrow> (clarity_error, 'v) outcome"

section \<open>Strings\<close>

definition u32_from_be_bytes :: "u8 \<Rightarrow> u8 \<Rightarrow> u8 \<Rightarrow> u8 \<Rightarrow> u32" where
  "u32_from_be_bytes a b c d =
     push_bit 24 (ucast a) OR push_bit 16 (ucast b) OR push_bit 8 (ucast c) OR ucast d"

text \<open>One element of the data: a code point in at most four bytes.\<close>

fun utf8_char :: "bytes \<Rightarrow> rchar" where
  "utf8_char [] = (case char_from_u32 (u32_from_be_bytes 0 0 0 0) of Some c \<Rightarrow> c | None \<Rightarrow> REPLACEMENT_CHARACTER)"
| "utf8_char [a] = (case char_from_u32 (u32_from_be_bytes 0 0 0 a) of Some c \<Rightarrow> c | None \<Rightarrow> REPLACEMENT_CHARACTER)"
| "utf8_char [a, b] = (case char_from_u32 (u32_from_be_bytes 0 0 a b) of Some c \<Rightarrow> c | None \<Rightarrow> REPLACEMENT_CHARACTER)"
| "utf8_char [a, b, c] = (case char_from_u32 (u32_from_be_bytes 0 a b c) of Some c \<Rightarrow> c | None \<Rightarrow> REPLACEMENT_CHARACTER)"
| "utf8_char [a, b, c, d] = (case char_from_u32 (u32_from_be_bytes a b c d) of Some c \<Rightarrow> c | None \<Rightarrow> REPLACEMENT_CHARACTER)"
| "utf8_char _ = REPLACEMENT_CHARACTER"

definition expect_utf8 :: "'v clarity \<Rightarrow> 'v \<Rightarrow> (clarity_error, rchar list) outcome" where
  "expect_utf8 V v =
     (case cl_utf8_data V v of
        Some data \<Rightarrow> Ok (map utf8_char data)
      | None \<Rightarrow> Err (cl_interpreter_expect V ''expected utf8 string''))"

lemma utf8_char_scalar: "is_scalar (utf8_char bs)"
  by (cases bs rule: utf8_char.cases)
     (auto simp: char_from_u32_def REPLACEMENT_CHARACTER_def is_scalar_def split: option.splits)

section \<open>Tuple entries\<close>

definition tuple_get :: "(string \<Rightarrow> 'v option) \<Rightarrow> string \<Rightarrow> (UiError, 'v) outcome" where
  "tuple_get t name = from_opt (t name)"

definition get_u128 :: "'v clarity \<Rightarrow> (string \<Rightarrow> 'v option) \<Rightarrow> string \<Rightarrow> (UiError, u128) outcome" where
  "get_u128 V t name = obind (tuple_get t name) (\<lambda>v. map_err Clarity (cl_expect_u128 V v))"

definition get_bool :: "'v clarity \<Rightarrow> (string \<Rightarrow> 'v option) \<Rightarrow> string \<Rightarrow> (UiError, bool) outcome" where
  "get_bool V t name = obind (tuple_get t name) (\<lambda>v. map_err Clarity (cl_expect_bool V v))"

definition get_optional ::
  "'v clarity \<Rightarrow> (string \<Rightarrow> 'v option) \<Rightarrow> string \<Rightarrow> (UiError, 'v option) outcome" where
  "get_optional V t name = obind (tuple_get t name) (\<lambda>v. map_err Clarity (cl_expect_optional V v))"

definition get_list :: "'v clarity \<Rightarrow> (string \<Rightarrow> 'v option) \<Rightarrow> string \<Rightarrow> (UiError, 'v list) outcome" where
  "get_list V t name = obind (tuple_get t name) (\<lambda>v. map_err Clarity (cl_expect_list V v))"

definition get_utf8 :: "'v clarity \<Rightarrow> (string \<Rightarrow> 'v option) \<Rightarrow> string \<Rightarrow> (UiError, rchar list) outcome" where
  "get_utf8 V t name = obind (tuple_get t name) (\<lambda>v. map_err Clarity (expect_utf8 V v))"

definition expect_tuple :: "'v clarity \<Rightarrow> 'v \<Rightarrow> (UiError, string \<Rightarrow> 'v option) outcome" where
  "expect_tuple V v = map_err Clarity (cl_expect_tuple V v)"

text \<open>\<open>u64::try_from\<close> and \<open>u32::try_from\<close> of a \<open>u128\<close>, and a colour entry.\<close>

definition u64_try_from :: "u128 \<Rightarrow> nat option" where
  "u64_try_from x = (if x < 0x10000000000000000 then Some (unat x) else None)"

definition u32_try_from :: "u128 \<Rightarrow> u32 option" where
  "u32_try_from x = (if x < 0x100000000 then Some (ucast x) else None)"

definition color_entry :: "u128 \<Rightarrow> (UiError, Color) outcome" where
  "color_entry x =
     obind (from_opt (u32_try_from (x AND 0xffffffff))) (\<lambda>c. from_opt (color_from_u32 c))"

lemma u64_try_from_bound: "u64_try_from x = Some n \<Longrightarrow> n < u64_lim"
  by (auto simp: u64_try_from_def u64_lim_def word_less_nat_alt split: if_splits)

lemma color_entry_total: "\<exists>c. color_entry x = Ok c"
proof -
  have "x AND 0xffffffff \<le> 0xffffffff" by (rule word_and_le1)
  then have "x AND 0xffffffff < 0x100000000" by (rule order_le_less_trans) simp
  then show ?thesis by (simp add: color_entry_def u32_try_from_def color_from_u32_eq)
qed

end
