(* ===== verification/Globals.thy ===== *)
theory Globals
  imports Clarity_Values
begin

text \<open>
  The global state of the browser (\<open>src/core/globals.rs\<close>): the configuration, the open wrbpod
  sessions with the index of their addresses, the large strings of the page and the contracts
  loaded so far. The mutex around it is a lock for one caller at a time, so every access is a
  function of the state. The identifiers and contracts are those of the \<open>clarity\<close> crate;
  configurations and wrbpods are arguments of the type.
\<close>

typedecl QualifiedContractIdentifier
typedecl Contract

record WrbpodAddress =
  wa_contract :: QualifiedContractIdentifier
  wa_slot :: u32

record ('g, 'w) Globals =
  gl_config :: "'g option"
  gl_wrbpod_sessions :: "u128 \<rightharpoonup> 'w"
  gl_wrbpod_addr_to_session_id :: "WrbpodAddress \<rightharpoonup> u128"
  gl_next_wrbpod_session_id :: u128
  gl_large_strings :: "u128 \<rightharpoonup> rchar list"
  gl_cached_contracts :: "QualifiedContractIdentifier \<rightharpoonup> Contract"

definition gl_default :: "('g, 'w) Globals" where
  "gl_default = \<lparr>gl_config = None, gl_wrbpod_sessions = Map.empty, gl_wrbpod_addr_to_session_id = Map.empty,
     gl_next_wrbpod_session_id = 0, gl_large_strings = Map.empty, gl_cached_contracts = Map.empty\<rparr>"

definition gl_reset :: "('g, 'w) Globals \<Rightarrow> ('g, 'w) Globals" where
  "gl_reset g = g\<lparr>gl_wrbpod_sessions := Map.empty\<rparr>"

definition get_config :: "('g, 'w) Globals \<Rightarrow> 'g option" where
  "get_config g = gl_config g"

definition set_config :: "('g, 'w) Globals \<Rightarrow> 'g \<Rightarrow> ('g, 'w) Globals" where
  "set_config g conf = g\<lparr>gl_config := Some conf\<rparr>"

text \<open>The increment of the counter panics on overflow.\<close>

definition next_wrbpod_session_id :: "('g, 'w) Globals \<Rightarrow> (('g, 'w) Globals \<times> u128) option" where
  "next_wrbpod_session_id g =
     (let next_id = gl_next_wrbpod_session_id g in
      if next_id = - 1 then None else Some (g\<lparr>gl_next_wrbpod_session_id := next_id + 1\<rparr>, next_id))"

definition add_wrbpod_session :: "('g, 'w) Globals \<Rightarrow> u128 \<Rightarrow> WrbpodAddress \<Rightarrow> 'w \<Rightarrow> ('g, 'w) Globals" where
  "add_wrbpod_session g session_id wrbpod_addr session =
     g\<lparr>gl_wrbpod_sessions := (gl_wrbpod_sessions g)(session_id \<mapsto> session),
       gl_wrbpod_addr_to_session_id := (gl_wrbpod_addr_to_session_id g)(wrbpod_addr \<mapsto> session_id)\<rparr>"

definition get_wrbpod_session :: "('g, 'w) Globals \<Rightarrow> u128 \<Rightarrow> 'w option" where
  "get_wrbpod_session g session_id = gl_wrbpod_sessions g session_id"

definition get_wrbpod_session_id_by_address :: "('g, 'w) Globals \<Rightarrow> WrbpodAddress \<Rightarrow> u128 option" where
  "get_wrbpod_session_id_by_address g wrbpod_addr = gl_wrbpod_addr_to_session_id g wrbpod_addr"

definition get_wrbpod_session_by_address :: "('g, 'w) Globals \<Rightarrow> WrbpodAddress \<Rightarrow> 'w option" where
  "get_wrbpod_session_by_address g wrbpod_addr =
     (case get_wrbpod_session_id_by_address g wrbpod_addr of None \<Rightarrow> None
      | Some session_id \<Rightarrow> get_wrbpod_session g session_id)"

definition store_large_string_utf8 :: "('g, 'w) Globals \<Rightarrow> u128 \<Rightarrow> rchar list \<Rightarrow> ('g, 'w) Globals" where
  "store_large_string_utf8 g handle str = g\<lparr>gl_large_strings := (gl_large_strings g)(handle \<mapsto> str)\<rparr>"

definition load_large_string_utf8 :: "('g, 'w) Globals \<Rightarrow> u128 \<Rightarrow> rchar list option" where
  "load_large_string_utf8 g handle = gl_large_strings g handle"

definition store_cached_contract ::
  "('g, 'w) Globals \<Rightarrow> QualifiedContractIdentifier \<Rightarrow> Contract \<Rightarrow> ('g, 'w) Globals \<times> Contract" where
  "store_cached_contract g contract_id contract =
     (g\<lparr>gl_cached_contracts := (gl_cached_contracts g)(contract_id \<mapsto> contract)\<rparr>, contract)"

definition load_cached_contract :: "('g, 'w) Globals \<Rightarrow> QualifiedContractIdentifier \<Rightarrow> Contract option" where
  "load_cached_contract g contract_id = gl_cached_contracts g contract_id"

section \<open>Sessions\<close>

text \<open>
  How \<open>wrb-ll-wrbpod-open\<close> uses them (\<open>src/vm/special.rs\<close>): a wrbpod that is open already keeps
  its session, otherwise it gets a new number and an entry.
\<close>

definition open_session ::
  "('g, 'w) Globals \<Rightarrow> WrbpodAddress \<Rightarrow> 'w \<Rightarrow> (('g, 'w) Globals \<times> u128) option" where
  "open_session g addr w =
     (case get_wrbpod_session_id_by_address g addr of
        Some i \<Rightarrow> Some (g, i)
      | None \<Rightarrow> do { (g, i) \<leftarrow> next_wrbpod_session_id g; Some (add_wrbpod_session g i addr w, i) })"

fun open_sessions :: "('g, 'w) Globals \<Rightarrow> (WrbpodAddress \<times> 'w) list \<Rightarrow> (('g, 'w) Globals \<times> u128 list) option" where
  "open_sessions g [] = Some (g, [])"
| "open_sessions g ((addr, w) # rest) =
     do { (g, i) \<leftarrow> open_session g addr w; (g, ids) \<leftarrow> open_sessions g rest; Some (g, i # ids) }"

text \<open>Numbers in use are below the counter, and addresses name sessions that exist.\<close>

definition sessions_inv :: "('g, 'w) Globals \<Rightarrow> bool" where
  "sessions_inv g \<longleftrightarrow> (\<forall>i \<in> dom (gl_wrbpod_sessions g). i < gl_next_wrbpod_session_id g) \<and>
     ran (gl_wrbpod_addr_to_session_id g) \<subseteq> dom (gl_wrbpod_sessions g)"

lemma word_less_Suc:
  fixes i j :: "'a :: len word"
  assumes "i \<noteq> - 1" and "j \<le> i"
  shows "j < i + 1"
proof -
  have "i + 1 \<noteq> 0" using assms(1) by (metis add.commute add_eq_0_iff)
  then have "unat (i + 1) = unat i + 1" by (simp add: add.commute unatSuc)
  then show ?thesis using assms(2) by (simp add: word_less_nat_alt word_le_nat_alt)
qed

lemma open_session_law:
  assumes inv: "sessions_inv g" and op: "open_session g addr w = Some (g', i)"
  shows "sessions_inv g' \<and> gl_wrbpod_sessions g \<subseteq>\<^sub>m gl_wrbpod_sessions g' \<and>
     get_wrbpod_session g' i = get_wrbpod_session_by_address g' addr \<and>
     get_wrbpod_session_by_address g' = (case get_wrbpod_session_by_address g addr of
        None \<Rightarrow> (get_wrbpod_session_by_address g)(addr \<mapsto> w) | Some _ \<Rightarrow> get_wrbpod_session_by_address g)"
proof (cases "gl_wrbpod_addr_to_session_id g addr")
  case (Some j)
  then have "g' = g" "i = j" using op by (auto simp: open_session_def get_wrbpod_session_id_by_address_def)
  moreover have "j \<in> dom (gl_wrbpod_sessions g)" using inv Some by (auto simp: sessions_inv_def ran_def)
  ultimately show ?thesis
    using inv Some
    by (auto simp: get_wrbpod_session_by_address_def get_wrbpod_session_id_by_address_def get_wrbpod_session_def)
next
  case None
  then have g': "i = gl_next_wrbpod_session_id g" "i \<noteq> - 1"
    "g' = add_wrbpod_session (g\<lparr>gl_next_wrbpod_session_id := i + 1\<rparr>) i addr w"
    using op by (auto simp: open_session_def get_wrbpod_session_id_by_address_def next_wrbpod_session_id_def
        Let_def bind_Some_iff split: if_splits)
  have fresh: "gl_wrbpod_sessions g i = None"
    using inv g'(1) unfolding sessions_inv_def by (metis domIff order_less_irrefl)
  have used: "gl_wrbpod_addr_to_session_id g a = Some j \<Longrightarrow> j \<noteq> i \<and> j \<in> dom (gl_wrbpod_sessions g)" for a j
    using inv fresh by (auto simp: sessions_inv_def ran_def)
  have "\<forall>j \<in> dom (gl_wrbpod_sessions g). j < i + 1"
    using inv g'(1) word_less_Suc [OF g'(2)] by (auto simp: sessions_inv_def less_imp_le)
  then have "sessions_inv g'"
    using used word_less_Suc [OF g'(2) order_refl]
    by (auto simp: g'(3) sessions_inv_def add_wrbpod_session_def ran_def split: if_splits) blast
  moreover have "get_wrbpod_session_by_address g' = (get_wrbpod_session_by_address g)(addr \<mapsto> w)"
    using used by (auto simp: fun_eq_iff g'(3) add_wrbpod_session_def get_wrbpod_session_by_address_def
        get_wrbpod_session_id_by_address_def get_wrbpod_session_def split: option.splits)
  ultimately show ?thesis
    using None fresh
    by (auto simp: g'(3) add_wrbpod_session_def map_le_def get_wrbpod_session_by_address_def
        get_wrbpod_session_id_by_address_def get_wrbpod_session_def)
qed

lemma open_sessions_law:
  assumes "sessions_inv g" and "open_sessions g ops = Some (g', ids)"
  shows "sessions_inv g' \<and> gl_wrbpod_sessions g \<subseteq>\<^sub>m gl_wrbpod_sessions g' \<and> length ids = length ops \<and>
     get_wrbpod_session_by_address g' = map_of ops ++ get_wrbpod_session_by_address g \<and>
     (\<forall>k < length ops. get_wrbpod_session g' (ids ! k) = get_wrbpod_session_by_address g' (fst (ops ! k)))"
  using assms
proof (induction ops arbitrary: g ids)
  case (Cons x ops)
  obtain addr w where x: "x = (addr, w)" by (cases x)
  obtain g1 i ids1 where 1: "open_session g addr w = Some (g1, i)" "open_sessions g1 ops = Some (g', ids1)" "ids = i # ids1"
    using Cons.prems(2) by (auto simp: x bind_Some_iff)
  note l1 = open_session_law [OF Cons.prems(1) 1(1)]
  note l2 = Cons.IH [OF conjunct1 [OF l1] 1(2)]
  have addr: "addr \<in> dom (get_wrbpod_session_by_address g1)" using l1 by (auto split: option.splits)
  have same: "get_wrbpod_session_by_address g' addr = get_wrbpod_session_by_address g1 addr"
    using l2 addr by (auto simp: map_add_def split: option.splits)
  have "get_wrbpod_session g1 i = get_wrbpod_session_by_address g1 addr" using l1 by simp
  moreover obtain v where v: "get_wrbpod_session_by_address g1 addr = Some v" using addr by blast
  ultimately have "get_wrbpod_session g' i = Some v"
    using l2 by (metis domI get_wrbpod_session_def map_le_def)
  then have head: "get_wrbpod_session g' i = get_wrbpod_session_by_address g' addr" using same v by simp
  have "get_wrbpod_session_by_address g' = map_of (x # ops) ++ get_wrbpod_session_by_address g"
    using l1 l2 x by (auto simp: fun_eq_iff map_add_def split: option.splits)
  moreover have "gl_wrbpod_sessions g \<subseteq>\<^sub>m gl_wrbpod_sessions g'" using l1 l2 map_le_trans by blast
  ultimately show ?case
    using l2 head 1(3) x by (auto simp: nth_Cons fun_upd_def split: nat.splits)
qed (simp add: get_wrbpod_session_def)

text \<open>
  Wrbpod sessions. However wrbpods are opened, the session of an address is the wrbpod that
  was opened first under that address, the numbers handed out name exactly those sessions, and
  opening a wrbpod never changes the session of another one.
\<close>

theorem sessions_are_a_map:
  assumes "open_sessions gl_default ops = Some (g, ids)"
  shows "get_wrbpod_session_by_address g = map_of ops \<and> length ids = length ops \<and>
     (\<forall>k < length ops. get_wrbpod_session g (ids ! k) = map_of ops (fst (ops ! k)))"
proof -
  have "sessions_inv gl_default" by (simp add: sessions_inv_def gl_default_def)
  moreover have "get_wrbpod_session_by_address (gl_default :: ('a, 'b) Globals) = Map.empty"
    by (simp add: fun_eq_iff get_wrbpod_session_by_address_def get_wrbpod_session_id_by_address_def gl_default_def)
  ultimately show ?thesis using open_sessions_law [OF _ assms] by auto
qed

theorem sessions_are_a_map_witness:
  "\<exists>g ids. open_sessions (gl_default :: (unit, nat) Globals)
      [(\<lparr>wa_contract = undefined, wa_slot = 0\<rparr>, 7), (\<lparr>wa_contract = undefined, wa_slot = 1\<rparr>, 8)] = Some (g, ids) \<and>
     get_wrbpod_session g (ids ! 1) = Some 8"
proof -
  obtain g ids where "open_sessions (gl_default :: (unit, nat) Globals)
      [(\<lparr>wa_contract = undefined, wa_slot = 0\<rparr>, 7), (\<lparr>wa_contract = undefined, wa_slot = 1\<rparr>, 8)] = Some (g, ids)"
    by (simp add: open_session_def get_wrbpod_session_id_by_address_def next_wrbpod_session_id_def gl_default_def
        add_wrbpod_session_def)
  from sessions_are_a_map [OF this] this show ?thesis by auto
qed

text \<open>After a reset the addresses still name the numbers of the sessions that are gone.\<close>

lemma reset_keeps_addresses:
  assumes "get_wrbpod_session_id_by_address g addr = Some i"
  shows "open_session (gl_reset g) addr w = Some (gl_reset g, i) \<and> get_wrbpod_session (gl_reset g) i = None"
  using assms
  by (simp add: open_session_def gl_reset_def get_wrbpod_session_id_by_address_def get_wrbpod_session_def)

end
