(* ===== verification/Scanline.thy ===== *)
theory Scanline
  imports Char_Buff
begin

text \<open>
  The terminal commands of \<open>src/ui/scanline.rs\<close>: a character buffer is compiled into runs of
  text and colour changes. The second half gives the commands a meaning (a terminal with a
  current colour and rows of coloured characters) and shows that running the compiled
  commands draws the buffer, also for a window of its rows.
\<close>

section \<open>The compiler\<close>

datatype Scanline =
    FgColor Color
  | BgColor Color
  | Text "rchar list"
  | SNewline
  | ClearLine
  | ResetColor

record scan_state =
  sc_cmds :: "Scanline list"
  sc_fg :: "Color option"
  sc_bg :: "Color option"
  sc_str :: "rchar list"
  sc_in_blank :: bool

definition scan_init :: scan_state where
  "scan_init = \<lparr>sc_cmds = [], sc_fg = None, sc_bg = None, sc_str = [], sc_in_blank = True\<rparr>"

definition push_cmds :: "Scanline list \<Rightarrow> scan_state \<Rightarrow> scan_state" where
  "push_cmds cs st = st\<lparr>sc_cmds := sc_cmds st @ cs\<rparr>"

definition finish_string :: "scan_state \<Rightarrow> scan_state" where
  "finish_string st =
     (if length (sc_str st) > 0
      then st\<lparr>sc_cmds := sc_cmds st @ [Text (sc_str st)], sc_str := []\<rparr> else st)"

text \<open>The start of a row: the colours in use are carried over.\<close>

definition scan_row_start :: "nat \<Rightarrow> scan_state \<Rightarrow> scan_state" where
  "scan_row_start i st =
     (let st = finish_string st;
          st = (if i > 0 then push_cmds [SNewline, ResetColor] st else st);
          st = push_cmds [ClearLine] st;
          st = (case sc_fg st of Some fg \<Rightarrow> push_cmds [FgColor fg] st | None \<Rightarrow> st)
      in (case sc_bg st of Some bg \<Rightarrow> push_cmds [BgColor bg] st | None \<Rightarrow> st))"

definition scan_fg :: "Color \<Rightarrow> scan_state \<Rightarrow> scan_state" where
  "scan_fg fg st =
     (let st = (case sc_fg st of
                  Some fg_color \<Rightarrow> if fg \<noteq> fg_color then push_cmds [FgColor fg] (finish_string st) else st
                | None \<Rightarrow> push_cmds [FgColor fg] (finish_string st))
      in st\<lparr>sc_fg := Some fg\<rparr>)"

definition scan_bg :: "Color \<Rightarrow> scan_state \<Rightarrow> scan_state" where
  "scan_bg bg st =
     (let st = (case sc_bg st of
                  Some bg_color \<Rightarrow> if bg \<noteq> bg_color then push_cmds [BgColor bg] (finish_string st) else st
                | None \<Rightarrow> push_cmds [BgColor bg] (finish_string st))
      in st\<lparr>sc_bg := Some bg\<rparr>)"

fun scan_cell :: "CharCell \<Rightarrow> scan_state \<Rightarrow> scan_state" where
  "scan_cell Blank st =
     (let st = (if \<not> sc_in_blank st
                then push_cmds [ResetColor] (finish_string (st\<lparr>sc_in_blank := True\<rparr>)) else st)
      in st\<lparr>sc_str := sc_str st @ [space], sc_fg := None, sc_bg := None\<rparr>)"
| "scan_cell (Fill v bg fg e) st =
     (let st = (if sc_in_blank st then (finish_string st)\<lparr>sc_in_blank := False\<rparr> else st);
          st = scan_bg bg (scan_fg fg st)
      in st\<lparr>sc_str := sc_str st @ [v]\<rparr>)"

fun scan_cells :: "coord \<Rightarrow> nat \<Rightarrow> CharCell list \<Rightarrow> scan_state \<Rightarrow> scan_state option" where
  "scan_cells num_cols i [] st = Some st"
| "scan_cells num_cols i (cell # cells) st =
     do { m \<leftarrow> mod64 i num_cols;
          let st = (if m = 0 then scan_row_start i st else st);
          scan_cells num_cols (i + 1) cells (scan_cell cell st) }"

text \<open>The second loop keeps the commands of the rows \<open>start_row .. start_row + num_rows - 1\<close>.\<close>

fun in_range :: "coord \<Rightarrow> coord \<Rightarrow> coord \<Rightarrow> Scanline list \<Rightarrow> Scanline list option" where
  "in_range start_row num_rows row_num [] = Some []"
| "in_range start_row num_rows row_num (cmd # cmds) =
     do { keep \<leftarrow> (if start_row \<le> row_num
                   then do { stop \<leftarrow> add64 start_row num_rows; Some (row_num < stop) }
                   else Some False);
          row_num' \<leftarrow> (if cmd = SNewline then add64 row_num 1 else Some row_num);
          rest \<leftarrow> in_range start_row num_rows row_num' cmds;
          Some (if keep then cmd # rest else rest) }"

definition compile_rows :: "CharBuff \<Rightarrow> coord \<Rightarrow> coord \<Rightarrow> Scanline list option" where
  "compile_rows buff start_row num_rows =
     do { st \<leftarrow> scan_cells (cb_num_cols buff) 0 (cb_cells buff) scan_init;
          let st = push_cmds [ResetColor] (finish_string st);
          in_range start_row num_rows 0 (sc_cmds st) }"

definition scan_compile :: "CharBuff \<Rightarrow> Scanline list option" where
  "scan_compile buff = compile_rows buff 0 (u64_lim - 1)"

fun into_text :: "Scanline \<Rightarrow> rchar list" where
  "into_text (Text s) = s"
| "into_text SNewline = [newline]"
| "into_text _ = []"

text \<open>
  The escape sequences come from \<open>termion\<close>: for a foreground and a background colour, for
  clearing the line and for resetting the two colours.
\<close>

fun into_term_code ::
  "(u8 \<Rightarrow> u8 \<Rightarrow> u8 \<Rightarrow> rchar list) \<Rightarrow> (u8 \<Rightarrow> u8 \<Rightarrow> u8 \<Rightarrow> rchar list) \<Rightarrow> rchar list \<Rightarrow>
   rchar list \<Rightarrow> rchar list \<Rightarrow> Scanline \<Rightarrow> rchar list" where
  "into_term_code fg bg clr fg_reset bg_reset (FgColor c) = fg (col_r c) (col_g c) (col_b c)"
| "into_term_code fg bg clr fg_reset bg_reset (BgColor c) = bg (col_r c) (col_g c) (col_b c)"
| "into_term_code fg bg clr fg_reset bg_reset (Text s) = s"
| "into_term_code fg bg clr fg_reset bg_reset SNewline = [13, 10]"
| "into_term_code fg bg clr fg_reset bg_reset ClearLine = clr"
| "into_term_code fg bg clr fg_reset bg_reset ResetColor = fg_reset @ bg_reset"

section \<open>The meaning of the commands\<close>

type_synonym glyph = "rchar \<times> Color option \<times> Color option"

record terminal =
  t_fg :: "Color option"
  t_bg :: "Color option"
  t_done :: "glyph list list"
  t_cur :: "glyph list"

definition term_reset :: terminal where
  "term_reset = \<lparr>t_fg = None, t_bg = None, t_done = [], t_cur = []\<rparr>"

fun term_step :: "Scanline \<Rightarrow> terminal \<Rightarrow> terminal" where
  "term_step (FgColor c) t = t\<lparr>t_fg := Some c\<rparr>"
| "term_step (BgColor c) t = t\<lparr>t_bg := Some c\<rparr>"
| "term_step (Text s) t = t\<lparr>t_cur := t_cur t @ map (\<lambda>c. (c, t_fg t, t_bg t)) s\<rparr>"
| "term_step SNewline t = t\<lparr>t_done := t_done t @ [t_cur t], t_cur := []\<rparr>"
| "term_step ClearLine t = t\<lparr>t_cur := []\<rparr>"
| "term_step ResetColor t = t\<lparr>t_fg := None, t_bg := None\<rparr>"

definition term_run :: "Scanline list \<Rightarrow> terminal \<Rightarrow> terminal" where
  "term_run cmds t = fold term_step cmds t"

definition screen :: "Scanline list \<Rightarrow> glyph list list" where
  "screen cmds = (let t = term_run cmds term_reset in t_done t @ [t_cur t])"

text \<open>What a cell should look like, and the rows of a buffer of a given width.\<close>

fun shown :: "CharCell \<Rightarrow> glyph" where
  "shown Blank = (space, None, None)"
| "shown (Fill v bg fg e) = (v, Some fg, Some bg)"

function rows_of :: "nat \<Rightarrow> 'a list \<Rightarrow> 'a list list" where
  "rows_of n xs = (if n = 0 \<or> length xs \<le> n then [xs] else take n xs # rows_of n (drop n xs))"
  by auto
termination by (relation "measure (\<lambda>(n, xs). length xs)") auto

declare rows_of.simps [simp del]

text \<open>The text of a screen: its rows with a newline between them.\<close>

definition screen_text :: "glyph list list \<Rightarrow> glyph list \<Rightarrow> rchar list" where
  "screen_text rows cur = concat (map (\<lambda>r. map fst r @ [newline]) rows) @ map fst cur"

section \<open>The state of the compiler and the terminal\<close>

text \<open>What the terminal shows once the pending string is written.\<close>

definition flushed :: "scan_state \<Rightarrow> Scanline list" where
  "flushed st = sc_cmds (finish_string st)"

fun nl_reset :: "Scanline list \<Rightarrow> bool" where
  "nl_reset [] = True"
| "nl_reset (c # cs) = (nl_reset cs \<and> (c = SNewline \<longrightarrow> cs \<noteq> [] \<and> hd cs = ResetColor))"

definition scan_core :: "scan_state \<Rightarrow> glyph list list \<Rightarrow> glyph list \<Rightarrow> bool" where
  "scan_core st rows cur \<longleftrightarrow>
     term_run (flushed st) term_reset = \<lparr>t_fg = sc_fg st, t_bg = sc_bg st, t_done = rows, t_cur = cur\<rparr> \<and>
     concat (map into_text (flushed st)) = screen_text rows cur \<and>
     nl_reset (sc_cmds st)"

definition scan_inv :: "scan_state \<Rightarrow> glyph list list \<Rightarrow> glyph list \<Rightarrow> bool" where
  "scan_inv st rows cur \<longleftrightarrow> scan_core st rows cur \<and>
     (sc_in_blank st \<longleftrightarrow> sc_fg st = None) \<and> (sc_in_blank st \<longleftrightarrow> sc_bg st = None)"

lemma term_run_append [simp]: "term_run (xs @ ys) t = term_run ys (term_run xs t)"
  by (simp add: term_run_def)

lemma term_run_simps [simp]:
  "term_run [] t = t" "term_run (c # cs) t = term_run cs (term_step c t)"
  by (simp_all add: term_run_def)

lemma nl_reset_append: "nl_reset xs \<Longrightarrow> nl_reset (xs @ ys) = nl_reset ys"
  by (induction xs) auto

lemma flushed_simps:
  "flushed st = sc_cmds st @ (if sc_str st = [] then [] else [Text (sc_str st)])"
  by (simp add: flushed_def finish_string_def)

lemma finish_string_simps [simp]:
  "sc_cmds (finish_string st) = flushed st" "sc_str (finish_string st) = []"
  "sc_fg (finish_string st) = sc_fg st" "sc_bg (finish_string st) = sc_bg st"
  "sc_in_blank (finish_string st) = sc_in_blank st"
  "flushed (finish_string st) = flushed st"
  by (simp_all add: flushed_def finish_string_def)

lemma nl_reset_flushed: "nl_reset (sc_cmds st) \<Longrightarrow> nl_reset (flushed st)"
  by (simp add: flushed_simps nl_reset_append)

lemma flushed_upd [simp]:
  "flushed (st\<lparr>sc_fg := f\<rparr>) = flushed st" "flushed (st\<lparr>sc_bg := f\<rparr>) = flushed st"
  "flushed (st\<lparr>sc_in_blank := b\<rparr>) = flushed st"
  by (simp_all add: flushed_simps)

lemma push_cmds_simps [simp]:
  "sc_cmds (push_cmds cs st) = sc_cmds st @ cs" "sc_str (push_cmds cs st) = sc_str st"
  "sc_fg (push_cmds cs st) = sc_fg st" "sc_bg (push_cmds cs st) = sc_bg st"
  "sc_in_blank (push_cmds cs st) = sc_in_blank st"
  by (simp_all add: push_cmds_def)

lemma flushed_push [simp]: "flushed (push_cmds cs (finish_string st)) = flushed st @ cs"
  by (simp add: flushed_simps [of "push_cmds cs (finish_string st)"])

lemma scan_init_inv: "scan_inv scan_init [] []"
  by (simp add: scan_inv_def scan_core_def scan_init_def flushed_simps term_reset_def screen_text_def)

lemma scan_row_start_inv:
  assumes "scan_inv st rows cur" and "i > 0 \<or> (rows = [] \<and> cur = [])"
  shows "scan_inv (scan_row_start i st) (if i > 0 then rows @ [cur] else rows) []"
  using assms nl_reset_flushed [of st]
  by (auto simp: scan_inv_def scan_core_def scan_row_start_def Let_def flushed_simps [of "push_cmds _ _"]
      screen_text_def nl_reset_append split: option.splits)

lemma scan_fg_core:
  assumes "scan_core st rows cur"
  shows "scan_core (scan_fg fg st) rows cur"
  using assms nl_reset_flushed [of st]
  by (auto simp: scan_core_def scan_fg_def Let_def nl_reset_append split: option.splits)

lemma scan_bg_core:
  assumes "scan_core st rows cur"
  shows "scan_core (scan_bg bg st) rows cur"
  using assms nl_reset_flushed [of st]
  by (auto simp: scan_core_def scan_bg_def Let_def nl_reset_append split: option.splits)

lemma scan_colors [simp]:
  "sc_fg (scan_fg fg st) = Some fg" "sc_bg (scan_fg fg st) = sc_bg st"
  "sc_bg (scan_bg bg st) = Some bg" "sc_fg (scan_bg bg st) = sc_fg st"
  "sc_in_blank (scan_fg fg st) = sc_in_blank st" "sc_in_blank (scan_bg bg st) = sc_in_blank st"
  by (auto simp: scan_fg_def scan_bg_def Let_def split: option.splits)

lemma scan_push_core:
  assumes "scan_core st rows cur"
  shows "scan_core (st\<lparr>sc_str := sc_str st @ [v]\<rparr>) rows (cur @ [(v, sc_fg st, sc_bg st)])"
proof -
  let ?t = "term_run (sc_cmds st) term_reset"
  obtain f g d c where "?t = \<lparr>t_fg = f, t_bg = g, t_done = d, t_cur = c\<rparr>" by (rule terminal.cases)
  moreover from this have "t_fg ?t = sc_fg st \<and> t_bg ?t = sc_bg st"
    using assms by (auto simp: scan_core_def flushed_simps split: if_splits)
  ultimately show ?thesis
    using assms by (auto simp: scan_core_def flushed_simps screen_text_def split: if_splits)
qed

lemma scan_reset_core:
  assumes "scan_core st rows cur"
  shows "scan_core ((push_cmds [ResetColor] (finish_string (st\<lparr>sc_in_blank := True\<rparr>)))
           \<lparr>sc_fg := None, sc_bg := None\<rparr>) rows cur"
  using assms nl_reset_flushed [of st] by (simp add: scan_core_def nl_reset_append)

lemma sc_upd_commute:
  "st\<lparr>sc_fg := f, sc_bg := g, sc_str := x\<rparr> = st\<lparr>sc_str := x, sc_fg := f, sc_bg := g\<rparr>"
  by simp

lemma scan_cell_inv:
  assumes "scan_inv st rows cur"
  shows "scan_inv (scan_cell c st) rows (cur @ [shown c])"
proof (cases c)
  case Blank
  show ?thesis
  proof (cases "sc_in_blank st")
    case True
    then have "scan_cell Blank st = st\<lparr>sc_str := sc_str st @ [space]\<rparr>"
      using assms by (cases st) (simp add: scan_inv_def)
    then show ?thesis
      using True Blank assms scan_push_core [of st rows cur space]
      by (simp add: scan_inv_def del: scan_cell.simps)
  next
    case False
    then show ?thesis
      using Blank assms scan_push_core [OF scan_reset_core, of st rows cur space]
      by (simp add: scan_inv_def sc_upd_commute)
  qed
next
  case (Fill v bg fg e)
  let ?st = "if sc_in_blank st then (finish_string st)\<lparr>sc_in_blank := False\<rparr> else st"
  have "scan_core ?st rows cur"
    using assms nl_reset_flushed [of st] by (simp add: scan_inv_def scan_core_def)
  then have "scan_core (scan_bg bg (scan_fg fg ?st)) rows cur"
    by (intro scan_bg_core scan_fg_core)
  from scan_push_core [OF this, of v] show ?thesis
    using Fill by (simp add: scan_inv_def Let_def)
qed

text \<open>The rows that the loop has drawn, as a function of the cells alone.\<close>

fun draw :: "nat \<Rightarrow> nat \<Rightarrow> 'a list \<Rightarrow> 'a list list \<Rightarrow> 'a list \<Rightarrow> 'a list list \<times> 'a list" where
  "draw n i [] rows cur = (rows, cur)"
| "draw n i (x # xs) rows cur =
     (if i mod n = 0 \<and> i > 0 then draw n (i + 1) xs (rows @ [cur]) [x]
      else draw n (i + 1) xs rows (cur @ [x]))"

lemma scan_cells_inv:
  assumes "0 < n" and "scan_inv st rows cur" and "i > 0 \<or> (rows = [] \<and> cur = [])"
  shows "\<exists>st'. scan_cells n i cells st = Some st' \<and>
           scan_inv st' (fst (draw n i (map shown cells) rows cur)) (snd (draw n i (map shown cells) rows cur))"
  using assms
proof (induction cells arbitrary: i st rows cur)
  case (Cons c cells)
  show ?case
  proof (cases "i mod n = 0")
    case True
    have "scan_inv (scan_cell c (scan_row_start i st)) (if i > 0 then rows @ [cur] else rows) ([] @ [shown c])"
      by (intro scan_cell_inv scan_row_start_inv Cons.prems)
    from Cons.IH [OF Cons.prems(1) this, of "i + 1"] show ?thesis
      using True Cons.prems(1,3) by (cases "i > 0") (auto simp: mod64_def)
  next
    case False
    have "scan_inv (scan_cell c st) rows (cur @ [shown c])" by (intro scan_cell_inv Cons.prems)
    from Cons.IH [OF Cons.prems(1) this, of "i + 1"] show ?thesis
      using False Cons.prems(1) by (auto simp: mod64_def)
  qed
qed auto


lemma draw_rows_of:
  assumes "0 < n" and "i = n * length rows + length cur" and "length cur \<le> n" and "cur \<noteq> [] \<or> i = 0"
  shows "fst (draw n i xs rows cur) @ [snd (draw n i xs rows cur)] = rows @ rows_of n (cur @ xs)"
  using assms
proof (induction xs arbitrary: i rows cur)
  case Nil
  then show ?case by (simp add: rows_of.simps)
next
  case (Cons x xs)
  show ?case
  proof (cases "i mod n = 0 \<and> i > 0")
    case True
    then have len: "length cur = n"
      using Cons.prems by (cases "length cur = n") (auto simp: mod_less)
    have "rows_of n (cur @ x # xs) = cur # rows_of n ([x] @ xs)"
      using len Cons.prems(1) by (subst rows_of.simps) simp
    moreover have "fst (draw n (i + 1) xs (rows @ [cur]) [x]) @ [snd (draw n (i + 1) xs (rows @ [cur]) [x])] =
        (rows @ [cur]) @ rows_of n ([x] @ xs)"
      by (rule Cons.IH) (use Cons.prems len in \<open>auto simp: Suc_le_eq\<close>)
    ultimately show ?thesis using True by simp
  next
    case False
    then have "length cur < n"
      using Cons.prems by (cases "length cur = n") auto
    then have "fst (draw n (i + 1) xs rows (cur @ [x])) @ [snd (draw n (i + 1) xs rows (cur @ [x]))] =
        rows @ rows_of n ((cur @ [x]) @ xs)"
      by (intro Cons.IH) (use Cons.prems in auto)
    moreover have "draw n i (x # xs) rows cur = draw n (i + 1) xs rows (cur @ [x])"
      using False by auto
    ultimately show ?thesis by simp
  qed
qed

section \<open>A window of the rows\<close>

definition win_rel :: "nat \<Rightarrow> nat \<Rightarrow> terminal \<Rightarrow> terminal \<Rightarrow> bool" where
  "win_rel s m t t' \<longleftrightarrow>
     (if length (t_done t) < s then t' = term_reset
      else if length (t_done t) < s + m then t' = t\<lparr>t_done := drop s (t_done t)\<rparr>
      else t_done t' = take m (drop s (t_done t)) \<and> t_cur t' = [])"

definition window :: "nat \<Rightarrow> nat \<Rightarrow> 'a list list \<Rightarrow> 'a list list" where
  "window s m rows =
     (if length rows \<le> s then [[]] else if length rows \<le> s + m then drop s rows
      else take m (drop s rows) @ [[]])"

lemma in_range_Cons:
  assumes "s + m < u64_lim" and "c = SNewline \<longrightarrow> r + 1 < u64_lim"
  shows "in_range s m r (c # cs) =
     map_option (\<lambda>ws. if s \<le> r \<and> r < s + m then c # ws else ws)
       (in_range s m (if c = SNewline then r + 1 else r) cs)"
  using assms by (cases "in_range s m (if c = SNewline then r + 1 else r) cs") (auto simp: add64_def)

fun newlines :: "Scanline list \<Rightarrow> nat" where
  "newlines [] = 0"
| "newlines (c # cs) = (if c = SNewline then 1 else 0) + newlines cs"

lemma newlines_append [simp]: "newlines (xs @ ys) = newlines xs + newlines ys"
  by (induction xs) auto

lemma newlines_run: "length (t_done (term_run cmds t)) = length (t_done t) + newlines cmds"
proof (induction cmds arbitrary: t)
  case (Cons c cmds)
  then show ?case by (cases c) auto
qed simp

text \<open>A command of the window acts on both terminals, another one on the whole screen only.\<close>

definition win_step :: "nat \<Rightarrow> nat \<Rightarrow> nat \<Rightarrow> Scanline \<Rightarrow> terminal \<Rightarrow> terminal" where
  "win_step s m r c t' = (if s \<le> r \<and> r < s + m then term_step c t' else t')"

definition windowed :: "nat \<Rightarrow> nat \<Rightarrow> Scanline list \<Rightarrow> terminal \<Rightarrow> terminal \<Rightarrow> bool" where
  "windowed s m cmds t t' \<longleftrightarrow>
     (\<exists>ws. in_range s m (length (t_done t)) cmds = Some ws \<and> win_rel s m (term_run cmds t) (term_run ws t'))"

lemma windowed_Cons:
  assumes "s + m < u64_lim" and "c = SNewline \<longrightarrow> length (t_done t) + 1 < u64_lim"
    and "windowed s m cs (term_step c t) (win_step s m (length (t_done t)) c t')"
  shows "windowed s m (c # cs) t t'"
proof -
  have len: "length (t_done (term_step c t)) = (if c = SNewline then length (t_done t) + 1 else length (t_done t))"
    by (cases c) auto
  show ?thesis
    using assms(3) unfolding windowed_def len in_range_Cons [OF assms(1,2)] win_step_def
    by (cases "s \<le> length (t_done t) \<and> length (t_done t) < s + m") auto
qed

lemma win_rel_step:
  assumes "win_rel s m t t'" and "c \<noteq> SNewline"
  shows "win_rel s m (term_step c t) (win_step s m (length (t_done t)) c t')"
  using assms by (cases c) (auto simp: win_rel_def win_step_def)

lemma win_rel_newline:
  assumes "win_rel s m t t'"
  shows "win_rel s m (term_step ResetColor (term_step SNewline t))
     (win_step s m (length (t_done t) + 1) ResetColor (win_step s m (length (t_done t)) SNewline t'))"
  using assms
  by (auto simp: win_rel_def win_step_def term_reset_def take_Suc_conv_app_nth drop_append)

lemma in_range_window:
  assumes "s + m < u64_lim" and "nl_reset cmds" and "win_rel s m t t'"
    and "length (t_done t) + newlines cmds < u64_lim"
  shows "windowed s m cmds t t'"
  using assms(2-)
proof (induction cmds arbitrary: t t' rule: length_induct)
  case (1 cmds)
  then have IH: "windowed s m cs u u'"
    if "length cs < length cmds" "nl_reset cs" "win_rel s m u u'" "length (t_done u) + newlines cs < u64_lim"
    for cs u u' using that by blast
  show ?case
  proof (cases cmds)
    case Nil
    then show ?thesis using "1.prems" by (simp add: windowed_def)
  next
    case (Cons c cs)
    show ?thesis
    proof (cases "c = SNewline")
      case True
      then obtain cs' where cs: "cs = ResetColor # cs'" using Cons "1.prems"(1) by (cases cs) auto
      have "windowed s m cs' (term_step ResetColor (term_step SNewline t))
         (win_step s m (length (t_done t) + 1) ResetColor (win_step s m (length (t_done t)) SNewline t'))"
        by (rule IH [OF _ _ win_rel_newline]) (use Cons True cs "1.prems" in auto)
      then show ?thesis
        using Cons True cs "1.prems"(3) assms(1) by (auto intro!: windowed_Cons)
    next
      case False
      have "windowed s m cs (term_step c t) (win_step s m (length (t_done t)) c t')"
        by (rule IH [OF _ _ win_rel_step])
           (use Cons False "1.prems" newlines_run [of "[c]" t] in auto)
      then show ?thesis using Cons False assms(1) by (auto intro!: windowed_Cons)
    qed
  qed
qed

section \<open>Properties\<close>

lemma scan_all:
  assumes "0 < cb_num_cols b"
  shows "\<exists>st. scan_cells (cb_num_cols b) 0 (cb_cells b) scan_init = Some st \<and>
     (let t = term_run (flushed st) term_reset
      in t_done t @ [t_cur t] = rows_of (cb_num_cols b) (map shown (cb_cells b)) \<and>
         concat (map into_text (flushed st)) = screen_text (t_done t) (t_cur t) \<and>
         nl_reset (flushed st))"
  using scan_cells_inv [OF assms scan_init_inv, of 0 "cb_cells b"]
    draw_rows_of [OF assms, of 0 "[]" "[]" "map shown (cb_cells b)"]
  by (auto simp: scan_inv_def scan_core_def Let_def nl_reset_flushed)

lemma length_rows_of: "length (rows_of n xs) \<le> length xs + 1"
proof (induction n xs rule: rows_of.induct)
  case (1 n xs)
  show ?case
  proof (cases "n = 0 \<or> length xs \<le> n")
    case True
    then show ?thesis by (subst rows_of.simps) simp
  next
    case False
    with 1 show ?thesis by (subst rows_of.simps) auto
  qed
qed

lemma in_range_all:
  assumes "m < u64_lim" and "r + newlines cmds < m"
  shows "in_range 0 m r cmds = Some cmds"
  using assms(2)
proof (induction cmds arbitrary: r)
  case (Cons c cmds)
  have "in_range 0 m (if c = SNewline then r + 1 else r) cmds = Some cmds"
    by (rule Cons.IH) (use Cons.prems in auto)
  moreover have "c = SNewline \<longrightarrow> r + 1 < u64_lim" using Cons.prems assms(1) by auto
  ultimately show ?case
    using in_range_Cons [of 0 m c r cmds] Cons.prems assms(1) by (auto simp del: in_range.simps)
qed simp

lemma in_range_subset: "in_range s m r cmds = Some ws \<Longrightarrow> set ws \<subseteq> set cmds"
proof (induction cmds arbitrary: r ws)
  case (Cons c cmds)
  then show ?case by (fastforce simp: bind_Some_iff split: if_splits)
qed simp

text \<open>The characters of the text commands are those of the cells.\<close>

fun texts :: "Scanline list \<Rightarrow> rchar list" where
  "texts [] = []"
| "texts (Text s # cs) = s @ texts cs"
| "texts (_ # cs) = texts cs"

lemma texts_append [simp]: "texts (xs @ ys) = texts xs @ texts ys"
  by (induction xs rule: texts.induct) auto

lemma set_texts: "Text t \<in> set cmds \<Longrightarrow> set t \<subseteq> set (texts cmds)"
  by (induction cmds rule: texts.induct) auto

lemma texts_scan_cell: "texts (flushed (scan_cell c st)) = texts (flushed st) @ [fst (shown c)]"
  by (cases c) (auto simp: Let_def scan_fg_def scan_bg_def flushed_simps finish_string_def
      push_cmds_def split: option.splits)

lemma texts_scan_row_start: "texts (flushed (scan_row_start i st)) = texts (flushed st)"
  by (auto simp: Let_def scan_row_start_def flushed_simps finish_string_def push_cmds_def split: option.splits)

lemma texts_scan_cells:
  "scan_cells n i cells st = Some st' \<Longrightarrow>
     texts (flushed st') = texts (flushed st) @ map (\<lambda>c. fst (shown c)) cells"
proof (induction cells arbitrary: i st)
  case (Cons c cells)
  then show ?case
    by (auto simp: bind_Some_iff texts_scan_cell texts_scan_row_start split: if_splits)
qed simp

lemma shown_safe: "cell_safe x \<Longrightarrow> \<not> is_control (fst (shown x))"
  by (cases x) (simp_all add: cell_safe_def is_control_def)

text \<open>
  C29. The terminal shows the buffer. Running the commands of \<open>compile_rows\<close> on a terminal that
  starts with default colours draws exactly the requested rows: every filled cell with its
  character, foreground and background, every blank cell as a space in default colours. The
  window may start and end anywhere; it ends with an empty row when the buffer goes on.
\<close>

theorem compile_rows_shows:
  assumes "0 < cb_num_cols b" and "s + m < u64_lim" and "length (cb_cells b) + 1 < u64_lim"
  shows "\<exists>cmds. compile_rows b s m = Some cmds \<and>
           screen cmds = window s m (rows_of (cb_num_cols b) (map shown (cb_cells b)))"
proof -
  let ?rows = "rows_of (cb_num_cols b) (map shown (cb_cells b))"
  obtain st where st: "scan_cells (cb_num_cols b) 0 (cb_cells b) scan_init = Some st"
    and nl: "nl_reset (flushed st)"
    and rows: "t_done (term_run (flushed st) term_reset) @ [t_cur (term_run (flushed st) term_reset)] = ?rows"
    using scan_all [OF assms(1)] by (auto simp: Let_def)
  let ?cmds = "flushed st @ [ResetColor]" and ?t = "term_run (flushed st) term_reset"
  have len: "length ?rows = newlines (flushed st) + 1"
    using rows newlines_run [of "flushed st" term_reset]
    by (simp add: term_reset_def) (metis length_append_singleton)
  have "windowed s m ?cmds term_reset term_reset"
  proof (rule in_range_window [OF assms(2)])
    show "nl_reset ?cmds" using nl by (simp add: nl_reset_append)
    show "win_rel s m term_reset term_reset" by (auto simp: win_rel_def term_reset_def)
    show "length (t_done term_reset) + newlines ?cmds < u64_lim"
      using len assms(3) length_rows_of [of "cb_num_cols b" "map shown (cb_cells b)"]
      by (simp add: term_reset_def)
  qed
  then obtain ws where ws: "in_range s m 0 ?cmds = Some ws"
    and rel: "win_rel s m (term_step ResetColor ?t) (term_run ws term_reset)"
    by (auto simp: windowed_def term_reset_def)
  have "screen ws = window s m ?rows"
    using rel rows [symmetric] unfolding screen_def
    by (auto simp: win_rel_def window_def Let_def term_reset_def split: if_splits)
  then show ?thesis using st ws by (simp add: compile_rows_def)
qed

text \<open>
  The text of a screen. \<open>compile\<close> followed by \<open>into_text\<close> gives the characters of the
  rows of the buffer (a space for a blank cell) with a newline between two rows.
\<close>

theorem compile_text:
  assumes "0 < cb_num_cols b" and "length (cb_cells b) + 2 < u64_lim"
  defines "rows \<equiv> rows_of (cb_num_cols b) (map shown (cb_cells b))"
  shows "\<exists>cmds. scan_compile b = Some cmds \<and>
           concat (map into_text cmds) = screen_text (butlast rows) (last rows)"
proof -
  obtain st where st: "scan_cells (cb_num_cols b) 0 (cb_cells b) scan_init = Some st"
    and rows: "t_done (term_run (flushed st) term_reset) @ [t_cur (term_run (flushed st) term_reset)] = rows"
    and tx: "concat (map into_text (flushed st)) =
      screen_text (t_done (term_run (flushed st) term_reset)) (t_cur (term_run (flushed st) term_reset))"
    using scan_all [OF assms(1)] by (auto simp: Let_def rows_def)
  have "length rows = newlines (flushed st) + 1"
    using newlines_run [of "flushed st" term_reset] by (simp add: rows [symmetric] term_reset_def)
  then have "newlines (flushed st @ [ResetColor]) < u64_lim - 1"
    using length_rows_of [of "cb_num_cols b" "map shown (cb_cells b)"] assms(2) by (simp add: rows_def)
  then have "in_range 0 (u64_lim - 1) 0 (flushed st @ [ResetColor]) = Some (flushed st @ [ResetColor])"
    by (intro in_range_all) (auto simp: u64_lim_def)
  moreover have "butlast rows = t_done (term_run (flushed st) term_reset)"
    "last rows = t_cur (term_run (flushed st) term_reset)"
    by (simp_all add: rows [symmetric])
  ultimately show ?thesis using st tx by (simp add: scan_compile_def compile_rows_def)
qed

text \<open>
  C28. Nothing a page prints reaches the terminal as a control sequence. Whatever sequence of
  prints builds the buffer and whatever rows are drawn, the text commands hold no control
  character.
\<close>

theorem page_text_no_control:
  assumes "run_prints cb_exec xs (cb_new n) = Some b" and "compile_rows b s m = Some cmds"
    and "Text str \<in> set cmds" and "c \<in> set str"
  shows "\<not> is_control c"
proof -
  have "cb_safe b"
    using cb_printer.run_prints_safe [OF assms(1)] by (simp add: cb_safe_def cb_new_def)
  then have safe: "\<forall>x \<in> set (cb_cells b). \<not> is_control (fst (shown x))"
    by (simp add: cb_safe_def shown_safe)
  obtain st where st: "scan_cells (cb_num_cols b) 0 (cb_cells b) scan_init = Some st"
    and ws: "in_range s m 0 (flushed st @ [ResetColor]) = Some cmds"
    using assms(2) by (auto simp: compile_rows_def bind_Some_iff)
  have "texts (flushed st) = map (\<lambda>x. fst (shown x)) (cb_cells b)"
    using texts_scan_cells [OF st] by (simp add: scan_init_def flushed_simps)
  moreover have "c \<in> set (texts (flushed st @ [ResetColor]))"
    using in_range_subset [OF ws] assms(3,4) set_texts by blast
  ultimately show ?thesis using safe by auto
qed

definition demo_buff :: CharBuff where
  "demo_buff = \<lparr>cb_num_cols = 2, cb_cells =
     [Fill 104 (color_rgb 0 0 0) (color_rgb 9 9 9) 1, Blank, Fill 105 (color_rgb 0 0 0) (color_rgb 9 9 9) 1]\<rparr>"

theorem compile_rows_shows_witness:
  "\<exists>cmds. compile_rows demo_buff 1 1 = Some cmds \<and>
     screen cmds = [[(105, Some (color_rgb 9 9 9), Some (color_rgb 0 0 0))]]"
  using compile_rows_shows [of demo_buff 1 1]
  by (simp add: demo_buff_def u64_lim_def window_def rows_of.simps)

theorem compile_text_witness:
  "\<exists>cmds. scan_compile demo_buff = Some cmds \<and> concat (map into_text cmds) = [104, 32, 10, 105]"
  using compile_text [of demo_buff]
  by (simp add: demo_buff_def u64_lim_def rows_of.simps screen_text_def)

theorem page_text_no_control_witness:
  "run_prints cb_exec [(PrintAt, 1, 0, 0, demo_color, demo_color, [27, 91])] (cb_new 4) =
     Some \<lparr>cb_num_cols = 4, cb_cells = [Fill 0xfffd demo_color demo_color 1, Fill 91 demo_color demo_color 1]\<rparr> \<and>
   \<not> is_control 91"
proof -
  let ?b = "\<lparr>cb_num_cols = 4, cb_cells = [Fill 0xfffd demo_color demo_color 1, Fill 91 demo_color demo_color 1]\<rparr>"
  have b: "run_prints cb_exec [(PrintAt, 1, 0, 0, demo_color, demo_color, [27, 91])] (cb_new 4) = Some ?b"
    by code_simp
  have "compile_rows ?b 0 1 = Some [ClearLine, FgColor demo_color, BgColor demo_color, Text [0xfffd, 91], ResetColor]"
    by code_simp
  from page_text_no_control [OF b this, of "[0xfffd, 91]" 91] b show ?thesis by simp
qed

end
