(* ===== verification/Viewport.thy ===== *)
theory Viewport
  imports Clarity_Values Scanline
begin

text \<open>
  A viewport (\<open>src/ui/viewport.rs\<close>): a rectangle of the screen with its own character buffer
  and the upper-left corner of every UI element printed to it. Printing records the corner
  and passes on to the buffer; the rest translates coordinates.
\<close>

section \<open>The viewport and its operations\<close>

record Viewport =
  vp_id :: u128
  vp_start_row :: coord
  vp_start_col :: coord
  vp_num_rows :: coord
  vp_scroll_offset :: coord
  vp_visible :: bool
  vp_parent :: "u128 option"
  vp_prev_viewport :: "u128 option"
  vp_buff :: CharBuff
  vp_element_coords :: "u128 \<rightharpoonup> coord \<times> coord"

definition vp_new :: "u128 \<Rightarrow> coord \<Rightarrow> coord \<Rightarrow> coord \<Rightarrow> coord \<Rightarrow> Viewport" where
  "vp_new i start_row start_col num_rows num_cols =
     \<lparr>vp_id = i, vp_start_row = start_row, vp_start_col = start_col, vp_num_rows = num_rows,
      vp_scroll_offset = 0, vp_visible = True, vp_parent = None, vp_prev_viewport = None,
      vp_buff = cb_new num_cols, vp_element_coords = Map.empty\<rparr>"

definition vp_new_child :: "u128 \<Rightarrow> u128 \<Rightarrow> coord \<Rightarrow> coord \<Rightarrow> coord \<Rightarrow> coord \<Rightarrow> Viewport" where
  "vp_new_child i parent_id start_row start_col num_rows num_cols =
     \<lparr>vp_id = i, vp_start_row = start_row, vp_start_col = start_col, vp_num_rows = num_rows,
      vp_scroll_offset = 0, vp_visible = True, vp_parent = Some parent_id, vp_prev_viewport = None,
      vp_buff = cb_new num_cols, vp_element_coords = Map.empty\<rparr>"

text \<open>An optional entry that holds a \<open>u128\<close>, as \<open>last\<close> and \<open>parent\<close> do.\<close>

definition get_optional_u128 ::
  "'v clarity \<Rightarrow> (string \<Rightarrow> 'v option) \<Rightarrow> string \<Rightarrow> (UiError, u128 option) outcome" where
  "get_optional_u128 V t name =
     obind (get_optional V t name) (\<lambda>opt.
       (case opt of None \<Rightarrow> Ok None
        | Some v \<Rightarrow> obind (map_err Clarity (cl_expect_u128 V v)) (\<lambda>x. Ok (Some x))))"

definition vp_from_clarity_value :: "'v clarity \<Rightarrow> 'v \<Rightarrow> (UiError, Viewport) outcome" where
  "vp_from_clarity_value V value =
     obind (expect_tuple V value) (\<lambda>t.
     obind (get_u128 V t ''id'') (\<lambda>i.
     obind (get_u128 V t ''start-row'') (\<lambda>x. obind (from_opt (u64_try_from x)) (\<lambda>start_row.
     obind (get_u128 V t ''start-col'') (\<lambda>x. obind (from_opt (u64_try_from x)) (\<lambda>start_col.
     obind (get_u128 V t ''num-rows'') (\<lambda>x. obind (from_opt (u64_try_from x)) (\<lambda>num_rows.
     obind (get_u128 V t ''num-cols'') (\<lambda>x. obind (from_opt (u64_try_from x)) (\<lambda>num_cols.
     obind (get_bool V t ''visible'') (\<lambda>visible.
     obind (get_optional_u128 V t ''last'') (\<lambda>last_opt.
     obind (get_optional_u128 V t ''parent'') (\<lambda>parent_opt.
     Ok \<lparr>vp_id = i, vp_start_row = start_row, vp_start_col = start_col, vp_num_rows = num_rows,
         vp_scroll_offset = 0, vp_visible = visible, vp_parent = parent_opt,
         vp_prev_viewport = last_opt, vp_buff = cb_new num_cols,
         vp_element_coords = Map.empty\<rparr>)))))))))))))"

definition vp_pos :: "Viewport \<Rightarrow> coord \<times> coord" where
  "vp_pos vp = (vp_start_row vp, vp_start_col vp)"

definition vp_dims :: "Viewport \<Rightarrow> coord \<times> coord" where
  "vp_dims vp = (vp_num_rows vp, cb_num_cols (vp_buff vp))"

definition update_element_coord :: "Viewport \<Rightarrow> u128 \<Rightarrow> coord \<Rightarrow> coord \<Rightarrow> Viewport" where
  "update_element_coord vp e start_row start_col =
     (case vp_element_coords vp e of
        Some (r, c) \<Rightarrow> vp\<lparr>vp_element_coords := (vp_element_coords vp)(e \<mapsto> (min r start_row, min c start_col))\<rparr>
      | None \<Rightarrow> vp\<lparr>vp_element_coords := (vp_element_coords vp)(e \<mapsto> (start_row, start_col))\<rparr>)"

text \<open>All printing operations record the corner and print to the buffer.\<close>

definition vp_print_to ::
  "Viewport \<Rightarrow> u128 \<Rightarrow> coord \<Rightarrow> coord \<Rightarrow> Color \<Rightarrow> Color \<Rightarrow> rchar list \<Rightarrow> (Viewport \<times> (coord \<times> coord)) option" where
  "vp_print_to vp e start_row start_col bg fg text =
     do { let vp = update_element_coord vp e start_row start_col;
          (b, p) \<leftarrow> print_at (vp_buff vp) e start_row start_col bg fg text;
          Some (vp\<lparr>vp_buff := b\<rparr>, p) }"

definition vp_print ::
  "Viewport \<Rightarrow> u128 \<Rightarrow> coord \<Rightarrow> coord \<Rightarrow> Color \<Rightarrow> Color \<Rightarrow> rchar list \<Rightarrow> (Viewport \<times> (coord \<times> coord)) option" where
  "vp_print vp e start_row start_col bg fg text =
     do { let vp = update_element_coord vp e start_row start_col;
          (b, p) \<leftarrow> cb_print (vp_buff vp) e start_row start_col bg fg text;
          Some (vp\<lparr>vp_buff := b\<rparr>, p) }"

definition vp_println ::
  "Viewport \<Rightarrow> u128 \<Rightarrow> coord \<Rightarrow> coord \<Rightarrow> Color \<Rightarrow> Color \<Rightarrow> rchar list \<Rightarrow> (Viewport \<times> (coord \<times> coord)) option" where
  "vp_println vp e start_row start_col bg fg text =
     do { let vp = update_element_coord vp e start_row start_col;
          (b, p) \<leftarrow> cb_println (vp_buff vp) e start_row start_col bg fg text;
          Some (vp\<lparr>vp_buff := b\<rparr>, p) }"

definition vp_print_iter ::
  "Viewport \<Rightarrow> u128 \<Rightarrow> coord \<Rightarrow> coord \<Rightarrow> Color \<Rightarrow> Color \<Rightarrow> rchar list \<Rightarrow> (Viewport \<times> (coord \<times> coord)) option" where
  "vp_print_iter vp e start_row start_col bg fg text =
     do { let vp = update_element_coord vp e start_row start_col;
          (b, p) \<leftarrow> cb_print_iter (vp_buff vp) e start_row start_col bg fg text;
          Some (vp\<lparr>vp_buff := b\<rparr>, p) }"

definition vp_print_at_iter ::
  "Viewport \<Rightarrow> u128 \<Rightarrow> coord \<Rightarrow> coord \<Rightarrow> Color \<Rightarrow> Color \<Rightarrow> rchar list \<Rightarrow> (Viewport \<times> (coord \<times> coord)) option" where
  "vp_print_at_iter vp e start_row start_col bg fg text =
     do { let vp = update_element_coord vp e start_row start_col;
          (b, p) \<leftarrow> print_at_iter (vp_buff vp) e start_row start_col bg fg text;
          Some (vp\<lparr>vp_buff := b\<rparr>, p) }"

definition translate_coordinate ::
  "Viewport \<Rightarrow> coord \<Rightarrow> coord \<Rightarrow> coord \<Rightarrow> coord \<Rightarrow> (coord \<times> coord) option option" where
  "translate_coordinate vp viewport_abs_row viewport_abs_col abs_row abs_col =
     (let (dim_rows, dim_cols) = vp_dims vp in
      do { r0 \<leftarrow> add64 (vp_start_row vp) viewport_abs_row;
           if abs_row < r0 then Some None else
      do { r1 \<leftarrow> add64 r0 dim_rows;
           if abs_row \<ge> r1 then Some None else
      do { c0 \<leftarrow> add64 (vp_start_col vp) viewport_abs_col;
           if abs_col < c0 then Some None else
      do { c1 \<leftarrow> add64 c0 dim_cols;
           if abs_col \<ge> c1 then Some None else
           Some (do { r \<leftarrow> sub64 abs_row r0; c \<leftarrow> sub64 abs_col c0; Some (r, c) }) }}}})"

definition get_ui_coordinate :: "Viewport \<Rightarrow> coord \<Rightarrow> coord \<Rightarrow> (u128 \<times> coord \<times> coord) option option" where
  "get_ui_coordinate vp row col =
     do { cell \<leftarrow> cb_charcell_at (vp_buff vp) row col;
          Some (case cell of
                  Some (Fill _ _ _ e) \<Rightarrow>
                    do { (ui_row, ui_col) \<leftarrow> vp_element_coords vp e;
                         r \<leftarrow> sub64 row ui_row;
                         c \<leftarrow> sub64 col ui_col;
                         Some (e, r, c) }
                | _ \<Rightarrow> None) }"

definition vp_charcell_at :: "Viewport \<Rightarrow> coord \<Rightarrow> coord \<Rightarrow> CharCell option option" where
  "vp_charcell_at vp rel_row rel_col =
     do { r \<leftarrow> add64 rel_row (vp_scroll_offset vp);
          if r \<ge> vp_num_rows vp then Some None
          else cb_charcell_at (vp_buff vp) r rel_col }"

definition set_visible :: "Viewport \<Rightarrow> bool \<Rightarrow> Viewport" where
  "set_visible vp visible = vp\<lparr>vp_visible := visible\<rparr>"

definition vp_clear :: "Viewport \<Rightarrow> Viewport" where
  "vp_clear vp = vp\<lparr>vp_buff := cb_clear (vp_buff vp)\<rparr>"

definition merge_update :: "Viewport \<Rightarrow> Viewport \<Rightarrow> Viewport" where
  "merge_update self vp =
     self\<lparr>vp_start_row := vp_start_row vp, vp_start_col := vp_start_col vp, vp_num_rows := vp_num_rows vp,
          vp_visible := vp_visible vp, vp_buff := cb_new (cb_num_cols (vp_buff vp))\<rparr>"

definition dump_viewport :: "Viewport \<Rightarrow> rchar list option" where
  "dump_viewport vp = dump_charbuff (vp_buff vp) (vp_num_rows vp)"

section \<open>What printing does to the cells\<close>

text \<open>A print command as the viewport executes it.\<close>

definition vp_exec :: "print_cmd \<Rightarrow> Viewport \<Rightarrow> (Viewport \<times> (coord \<times> coord)) option" where
  "vp_exec x vp = (case x of (op, e, r, c, bg, fg, s) \<Rightarrow>
     (case op of PrintAt \<Rightarrow> vp_print_to vp e r c bg fg s
      | PrintWrap \<Rightarrow> vp_print vp e r c bg fg s
      | PrintLn \<Rightarrow> vp_println vp e r c bg fg s))"

lemma update_element_coord_simps [simp]:
  "vp_buff (update_element_coord vp e r c) = vp_buff vp"
  "vp_element_coords (update_element_coord vp e r c) =
     (vp_element_coords vp)(e \<mapsto>
        (case vp_element_coords vp e of Some (r', c') \<Rightarrow> (min r' r, min c' c) | None \<Rightarrow> (r, c)))"
  by (auto simp: update_element_coord_def split: option.splits)

lemma vp_exec_buff:
  assumes "vp_exec (op, e, r, c, bg, fg, s) vp = Some (vp', p)"
  shows "cb_exec (op, e, r, c, bg, fg, s) (vp_buff vp) = Some (vp_buff vp', p)"
    and "vp_element_coords vp' = vp_element_coords (update_element_coord vp e r c)"
  using assms
  by (auto simp: vp_exec_def cb_exec_def vp_print_to_def vp_print_def vp_println_def bind_Some_iff
      split: print_op.splits)

interpretation vp_printer: safe_printer vp_exec vp_buff
proof (unfold_locales, goal_cases)
  case (1 x b b' p)
  then show ?case by (cases x) (auto dest!: vp_exec_buff(1) cb_printer.pr_safe)
next
  case (2 x b b' p)
  then show ?case by (cases x) (auto dest!: vp_exec_buff(1) cb_printer.pr_width)
qed

lemma place_rows: "(r, c, w) \<in> set (place n ps row i) \<Longrightarrow> row \<le> r"
  by (induction n ps row i rule: place.induct) (fastforce split: if_splits)+

text \<open>A printed cell is unchanged, blank, or a character of the text at or below the start row.\<close>

definition print_effect :: "u128 \<Rightarrow> coord \<Rightarrow> nat \<Rightarrow> CharCell list \<Rightarrow> CharCell list \<Rightarrow> bool" where
  "print_effect e row n cells cells' \<longleftrightarrow>
     (\<forall>i < length cells'. (i < length cells \<and> cells' ! i = cells ! i) \<or> cells' ! i = Blank \<or>
        (n * row \<le> i \<and> cells' ! i \<noteq> Blank \<and> cell_element (cells' ! i) = e))"

lemma print_effect_put:
  assumes "print_effect e row n cells cells'" and "row \<le> r"
  shows "print_effect e row n cells (cells_put cells' (n * r + c) (map (print_cell e bg fg) w))"
  unfolding print_effect_def
proof (intro allI impI)
  fix i assume i: "i < length (cells_put cells' (n * r + c) (map (print_cell e bg fg) w))"
  have le: "n * row \<le> n * r" using assms(2) by simp
  have "n * row \<le> i" if "n * r + c \<le> i" using that le by linarith
  then show "(i < length cells \<and> cells_put cells' (n * r + c) (map (print_cell e bg fg) w) ! i = cells ! i) \<or>
    cells_put cells' (n * r + c) (map (print_cell e bg fg) w) ! i = Blank \<or>
    (n * row \<le> i \<and> cells_put cells' (n * r + c) (map (print_cell e bg fg) w) ! i \<noteq> Blank \<and>
      cell_element (cells_put cells' (n * r + c) (map (print_cell e bg fg) w) ! i) = e)"
    using assms(1) unfolding cells_put_nth [OF i]
    by (auto simp: print_effect_def print_cell_def charcell_new_def)
qed

lemma print_effect_put_all:
  assumes "print_effect e row n cells cells'" and "\<forall>(r, c, w) \<in> set ws. row \<le> r"
  shows "print_effect e row n cells (put_all n (print_cell e bg fg) ws cells')"
  using assms
proof (induction ws arbitrary: cells')
  case (Cons x ws)
  then show ?case by (cases x) (auto intro: print_effect_put)
qed simp

lemma print_effect_refl: "print_effect e row n cells cells"
  by (simp add: print_effect_def)

lemma cb_exec_effect:
  assumes "cb_exec (op, e, r, c, bg, fg, s) b = Some (b', p)"
  shows "cb_num_cols b' = cb_num_cols b \<and> print_effect e r (cb_num_cols b) (cb_cells b) (cb_cells b')"
  using assms place_rows
  by (auto simp: cb_exec_def print_at_def cb_print_def cb_println_def split: print_op.splits
      dest!: print_at_iter_Some(3) inner_print_buff
      intro!: print_effect_put print_effect_put_all print_effect_refl)

section \<open>The corners of the elements\<close>

text \<open>
  Every element on the buffer has a corner, and no cell of an element lies above its corner.
\<close>

definition cell_placed :: "nat \<Rightarrow> (u128 \<rightharpoonup> coord \<times> coord) \<Rightarrow> nat \<Rightarrow> CharCell \<Rightarrow> bool" where
  "cell_placed n co i cell \<longleftrightarrow>
     (case cell of Blank \<Rightarrow> True
      | Fill _ _ _ e \<Rightarrow> (case co e of None \<Rightarrow> False | Some (r, c) \<Rightarrow> n * r \<le> i))"

definition vp_inv :: "Viewport \<Rightarrow> bool" where
  "vp_inv vp \<longleftrightarrow> (\<forall>i < length (cb_cells (vp_buff vp)).
     cell_placed (cb_num_cols (vp_buff vp)) (vp_element_coords vp) i (cb_cells (vp_buff vp) ! i))"

lemma mult_min_le: "n * a \<le> i \<or> n * b \<le> i \<Longrightarrow> n * min a b \<le> (i :: nat)"
  using mult_le_mono2 [of "min a b" a n] mult_le_mono2 [of "min a b" b n] by linarith

lemma cell_placed_old:
  "cell_placed n (vp_element_coords vp) i cell \<Longrightarrow>
     cell_placed n (vp_element_coords (update_element_coord vp e r c)) i cell"
  by (auto simp: cell_placed_def intro: mult_min_le split: CharCell.splits option.splits)

lemma cell_placed_new:
  "n * r \<le> i \<Longrightarrow> cell \<noteq> Blank \<Longrightarrow> cell_element cell = e \<Longrightarrow>
     cell_placed n (vp_element_coords (update_element_coord vp e r c)) i cell"
  by (auto simp: cell_placed_def intro: mult_min_le split: CharCell.splits option.splits)

lemma vp_exec_inv:
  assumes "vp_inv vp" and "vp_exec x vp = Some (vp', p)"
  shows "vp_inv vp'"
proof -
  obtain op e r c bg fg s where x: "x = (op, e, r, c, bg, fg, s)" by (cases x)
  let ?n = "cb_num_cols (vp_buff vp)"
  have n: "cb_num_cols (vp_buff vp') = ?n"
    and eff: "print_effect e r ?n (cb_cells (vp_buff vp)) (cb_cells (vp_buff vp'))"
    using cb_exec_effect vp_exec_buff(1) assms(2) unfolding x by blast+
  have co: "vp_element_coords vp' = vp_element_coords (update_element_coord vp e r c)"
    using vp_exec_buff(2) assms(2) unfolding x by blast
  show ?thesis
    unfolding vp_inv_def n co
  proof (intro allI impI)
    fix i assume i: "i < length (cb_cells (vp_buff vp'))"
    then consider "i < length (cb_cells (vp_buff vp))" "cb_cells (vp_buff vp') ! i = cb_cells (vp_buff vp) ! i"
      | "cb_cells (vp_buff vp') ! i = Blank"
      | "?n * r \<le> i" "cb_cells (vp_buff vp') ! i \<noteq> Blank" "cell_element (cb_cells (vp_buff vp') ! i) = e"
      using eff unfolding print_effect_def by blast
    then show "cell_placed ?n (vp_element_coords (update_element_coord vp e r c)) i (cb_cells (vp_buff vp') ! i)"
    proof cases
      case 1
      then have "cell_placed ?n (vp_element_coords vp) i (cb_cells (vp_buff vp') ! i)"
        using assms(1) unfolding vp_inv_def by simp
      then show ?thesis by (rule cell_placed_old)
    next
      case 2
      then show ?thesis by (simp add: cell_placed_def)
    next
      case 3
      then show ?thesis by (rule cell_placed_new)
    qed
  qed
qed

lemma run_prints_inv: "run_prints vp_exec xs vp = Some vp' \<Longrightarrow> vp_inv vp \<Longrightarrow> vp_inv vp'"
proof (induction xs arbitrary: vp)
  case (Cons x xs)
  then obtain vp1 p where "vp_exec x vp = Some (vp1, p)" "run_prints vp_exec xs vp1 = Some vp'"
    by (auto simp: bind_Some_iff)
  then show ?case using Cons.IH [of vp1] Cons.prems(2) vp_exec_inv by blast
qed simp

section \<open>Properties\<close>

text \<open>
  The bounding box of a viewport. When no sum overflows, \<open>translate_coordinate\<close> answers
  exactly for the coordinates inside the box, and its answer is the offset from the corner
  of the box, so it lies within the dimensions of the viewport.
\<close>

theorem translate_coordinate_box:
  assumes "vp_start_row vp + vr + vp_num_rows vp < u64_lim"
    and "vp_start_col vp + vc + cb_num_cols (vp_buff vp) < u64_lim"
  shows "\<exists>res. translate_coordinate vp vr vc row col = Some res \<and>
     (res = Some (r, c) \<longleftrightarrow>
        row = vp_start_row vp + vr + r \<and> col = vp_start_col vp + vc + c \<and>
        r < vp_num_rows vp \<and> c < cb_num_cols (vp_buff vp))"
  using assms by (auto simp: translate_coordinate_def vp_dims_def add64_def sub64_def)

text \<open>
  Clicking on an element finds it. On a viewport that was filled by printing only, a
  coordinate that shows a character belongs to an element with a recorded corner that is not
  below it; \<open>get_ui_coordinate\<close> answers the element with the offset from its corner unless the
  character was wrapped to the left of the corner.
\<close>

theorem get_ui_coordinate_printed:
  assumes "run_prints vp_exec xs (vp_new i sr sc nr nc) = Some vp"
    and "cb_charcell_at (vp_buff vp) row col = Some (Some (Fill v bg fg e))" and "col < nc"
  shows "\<exists>r c. vp_element_coords vp e = Some (r, c) \<and> r \<le> row \<and>
     get_ui_coordinate vp row col = Some (if c \<le> col then Some (e, row - r, col - c) else None)"
proof -
  have n: "cb_num_cols (vp_buff vp) = nc"
    using vp_printer.run_prints_safe [OF assms(1)] by (simp add: vp_new_def cb_new_def cb_safe_def)
  have inv: "vp_inv vp"
    by (rule run_prints_inv [OF assms(1)]) (simp add: vp_inv_def vp_new_def cb_new_def)
  have cell: "nc * row + col < length (cb_cells (vp_buff vp))"
    "cb_cells (vp_buff vp) ! (nc * row + col) = Fill v bg fg e"
    using assms(2) by (auto simp: cb_charcell_at_def bind_Some_iff mul64_def add64_def n vec_get_def split: if_splits)
  then obtain r c where rc: "vp_element_coords vp e = Some (r, c)" and le: "nc * r \<le> nc * row + col"
    using inv by (fastforce simp: vp_inv_def cell_placed_def n split: option.splits)
  have "nc * r < nc * (row + 1)" using le assms(3) by simp
  then have "r < row + 1" by (rule mult_left_less_imp_less) simp
  then have "r \<le> row" by simp
  then show ?thesis
    using rc assms(2) by (auto simp: get_ui_coordinate_def sub64_def)
qed

lemma vp_exec_wrapped:
  "map_option (\<lambda>vp. get_ui_coordinate vp 1 0)
     (run_prints vp_exec [(PrintWrap, 7, 0, 2, demo_color, demo_color, [97, 98, 99])] (vp_new 1 0 0 4 4)) =
   Some (Some None)"
  by code_simp

text \<open>After a redraw in a new place the old corner of an element is still in force.\<close>

lemma vp_clear_keeps_corner:
  assumes "vp_element_coords vp e = Some (r, c)" and "r \<le> r'" and "c \<le> c'"
    and "vp_print_to (vp_clear vp) e r' c' bg fg s = Some (vp', p)"
  shows "vp_element_coords vp' e = Some (r, c)"
  using assms by (auto simp: vp_print_to_def vp_clear_def bind_Some_iff min_def)

theorem translate_coordinate_box_witness:
  "translate_coordinate (vp_new 1 2 3 10 20) 0 0 4 5 = Some (Some (2, 2))"
  using translate_coordinate_box [of "vp_new 1 2 3 10 20" 0 0 4 5 2 2]
  by (simp add: vp_new_def cb_new_def u64_lim_def)

theorem get_ui_coordinate_printed_witness:
  "\<exists>vp. run_prints vp_exec [(PrintAt, 7, 1, 1, demo_color, demo_color, [97, 98])] (vp_new 1 0 0 4 4) = Some vp \<and>
     get_ui_coordinate vp 1 2 = Some (Some (7, 0, 1))"
proof -
  let ?run = "run_prints vp_exec [(PrintAt, 7, 1, 1, demo_color, demo_color, [97, 98])] (vp_new 1 0 0 4 4)"
  have "map_option (\<lambda>vp. cb_charcell_at (vp_buff vp) 1 2) ?run = Some (Some (Some (Fill 98 demo_color demo_color 7)))"
    and co: "map_option (\<lambda>vp. vp_element_coords vp 7) ?run = Some (Some (1, 1))"
    by code_simp+
  then obtain vp where vp: "?run = Some vp" and c: "cb_charcell_at (vp_buff vp) 1 2 = Some (Some (Fill 98 demo_color demo_color 7))"
    and e: "vp_element_coords vp 7 = Some (1, 1)"
    by auto
  show ?thesis using get_ui_coordinate_printed [OF vp c] vp e by simp
qed

end
