(* ===== verification/Scene_Graph.thy ===== *)
theory Scene_Graph
  imports Viewport
begin

text \<open>
  The scene graph of \<open>src/ui/root.rs\<close>: where every viewport lies on the screen and which one is
  on top. The walk from a viewport to the root follows parent links; it does not end when the
  links form a cycle, so it is a partial function and \<open>None\<close> is a panic or no answer.
\<close>

section \<open>The scene graph\<close>

record SceneGraph =
  sg_viewports :: "Viewport list"
  sg_viewport_table :: "u128 \<rightharpoonup> usize"
  sg_tree :: "u128 \<rightharpoonup> usize option"
  sg_hierarchy :: "u128 list list"
  sg_coord_offsets :: "u128 \<rightharpoonup> coord \<times> coord"

fun make_table :: "nat \<Rightarrow> Viewport list \<Rightarrow> (u128 \<rightharpoonup> usize) \<Rightarrow> (u128 \<rightharpoonup> usize)" where
  "make_table i [] t = t"
| "make_table i (vp # vps) t = make_table (i + 1) vps (t(vp_id vp \<mapsto> i))"

fun make_tree :: "(u128 \<rightharpoonup> usize) \<Rightarrow> Viewport list \<Rightarrow> (u128 \<rightharpoonup> usize option) \<Rightarrow> (u128 \<rightharpoonup> usize option) option" where
  "make_tree viewport_table [] tree = Some tree"
| "make_tree viewport_table (vp # vps) tree =
     (case vp_parent vp of
        None \<Rightarrow> make_tree viewport_table vps (tree(vp_id vp \<mapsto> None))
      | Some parent_id \<Rightarrow>
          do { i \<leftarrow> viewport_table parent_id;
               make_tree viewport_table vps (tree(vp_id vp \<mapsto> Some i)) })"

text \<open>
  The walk of one viewport to the root. \<open>depths\<close> is the ordered map from the index of a
  processed viewport to its depth; indexes are inserted in order, so it is a list.
\<close>

partial_function (option) walk_to_root ::
  "(u128 \<rightharpoonup> usize option) \<Rightarrow> Viewport list \<Rightarrow> (u128 \<rightharpoonup> coord \<times> coord) \<Rightarrow> nat list \<Rightarrow>
   coord \<Rightarrow> coord \<Rightarrow> u128 \<Rightarrow> nat \<Rightarrow> (coord \<times> coord \<times> nat) option" where
  "walk_to_root tree viewports coord_offsets depths row col i depth =
     (case tree i of
        Some (Some parent_index) \<Rightarrow>
          do { parent \<leftarrow> vec_get viewports parent_index;
               (case coord_offsets (vp_id parent) of
                  Some off \<Rightarrow>
                    do { row \<leftarrow> add64 row (fst off);
                         col \<leftarrow> add64 col (snd off);
                         parent_depth \<leftarrow> vec_get depths parent_index;
                         Some (row, col, parent_depth + 1) }
                | None \<Rightarrow>
                    do { row \<leftarrow> add64 row (fst (vp_pos parent));
                         col \<leftarrow> add64 col (snd (vp_pos parent));
                         walk_to_root tree viewports coord_offsets depths row col (vp_id parent) (depth + 1) }) }
      | _ \<Rightarrow> Some (row, col, depth))"

text \<open>The same equation with its cases in the order of evaluation.\<close>

lemma walk_to_root_code [code]:
  "walk_to_root tree viewports coord_offsets depths row col i depth =
     (case tree i of None \<Rightarrow> Some (row, col, depth) | Some None \<Rightarrow> Some (row, col, depth)
      | Some (Some parent_index) \<Rightarrow>
        (case vec_get viewports parent_index of None \<Rightarrow> None | Some parent \<Rightarrow>
        (case coord_offsets (vp_id parent) of
           Some off \<Rightarrow>
             do { row \<leftarrow> add64 row (fst off); col \<leftarrow> add64 col (snd off);
                  parent_depth \<leftarrow> vec_get depths parent_index; Some (row, col, parent_depth + 1) }
         | None \<Rightarrow>
           (case add64 row (fst (vp_pos parent)) of None \<Rightarrow> None | Some row \<Rightarrow>
           (case add64 col (snd (vp_pos parent)) of None \<Rightarrow> None | Some col \<Rightarrow>
              walk_to_root tree viewports coord_offsets depths row col (vp_id parent) (depth + 1))))))"
  by (subst walk_to_root.simps) (auto split: option.splits)

fun place_viewports ::
  "(u128 \<rightharpoonup> usize option) \<Rightarrow> Viewport list \<Rightarrow> Viewport list \<Rightarrow> (u128 \<rightharpoonup> coord \<times> coord) \<Rightarrow> nat list \<Rightarrow>
   ((u128 \<rightharpoonup> coord \<times> coord) \<times> nat list) option" where
  "place_viewports tree viewports [] coord_offsets depths = Some (coord_offsets, depths)"
| "place_viewports tree viewports (vp # vps) coord_offsets depths =
     do { (row, col, depth) \<leftarrow>
            walk_to_root tree viewports coord_offsets depths (fst (vp_pos vp)) (snd (vp_pos vp)) (vp_id vp) 0;
          place_viewports tree viewports vps (coord_offsets(vp_id vp \<mapsto> (row, col))) (depths @ [depth]) }"

text \<open>The levels of the hierarchy, filled in the order of the viewports.\<close>

fun fill_hierarchy :: "Viewport list \<Rightarrow> nat list \<Rightarrow> u128 list list \<Rightarrow> u128 list list option" where
  "fill_hierarchy (vp # vps) (depth # depths) hierarchy =
     do { level \<leftarrow> idx hierarchy depth;
          hierarchy \<leftarrow> store hierarchy depth (level @ [vp_id vp]);
          fill_hierarchy vps depths hierarchy }"
| "fill_hierarchy _ [] hierarchy = Some hierarchy"
| "fill_hierarchy [] _ hierarchy = None"

definition sg_new :: "Viewport list \<Rightarrow> SceneGraph option" where
  "sg_new viewports =
     (let viewport_table = make_table 0 viewports Map.empty in
      do { tree \<leftarrow> make_tree viewport_table viewports Map.empty;
           (coord_offsets, depths) \<leftarrow> place_viewports tree viewports viewports Map.empty [];
           let max_depth = fold max depths 0;
           hierarchy \<leftarrow> fill_hierarchy viewports depths (replicate (max_depth + 1) []);
           Some \<lparr>sg_viewports = viewports, sg_viewport_table = viewport_table, sg_tree = tree,
                 sg_hierarchy = hierarchy, sg_coord_offsets = coord_offsets\<rparr> })"

definition abs_coords :: "SceneGraph \<Rightarrow> u128 \<Rightarrow> coord \<Rightarrow> coord \<Rightarrow> (coord \<times> coord) option option" where
  "abs_coords sg viewport_id rel_row rel_col =
     (case sg_coord_offsets sg viewport_id of
        None \<Rightarrow> Some None
      | Some (offset_row, offset_col) \<Rightarrow>
          do { r \<leftarrow> add64 offset_row rel_row; c \<leftarrow> add64 offset_col rel_col; Some (Some (r, c)) })"

text \<open>The test of one viewport in \<open>viewport_at\<close>; sums are taken only where \<open>&&\<close> gets to them.\<close>

definition viewport_hit :: "SceneGraph \<Rightarrow> coord \<Rightarrow> coord \<Rightarrow> bool \<Rightarrow> u128 \<Rightarrow> bool option" where
  "viewport_hit sg row col check_visible viewport_id =
     (case sg_viewport_table sg viewport_id of None \<Rightarrow> Some False | Some vp_index \<Rightarrow>
     (case vec_get (sg_viewports sg) vp_index of None \<Rightarrow> Some False | Some vp \<Rightarrow>
      if check_visible \<and> \<not> vp_visible vp then Some False else
     (case sg_coord_offsets sg viewport_id of None \<Rightarrow> Some False | Some (offset_row, offset_col) \<Rightarrow>
       (let (vp_rows, vp_cols) = vp_dims vp in
        if \<not> offset_row \<le> row then Some False else
        do { r1 \<leftarrow> add64 offset_row vp_rows;
             if \<not> (row < r1 \<and> offset_col \<le> col) then Some False else
             do { c1 \<leftarrow> add64 offset_col vp_cols; Some (col < c1) } }))))"

fun viewport_at_ids :: "SceneGraph \<Rightarrow> coord \<Rightarrow> coord \<Rightarrow> bool \<Rightarrow> u128 list \<Rightarrow> u128 option option" where
  "viewport_at_ids sg row col check_visible [] = Some None"
| "viewport_at_ids sg row col check_visible (i # is) =
     do { hit \<leftarrow> viewport_hit sg row col check_visible i;
          if hit then Some (Some i) else viewport_at_ids sg row col check_visible is }"

fun viewport_at_levels :: "SceneGraph \<Rightarrow> coord \<Rightarrow> coord \<Rightarrow> bool \<Rightarrow> u128 list list \<Rightarrow> u128 option option" where
  "viewport_at_levels sg row col check_visible [] = Some None"
| "viewport_at_levels sg row col check_visible (ids # levels) =
     do { r \<leftarrow> viewport_at_ids sg row col check_visible (rev ids);
          (case r of Some i \<Rightarrow> Some (Some i) | None \<Rightarrow> viewport_at_levels sg row col check_visible levels) }"

definition viewport_at :: "SceneGraph \<Rightarrow> coord \<Rightarrow> coord \<Rightarrow> bool \<Rightarrow> u128 option option" where
  "viewport_at sg row col check_visible = viewport_at_levels sg row col check_visible (rev (sg_hierarchy sg))"

definition ref_viewport :: "SceneGraph \<Rightarrow> u128 \<Rightarrow> Viewport option" where
  "ref_viewport sg viewport_id =
     (case sg_viewport_table sg viewport_id of None \<Rightarrow> None | Some vp_index \<Rightarrow> vec_get (sg_viewports sg) vp_index)"

definition viewport_coords :: "SceneGraph \<Rightarrow> u128 \<Rightarrow> (coord \<times> coord) option option" where
  "viewport_coords sg viewport_id = abs_coords sg viewport_id 0 0"

section \<open>The tables\<close>

lemma make_table_other: "k \<notin> vp_id ` set vps \<Longrightarrow> make_table i vps t k = t k"
  by (induction i vps t rule: make_table.induct) auto

lemma make_table_nth:
  "distinct (map vp_id vps) \<Longrightarrow> j < length vps \<Longrightarrow> make_table i vps t (vp_id (vps ! j)) = Some (i + j)"
proof (induction vps arbitrary: i t j)
  case (Cons vp vps)
  then show ?case by (cases j) (auto simp: make_table_other)
qed simp

lemma make_table_Some:
  assumes "distinct (map vp_id vps)" and "make_table 0 vps Map.empty k = Some j"
  shows "j < length vps \<and> vp_id (vps ! j) = k"
proof -
  have "k \<in> vp_id ` set vps"
    using assms(2) make_table_other [of k vps 0 Map.empty] by (cases "k \<in> vp_id ` set vps") auto
  then obtain i where "i < length vps" "k = vp_id (vps ! i)" by (auto simp: in_set_conv_nth)
  then show ?thesis using assms make_table_nth [OF assms(1), of i 0 Map.empty] by simp
qed

lemma make_tree_other: "make_tree tbl vps t = Some t' \<Longrightarrow> k \<notin> vp_id ` set vps \<Longrightarrow> t' k = t k"
  by (induction tbl vps t rule: make_tree.induct) (auto simp: bind_Some_iff split: option.splits)

lemma make_tree_nth:
  assumes "make_tree tbl vps t = Some t'" and "distinct (map vp_id vps)" and "vp \<in> set vps"
  shows "t' (vp_id vp) = Some (case vp_parent vp of None \<Rightarrow> None | Some p \<Rightarrow> tbl p)"
  using assms(1,2,3)
proof (induction vps arbitrary: t)
  case (Cons v vps)
  obtain t1 where t1: "make_tree tbl vps t1 = Some t'"
      "t1 (vp_id v) = Some (case vp_parent v of None \<Rightarrow> None | Some p \<Rightarrow> tbl p)"
    using Cons.prems(1) by (auto simp: bind_Some_iff split: option.splits)
  show ?case
  proof (cases "vp = v")
    case True
    then show ?thesis
      using t1 make_tree_other [OF t1(1), of "vp_id v"] Cons.prems(2) by simp
  next
    case False
    then show ?thesis using Cons.IH [OF t1(1)] Cons.prems by simp
  qed
qed simp

lemma make_tree_total:
  "\<forall>vp \<in> set vps. \<forall>p. vp_parent vp = Some p \<longrightarrow> tbl p \<noteq> None \<Longrightarrow> \<exists>t'. make_tree tbl vps t = Some t'"
proof (induction vps arbitrary: t)
  case (Cons vp vps)
  then show ?case by (cases "vp_parent vp") fastforce+
qed simp

section \<open>The place of a viewport\<close>

text \<open>
  Reference: the absolute place of a viewport is the sum of the positions on the path to the
  root, and its depth is the length of that path.
\<close>

inductive abs_at :: "Viewport list \<Rightarrow> Viewport \<Rightarrow> nat \<Rightarrow> nat \<Rightarrow> nat \<Rightarrow> bool" for vps where
  at_root: "vp \<in> set vps \<Longrightarrow> vp_parent vp = None \<Longrightarrow> abs_at vps vp (vp_start_row vp) (vp_start_col vp) 0"
| at_child: "vp \<in> set vps \<Longrightarrow> vp_parent vp = Some (vp_id parent) \<Longrightarrow> abs_at vps parent r c d \<Longrightarrow>
     abs_at vps vp (r + vp_start_row vp) (c + vp_start_col vp) (d + 1)"

lemma abs_at_mem: "abs_at vps vp r c d \<Longrightarrow> vp \<in> set vps"
  by (cases rule: abs_at.cases) auto

lemma same_id: "distinct (map vp_id vps) \<Longrightarrow> a \<in> set vps \<Longrightarrow> b \<in> set vps \<Longrightarrow> vp_id a = vp_id b \<Longrightarrow> a = b"
  by (auto simp: distinct_map dest: inj_onD)

lemma abs_at_det:
  assumes "distinct (map vp_id vps)" and "abs_at vps vp r c d" and "abs_at vps vp r' c' d'"
  shows "r = r' \<and> c = c' \<and> d = d'"
  using assms(2,3)
proof (induction arbitrary: r' c' d')
  case (at_root vp)
  show ?case using at_root(3) at_root(2) by (cases rule: abs_at.cases) auto
next
  case (at_child vp parent r c d)
  from at_child.prems show ?case
  proof (cases rule: abs_at.cases)
    case at_root
    then show ?thesis using at_child.hyps by simp
  next
    case (at_child parent' r1 c1 d1)
    then have "parent' = parent"
      using at_child.hyps same_id [OF assms(1)] abs_at_mem by (metis option.inject)
    then show ?thesis using at_child at_child.IH by blast
  qed
qed

text \<open>All viewports have a place: parents exist, there is no cycle, and nothing overflows.\<close>

definition scene_ok :: "Viewport list \<Rightarrow> bool" where
  "scene_ok vps \<longleftrightarrow> distinct (map vp_id vps) \<and>
     (\<forall>vp \<in> set vps. \<exists>r c d. abs_at vps vp r c d \<and> r < u64_lim \<and> c < u64_lim)"

text \<open>The tree maps a viewport to the index of its parent.\<close>

definition tree_ok :: "Viewport list \<Rightarrow> (u128 \<rightharpoonup> usize option) \<Rightarrow> bool" where
  "tree_ok vps tree \<longleftrightarrow>
     (\<forall>vp \<in> set vps. vp_parent vp = None \<longrightarrow> tree (vp_id vp) = Some None) \<and>
     (\<forall>vp \<in> set vps. \<forall>p \<in> set vps. vp_parent vp = Some (vp_id p) \<longrightarrow>
        (\<exists>j < length vps. vps ! j = p \<and> tree (vp_id vp) = Some (Some j)))"

lemma tree_okD:
  assumes "tree_ok vps tree" and "vp \<in> set vps"
  shows "vp_parent vp = None \<Longrightarrow> tree (vp_id vp) = Some None"
    and "p \<in> set vps \<Longrightarrow> vp_parent vp = Some (vp_id p) \<Longrightarrow>
      \<exists>j < length vps. vps ! j = p \<and> tree (vp_id vp) = Some (Some j)"
  using assms unfolding tree_ok_def by blast+

lemma scene_tree:
  assumes "scene_ok vps"
  shows "\<exists>tree. make_tree (make_table 0 vps Map.empty) vps Map.empty = Some tree \<and> tree_ok vps tree"
proof -
  let ?tbl = "make_table 0 vps Map.empty"
  have dist: "distinct (map vp_id vps)" using assms by (simp add: scene_ok_def)
  have tbl: "\<exists>j < length vps. vps ! j = p \<and> ?tbl (vp_id p) = Some j" if "p \<in> set vps" for p
    using that make_table_nth [OF dist, of _ 0 Map.empty] by (auto simp: in_set_conv_nth)
  have "\<forall>vp \<in> set vps. \<forall>p. vp_parent vp = Some p \<longrightarrow> ?tbl p \<noteq> None"
  proof (intro ballI allI impI)
    fix vp p assume vp: "vp \<in> set vps" "vp_parent vp = Some p"
    then obtain r c d where "abs_at vps vp r c d" using assms by (auto simp: scene_ok_def)
    then obtain q where "q \<in> set vps" "p = vp_id q"
      using vp(2) by (cases rule: abs_at.cases) (auto dest: abs_at_mem)
    then show "?tbl p \<noteq> None" using tbl by fastforce
  qed
  from make_tree_total [OF this, of Map.empty] obtain tree
    where tree: "make_tree ?tbl vps Map.empty = Some tree" by blast
  show ?thesis
    using make_tree_nth [OF tree dist] tbl
    by (intro exI [of _ tree] conjI) (auto simp: tree tree_ok_def)
qed

definition placed :: "Viewport list \<Rightarrow> nat \<Rightarrow> (u128 \<rightharpoonup> coord \<times> coord) \<Rightarrow> nat list \<Rightarrow> bool" where
  "placed vps k offs depths \<longleftrightarrow> length depths = k \<and>
     (\<forall>j < length vps. j < k \<longrightarrow>
        (\<exists>r c d. offs (vp_id (vps ! j)) = Some (r, c) \<and> abs_at vps (vps ! j) r c d)) \<and>
     (\<forall>j < length vps. \<not> j < k \<longrightarrow> offs (vp_id (vps ! j)) = None)"

lemma placedD:
  assumes "placed vps k offs depths"
  shows "vp \<in> set vps \<Longrightarrow> offs (vp_id vp) = Some (row, col) \<Longrightarrow> \<exists>d. abs_at vps vp row col d"
    and "j < length vps \<Longrightarrow> offs (vp_id (vps ! j)) \<noteq> None \<Longrightarrow> j < length depths"
proof -
  show "\<exists>d. abs_at vps vp row col d" if "vp \<in> set vps" "offs (vp_id vp) = Some (row, col)"
  proof -
    obtain j where j: "j < length vps" "vp = vps ! j" using \<open>vp \<in> set vps\<close> by (auto simp: in_set_conv_nth)
    with that(2) assms show ?thesis by (cases "j < k") (fastforce simp: placed_def)+
  qed
  show "j < length depths" if "j < length vps" "offs (vp_id (vps ! j)) \<noteq> None"
    using that assms by (cases "j < k") (auto simp: placed_def)
qed

lemma walk_coords:
  assumes ok: "scene_ok vps"
    and tree: "tree_ok vps tree"
    and pl: "placed vps k offs depths"
    and at: "abs_at vps vp r c d"
    and lim: "row + (r - vp_start_row vp) < u64_lim" "col + (c - vp_start_col vp) < u64_lim"
  shows "\<exists>d'. walk_to_root tree vps offs depths row col (vp_id vp) depth =
      Some (row + (r - vp_start_row vp), col + (c - vp_start_col vp), d')"
  using at lim
proof (induction arbitrary: row col depth)
  case (at_root vp)
  then show ?case using tree_okD(1) [OF tree] by (simp add: walk_to_root.simps)
next
  case (at_child vp p r c d)
  have p: "p \<in> set vps" using at_child.hyps(3) by (rule abs_at_mem)
  obtain j where j: "j < length vps" "vps ! j = p" "tree (vp_id vp) = Some (Some j)"
    using tree_okD(2) [OF tree at_child.hyps(1) p at_child.hyps(2)] by blast
  have get: "vec_get vps j = Some p" using j by (simp add: vec_get_def)
  have sr: "vp_start_row p \<le> r" "vp_start_col p \<le> c"
    using at_child.hyps(3) by (cases rule: abs_at.cases; simp)+
  show ?case
  proof (cases "offs (vp_id p)")
    case (Some off)
    then have "off = (r, c)"
      using placedD(1) [OF pl p, of "fst off" "snd off"] at_child.hyps(3) abs_at_det ok
      unfolding scene_ok_def by (metis prod.collapse)
    moreover obtain dp where "vec_get depths j = Some dp"
      using placedD(2) [OF pl, of j] j Some by (auto simp: vec_get_def)
    ultimately show ?thesis
      using j get Some at_child.prems by (simp add: walk_to_root.simps add64_def)
  next
    case None
    have r: "row + vp_start_row p + (r - vp_start_row p) = row + r"
      "col + vp_start_col p + (c - vp_start_col p) = col + c" using sr by simp_all
    then show ?thesis
      using at_child.IH [of "row + vp_start_row p" "col + vp_start_col p" "depth + 1"]
        j get None at_child.prems sr
      by (subst walk_to_root.simps) (auto simp: add64_def vp_pos_def)
  qed
qed

lemma placed_step:
  assumes "distinct (map vp_id vps)" and "placed vps k offs depths" and "k < length vps"
    and "abs_at vps (vps ! k) r c d"
  shows "placed vps (Suc k) (offs(vp_id (vps ! k) \<mapsto> (r, c))) (depths @ [d'])"
proof -
  have "vp_id (vps ! j) \<noteq> vp_id (vps ! k)" if "j < length vps" "j \<noteq> k" for j
    using that assms(1,3) by (metis length_map nth_eq_iff_index_eq nth_map)
  then show ?thesis
    using assms(2-4) by (auto simp: placed_def less_Suc_eq)
qed

text \<open>Parents come before their children.\<close>

definition parents_first :: "Viewport list \<Rightarrow> bool" where
  "parents_first vps \<longleftrightarrow> (\<forall>i < length vps. \<forall>p. vp_parent (vps ! i) = Some p \<longrightarrow>
     (\<exists>j < i. vp_id (vps ! j) = p))"

definition depths_ok :: "Viewport list \<Rightarrow> nat list \<Rightarrow> bool" where
  "depths_ok vps depths \<longleftrightarrow> (\<forall>j < length depths. \<exists>r c. abs_at vps (vps ! j) r c (depths ! j))"

lemma walk_depth:
  assumes dist: "distinct (map vp_id vps)" and pf: "parents_first vps" and k: "k < length vps"
    and tree: "tree_ok vps tree"
    and pl: "placed vps k offs depths" and deps: "depths_ok vps depths"
    and walk: "walk_to_root tree vps offs depths row col (vp_id (vps ! k)) 0 = Some (row', col', d')"
  shows "\<exists>r c. abs_at vps (vps ! k) r c d'"
proof (cases "vp_parent (vps ! k)")
  case None
  then show ?thesis
    using walk tree_okD(1) [OF tree, of "vps ! k"] k at_root [of "vps ! k" vps]
    by (subst (asm) walk_to_root.simps) auto
next
  case (Some p)
  then obtain j where j: "j < k" "vp_id (vps ! j) = p" using pf k by (auto simp: parents_first_def)
  obtain j' where j': "j' < length vps" "vps ! j' = vps ! j" "tree (vp_id (vps ! k)) = Some (Some j')"
    using tree_okD(2) [OF tree, of "vps ! k" "vps ! j"] Some j k by auto
  have "distinct vps" using dist by (simp add: distinct_map)
  then have "j' = j" using j'(1,2) j(1) k by (simp add: nth_eq_iff_index_eq)
  have "\<exists>r c d. offs (vp_id (vps ! j)) = Some (r, c) \<and> abs_at vps (vps ! j) r c d"
    using pl less_trans [OF j(1) k] j(1) unfolding placed_def by blast
  then obtain r c where off: "offs p = Some (r, c)" using j by blast
  have len: "j < length depths" using pl j by (simp add: placed_def)
  have "walk_to_root tree vps offs depths row col (vp_id (vps ! k)) 0 =
      do { row \<leftarrow> add64 row r; col \<leftarrow> add64 col c; Some (row, col, depths ! j + 1) }"
    using j' j k off len \<open>j' = j\<close> by (subst walk_to_root.simps) (simp add: vec_get_def)
  from trans [OF sym [OF this] walk] have "d' = depths ! j + 1"
    by (auto simp: bind_Some_iff)
  moreover obtain r c where "abs_at vps (vps ! j) r c (depths ! j)"
    using deps len by (auto simp: depths_ok_def)
  ultimately show ?thesis
    using at_child [of "vps ! k" vps "vps ! j" r c "depths ! j"] Some j k by auto
qed

lemma place_viewports_ok:
  assumes ok: "scene_ok vps"
    and tree: "tree_ok vps tree"
    and "todo = drop k vps" and "k \<le> length vps" and "placed vps k offs depths"
    and "parents_first vps \<longrightarrow> depths_ok vps depths"
  shows "\<exists>offs' depths'. place_viewports tree vps todo offs depths = Some (offs', depths') \<and>
      placed vps (length vps) offs' depths' \<and> (parents_first vps \<longrightarrow> depths_ok vps depths')"
  using assms(3-)
proof (induction todo arbitrary: k offs depths)
  case Nil
  then show ?case by auto
next
  case (Cons vp todo)
  have k: "k < length vps" using Cons.prems(1) by (cases "k < length vps") auto
  then have vp: "vp = vps ! k" "todo = drop (Suc k) vps"
    using Cons.prems(1) Cons_nth_drop_Suc [OF k] by (metis list.inject)+
  have dist: "distinct (map vp_id vps)" using ok by (simp add: scene_ok_def)
  obtain r c d where at: "abs_at vps vp r c d" and lim: "r < u64_lim" "c < u64_lim"
    using ok k vp(1) nth_mem [OF k] unfolding scene_ok_def by blast
  have sr: "vp_start_row vp \<le> r" "vp_start_col vp \<le> c"
    using at by (cases rule: abs_at.cases; simp)+
  obtain d' where w: "walk_to_root tree vps offs depths (vp_start_row vp) (vp_start_col vp) (vp_id vp) 0 = Some (r, c, d')"
    using walk_coords [OF ok tree Cons.prems(3) at, of "vp_start_row vp" "vp_start_col vp" 0] lim sr by auto
  have pl: "placed vps (Suc k) (offs(vp_id vp \<mapsto> (r, c))) (depths @ [d'])"
    using placed_step [OF dist Cons.prems(3) k] at vp(1) by blast
  have len: "length depths = k" using Cons.prems(3) by (simp add: placed_def)
  have dep: "parents_first vps \<longrightarrow> depths_ok vps (depths @ [d'])"
  proof
    assume pf: "parents_first vps"
    then have "\<exists>r c. abs_at vps (vps ! k) r c d'"
      using walk_depth [OF dist pf k tree Cons.prems(3)] Cons.prems(4) w vp(1) by blast
    then show "depths_ok vps (depths @ [d'])"
      using Cons.prems(4) pf len by (auto simp: depths_ok_def nth_append less_Suc_eq)
  qed
  show ?case
    using Cons.IH [OF vp(2) _ pl dep] k w by (simp add: vp_pos_def del: fun_upd_apply)
qed

section \<open>The levels of the hierarchy\<close>

lemma fold_max_ge: "x \<in> set xs \<Longrightarrow> x \<le> fold max xs (m :: nat)"
proof (induction xs arbitrary: m)
  case (Cons y ys)
  have "m \<le> fold max ys m" for m :: nat
    by (induction ys arbitrary: m) (auto intro: le_trans [OF max.cobounded2])
  then show ?case using Cons by (auto intro: le_trans [OF max.cobounded1])
qed simp

lemma fill_hierarchy_ok:
  "length depths = length vps \<Longrightarrow> \<forall>d \<in> set depths. d < length h \<Longrightarrow>
     \<exists>h'. fill_hierarchy vps depths h = Some h' \<and> length h' = length h \<and>
       (\<forall>d < length h. h' ! d = h ! d @ map (\<lambda>(vp, _). vp_id vp) (filter (\<lambda>(vp, e). e = d) (zip vps depths)))"
proof (induction vps arbitrary: depths h)
  case (Cons vp vps)
  then obtain d ds where ds: "depths = d # ds" by (cases depths) auto
  let ?h = "h[d := h ! d @ [vp_id vp]]"
  obtain h' where "fill_hierarchy vps ds ?h = Some h'" "length h' = length h"
      "\<forall>e < length h. h' ! e = ?h ! e @ map (\<lambda>(vp, _). vp_id vp) (filter (\<lambda>(vp, e'). e' = e) (zip vps ds))"
    using Cons.IH [of ds ?h] Cons.prems ds by auto
  then show ?case using ds Cons.prems by (auto simp: idx_def store_def nth_list_update)
qed simp

text \<open>The order of the viewports from back to front: by depth, then by index.\<close>

definition z_keys :: "nat \<Rightarrow> nat list \<Rightarrow> (nat \<times> nat) list" where
  "z_keys m depths =
     concat (map (\<lambda>d. map (\<lambda>i. (d, i)) (filter (\<lambda>i. depths ! i = d) [0..<length depths])) [0..<m])"

definition z_less :: "nat \<times> nat \<Rightarrow> nat \<times> nat \<Rightarrow> bool" where
  "z_less a b \<longleftrightarrow> fst a < fst b \<or> (fst a = fst b \<and> snd a < snd b)"

lemma z_keys_sorted: "sorted_wrt z_less (z_keys m depths)"
proof (induction m)
  case (Suc m)
  have "sorted_wrt z_less (map (\<lambda>i. (m, i)) (filter (\<lambda>i. depths ! i = m) [0..<length depths]))"
    by (simp add: sorted_wrt_map z_less_def sorted_wrt_filter)
  then show ?case using Suc by (auto simp: z_keys_def sorted_wrt_append) (auto simp: z_less_def)
qed (simp add: z_keys_def)

lemma z_keys_mem:
  "\<forall>d \<in> set depths. d < m \<Longrightarrow>
     (d, i) \<in> set (z_keys m depths) \<longleftrightarrow> i < length depths \<and> d = depths ! i"
  by (auto simp: z_keys_def)

lemma filter_zip_level:
  assumes "length depths = length vps"
  shows "map (\<lambda>(vp, _). vp_id vp) (filter (\<lambda>(vp, e). e = d) (zip vps depths)) =
     map (\<lambda>i. vp_id (vps ! i)) (filter (\<lambda>i. depths ! i = d) [0..<length depths])"
proof -
  have "zip vps depths = map (\<lambda>i. (vps ! i, depths ! i)) [0..<length depths]"
    using assms by (intro nth_equalityI) auto
  then show ?thesis by (simp add: filter_map comp_def)
qed

lemma hierarchy_keys:
  assumes "length depths = length vps" and "fill_hierarchy vps depths (replicate m []) = Some h"
    and "\<forall>d \<in> set depths. d < m"
  shows "concat h = map (\<lambda>(d, i). vp_id (vps ! i)) (z_keys m depths)"
proof -
  have "length h = m \<and> (\<forall>d < m. h ! d = map (\<lambda>i. vp_id (vps ! i)) (filter (\<lambda>i. depths ! i = d) [0..<length depths]))"
    using fill_hierarchy_ok [OF assms(1), of "replicate m []"] assms(2,3)
    by (auto simp: filter_zip_level [OF assms(1)])
  then have "h = map (\<lambda>d. map (\<lambda>i. vp_id (vps ! i)) (filter (\<lambda>i. depths ! i = d) [0..<length depths])) [0..<m]"
    by (intro nth_equalityI) auto
  then show ?thesis by (simp add: z_keys_def map_concat comp_def)
qed

lemma sg_new_ok:
  assumes "scene_ok vps"
  shows "\<exists>sg depths m. sg_new vps = Some sg \<and> sg_viewports sg = vps \<and>
     sg_viewport_table sg = make_table 0 vps Map.empty \<and>
     placed vps (length vps) (sg_coord_offsets sg) depths \<and> (parents_first vps \<longrightarrow> depths_ok vps depths) \<and>
     (\<forall>d \<in> set depths. d < m) \<and> concat (sg_hierarchy sg) = map (\<lambda>(d, i). vp_id (vps ! i)) (z_keys m depths)"
proof -
  obtain tree where tree: "make_tree (make_table 0 vps Map.empty) vps Map.empty = Some tree" "tree_ok vps tree"
    using scene_tree [OF assms] by blast
  obtain offs depths where pl: "place_viewports tree vps vps Map.empty [] = Some (offs, depths)"
      "placed vps (length vps) offs depths" "parents_first vps \<longrightarrow> depths_ok vps depths"
    using place_viewports_ok [OF assms tree(2), of vps 0 Map.empty "[]"]
    by (auto simp: placed_def depths_ok_def)
  let ?m = "fold max depths 0 + 1"
  have len: "length depths = length vps" using pl(2) by (simp add: placed_def)
  have m: "\<forall>d \<in> set depths. d < ?m" using fold_max_ge [of _ depths 0] by fastforce
  then obtain h where h: "fill_hierarchy vps depths (replicate ?m []) = Some h"
    using fill_hierarchy_ok [OF len, of "replicate ?m []"] by auto
  have "sg_new vps = Some \<lparr>sg_viewports = vps, sg_viewport_table = make_table 0 vps Map.empty, sg_tree = tree,
                 sg_hierarchy = h, sg_coord_offsets = offs\<rparr>"
    using tree(1) pl(1) h by (simp add: sg_new_def Let_def)
  then show ?thesis using pl(2,3) m hierarchy_keys [OF len h m] by fastforce
qed

section \<open>The viewport on top\<close>

lemma viewport_at_levels_concat:
  "viewport_at_levels sg row col cv levels = viewport_at_ids sg row col cv (concat (map rev levels))"
proof (induction levels)
  case (Cons ids levels)
  have app: "viewport_at_ids sg row col cv (xs @ ys) =
      do { r \<leftarrow> viewport_at_ids sg row col cv xs;
           (case r of Some i \<Rightarrow> Some (Some i) | None \<Rightarrow> viewport_at_ids sg row col cv ys) }" for xs ys
    by (induction xs) (auto split: Option.bind_splits)
  show ?case by (simp add: app Cons)
qed simp

lemma viewport_at_find:
  assumes "\<forall>i \<in> set ids. viewport_hit sg row col cv i = Some (hit i)"
  shows "viewport_at_ids sg row col cv ids = Some (find hit ids)"
  using assms by (induction ids) auto

text \<open>Reference: the visible viewports whose rectangle contains a place of the screen.\<close>

definition covers :: "Viewport list \<Rightarrow> bool \<Rightarrow> coord \<Rightarrow> coord \<Rightarrow> Viewport \<Rightarrow> bool" where
  "covers vps check_visible row col vp \<longleftrightarrow> (check_visible \<longrightarrow> vp_visible vp) \<and>
     (\<exists>r c d. abs_at vps vp r c d \<and> r \<le> row \<and> row < r + vp_num_rows vp \<and>
        c \<le> col \<and> col < c + cb_num_cols (vp_buff vp))"

definition scene_fits :: "Viewport list \<Rightarrow> bool" where
  "scene_fits vps \<longleftrightarrow> distinct (map vp_id vps) \<and>
     (\<forall>vp \<in> set vps. \<exists>r c d. abs_at vps vp r c d \<and> r + vp_num_rows vp < u64_lim \<and>
        c + cb_num_cols (vp_buff vp) < u64_lim)"

lemma scene_fits_ok: "scene_fits vps \<Longrightarrow> scene_ok vps"
  by (auto simp: scene_fits_def scene_ok_def) (meson add_lessD1)

lemma scene_offset:
  assumes "scene_ok vps" and "placed vps (length vps) offs depths" and "vp \<in> set vps" and "abs_at vps vp r c d"
  shows "offs (vp_id vp) = Some (r, c)"
proof -
  obtain j where "j < length vps" "vp = vps ! j" using assms(3) by (auto simp: in_set_conv_nth)
  then obtain r' c' d' where "offs (vp_id vp) = Some (r', c')" "abs_at vps vp r' c' d'"
    using assms(2) unfolding placed_def by blast
  then show ?thesis using abs_at_det assms(1,4) unfolding scene_ok_def by blast
qed

lemma viewport_hit_covers:
  assumes fits: "scene_fits vps" and pl: "placed vps (length vps) (sg_coord_offsets sg) depths"
    and sg: "sg_viewports sg = vps" "sg_viewport_table sg = make_table 0 vps Map.empty" and k: "k < length vps"
  shows "viewport_hit sg row col cv (vp_id (vps ! k)) = Some (covers vps cv row col (vps ! k))"
proof -
  let ?vp = "vps ! k"
  obtain r c d where at: "abs_at vps ?vp r c d"
    and lim: "r + vp_num_rows ?vp < u64_lim" "c + cb_num_cols (vp_buff ?vp) < u64_lim"
    using fits nth_mem [OF k] unfolding scene_fits_def by blast
  have dist: "distinct (map vp_id vps)" using fits by (simp add: scene_fits_def)
  have off: "sg_coord_offsets sg (vp_id ?vp) = Some (r, c)"
    using scene_offset [OF scene_fits_ok [OF fits] pl nth_mem [OF k] at] .
  have tbl: "sg_viewport_table sg (vp_id ?vp) = Some k" using make_table_nth [OF dist k] sg by simp
  have cov: "covers vps cv row col ?vp \<longleftrightarrow> (cv \<longrightarrow> vp_visible ?vp) \<and> r \<le> row \<and> row < r + vp_num_rows ?vp \<and>
        c \<le> col \<and> col < c + cb_num_cols (vp_buff ?vp)"
    using at abs_at_det [OF dist at] unfolding covers_def by blast
  show ?thesis
    using off tbl sg k lim unfolding cov
    by (auto simp: viewport_hit_def vec_get_def vp_dims_def add64_def)
qed

lemma find_append:
  "find P (xs @ ys) = (case find P xs of Some x \<Rightarrow> Some x | None \<Rightarrow> find P ys)"
  by (induction xs) auto

lemma find_Some_mem: "find P xs = Some x \<Longrightarrow> x \<in> set xs \<and> P x"
  by (induction xs) (auto split: if_splits)

lemma find_rev_sorted:
  assumes "sorted_wrt R ks" and "find P (rev ks) = Some k" and "x \<in> set ks" and "P x" and "x \<noteq> k"
  shows "R x k"
  using assms
proof (induction ks)
  case (Cons a ks)
  show ?case
  proof (cases "find P (rev ks)")
    case None
    then have "k = a" using Cons.prems(2) by (auto simp: find_append split: if_splits)
    then show ?thesis using None Cons.prems by (auto simp: find_None_iff)
  next
    case (Some k')
    then have k: "k' = k" using Cons.prems(2) by (simp add: find_append)
    have "k \<in> set ks" using find_Some_mem [OF Some] k by simp
    then show ?thesis using Cons Some k by auto
  qed
qed simp

lemma viewport_at_front:
  assumes fits: "scene_fits vps" and pf: "parents_first vps" and sg: "sg_new vps = Some sg"
  shows "\<exists>res. viewport_at sg row col cv = Some res \<and>
    (case res of
       None \<Rightarrow> \<forall>vp \<in> set vps. \<not> covers vps cv row col vp
     | Some i \<Rightarrow> \<exists>k < length vps. vp_id (vps ! k) = i \<and> covers vps cv row col (vps ! k) \<and>
         (\<forall>j < length vps. covers vps cv row col (vps ! j) \<and> j \<noteq> k \<longrightarrow>
            (\<exists>rj cj dj rk ck dk. abs_at vps (vps ! j) rj cj dj \<and> abs_at vps (vps ! k) rk ck dk \<and>
               z_less (dj, j) (dk, k))))"
proof -
  obtain depths m where vps: "sg_viewports sg = vps" "sg_viewport_table sg = make_table 0 vps Map.empty"
    and pl: "placed vps (length vps) (sg_coord_offsets sg) depths" and dep: "depths_ok vps depths"
    and m: "\<forall>d \<in> set depths. d < m"
    and h: "concat (sg_hierarchy sg) = map (\<lambda>(d, i). vp_id (vps ! i)) (z_keys m depths)"
    using sg_new_ok [OF scene_fits_ok [OF fits]] sg pf by auto
  have len: "length depths = length vps" using pl by (simp add: placed_def)
  let ?cov = "\<lambda>k. covers vps cv row col (vps ! k)" and ?ks = "z_keys m depths"
  have hits: "\<forall>x \<in> set ?ks. viewport_hit sg row col cv (vp_id (vps ! snd x)) = Some (?cov (snd x))"
    using viewport_hit_covers [OF fits pl vps] z_keys_mem [OF m] len by auto
  have ids: "viewport_at_ids sg row col cv (map (\<lambda>x. vp_id (vps ! snd x)) ks) =
      Some (map_option (\<lambda>x. vp_id (vps ! snd x)) (find (\<lambda>x. ?cov (snd x)) ks))"
    if "set ks \<subseteq> set ?ks" for ks
    using that hits by (induction ks) auto
  have res: "viewport_at sg row col cv =
      Some (map_option (\<lambda>x. vp_id (vps ! snd x)) (find (\<lambda>x. ?cov (snd x)) (rev ?ks)))"
    using ids [of "rev ?ks"]
    by (simp add: viewport_at_def viewport_at_levels_concat rev_concat [symmetric] rev_map h case_prod_beta')
  show ?thesis
  proof (cases "find (\<lambda>x. ?cov (snd x)) (rev ?ks)")
    case None
    have "\<not> ?cov j" if "j < length vps" for j
      using None z_keys_mem [OF m, of "depths ! j" j] that len by (auto simp: find_None_iff)
    then show ?thesis using res None by (auto simp: in_set_conv_nth)
  next
    case (Some x)
    obtain d k where x: "x = (d, k)" by (cases x)
    have mem: "x \<in> set ?ks" and cov: "?cov k" using find_Some_mem [OF Some] x by simp_all
    then have k: "k < length vps" "d = depths ! k" using z_keys_mem [OF m, of d k] x len by auto
    have z: "z_less (depths ! j, j) (d, k)" if "j < length vps" "?cov j" "j \<noteq> k" for j
      using find_rev_sorted [OF z_keys_sorted Some, of "(depths ! j, j)"] z_keys_mem [OF m, of "depths ! j" j]
        that len x by simp
    have at: "\<exists>r c. abs_at vps (vps ! j) r c (depths ! j)" if "j < length vps" for j
      using dep len that by (simp add: depths_ok_def)
    have "\<forall>j < length vps. ?cov j \<and> j \<noteq> k \<longrightarrow>
        (\<exists>rj cj dj rk ck dk. abs_at vps (vps ! j) rj cj dj \<and> abs_at vps (vps ! k) rk ck dk \<and>
           z_less (dj, j) (dk, k))"
    proof (intro allI impI)
      fix j assume j: "j < length vps" "?cov j \<and> j \<noteq> k"
      then have "z_less (depths ! j, j) (depths ! k, k)" using z k(2) by simp
      then show "\<exists>rj cj dj rk ck dk. abs_at vps (vps ! j) rj cj dj \<and> abs_at vps (vps ! k) rk ck dk \<and>
           z_less (dj, j) (dk, k)"
        using at [OF j(1)] at [OF k(1)] by (meson)
    qed
    then show ?thesis using res Some x k(1) cov by auto
  qed
qed

section \<open>Properties\<close>

text \<open>
  C31. The scene graph is built and places every viewport. Whatever the order of the viewports,
  when their identifiers differ, parents exist, parent links have no cycle and nothing
  overflows, \<open>SceneGraph::new\<close> returns (the walks to the root end) and the recorded coordinates
  of a viewport are the sum of the positions on its path to the root.
\<close>

theorem sg_new_places:
  assumes "scene_ok vps" and "abs_at vps vp r c d"
  shows "\<exists>sg. sg_new vps = Some sg \<and> viewport_coords sg (vp_id vp) = Some (Some (r, c))"
proof -
  obtain sg depths where sg: "sg_new vps = Some sg" and pl: "placed vps (length vps) (sg_coord_offsets sg) depths"
    using sg_new_ok [OF assms(1)] by blast
  have vp: "vp \<in> set vps" using assms(2) by (rule abs_at_mem)
  then obtain r' c' d' where at: "abs_at vps vp r' c' d'" "r' < u64_lim" "c' < u64_lim"
    using assms(1) unfolding scene_ok_def by blast
  moreover from this have "r' = r \<and> c' = c"
    using abs_at_det assms unfolding scene_ok_def by blast
  ultimately show ?thesis
    using sg scene_offset [OF assms(1) pl vp assms(2)]
    by (simp add: viewport_coords_def abs_coords_def add64_def)
qed

text \<open>
  C30. The viewport on top. When parents come before their children, \<open>viewport_at\<close> returns, and
  it answers the frontmost of the (visible) viewports that cover the place: every other one
  that covers it is less deep, or as deep and earlier. No answer means that none covers it.
\<close>

theorem viewport_at_top:
  assumes fits: "scene_fits vps" and pf: "parents_first vps" and sg: "sg_new vps = Some sg"
  shows "\<exists>res. viewport_at sg row col cv = Some res \<and>
    (case res of
       None \<Rightarrow> \<forall>vp \<in> set vps. \<not> covers vps cv row col vp
     | Some i \<Rightarrow> \<exists>k < length vps. vp_id (vps ! k) = i \<and> covers vps cv row col (vps ! k) \<and>
         (\<forall>j < length vps. covers vps cv row col (vps ! j) \<and> j \<noteq> k \<longrightarrow>
            (\<exists>rj cj dj rk ck dk. abs_at vps (vps ! j) rj cj dj \<and> abs_at vps (vps ! k) rk ck dk \<and>
               z_less (dj, j) (dk, k))))"
  using assms by (rule viewport_at_front)

definition demo_parent :: Viewport where
  "demo_parent = vp_new 1 2 3 10 10"

definition demo_child :: Viewport where
  "demo_child = vp_new_child 2 1 4 5 3 3"

lemma demo_scene:
  "abs_at [demo_parent, demo_child] demo_parent 2 3 0"
  "abs_at [demo_parent, demo_child] demo_child 6 8 1"
proof -
  let ?vps = "[demo_parent, demo_child]"
  show p: "abs_at ?vps demo_parent 2 3 0"
    using at_root [of demo_parent ?vps] by (simp add: demo_parent_def vp_new_def)
  show "abs_at ?vps demo_child 6 8 1"
    using at_child [of demo_child ?vps demo_parent 2 3 0] p
    by (simp add: demo_parent_def demo_child_def vp_new_def vp_new_child_def)
qed

lemma demo_scene_fits: "scene_fits [demo_parent, demo_child]"
  using demo_scene unfolding scene_fits_def
  by (auto simp: u64_lim_def)
     (auto simp: demo_parent_def demo_child_def vp_new_def vp_new_child_def cb_new_def intro!: exI)

lemma demo_parents_first: "parents_first [demo_parent, demo_child]"
  by (auto simp: parents_first_def less_Suc_eq demo_parent_def demo_child_def vp_new_def vp_new_child_def)

theorem sg_new_places_witness:
  "\<exists>sg. sg_new [demo_parent, demo_child] = Some sg \<and> viewport_coords sg 2 = Some (Some (6, 8))"
  using sg_new_places [OF scene_fits_ok [OF demo_scene_fits] demo_scene(2)]
  by (simp add: demo_child_def vp_new_child_def)

theorem viewport_at_top_witness:
  "\<exists>sg res. sg_new [demo_parent, demo_child] = Some sg \<and> viewport_at sg 7 9 True = Some res \<and> res \<noteq> None"
proof -
  obtain sg where sg: "sg_new [demo_parent, demo_child] = Some sg"
    using sg_new_ok [OF scene_fits_ok [OF demo_scene_fits]] by blast
  have cov: "covers [demo_parent, demo_child] True 7 9 demo_child"
    unfolding covers_def
    by (intro conjI exI [of _ 6] exI [of _ 8] exI [of _ 1] impI demo_scene(2))
       (simp_all add: demo_child_def vp_new_child_def cb_new_def)
  show ?thesis
    using viewport_at_top [OF demo_scene_fits demo_parents_first sg, of 7 9 True] sg cov
    by (auto split: option.splits)
qed

text \<open>
  When a child comes before its parent but after its grandparent, its depth is counted from
  the grandparent only: parent and child get the same level and the parent is on top.
\<close>

lemma viewport_depth_wrong:
  "map_option (\<lambda>sg. (sg_hierarchy sg, viewport_at sg 0 0 True))
     (sg_new [vp_new 1 0 0 9 9, vp_new_child 3 2 0 0 2 2, vp_new_child 2 1 0 0 5 5]) =
   Some ([[1], [3, 2]], Some (Some 2))"
  by code_simp

text \<open>A viewport that is its own parent: the walk to the root has no answer.\<close>

lemma viewport_cycle_diverges:
  assumes "vp_parent vp = Some (vp_id vp)"
  shows "sg_new [vp] = None"
proof -
  have walk: "tree = [vp_id vp \<mapsto> Some 0] \<Longrightarrow> vps = [vp] \<Longrightarrow> offs = Map.empty \<Longrightarrow> i = vp_id vp \<Longrightarrow> False"
    if "walk_to_root tree vps offs depths row col i depth = Some y"
    for tree vps offs depths row col i depth y
    using that
    by (rule walk_to_root.raw_induct [where P = "\<lambda>tree vps offs depths row col i depth y.
        tree = [vp_id vp \<mapsto> Some 0] \<longrightarrow> vps = [vp] \<longrightarrow> offs = Map.empty \<longrightarrow> i = vp_id vp \<longrightarrow> False", rule_format, rotated])
       (auto simp: vec_get_def bind_Some_iff)
  have none: "walk_to_root [vp_id vp \<mapsto> Some 0] [vp] Map.empty depths row col (vp_id vp) depth = None"
    for depths row col depth
    using walk [OF _ refl refl refl refl, of depths row col depth]
    by (cases "walk_to_root [vp_id vp \<mapsto> Some 0] [vp] Map.empty depths row col (vp_id vp) depth") blast+
  show ?thesis
    using assms by (simp add: sg_new_def none)
qed

end
