(* ===== verification/Root.thy ===== *)
theory Root
  imports Scene_Graph
begin

text \<open>
  The root pane (\<open>src/ui/root.rs\<close>): the scene graph, the forms on it, the focus and the frame
  that is drawn. Forms are trait objects in the sources; here a form type comes with the
  table of its methods, and the operations of the root call the methods through that table.
  An error of a form ends the viewer, so the outcome \<open>Err\<close> carries no state. Maps of forms
  are iterated in the order of a hash map, which is not specified: the operations that
  iterate take the order of the identifiers as an argument.
\<close>

section \<open>Keys, form types and events\<close>

datatype Key =
    KBackspace | KLeft | KRight | KUp | KDown | KHome | KEnd | KPageUp | KPageDown | KBackTab
  | KDelete | KInsert | KF u8 | KChar rchar | KAlt rchar | KCtrl rchar | KNull | KEsc

datatype WrbFormTypes = FText | FPrint | FButton | FCheckbox | FTextLine | FTextArea

fun as_u128 :: "WrbFormTypes \<Rightarrow> u128" where
  "as_u128 FText = 4"
| "as_u128 FPrint = 5"
| "as_u128 FButton = 6"
| "as_u128 FCheckbox = 7"
| "as_u128 FTextLine = 8"
| "as_u128 FTextArea = 9"

fun focusable :: "WrbFormTypes \<Rightarrow> bool" where
  "focusable FButton = True"
| "focusable FCheckbox = True"
| "focusable FTextLine = True"
| "focusable FTextArea = True"
| "focusable _ = False"

definition form_type_try_from :: "u128 \<Rightarrow> WrbFormTypes option" where
  "form_type_try_from value =
     (if value = 4 then Some FText else if value = 5 then Some FPrint
      else if value = 6 then Some FButton else if value = 7 then Some FCheckbox
      else if value = 8 then Some FTextLine else if value = 9 then Some FTextArea else None)"

datatype WrbFormEvent = Keypress Key

datatype 'v WrbEvent = EvOpen | EvClose | EvTimer | EvResize coord coord | EvUI WrbFormTypes u128 'v

fun event_element_type :: "'v WrbEvent \<Rightarrow> u128" where
  "event_element_type EvOpen = 3"
| "event_element_type EvClose = 0"
| "event_element_type EvTimer = 1"
| "event_element_type (EvResize _ _) = 2"
| "event_element_type (EvUI ty _ _) = as_u128 ty"

fun event_element_id :: "'v WrbEvent \<Rightarrow> u128" where
  "event_element_id (EvUI _ i _) = i"
| "event_element_id _ = - 1"

fun event_type :: "'v WrbEvent \<Rightarrow> u128" where
  "event_type EvOpen = 3"
| "event_type EvClose = 0"
| "event_type EvTimer = 1"
| "event_type (EvResize _ _) = 2"
| "event_type (EvUI _ _ _) = 4"

section \<open>The root\<close>

datatype ZBuffEntry = ZRoot | ZViewport u128

record ('f, 'v) Root =
  rt_scenegraph :: SceneGraph
  rt_num_rows :: coord
  rt_num_cols :: coord
  rt_zbuff :: "ZBuffEntry list option"
  rt_frame_delay :: "coord option"
  rt_focused :: "u128 option"
  rt_focus_order :: "u128 \<rightharpoonup> u128"
  rt_reverse_focus_order :: "u128 \<rightharpoonup> u128"
  rt_focus_first :: "u128 option"
  rt_forms :: "u128 \<rightharpoonup> 'f"
  rt_cursor :: "(coord \<times> coord) option"
  rt_dynamic_forms :: "u128 set"
  rt_debug_frames :: bool
  rt_runtime_events :: "'v WrbEvent list"

record 'f FrameUpdate =
  fu_new_contents :: "'f list"
  fu_updated_viewports :: "Viewport list"

text \<open>The methods of the trait \<open>WrbForm\<close> that the root calls.\<close>

record ('f, 'v) WrbForm =
  fm_type_id :: "'f \<Rightarrow> WrbFormTypes"
  fm_element_id :: "'f \<Rightarrow> u128"
  fm_viewport_id :: "'f \<Rightarrow> u128"
  fm_focus :: "'f \<Rightarrow> ('f, 'v) Root \<Rightarrow> bool \<Rightarrow> (UiError, 'f \<times> ('f, 'v) Root) outcome"
  fm_render :: "'f \<Rightarrow> ('f, 'v) Root \<Rightarrow> coord \<times> coord \<Rightarrow> (UiError, 'f \<times> ('f, 'v) Root \<times> (coord \<times> coord)) outcome"
  fm_handle_event :: "'f \<Rightarrow> ('f, 'v) Root \<Rightarrow> WrbFormEvent \<Rightarrow> (UiError, 'f \<times> ('f, 'v) Root \<times> 'v option) outcome"

definition root_new :: "coord \<Rightarrow> coord \<Rightarrow> SceneGraph \<Rightarrow> ('f, 'v) Root" where
  "root_new num_rows num_cols scenegraph =
     \<lparr>rt_scenegraph = scenegraph, rt_num_rows = num_rows, rt_num_cols = num_cols, rt_zbuff = None,
      rt_frame_delay = None, rt_focused = None, rt_focus_order = Map.empty,
      rt_reverse_focus_order = Map.empty, rt_focus_first = None, rt_forms = Map.empty,
      rt_cursor = None, rt_dynamic_forms = {}, rt_debug_frames = True, rt_runtime_events = []\<rparr>"

definition root_null :: "('f, 'v) Root option" where
  "root_null = do { sg \<leftarrow> sg_new []; Some (root_new 0 0 sg) }"

text \<open>\<open>viewport_mut\<close> and the write through the reference it returns.\<close>

definition viewport_mut :: "('f, 'v) Root \<Rightarrow> u128 \<Rightarrow> Viewport option" where
  "viewport_mut root i =
     (case sg_viewport_table (rt_scenegraph root) i of None \<Rightarrow> None
      | Some k \<Rightarrow> vec_get (sg_viewports (rt_scenegraph root)) k)"

definition put_viewport :: "('f, 'v) Root \<Rightarrow> u128 \<Rightarrow> Viewport \<Rightarrow> ('f, 'v) Root" where
  "put_viewport root i vp =
     (case sg_viewport_table (rt_scenegraph root) i of None \<Rightarrow> root
      | Some k \<Rightarrow> root\<lparr>rt_scenegraph := (rt_scenegraph root)\<lparr>sg_viewports := (sg_viewports (rt_scenegraph root))[k := vp]\<rparr>\<rparr>)"

section \<open>Frames\<close>

fun zbuff_row :: "SceneGraph \<Rightarrow> coord \<Rightarrow> coord \<Rightarrow> nat \<Rightarrow> ZBuffEntry list option" where
  "zbuff_row sg r c 0 = Some []"
| "zbuff_row sg r c (Suc n) =
     do { e \<leftarrow> viewport_at sg r c True;
          rest \<leftarrow> zbuff_row sg r (Suc c) n;
          Some ((case e of Some i \<Rightarrow> ZViewport i | None \<Rightarrow> ZRoot) # rest) }"

fun zbuff_rows :: "SceneGraph \<Rightarrow> coord \<Rightarrow> coord \<Rightarrow> nat \<Rightarrow> ZBuffEntry list option" where
  "zbuff_rows sg num_cols r 0 = Some []"
| "zbuff_rows sg num_cols r (Suc n) =
     do { es \<leftarrow> zbuff_row sg r 0 num_cols;
          rest \<leftarrow> zbuff_rows sg num_cols (Suc r) n;
          Some (es @ rest) }"

text \<open>
  \<open>Vec::with_capacity\<close> of entries, 32 bytes each (a tag before a number of 16 bytes, at its
  alignment): more than \<open>isize::MAX\<close> bytes are a panic.
\<close>

definition zbuff_capacity :: "nat \<Rightarrow> unit option" where
  "zbuff_capacity n = (if 32 * n < 2 ^ 63 then Some () else None)"

lemma zbuff_capacity_code [code]:
  "zbuff_capacity n = (if 32 * int n < 9223372036854775808 then Some () else None)"
  unfolding zbuff_capacity_def by (rule if_cong) auto

definition make_zbuff :: "('f, 'v) Root \<Rightarrow> ZBuffEntry list option" where
  "make_zbuff root =
     do { n \<leftarrow> mul64 (rt_num_rows root) (rt_num_cols root);
          _ \<leftarrow> zbuff_capacity n;
          zbuff_rows (rt_scenegraph root) (rt_num_cols root) 0 (rt_num_rows root) }"

text \<open>The cell of the frame at one place of the z-buffer.\<close>

definition frame_cell :: "SceneGraph \<Rightarrow> coord \<Rightarrow> coord \<Rightarrow> ZBuffEntry \<Rightarrow> CharCell option" where
  "frame_cell sg row col vpe =
     (case vpe of
        ZRoot \<Rightarrow> Some Blank
      | ZViewport viewport_id \<Rightarrow>
          do { viewport \<leftarrow> ref_viewport sg viewport_id;
               coords \<leftarrow> viewport_coords sg viewport_id;
               (viewport_row, viewport_col) \<leftarrow> coords;
               let (pos_row, pos_col) = vp_pos viewport;
               rel \<leftarrow> translate_coordinate viewport (viewport_row - pos_row) (viewport_col - pos_col) row col;
               (case rel of
                  None \<Rightarrow> Some Blank
                | Some (rel_row, rel_col) \<Rightarrow>
                    do { cell \<leftarrow> vp_charcell_at viewport rel_row rel_col;
                         Some (case cell of Some x \<Rightarrow> x | None \<Rightarrow> Blank) }) })"

fun frame_cells :: "SceneGraph \<Rightarrow> coord \<Rightarrow> nat \<Rightarrow> ZBuffEntry list \<Rightarrow> CharCell list option" where
  "frame_cells sg num_cols i [] = Some []"
| "frame_cells sg num_cols i (vpe # es) =
     do { row \<leftarrow> div64 i num_cols;
          col \<leftarrow> mod64 i num_cols;
          cell \<leftarrow> frame_cell sg row col vpe;
          rest \<leftarrow> frame_cells sg num_cols (i + 1) es;
          Some (cell # rest) }"

definition make_charbuff :: "('f, 'v) Root \<Rightarrow> (('f, 'v) Root \<times> CharBuff) option" where
  "make_charbuff root =
     do { fresh \<leftarrow> make_zbuff root;
          let zbuff = (case rt_zbuff root of Some z \<Rightarrow> z | None \<Rightarrow> fresh);
          cells \<leftarrow> frame_cells (rt_scenegraph root) (rt_num_cols root) 0 zbuff;
          Some (root\<lparr>rt_zbuff := Some zbuff\<rparr>, \<lparr>cb_num_cols = rt_num_cols root, cb_cells = cells\<rparr>) }"

section \<open>Focus\<close>

text \<open>The focusable elements of a frame, one entry per run of cells.\<close>

fun focus_elements ::
  "('f, 'v) WrbForm \<Rightarrow> (u128 \<rightharpoonup> 'f) \<Rightarrow> CharCell list \<Rightarrow> u128 option \<Rightarrow> u128 list" where
  "focus_elements W forms [] cur = []"
| "focus_elements W forms (cell # cells) cur =
     (case cell of
        Blank \<Rightarrow> focus_elements W forms cells cur
      | Fill _ _ _ e \<Rightarrow>
         (case forms e of
            None \<Rightarrow> focus_elements W forms cells cur
          | Some form \<Rightarrow>
              if \<not> focusable (fm_type_id W form) then focus_elements W forms cells cur
              else if cur = Some e then focus_elements W forms cells cur
              else e # focus_elements W forms cells (Some e)))"

text \<open>The two loops over neighbours, each inserting into a map.\<close>

fun link_next :: "u128 list \<Rightarrow> (u128 \<rightharpoonup> u128) \<Rightarrow> (u128 \<rightharpoonup> u128)" where
  "link_next (a # b # xs) m = link_next (b # xs) (m(a \<mapsto> b))"
| "link_next _ m = m"

fun link_prev :: "u128 list \<Rightarrow> (u128 \<rightharpoonup> u128) \<Rightarrow> (u128 \<rightharpoonup> u128)" where
  "link_prev (a # b # xs) m = link_prev (b # xs) (m(b \<mapsto> a))"
| "link_prev _ m = m"

definition make_focus_order :: "('f, 'v) WrbForm \<Rightarrow> ('f, 'v) Root \<Rightarrow> CharBuff \<Rightarrow> ('f, 'v) Root" where
  "make_focus_order W root buff =
     (let ids = focus_elements W (rt_forms root) (cb_cells buff) None in
      if length ids = 0 then root\<lparr>rt_focus_order := Map.empty, rt_focus_first := None\<rparr>
      else root\<lparr>rt_focus_order := (link_next ids Map.empty)(last ids \<mapsto> hd ids),
                rt_reverse_focus_order := (link_prev ids Map.empty)(hd ids \<mapsto> last ids),
                rt_focus_first := Some (hd ids)\<rparr>)"

definition root_render :: "('f, 'v) WrbForm \<Rightarrow> ('f, 'v) Root \<Rightarrow> (('f, 'v) Root \<times> CharBuff) option" where
  "root_render W root =
     do { (root, buff) \<leftarrow> make_charbuff root; Some (make_focus_order W root buff, buff) }"

definition root_refresh :: "('f, 'v) WrbForm \<Rightarrow> ('f, 'v) Root \<Rightarrow> (('f, 'v) Root \<times> CharBuff) option" where
  "root_refresh W root =
     do { (root, buff) \<leftarrow> make_charbuff (root\<lparr>rt_zbuff := None\<rparr>); Some (make_focus_order W root buff, buff) }"

definition find_viewport_id :: "('f, 'v) Root \<Rightarrow> coord \<Rightarrow> coord \<Rightarrow> u128 option option" where
  "find_viewport_id root row col =
     (case rt_zbuff root of
        None \<Rightarrow> Some None
      | Some zbuff \<Rightarrow>
          do { o1 \<leftarrow> mul64 row (rt_num_cols root);
               i \<leftarrow> add64 o1 col;
               Some (case vec_get zbuff i of Some (ZViewport v) \<Rightarrow> Some v | _ \<Rightarrow> None) })"

text \<open>A form is taken out of the map while one of its methods runs on the root.\<close>

definition with_form_focus ::
  "('f, 'v) WrbForm \<Rightarrow> ('f, 'v) Root \<Rightarrow> u128 option \<Rightarrow> bool \<Rightarrow> (UiError, ('f, 'v) Root) outcome" where
  "with_form_focus W root who focused =
     (case who of None \<Rightarrow> Ok root | Some i \<Rightarrow>
       (case rt_forms root i of None \<Rightarrow> Ok root | Some form \<Rightarrow>
          obind (fm_focus W form (root\<lparr>rt_forms := (rt_forms root)(i := None)\<rparr>) focused) (\<lambda>(form, root).
          Ok (root\<lparr>rt_forms := (rt_forms root)(i \<mapsto> form)\<rparr>))))"

definition inner_next_focus ::
  "('f, 'v) WrbForm \<Rightarrow> ('f, 'v) Root \<Rightarrow> bool \<Rightarrow> (UiError, ('f, 'v) Root) outcome" where
  "inner_next_focus W root backward =
     (let old_focused = rt_focused root;
          root = (case rt_focused root of
                    Some focused \<Rightarrow>
                      root\<lparr>rt_focused := (if backward then rt_reverse_focus_order root focused else rt_focus_order root focused)\<rparr>
                  | None \<Rightarrow> root\<lparr>rt_focused := rt_focus_first root\<rparr>)
      in obind (with_form_focus W root old_focused False) (\<lambda>root.
         with_form_focus W root (rt_focused root) True))"

definition next_focus :: "('f, 'v) WrbForm \<Rightarrow> ('f, 'v) Root \<Rightarrow> (UiError, ('f, 'v) Root) outcome" where
  "next_focus W root = inner_next_focus W root False"

definition prev_focus :: "('f, 'v) WrbForm \<Rightarrow> ('f, 'v) Root \<Rightarrow> (UiError, ('f, 'v) Root) outcome" where
  "prev_focus W root = inner_next_focus W root True"

definition clear_focus :: "('f, 'v) WrbForm \<Rightarrow> ('f, 'v) Root \<Rightarrow> (UiError, ('f, 'v) Root) outcome" where
  "clear_focus W root = with_form_focus W (root\<lparr>rt_focused := None\<rparr>) (rt_focused root) False"

definition is_focused :: "('f, 'v) Root \<Rightarrow> u128 \<Rightarrow> bool" where
  "is_focused root element_id \<longleftrightarrow> rt_focused root = Some element_id"

definition is_focusable :: "('f, 'v) Root \<Rightarrow> u128 \<Rightarrow> bool" where
  "is_focusable root element_id \<longleftrightarrow> rt_focus_order root element_id \<noteq> None"

section \<open>Forms and events\<close>

text \<open>Rendering a list of forms, with the cursor of every viewport.\<close>

definition cursor_of :: "(u128 \<rightharpoonup> coord \<times> coord) \<Rightarrow> u128 \<Rightarrow> coord \<times> coord" where
  "cursor_of cursors i = (case cursors i of Some c \<Rightarrow> c | None \<Rightarrow> (0, 0))"

fun render_contents ::
  "('f, 'v) WrbForm \<Rightarrow> 'f list \<Rightarrow> ('f, 'v) Root \<Rightarrow> (u128 \<rightharpoonup> coord \<times> coord) \<Rightarrow> (u128 \<rightharpoonup> 'f) \<Rightarrow> u128 set \<Rightarrow>
   (UiError, ('f, 'v) Root \<times> (u128 \<rightharpoonup> coord \<times> coord) \<times> (u128 \<rightharpoonup> 'f) \<times> u128 set) outcome" where
  "render_contents W [] root cursors forms ids = Ok (root, cursors, forms, ids)"
| "render_contents W (form # rest) root cursors forms ids =
     (let v = fm_viewport_id W form in
      obind (fm_render W form root (cursor_of cursors v)) (\<lambda>(form, root, new_cursor).
      render_contents W rest root (cursors(v \<mapsto> new_cursor)) (forms(fm_element_id W form \<mapsto> form))
        (insert (fm_element_id W form) ids)))"

definition set_all_forms ::
  "('f, 'v) WrbForm \<Rightarrow> ('f, 'v) Root \<Rightarrow> 'f list \<Rightarrow> 'f list \<Rightarrow> (UiError, ('f, 'v) Root) outcome" where
  "set_all_forms W root static_ui_contents dynamic_ui_contents =
     obind (render_contents W static_ui_contents root Map.empty Map.empty {}) (\<lambda>(root, cursors, forms, _).
     obind (render_contents W dynamic_ui_contents root cursors forms {}) (\<lambda>(root, _, forms, dynamic_form_ids).
     Ok (root\<lparr>rt_forms := forms, rt_dynamic_forms := dynamic_form_ids\<rparr>)))"

fun redraw_forms ::
  "('f, 'v) WrbForm \<Rightarrow> u128 list \<Rightarrow> ('f, 'v) Root \<Rightarrow> (u128 \<rightharpoonup> coord \<times> coord) \<Rightarrow> (u128 \<rightharpoonup> 'f) \<Rightarrow>
   (UiError, ('f, 'v) Root \<times> (u128 \<rightharpoonup> 'f)) outcome" where
  "redraw_forms W [] root cursors forms = Ok (root, forms)"
| "redraw_forms W (i # is) root cursors forms =
     (case forms i of None \<Rightarrow> redraw_forms W is root cursors forms | Some form \<Rightarrow>
       (let v = fm_viewport_id W form in
        obind (fm_render W form root (cursor_of cursors v)) (\<lambda>(form, root, new_cursor).
        redraw_forms W is root (cursors(v \<mapsto> new_cursor)) (forms(i \<mapsto> form)))))"

definition redraw :: "('f, 'v) WrbForm \<Rightarrow> u128 list \<Rightarrow> ('f, 'v) Root \<Rightarrow> (UiError, ('f, 'v) Root) outcome" where
  "redraw W order root =
     obind (redraw_forms W order (root\<lparr>rt_forms := Map.empty\<rparr>) Map.empty (rt_forms root)) (\<lambda>(root, forms).
     Ok (root\<lparr>rt_forms := forms\<rparr>))"

text \<open>\<open>update_forms\<close>: merge the viewport settings, clear, redraw the kept forms, add the new ones.\<close>

fun merge_viewports :: "('f, 'v) Root \<Rightarrow> Viewport list \<Rightarrow> ('f, 'v) Root" where
  "merge_viewports root [] = root"
| "merge_viewports root (vp # vps) =
     (case viewport_mut root (vp_id vp) of
        None \<Rightarrow> merge_viewports root vps
      | Some viewport \<Rightarrow> merge_viewports (put_viewport root (vp_id vp) (merge_update viewport vp)) vps)"

fun clear_viewports :: "('f, 'v) Root \<Rightarrow> u128 list \<Rightarrow> ('f, 'v) Root" where
  "clear_viewports root [] = root"
| "clear_viewports root (v # vs) =
     (case viewport_mut root v of
        None \<Rightarrow> clear_viewports root vs
      | Some viewport \<Rightarrow> clear_viewports (put_viewport root v (vp_clear viewport)) vs)"

definition viewport_shown :: "('f, 'v) Root \<Rightarrow> u128 \<Rightarrow> bool" where
  "viewport_shown root v = (case viewport_mut root v of None \<Rightarrow> False | Some viewport \<Rightarrow> vp_visible viewport)"

fun redraw_static ::
  "('f, 'v) WrbForm \<Rightarrow> u128 list \<Rightarrow> ('f, 'v) Root \<Rightarrow> (u128 \<rightharpoonup> coord \<times> coord) \<Rightarrow> (u128 \<rightharpoonup> 'f) \<Rightarrow>
   (UiError, ('f, 'v) Root \<times> (u128 \<rightharpoonup> coord \<times> coord) \<times> (u128 \<rightharpoonup> 'f)) outcome" where
  "redraw_static W [] root cursors forms = Ok (root, cursors, forms)"
| "redraw_static W (i # is) root cursors forms =
     (case forms i of None \<Rightarrow> redraw_static W is root cursors forms | Some form \<Rightarrow>
       (let v = fm_viewport_id W form in
        if \<not> viewport_shown root v then redraw_static W is root cursors forms
        else obind (fm_render W form root (cursor_of cursors v)) (\<lambda>(form, root, new_cursor).
             redraw_static W is root (cursors(v \<mapsto> new_cursor)) (forms(i \<mapsto> form)))))"

fun add_new_contents ::
  "('f, 'v) WrbForm \<Rightarrow> 'f list \<Rightarrow> ('f, 'v) Root \<Rightarrow> (u128 \<rightharpoonup> coord \<times> coord) \<Rightarrow> (u128 \<rightharpoonup> 'f) \<Rightarrow> u128 set \<Rightarrow>
   (UiError, ('f, 'v) Root \<times> (u128 \<rightharpoonup> 'f) \<times> u128 set) outcome" where
  "add_new_contents W [] root cursors forms ids = Ok (root, forms, ids)"
| "add_new_contents W (form # rest) root cursors forms ids =
     (let e = fm_element_id W form; v = fm_viewport_id W form in
      if \<not> viewport_shown root v then add_new_contents W rest root cursors forms ids
      else obind (fm_render W form root (cursor_of cursors v)) (\<lambda>(form, root, new_cursor).
           add_new_contents W rest root (cursors(v \<mapsto> new_cursor)) (forms(e \<mapsto> form)) (insert e ids)))"

definition update_forms ::
  "('f, 'v) WrbForm \<Rightarrow> u128 list \<Rightarrow> ('f, 'v) Root \<Rightarrow> 'f FrameUpdate \<Rightarrow> (UiError, ('f, 'v) Root) outcome" where
  "update_forms W order root frame_update =
     (let forms = (\<lambda>i. if i \<in> rt_dynamic_forms root then None else rt_forms root i);
          root = root\<lparr>rt_forms := Map.empty, rt_dynamic_forms := {}\<rparr>;
          root = merge_viewports root (fu_updated_viewports frame_update);
          root = clear_viewports root (map (fm_viewport_id W) (List.map_filter forms order));
          root = clear_viewports root (map (fm_viewport_id W) (fu_new_contents frame_update))
      in obind (redraw_static W order root Map.empty forms) (\<lambda>(root, cursors, forms).
         obind (add_new_contents W (fu_new_contents frame_update) root cursors forms {}) (\<lambda>(root, forms, dynamic_form_ids).
         Ok (root\<lparr>rt_forms := forms, rt_dynamic_forms := dynamic_form_ids,
                  rt_focused := (case rt_focused root of
                                   Some f \<Rightarrow> (if forms f = None then None else Some f)
                                 | None \<Rightarrow> None)\<rparr>))))"

definition root_handle_event ::
  "('f, 'v) WrbForm \<Rightarrow> ('f, 'v) Root \<Rightarrow> WrbFormEvent \<Rightarrow> (UiError, ('f, 'v) Root) outcome" where
  "root_handle_event W root event =
     (case rt_focused root of None \<Rightarrow> Ok root | Some focused \<Rightarrow>
     (case rt_forms root focused of None \<Rightarrow> Ok root | Some form \<Rightarrow>
      obind (fm_handle_event W form (root\<lparr>rt_forms := (rt_forms root)(focused := None)\<rparr>) event) (\<lambda>(form, root, payload).
      let root = root\<lparr>rt_forms := (rt_forms root)(focused \<mapsto> form)\<rparr>
      in Ok (case payload of
               None \<Rightarrow> root
             | Some p \<Rightarrow> root\<lparr>rt_runtime_events := rt_runtime_events root @
                                 [EvUI (fm_type_id W form) (fm_element_id W form) p]\<rparr>))))"

definition consume_runtime_events :: "('f, 'v) Root \<Rightarrow> ('f, 'v) Root \<times> 'v WrbEvent list" where
  "consume_runtime_events root = (root\<lparr>rt_runtime_events := []\<rparr>, rt_runtime_events root)"

definition form_cursor_to_root_cursor ::
  "('f, 'v) Root \<Rightarrow> u128 \<Rightarrow> coord \<Rightarrow> coord \<Rightarrow> (coord \<times> coord) option option" where
  "form_cursor_to_root_cursor root form_viewport_id row col =
     do { coords \<leftarrow> viewport_coords (rt_scenegraph root) form_viewport_id;
          (case coords of
             None \<Rightarrow> Some None
           | Some (viewport_row, viewport_col) \<Rightarrow>
               do { r \<leftarrow> add64 viewport_row row; c \<leftarrow> add64 viewport_col col; Some (Some (r, c)) }) }"

definition set_form_cursor :: "('f, 'v) Root \<Rightarrow> u128 \<Rightarrow> coord \<Rightarrow> coord \<Rightarrow> ('f, 'v) Root option" where
  "set_form_cursor root form_element_id row col =
     do { abs_coord \<leftarrow> form_cursor_to_root_cursor root form_element_id row col;
          Some (root\<lparr>rt_cursor := abs_coord\<rparr>) }"

abbreviation keycode_enter :: Key where
  "keycode_enter \<equiv> KChar newline"

abbreviation keycode_space :: Key where
  "keycode_space \<equiv> KChar space"

abbreviation keycode_up :: Key where
  "keycode_up \<equiv> KUp"

abbreviation keycode_down :: Key where
  "keycode_down \<equiv> KDown"

end
