(* ===== verification/Root_Props.thy ===== *)
theory Root_Props
  imports Root
begin

text \<open>
  What the root pane shows and where the focus goes: the frame has in every place the cell of
  the viewport on top, drawing keeps the scene graph consistent, and moving the focus walks
  through the focusable elements in a cycle.
\<close>

section \<open>The frame\<close>

lemma concat_grid:
  assumes "0 < n"
  shows "concat (map (\<lambda>r. map (g r) [0..<n]) [0..<m]) = map (\<lambda>i. g (i div n) (i mod n)) [0..<m * n]"
proof (induction m)
  case (Suc m)
  have "[0..<Suc m * n] = [0..<m * n] @ map (\<lambda>j. j + m * n) [0..<n]"
    by (metis add.commute map_add_upt mult_Suc upt_add_eq_append zero_le)
  then show ?case using Suc assms by (simp add: comp_def del: upt_Suc) simp
qed simp

definition z_entry :: "u128 option \<Rightarrow> ZBuffEntry" where
  "z_entry e = (case e of Some i \<Rightarrow> ZViewport i | None \<Rightarrow> ZRoot)"

lemma zbuff_row_ok:
  assumes "\<And>r c. viewport_at sg r c True = Some (va r c)"
  shows "zbuff_row sg r c n = Some (map (\<lambda>j. z_entry (va r j)) [c..<c + n])"
  by (induction n arbitrary: c) (simp_all add: assms z_entry_def upt_conv_Cons del: upt_Suc)

lemma zbuff_rows_ok:
  assumes "\<And>r c. viewport_at sg r c True = Some (va r c)"
  shows "zbuff_rows sg nc r n = Some (concat (map (\<lambda>r. map (\<lambda>j. z_entry (va r j)) [0..<nc]) [r..<r + n]))"
  by (induction n arbitrary: r) (simp_all add: zbuff_row_ok [OF assms] upt_conv_Cons del: upt_Suc)

lemma frame_cells_ok:
  assumes "0 < nc" and "\<And>j. j < length es \<Longrightarrow> frame_cell sg ((i + j) div nc) ((i + j) mod nc) (es ! j) = Some (f (i + j))"
  shows "frame_cells sg nc i es = Some (map f [i..<i + length es])"
  using assms(2)
proof (induction es arbitrary: i)
  case (Cons e es)
  have "frame_cells sg nc (i + 1) es = Some (map f [i + 1..<i + 1 + length es])"
    by (rule Cons.IH) (use Cons.prems [of "Suc _"] in simp)
  then show ?case
    using Cons.prems [of 0] assms(1) by (simp add: div64_def mod64_def upt_conv_Cons del: upt_Suc)
qed simp

text \<open>The cell a viewport shows at an offset from its corner.\<close>

definition vp_cell :: "Viewport \<Rightarrow> nat \<Rightarrow> nat \<Rightarrow> CharCell" where
  "vp_cell vp r c =
     (let i = cb_num_cols (vp_buff vp) * r + c
      in if i < length (cb_cells (vp_buff vp)) then cb_cells (vp_buff vp) ! i else Blank)"

text \<open>
  A scene is consistent when the scene graph is the one that its viewports build; a viewport
  is drawable when the cells of its box can be numbered. Nothing in the sources scrolls.
\<close>

definition scene_inv :: "SceneGraph \<Rightarrow> bool" where
  "scene_inv sg \<longleftrightarrow> sg_new (sg_viewports sg) = Some sg \<and> scene_fits (sg_viewports sg) \<and>
     parents_first (sg_viewports sg) \<and>
     (\<forall>vp \<in> set (sg_viewports sg). vp_scroll_offset vp = 0 \<and>
        cb_num_cols (vp_buff vp) * vp_num_rows vp < u64_lim)"

lemma index_in_box:
  assumes "r < m" and "c < n"
  shows "n * r + c < n * (m :: nat)"
proof -
  have "n * r + c < n * r + n" using assms(2) by simp
  also have "\<dots> = n * Suc r" by simp
  also have "\<dots> \<le> n * m" using assms(1) by (intro mult_le_mono2) simp
  finally show ?thesis .
qed

lemma frame_cell_viewport:
  assumes inv: "scene_inv sg" and k: "k < length (sg_viewports sg)" and vp: "vp = sg_viewports sg ! k"
    and at: "abs_at (sg_viewports sg) vp ar ac d"
    and box: "ar \<le> row" "row < ar + vp_num_rows vp" "ac \<le> col" "col < ac + cb_num_cols (vp_buff vp)"
  shows "frame_cell sg row col (ZViewport (vp_id vp)) = Some (vp_cell vp (row - ar) (col - ac))"
proof -
  let ?vps = "sg_viewports sg" and ?n = "cb_num_cols (vp_buff vp)"
  have fits: "scene_fits ?vps" and new: "sg_new ?vps = Some sg"
    and small: "vp_scroll_offset vp = 0" "?n * vp_num_rows vp < u64_lim"
    using inv nth_mem [OF k] vp unfolding scene_inv_def by auto
  have dist: "distinct (map vp_id ?vps)" using fits by (simp add: scene_fits_def)
  have mem: "vp \<in> set ?vps" using k vp by simp
  obtain depths where tbl: "sg_viewport_table sg = make_table 0 ?vps Map.empty"
    and pl: "placed ?vps (length ?vps) (sg_coord_offsets sg) depths"
    using sg_new_ok [OF scene_fits_ok [OF fits]] new by auto
  obtain r' c' d' where at': "abs_at ?vps vp r' c' d'" "r' + vp_num_rows vp < u64_lim" "c' + ?n < u64_lim"
    using fits mem unfolding scene_fits_def by blast
  then have lim: "ar + vp_num_rows vp < u64_lim" "ac + ?n < u64_lim"
    using abs_at_det [OF dist at at'(1)] by simp_all
  have sr: "vp_start_row vp \<le> ar" "vp_start_col vp \<le> ac"
    using at by (cases rule: abs_at.cases; simp)+
  have ref: "ref_viewport sg (vp_id vp) = Some vp"
    using make_table_nth [OF dist k, of 0 Map.empty] k vp by (simp add: ref_viewport_def tbl vec_get_def)
  have coords: "viewport_coords sg (vp_id vp) = Some (Some (ar, ac))"
    using scene_offset [OF scene_fits_ok [OF fits] pl mem at] lim
    by (simp add: viewport_coords_def abs_coords_def add64_def)
  have tr: "translate_coordinate vp (ar - vp_start_row vp) (ac - vp_start_col vp) row col =
      Some (Some (row - ar, col - ac))"
    using sr lim box by (auto simp: translate_coordinate_def vp_dims_def add64_def sub64_def)
  have "row - ar < vp_num_rows vp" "col - ac < ?n" using box by auto
  then have i: "?n * (row - ar) + (col - ac) < u64_lim"
    using index_in_box [of "row - ar" "vp_num_rows vp" "col - ac" ?n] small(2) by linarith
  then have i': "?n * (row - ar) < u64_lim" by linarith
  have "row - ar < u64_lim" using \<open>row - ar < vp_num_rows vp\<close> lim(1) by linarith
  then have "vp_charcell_at vp (row - ar) (col - ac) = Some (vec_get (cb_cells (vp_buff vp)) (?n * (row - ar) + (col - ac)))"
    using i i' small(1) \<open>row - ar < vp_num_rows vp\<close>
    by (simp add: vp_charcell_at_def cb_charcell_at_def add64_def mul64_def)
  then show ?thesis
    by (simp add: frame_cell_def ref coords tr vp_pos_def vp_cell_def vec_get_def Let_def)
qed

text \<open>What a cell of the frame should be: the frontmost covering viewport shows through.\<close>

definition top_cell :: "Viewport list \<Rightarrow> coord \<Rightarrow> coord \<Rightarrow> CharCell \<Rightarrow> bool" where
  "top_cell vps r c x \<longleftrightarrow>
     (\<exists>k ar ac d. k < length vps \<and> covers vps True r c (vps ! k) \<and> abs_at vps (vps ! k) ar ac d \<and>
        x = vp_cell (vps ! k) (r - ar) (c - ac) \<and>
        (\<forall>j < length vps. covers vps True r c (vps ! j) \<and> j \<noteq> k \<longrightarrow>
           (\<exists>rj cj dj. abs_at vps (vps ! j) rj cj dj \<and> z_less (dj, j) (d, k)))) \<or>
     ((\<forall>vp \<in> set vps. \<not> covers vps True r c vp) \<and> x = Blank)"

lemma top_cell_at:
  assumes inv: "scene_inv sg"
  shows "\<exists>e x. viewport_at sg r c True = Some e \<and> frame_cell sg r c (z_entry e) = Some x \<and>
           top_cell (sg_viewports sg) r c x"
proof -
  let ?vps = "sg_viewports sg"
  have fits: "scene_fits ?vps" and new: "sg_new ?vps = Some sg" and pf: "parents_first ?vps"
    using inv by (auto simp: scene_inv_def)
  have dist: "distinct (map vp_id ?vps)" using fits by (simp add: scene_fits_def)
  obtain e where e: "viewport_at sg r c True = Some e"
    and top: "case e of None \<Rightarrow> \<forall>vp \<in> set ?vps. \<not> covers ?vps True r c vp
      | Some i \<Rightarrow> \<exists>k < length ?vps. vp_id (?vps ! k) = i \<and> covers ?vps True r c (?vps ! k) \<and>
         (\<forall>j < length ?vps. covers ?vps True r c (?vps ! j) \<and> j \<noteq> k \<longrightarrow>
            (\<exists>rj cj dj rk ck dk. abs_at ?vps (?vps ! j) rj cj dj \<and> abs_at ?vps (?vps ! k) rk ck dk \<and>
               z_less (dj, j) (dk, k)))"
    using viewport_at_front [OF fits pf new, of r c True] by blast
  show ?thesis
  proof (cases e)
    case None
    then show ?thesis
      using e top by (intro exI [of _ e] exI [of _ Blank]) (auto simp: z_entry_def frame_cell_def top_cell_def)
  next
    case (Some i)
    then obtain k where k: "k < length ?vps" "vp_id (?vps ! k) = i" and cov: "covers ?vps True r c (?vps ! k)"
      and front: "\<forall>j < length ?vps. covers ?vps True r c (?vps ! j) \<and> j \<noteq> k \<longrightarrow>
            (\<exists>rj cj dj rk ck dk. abs_at ?vps (?vps ! j) rj cj dj \<and> abs_at ?vps (?vps ! k) rk ck dk \<and>
               z_less (dj, j) (dk, k))"
      using top by auto
    obtain ar ac d where at: "abs_at ?vps (?vps ! k) ar ac d"
      and box: "ar \<le> r" "r < ar + vp_num_rows (?vps ! k)" "ac \<le> c" "c < ac + cb_num_cols (vp_buff (?vps ! k))"
      using cov unfolding covers_def by blast
    have "\<forall>j < length ?vps. covers ?vps True r c (?vps ! j) \<and> j \<noteq> k \<longrightarrow>
            (\<exists>rj cj dj. abs_at ?vps (?vps ! j) rj cj dj \<and> z_less (dj, j) (d, k))"
      using front abs_at_det [OF dist at] by blast
    then have "top_cell ?vps r c (vp_cell (?vps ! k) (r - ar) (c - ac))"
      unfolding top_cell_def using k(1) cov at by blast
    then show ?thesis
      using frame_cell_viewport [OF inv k(1) refl at box] e Some k(2) by (auto simp: z_entry_def)
  qed
qed

text \<open>A frame of the size of the screen in which every place shows the viewport on top.\<close>

definition shows_top :: "('f, 'v) Root \<Rightarrow> CharBuff \<Rightarrow> bool" where
  "shows_top root b \<longleftrightarrow> cb_num_cols b = rt_num_cols root \<and>
     length (cb_cells b) = rt_num_rows root * rt_num_cols root \<and>
     (\<forall>r < rt_num_rows root. \<forall>c < rt_num_cols root.
        top_cell (sg_viewports (rt_scenegraph root)) r c (cb_cells b ! (rt_num_cols root * r + c)))"

lemma make_charbuff_top:
  assumes inv: "scene_inv (rt_scenegraph root)" and z: "rt_zbuff root = None \<or> rt_zbuff root = make_zbuff root"
    and nc: "0 < rt_num_cols root" and lim: "rt_num_rows root * rt_num_cols root < 2 ^ 58"
  shows "\<exists>z b. make_zbuff root = Some z \<and> make_charbuff root = Some (root\<lparr>rt_zbuff := Some z\<rparr>, b) \<and> shows_top root b"
proof -
  let ?sg = "rt_scenegraph root" and ?nc = "rt_num_cols root" and ?nr = "rt_num_rows root"
  obtain va F where va: "\<And>r c. viewport_at ?sg r c True = Some (va r c)"
    and F: "\<And>r c. frame_cell ?sg r c (z_entry (va r c)) = Some (F r c)"
    and top: "\<And>r c. top_cell (sg_viewports ?sg) r c (F r c)"
    using top_cell_at [OF inv] by metis
  let ?z = "map (\<lambda>i. z_entry (va (i div ?nc) (i mod ?nc))) [0..<?nr * ?nc]"
  let ?cells = "map (\<lambda>i. F (i div ?nc) (i mod ?nc)) [0..<?nr * ?nc]"
  have zb: "make_zbuff root = Some ?z"
    using lim zbuff_rows_ok [OF va, of ?nc 0 ?nr] concat_grid [OF nc, of "\<lambda>r j. z_entry (va r j)" ?nr]
    by (simp add: make_zbuff_def mul64_def zbuff_capacity_def u64_lim_def)
  moreover have "frame_cells ?sg ?nc 0 ?z = Some ?cells"
    using frame_cells_ok [OF nc, of ?z ?sg 0 "\<lambda>i. F (i div ?nc) (i mod ?nc)"] F by simp
  ultimately have "make_charbuff root = Some (root\<lparr>rt_zbuff := Some ?z\<rparr>, \<lparr>cb_num_cols = ?nc, cb_cells = ?cells\<rparr>)"
    using z by (auto simp: make_charbuff_def)
  moreover have "?cells ! (?nc * r + c) = F r c" if "r < ?nr" "c < ?nc" for r c
    using index_in_box [OF that] that by (simp add: mult.commute)
  then have "shows_top root \<lparr>cb_num_cols = ?nc, cb_cells = ?cells\<rparr>" using top by (simp add: shows_top_def)
  ultimately show ?thesis using zb by blast
qed

text \<open>
  C2. The frame. Drawing a consistent scene on a screen of fewer than \<open>2 ^ 58\<close> cells (the z-buffer
  of more cells cannot be allocated), with no z-buffer or the one of the scene, never
  panics and gives a frame of the size of the screen; each of its cells is the cell of the
  frontmost visible viewport that covers the place (deeper first, then the later one), taken
  at the offset from the corner of that viewport, and blank where no visible viewport is.
\<close>

theorem frame_shows_top:
  assumes "scene_inv (rt_scenegraph root)" and "rt_zbuff root = None \<or> rt_zbuff root = make_zbuff root"
    and "0 < rt_num_cols root" and "rt_num_rows root * rt_num_cols root < 2 ^ 58"
  shows "\<exists>root' b. make_charbuff root = Some (root', b) \<and> cb_num_cols b = rt_num_cols root \<and>
    length (cb_cells b) = rt_num_rows root * rt_num_cols root \<and>
    (\<forall>r < rt_num_rows root. \<forall>c < rt_num_cols root.
       top_cell (sg_viewports (rt_scenegraph root)) r c (cb_cells b ! (rt_num_cols root * r + c)))"
  using make_charbuff_top [OF assms] by (auto simp: shows_top_def)

section \<open>Drawing keeps the scene consistent\<close>

text \<open>Two viewports of the same shape differ only in what is drawn on them.\<close>

definition same_shape :: "Viewport \<Rightarrow> Viewport \<Rightarrow> bool" where
  "same_shape a b \<longleftrightarrow> vp_id a = vp_id b \<and> vp_start_row a = vp_start_row b \<and> vp_start_col a = vp_start_col b \<and>
     vp_num_rows a = vp_num_rows b \<and> vp_parent a = vp_parent b \<and> vp_scroll_offset a = vp_scroll_offset b \<and>
     cb_num_cols (vp_buff a) = cb_num_cols (vp_buff b)"

abbreviation same_shapes :: "Viewport list \<Rightarrow> Viewport list \<Rightarrow> bool" where
  "same_shapes \<equiv> list_all2 same_shape"

lemma same_shape_sym: "same_shape a b \<Longrightarrow> same_shape b a"
  by (simp add: same_shape_def)

lemma same_shapes_sym: "same_shapes vps vps' \<Longrightarrow> same_shapes vps' vps"
  by (simp add: list_all2_conv_all_nth same_shape_sym)

lemma make_table_shape: "same_shapes vps vps' \<Longrightarrow> make_table i vps' t = make_table i vps t"
  by (induction vps vps' arbitrary: i t rule: list_all2_induct) (auto simp: same_shape_def)

lemma make_tree_shape: "same_shapes vps vps' \<Longrightarrow> make_tree tbl vps' t = make_tree tbl vps t"
proof (induction vps vps' arbitrary: t rule: list_all2_induct)
  case (Cons x xs y ys)
  then have "vp_parent y = vp_parent x" "vp_id y = vp_id x" by (simp_all add: same_shape_def)
  then show ?case using Cons.IH by (cases "vp_parent x") (simp_all del: fun_upd_apply)
qed simp

lemma walk_shape_Some:
  assumes "walk_to_root tree vps offs depths row col i depth = Some y" and "same_shapes vps vps'"
  shows "walk_to_root tree vps' offs depths row col i depth = Some y"
proof -
  have "same_shapes vps vps' \<longrightarrow> walk_to_root tree vps' offs depths row col i depth = Some y"
  proof (rule walk_to_root.raw_induct [where P = "\<lambda>tree vps offs depths row col i depth y.
        same_shapes vps vps' \<longrightarrow> walk_to_root tree vps' offs depths row col i depth = Some y", OF _ assms(1)], rule impI)
    fix walk tree vps offs depths row col i depth y
    assume IH: "\<And>tree vps offs depths row col i depth y. walk tree vps offs depths row col i depth = Some y \<Longrightarrow>
        same_shapes vps vps' \<longrightarrow> walk_to_root tree vps' offs depths row col i depth = Some y"
      and body: "(case tree i of None \<Rightarrow> Some (row, col, depth) | Some None \<Rightarrow> Some (row, col, depth)
        | Some (Some parent_index) \<Rightarrow>
          do { parent \<leftarrow> vec_get vps parent_index;
               (case offs (vp_id parent) of
                  None \<Rightarrow> do { row \<leftarrow> add64 row (fst (vp_pos parent)); col \<leftarrow> add64 col (snd (vp_pos parent));
                                walk tree vps offs depths row col (vp_id parent) (depth + 1) }
                | Some off \<Rightarrow> do { row \<leftarrow> add64 row (fst off); col \<leftarrow> add64 col (snd off);
                                    parent_depth \<leftarrow> vec_get depths parent_index;
                                    Some (row, col, parent_depth + 1) }) }) = Some y"
      and shape: "same_shapes vps vps'"
    have get: "\<exists>p'. vec_get vps' j = Some p' \<and> vp_id p' = vp_id p \<and> vp_pos p' = vp_pos p" if "vec_get vps j = Some p" for j p
      using that shape by (auto simp: vec_get_def list_all2_conv_all_nth same_shape_def vp_pos_def split: if_splits)
    show "walk_to_root tree vps' offs depths row col i depth = Some y"
    proof (cases "\<exists>j. tree i = Some (Some j)")
      case True
      then obtain j where j: "tree i = Some (Some j)" by blast
      then obtain p where p: "vec_get vps j = Some p" using body by (auto simp: bind_Some_iff)
      then obtain p' where p': "vec_get vps' j = Some p'" "vp_id p' = vp_id p" "vp_pos p' = vp_pos p"
        using get by blast
      show ?thesis
        using body IH [OF _, of tree vps] shape j p p'
        by (subst walk_to_root.simps, cases y rule: prod_cases3, cases "offs (vp_id p)") (auto simp: bind_Some_iff)
    next
      case False
      then show ?thesis
        using body by (subst walk_to_root.simps) (auto split: option.splits)
    qed
  qed
  then show ?thesis using assms(2) by blast
qed

lemma walk_shape:
  assumes "same_shapes vps vps'"
  shows "walk_to_root tree vps' offs depths row col i depth = walk_to_root tree vps offs depths row col i depth"
  using walk_shape_Some [OF _ assms, of tree offs depths row col i depth]
    walk_shape_Some [OF _ same_shapes_sym [OF assms], of tree offs depths row col i depth]
  by (cases "walk_to_root tree vps' offs depths row col i depth";
      cases "walk_to_root tree vps offs depths row col i depth") auto

lemma place_shape:
  assumes "same_shapes vps vps'" and "same_shapes todo todo'"
  shows "place_viewports tree vps' todo' offs depths = place_viewports tree vps todo offs depths"
  using assms(2)
proof (induction todo todo' arbitrary: offs depths rule: list_all2_induct)
  case (Cons x xs y ys)
  then have "vp_id y = vp_id x" "vp_pos y = vp_pos x" by (simp_all add: same_shape_def vp_pos_def)
  then show ?case using Cons.IH by (simp add: walk_shape [OF assms(1)] del: fun_upd_apply)
qed simp

lemma fill_shape: "same_shapes vps vps' \<Longrightarrow> fill_hierarchy vps' depths h = fill_hierarchy vps depths h"
proof (induction vps vps' arbitrary: depths h rule: list_all2_induct)
  case Nil
  then show ?case by (cases depths) auto
next
  case (Cons x xs y ys)
  then have "vp_id y = vp_id x" by (simp add: same_shape_def)
  moreover have "fill_hierarchy ys = fill_hierarchy xs" using Cons.IH by (intro ext)
  ultimately show ?case by (cases depths) simp_all
qed

lemma sg_new_shape:
  assumes "same_shapes vps vps'" and "sg_new vps = Some sg"
  shows "sg_new vps' = Some (sg\<lparr>sg_viewports := vps'\<rparr>)"
  using assms(2)
  by (auto simp: sg_new_def Let_def bind_Some_iff make_table_shape [OF assms(1)] make_tree_shape [OF assms(1)]
      place_shape [OF assms(1,1)] fill_shape [OF assms(1)])

lemma abs_at_shape:
  assumes "same_shapes vps vps'" and "abs_at vps vp r c d" and "k < length vps" and "vps ! k = vp"
  shows "abs_at vps' (vps' ! k) r c d"
  using assms(2-)
proof (induction arbitrary: k)
  case (at_root vp)
  then have "same_shape vp (vps' ! k)" "k < length vps'" using assms(1) by (auto simp: list_all2_conv_all_nth)
  then show ?case using abs_at.at_root [of "vps' ! k" vps'] at_root by (simp add: same_shape_def)
next
  case (at_child vp parent r c d)
  then obtain j where j: "j < length vps" "vps ! j = parent"
    using abs_at_mem by (metis in_set_conv_nth)
  then have p: "abs_at vps' (vps' ! j) r c d" "same_shape parent (vps' ! j)"
    using at_child.IH assms(1) by (auto simp: list_all2_conv_all_nth)
  have "same_shape vp (vps' ! k)" "k < length vps'" using at_child assms(1) by (auto simp: list_all2_conv_all_nth)
  then show ?case
    using abs_at.at_child [of "vps' ! k" vps' "vps' ! j" r c d] p at_child.hyps by (simp add: same_shape_def)
qed

lemma scene_inv_shape:
  assumes inv: "scene_inv sg" and shape: "same_shapes (sg_viewports sg) vps'"
  shows "scene_inv (sg\<lparr>sg_viewports := vps'\<rparr>)"
proof -
  let ?vps = "sg_viewports sg"
  have len: "length vps' = length ?vps" and nth: "same_shape (?vps ! k) (vps' ! k)" if "k < length ?vps" for k
    using shape that by (auto simp: list_all2_conv_all_nth)
  have ids: "map vp_id vps' = map vp_id ?vps"
    using shape by (intro nth_equalityI) (auto simp: list_all2_conv_all_nth same_shape_def)
  have fits: "scene_fits vps'"
    unfolding scene_fits_def ids
  proof (intro conjI ballI)
    show "distinct (map vp_id ?vps)" using inv by (simp add: scene_inv_def scene_fits_def)
    fix vp assume "vp \<in> set vps'"
    then obtain k where k: "k < length ?vps" "vp = vps' ! k" using shape by (metis in_set_conv_nth list_all2_lengthD)
    obtain r c d where at: "abs_at ?vps (?vps ! k) r c d"
      and lim: "r + vp_num_rows (?vps ! k) < u64_lim" "c + cb_num_cols (vp_buff (?vps ! k)) < u64_lim"
      using inv nth_mem [OF k(1)] unfolding scene_inv_def scene_fits_def by blast
    have "abs_at vps' vp r c d" using abs_at_shape [OF shape at k(1) refl] k(2) by simp
    then show "\<exists>r c d. abs_at vps' vp r c d \<and> r + vp_num_rows vp < u64_lim \<and> c + cb_num_cols (vp_buff vp) < u64_lim"
      using lim nth [OF k(1)] k(2) by (auto simp: same_shape_def)
  qed
  have "parents_first vps'"
    using inv shape unfolding scene_inv_def parents_first_def
    by (auto simp: list_all2_conv_all_nth same_shape_def) (metis order.strict_trans)
  moreover have "\<forall>vp \<in> set vps'. vp_scroll_offset vp = 0 \<and> cb_num_cols (vp_buff vp) * vp_num_rows vp < u64_lim"
    using inv shape unfolding scene_inv_def
    by (auto simp: list_all2_conv_all_nth same_shape_def in_set_conv_nth) (metis nth_mem)+
  moreover have "sg_new vps' = Some (sg\<lparr>sg_viewports := vps'\<rparr>)"
    using inv sg_new_shape [OF shape] by (simp add: scene_inv_def)
  ultimately show ?thesis using fits by (simp add: scene_inv_def)
qed

lemma vp_exec_shape: "vp_exec x vp = Some (vp', p) \<Longrightarrow> same_shape vp vp'"
proof -
  assume e: "vp_exec x vp = Some (vp', p)"
  have "cb_num_cols (vp_buff vp') = cb_num_cols (vp_buff vp)" by (rule vp_printer.pr_width [OF e])
  then show ?thesis
    using e
    by (cases x) (auto simp: vp_exec_def vp_print_to_def vp_print_def vp_println_def update_element_coord_def
        bind_Some_iff same_shape_def split: print_op.splits option.splits)
qed

lemma vp_clear_shape: "same_shape vp (vp_clear vp)"
  by (simp add: same_shape_def vp_clear_def cb_clear_def)

lemma scene_inv_put:
  assumes "scene_inv (rt_scenegraph root)" and "viewport_mut root i = Some vp" and "same_shape vp vp'"
  shows "scene_inv (rt_scenegraph (put_viewport root i vp')) \<and> viewport_mut (put_viewport root i vp') i = Some vp'"
proof -
  obtain k where k: "sg_viewport_table (rt_scenegraph root) i = Some k" "k < length (sg_viewports (rt_scenegraph root))"
      "sg_viewports (rt_scenegraph root) ! k = vp"
    using assms(2) by (auto simp: viewport_mut_def vec_get_def split: option.splits if_splits)
  have "same_shapes (sg_viewports (rt_scenegraph root)) ((sg_viewports (rt_scenegraph root))[k := vp'])"
    using k assms(3) by (auto simp: list_all2_conv_all_nth nth_list_update same_shape_def)
  then show ?thesis
    using scene_inv_shape [OF assms(1)] k by (simp add: put_viewport_def viewport_mut_def vec_get_def)
qed

text \<open>
  Drawing keeps the scene consistent. Printing to a viewport of the root, or clearing it,
  leaves the scene graph the one its viewports build, so the frame can be drawn at any time
  between drawing operations.
\<close>

theorem drawing_keeps_scene:
  assumes "scene_inv (rt_scenegraph root)" and "viewport_mut root i = Some vp"
    and "vp_exec x vp = Some (vp', p)"
  shows "scene_inv (rt_scenegraph (put_viewport root i vp')) \<and>
     scene_inv (rt_scenegraph (put_viewport root i (vp_clear vp))) \<and>
     viewport_mut (put_viewport root i vp') i = Some vp'"
  using scene_inv_put [OF assms(1,2) vp_exec_shape [OF assms(3)]]
    scene_inv_put [OF assms(1,2) vp_clear_shape] by blast

section \<open>Focus\<close>

lemma link_next_other: "k \<notin> set (butlast xs) \<Longrightarrow> link_next xs m k = m k"
  by (induction xs m rule: link_next.induct) auto

lemma link_prev_other: "k \<notin> set (tl xs) \<Longrightarrow> link_prev xs m k = m k"
  by (induction xs m rule: link_prev.induct) auto

lemma link_next_nth:
  "distinct xs \<Longrightarrow> Suc i < length xs \<Longrightarrow> link_next xs m (xs ! i) = Some (xs ! Suc i)"
proof (induction xs m arbitrary: i rule: link_next.induct)
  case (1 a b xs m)
  show ?case
  proof (cases i)
    case 0
    have "a \<notin> set (butlast (b # xs))" using 1(2) by (auto dest: in_set_butlastD)
    then show ?thesis using 0 by (simp add: link_next_other)
  next
    case (Suc j)
    then show ?thesis using 1 by (simp del: fun_upd_apply)
  qed
qed auto

lemma link_prev_nth:
  "distinct xs \<Longrightarrow> Suc i < length xs \<Longrightarrow> link_prev xs m (xs ! Suc i) = Some (xs ! i)"
proof (induction xs m arbitrary: i rule: link_prev.induct)
  case (1 a b xs m)
  show ?case
  proof (cases i)
    case 0
    then show ?thesis using 1(2) by (simp add: link_prev_other)
  next
    case (Suc j)
    then show ?thesis using 1 by (simp del: fun_upd_apply)
  qed
qed auto

lemma focus_elements_focusable:
  "e \<in> set (focus_elements W forms cells cur) \<Longrightarrow> \<exists>f. forms e = Some f \<and> focusable (fm_type_id W f)"
  by (induction W forms cells cur rule: focus_elements.induct) (auto split: CharCell.splits option.splits if_splits)

lemma focus_links:
  assumes "ids = focus_elements W (rt_forms root) (cb_cells buff) None" and "distinct ids"
    and "i < length ids" and "root' = make_focus_order W root buff"
  shows "rt_focus_order root' (ids ! i) = Some (ids ! (Suc i mod length ids)) \<and>
     rt_reverse_focus_order root' (ids ! (Suc i mod length ids)) = Some (ids ! i) \<and>
     rt_focus_first root' = Some (ids ! 0) \<and>
     (\<exists>f. rt_forms root (ids ! i) = Some f \<and> focusable (fm_type_id W f))"
proof -
  have ne: "ids \<noteq> []" using assms(3) by auto
  have root': "rt_focus_order root' = (link_next ids Map.empty)(last ids \<mapsto> hd ids)"
    "rt_reverse_focus_order root' = (link_prev ids Map.empty)(hd ids \<mapsto> last ids)"
    "rt_focus_first root' = Some (ids ! 0)"
    using ne assms(1,4) by (auto simp: make_focus_order_def Let_def hd_conv_nth)
  have form: "\<exists>f. rt_forms root (ids ! i) = Some f \<and> focusable (fm_type_id W f)"
    using focus_elements_focusable [of "ids ! i" W] nth_mem [OF assms(3)] unfolding assms(1) by blast
  show ?thesis
  proof (cases "Suc i = length ids")
    case True
    then have "length ids - 1 = i" by simp
    then have "ids ! i = last ids" "ids ! 0 = hd ids" using ne by (simp_all add: last_conv_nth hd_conv_nth)
    then show ?thesis using True root' form by simp
  next
    case False
    then have i: "Suc i < length ids" using assms(3) by simp
    have "ids ! i \<noteq> last ids" "ids ! Suc i \<noteq> hd ids"
      using i assms(2) ne by (simp_all add: last_conv_nth hd_conv_nth nth_eq_iff_index_eq)
    then show ?thesis
      using root' form i link_next_nth [OF assms(2) i] link_prev_nth [OF assms(2) i] by simp
  qed
qed

text \<open>
  Moving the focus. When every focusable element is one run of cells of the frame, the
  focus order is a cycle through the focusable elements in reading order: the successor of
  the last one is the first one, the reverse order undoes the order, and every element in
  the cycle is a form that can have the focus.
\<close>

theorem focus_cycle:
  assumes "ids = focus_elements W (rt_forms root) (cb_cells buff) None" and "distinct ids"
    and "i < length ids" and "root' = make_focus_order W root buff"
  shows "rt_focus_order root' (ids ! i) = Some (ids ! (Suc i mod length ids)) \<and>
     rt_reverse_focus_order root' (ids ! (Suc i mod length ids)) = Some (ids ! i) \<and>
     rt_focus_first root' = Some (ids ! 0) \<and>
     (\<exists>f. rt_forms root (ids ! i) = Some f \<and> focusable (fm_type_id W f))"
  by (rule focus_links [OF assms])

text \<open>An element of two rows hides its neighbour: with runs \<open>A B A C\<close> nothing leads to \<open>B\<close>.\<close>

lemma focus_skips:
  assumes "focus_elements W (rt_forms root) (cb_cells buff) None = [a, b, a, c]" and "distinct [a, b, c]"
  shows "\<forall>x. rt_focus_order (make_focus_order W root buff) x \<noteq> Some b"
  using assms by (auto simp: make_focus_order_def Let_def)

text \<open>With no focusable element the reverse order of the previous frame stays.\<close>

lemma reverse_focus_stale:
  assumes "focus_elements W (rt_forms root) (cb_cells buff) None = []"
  shows "rt_reverse_focus_order (make_focus_order W root buff) = rt_reverse_focus_order root \<and>
    rt_focus_order (make_focus_order W root buff) = Map.empty"
  using assms by (simp add: make_focus_order_def)

text \<open>
  Moving a viewport by a frame update changes its position but neither the recorded
  coordinates nor the z-buffer of the last frame.
\<close>

lemma merge_keeps_coords:
  "sg_coord_offsets (rt_scenegraph (merge_viewports root vps)) = sg_coord_offsets (rt_scenegraph root) \<and>
   rt_zbuff (merge_viewports root vps) = rt_zbuff root"
  by (induction root vps rule: merge_viewports.induct) (auto simp: put_viewport_def split: option.splits)

section \<open>Witnesses\<close>

lemma sg_new_viewports: "sg_new vps = Some sg \<Longrightarrow> sg_viewports sg = vps"
  by (auto simp: sg_new_def Let_def bind_Some_iff)

lemma demo_scene_inv:
  assumes "sg_new [demo_parent, demo_child] = Some sg"
  shows "scene_inv sg"
  using assms demo_scene_fits demo_parents_first sg_new_viewports [OF assms]
  by (simp add: scene_inv_def demo_parent_def demo_child_def vp_new_def vp_new_child_def cb_new_def u64_lim_def)

lemma demo_sg: "\<exists>sg. sg_new [demo_parent, demo_child] = Some sg"
  using sg_new_ok [OF scene_fits_ok [OF demo_scene_fits]] by blast

theorem frame_shows_top_witness:
  "\<exists>sg root' b. sg_new [demo_parent, demo_child] = Some sg \<and>
     make_charbuff (root_new 20 30 sg :: (unit, unit) Root) = Some (root', b) \<and> length (cb_cells b) = 600"
proof -
  obtain sg where sg: "sg_new [demo_parent, demo_child] = Some sg" using demo_sg by blast
  show ?thesis
    using frame_shows_top [of "root_new 20 30 sg :: (unit, unit) Root"] demo_scene_inv [OF sg] sg
    by (auto simp: root_new_def)
qed

theorem drawing_keeps_scene_witness:
  "\<exists>sg vp'. sg_new [demo_parent, demo_child] = Some sg \<and>
     scene_inv (rt_scenegraph (put_viewport (root_new 20 30 sg :: (unit, unit) Root) 2 vp')) \<and> vp' \<noteq> demo_child"
proof -
  obtain sg where sg: "sg_new [demo_parent, demo_child] = Some sg" using demo_sg by blast
  let ?root = "root_new 20 30 sg :: (unit, unit) Root"
  have tbl: "sg_viewport_table sg = make_table 0 [demo_parent, demo_child] Map.empty"
    using sg by (auto simp: sg_new_def Let_def bind_Some_iff)
  have vm: "viewport_mut ?root 2 = Some demo_child"
    using sg_new_viewports [OF sg] tbl
    by (simp add: viewport_mut_def root_new_def vec_get_def demo_parent_def demo_child_def vp_new_def vp_new_child_def)
  obtain vp' p where vp': "vp_exec (PrintAt, 7, 1, 1, demo_color, demo_color, [104]) demo_child = Some (vp', p)"
    using print_at_iter_eq [of "cb_new 3" 1 1]
    by (simp add: vp_exec_def vp_print_to_def print_at_def demo_child_def vp_new_child_def cb_new_def u64_lim_def)
  then have "vp_element_coords vp' \<noteq> vp_element_coords demo_child"
    using vp_exec_buff(2) [OF vp'] by (auto simp: demo_child_def vp_new_child_def fun_eq_iff)
  then have "vp' \<noteq> demo_child" by auto
  then show ?thesis
    using drawing_keeps_scene [OF _ vm vp'] demo_scene_inv [OF sg] sg by (auto simp: root_new_def)
qed

text \<open>A form table for the witness: every form is a button whose identifier is the form.\<close>

definition demo_forms :: "(u128, unit) WrbForm" where
  "demo_forms = \<lparr>fm_type_id = (\<lambda>_. FButton), fm_element_id = (\<lambda>f. f), fm_viewport_id = (\<lambda>_. 1),
     fm_focus = (\<lambda>f r _. Ok (f, r)), fm_render = (\<lambda>f r c. Ok (f, r, c)),
     fm_handle_event = (\<lambda>f r _. Ok (f, r, None))\<rparr>"

theorem focus_cycle_witness:
  "\<exists>root :: (u128, unit) Root. \<exists>buff.
     rt_focus_order (make_focus_order demo_forms root buff) 5 = Some 6 \<and>
     rt_reverse_focus_order (make_focus_order demo_forms root buff) 6 = Some 5"
proof -
  let ?sg = "\<lparr>sg_viewports = [], sg_viewport_table = Map.empty, sg_tree = Map.empty, sg_hierarchy = [], sg_coord_offsets = Map.empty\<rparr>"
  let ?root = "(root_new 1 2 ?sg)\<lparr>rt_forms := (\<lambda>i. Some i)\<rparr> :: (u128, unit) Root"
  let ?buff = "\<lparr>cb_num_cols = 2, cb_cells = [Fill 97 demo_color demo_color 5, Fill 98 demo_color demo_color 6]\<rparr>"
  have ids: "[5, 6] = focus_elements demo_forms (rt_forms ?root) (cb_cells ?buff) None"
    by (simp add: demo_forms_def)
  show ?thesis
    using focus_cycle [OF ids, of 0 "make_focus_order demo_forms ?root ?buff"] by auto
qed

end
