(* ===== verification/Simple_Forms.thy ===== *)
theory Simple_Forms
  imports Root
begin

text \<open>
  The forms without a text buffer: static text (\<open>src/ui/forms/raw_text.rs\<close>), flowing text
  (\<open>print_text.rs\<close>), buttons (\<open>button.rs\<close>) and checkboxes (\<open>checkbox.rs\<close>). Each has its record,
  its reader from a Clarity value, and the methods of the trait. The large strings a page has
  stored are a map from handles to texts. Error messages are kept without the values that the
  sources print into them.
\<close>

unbundle bit_operations_syntax

section \<open>Shared readers\<close>

text \<open>A colour entry, truncated to 32 bits, and its conversion.\<close>

definition get_color_u128 :: "'v clarity \<Rightarrow> (string \<Rightarrow> 'v option) \<Rightarrow> string \<Rightarrow> (UiError, u128) outcome" where
  "get_color_u128 V t name = obind (get_u128 V t name) (\<lambda>x. Ok (x AND 0xffffffff))"

definition to_color :: "u128 \<Rightarrow> (UiError, Color) outcome" where
  "to_color x = obind (from_opt (u32_try_from x)) (\<lambda>c. from_opt (color_from_u32 c))"

definition to_u64 :: "u128 \<Rightarrow> string \<Rightarrow> (UiError, coord) outcome" where
  "to_u64 x msg = ok_or (u64_try_from x) (Codec msg)"

definition load_large_string :: "(u128 \<rightharpoonup> rchar list) \<Rightarrow> u128 \<Rightarrow> (UiError, rchar list) outcome" where
  "load_large_string large_strings handle =
     ok_or (large_strings handle) (Wrb ''Missing large UTF8 string with handle'')"

text \<open>Printing on a viewport of the root through the mutable reference.\<close>

definition on_viewport ::
  "('f, 'v) Root \<Rightarrow> u128 \<Rightarrow> (Viewport \<Rightarrow> (Viewport \<times> (coord \<times> coord)) option) \<Rightarrow>
   (UiError, ('f, 'v) Root \<times> (coord \<times> coord)) outcome" where
  "on_viewport root viewport_id pr =
     obind (ok_or (viewport_mut root viewport_id) (NoViewport viewport_id)) (\<lambda>viewport.
     obind (from_opt (pr viewport)) (\<lambda>(viewport, cursor).
     Ok (put_viewport root viewport_id viewport, cursor)))"

text \<open>Setting the cursor of the root; its sums may overflow.\<close>

definition set_cursor_if ::
  "bool \<Rightarrow> ('f, 'v) Root \<Rightarrow> u128 \<Rightarrow> coord option \<Rightarrow> coord option \<Rightarrow> (UiError, ('f, 'v) Root) outcome" where
  "set_cursor_if focused root viewport_id row col =
     (if focused
      then from_opt (do { r \<leftarrow> row; c \<leftarrow> col; set_form_cursor root viewport_id r c })
      else Ok root)"

section \<open>Static text\<close>

record RawText =
  rw_element_id :: u128
  rw_viewport_id :: u128
  rw_row :: coord
  rw_col :: coord
  rw_bg_color :: Color
  rw_fg_color :: Color
  rw_text :: "rchar list"

definition raw_from_clarity_value ::
  "'v clarity \<Rightarrow> (u128 \<rightharpoonup> rchar list) \<Rightarrow> u128 \<Rightarrow> 'v \<Rightarrow> (UiError, RawText) outcome" where
  "raw_from_clarity_value V large_strings viewport_id v =
     obind (expect_tuple V v) (\<lambda>t.
     obind (get_u128 V t ''text-handle'') (\<lambda>text_handle.
     obind (load_large_string large_strings text_handle) (\<lambda>text.
     obind (get_u128 V t ''row'') (\<lambda>row.
     obind (get_u128 V t ''col'') (\<lambda>col.
     obind (get_color_u128 V t ''bg-color'') (\<lambda>bg.
     obind (get_color_u128 V t ''fg-color'') (\<lambda>fg.
     obind (get_u128 V t ''element-id'') (\<lambda>element_id.
     obind (to_color bg) (\<lambda>bg.
     obind (to_color fg) (\<lambda>fg.
     obind (to_u64 row ''row too big'') (\<lambda>row.
     obind (to_u64 col ''col too big'') (\<lambda>col.
     Ok \<lparr>rw_element_id = element_id, rw_viewport_id = viewport_id, rw_row = row, rw_col = col,
         rw_bg_color = bg, rw_fg_color = fg, rw_text = text\<rparr>))))))))))))"

definition raw_render ::
  "RawText \<Rightarrow> ('f, 'v) Root \<Rightarrow> coord \<times> coord \<Rightarrow> (UiError, ('f, 'v) Root \<times> (coord \<times> coord)) outcome" where
  "raw_render s root cursor =
     on_viewport root (rw_viewport_id s)
       (\<lambda>vp. vp_print_to vp (rw_element_id s) (rw_row s) (rw_col s) (rw_bg_color s) (rw_fg_color s) (rw_text s))"

section \<open>Flowing text\<close>

record PrintText =
  pt_element_id :: u128
  pt_viewport_id :: u128
  pt_cursor :: "(coord \<times> coord) option"
  pt_bg_color :: Color
  pt_fg_color :: Color
  pt_text :: "rchar list"
  pt_newline :: bool

definition get_cursor :: "'v clarity \<Rightarrow> (string \<Rightarrow> 'v option) \<Rightarrow> (UiError, (coord \<times> coord) option) outcome" where
  "get_cursor V t =
     obind (get_optional V t ''cursor'') (\<lambda>opt.
     (case opt of
        None \<Rightarrow> Ok None
      | Some cursor_value \<Rightarrow>
          obind (expect_tuple V cursor_value) (\<lambda>ct.
          obind (get_u128 V ct ''row'') (\<lambda>row.
          obind (get_u128 V ct ''col'') (\<lambda>col.
          obind (to_u64 row ''row too big'') (\<lambda>row.
          obind (to_u64 col ''col too big'') (\<lambda>col.
          Ok (Some (row, col)))))))))"

definition print_from_clarity_value ::
  "'v clarity \<Rightarrow> (u128 \<rightharpoonup> rchar list) \<Rightarrow> u128 \<Rightarrow> 'v \<Rightarrow> (UiError, PrintText) outcome" where
  "print_from_clarity_value V large_strings viewport_id v =
     obind (expect_tuple V v) (\<lambda>t.
     obind (get_u128 V t ''text-handle'') (\<lambda>text_handle.
     obind (load_large_string large_strings text_handle) (\<lambda>text.
     obind (get_cursor V t) (\<lambda>cursor.
     obind (get_color_u128 V t ''bg-color'') (\<lambda>bg.
     obind (get_color_u128 V t ''fg-color'') (\<lambda>fg.
     obind (get_u128 V t ''element-id'') (\<lambda>element_id.
     obind (get_bool V t ''newline'') (\<lambda>nl.
     obind (to_color bg) (\<lambda>bg.
     obind (to_color fg) (\<lambda>fg.
     Ok \<lparr>pt_element_id = element_id, pt_viewport_id = viewport_id, pt_cursor = cursor,
         pt_bg_color = bg, pt_fg_color = fg, pt_text = text, pt_newline = nl\<rparr>))))))))))"

definition print_render ::
  "PrintText \<Rightarrow> ('f, 'v) Root \<Rightarrow> coord \<times> coord \<Rightarrow> (UiError, ('f, 'v) Root \<times> (coord \<times> coord)) outcome" where
  "print_render s root cursor =
     on_viewport root (pt_viewport_id s)
       (\<lambda>vp. let (r, c) = (case pt_cursor s of Some rc \<Rightarrow> rc | None \<Rightarrow> cursor) in
             if pt_newline s
             then vp_println vp (pt_element_id s) r c (pt_bg_color s) (pt_fg_color s) (pt_text s)
             else vp_print vp (pt_element_id s) r c (pt_bg_color s) (pt_fg_color s) (pt_text s))"

section \<open>Buttons\<close>

record Button =
  bt_element_id :: u128
  bt_viewport_id :: u128
  bt_row :: coord
  bt_col :: coord
  bt_bg_color :: Color
  bt_fg_color :: Color
  bt_focused_bg_color :: Color
  bt_focused_fg_color :: Color
  bt_text :: "rchar list"

definition button_focus :: "Button \<Rightarrow> ('f, 'v) Root \<Rightarrow> bool \<Rightarrow> (UiError, ('f, 'v) Root) outcome" where
  "button_focus s root focused =
     set_cursor_if focused root (bt_viewport_id s) (Some (bt_row s)) (add64 (bt_col s) 1)"

definition button_from_clarity_value :: "'v clarity \<Rightarrow> u128 \<Rightarrow> 'v \<Rightarrow> (UiError, Button) outcome" where
  "button_from_clarity_value V viewport_id v =
     obind (expect_tuple V v) (\<lambda>t.
     obind (get_utf8 V t ''text'') (\<lambda>text.
     obind (get_u128 V t ''row'') (\<lambda>row. obind (to_u64 row ''row is too big'') (\<lambda>row.
     obind (get_u128 V t ''col'') (\<lambda>col. obind (to_u64 col ''col is too big'') (\<lambda>col.
     obind (get_color_u128 V t ''bg-color'') (\<lambda>bg.
     obind (get_color_u128 V t ''fg-color'') (\<lambda>fg.
     obind (get_color_u128 V t ''focused-bg-color'') (\<lambda>fbg.
     obind (get_color_u128 V t ''focused-fg-color'') (\<lambda>ffg.
     obind (get_u128 V t ''element-id'') (\<lambda>element_id.
     obind (to_color bg) (\<lambda>bg.
     obind (to_color fg) (\<lambda>fg.
     obind (to_color fbg) (\<lambda>fbg.
     obind (to_color ffg) (\<lambda>ffg.
     Ok \<lparr>bt_element_id = element_id, bt_viewport_id = viewport_id, bt_row = row, bt_col = col,
         bt_bg_color = bg, bt_fg_color = fg, bt_focused_bg_color = fbg, bt_focused_fg_color = ffg,
         bt_text = text\<rparr>)))))))))))))))"

definition button_render ::
  "Button \<Rightarrow> ('f, 'v) Root \<Rightarrow> coord \<times> coord \<Rightarrow> (UiError, ('f, 'v) Root \<times> (coord \<times> coord)) outcome" where
  "button_render s root cursor =
     (let focused = is_focused root (bt_element_id s) in
      obind (on_viewport root (bt_viewport_id s)
        (\<lambda>vp. if focused
              then vp_print_to vp (bt_element_id s) (bt_row s) (bt_col s) (bt_focused_bg_color s)
                     (bt_focused_fg_color s) ([60] @ bt_text s @ [62])
              else vp_print_to vp (bt_element_id s) (bt_row s) (bt_col s) (bt_bg_color s)
                     (bt_fg_color s) ([91] @ bt_text s @ [93]))) (\<lambda>(root, new_cursor).
      obind (set_cursor_if focused root (bt_viewport_id s) (Some (bt_row s)) (add64 (bt_col s) 1)) (\<lambda>root.
      Ok (root, new_cursor))))"

definition button_handle_event ::
  "'v clarity \<Rightarrow> Button \<Rightarrow> ('f, 'v) Root \<Rightarrow> WrbFormEvent \<Rightarrow> (UiError, ('f, 'v) Root \<times> 'v option) outcome" where
  "button_handle_event V s root event =
     obind (button_focus s root (is_focused root (bt_element_id s))) (\<lambda>root.
     (case event of Keypress keycode \<Rightarrow>
        if keycode \<noteq> keycode_enter then Ok (root, None)
        else Ok (root, Some (cl_bool V True))))"

section \<open>Checkboxes\<close>

record CheckboxOption =
  co_text :: "rchar list"
  co_selected :: bool

definition option_from_clarity_value :: "'v clarity \<Rightarrow> 'v \<Rightarrow> (UiError, CheckboxOption) outcome" where
  "option_from_clarity_value V value =
     obind (expect_tuple V value) (\<lambda>t.
     obind (get_utf8 V t ''text'') (\<lambda>text.
     obind (get_bool V t ''selected'') (\<lambda>selected.
     Ok \<lparr>co_text = text, co_selected = selected\<rparr>)))"

definition to_panic :: "('e, 'a) outcome \<Rightarrow> ('f, 'a) outcome" where
  "to_panic m = (case m of Ok x \<Rightarrow> Ok x | _ \<Rightarrow> Panic)"

definition option_to_clarity_value :: "'v clarity \<Rightarrow> CheckboxOption \<Rightarrow> (UiError, 'v) outcome" where
  "option_to_clarity_value V s =
     obind (to_panic (cl_string_utf8 V (co_text s))) (\<lambda>text.
     to_panic (cl_tuple V [(''text'', text), (''selected'', cl_bool V (co_selected s))]))"

text \<open>\<open>format!("[{}] {}", ..)\<close>.\<close>

definition option_to_string :: "CheckboxOption \<Rightarrow> rchar list" where
  "option_to_string s = [91] @ (if co_selected s then [42] else [32]) @ [93, 32] @ co_text s"

record Checkbox =
  ck_element_id :: u128
  ck_viewport_id :: u128
  ck_row :: coord
  ck_col :: coord
  ck_bg_color :: Color
  ck_fg_color :: Color
  ck_focused_bg_color :: Color
  ck_focused_fg_color :: Color
  ck_selector_color :: Color
  ck_options :: "CheckboxOption list"
  ck_selector :: usize

definition CHECKBOX_MAX_LEN :: nat where
  "CHECKBOX_MAX_LEN = 256"

definition checkbox_focus :: "Checkbox \<Rightarrow> ('f, 'v) Root \<Rightarrow> bool \<Rightarrow> (UiError, ('f, 'v) Root) outcome" where
  "checkbox_focus s root focused =
     set_cursor_if focused root (ck_viewport_id s) (add64 (ck_row s) (ck_selector s)) (add64 (ck_col s) 1)"

fun map_outcome :: "('a \<Rightarrow> ('e, 'b) outcome) \<Rightarrow> 'a list \<Rightarrow> ('e, 'b list) outcome" where
  "map_outcome f [] = Ok []"
| "map_outcome f (x # xs) = obind (f x) (\<lambda>y. obind (map_outcome f xs) (\<lambda>ys. Ok (y # ys)))"

definition checkbox_from_clarity_value :: "'v clarity \<Rightarrow> u128 \<Rightarrow> 'v \<Rightarrow> (UiError, Checkbox) outcome" where
  "checkbox_from_clarity_value V viewport_id v =
     obind (expect_tuple V v) (\<lambda>t.
     obind (get_u128 V t ''row'') (\<lambda>row. obind (to_u64 row ''row is too big'') (\<lambda>row.
     obind (get_u128 V t ''col'') (\<lambda>col. obind (to_u64 col ''col is too big'') (\<lambda>col.
     obind (get_color_u128 V t ''bg-color'') (\<lambda>bg.
     obind (get_color_u128 V t ''fg-color'') (\<lambda>fg.
     obind (get_color_u128 V t ''focused-bg-color'') (\<lambda>fbg.
     obind (get_color_u128 V t ''focused-fg-color'') (\<lambda>ffg.
     obind (get_color_u128 V t ''selector-color'') (\<lambda>sel.
     obind (get_u128 V t ''element-id'') (\<lambda>element_id.
     obind (get_list V t ''options'') (\<lambda>text_options_list.
     if length text_options_list > CHECKBOX_MAX_LEN then Err (Page ''Too many checkbox items'') else
     obind (map_outcome (option_from_clarity_value V) text_options_list) (\<lambda>options.
     obind (to_color bg) (\<lambda>bg.
     obind (to_color fg) (\<lambda>fg.
     obind (to_color fbg) (\<lambda>fbg.
     obind (to_color ffg) (\<lambda>ffg.
     obind (to_color sel) (\<lambda>sel.
     Ok \<lparr>ck_element_id = element_id, ck_viewport_id = viewport_id, ck_row = row, ck_col = col,
         ck_bg_color = bg, ck_fg_color = fg, ck_focused_bg_color = fbg, ck_focused_fg_color = ffg,
         ck_selector_color = sel, ck_options = options, ck_selector = 0\<rparr>))))))))))))))))))"

definition checkbox_to_clarity_value :: "'v clarity \<Rightarrow> Checkbox \<Rightarrow> (UiError, 'v option) outcome" where
  "checkbox_to_clarity_value V s =
     obind (map_outcome (option_to_clarity_value V) (ck_options s)) (\<lambda>vs.
     obind (to_panic (cl_cons_list V vs)) (\<lambda>value. Ok (Some value)))"

fun checkbox_render_options ::
  "Checkbox \<Rightarrow> Color \<Rightarrow> Color \<Rightarrow> nat \<Rightarrow> CheckboxOption list \<Rightarrow> Viewport \<Rightarrow> coord \<times> coord \<Rightarrow>
   (Viewport \<times> (coord \<times> coord)) option" where
  "checkbox_render_options s bg fg i [] vp cursor = Some (vp, cursor)"
| "checkbox_render_options s bg fg i (opt # opts) vp cursor =
     do { row \<leftarrow> add64 (ck_row s) i;
          (vp, cursor) \<leftarrow> vp_print_to vp (ck_element_id s) row (ck_col s)
                           (if i = ck_selector s then ck_selector_color s else bg) fg (option_to_string opt);
          checkbox_render_options s bg fg (i + 1) opts vp cursor }"

definition checkbox_render ::
  "Checkbox \<Rightarrow> ('f, 'v) Root \<Rightarrow> coord \<times> coord \<Rightarrow> (UiError, ('f, 'v) Root \<times> (coord \<times> coord)) outcome" where
  "checkbox_render s root cursor =
     (let focused = is_focused root (ck_element_id s);
          bg = (if focused then ck_focused_bg_color s else ck_bg_color s);
          fg = (if focused then ck_focused_fg_color s else ck_fg_color s) in
      obind (on_viewport root (ck_viewport_id s)
        (\<lambda>vp. checkbox_render_options s bg fg 0 (ck_options s) vp cursor)) (\<lambda>(root, next_cursor).
      obind (set_cursor_if focused root (ck_viewport_id s) (add64 (ck_row s) (ck_selector s)) (add64 (ck_col s) 1)) (\<lambda>root.
      Ok (root, next_cursor))))"

definition checkbox_handle_event ::
  "Checkbox \<Rightarrow> ('f, 'v) Root \<Rightarrow> WrbFormEvent \<Rightarrow> (UiError, Checkbox \<times> ('f, 'v) Root \<times> 'v option) outcome" where
  "checkbox_handle_event s root event =
     obind (checkbox_focus s root (is_focused root (ck_element_id s))) (\<lambda>root.
     (case event of Keypress keycode \<Rightarrow>
        if keycode = keycode_up then
          (let s = s\<lparr>ck_selector := ck_selector s - 1\<rparr> in
           obind (checkbox_focus s root (is_focused root (ck_element_id s))) (\<lambda>root. Ok (s, root, None)))
        else if keycode = keycode_down then
          (let s = s\<lparr>ck_selector := min (ck_selector s + 1) (length (ck_options s) - 1)\<rparr> in
           obind (checkbox_focus s root (is_focused root (ck_element_id s))) (\<lambda>root. Ok (s, root, None)))
        else if keycode = keycode_enter \<or> keycode = keycode_space then
          obind (from_opt (idx (ck_options s) (ck_selector s))) (\<lambda>opt.
          obind (from_opt (store (ck_options s) (ck_selector s) (opt\<lparr>co_selected := \<not> co_selected opt\<rparr>))) (\<lambda>options.
          Ok (s\<lparr>ck_options := options\<rparr>, root, None)))
        else Ok (s, root, None)))"

end
