(* ===== verification/Text_Editing.thy ===== *)
theory Text_Editing
  imports Prelude
begin

text \<open>
  The contract of an editable text with a cursor, which the gap buffer of the text area and
  the text line both provide: the text is a pair of lists around the cursor, and typing,
  backspacing and moving act on that pair. The contract is a locale; its client lemma lifts
  the laws of the single operations to sequences of edits.
\<close>

section \<open>The abstract editor\<close>

datatype edit = Ins rchar | Bsp | Lft | Rgt

fun edit_spec :: "edit \<Rightarrow> rchar list \<times> rchar list \<Rightarrow> rchar list \<times> rchar list" where
  "edit_spec (Ins c) (xs, ys) = (xs @ [c], ys)"
| "edit_spec Bsp (xs, ys) = (butlast xs, ys)"
| "edit_spec Lft (xs, ys) = (if xs = [] then ([], ys) else (butlast xs, last xs # ys))"
| "edit_spec Rgt (xs, ys) = (case ys of [] \<Rightarrow> (xs, []) | y # ys' \<Rightarrow> (xs @ [y], ys'))"

fun insertions :: "edit list \<Rightarrow> nat" where
  "insertions [] = 0"
| "insertions (Ins c # es) = Suc (insertions es)"
| "insertions (e # es) = insertions es"

fun typed :: "edit list \<Rightarrow> rchar list" where
  "typed [] = []"
| "typed (Ins c # es) = c # typed es"
| "typed (e # es) = typed es"

definition edits_spec :: "edit list \<Rightarrow> rchar list \<times> rchar list \<Rightarrow> rchar list \<times> rchar list" where
  "edits_spec es z = fold edit_spec es z"

lemma edits_spec_simps [simp]:
  "edits_spec [] z = z"
  "edits_spec (e # es) z = edits_spec es (edit_spec e z)"
  by (simp_all add: edits_spec_def)

text \<open>Running a sequence of edits on an implementation, stopping at a panic.\<close>

fun run_edits ::
  "('s \<Rightarrow> rchar \<Rightarrow> 's option) \<Rightarrow> ('s \<Rightarrow> 's option) \<Rightarrow> ('s \<Rightarrow> 's option) \<Rightarrow> ('s \<Rightarrow> 's option) \<Rightarrow>
   edit list \<Rightarrow> 's \<Rightarrow> 's option" where
  "run_edits ins bsp lft rgt [] s = Some s"
| "run_edits ins bsp lft rgt (e # es) s =
     (case e of Ins c \<Rightarrow> ins s c | Bsp \<Rightarrow> bsp s | Lft \<Rightarrow> lft s | Rgt \<Rightarrow> rgt s)
       \<bind> run_edits ins bsp lft rgt es"

text \<open>Typing a word puts it before the cursor; moving never changes the text.\<close>

lemma edits_spec_type: "edits_spec (map Ins w) (xs, ys) = (xs @ w, ys)"
  by (induction w arbitrary: xs) auto

lemma edit_spec_text:
  "e \<in> {Lft, Rgt} \<Longrightarrow> edit_spec e (xs, ys) = (xs', ys') \<Longrightarrow> xs' @ ys' = xs @ ys"
  by (auto split: if_splits list.splits)

section \<open>The contract\<close>

locale cursor_text =
  fixes inv :: "'s \<Rightarrow> bool"
    and halves :: "'s \<Rightarrow> rchar list \<times> rchar list"
    and room :: "'s \<Rightarrow> nat"
    and okc :: "rchar \<Rightarrow> bool"
    and ins :: "'s \<Rightarrow> rchar \<Rightarrow> 's option"
    and bsp :: "'s \<Rightarrow> 's option"
    and lft :: "'s \<Rightarrow> 's option"
    and rgt :: "'s \<Rightarrow> 's option"
  assumes ins_law: "inv s \<Longrightarrow> 0 < room s \<Longrightarrow> okc c \<Longrightarrow>
      \<exists>s'. ins s c = Some s' \<and> inv s' \<and> halves s' = edit_spec (Ins c) (halves s) \<and>
           room s \<le> Suc (room s')"
    and bsp_law: "inv s \<Longrightarrow> 0 < room s \<Longrightarrow>
      \<exists>s'. bsp s = Some s' \<and> inv s' \<and> halves s' = edit_spec Bsp (halves s) \<and> room s \<le> room s'"
    and lft_law: "inv s \<Longrightarrow>
      \<exists>s'. lft s = Some s' \<and> inv s' \<and> halves s' = edit_spec Lft (halves s) \<and> room s \<le> room s'"
    and rgt_law: "inv s \<Longrightarrow>
      \<exists>s'. rgt s = Some s' \<and> inv s' \<and> halves s' = edit_spec Rgt (halves s) \<and> room s \<le> room s'"
begin

lemma run_edits_refines:
  assumes "inv s" and "insertions es < room s" and "\<forall>c \<in> set (typed es). okc c"
  shows "\<exists>s'. run_edits ins bsp lft rgt es s = Some s' \<and> inv s' \<and>
           halves s' = edits_spec es (halves s)"
  using assms
proof (induction es arbitrary: s)
  case Nil
  then show ?case by simp
next
  case (Cons e es)
  have pos: "0 < room s" using Cons.prems(2) by simp
  obtain s1 where s1: "(case e of Ins c \<Rightarrow> ins s c | Bsp \<Rightarrow> bsp s | Lft \<Rightarrow> lft s | Rgt \<Rightarrow> rgt s) = Some s1"
    and inv1: "inv s1" and h1: "halves s1 = edit_spec e (halves s)"
    and room1: "insertions es < room s1" and ok: "\<forall>c \<in> set (typed es). okc c"
  proof (cases e)
    case (Ins c)
    then show ?thesis
      using ins_law [OF Cons.prems(1) pos, of c] Cons.prems(2,3) that by fastforce
  next
    case Bsp
    then show ?thesis
      using bsp_law [OF Cons.prems(1) pos] Cons.prems(2,3) that by fastforce
  next
    case Lft
    then show ?thesis
      using lft_law [OF Cons.prems(1)] Cons.prems(2,3) that by fastforce
  next
    case Rgt
    then show ?thesis
      using rgt_law [OF Cons.prems(1)] Cons.prems(2,3) that by fastforce
  qed
  then show ?case
    using Cons.IH [OF inv1 room1 ok] by simp
qed

lemma type_word:
  assumes "inv s" and "length w < room s" and "\<forall>c \<in> set w. okc c" and "halves s = (xs, ys)"
  shows "\<exists>s'. run_edits ins bsp lft rgt (map Ins w) s = Some s' \<and> inv s' \<and>
           halves s' = (xs @ w, ys)"
proof -
  have "insertions (map Ins w) = length w" and "typed (map Ins w) = w"
    by (induction w) auto
  then show ?thesis
    using run_edits_refines [of s "map Ins w"] assms by (simp add: edits_spec_type)
qed

end

end
