(* ===== verification/Gap_Buffer.thy ===== *)
theory Gap_Buffer
  imports Text_Editing
begin

text \<open>
  The gap buffer of \<open>src/ui/forms/textarea.rs\<close>: the text of a text area as one vector
  with a run of zeroes (the gap) at the cursor. The theory translates every operation of
  \<open>GapBuffer\<close> with its index panics, states the representation invariant and the two
  halves of the text around the cursor, and shows that the operations refine editing that
  pair of lists.
\<close>

section \<open>State\<close>

record GapBuffer =
  gb_buffer :: "u32 list"
  gb_cursor :: usize
  gb_gap :: usize
  gb_gap_size :: usize
  gb_lineno :: usize
  gb_line_start :: usize
  gb_debug :: bool

definition GAP_SIZE :: usize where
  "GAP_SIZE = 65536"

definition TAB_LEN :: usize where
  "TAB_LEN = 3"

section \<open>Reading\<close>

fun count_lines :: "rchar list \<Rightarrow> nat" where
  "count_lines [] = 0"
| "count_lines (c # cs) = (if c = newline then 1 else 0) + count_lines cs"

definition gb_set_debug :: "GapBuffer \<Rightarrow> bool \<Rightarrow> GapBuffer" where
  "gb_set_debug g dbg = g\<lparr>gb_debug := dbg\<rparr>"

text \<open>The character to the right of the gap; \<open>None\<close> is the end of the text, not a panic.\<close>

definition gb_chr :: "GapBuffer \<Rightarrow> rchar option" where
  "gb_chr g = map_option
     (\<lambda>x. case char_from_u32 x of None \<Rightarrow> REPLACEMENT_CHARACTER | Some c \<Rightarrow> c)
     (vec_get (gb_buffer g) (gb_cursor g + gb_gap g))"

definition gb_get :: "GapBuffer \<Rightarrow> usize \<Rightarrow> rchar option" where
  "gb_get g i =
     (if i < gb_cursor g then Option.bind (vec_get (gb_buffer g) i) char_from_u32
      else Option.bind (vec_get (gb_buffer g) (i + gb_gap g)) char_from_u32)"

definition gb_len :: "GapBuffer \<Rightarrow> usize" where
  "gb_len g = length (gb_buffer g) - gb_gap g"

definition gb_to_string :: "GapBuffer \<Rightarrow> rchar list" where
  "gb_to_string g = List.map_filter (gb_get g) [0..<gb_len g]"

text \<open>The loop of \<open>find_line_start\<close>: walk back to a newline or to index 0.\<close>

fun back_to_newline :: "u32 list \<Rightarrow> nat \<Rightarrow> nat option" where
  "back_to_newline b 0 = Some 0"
| "back_to_newline b (Suc i) =
     do { x \<leftarrow> idx b (Suc i);
          if x \<noteq> newline then back_to_newline b i else Some (Suc i) }"

definition find_line_start :: "GapBuffer \<Rightarrow> usize option" where
  "find_line_start g =
     do { let eof = (gb_chr g = None);
          let i = gb_cursor g - 1;
          x \<leftarrow> idx (gb_buffer g) i;
          if x = newline \<and> eof then Some (gb_cursor g)
          else do {
            i \<leftarrow> back_to_newline (gb_buffer g) i;
            if gb_cursor g > 0 \<and> i + 1 + gb_gap g < length (gb_buffer g)
            then do {
              y \<leftarrow> idx (gb_buffer g) i;
              Some (if y = newline then i + 1 else i) }
            else Some i } }"

text \<open>The loop of \<open>find_next_line_start_at\<close>, over the raw buffer.\<close>

function forward_to_newline :: "GapBuffer \<Rightarrow> nat \<Rightarrow> nat" where
  "forward_to_newline g i =
     (if i + gb_gap g < length (gb_buffer g) \<and> gb_buffer g ! i \<noteq> newline
      then forward_to_newline g (Suc i) else i)"
  by pat_completeness auto
termination
  by (relation "measure (\<lambda>(g, i). length (gb_buffer g) - i)") auto

declare forward_to_newline.simps [simp del]

definition find_next_line_start_at :: "GapBuffer \<Rightarrow> usize \<Rightarrow> usize option" where
  "find_next_line_start_at g start_idx =
     (if start_idx + gb_gap g = length (gb_buffer g) then Some start_idx
      else do {
        let i = forward_to_newline g start_idx;
        x \<leftarrow> idx (gb_buffer g) i;
        Some (if x = newline then i + 1 else i) })"

fun find_next_lines_start_at :: "GapBuffer \<Rightarrow> usize \<Rightarrow> nat \<Rightarrow> usize option" where
  "find_next_lines_start_at g i 0 = Some i"
| "find_next_lines_start_at g i (Suc n) =
     do { j \<leftarrow> find_next_line_start_at g i; find_next_lines_start_at g j n }"

section \<open>Construction\<close>

fun write_chars :: "u32 list \<Rightarrow> nat \<Rightarrow> rchar list \<Rightarrow> u32 list option" where
  "write_chars b i [] = Some b"
| "write_chars b i (c # cs) = do { b' \<leftarrow> store b i c; write_chars b' (Suc i) cs }"

definition gb_new :: "rchar list \<Rightarrow> usize \<Rightarrow> GapBuffer option" where
  "gb_new start_text gap_size =
     do { buffer \<leftarrow> write_chars (replicate (str_len start_text + gap_size) 0) 0 start_text;
          let g = \<lparr>gb_buffer = buffer, gb_cursor = str_len start_text, gb_gap = gap_size,
                   gb_gap_size = gap_size, gb_lineno = count_lines start_text,
                   gb_line_start = 0, gb_debug = False\<rparr>;
          ls \<leftarrow> find_line_start g;
          Some (g\<lparr>gb_line_start := ls\<rparr>) }"

definition gb_set_text :: "GapBuffer \<Rightarrow> rchar list \<Rightarrow> GapBuffer option" where
  "gb_set_text g text =
     do { buffer \<leftarrow> write_chars (replicate (str_len text + gb_gap_size g) 0) 0 text;
          let g = g\<lparr>gb_cursor := length buffer, gb_buffer := buffer,
                     gb_gap := gb_gap_size g, gb_lineno := count_lines text\<rparr>;
          ls \<leftarrow> find_line_start g;
          Some (g\<lparr>gb_line_start := ls\<rparr>) }"

section \<open>Editing\<close>

text \<open>
  The loop of \<open>realloc\<close>: \<open>n\<close> is the number of iterations left, \<open>i\<close> the loop variable.
\<close>

fun realloc_shift :: "nat \<Rightarrow> nat \<Rightarrow> usize \<Rightarrow> usize \<Rightarrow> u32 list \<Rightarrow> u32 list option" where
  "realloc_shift 0 i cursor gap_start b = Some b"
| "realloc_shift (Suc n) i cursor gap_start b =
     (if cursor + i \<ge> gap_start then Some b
      else do {
        ch \<leftarrow> idx b (cursor + i);
        b \<leftarrow> store b (gap_start + cursor + i) ch;
        b \<leftarrow> store b (cursor + i) 0;
        realloc_shift n (Suc i) cursor gap_start b })"

definition gb_realloc :: "GapBuffer \<Rightarrow> GapBuffer option" where
  "gb_realloc g =
     do { let gap_start = length (gb_buffer g);
          b \<leftarrow> realloc_shift (gb_gap_size g) 0 (gb_cursor g) gap_start
                 (gb_buffer g @ replicate (gb_gap_size g) 0);
          Some (g\<lparr>gb_buffer := b, gb_gap := gb_gap_size g\<rparr>) }"

definition gb_insert :: "GapBuffer \<Rightarrow> rchar \<Rightarrow> GapBuffer option" where
  "gb_insert g ch =
     do { g \<leftarrow> (if gb_gap g = 0 then gb_realloc g else Some g);
          x \<leftarrow> idx (gb_buffer g) (gb_cursor g);
          if x \<noteq> 0 then None else do {
            b \<leftarrow> store (gb_buffer g) (gb_cursor g) ch;
            gap \<leftarrow> sub64 (gb_gap g) 1;
            let g = g\<lparr>gb_buffer := b, gb_cursor := gb_cursor g + 1, gb_gap := gap\<rparr>;
            if ch = newline then do {
              let g = g\<lparr>gb_lineno := gb_lineno g + 1\<rparr>;
              ls \<leftarrow> find_line_start g;
              Some (g\<lparr>gb_line_start := ls\<rparr>) }
            else Some g } }"

definition gb_backspace :: "GapBuffer \<Rightarrow> GapBuffer option" where
  "gb_backspace g =
     (if gb_cursor g = 0 then Some g
      else do {
        chr \<leftarrow> idx (gb_buffer g) (gb_cursor g);
        b \<leftarrow> store (gb_buffer g) (gb_cursor g - 1) 0;
        let g = g\<lparr>gb_cursor := gb_cursor g - 1, gb_buffer := b, gb_gap := gb_gap g + 1\<rparr>;
        if chr = newline then do {
          let g = g\<lparr>gb_lineno := gb_lineno g - 1\<rparr>;
          ls \<leftarrow> find_line_start g;
          Some (g\<lparr>gb_line_start := ls\<rparr>) }
        else Some g })"

definition gb_left :: "GapBuffer \<Rightarrow> (bool \<times> GapBuffer) option" where
  "gb_left g =
     (if gb_cursor g = 0 then Some (False, g)
      else do {
        let c = gb_cursor g - 1;
        ch \<leftarrow> idx (gb_buffer g) c;
        b \<leftarrow> store (gb_buffer g) c 0;
        b \<leftarrow> store b (c + gb_gap g) ch;
        let g = g\<lparr>gb_cursor := c, gb_buffer := b\<rparr>;
        if ch = newline then do {
          let g = g\<lparr>gb_lineno := gb_lineno g + 1\<rparr>;
          ls \<leftarrow> find_line_start g;
          Some (True, g\<lparr>gb_line_start := ls\<rparr>) }
        else Some (True, g) })"

definition gb_right :: "GapBuffer \<Rightarrow> (bool \<times> GapBuffer) option" where
  "gb_right g =
     (if gb_cursor g + gb_gap g = length (gb_buffer g) then Some (False, g)
      else do {
        ch \<leftarrow> idx (gb_buffer g) (gb_cursor g + gb_gap g);
        b \<leftarrow> store (gb_buffer g) (gb_cursor g + gb_gap g) 0;
        b \<leftarrow> store b (gb_cursor g) ch;
        let g = g\<lparr>gb_buffer := b, gb_cursor := gb_cursor g + 1\<rparr>;
        if ch = newline then do {
          let g = g\<lparr>gb_lineno := gb_lineno g - 1\<rparr>;
          ls \<leftarrow> find_line_start g;
          Some (True, g\<lparr>gb_line_start := ls\<rparr>) }
        else Some (True, g) })"

definition gb_delete :: "GapBuffer \<Rightarrow> GapBuffer option" where
  "gb_delete g = do { (_, g) \<leftarrow> gb_right g; gb_backspace g }"

definition gb_replace :: "GapBuffer \<Rightarrow> rchar \<Rightarrow> GapBuffer option" where
  "gb_replace g ch =
     do { g \<leftarrow> gb_delete g; g \<leftarrow> gb_insert g ch; (_, g) \<leftarrow> gb_left g; Some g }"

definition gb_overwrite :: "GapBuffer \<Rightarrow> rchar \<Rightarrow> GapBuffer option" where
  "gb_overwrite g ch =
     (if gb_cursor g + gb_gap g = length (gb_buffer g) then gb_insert g ch
      else do { g \<leftarrow> gb_replace g ch; (_, g) \<leftarrow> gb_right g; Some g })"

section \<open>Moving by words and lines\<close>

text \<open>
  The loops \<open>while p(self.chr()) { if !self.left() { break; } }\<close> and their mirror image
  with \<open>right\<close>; every iteration moves the cursor, so they end.
\<close>

lemma gb_left_cursor: "gb_left g = Some (True, g') \<Longrightarrow> gb_cursor g' < gb_cursor g"
  by (auto simp: gb_left_def bind_Some_iff Let_def split: if_splits)

lemma gb_right_cursor:
  "gb_right g = Some (True, g') \<Longrightarrow>
     gb_cursor g < length (gb_buffer g) \<and> gb_cursor g' = Suc (gb_cursor g) \<and>
     length (gb_buffer g') = length (gb_buffer g)"
  by (auto simp: gb_right_def bind_Some_iff Let_def idx_Some_iff store_Some_iff split: if_splits)

function left_while :: "(rchar option \<Rightarrow> bool) \<Rightarrow> GapBuffer \<Rightarrow> GapBuffer option" where
  "left_while p g =
     (if p (gb_chr g)
      then (case gb_left g of
              None \<Rightarrow> None
            | Some (moved, g') \<Rightarrow> if moved then left_while p g' else Some g')
      else Some g)"
  by pat_completeness auto
termination
  by (relation "measure (\<lambda>(p, g). gb_cursor g)") (auto simp: gb_left_cursor)

function right_while :: "(rchar option \<Rightarrow> bool) \<Rightarrow> GapBuffer \<Rightarrow> GapBuffer option" where
  "right_while p g =
     (if p (gb_chr g)
      then (case gb_right g of
              None \<Rightarrow> None
            | Some (moved, g') \<Rightarrow> if moved then right_while p g' else Some g')
      else Some g)"
  by pat_completeness auto
termination
  by (relation "measure (\<lambda>(p, g). length (gb_buffer g) - gb_cursor g)")
     (auto dest!: gb_right_cursor)

declare left_while.simps [simp del] right_while.simps [simp del]

text \<open>\<open>map(f).unwrap_or(true)\<close>, the shape of every loop guard below.\<close>

definition chr_or_true :: "(rchar \<Rightarrow> bool) \<Rightarrow> rchar option \<Rightarrow> bool" where
  "chr_or_true f c = (case c of None \<Rightarrow> True | Some x \<Rightarrow> f x)"

definition left_word :: "GapBuffer \<Rightarrow> (bool \<times> GapBuffer) option" where
  "left_word g =
     do { let old_cursor = gb_cursor g;
          g \<leftarrow> left_while (chr_or_true is_whitespace) g;
          g \<leftarrow> left_while (\<lambda>c. \<not> chr_or_true is_whitespace c) g;
          (_, g) \<leftarrow> gb_right g;
          Some (gb_cursor g = old_cursor, g) }"

definition right_word :: "GapBuffer \<Rightarrow> (bool \<times> GapBuffer) option" where
  "right_word g =
     do { let old_cursor = gb_cursor g;
          g \<leftarrow> right_while (chr_or_true is_whitespace) g;
          Some (gb_cursor g = old_cursor, g) }"

definition line_start :: "GapBuffer \<Rightarrow> (bool \<times> GapBuffer) option" where
  "line_start g =
     do { let old_cursor = gb_cursor g;
          (moved, g) \<leftarrow> (if gb_chr g = None then gb_left g else Some (True, g));
          if \<not> moved then Some (False, g) else do {
            (moved, g) \<leftarrow> (if chr_or_true (\<lambda>c. c = newline) (gb_chr g) then gb_left g
                           else Some (True, g));
            if \<not> moved then Some (False, g) else do {
              g \<leftarrow> left_while (chr_or_true (\<lambda>c. c \<noteq> newline)) g;
              (moved, g) \<leftarrow> (if chr_or_true (\<lambda>c. c = newline) (gb_chr g) then gb_right g
                             else Some (True, g));
              if \<not> moved then Some (False, g)
              else Some (gb_cursor g = old_cursor, g) } } }"

definition line_end :: "GapBuffer \<Rightarrow> (bool \<times> GapBuffer) option" where
  "line_end g =
     do { let old_cursor = gb_cursor g;
          g \<leftarrow> right_while (chr_or_true (\<lambda>c. c \<noteq> newline)) g;
          Some (gb_cursor g = old_cursor, g) }"

text \<open>The loop of \<open>up\<close> and \<open>down\<close> that walks to the wanted column.\<close>

fun walk_to_col :: "nat \<Rightarrow> GapBuffer \<Rightarrow> GapBuffer option" where
  "walk_to_col 0 g = Some g"
| "walk_to_col (Suc n) g =
     (if chr_or_true (\<lambda>c. c = newline) (gb_chr g) then Some g
      else do { (_, g) \<leftarrow> gb_right g; walk_to_col n g })"

definition gb_up :: "GapBuffer \<Rightarrow> usize \<Rightarrow> GapBuffer option" where
  "gb_up g col =
     (if gb_line_start g = 0 then Some g
      else do {
        (_, g) \<leftarrow> line_start g;
        (_, g) \<leftarrow> gb_left g;
        (_, g) \<leftarrow> line_start g;
        walk_to_col col g })"

definition gb_down :: "GapBuffer \<Rightarrow> usize \<Rightarrow> GapBuffer option" where
  "gb_down g col =
     do { (_, g) \<leftarrow> line_end g;
          (_, g) \<leftarrow> gb_right g;
          (_, g) \<leftarrow> line_start g;
          walk_to_col col g }"

section \<open>The visible area\<close>

lemma gb_get_bound: "gb_get g i = Some c \<Longrightarrow> i < length (gb_buffer g)"
  by (auto simp: gb_get_def vec_get_def bind_eq_Some_conv split: if_splits)

function end_of_area_loop :: "GapBuffer \<Rightarrow> coord \<Rightarrow> coord \<Rightarrow> coord \<Rightarrow> nat \<Rightarrow> nat \<Rightarrow> nat" where
  "end_of_area_loop g num_rows num_cols row i line_len =
     (if row < num_rows
      then (case gb_get g i of
              None \<Rightarrow> i
            | Some c \<Rightarrow>
                if c = newline then end_of_area_loop g num_rows num_cols (row + 1) (i + 1) 0
                else if i + 1 > 0 \<and> (line_len + 1) mod num_cols = 0
                then end_of_area_loop g num_rows num_cols (row + 1) (i + 1) (line_len + 1)
                else end_of_area_loop g num_rows num_cols row (i + 1) (line_len + 1))
      else i)"
  by pat_completeness auto
termination
  by (relation "measure (\<lambda>(g, nr, nc, row, i, l). length (gb_buffer g) - i)")
     (auto dest: gb_get_bound)

declare end_of_area_loop.simps [simp del]

definition end_of_area :: "GapBuffer \<Rightarrow> usize \<Rightarrow> coord \<Rightarrow> coord \<Rightarrow> usize" where
  "end_of_area g scroll num_rows num_cols =
     (if num_rows = 0 \<or> num_cols = 0 then 0
      else end_of_area_loop g num_rows num_cols 0 scroll 0)"

text \<open>
  The loop of \<open>cursor_location\<close>; the inner \<open>None\<close> is the early return for a cursor
  below the visible rows.
\<close>

function cursor_location_loop ::
  "GapBuffer \<Rightarrow> coord \<Rightarrow> coord \<Rightarrow> nat \<Rightarrow> nat \<Rightarrow> nat \<Rightarrow> (coord \<times> coord) option" where
  "cursor_location_loop g num_rows num_cols i row col =
     (if i < gb_cursor g
      then (case gb_get g i of
              None \<Rightarrow> Some (row, col)
            | Some c \<Rightarrow>
                (let (row1, col1) = (if c = newline then (row + 1, 0) else (row, col + 1));
                     (row2, col2) = (if col1 \<ge> num_cols then (row1 + 1, 0) else (row1, col1))
                 in if row2 \<ge> num_rows then None
                    else cursor_location_loop g num_rows num_cols (i + 1) row2 col2))
      else Some (row, col))"
  by pat_completeness auto
termination
  by (relation "measure (\<lambda>(g, nr, nc, i, r, c). gb_cursor g - i)") auto

declare cursor_location_loop.simps [simp del]

definition cursor_location :: "GapBuffer \<Rightarrow> usize \<Rightarrow> coord \<Rightarrow> coord \<Rightarrow> (coord \<times> coord) option" where
  "cursor_location g scroll num_rows num_cols =
     (if gb_cursor g < scroll then None
      else if num_rows = 0 \<or> num_cols = 0 then None
      else cursor_location_loop g num_rows num_cols scroll 0 0)"

text \<open>The backward scan of \<open>start_of_area\<close>: the index and the last character read.\<close>

fun start_of_area_loop ::
  "GapBuffer \<Rightarrow> coord \<Rightarrow> nat \<Rightarrow> nat \<Rightarrow> nat \<Rightarrow> rchar option \<Rightarrow> nat \<times> rchar option" where
  "start_of_area_loop g num_cols 0 row line_len last_c = (0, last_c)"
| "start_of_area_loop g num_cols (Suc i) row line_len last_c =
     (if row = 0 then (Suc i, last_c)
      else (case gb_get g (Suc i) of
              None \<Rightarrow> (Suc i, last_c)
            | Some c \<Rightarrow>
                if c = newline then start_of_area_loop g num_cols i (row - 1) 0 (Some c)
                else if i > 0 \<and> (line_len + 1) mod num_cols = 0
                then start_of_area_loop g num_cols i (row - 1) (line_len + 1) (Some c)
                else start_of_area_loop g num_cols i row (line_len + 1) (Some c)))"

definition start_of_area :: "GapBuffer \<Rightarrow> usize \<Rightarrow> coord \<Rightarrow> coord \<Rightarrow> usize" where
  "start_of_area g scroll num_rows num_cols =
     (if num_rows = 0 \<or> num_cols = 0 then 0
      else let scrolled_cursor_row =
                 (case cursor_location g scroll num_rows num_cols of
                    None \<Rightarrow> num_rows - 1 | Some (r, _) \<Rightarrow> r);
               row = scrolled_cursor_row + 1
           in if gb_cursor g \<le> 1 then 0
              else let (i, last_c) = start_of_area_loop g num_cols (gb_cursor g - 1) row 0 None
                   in if last_c = Some newline then i + 2 else i)"

section \<open>The padding iterator\<close>

record GapBufferIterator =
  it_idx :: usize
  it_print_idx :: usize
  it_num_rows :: usize
  it_num_cols :: usize
  it_newline_pad :: bool
  it_tab_pad :: usize
  it_debug :: bool

definition it_new :: "usize \<Rightarrow> usize \<Rightarrow> usize \<Rightarrow> GapBufferIterator" where
  "it_new i num_rows num_cols =
     \<lparr>it_idx = i, it_print_idx = 0, it_num_rows = num_rows, it_num_cols = num_cols,
      it_newline_pad = False, it_tab_pad = 0, it_debug = False\<rparr>"

definition gb_iter_at_offset :: "GapBuffer \<Rightarrow> usize \<Rightarrow> usize \<Rightarrow> usize \<Rightarrow> GapBufferIterator" where
  "gb_iter_at_offset g num_rows num_cols offset =
     (it_new offset num_rows num_cols)\<lparr>it_debug := gb_debug g\<rparr>"

definition gb_iter :: "GapBuffer \<Rightarrow> usize \<Rightarrow> usize \<Rightarrow> GapBufferIterator" where
  "gb_iter g num_rows num_cols = (it_new 0 num_rows num_cols)\<lparr>it_debug := gb_debug g\<rparr>"

text \<open>
  \<open>next\<close>: the outer option is the panic of \<open>num_rows * num_cols\<close>, the inner one the item.
\<close>

definition it_next ::
  "GapBuffer \<Rightarrow> GapBufferIterator \<Rightarrow> (rchar option \<times> GapBufferIterator) option" where
  "it_next g it =
     do { area \<leftarrow> mul64 (it_num_rows it) (it_num_cols it);
          if it_print_idx it \<ge> area then Some (None, it)
          else if it_newline_pad it then do {
            let it = it\<lparr>it_print_idx := it_print_idx it + 1\<rparr>;
            r \<leftarrow> mod64 (it_print_idx it) (it_num_cols it);
            Some (Some space, if r = 0 then it\<lparr>it_newline_pad := False\<rparr> else it) }
          else if it_tab_pad it > 0 then
            Some (Some space, it\<lparr>it_tab_pad := it_tab_pad it - 1,
                                 it_print_idx := it_print_idx it + 1\<rparr>)
          else do {
            let ret = gb_get g (it_idx it);
            let it = it\<lparr>it_idx := it_idx it + 1, it_print_idx := it_print_idx it + 1\<rparr>;
            let (ret, it) =
              (case ret of
                 None \<Rightarrow> (None, it)
               | Some c \<Rightarrow>
                   if c = newline then (Some space, it\<lparr>it_newline_pad := True\<rparr>)
                   else if c = tab then (Some space, it\<lparr>it_tab_pad := TAB_LEN\<rparr>)
                   else (Some c, it));
            Some (if it_num_rows it > 0 \<and> it_print_idx it \<le> area \<and> ret = None
                  then Some space else ret, it) } }"

section \<open>The representation invariant\<close>

definition gb_rep :: "GapBuffer \<Rightarrow> u32 list \<Rightarrow> u32 list \<Rightarrow> bool" where
  "gb_rep g xs ys \<longleftrightarrow>
     gb_buffer g = xs @ replicate (gb_gap g) 0 @ ys \<and> gb_cursor g = length xs"

definition gb_before :: "GapBuffer \<Rightarrow> u32 list" where
  "gb_before g = take (gb_cursor g) (gb_buffer g)"

definition gb_after :: "GapBuffer \<Rightarrow> u32 list" where
  "gb_after g = drop (gb_cursor g + gb_gap g) (gb_buffer g)"

definition gb_inv :: "GapBuffer \<Rightarrow> bool" where
  "gb_inv g \<longleftrightarrow> gb_cursor g + gb_gap g \<le> length (gb_buffer g) \<and>
     (\<forall>x \<in> set (take (gb_gap g) (drop (gb_cursor g) (gb_buffer g))). x = 0)"

lemma gb_inv_rep: "gb_inv g \<longleftrightarrow> gb_rep g (gb_before g) (gb_after g)"
proof
  assume inv: "gb_inv g"
  let ?b = "gb_buffer g" and ?c = "gb_cursor g" and ?n = "gb_gap g"
  have gap: "take ?n (drop ?c ?b) = replicate ?n 0"
    using inv by (auto simp: gb_inv_def intro!: replicate_eqI)
  have "?b = take ?c ?b @ take ?n (drop ?c ?b) @ drop (?c + ?n) ?b"
    by (metis add.commute append_take_drop_id drop_drop)
  then show "gb_rep g (gb_before g) (gb_after g)"
    using inv gap by (simp add: gb_rep_def gb_before_def gb_after_def gb_inv_def)
next
  assume r: "gb_rep g (gb_before g) (gb_after g)"
  then have c: "gb_cursor g = length (gb_before g)"
    and b: "gb_buffer g = gb_before g @ replicate (gb_gap g) 0 @ gb_after g"
    by (simp_all add: gb_rep_def)
  have "take (gb_gap g) (drop (gb_cursor g) (gb_buffer g)) = replicate (gb_gap g) 0"
    by (subst b) (simp add: c)
  moreover have "gb_cursor g + gb_gap g \<le> length (gb_buffer g)"
    by (subst b) (simp add: c)
  ultimately show "gb_inv g" by (simp add: gb_inv_def)
qed

lemma gb_repD:
  assumes "gb_rep g xs ys"
  shows "gb_inv g" "gb_before g = xs" "gb_after g = ys"
  using assms by (auto simp: gb_rep_def gb_inv_def gb_before_def gb_after_def)

lemma gb_rep_chr:
  "gb_rep g xs ys \<Longrightarrow>
     gb_chr g = (case ys of [] \<Rightarrow> None
                 | y # _ \<Rightarrow> Some (if is_scalar y then y else REPLACEMENT_CHARACTER))"
  by (auto simp: gb_rep_def gb_chr_def vec_get_def char_from_u32_def nth_append
           split: list.splits)

subsection \<open>Line starts\<close>

definition line_begin :: "u32 list \<Rightarrow> nat" where
  "line_begin xs = length xs - length (takeWhile (\<lambda>c. c \<noteq> newline) (rev xs))"

lemma line_begin_Nil [simp]: "line_begin [] = 0"
  by (simp add: line_begin_def)

lemma line_begin_snoc [simp]:
  "line_begin (xs @ [c]) = (if c = newline then Suc (length xs) else line_begin xs)"
  by (simp add: line_begin_def)

lemma line_begin_le: "line_begin xs \<le> length xs"
  by (simp add: line_begin_def)

lemma line_begin_pos: "0 < line_begin xs \<Longrightarrow> xs ! (line_begin xs - 1) = newline"
proof (induction xs rule: rev_induct)
  case (snoc c xs)
  then show ?case using line_begin_le [of xs] by (auto simp: nth_append)
qed simp

lemma line_begin_0: "line_begin xs = 0 \<longleftrightarrow> newline \<notin> set xs"
proof (induction xs rule: rev_induct)
  case (snoc c xs)
  then show ?case by auto
qed simp

lemma back_to_newline_spec:
  "i < length b \<Longrightarrow> back_to_newline b i = Some (line_begin (take (Suc i) b) - 1)"
proof (induction i)
  case 0
  then show ?case by (cases b) (auto simp: line_begin_def)
next
  case (Suc i)
  then show ?case
    by (auto simp: idx_def take_Suc_conv_app_nth [of "Suc i"])
qed

lemma gb_rep_find_line_start:
  assumes rep: "gb_rep g xs ys" and ne: "gb_buffer g \<noteq> []"
  shows "find_line_start g = Some (line_begin xs)"
proof (cases xs rule: rev_cases)
  case Nil
  then have "gb_chr g = None \<Longrightarrow> gb_buffer g ! 0 = 0"
    using rep ne by (auto simp: gb_rep_chr [OF rep] gb_rep_def split: list.splits)
  then show ?thesis
    using Nil rep ne by (auto simp: find_line_start_def gb_rep_def idx_def Let_def)
next
  case (snoc zs c)
  have cur: "gb_cursor g = Suc (length zs)" and len: "length zs < length (gb_buffer g)"
    and nth: "gb_buffer g ! length zs = c" and tk: "take (Suc (length zs)) (gb_buffer g) = xs"
    using rep snoc by (auto simp: gb_rep_def nth_append)
  have eof: "gb_chr g = None \<longleftrightarrow> ys = []"
    by (simp add: gb_rep_chr [OF rep] split: list.split)
  let ?k = "line_begin xs"
  have k: "?k \<le> length xs" by (rule line_begin_le)
  have nth': "\<And>i. i < length xs \<Longrightarrow> gb_buffer g ! i = xs ! i"
    using rep by (simp add: gb_rep_def nth_append)
  have bk: "back_to_newline (gb_buffer g) (length zs) = Some (?k - 1)"
    using back_to_newline_spec [OF len] tk by simp
  show ?thesis
  proof (cases "c = newline \<and> ys = []")
    case True
    then show ?thesis
      using cur len nth eof snoc by (simp add: find_line_start_def idx_def)
  next
    case False
    have bound: "0 < ?k \<Longrightarrow> ?k + gb_gap g < length (gb_buffer g)"
      using False rep snoc line_begin_le [of zs] by (cases ys) (auto simp: gb_rep_def split: if_splits)
    have zero: "?k = 0 \<Longrightarrow> gb_buffer g ! 0 \<noteq> newline"
      using nth' [of 0] snoc line_begin_0 [of xs] by (metis length_append_singleton nth_mem zero_less_Suc)
    have pos: "0 < ?k \<Longrightarrow> gb_buffer g ! (?k - 1) = newline"
      using nth' [of "?k - 1"] line_begin_pos [of xs] k by simp
    show ?thesis
      using False cur len nth eof bk bound zero pos
      by (cases "?k = 0") (auto simp: find_line_start_def idx_def Let_def)
  qed
qed

subsection \<open>The operations on the two halves of the text\<close>

lemma update_gap_first:
  "0 < n \<Longrightarrow> (xs @ replicate n 0 @ ys)[length xs := c] = (xs @ [c]) @ replicate (n - 1) 0 @ ys"
  by (cases n) (simp_all add: list_update_append)

lemma Cons_replicate: "x # replicate n x = replicate n x @ [x]"
  by (simp add: replicate_append_same)

lemma shift_gap_left:
  "(xs @ [c] @ replicate n 0 @ ys)[length xs := 0, length xs + n := d] =
     xs @ replicate n 0 @ [d] @ ys"
proof -
  have "(xs @ [c] @ replicate n 0 @ ys)[length xs := 0] = xs @ (0 # replicate n 0) @ ys"
    by (simp add: list_update_append)
  also have "\<dots> = xs @ replicate n 0 @ [0] @ ys"
    unfolding Cons_replicate by simp
  finally show ?thesis
    by (simp only:) (simp add: list_update_append)
qed

lemma shift_gap_right:
  "(xs @ replicate n 0 @ [c] @ ys)[length xs + n := 0, length xs := d] =
     (xs @ [d]) @ replicate n 0 @ ys"
proof -
  have "(xs @ replicate n 0 @ [c] @ ys)[length xs + n := 0] = xs @ (replicate n 0 @ [0]) @ ys"
    by (simp add: list_update_append)
  also have "\<dots> = xs @ [0] @ replicate n 0 @ ys"
    unfolding Cons_replicate [symmetric] by simp
  finally show ?thesis
    by (simp only:) (simp add: list_update_append)
qed

lemma gb_rep_insert_gap:
  assumes rep: "gb_rep g xs ys" and gap: "0 < gb_gap g"
  shows "gb_insert g c = Some (g\<lparr>gb_buffer := (xs @ [c]) @ replicate (gb_gap g - 1) 0 @ ys,
           gb_cursor := Suc (length xs), gb_gap := gb_gap g - 1,
           gb_lineno := gb_lineno g + (if c = newline then 1 else 0),
           gb_line_start := (if c = newline then Suc (length xs) else gb_line_start g)\<rparr>)"
    (is "_ = Some ?g")
proof -
  let ?h = "?g\<lparr>gb_line_start := gb_line_start g\<rparr>"
  have b: "gb_buffer g = xs @ replicate (gb_gap g) 0 @ ys" and cur: "gb_cursor g = length xs"
    using rep by (simp_all add: gb_rep_def)
  have "gb_rep ?h (xs @ [c]) ys" by (simp add: gb_rep_def)
  then have "find_line_start ?h = Some (line_begin (xs @ [c]))"
    by (rule gb_rep_find_line_start) simp
  then show ?thesis
    using gap update_gap_first [OF gap, of xs ys c]
    by (cases "gb_gap g") (auto simp: gb_insert_def b cur panic_simps Let_def nth_append)
qed

lemma gb_realloc_end:
  "gb_rep g xs [] \<Longrightarrow> gb_gap g = 0 \<Longrightarrow>
     gb_realloc g = Some (g\<lparr>gb_buffer := xs @ replicate (gb_gap_size g) 0, gb_gap := gb_gap_size g\<rparr>)"
  by (cases "gb_gap_size g") (auto simp: gb_realloc_def gb_rep_def)

definition gb_can_insert :: "GapBuffer \<Rightarrow> bool" where
  "gb_can_insert g \<longleftrightarrow> 0 < gb_gap g \<or> (gb_after g = [] \<and> 0 < gb_gap_size g)"

lemma gb_insert_alloc:
  assumes "gb_realloc g = Some g'" "gb_gap g = 0" "0 < gb_gap g'"
  shows "gb_insert g c = gb_insert g' c"
  using assms by (simp add: gb_insert_def)

lemma gb_rep_insert:
  assumes rep: "gb_rep g xs ys" and ok: "gb_can_insert g"
  obtains g' where "gb_insert g c = Some g'" "gb_rep g' (xs @ [c]) ys"
    "gb_gap g' \<ge> gb_gap g - 1" "gb_gap_size g' = gb_gap_size g"
    "gb_line_start g' = (if c = newline then Suc (length xs) else gb_line_start g)"
    "gb_lineno g' = gb_lineno g + (if c = newline then 1 else 0)"
proof (cases "gb_gap g = 0")
  case False
  then show ?thesis
    using gb_rep_insert_gap [OF rep, of c] that by (auto simp: gb_rep_def)
next
  case True
  then have ys: "ys = []" and sz: "0 < gb_gap_size g"
    using ok gb_repD [OF rep] by (auto simp: gb_can_insert_def)
  let ?g = "g\<lparr>gb_buffer := xs @ replicate (gb_gap_size g) 0, gb_gap := gb_gap_size g\<rparr>"
  have al: "gb_realloc g = Some ?g"
    using gb_realloc_end rep ys True by blast
  have rep': "gb_rep ?g xs []"
    using rep by (simp add: gb_rep_def)
  have "gb_insert g c = gb_insert ?g c"
    using gb_insert_alloc [OF al True] sz by simp
  then show ?thesis
    using gb_rep_insert_gap [OF rep', of c] sz that True ys by (auto simp: gb_rep_def)
qed

lemma gb_rep_backspace:
  assumes rep: "gb_rep g (xs @ [c]) ys" and ok: "0 < gb_gap g \<or> ys \<noteq> []"
  obtains g' where "gb_backspace g = Some g'" "gb_rep g' xs ys" "gb_gap g' = Suc (gb_gap g)"
    "gb_gap_size g' = gb_gap_size g" "gb_line_start g' \<in> {gb_line_start g, line_begin xs}"
    "0 < gb_gap g \<Longrightarrow> gb_line_start g' = gb_line_start g \<and> gb_lineno g' = gb_lineno g"
proof -
  let ?b = "xs @ replicate (Suc (gb_gap g)) 0 @ ys"
  let ?h = "g\<lparr>gb_cursor := length xs, gb_buffer := ?b, gb_gap := Suc (gb_gap g)\<rparr>"
  let ?h' = "?h\<lparr>gb_lineno := gb_lineno g - 1\<rparr>"
  have b: "gb_buffer g = xs @ [c] @ replicate (gb_gap g) 0 @ ys"
    and cur: "gb_cursor g = Suc (length xs)"
    using rep by (simp_all add: gb_rep_def)
  have upd: "(gb_buffer g)[length xs := 0] = ?b"
    by (simp add: b list_update_append)
  have at: "gb_buffer g ! Suc (length xs) = (if 0 < gb_gap g then 0 else hd ys)"
    and bound: "Suc (length xs) < length (gb_buffer g)"
    using ok by (auto simp: b nth_append hd_conv_nth)
  have rep': "gb_rep ?h xs ys" "gb_rep ?h' xs ys" by (simp_all add: gb_rep_def)
  have ls: "find_line_start ?h' = Some (line_begin xs)"
    by (rule gb_rep_find_line_start [OF rep'(2)]) simp
  show ?thesis
  proof (cases "gb_buffer g ! Suc (length xs) = newline")
    case True
    then have "gb_backspace g = Some (?h'\<lparr>gb_line_start := line_begin xs\<rparr>)"
      using bound ls upd by (simp add: gb_backspace_def cur panic_simps Let_def)
    then show ?thesis
      using True at rep' by (intro that [of "?h'\<lparr>gb_line_start := line_begin xs\<rparr>"])
        (auto simp: gb_rep_def split: if_splits)
  next
    case False
    then have "gb_backspace g = Some ?h"
      using bound upd by (simp add: gb_backspace_def cur panic_simps Let_def)
    then show ?thesis
      using rep' by (intro that [of ?h]) (auto simp: gb_rep_def)
  qed
qed

lemma gb_rep_left:
  assumes rep: "gb_rep g (xs @ [c]) ys"
  shows "gb_left g = Some (True, g\<lparr>gb_cursor := length xs,
           gb_buffer := xs @ replicate (gb_gap g) 0 @ [c] @ ys,
           gb_lineno := gb_lineno g + (if c = newline then 1 else 0),
           gb_line_start := (if c = newline then line_begin xs else gb_line_start g)\<rparr>)"
    (is "_ = Some (True, ?g)")
proof -
  let ?h = "?g\<lparr>gb_line_start := gb_line_start g\<rparr>"
  have b: "gb_buffer g = xs @ [c] @ replicate (gb_gap g) 0 @ ys"
    and cur: "gb_cursor g = Suc (length xs)"
    using rep by (simp_all add: gb_rep_def)
  have "gb_rep ?h xs (c # ys)" by (simp add: gb_rep_def)
  then have "find_line_start ?h = Some (line_begin xs)"
    by (rule gb_rep_find_line_start) simp
  then show ?thesis
    using shift_gap_left [of xs c "gb_gap g" ys c]
    by (auto simp: gb_left_def b cur panic_simps Let_def)
qed

lemma gb_rep_right:
  assumes rep: "gb_rep g xs (c # ys)"
  shows "gb_right g = Some (True, g\<lparr>gb_buffer := (xs @ [c]) @ replicate (gb_gap g) 0 @ ys,
           gb_cursor := Suc (length xs),
           gb_lineno := gb_lineno g - (if c = newline then 1 else 0),
           gb_line_start := (if c = newline then Suc (length xs) else gb_line_start g)\<rparr>)"
    (is "_ = Some (True, ?g)")
proof -
  let ?h = "?g\<lparr>gb_line_start := gb_line_start g\<rparr>"
  have b: "gb_buffer g = xs @ replicate (gb_gap g) 0 @ [c] @ ys"
    and cur: "gb_cursor g = length xs"
    using rep by (simp_all add: gb_rep_def)
  have "gb_rep ?h (xs @ [c]) ys" by (simp add: gb_rep_def)
  then have "find_line_start ?h = Some (line_begin (xs @ [c]))"
    by (rule gb_rep_find_line_start) simp
  then show ?thesis
    using shift_gap_right [of xs "gb_gap g" c ys c]
    by (auto simp: gb_right_def b cur panic_simps Let_def nth_append)
qed

section \<open>The gap buffer is an editable text\<close>

definition gb_halves :: "GapBuffer \<Rightarrow> rchar list \<times> rchar list" where
  "gb_halves g = (gb_before g, gb_after g)"

definition gb_move_left :: "GapBuffer \<Rightarrow> GapBuffer option" where
  "gb_move_left g = map_option snd (gb_left g)"

definition gb_move_right :: "GapBuffer \<Rightarrow> GapBuffer option" where
  "gb_move_right g = map_option snd (gb_right g)"

lemma gb_halves_rep: "gb_rep g xs ys \<Longrightarrow> gb_halves g = (xs, ys) \<and> gb_inv g"
  by (simp add: gb_halves_def gb_repD)

lemma gb_inv_cases:
  assumes "gb_inv g"
  obtains xs ys where "gb_rep g xs ys" "gb_halves g = (xs, ys)"
  using assms gb_inv_rep gb_halves_def by blast

interpretation gap_text: cursor_text gb_inv gb_halves gb_gap "\<lambda>_. True"
  gb_insert gb_backspace gb_move_left gb_move_right
proof (unfold_locales, goal_cases)
  case (1 g c)
  from 1(1) obtain xs ys where rep: "gb_rep g xs ys" and h: "gb_halves g = (xs, ys)"
    by (rule gb_inv_cases)
  have "gb_can_insert g" using 1(2) by (simp add: gb_can_insert_def)
  from gb_rep_insert [OF rep this, of c] obtain g' where
    "gb_insert g c = Some g'" "gb_rep g' (xs @ [c]) ys" "gb_gap g' \<ge> gb_gap g - 1" by metis
  then show ?case using h gb_halves_rep [of g' "xs @ [c]" ys] by auto
next
  case (2 g)
  from 2(1) obtain xs ys where rep: "gb_rep g xs ys" and h: "gb_halves g = (xs, ys)"
    by (rule gb_inv_cases)
  show ?case
  proof (cases xs rule: rev_cases)
    case Nil
    then show ?thesis using rep h 2(1) by (auto simp: gb_backspace_def gb_rep_def)
  next
    case (snoc zs c)
    from gb_rep_backspace [OF rep [unfolded snoc]] 2(2) obtain g' where
      "gb_backspace g = Some g'" "gb_rep g' zs ys" "gb_gap g' = Suc (gb_gap g)" by metis
    then show ?thesis using h snoc gb_halves_rep [of g' zs ys] by auto
  qed
next
  case (3 g)
  from 3 obtain xs ys where rep: "gb_rep g xs ys" and h: "gb_halves g = (xs, ys)"
    by (rule gb_inv_cases)
  show ?case
  proof (cases xs rule: rev_cases)
    case Nil
    then show ?thesis using rep h 3 by (auto simp: gb_move_left_def gb_left_def gb_rep_def)
  next
    case (snoc zs c)
    obtain g' where "gb_left g = Some (True, g')" "gb_rep g' zs (c # ys)" "gb_gap g' = gb_gap g"
      using gb_rep_left [OF rep [unfolded snoc]] by (auto simp: gb_rep_def)
    then show ?thesis using h snoc gb_halves_rep [of g' zs "c # ys"] by (auto simp: gb_move_left_def)
  qed
next
  case (4 g)
  from 4 obtain xs ys where rep: "gb_rep g xs ys" and h: "gb_halves g = (xs, ys)"
    by (rule gb_inv_cases)
  show ?case
  proof (cases ys)
    case Nil
    then show ?thesis using rep h 4 by (auto simp: gb_move_right_def gb_right_def gb_rep_def)
  next
    case (Cons c zs)
    obtain g' where "gb_right g = Some (True, g')" "gb_rep g' (xs @ [c]) zs" "gb_gap g' = gb_gap g"
      using gb_rep_right [OF rep [unfolded Cons]] by (auto simp: gb_rep_def)
    then show ?thesis
      using h Cons gb_halves_rep [of g' "xs @ [c]" zs] by (auto simp: gb_move_right_def)
  qed
qed

section \<open>Construction and reading back\<close>

lemma write_chars_ok:
  "i + length cs \<le> length b \<Longrightarrow>
     write_chars b i cs = Some (take i b @ cs @ drop (i + length cs) b)"
proof (induction cs arbitrary: b i)
  case (Cons c cs)
  then show ?case
    by (simp add: store_def take_Suc_conv_app_nth [of i "b[i := c]"])
qed simp

lemma write_chars_fresh:
  "write_chars (replicate (str_len s + n) 0) 0 s =
     Some (s @ replicate (str_len s - length s) 0 @ replicate n 0)"
  using str_len_ge_length [of s]
  by (simp add: write_chars_ok flip: replicate_add)

lemma gb_new_rep:
  assumes "str_len s + n > 0"
  shows "\<exists>g. gb_new s n = Some g \<and> gb_rep g (s @ replicate (str_len s - length s) 0) [] \<and>
     gb_gap g = n \<and> gb_gap_size g = n \<and> gb_lineno g = count_lines s \<and>
     gb_line_start g = line_begin (s @ replicate (str_len s - length s) 0)"
proof -
  let ?t = "s @ replicate (str_len s - length s) 0"
  let ?g = "\<lparr>gb_buffer = ?t @ replicate n 0, gb_cursor = str_len s, gb_gap = n,
             gb_gap_size = n, gb_lineno = count_lines s, gb_line_start = 0, gb_debug = False\<rparr>"
  have rep: "gb_rep ?g ?t []"
    using str_len_ge_length [of s] by (simp add: gb_rep_def)
  have "gb_buffer ?g \<noteq> []" using assms by auto
  with rep have "find_line_start ?g = Some (line_begin ?t)"
    by (rule gb_rep_find_line_start)
  then show ?thesis
    using rep by (simp add: gb_new_def write_chars_fresh Let_def gb_rep_def)
qed

lemma gb_rep_get:
  "gb_rep g xs ys \<Longrightarrow> i < length xs + length ys \<Longrightarrow>
     gb_get g i = char_from_u32 ((xs @ ys) ! i)"
  by (auto simp: gb_rep_def gb_get_def vec_get_def nth_append)

lemma gb_rep_get_end: "gb_rep g xs ys \<Longrightarrow> length xs + length ys \<le> i \<Longrightarrow> gb_get g i = None"
  by (auto simp: gb_rep_def gb_get_def vec_get_def)

lemma gb_rep_len: "gb_rep g xs ys \<Longrightarrow> gb_len g = length xs + length ys"
  by (simp add: gb_rep_def gb_len_def)

lemma map_filter_nth:
  "(\<And>i. i < length xs \<Longrightarrow> f i = Some (xs ! i)) \<Longrightarrow> List.map_filter f [0..<length xs] = xs"
proof (induction xs rule: rev_induct)
  case (snoc x xs)
  have "List.map_filter f [0..<length xs] = xs"
    by (rule snoc.IH) (use snoc.prems in \<open>force simp: nth_append\<close>)
  moreover have "f (length xs) = Some x" using snoc.prems [of "length xs"] by simp
  ultimately show ?case by (simp add: List.map_filter_def)
qed (simp add: List.map_filter_def)

lemma gb_rep_to_string:
  assumes rep: "gb_rep g xs ys" and sc: "\<forall>c \<in> set (xs @ ys). is_scalar c"
  shows "gb_to_string g = xs @ ys"
proof -
  have "gb_get g i = Some ((xs @ ys) ! i)" if "i < length (xs @ ys)" for i
    using gb_rep_get [OF rep, of i] sc nth_mem [OF that] that by (simp add: char_from_u32_def)
  then show ?thesis
    using map_filter_nth [of "xs @ ys" "gb_get g"] by (simp add: gb_to_string_def gb_rep_len [OF rep])
qed

end
