(* ===== verification/Gap_Navigation.thy ===== *)
theory Gap_Navigation
  imports Gap_Buffer
begin

text \<open>
  Moving in the gap buffer by lines, the visible area and the padding iterator: lemmas on the
  loops of \<open>Gap_Buffer\<close>, and the properties of the whole component.
\<close>

section \<open>Moving\<close>

text \<open>A step of the cursor, with the fields the moves keep.\<close>

definition gb_like :: "GapBuffer \<Rightarrow> GapBuffer \<Rightarrow> bool" where
  "gb_like g g' \<longleftrightarrow> gb_gap g' = gb_gap g \<and> gb_gap_size g' = gb_gap_size g \<and>
     (gb_line_start g = line_begin (gb_before g) \<longrightarrow> gb_line_start g' = line_begin (gb_before g'))"

lemma gb_like_refl [simp]: "gb_like g g"
  by (simp add: gb_like_def)

lemma gb_like_trans: "gb_like g h \<Longrightarrow> gb_like h k \<Longrightarrow> gb_like g k"
  by (simp add: gb_like_def)

lemma gb_left_step:
  assumes "gb_rep g (xs @ [c]) ys"
  obtains g' where "gb_left g = Some (True, g')" "gb_rep g' xs (c # ys)" "gb_like g g'"
proof -
  let ?g = "g\<lparr>gb_cursor := length xs, gb_buffer := xs @ replicate (gb_gap g) 0 @ [c] @ ys,
           gb_lineno := gb_lineno g + (if c = newline then 1 else 0),
           gb_line_start := (if c = newline then line_begin xs else gb_line_start g)\<rparr>"
  have rep: "gb_rep ?g xs (c # ys)" by (simp add: gb_rep_def)
  have "gb_before g = xs @ [c]" "gb_before ?g = xs"
    using gb_repD(2) [OF assms] gb_repD(2) [OF rep] by simp_all
  then have "gb_like g ?g" by (simp add: gb_like_def)
  then show ?thesis using that gb_rep_left [OF assms] rep by blast
qed

lemma gb_left_stop: "gb_rep g [] ys \<Longrightarrow> gb_left g = Some (False, g)"
  by (simp add: gb_left_def gb_rep_def)

lemma gb_right_step:
  assumes "gb_rep g xs (c # ys)"
  obtains g' where "gb_right g = Some (True, g')" "gb_rep g' (xs @ [c]) ys" "gb_like g g'"
proof -
  let ?g = "g\<lparr>gb_buffer := (xs @ [c]) @ replicate (gb_gap g) 0 @ ys, gb_cursor := Suc (length xs),
           gb_lineno := gb_lineno g - (if c = newline then 1 else 0),
           gb_line_start := (if c = newline then Suc (length xs) else gb_line_start g)\<rparr>"
  have rep: "gb_rep ?g (xs @ [c]) ys" by (simp add: gb_rep_def)
  have "gb_before g = xs" "gb_before ?g = xs @ [c]"
    using gb_repD(2) [OF assms] gb_repD(2) [OF rep] by simp_all
  then have "gb_like g ?g" by (simp add: gb_like_def)
  then show ?thesis using that gb_rep_right [OF assms] rep by blast
qed

lemma gb_right_stop: "gb_rep g xs [] \<Longrightarrow> gb_right g = Some (False, g)"
  by (simp add: gb_right_def gb_rep_def)

text \<open>All characters of the buffer are Unicode scalar values, as \<open>char\<close> guarantees.\<close>

definition scalars :: "u32 list \<Rightarrow> bool" where
  "scalars s \<longleftrightarrow> (\<forall>c \<in> set s. is_scalar c)"

lemma scalars_simps [simp]:
  "scalars []"
  "scalars (c # s) \<longleftrightarrow> is_scalar c \<and> scalars s"
  "scalars (s @ t) \<longleftrightarrow> scalars s \<and> scalars t"
  by (auto simp: scalars_def)

lemma scalars_drop: "scalars s \<Longrightarrow> scalars (drop n s)"
  by (auto simp only: scalars_def dest: in_set_dropD)

lemma newline_scalar [simp]: "is_scalar newline"
  by (simp add: is_scalar_def)

lemma gb_chr_hd: "gb_rep g xs (c # ys) \<Longrightarrow> is_scalar c \<Longrightarrow> gb_chr g = Some c"
  by (simp add: gb_rep_chr)

lemma gb_chr_end: "gb_rep g xs [] \<Longrightarrow> gb_chr g = None"
  by (simp add: gb_rep_chr)

lemma chr_or_true_simps [simp]:
  "chr_or_true f None" "chr_or_true f (Some c) = f c"
  by (simp_all add: chr_or_true_def)

subsection \<open>The loops\<close>

text \<open>Walking left stops on the newline before the line, or at the start of the text.\<close>

lemma left_while_newline:
  assumes "gb_rep g xs (c # ys)" and "c \<noteq> newline" and "scalars xs" and "is_scalar c"
  shows "\<exists>g'. left_while (chr_or_true (\<lambda>c. c \<noteq> newline)) g = Some g' \<and> gb_like g g' \<and>
     gb_rep g' (take (line_begin xs - 1) xs) (drop (line_begin xs - 1) xs @ c # ys)"
  using assms
proof (induction xs arbitrary: g c ys rule: rev_induct)
  case Nil
  then show ?case
    using gb_left_stop [OF Nil(1)] gb_chr_hd [OF Nil(1)] by (subst left_while.simps) simp
next
  case (snoc d xs)
  obtain g' where l: "gb_left g = Some (True, g')" and rep': "gb_rep g' xs (d # c # ys)"
    and like: "gb_like g g'"
    using gb_left_step [OF snoc.prems(1)] .
  have go: "left_while (chr_or_true (\<lambda>c. c \<noteq> newline)) g =
      left_while (chr_or_true (\<lambda>c. c \<noteq> newline)) g'"
    using gb_chr_hd [OF snoc.prems(1)] snoc.prems l by (subst left_while.simps) simp
  show ?case
  proof (cases "d = newline")
    case True
    then have "left_while (chr_or_true (\<lambda>c. c \<noteq> newline)) g' = Some g'"
      using gb_chr_hd [OF rep'] by (subst left_while.simps) simp
    then show ?thesis using go True rep' like by simp
  next
    case False
    then show ?thesis
      using snoc.IH [OF rep' False] snoc.prems go like line_begin_le [of xs]
      by (auto intro: gb_like_trans)
  qed
qed

text \<open>Walking right stops on the next newline, or at the end of the text.\<close>

lemma right_while_newline:
  assumes "gb_rep g xs ys" and "scalars ys"
  shows "\<exists>g'. right_while (chr_or_true (\<lambda>c. c \<noteq> newline)) g = Some g' \<and> gb_like g g' \<and>
     gb_rep g' (xs @ takeWhile (\<lambda>c. c \<noteq> newline) ys) (dropWhile (\<lambda>c. c \<noteq> newline) ys)"
  using assms
proof (induction ys arbitrary: g xs)
  case Nil
  then show ?case
    using gb_right_stop [OF Nil(1)] gb_chr_end [OF Nil(1)] by (subst right_while.simps) simp
next
  case (Cons c ys)
  have chr: "gb_chr g = Some c" using gb_chr_hd [OF Cons.prems(1)] Cons.prems(2) by simp
  show ?case
  proof (cases "c = newline")
    case True
    then show ?thesis using chr Cons.prems(1) by (subst right_while.simps) simp
  next
    case False
    obtain g' where r: "gb_right g = Some (True, g')" and rep': "gb_rep g' (xs @ [c]) ys"
      and like: "gb_like g g'"
      using gb_right_step [OF Cons.prems(1)] .
    have "right_while (chr_or_true (\<lambda>c. c \<noteq> newline)) g =
        right_while (chr_or_true (\<lambda>c. c \<noteq> newline)) g'"
      using chr False r by (subst right_while.simps) simp
    then show ?thesis
      using Cons.IH [OF rep'] Cons.prems(2) False like by (auto intro: gb_like_trans)
  qed
qed

lemma walk_to_col_rep:
  assumes "gb_rep g xs ys" and "scalars ys"
  shows "\<exists>g'. walk_to_col n g = Some g' \<and> gb_like g g' \<and>
     (let k = min n (length (takeWhile (\<lambda>c. c \<noteq> newline) ys))
      in gb_rep g' (xs @ take k ys) (drop k ys))"
  using assms
proof (induction n arbitrary: g xs ys)
  case 0
  then show ?case by simp
next
  case (Suc n)
  show ?case
  proof (cases "\<exists>c ys'. ys = c # ys' \<and> c \<noteq> newline")
    case False
    then have "chr_or_true (\<lambda>c. c = newline) (gb_chr g)"
      using gb_rep_chr [OF Suc.prems(1)] Suc.prems(2) by (auto split: list.splits)
    moreover have "takeWhile (\<lambda>c. c \<noteq> newline) ys = []"
      using False by (cases ys) auto
    ultimately show ?thesis using Suc.prems(1) by simp
  next
    case True
    then obtain c ys' where ys: "ys = c # ys'" and c: "c \<noteq> newline" by blast
    obtain g' where r: "gb_right g = Some (True, g')" and rep': "gb_rep g' (xs @ [c]) ys'"
      and like: "gb_like g g'"
      using gb_right_step [OF Suc.prems(1) [unfolded ys]] .
    have chr: "gb_chr g = Some c"
      using gb_chr_hd [OF Suc.prems(1) [unfolded ys]] Suc.prems(2) ys by simp
    show ?thesis
      using Suc.IH [OF rep'] Suc.prems(2) ys c chr r like
      by (auto simp: Let_def intro: gb_like_trans)
  qed
qed

lemma walk_to_col_at:
  assumes "gb_rep g (take k t) (drop k t)" and "scalars t"
    and "j = k + min n (length (takeWhile (\<lambda>c. c \<noteq> newline) (drop k t)))"
  shows "\<exists>g'. walk_to_col n g = Some g' \<and> gb_like g g' \<and> gb_rep g' (take j t) (drop j t)"
  using walk_to_col_rep [OF assms(1) scalars_drop [OF assms(2)], of n] assms(3)
  by (simp add: Let_def take_add add.commute)

subsection \<open>Start and end of the line\<close>

text \<open>The part of \<open>line_start\<close> after its end-of-text test.\<close>

lemma line_start_walk:
  assumes rep: "gb_rep g xs (c # ys)" and c: "c \<noteq> newline" and sc: "scalars (xs @ c # ys)"
  shows "\<exists>m g'. do {
              g \<leftarrow> left_while (chr_or_true (\<lambda>c. c \<noteq> newline)) g;
              (moved, g) \<leftarrow> (if chr_or_true (\<lambda>c. c = newline) (gb_chr g) then gb_right g
                             else Some (True, g));
              if \<not> moved then Some (False, g)
              else Some (gb_cursor g = old_cursor, g) } = Some (m, g') \<and>
     gb_like g g' \<and> gb_rep g' (take (line_begin xs) xs) (drop (line_begin xs) xs @ c # ys)"
proof -
  let ?k = "line_begin xs"
  obtain g' where lw: "left_while (chr_or_true (\<lambda>c. c \<noteq> newline)) g = Some g'" and like: "gb_like g g'"
    and rep': "gb_rep g' (take (?k - 1) xs) (drop (?k - 1) xs @ c # ys)"
    using left_while_newline [OF rep c] sc by auto
  show ?thesis
  proof (cases "?k = 0")
    case True
    then have nl: "newline \<notin> set xs" by (simp add: line_begin_0)
    have "gb_chr g' = Some (hd (xs @ [c]))"
      using gb_rep_chr [OF rep'] sc True by (cases xs) simp_all
    moreover have "hd (xs @ [c]) \<noteq> newline" using nl c by (cases xs) auto
    ultimately show ?thesis using lw like rep' True by simp
  next
    case False
    have k: "?k - 1 < length xs" using False line_begin_le [of xs] by simp
    have ds: "drop (?k - 1) xs = newline # drop ?k xs"
      using drop_Suc_nth [OF k] line_begin_pos [of xs] False by simp
    have tk: "take (?k - 1) xs @ [newline] = take ?k xs"
      using take_Suc_conv_app_nth [OF k] line_begin_pos [of xs] False by simp
    obtain g2 where r: "gb_right g' = Some (True, g2)"
      and rep2: "gb_rep g2 (take ?k xs) (drop ?k xs @ c # ys)" and like2: "gb_like g' g2"
      using gb_right_step [of g' "take (?k - 1) xs" newline "drop ?k xs @ c # ys"] rep' ds tk by auto
    have "gb_chr g' = Some newline"
      using gb_rep_chr [OF rep'] ds by simp
    then show ?thesis using lw r rep2 gb_like_trans [OF like like2] by simp
  qed
qed

lemma line_start_inner:
  assumes rep: "gb_rep g xs (c # ys)" and sc: "scalars (xs @ c # ys)"
  shows "\<exists>m g'. do { (moved, g) \<leftarrow> (if chr_or_true (\<lambda>c. c = newline) (gb_chr g) then gb_left g
                           else Some (True, g));
            if \<not> moved then Some (False, g) else do {
              g \<leftarrow> left_while (chr_or_true (\<lambda>c. c \<noteq> newline)) g;
              (moved, g) \<leftarrow> (if chr_or_true (\<lambda>c. c = newline) (gb_chr g) then gb_right g
                             else Some (True, g));
              if \<not> moved then Some (False, g)
              else Some (gb_cursor g = old_cursor, g) } } = Some (m, g') \<and>
     gb_like g g' \<and> gb_rep g' (take (line_begin xs) xs) (drop (line_begin xs) xs @ c # ys)"
proof -
  have chr: "gb_chr g = Some c" using gb_chr_hd [OF rep] sc by simp
  show ?thesis
  proof (cases "c = newline")
    case False
    then show ?thesis using line_start_walk [OF rep False sc] chr by simp
  next
    case nl: True
    show ?thesis
    proof (cases xs rule: rev_cases)
      case Nil
      then show ?thesis using nl chr rep gb_left_stop [of g "c # ys"] by auto
    next
      case (snoc zs d)
      obtain g1 where l: "gb_left g = Some (True, g1)" and rep1: "gb_rep g1 zs (d # c # ys)"
        and like1: "gb_like g g1"
        using gb_left_step [OF rep [unfolded snoc]] .
      have scs: "scalars (zs @ d # c # ys)" using sc snoc by simp
      show ?thesis
      proof (cases "d = newline")
        case True
        have chr1: "gb_chr g1 = Some newline" using gb_chr_hd [OF rep1] True by simp
        have lw: "left_while (chr_or_true (\<lambda>c. c \<noteq> newline)) g1 = Some g1"
          using chr1 by (subst left_while.simps) simp
        obtain g2 where "gb_right g1 = Some (True, g2)" "gb_rep g2 (zs @ [d]) (c # ys)" "gb_like g1 g2"
          using gb_right_step [OF rep1] .
        then show ?thesis
          using nl chr l lw chr1 True snoc by (auto intro: gb_like_trans [OF like1])
      next
        case False
        then show ?thesis
          using line_start_walk [OF rep1 False scs, of old_cursor] nl chr l snoc line_begin_le [of zs]
          by (auto intro: gb_like_trans [OF like1])
      qed
    qed
  qed
qed

lemma line_start_rep:
  assumes rep: "gb_rep g xs ys" and sc: "scalars (xs @ ys)"
  defines "k \<equiv> line_begin (if ys = [] then butlast xs else xs)"
  shows "\<exists>m g'. line_start g = Some (m, g') \<and> gb_like g g' \<and>
     gb_rep g' (take k (xs @ ys)) (drop k (xs @ ys))"
proof (cases ys)
  case (Cons c ys')
  then show ?thesis
    using line_start_inner [OF rep [unfolded Cons], of "gb_cursor g"] sc
      gb_chr_hd [OF rep [unfolded Cons]] line_begin_le [of xs]
    by (simp add: line_start_def k_def)
next
  case Nil
  show ?thesis
  proof (cases xs rule: rev_cases)
    case xs: Nil
    then show ?thesis
      using Nil rep gb_left_stop [of g "[]"] gb_chr_end [of g "[]"] by (auto simp: line_start_def k_def)
  next
    case (snoc zs c)
    obtain g1 where l: "gb_left g = Some (True, g1)" and rep1: "gb_rep g1 zs [c]"
      and like1: "gb_like g g1"
      using gb_left_step [OF rep [unfolded snoc Nil]] .
    have "scalars (zs @ c # [])" using sc snoc Nil by simp
    from line_start_inner [OF rep1 this, of "gb_cursor g"]
    obtain m g' where r: "gb_rep g' (take (line_begin zs) zs) (drop (line_begin zs) zs @ [c])"
      and li: "gb_like g1 g'" and eq: "line_start g = Some (m, g')"
      using gb_chr_end [OF rep [unfolded Nil]] l by (auto simp: line_start_def)
    show ?thesis
      using r eq gb_like_trans [OF like1 li] snoc Nil line_begin_le [of zs] by (simp add: k_def)
  qed
qed

lemma line_end_rep:
  assumes "gb_rep g xs ys" and "scalars ys"
  shows "\<exists>m g'. line_end g = Some (m, g') \<and> gb_like g g' \<and>
     gb_rep g' (xs @ takeWhile (\<lambda>c. c \<noteq> newline) ys) (dropWhile (\<lambda>c. c \<noteq> newline) ys)"
  using right_while_newline [OF assms] by (auto simp: line_end_def)


subsection \<open>One line up, one line down\<close>

definition gb_text :: "GapBuffer \<Rightarrow> u32 list" where
  "gb_text g = gb_before g @ gb_after g"

definition gb_line_ok :: "GapBuffer \<Rightarrow> bool" where
  "gb_line_ok g \<longleftrightarrow> gb_line_start g = line_begin (gb_before g)"

lemma gb_like_line_ok: "gb_like g g' \<Longrightarrow> gb_line_ok g \<Longrightarrow> gb_line_ok g'"
  by (simp add: gb_like_def gb_line_ok_def)

lemma line_begin_drop: "newline \<notin> set (drop (line_begin xs) xs)"
proof (induction xs rule: rev_induct)
  case (snoc c xs)
  then show ?case using line_begin_le [of xs] by auto
qed simp

lemma takeWhile_line:
  "newline \<notin> set u \<Longrightarrow> takeWhile (\<lambda>c. c \<noteq> newline) (u @ newline # v) = u"
  by (induction u) auto

text \<open>Where one line up from the end of \<open>xs\<close> is, at column \<open>col\<close> or the end of that line.\<close>

definition up_target :: "u32 list \<Rightarrow> nat \<Rightarrow> nat" where
  "up_target xs col =
     (let k = line_begin xs; p = line_begin (take (k - 1) xs) in p + min col (k - 1 - p))"

lemma gb_up_rep:
  assumes rep: "gb_rep g xs ys" and sc: "scalars (xs @ ys)"
    and ok: "gb_line_start g = line_begin xs" and nl: "newline \<in> set xs"
    and last: "ys = [] \<Longrightarrow> last xs \<noteq> newline"
  shows "\<exists>g'. gb_up g col = Some g' \<and> gb_like g g' \<and>
     gb_rep g' (take (up_target xs col) (xs @ ys)) (drop (up_target xs col) (xs @ ys))"
proof -
  let ?k = "line_begin xs" and ?t = "xs @ ys"
  let ?u = "take (?k - 1) xs"
  let ?p = "line_begin ?u"
  have kpos: "0 < ?k" using nl line_begin_0 [of xs] by simp
  have kle: "?k \<le> length xs" by (rule line_begin_le)
  have nth: "xs ! (?k - 1) = newline" using line_begin_pos [OF kpos] .
  have ple: "?p \<le> ?k - 1" using line_begin_le [of ?u] kle by simp
  have k': "line_begin (if ys = [] then butlast xs else xs) = ?k"
    using last nl by (cases xs rule: rev_cases) auto
  obtain m1 g1 where s1: "line_start g = Some (m1, g1)" and l1: "gb_like g g1"
    and r1: "gb_rep g1 (take ?k ?t) (drop ?k ?t)"
    using line_start_rep [OF rep sc] k' by auto
  have split: "take ?k ?t = ?u @ [newline]"
    using take_Suc_conv_app_nth [of "?k - 1" xs] kpos kle nth by simp
  obtain g2 where s2: "gb_left g1 = Some (True, g2)" and r2: "gb_rep g2 ?u (newline # drop ?k ?t)"
    and l2: "gb_like g1 g2"
    using gb_left_step [OF r1 [unfolded split]] .
  have whole: "?t = ?u @ newline # drop ?k ?t"
    using split by (metis append.assoc append_Cons append_Nil append_take_drop_id)
  have sc2: "scalars (?u @ newline # drop ?k ?t)" using sc by (simp only: whole [symmetric])
  obtain m3 g3 where s3: "line_start g2 = Some (m3, g3)" and l3: "gb_like g2 g3"
    and r3: "gb_rep g3 (take ?p ?t) (drop ?p ?t)"
    using line_start_rep [OF r2 sc2] unfolding whole [symmetric] by (simp only: list.distinct if_False) blast
  have lu: "length ?u = ?k - 1" using kle by simp
  have dp: "drop ?p ?t = drop ?p ?u @ newline # drop ?k ?t"
    using ple lu by (subst whole) simp
  have "takeWhile (\<lambda>c. c \<noteq> newline) (drop ?p ?t) = drop ?p ?u"
    unfolding dp by (rule takeWhile_line) (rule line_begin_drop)
  then have "length (takeWhile (\<lambda>c. c \<noteq> newline) (drop ?p ?t)) = ?k - 1 - ?p"
    using lu by simp
  then have "up_target xs col = ?p + min col (length (takeWhile (\<lambda>c. c \<noteq> newline) (drop ?p ?t)))"
    by (simp only: up_target_def Let_def)
  then obtain g4 where s4: "walk_to_col col g3 = Some g4" and l4: "gb_like g3 g4"
    and r4: "gb_rep g4 (take (up_target xs col) ?t) (drop (up_target xs col) ?t)"
    using walk_to_col_at [OF r3 sc] by blast
  show ?thesis
    using s1 s2 s3 s4 r4 ok kpos gb_like_trans [OF gb_like_trans [OF l1 l2] gb_like_trans [OF l3 l4]]
    by (simp add: gb_up_def)
qed

lemma gb_down_rep:
  assumes rep: "gb_rep g xs (u @ newline # v)" and u: "newline \<notin> set u"
    and sc: "scalars (xs @ u @ newline # v)"
  defines "k \<equiv> line_begin (if v = [] then xs @ u else xs @ u @ [newline])"
  defines "n \<equiv> length (takeWhile (\<lambda>c. c \<noteq> newline) (drop k (xs @ u @ newline # v)))"
  shows "\<exists>g'. gb_down g col = Some g' \<and> gb_like g g' \<and>
     gb_rep g' (take (k + min col n) (xs @ u @ newline # v)) (drop (k + min col n) (xs @ u @ newline # v))"
proof -
  let ?t = "xs @ u @ newline # v"
  have tw: "takeWhile (\<lambda>c. c \<noteq> newline) (u @ newline # v) = u"
    and dw: "dropWhile (\<lambda>c. c \<noteq> newline) (u @ newline # v) = newline # v"
    using takeWhile_line [OF u, of v] takeWhile_eq_all_conv u
    by (simp, induction u) auto
  obtain m1 g1 where s1: "line_end g = Some (m1, g1)" and l1: "gb_like g g1"
    and r1: "gb_rep g1 (xs @ u) (newline # v)"
    using line_end_rep [OF rep] sc tw dw by auto
  obtain g2 where s2: "gb_right g1 = Some (True, g2)" and r2: "gb_rep g2 ((xs @ u) @ [newline]) v"
    and l2: "gb_like g1 g2"
    using gb_right_step [OF r1] .
  have k: "line_begin (if v = [] then butlast ((xs @ u) @ [newline]) else (xs @ u) @ [newline]) = k"
    and t: "((xs @ u) @ [newline]) @ v = ?t"
    by (simp_all add: k_def butlast_append)
  obtain m3 g3 where s3: "line_start g2 = Some (m3, g3)" and l3: "gb_like g2 g3"
    and r3: "gb_rep g3 (take k ?t) (drop k ?t)"
    using line_start_rep [OF r2] sc unfolding k t by blast
  obtain g4 where s4: "walk_to_col col g3 = Some g4" and l4: "gb_like g3 g4"
    and r4: "gb_rep g4 (take (k + min col n) ?t) (drop (k + min col n) ?t)"
    using walk_to_col_at [OF r3 sc, of "k + min col n" col] by (auto simp only: n_def)
  show ?thesis
    using s1 s2 s3 s4 r4 gb_like_trans [OF gb_like_trans [OF l1 l2] gb_like_trans [OF l3 l4]]
    by (simp add: gb_down_def)
qed

section \<open>The padding iterator\<close>

lemma it_next_progress:
  "it_next g it = Some (Some c, it') \<Longrightarrow>
     it_print_idx it < it_num_rows it * it_num_cols it \<and> it_print_idx it' = Suc (it_print_idx it) \<and>
     it_num_rows it' = it_num_rows it \<and> it_num_cols it' = it_num_cols it"
  by (auto simp: it_next_def bind_Some_iff Let_def mul64_def
      split: if_splits option.splits prod.splits)

text \<open>Consuming the iterator to its end, as \<open>for c in text_iter\<close> does.\<close>

function it_drain :: "GapBuffer \<Rightarrow> GapBufferIterator \<Rightarrow> rchar list option" where
  "it_drain g it =
     (case it_next g it of
        None \<Rightarrow> None
      | Some (None, _) \<Rightarrow> Some []
      | Some (Some c, it') \<Rightarrow> map_option (Cons c) (it_drain g it'))"
  by pat_completeness auto
termination
  by (relation "measure (\<lambda>(g, it). it_num_rows it * it_num_cols it - it_print_idx it)")
     (auto dest!: it_next_progress)

declare it_drain.simps [simp del]

text \<open>
  The layout the iterator produces, as a function of the text: a newline fills its row with
  blanks, a tab is four blanks, any other character is itself.
\<close>

fun layout :: "nat \<Rightarrow> nat \<Rightarrow> rchar list \<Rightarrow> rchar list" where
  "layout n pos [] = []"
| "layout n pos (c # cs) =
     (if c = newline then
        let k = Suc (n - Suc pos mod n) in replicate k space @ layout n (pos + k) cs
      else if c = tab then replicate (Suc TAB_LEN) space @ layout n (pos + Suc TAB_LEN) cs
      else c # layout n (Suc pos) cs)"

definition it_pending :: "GapBufferIterator \<Rightarrow> nat" where
  "it_pending it =
     (if it_newline_pad it then it_num_cols it - it_print_idx it mod it_num_cols it
      else it_tab_pad it)"

definition it_ok :: "GapBufferIterator \<Rightarrow> bool" where
  "it_ok it \<longleftrightarrow> it_num_rows it * it_num_cols it < u64_lim \<and> (it_newline_pad it \<longrightarrow> it_tab_pad it = 0)"

lemma pad_count:
  assumes "0 < n"
  shows "n - p mod n = Suc (if Suc p mod n = 0 then 0 else n - Suc p mod n)"
  using assms mod_less_divisor [OF assms, of p] by (auto simp: mod_Suc)

text \<open>One call of \<open>next\<close>, by the state of the padding.\<close>

lemma it_next_pad:
  assumes ok: "it_ok it" and lt: "it_print_idx it < it_num_rows it * it_num_cols it"
    and pad: "0 < it_pending it"
  obtains it' where "it_next g it = Some (Some space, it')" "it_ok it'"
    "it_pending it' = it_pending it - 1" "it_idx it' = it_idx it"
proof -
  let ?it1 = "it\<lparr>it_print_idx := it_print_idx it + 1\<rparr>"
  have nc: "0 < it_num_cols it" using lt by (cases "it_num_cols it") auto
  show ?thesis
  proof (cases "it_newline_pad it")
    case True
    let ?r = "Suc (it_print_idx it) mod it_num_cols it"
    let ?it2 = "if ?r = 0 then ?it1\<lparr>it_newline_pad := False\<rparr> else ?it1"
    have "it_next g it = Some (Some space, ?it2)"
      using lt ok True nc by (simp add: it_next_def it_ok_def panic_simps Let_def)
    then show ?thesis
      using True ok pad_count [OF nc, of "it_print_idx it"]
      by (intro that [of ?it2]) (auto simp: it_pending_def it_ok_def)
  next
    case False
    then show ?thesis
      using ok lt pad by (intro that [of "it\<lparr>it_tab_pad := it_tab_pad it - 1,
                                 it_print_idx := it_print_idx it + 1\<rparr>"])
        (auto simp: it_next_def it_ok_def panic_simps it_pending_def Let_def)
  qed
qed

lemma it_next_text:
  assumes ok: "it_ok it" and lt: "it_print_idx it < it_num_rows it * it_num_cols it"
    and pad: "it_pending it = 0"
  obtains it' where "it_next g it = Some (Some (case gb_get g (it_idx it) of None \<Rightarrow> space
        | Some c \<Rightarrow> if c = newline \<or> c = tab then space else c), it')" "it_ok it'"
    "it_idx it' = Suc (it_idx it)"
    "it_pending it' = (if gb_get g (it_idx it) = Some newline
        then it_num_cols it - Suc (it_print_idx it) mod it_num_cols it
        else if gb_get g (it_idx it) = Some tab then TAB_LEN else 0)"
proof -
  have nc: "0 < it_num_cols it" and nr: "0 < it_num_rows it" using lt by (auto intro!: Nat.gr0I)
  have off: "\<not> it_newline_pad it" "it_tab_pad it = 0"
    using pad mod_less_divisor [OF nc, of "it_print_idx it"] by (auto simp: it_pending_def split: if_splits)
  let ?it = "it\<lparr>it_idx := it_idx it + 1, it_print_idx := it_print_idx it + 1\<rparr>"
  show ?thesis
  proof (cases "gb_get g (it_idx it)")
    case None
    then show ?thesis
      using ok lt off nr by (intro that [of ?it])
        (auto simp: it_next_def it_ok_def panic_simps it_pending_def Let_def)
  next
    case (Some c)
    let ?it' = "if c = newline then ?it\<lparr>it_newline_pad := True\<rparr>
                else if c = tab then ?it\<lparr>it_tab_pad := TAB_LEN\<rparr> else ?it"
    show ?thesis
      using Some ok lt off by (intro that [of ?it'])
        (auto simp: it_next_def it_ok_def panic_simps it_pending_def Let_def)
  qed
qed

lemma it_drain_layout:
  assumes "gb_rep g xs ys" "scalars (xs @ ys)" "it_ok it"
    and "area = it_num_rows it * it_num_cols it" and "area - it_print_idx it \<le> m"
  shows "it_drain g it = Some (take (area - it_print_idx it)
    (replicate (it_pending it) space @
     layout (it_num_cols it) (it_print_idx it + it_pending it) (drop (it_idx it) (xs @ ys)) @
     replicate m space))"
  using assms(3-)
proof (induction "area - it_print_idx it" arbitrary: it m)
  case 0
  then have "it_next g it = Some (None, it)"
    by (simp add: it_next_def it_ok_def panic_simps)
  then show ?case using 0 by (subst it_drain.simps) simp
next
  case (Suc d)
  let ?t = "xs @ ys"
  have lt: "it_print_idx it < it_num_rows it * it_num_cols it" using Suc by simp
  have m: "0 < m" using Suc by simp
  show ?case
  proof (cases "it_pending it = 0")
    case False
    then obtain it' where n: "it_next g it = Some (Some space, it')" and ok': "it_ok it'"
      and p': "it_pending it' = it_pending it - 1" and i': "it_idx it' = it_idx it"
      using it_next_pad [OF Suc.prems(1) lt] by auto
    note pr = it_next_progress [OF n]
    obtain q where q: "it_pending it = Suc q" using False by (cases "it_pending it") auto
    have a: "area - it_print_idx it = Suc (area - it_print_idx it')"
      using Suc.hyps(2) pr by simp
    show ?thesis
      unfolding a q using Suc.hyps(1) [of it' m] Suc.hyps(2) Suc.prems ok' n p' i' pr q
      by (subst it_drain.simps) auto
  next
    case True
    from it_next_text [OF Suc.prems(1) lt True, of g] obtain it' where
      n: "it_next g it = Some (Some (case gb_get g (it_idx it) of None \<Rightarrow> space
        | Some c \<Rightarrow> if c = newline \<or> c = tab then space else c), it')" and ok': "it_ok it'"
      and i': "it_idx it' = Suc (it_idx it)"
      and p': "it_pending it' = (if gb_get g (it_idx it) = Some newline
        then it_num_cols it - Suc (it_print_idx it) mod it_num_cols it
        else if gb_get g (it_idx it) = Some tab then TAB_LEN else 0)" .
    note pr = it_next_progress [OF n]
    have a: "area - it_print_idx it = Suc (area - it_print_idx it')"
      using Suc.hyps(2) pr by simp
    show ?thesis
    proof (cases "it_idx it < length ?t")
      case False
      then have g0: "gb_get g (it_idx it) = None" using gb_rep_get_end [OF assms(1)] by simp
      have "take (area - it_print_idx it) (replicate m space) =
          space # take (area - it_print_idx it') (replicate (m - 1) space)"
        unfolding a using m by (cases m) auto
      then show ?thesis
        using Suc.hyps(1) [of it' "m - 1"] Suc.hyps(2) Suc.prems ok' n p' i' pr False g0 True
        by (subst it_drain.simps) simp
    next
      case lt: True
      define c where "c = ?t ! it_idx it"
      have "is_scalar c" using assms(2) nth_mem [OF lt] by (simp add: c_def scalars_def)
      then have g0: "gb_get g (it_idx it) = Some c"
        using gb_rep_get [OF assms(1), of "it_idx it"] lt by (simp add: c_def char_from_u32_def)
      have d: "drop (it_idx it) ?t = c # drop (it_idx it') ?t"
        using drop_Suc_nth [OF lt] i' by (simp only: c_def)
      show ?thesis
        unfolding d a True using Suc.hyps(1) [of it' m] Suc.hyps(2) Suc.prems ok' n p' pr g0
        by (subst it_drain.simps) (auto simp: Let_def add.assoc)
    qed
  qed
qed

section \<open>The cursor on the screen\<close>

lemma cursor_location_loop_bounds:
  "cursor_location_loop g nr nc i row col = Some (r, c) \<Longrightarrow> row < nr \<Longrightarrow> col < nc \<Longrightarrow>
     r < nr \<and> c < nc"
proof (induction g nr nc i row col rule: cursor_location_loop.induct)
  case (1 g nr nc i row col)
  show ?case
  proof (cases "i < gb_cursor g")
    case False
    then show ?thesis using "1.prems" by (subst (asm) cursor_location_loop.simps) simp
  next
    case True
    then show ?thesis
      using "1.prems" "1.IH" [OF True]
      by (subst (asm) cursor_location_loop.simps) (auto simp: Let_def split: option.splits if_splits)
  qed
qed

lemma cursor_location_bounds:
  "cursor_location g scroll nr nc = Some (r, c) \<Longrightarrow> r < nr \<and> c < nc"
  by (auto simp: cursor_location_def dest: cursor_location_loop_bounds split: if_splits)

section \<open>Properties\<close>

text \<open>
  C26. Refinement of editing. From any well-formed gap buffer, a sequence of insertions,
  backspaces and cursor moves with fewer insertions than the gap has room for never panics,
  keeps the buffer well formed, and has exactly the effect of the same edits on the pair of
  lists before and after the cursor.
\<close>

theorem gb_edits_refine:
  assumes "gb_inv g" and "insertions es < gb_gap g"
  shows "\<exists>g'. run_edits gb_insert gb_backspace gb_move_left gb_move_right es g = Some g' \<and>
     gb_inv g' \<and> gb_halves g' = edits_spec es (gb_halves g)"
  using gap_text.run_edits_refines [OF assms] by simp

definition sample_gb :: GapBuffer where
  "sample_gb = \<lparr>gb_buffer = [97, 10, 98, 0, 0, 0, 99], gb_cursor = 3, gb_gap = 3,
     gb_gap_size = 3, gb_lineno = 1, gb_line_start = 2, gb_debug = False\<rparr>"

lemma sample_gb_simps [simp]:
  "gb_inv sample_gb" "gb_gap sample_gb = 3" "gb_gap_size sample_gb = 3" "gb_cursor sample_gb = 3"
  "gb_before sample_gb = [97, 10, 98]" "gb_after sample_gb = [99]"
  "gb_halves sample_gb = ([97, 10, 98], [99])" "gb_text sample_gb = [97, 10, 98, 99]"
  "scalars [97, 10, 98, 99]" "gb_line_start sample_gb = 2" "gb_line_ok sample_gb"
  by (simp_all add: sample_gb_def gb_inv_def gb_before_def gb_after_def gb_halves_def
      gb_text_def is_scalar_def gb_line_ok_def line_begin_def)

theorem gb_edits_refine_witness:
  "\<exists>g'. run_edits gb_insert gb_backspace gb_move_left gb_move_right
      [Ins 120, Lft, Bsp, Rgt, Ins 121] sample_gb = Some g' \<and>
     gb_inv g' \<and> gb_halves g' = ([97, 10, 120, 121], [99])"
  using gb_edits_refine [of sample_gb "[Ins 120, Lft, Bsp, Rgt, Ins 121]"] by simp

text \<open>
  Round trip of construction. A gap buffer made from an ASCII text with a positive gap
  is well formed, has the cursor at the end of the text, knows where its last line starts,
  and reads back as exactly that text.
\<close>

theorem gb_new_roundtrip:
  assumes "ascii s" and "0 < n"
  shows "\<exists>g. gb_new s n = Some g \<and> gb_inv g \<and> gb_halves g = (s, []) \<and> gb_gap g = n \<and>
     gb_line_ok g \<and> gb_to_string g = s"
proof -
  obtain g where g: "gb_new s n = Some g" and rep: "gb_rep g s []" and gap: "gb_gap g = n"
    and ls: "gb_line_start g = line_begin s"
    using gb_new_rep [of s n] assms by auto
  have "\<forall>c \<in> set s. is_scalar c"
    using assms(1) by (auto simp: ascii_def ascii_scalar)
  then have "gb_to_string g = s" using gb_rep_to_string [OF rep] by simp
  then show ?thesis
    using g gap ls gb_halves_rep [OF rep] by (simp add: gb_line_ok_def gb_repD(2) [OF rep])
qed

theorem gb_new_roundtrip_witness:
  "\<exists>g. gb_new [104, 105, 10] 8 = Some g \<and> gb_inv g \<and> gb_halves g = ([104, 105, 10], []) \<and>
     gb_gap g = 8 \<and> gb_line_ok g \<and> gb_to_string g = [104, 105, 10]"
  using gb_new_roundtrip [of "[104, 105, 10]" 8] by simp

text \<open>
  Growth at the end of the text. When nothing follows the cursor, inserting a character
  succeeds however full the gap is: the buffer reallocates and the text only gains that
  character.
\<close>

theorem gb_insert_at_end:
  assumes "gb_inv g" and "gb_after g = []" and "0 < gb_gap_size g"
  shows "\<exists>g'. gb_insert g c = Some g' \<and> gb_inv g' \<and> gb_halves g' = (gb_before g @ [c], [])"
proof -
  have rep: "gb_rep g (gb_before g) []" using assms(1,2) gb_inv_rep [of g] by simp
  have "gb_can_insert g" using assms by (simp add: gb_can_insert_def)
  from gb_rep_insert [OF rep this, of c] obtain g' where
    "gb_insert g c = Some g'" "gb_rep g' (gb_before g @ [c]) []" by metis
  then show ?thesis using gb_halves_rep by blast
qed

definition full_gb :: GapBuffer where
  "full_gb = \<lparr>gb_buffer = [97, 98], gb_cursor = 2, gb_gap = 0, gb_gap_size = 2,
     gb_lineno = 0, gb_line_start = 0, gb_debug = False\<rparr>"

theorem gb_insert_at_end_witness:
  "\<exists>g'. gb_insert full_gb 99 = Some g' \<and> gb_inv g' \<and> gb_halves g' = ([97, 98, 99], [])"
  using gb_insert_at_end [of full_gb 99]
  by (simp add: full_gb_def gb_inv_def gb_after_def gb_before_def)

text \<open>
  The line scan is right. In a well-formed, non-empty gap buffer \<open>find_line_start\<close>
  returns the index just after the last newline before the cursor, or 0 when there is none.
\<close>

theorem find_line_start_correct:
  assumes "gb_inv g" and "gb_buffer g \<noteq> []"
  shows "find_line_start g = Some (line_begin (gb_before g))"
  using gb_rep_find_line_start assms gb_inv_rep by blast

theorem find_line_start_correct_witness: "find_line_start sample_gb = Some 2"
  using find_line_start_correct [of sample_gb]
  by (simp add: line_begin_def) (simp add: sample_gb_def)

text \<open>
  One line up. With text after the cursor, or with a cursor that is not right after a
  final newline, \<open>up\<close> keeps the text and puts the cursor in the line before, at the wanted
  column or at the end of that line when it is shorter; in the first line it does nothing.
\<close>

theorem gb_up_moves:
  assumes inv: "gb_inv g" and sc: "scalars (gb_text g)" and ok: "gb_line_ok g"
    and pos: "gb_after g = [] \<Longrightarrow> gb_before g \<noteq> [] \<Longrightarrow> last (gb_before g) \<noteq> newline"
  shows "\<exists>g'. gb_up g col = Some g' \<and> gb_inv g' \<and> gb_line_ok g' \<and> gb_text g' = gb_text g \<and>
     gb_cursor g' = (if newline \<in> set (gb_before g) then up_target (gb_before g) col else gb_cursor g)"
proof (cases "newline \<in> set (gb_before g)")
  case False
  then have "gb_up g col = Some g" using ok by (simp add: gb_up_def gb_line_ok_def line_begin_0)
  then show ?thesis using False inv ok by simp
next
  case True
  have rep: "gb_rep g (gb_before g) (gb_after g)" using inv gb_inv_rep by blast
  obtain g' where u: "gb_up g col = Some g'" and like: "gb_like g g'"
    and rep': "gb_rep g' (take (up_target (gb_before g) col) (gb_text g))
                 (drop (up_target (gb_before g) col) (gb_text g))"
    using gb_up_rep [OF rep] sc ok pos True unfolding gb_text_def gb_line_ok_def by fastforce
  have le: "up_target (gb_before g) col \<le> length (gb_text g)"
    using line_begin_le [of "gb_before g"]
      line_begin_le [of "take (line_begin (gb_before g) - 1) (gb_before g)"]
    by (auto simp: up_target_def gb_text_def Let_def)
  have "gb_cursor g' = up_target (gb_before g) col"
    using rep' le by (simp add: gb_rep_def)
  moreover have "gb_text g' = gb_text g" and "gb_inv g'"
    using gb_repD [OF rep'] by (simp_all add: gb_text_def [of g'])
  ultimately show ?thesis using u True gb_like_line_ok [OF like ok] by simp
qed

theorem gb_up_moves_witness:
  "\<exists>g'. gb_up sample_gb 5 = Some g' \<and> gb_inv g' \<and> gb_line_ok g' \<and>
     gb_text g' = [97, 10, 98, 99] \<and> gb_cursor g' = 1"
proof -
  have "up_target [97, 10, 98] 5 = 1" by (simp add: up_target_def line_begin_def)
  then show ?thesis using gb_up_moves [of sample_gb 5] by (simp add: is_scalar_def)
qed

text \<open>
  One line down. When the next line is not the empty one after a final newline, \<open>down\<close>
  keeps the text and puts the cursor in the next line, at the wanted column or at the end of
  that line when it is shorter.
\<close>

theorem gb_down_moves:
  assumes inv: "gb_inv g" and sc: "scalars (gb_text g)"
    and nxt: "gb_after g = u @ newline # v" "newline \<notin> set u" "v \<noteq> []"
  shows "\<exists>g'. gb_down g col = Some g' \<and> gb_inv g' \<and> gb_text g' = gb_text g \<and>
     gb_cursor g' = length (gb_before g @ u) + 1 +
       min col (length (takeWhile (\<lambda>c. c \<noteq> newline) v))"
proof -
  let ?xs = "gb_before g"
  have rep: "gb_rep g ?xs (u @ newline # v)" using inv gb_inv_rep nxt(1) by metis
  let ?k = "length (?xs @ u) + 1"
  let ?j = "?k + min col (length (takeWhile (\<lambda>c. c \<noteq> newline) v))"
  have k: "line_begin (if v = [] then ?xs @ u else ?xs @ u @ [newline]) = ?k"
    using line_begin_snoc [of "?xs @ u" newline] nxt(3) by simp
  have d: "drop ?k (?xs @ u @ newline # v) = v" by simp
  have sc': "scalars (?xs @ u @ newline # v)" using sc nxt(1) by (simp add: gb_text_def)
  obtain g' where dn: "gb_down g col = Some g'"
    and rep': "gb_rep g' (take ?j (gb_text g)) (drop ?j (gb_text g))"
    using gb_down_rep [OF rep nxt(2) sc', of col] unfolding k d by (auto simp: gb_text_def nxt(1))
  have le: "?j \<le> length (gb_text g)"
    using length_takeWhile_le [of "\<lambda>c. c \<noteq> newline" v] by (simp add: gb_text_def nxt(1))
  have "gb_cursor g' = ?j" using rep' le by (simp add: gb_rep_def)
  moreover have "gb_text g' = gb_text g" and "gb_inv g'"
    using gb_repD [OF rep'] by (simp_all add: gb_text_def [of g'])
  ultimately show ?thesis using dn by blast
qed

definition two_lines_gb :: GapBuffer where
  "two_lines_gb = \<lparr>gb_buffer = [97, 0, 0, 98, 10, 99], gb_cursor = 1, gb_gap = 2,
     gb_gap_size = 2, gb_lineno = 0, gb_line_start = 0, gb_debug = False\<rparr>"

theorem gb_down_moves_witness:
  "\<exists>g'. gb_down two_lines_gb 1 = Some g' \<and> gb_inv g' \<and>
     gb_text g' = [97, 98, 10, 99] \<and> gb_cursor g' = 4"
proof -
  have f: "gb_inv two_lines_gb" "gb_before two_lines_gb = [97]" "gb_after two_lines_gb = [98] @ newline # [99]"
    "gb_text two_lines_gb = [97, 98, 10, 99]" "scalars [97, 98, 10, 99]"
    by (simp_all add: two_lines_gb_def gb_inv_def gb_text_def gb_before_def gb_after_def is_scalar_def)
  show ?thesis
    using gb_down_moves [OF f(1) _ f(3), of 1] f(2,4,5) by (simp del: One_nat_def)
qed

text \<open>
  Layout of the visible rows. The padding iterator over a well-formed buffer ends after
  exactly \<open>num_rows * num_cols\<close> characters, and these are the laid-out text from the given
  offset (a newline fills its row, a tab is four blanks) padded with blanks.
\<close>

theorem gb_iter_layout:
  assumes inv: "gb_inv g" and sc: "scalars (gb_text g)" and area: "rows * cols < u64_lim"
  shows "it_drain g (gb_iter_at_offset g rows cols off) =
     Some (take (rows * cols)
       (layout cols 0 (drop off (gb_text g)) @ replicate (rows * cols) space))"
proof -
  let ?it = "gb_iter_at_offset g rows cols off"
  have f: "it_num_rows ?it = rows" "it_num_cols ?it = cols" "it_print_idx ?it = 0"
    "it_idx ?it = off" "it_pending ?it = 0" "it_ok ?it"
    using area by (simp_all add: gb_iter_at_offset_def it_new_def it_pending_def it_ok_def)
  have rep: "gb_rep g (gb_before g) (gb_after g)" using inv gb_inv_rep by blast
  show ?thesis
    using it_drain_layout [OF rep sc [unfolded gb_text_def] f(6), of "rows * cols" "rows * cols"] f
    unfolding gb_text_def by simp
qed

theorem gb_iter_layout_witness:
  "it_drain sample_gb (gb_iter_at_offset sample_gb 2 3 0) = Some [97, 32, 32, 98, 99, 32]"
proof -
  have area: "2 * 3 < u64_lim" by (simp add: u64_lim_def)
  have "take (2 * 3) (layout 3 0 (drop 0 [97, 10, 98, 99]) @ replicate (2 * 3) space) =
      [97, 32, 32, 98, 99, 32]" by code_simp
  then show ?thesis
    using gb_iter_layout [OF _ _ area, of sample_gb 0] by (simp add: is_scalar_def)
qed

text \<open>
  The cursor is drawn inside the text area: a location that \<open>cursor_location\<close> returns
  is within the given rows and columns.
\<close>

theorem cursor_location_in_area:
  assumes "cursor_location g scroll num_rows num_cols = Some (r, c)"
  shows "r < num_rows \<and> c < num_cols"
  using assms by (rule cursor_location_bounds)

theorem cursor_location_in_area_witness:
  "cursor_location sample_gb 0 4 3 = Some (1, 1) \<and> (1::nat) < 4 \<and> (1::nat) < 3"
proof -
  have e: "cursor_location sample_gb 0 4 3 = Some (1, 1)"
    by (simp add: cursor_location_def sample_gb_def cursor_location_loop.simps gb_get_def
        vec_get_def char_from_u32_def is_scalar_def)
  show ?thesis using cursor_location_in_area [OF e] e by simp
qed

section \<open>Where the code departs from its intention\<close>

text \<open>
  Replacing the text leaves an unusable buffer. After \<open>set_text\<close> the cursor is at the end
  of the buffer, behind the gap, so with a positive gap size the next insertion panics.
\<close>

theorem gb_set_text_breaks_insert:
  assumes "gb_set_text g text = Some g'" and "0 < gb_gap_size g"
  shows "\<not> gb_inv g' \<and> gb_insert g' c = None"
  using assms
  by (auto simp: gb_set_text_def bind_Some_iff Let_def gb_insert_def idx_def gb_inv_def)

theorem gb_set_text_breaks_insert_witness:
  "\<exists>g'. gb_set_text full_gb [120] = Some g' \<and> \<not> gb_inv g' \<and> gb_insert g' 121 = None"
proof -
  have "gb_set_text full_gb [120] \<noteq> None" by code_simp
  then obtain g' where "gb_set_text full_gb [120] = Some g'" by blast
  with gb_set_text_breaks_insert [OF this, of 121] show ?thesis
    by (simp add: full_gb_def)
qed

text \<open>
  Reallocation in the middle of the text panics. With an exhausted gap, text after the
  cursor and at least \<open>gap_size\<close> characters before it, inserting a character writes past
  the end of the enlarged buffer.
\<close>

theorem gb_insert_realloc_panics:
  assumes "gb_inv g" and "gb_gap g = 0" and "gb_after g \<noteq> []"
    and "0 < gb_gap_size g" and "gb_gap_size g \<le> gb_cursor g"
  shows "gb_insert g c = None"
proof -
  have "gb_cursor g < length (gb_buffer g)" using assms(2,3) by (simp add: gb_after_def)
  moreover obtain n where "gb_gap_size g = Suc n" using assms(4) gr0_implies_Suc by blast
  ultimately have "gb_realloc g = None"
    using assms by (simp add: gb_realloc_def panic_simps)
  then show ?thesis using assms(2) by (simp add: gb_insert_def)
qed

definition exhausted_gb :: GapBuffer where
  "exhausted_gb = \<lparr>gb_buffer = [97, 98, 99], gb_cursor = 2, gb_gap = 0, gb_gap_size = 2,
     gb_lineno = 0, gb_line_start = 0, gb_debug = False\<rparr>"

theorem gb_insert_realloc_panics_witness: "gb_insert exhausted_gb 120 = None"
  using gb_insert_realloc_panics [of exhausted_gb 120]
  by (simp add: exhausted_gb_def gb_inv_def gb_after_def)

text \<open>
  Backspacing over a newline loses track of the line. With room in the gap, \<open>backspace\<close>
  reads the gap instead of the deleted character, so deleting a newline keeps both the line
  number and the recorded line start, which is then wrong.
\<close>

theorem gb_backspace_newline_stale:
  assumes inv: "gb_inv g" and ok: "gb_line_ok g" and gap: "0 < gb_gap g"
    and nl: "gb_before g = xs @ [newline]"
  shows "\<exists>g'. gb_backspace g = Some g' \<and> gb_before g' = xs \<and> gb_lineno g' = gb_lineno g \<and>
     \<not> gb_line_ok g'"
proof -
  have rep: "gb_rep g (xs @ [newline]) (gb_after g)" using inv gb_inv_rep nl by metis
  from gb_rep_backspace [OF rep] gap obtain g' where b: "gb_backspace g = Some g'"
    and rep': "gb_rep g' xs (gb_after g)" and ls: "gb_line_start g' = gb_line_start g"
    and no: "gb_lineno g' = gb_lineno g" by metis
  have "gb_line_start g = Suc (length xs)" using ok nl by (simp add: gb_line_ok_def)
  then have "\<not> gb_line_ok g'"
    using ls gb_repD(2) [OF rep'] line_begin_le [of xs] by (simp add: gb_line_ok_def)
  then show ?thesis using b no gb_repD(2) [OF rep'] by blast
qed

definition newline_gb :: GapBuffer where
  "newline_gb = \<lparr>gb_buffer = [97, 10, 0, 0], gb_cursor = 2, gb_gap = 2,
     gb_gap_size = 2, gb_lineno = 1, gb_line_start = 2, gb_debug = False\<rparr>"

theorem gb_backspace_newline_stale_witness:
  "\<exists>g'. gb_backspace newline_gb = Some g' \<and> gb_before g' = [97] \<and> gb_lineno g' = 1 \<and>
     \<not> gb_line_ok g'"
  using gb_backspace_newline_stale [of newline_gb "[97]"]
  by (simp add: newline_gb_def gb_inv_def gb_line_ok_def gb_before_def line_begin_def)

text \<open>The delete key at the end of the text deletes the character before the cursor.\<close>

lemma gb_delete_at_end:
  assumes "gb_inv g" and "gb_after g = []" and "0 < gb_gap g"
  shows "\<exists>g'. gb_delete g = Some g' \<and> gb_halves g' = (butlast (gb_before g), [])"
proof -
  have rep: "gb_rep g (gb_before g) []" using assms(1,2) gb_inv_rep [of g] by simp
  show ?thesis
    using gap_text.bsp_law [OF assms(1,3)] gb_right_stop [OF rep] assms(2)
    by (auto simp: gb_delete_def gb_halves_def)
qed

text \<open>Moving left over a newline counts the line number up, and moving right down.\<close>

lemma gb_left_lineno:
  assumes "gb_rep g (xs @ [newline]) ys"
  shows "\<exists>g'. gb_left g = Some (True, g') \<and> gb_lineno g' = Suc (gb_lineno g)"
  by (simp add: gb_rep_left [OF assms])

text \<open>
  Moving up from the empty line after a final newline skips a line, and moving down to it
  stays in the current line.
\<close>

lemma gb_up_skips_line:
  "map_option gb_cursor (gb_new [120, 10, 97, 10] 4 \<bind> (\<lambda>g. gb_up g 0)) = Some 0"
  by code_simp

lemma gb_down_stays:
  assumes "gb_inv g" and "scalars (gb_text g)" and "gb_after g = [newline]"
  shows "\<exists>g'. gb_down g 0 = Some g' \<and> gb_cursor g' = line_begin (gb_before g)"
proof -
  have rep: "gb_rep g (gb_before g) ([] @ newline # [])" using assms(1,3) gb_inv_rep [of g] by simp
  have sc: "scalars (gb_before g @ [] @ newline # [])" using assms(2,3) by (simp add: gb_text_def)
  show ?thesis
    using gb_down_rep [OF rep _ sc, of 0] line_begin_le [of "gb_before g"]
    by (auto simp: gb_rep_def)
qed

text \<open>
  A newline in the last column fills a whole further row with blanks, while
  \<open>cursor_location\<close> counts no such row: the cursor is drawn one row above its character.
\<close>

lemma gb_layout_cursor_mismatch:
  "(case gb_new [97, 98, 10, 99] 4 of None \<Rightarrow> None
    | Some g \<Rightarrow> Some (it_drain g (gb_iter_at_offset g 3 3 0), cursor_location g 0 3 3)) =
   Some (Some [97, 98, 32, 32, 32, 32, 99, 32, 32], Some (1, 1))"
  by code_simp

end
