(* ===== verification/Text_Forms.thy ===== *)
theory Text_Forms
  imports Simple_Forms Gap_Navigation
begin

text \<open>
  The forms that edit text: the text line (\<open>src/ui/forms/textline.rs\<close>) over a plain string and
  the text area (\<open>src/ui/forms/textarea.rs\<close>) over the gap buffer, with their key handling.
\<close>

section \<open>The text line\<close>

record TextLine =
  tl_element_id :: u128
  tl_viewport_id :: u128
  tl_row :: coord
  tl_col :: coord
  tl_cursor :: usize
  tl_bg_color :: Color
  tl_fg_color :: Color
  tl_focused_bg_color :: Color
  tl_focused_fg_color :: Color
  tl_inner_text :: "rchar list"
  tl_max_len :: usize
  tl_insert :: bool

definition tl_new_detached :: "rchar list \<Rightarrow> usize \<Rightarrow> TextLine option" where
  "tl_new_detached text max_len =
     do { black \<leftarrow> color_from_u32 0;
          white \<leftarrow> color_from_u32 0xffffff;
          Some \<lparr>tl_element_id = 0, tl_viewport_id = 0, tl_row = 0, tl_col = 0, tl_cursor = 0,
                tl_bg_color = black, tl_fg_color = white, tl_focused_bg_color = white,
                tl_focused_fg_color = black, tl_inner_text = text, tl_max_len = max_len, tl_insert = True\<rparr> }"

definition tl_set_text :: "TextLine \<Rightarrow> rchar list \<Rightarrow> TextLine" where
  "tl_set_text s str = s\<lparr>tl_inner_text := str\<rparr>"

definition tl_focus :: "TextLine \<Rightarrow> ('f, 'v) Root \<Rightarrow> bool \<Rightarrow> (UiError, ('f, 'v) Root) outcome" where
  "tl_focus s root focused =
     set_cursor_if focused root (tl_viewport_id s) (Some (tl_row s)) (add64 (tl_col s) (tl_cursor s))"

definition tl_from_clarity_value :: "'v clarity \<Rightarrow> u128 \<Rightarrow> 'v \<Rightarrow> (UiError, TextLine) outcome" where
  "tl_from_clarity_value V viewport_id v =
     obind (expect_tuple V v) (\<lambda>t.
     obind (get_utf8 V t ''text'') (\<lambda>text.
     obind (get_u128 V t ''row'') (\<lambda>row.
     obind (get_u128 V t ''col'') (\<lambda>col.
     obind (get_u128 V t ''max-len'') (\<lambda>max_len.
     obind (get_color_u128 V t ''bg-color'') (\<lambda>bg.
     obind (get_color_u128 V t ''fg-color'') (\<lambda>fg.
     obind (get_color_u128 V t ''focused-bg-color'') (\<lambda>fbg.
     obind (get_color_u128 V t ''focused-fg-color'') (\<lambda>ffg.
     obind (get_u128 V t ''element-id'') (\<lambda>element_id.
     obind (to_color bg) (\<lambda>bg.
     obind (to_color fg) (\<lambda>fg.
     obind (to_color fbg) (\<lambda>fbg.
     obind (to_color ffg) (\<lambda>ffg.
     obind (to_u64 row ''row too big'') (\<lambda>row.
     obind (to_u64 col ''col too big'') (\<lambda>col.
     obind (to_u64 max_len ''max-len too big'') (\<lambda>max_len.
     Ok \<lparr>tl_element_id = element_id, tl_viewport_id = viewport_id, tl_row = row, tl_col = col,
         tl_cursor = 0, tl_bg_color = bg, tl_fg_color = fg, tl_focused_bg_color = fbg,
         tl_focused_fg_color = ffg, tl_inner_text = text, tl_max_len = max_len,
         tl_insert = True\<rparr>)))))))))))))))))"

definition ok_opt :: "('e, 'a) outcome \<Rightarrow> ('f, 'a option) outcome" where
  "ok_opt m = (case m of Ok x \<Rightarrow> Ok (Some x) | Err _ \<Rightarrow> Ok None | Panic \<Rightarrow> Panic)"

definition tl_to_clarity_value :: "'v clarity \<Rightarrow> TextLine \<Rightarrow> (UiError, 'v option) outcome" where
  "tl_to_clarity_value V s = ok_opt (cl_string_utf8 V (tl_inner_text s))"

text \<open>\<open>format!("{:width$}", s)\<close>: padded with spaces to a number of characters.\<close>

definition pad_to :: "nat \<Rightarrow> rchar list \<Rightarrow> rchar list" where
  "pad_to w s = s @ replicate (w - length s) space"

definition tl_render ::
  "TextLine \<Rightarrow> ('f, 'v) Root \<Rightarrow> coord \<times> coord \<Rightarrow> (UiError, ('f, 'v) Root \<times> (coord \<times> coord)) outcome" where
  "tl_render s root cursor =
     (let focused = is_focused root (tl_element_id s);
          bg = (if focused then tl_focused_bg_color s else tl_bg_color s);
          fg = (if focused then tl_focused_fg_color s else tl_fg_color s) in
      obind (on_viewport root (tl_viewport_id s)
        (\<lambda>vp. let (vp_rows, vp_cols) = vp_dims vp;
                  max_viewable_cols = min (vp_cols - tl_col s) (tl_max_len s);
                  padded_text = pad_to max_viewable_cols (tl_inner_text s)
              in vp_print_to vp (tl_element_id s) (tl_row s) (tl_col s) bg fg padded_text)) (\<lambda>(root, new_cursor).
      obind (set_cursor_if focused root (tl_viewport_id s) (Some (tl_row s)) (add64 (tl_col s) (tl_cursor s))) (\<lambda>root.
      Ok (root, new_cursor))))"

text \<open>The loops over the characters: skip one, or put one in front of (or over) another.\<close>

fun skip_char :: "nat \<Rightarrow> nat \<Rightarrow> rchar list \<Rightarrow> rchar list" where
  "skip_char j i [] = []"
| "skip_char j i (c # cs) = (if i = j then skip_char j (i + 1) cs else c # skip_char j (i + 1) cs)"

fun put_char :: "bool \<Rightarrow> rchar \<Rightarrow> nat \<Rightarrow> nat \<Rightarrow> rchar list \<Rightarrow> rchar list" where
  "put_char ins ch j i [] = []"
| "put_char ins ch j i (c # cs) =
     (if i = j then (if ins then ch # c # put_char ins ch j (i + 1) cs else ch # put_char ins ch j (i + 1) cs)
      else c # put_char ins ch j (i + 1) cs)"

text \<open>\<open>String::with_capacity\<close> panics beyond the largest allocation, \<open>isize::MAX\<close> bytes.\<close>

definition with_capacity :: "usize \<Rightarrow> unit option" where
  "with_capacity n = (if n < 2 ^ 63 then Some () else None)"

definition tl_key :: "TextLine \<Rightarrow> Key \<Rightarrow> TextLine option" where
  "tl_key s key =
     (let cursor = tl_cursor s; text = tl_inner_text s in
      case key of
        KLeft \<Rightarrow> Some (s\<lparr>tl_cursor := cursor - 1\<rparr>)
      | KRight \<Rightarrow> Some (s\<lparr>tl_cursor := min (min (cursor + 1) (str_len text)) (tl_max_len s)\<rparr>)
      | KInsert \<Rightarrow> Some (s\<lparr>tl_insert := \<not> tl_insert s\<rparr>)
      | KHome \<Rightarrow> Some (s\<lparr>tl_cursor := 0\<rparr>)
      | KEnd \<Rightarrow> Some (s\<lparr>tl_cursor := str_len text\<rparr>)
      | KChar c \<Rightarrow>
          if c \<noteq> newline \<and> c \<noteq> 13 then
            (if cursor = str_len text \<and> str_len text < tl_max_len s
             then Some (s\<lparr>tl_inner_text := text @ [c], tl_cursor := cursor + 1\<rparr>)
             else if str_len text < tl_max_len s
             then do { _ \<leftarrow> with_capacity (tl_max_len s);
                       Some (s\<lparr>tl_inner_text := put_char (tl_insert s) c cursor 0 text, tl_cursor := cursor + 1\<rparr>) }
             else Some s)
          else Some s
      | _ \<Rightarrow>
          if key = KBackspace \<or> key = KCtrl 104 then
            (if cursor > 0
             then do { _ \<leftarrow> with_capacity (tl_max_len s);
                       Some (s\<lparr>tl_inner_text := skip_char (cursor - 1) 0 text, tl_cursor := cursor - 1\<rparr>) }
             else Some s)
          else if key = KDelete \<or> key = KCtrl 63 then
            (if cursor < str_len text
             then do { _ \<leftarrow> with_capacity (tl_max_len s); Some (s\<lparr>tl_inner_text := skip_char cursor 0 text\<rparr>) }
             else Some s)
          else Some s)"

definition tl_handle_event ::
  "TextLine \<Rightarrow> ('f, 'v) Root \<Rightarrow> WrbFormEvent \<Rightarrow> (UiError, TextLine \<times> ('f, 'v) Root \<times> 'v option) outcome" where
  "tl_handle_event s root event =
     (case event of Keypress key \<Rightarrow>
        obind (from_opt (tl_key s key)) (\<lambda>s.
        obind (tl_focus s root (is_focused root (tl_element_id s))) (\<lambda>root. Ok (s, root, None))))"

section \<open>The text area\<close>

record TextArea =
  ta_element_id :: u128
  ta_viewport_id :: u128
  ta_row :: coord
  ta_col :: coord
  ta_num_rows :: coord
  ta_num_cols :: coord
  ta_bg_color :: Color
  ta_fg_color :: Color
  ta_focused_bg_color :: Color
  ta_focused_fg_color :: Color
  ta_inner_text :: GapBuffer
  ta_max_len :: usize
  ta_insert :: bool
  ta_scroll :: usize
  ta_cursor_col :: usize

definition ta_new_detached :: "rchar list \<Rightarrow> coord \<Rightarrow> coord \<Rightarrow> usize \<Rightarrow> TextArea option" where
  "ta_new_detached text num_rows num_cols max_len =
     do { black \<leftarrow> color_from_u32 0;
          white \<leftarrow> color_from_u32 0xffffff;
          g \<leftarrow> gb_new text GAP_SIZE;
          Some \<lparr>ta_element_id = 0, ta_viewport_id = 0, ta_row = 0, ta_col = 0, ta_num_rows = num_rows,
                ta_num_cols = num_cols, ta_bg_color = black, ta_fg_color = white,
                ta_focused_bg_color = white, ta_focused_fg_color = black, ta_inner_text = g,
                ta_max_len = max_len, ta_insert = True, ta_scroll = 0, ta_cursor_col = 0\<rparr> }"

definition ta_text :: "TextArea \<Rightarrow> rchar list" where
  "ta_text s = gb_to_string (ta_inner_text s)"

definition ta_set_text :: "TextArea \<Rightarrow> rchar list \<Rightarrow> TextArea option" where
  "ta_set_text s str = do { g \<leftarrow> gb_set_text (ta_inner_text s) str; Some (s\<lparr>ta_inner_text := g\<rparr>) }"

definition ta_show_cursor ::
  "bool \<Rightarrow> TextArea \<Rightarrow> ('f, 'v) Root \<Rightarrow> (UiError, ('f, 'v) Root) outcome" where
  "ta_show_cursor focused s root =
     (if focused then
        (case cursor_location (ta_inner_text s) (ta_scroll s) (ta_num_rows s) (ta_num_cols s) of
           None \<Rightarrow> Ok root
         | Some (cursor_row, cursor_column) \<Rightarrow>
             set_cursor_if True root (ta_viewport_id s) (add64 (ta_row s) cursor_row) (add64 (ta_col s) cursor_column))
      else Ok root)"

definition ta_focus :: "TextArea \<Rightarrow> ('f, 'v) Root \<Rightarrow> bool \<Rightarrow> (UiError, ('f, 'v) Root) outcome" where
  "ta_focus s root focused = ta_show_cursor focused s root"

definition ta_from_clarity_value :: "'v clarity \<Rightarrow> u128 \<Rightarrow> 'v \<Rightarrow> (UiError, TextArea) outcome" where
  "ta_from_clarity_value V viewport_id v =
     obind (expect_tuple V v) (\<lambda>t.
     obind (get_utf8 V t ''text'') (\<lambda>text.
     obind (get_u128 V t ''row'') (\<lambda>row.
     obind (get_u128 V t ''col'') (\<lambda>col.
     obind (get_u128 V t ''num-rows'') (\<lambda>num_rows.
     obind (get_u128 V t ''num-cols'') (\<lambda>num_cols.
     obind (get_u128 V t ''max-len'') (\<lambda>max_len.
     obind (get_color_u128 V t ''bg-color'') (\<lambda>bg.
     obind (get_color_u128 V t ''fg-color'') (\<lambda>fg.
     obind (get_color_u128 V t ''focused-bg-color'') (\<lambda>fbg.
     obind (get_color_u128 V t ''focused-fg-color'') (\<lambda>ffg.
     obind (get_u128 V t ''element-id'') (\<lambda>element_id.
     obind (to_color bg) (\<lambda>bg.
     obind (to_color fg) (\<lambda>fg.
     obind (to_color fbg) (\<lambda>fbg.
     obind (to_color ffg) (\<lambda>ffg.
     obind (to_u64 row ''row too big'') (\<lambda>row.
     obind (to_u64 col ''col too big'') (\<lambda>col.
     obind (to_u64 num_rows ''num-rows too big'') (\<lambda>num_rows.
     obind (to_u64 num_cols ''num-cols too big'') (\<lambda>num_cols.
     obind (to_u64 max_len ''max-len too big'') (\<lambda>max_len.
     obind (from_opt (gb_new text GAP_SIZE)) (\<lambda>g.
     Ok \<lparr>ta_element_id = element_id, ta_viewport_id = viewport_id, ta_row = row, ta_col = col,
         ta_num_rows = num_rows, ta_num_cols = num_cols, ta_bg_color = bg, ta_fg_color = fg,
         ta_focused_bg_color = fbg, ta_focused_fg_color = ffg, ta_inner_text = g,
         ta_max_len = max_len, ta_insert = True, ta_scroll = 0, ta_cursor_col = 0\<rparr>))))))))))))))))))))))"

definition ta_to_clarity_value :: "'v clarity \<Rightarrow> TextArea \<Rightarrow> (UiError, 'v option) outcome" where
  "ta_to_clarity_value V s = ok_opt (cl_string_utf8 V (ta_text s))"

definition ta_render ::
  "TextArea \<Rightarrow> ('f, 'v) Root \<Rightarrow> coord \<times> coord \<Rightarrow> (UiError, ('f, 'v) Root \<times> (coord \<times> coord)) outcome" where
  "ta_render s root cursor =
     (let focused = is_focused root (ta_element_id s);
          bg = (if focused then ta_focused_bg_color s else ta_bg_color s);
          fg = (if focused then ta_focused_fg_color s else ta_fg_color s) in
      obind (on_viewport root (ta_viewport_id s)
        (\<lambda>vp. do { text \<leftarrow> it_drain (ta_inner_text s)
                              (gb_iter_at_offset (ta_inner_text s) (ta_num_rows s) (ta_num_cols s) (ta_scroll s));
                   vp_print_at_iter vp (ta_element_id s) (ta_row s) (ta_col s) bg fg text })) (\<lambda>(root, new_cursor).
      obind (ta_show_cursor focused s root) (\<lambda>root.
      Ok (root, new_cursor))))"

text \<open>The two ways the visible area follows the cursor.\<close>

definition scroll_up :: "TextArea \<Rightarrow> TextArea option" where
  "scroll_up s =
     (if gb_cursor (ta_inner_text s) < ta_scroll s
      then do { l \<leftarrow> find_line_start (ta_inner_text s); Some (s\<lparr>ta_scroll := l\<rparr>) }
      else Some s)"

definition scroll_down :: "TextArea \<Rightarrow> TextArea" where
  "scroll_down s =
     (if gb_cursor (ta_inner_text s) \<ge> end_of_area (ta_inner_text s) (ta_scroll s) (ta_num_rows s) (ta_num_cols s)
      then s\<lparr>ta_scroll := start_of_area (ta_inner_text s) (ta_scroll s) (ta_num_rows s) (ta_num_cols s)\<rparr>
      else s)"

definition note_col :: "TextArea \<Rightarrow> TextArea" where
  "note_col s = s\<lparr>ta_cursor_col := gb_cursor (ta_inner_text s) - gb_line_start (ta_inner_text s)\<rparr>"

definition ta_key :: "TextArea \<Rightarrow> Key \<Rightarrow> TextArea option" where
  "ta_key s key =
     (case key of
        KLeft \<Rightarrow> do { (_, g) \<leftarrow> gb_left (ta_inner_text s); scroll_up (note_col (s\<lparr>ta_inner_text := g\<rparr>)) }
      | KRight \<Rightarrow> do { (_, g) \<leftarrow> gb_right (ta_inner_text s); Some (scroll_down (note_col (s\<lparr>ta_inner_text := g\<rparr>))) }
      | KUp \<Rightarrow> do { g \<leftarrow> gb_up (ta_inner_text s) (ta_cursor_col s); scroll_up (s\<lparr>ta_inner_text := g\<rparr>) }
      | KDown \<Rightarrow> do { g \<leftarrow> gb_down (ta_inner_text s) (ta_cursor_col s); Some (scroll_down (s\<lparr>ta_inner_text := g\<rparr>)) }
      | KInsert \<Rightarrow> Some (s\<lparr>ta_insert := \<not> ta_insert s\<rparr>)
      | KHome \<Rightarrow> do { (_, g) \<leftarrow> line_start (ta_inner_text s); scroll_up (s\<lparr>ta_inner_text := g\<rparr>) }
      | KEnd \<Rightarrow> do { (_, g) \<leftarrow> line_end (ta_inner_text s); Some (scroll_down (s\<lparr>ta_inner_text := g\<rparr>)) }
      | KChar c \<Rightarrow>
          do { g \<leftarrow> (if ta_insert s then gb_insert (ta_inner_text s) c else gb_overwrite (ta_inner_text s) c);
               Some (scroll_down (s\<lparr>ta_inner_text := g\<rparr>)) }
      | _ \<Rightarrow>
          if key = KBackspace \<or> key = KCtrl 104 then
            do { g \<leftarrow> gb_backspace (ta_inner_text s); scroll_up (s\<lparr>ta_inner_text := g\<rparr>) }
          else if key = KDelete \<or> key = KCtrl 63 then
            do { g \<leftarrow> gb_delete (ta_inner_text s); scroll_up (s\<lparr>ta_inner_text := g\<rparr>) }
          else Some s)"

definition ta_handle_event ::
  "TextArea \<Rightarrow> ('f, 'v) Root \<Rightarrow> WrbFormEvent \<Rightarrow> (UiError, TextArea \<times> ('f, 'v) Root \<times> 'v option) outcome" where
  "ta_handle_event s root event =
     (case event of Keypress key \<Rightarrow>
        obind (from_opt (ta_key s key)) (\<lambda>s.
        obind (ta_focus s root (is_focused root (ta_element_id s))) (\<lambda>root. Ok (s, root, None))))"

end
