(* ===== verification/Text_Props.thy ===== *)
theory Text_Props
  imports Text_Forms
begin

text \<open>
  Properties of the text forms. The text line and the text area are both texts with a cursor
  in the sense of the locale \<open>cursor_text\<close>, so that any sequence of keys acts as the same
  sequence of edits; the text line also keeps to its maximal length.
\<close>

section \<open>The text line is an editable text\<close>

lemma skip_char_eq:
  "skip_char j i s = (if i \<le> j \<and> j < i + length s then take (j - i) s @ drop (Suc (j - i)) s else s)"
proof (induction s arbitrary: i)
  case (Cons c s)
  show ?case
  proof (cases "i = j")
    case True
    then show ?thesis using Cons [of "i + 1"] by simp
  next
    case False
    show ?thesis
    proof (cases "i < j")
      case True
      then obtain n where "j = Suc (i + n)" by (auto simp: less_iff_Suc_add)
      then show ?thesis using Cons [of "i + 1"] by simp
    next
      case False
      then show ?thesis using Cons [of "i + 1"] \<open>i \<noteq> j\<close> by simp
    qed
  qed
qed simp

lemma put_char_ins:
  "put_char True ch j i s = (if i \<le> j \<and> j < i + length s then take (j - i) s @ ch # drop (j - i) s else s)"
proof (induction s arbitrary: i)
  case (Cons c s)
  show ?case
  proof (cases "i = j")
    case True
    then show ?thesis using Cons [of "i + 1"] by simp
  next
    case False
    show ?thesis
    proof (cases "i < j")
      case True
      then obtain n where "j = Suc (i + n)" by (auto simp: less_iff_Suc_add)
      then show ?thesis using Cons [of "i + 1"] by simp
    next
      case False
      then show ?thesis using Cons [of "i + 1"] \<open>i \<noteq> j\<close> by simp
    qed
  qed
qed simp

definition tl_inv :: "TextLine \<Rightarrow> bool" where
  "tl_inv s \<longleftrightarrow> ascii (tl_inner_text s) \<and> tl_cursor s \<le> length (tl_inner_text s) \<and>
     length (tl_inner_text s) \<le> tl_max_len s \<and> tl_max_len s < 2 ^ 63 \<and> tl_insert s"

definition tl_halves :: "TextLine \<Rightarrow> rchar list \<times> rchar list" where
  "tl_halves s = (take (tl_cursor s) (tl_inner_text s), drop (tl_cursor s) (tl_inner_text s))"

definition tl_room :: "TextLine \<Rightarrow> nat" where
  "tl_room s = tl_max_len s - length (tl_inner_text s)"

definition line_char :: "rchar \<Rightarrow> bool" where
  "line_char c \<longleftrightarrow> c < 0x80 \<and> c \<noteq> newline \<and> c \<noteq> 13"

interpretation line_text: cursor_text tl_inv tl_halves tl_room line_char
  "\<lambda>s c. tl_key s (KChar c)" "\<lambda>s. tl_key s KBackspace"
  "\<lambda>s. tl_key s KLeft" "\<lambda>s. tl_key s KRight"
proof (unfold_locales, goal_cases)
  case (1 s c)
  let ?t = "tl_inner_text s" and ?k = "tl_cursor s"
  let ?s = "s\<lparr>tl_inner_text := take ?k ?t @ [c] @ drop ?k ?t, tl_cursor := ?k + 1\<rparr>"
  have t: "tl_key s (KChar c) = Some ?s"
    using 1 by (auto simp: tl_key_def tl_inv_def tl_room_def line_char_def put_char_ins with_capacity_def Let_def)
  have k: "?k \<le> length ?t" using 1 by (simp add: tl_inv_def)
  then have "tl_inv ?s"
    using 1 ascii_take_drop [of ?t ?k] by (simp add: tl_inv_def tl_room_def line_char_def)
  then show ?case using k unfolding t by (auto simp: tl_halves_def tl_room_def)
next
  case (2 s)
  let ?t = "tl_inner_text s" and ?k = "tl_cursor s"
  show ?case
  proof (cases "?k = 0")
    case True
    then show ?thesis using 2 by (simp add: tl_key_def Let_def tl_halves_def)
  next
    case False
    then have lt: "?k - 1 < length ?t" using 2 by (auto simp: tl_inv_def)
    have t: "tl_key s KBackspace = Some (s\<lparr>tl_inner_text := take (?k - 1) ?t @ drop ?k ?t, tl_cursor := ?k - 1\<rparr>)"
      using 2 False lt by (simp add: tl_key_def Let_def skip_char_eq with_capacity_def tl_inv_def)
    have "butlast (take ?k ?t) = take (?k - 1) ?t" using 2 by (simp add: butlast_take tl_inv_def)
    then show ?thesis
      using 2 lt ascii_take_drop unfolding t by (auto simp: tl_inv_def tl_halves_def tl_room_def)
  qed
next
  case (3 s)
  let ?t = "tl_inner_text s" and ?k = "tl_cursor s"
  have "take (?k - 1) ?t = butlast (take ?k ?t)" using 3 by (simp add: butlast_take tl_inv_def)
  moreover have "drop (?k - 1) ?t = last (take ?k ?t) # drop ?k ?t" if k0: "?k \<noteq> 0"
  proof -
    obtain n where n: "?k = Suc n" using not0_implies_Suc [OF k0] by blast
    then have "n < length ?t" using 3 by (simp add: tl_inv_def)
    then show ?thesis using n drop_Suc_nth [of n ?t] by (simp add: take_Suc_conv_app_nth)
  qed
  ultimately show ?case using 3 by (auto simp: tl_key_def Let_def tl_inv_def tl_halves_def tl_room_def)
next
  case (4 s)
  let ?t = "tl_inner_text s" and ?k = "tl_cursor s"
  have t: "tl_key s KRight = Some (s\<lparr>tl_cursor := min (?k + 1) (length ?t)\<rparr>)"
    using 4 by (auto simp: tl_key_def Let_def tl_inv_def min_def)
  show ?case
  proof (cases "?k < length ?t")
    case True
    then show ?thesis
      using 4 drop_Suc_nth [OF True] unfolding t
      by (auto simp: tl_inv_def tl_halves_def tl_room_def take_Suc_conv_app_nth min_def)
  next
    case False
    then show ?thesis using 4 unfolding t by (auto simp: tl_inv_def tl_halves_def tl_room_def)
  qed
qed

section \<open>The text area is an editable text\<close>

definition ta_inv :: "TextArea \<Rightarrow> bool" where
  "ta_inv s \<longleftrightarrow> gb_inv (ta_inner_text s) \<and> gb_buffer (ta_inner_text s) \<noteq> [] \<and> ta_insert s"

lemma scroll_up_ok:
  assumes "gb_inv (ta_inner_text s)" and "gb_buffer (ta_inner_text s) \<noteq> []"
  shows "\<exists>l. scroll_up s = Some (s\<lparr>ta_scroll := l\<rparr>)"
proof -
  obtain l where "find_line_start (ta_inner_text s) = Some l"
    using gb_rep_find_line_start [OF _ assms(2)] assms(1) gb_inv_rep by blast
  then show ?thesis by (cases "gb_cursor (ta_inner_text s) < ta_scroll s") (auto simp: scroll_up_def intro: exI [of _ "ta_scroll s"])
qed

lemma scroll_down_ok: "\<exists>l. scroll_down s = s\<lparr>ta_scroll := l\<rparr>"
  by (cases "gb_cursor (ta_inner_text s) \<ge> end_of_area (ta_inner_text s) (ta_scroll s) (ta_num_rows s) (ta_num_cols s)")
     (auto simp: scroll_down_def intro: exI [of _ "ta_scroll s"])

lemma gb_buffer_empty:
  assumes "gb_inv g"
  shows "gb_buffer g = [] \<longleftrightarrow> gb_halves g = ([], []) \<and> gb_gap g = 0"
proof -
  have "gb_rep g (gb_before g) (gb_after g)" using assms gb_inv_rep by blast
  then show ?thesis by (auto simp: gb_rep_def gb_halves_def)
qed

text \<open>What a key does to the buffer carries over to the area, whatever scrolling does.\<close>

lemma ta_lift_up:
  assumes inv: "ta_inv s" and s0: "ta_inner_text s0 = g'" "ta_insert s0"
    and g': "gb_inv g'" "gb_halves g' = h" "gb_gap (ta_inner_text s) \<le> gb_gap g' + n"
    and ne: "gb_buffer g' \<noteq> []"
  shows "\<exists>s'. scroll_up s0 = Some s' \<and> ta_inv s' \<and> gb_halves (ta_inner_text s') = h \<and>
     gb_gap (ta_inner_text s) \<le> gb_gap (ta_inner_text s') + n"
  using scroll_up_ok [of s0] assms by (auto simp: ta_inv_def)

lemma ta_lift_down:
  assumes inv: "ta_inv s" and s0: "ta_inner_text s0 = g'" "ta_insert s0"
    and g': "gb_inv g'" "gb_halves g' = h" "gb_gap (ta_inner_text s) \<le> gb_gap g' + n"
    and ne: "gb_buffer g' \<noteq> []"
  shows "\<exists>s'. scroll_down s0 = s' \<and> ta_inv s' \<and> gb_halves (ta_inner_text s') = h \<and>
     gb_gap (ta_inner_text s) \<le> gb_gap (ta_inner_text s') + n"
  using scroll_down_ok [of s0] assms by (auto simp: ta_inv_def)

lemma edit_spec_empty:
  "e \<in> {Lft, Rgt} \<Longrightarrow> edit_spec e z = ([], []) \<Longrightarrow> z = ([], [])"
  by (cases z) (auto split: if_splits list.splits)

lemma ta_move_nonempty:
  assumes "ta_inv s" and g': "gb_inv g'" "gb_halves g' = edit_spec e (gb_halves (ta_inner_text s))"
    and "e \<in> {Lft, Rgt}" and "gb_gap (ta_inner_text s) \<le> gb_gap g'"
  shows "gb_buffer g' \<noteq> []"
proof
  assume "gb_buffer g' = []"
  then have e: "edit_spec e (gb_halves (ta_inner_text s)) = ([], [])" "gb_gap g' = 0"
    using gb_buffer_empty [OF g'(1)] g'(2) by simp_all
  have "gb_halves (ta_inner_text s) = ([], [])" by (rule edit_spec_empty [OF assms(4) e(1)])
  moreover have "gb_gap (ta_inner_text s) = 0" using assms(5) e(2) by simp
  ultimately show False
    using assms(1) gb_buffer_empty [of "ta_inner_text s"] by (simp add: ta_inv_def)
qed

interpretation area_text: cursor_text ta_inv "\<lambda>s. gb_halves (ta_inner_text s)" "\<lambda>s. gb_gap (ta_inner_text s)" "\<lambda>_. True"
  "\<lambda>s c. ta_key s (KChar c)" "\<lambda>s. ta_key s KBackspace" "\<lambda>s. ta_key s KLeft" "\<lambda>s. ta_key s KRight"
proof (unfold_locales, goal_cases)
  case (1 s c)
  then obtain g' where g: "gb_insert (ta_inner_text s) c = Some g'" "gb_inv g'"
    "gb_halves g' = edit_spec (Ins c) (gb_halves (ta_inner_text s))" "gb_gap (ta_inner_text s) \<le> Suc (gb_gap g')"
    using gap_text.ins_law [of "ta_inner_text s" c] by (auto simp: ta_inv_def)
  have ne: "gb_buffer g' \<noteq> []"
    using gb_buffer_empty [OF g(2)] g(3) by (cases "gb_halves (ta_inner_text s)") auto
  let ?s0 = "s\<lparr>ta_inner_text := g'\<rparr>"
  have "ta_inner_text ?s0 = g'" "ta_insert ?s0" "gb_gap (ta_inner_text s) \<le> gb_gap g' + 1"
    using 1(1) g(4) by (simp_all add: ta_inv_def)
  from ta_lift_down [OF 1(1) this(1,2) g(2,3) this(3) ne] show ?case
    using 1(1) g(1) by (simp add: ta_key_def ta_inv_def)
next
  case (2 s)
  then obtain g' where g: "gb_backspace (ta_inner_text s) = Some g'" "gb_inv g'"
    "gb_halves g' = edit_spec Bsp (gb_halves (ta_inner_text s))" "gb_gap (ta_inner_text s) \<le> gb_gap g'"
    using gap_text.bsp_law [of "ta_inner_text s"] by (auto simp: ta_inv_def)
  have ne: "gb_buffer g' \<noteq> []" using gb_buffer_empty [OF g(2)] g(4) 2(2) by auto
  let ?s0 = "s\<lparr>ta_inner_text := g'\<rparr>"
  have "ta_inner_text ?s0 = g'" "ta_insert ?s0" "gb_gap (ta_inner_text s) \<le> gb_gap g' + 0"
    using 2(1) g(4) by (simp_all add: ta_inv_def)
  from ta_lift_up [OF 2(1) this(1,2) g(2,3) this(3) ne] show ?case
    using 2(1) g(1) by (simp add: ta_key_def ta_inv_def)
next
  case (3 s)
  then obtain g' where g: "gb_move_left (ta_inner_text s) = Some g'" "gb_inv g'"
    "gb_halves g' = edit_spec Lft (gb_halves (ta_inner_text s))" "gb_gap (ta_inner_text s) \<le> gb_gap g'"
    using gap_text.lft_law [of "ta_inner_text s"] by (auto simp: ta_inv_def)
  have ne: "gb_buffer g' \<noteq> []"
    by (rule ta_move_nonempty [OF 3 g(2,3) _ g(4)]) simp
  obtain b where b: "gb_left (ta_inner_text s) = Some (b, g')" using g(1) by (auto simp: gb_move_left_def)
  let ?s0 = "note_col (s\<lparr>ta_inner_text := g'\<rparr>)"
  have "ta_inner_text ?s0 = g'" "ta_insert ?s0" "gb_gap (ta_inner_text s) \<le> gb_gap g' + 0"
    using 3(1) g(4) by (simp_all add: ta_inv_def note_col_def)
  from ta_lift_up [OF 3(1) this(1,2) g(2,3) this(3) ne] show ?case
    using b by (simp add: ta_key_def)
next
  case (4 s)
  then obtain g' where g: "gb_move_right (ta_inner_text s) = Some g'" "gb_inv g'"
    "gb_halves g' = edit_spec Rgt (gb_halves (ta_inner_text s))" "gb_gap (ta_inner_text s) \<le> gb_gap g'"
    using gap_text.rgt_law [of "ta_inner_text s"] by (auto simp: ta_inv_def)
  have ne: "gb_buffer g' \<noteq> []"
    by (rule ta_move_nonempty [OF 4 g(2,3) _ g(4)]) simp
  obtain b where b: "gb_right (ta_inner_text s) = Some (b, g')" using g(1) by (auto simp: gb_move_right_def)
  let ?s0 = "note_col (s\<lparr>ta_inner_text := g'\<rparr>)"
  have "ta_inner_text ?s0 = g'" "ta_insert ?s0" "gb_gap (ta_inner_text s) \<le> gb_gap g' + 0"
    using 4(1) g(4) by (simp_all add: ta_inv_def note_col_def)
  from ta_lift_down [OF 4(1) this(1,2) g(2,3) this(3) ne] show ?case
    using b by (simp add: ta_key_def)
qed

section \<open>Properties\<close>

text \<open>
  The text line edits its text. On an ASCII text within the maximal length, in insert mode,
  keys act as the edits of the text around the cursor: characters are put before the cursor,
  backspace deletes before it, and the arrow keys move it. The text stays within the maximal
  length and the cursor within the text.
\<close>

theorem tl_edits_refine:
  assumes "tl_inv s" and "insertions es < tl_room s" and "\<forall>c \<in> set (typed es). line_char c"
  shows "\<exists>s'. run_edits (\<lambda>s c. tl_key s (KChar c)) (\<lambda>s. tl_key s KBackspace)
             (\<lambda>s. tl_key s KLeft) (\<lambda>s. tl_key s KRight) es s = Some s' \<and>
           tl_inv s' \<and> tl_halves s' = edits_spec es (tl_halves s)"
  using assms by (rule line_text.run_edits_refines)

definition demo_line :: TextLine where
  "demo_line = \<lparr>tl_element_id = 1, tl_viewport_id = 1, tl_row = 0, tl_col = 0, tl_cursor = 1,
     tl_bg_color = demo_color, tl_fg_color = demo_color, tl_focused_bg_color = demo_color,
     tl_focused_fg_color = demo_color, tl_inner_text = [97, 98], tl_max_len = 9, tl_insert = True\<rparr>"

theorem tl_edits_refine_witness:
  "\<exists>s'. run_edits (\<lambda>s c. tl_key s (KChar c)) (\<lambda>s. tl_key s KBackspace)
      (\<lambda>s. tl_key s KLeft) (\<lambda>s. tl_key s KRight) [Ins 99, Rgt, Bsp] demo_line = Some s' \<and>
     tl_halves s' = ([97, 99], [])"
proof -
  have "tl_inv demo_line" "insertions [Ins 99, Rgt, Bsp] < tl_room demo_line"
    "\<forall>c \<in> set (typed [Ins 99, Rgt, Bsp]). line_char c"
    by (simp_all add: tl_inv_def demo_line_def tl_room_def line_char_def)
  from tl_edits_refine [OF this] show ?thesis by (auto simp: demo_line_def tl_halves_def)
qed

lemma put_char_late: "j < i \<Longrightarrow> put_char ins ch j i s = s"
  by (induction s arbitrary: i) auto

lemma put_char_len: "str_len (put_char ins ch j i s) \<le> str_len s + len_utf8 ch"
proof (induction s arbitrary: i)
  case (Cons c s)
  show ?case using Cons [of "i + 1"] by (cases "i = j") (simp_all add: put_char_late)
qed simp

lemma skip_char_len: "str_len (skip_char j i s) \<le> str_len s"
  by (induction s arbitrary: i) (auto intro: le_trans [OF _ le_add2])

lemma len_utf8_le: "len_utf8 c \<le> 4"
  by (simp add: len_utf8_def)

text \<open>Pressing a sequence of keys.\<close>

fun tl_keys :: "Key list \<Rightarrow> TextLine \<Rightarrow> TextLine option" where
  "tl_keys [] s = Some s"
| "tl_keys (k # ks) s = do { s \<leftarrow> tl_key s k; tl_keys ks s }"

lemma tl_key_ok:
  assumes "tl_max_len s < 2 ^ 63"
  shows "\<exists>s'. tl_key s k = Some s' \<and> tl_max_len s' = tl_max_len s \<and>
     str_len (tl_inner_text s') \<le> max (str_len (tl_inner_text s)) (tl_max_len s + 3)"
proof (cases "\<exists>c. k = KChar c")
  case True
  then obtain c where k: "k = KChar c" by blast
  show ?thesis
    using assms put_char_len [of "tl_insert s" c "tl_cursor s" 0 "tl_inner_text s"] len_utf8_le [of c]
    by (auto simp: k tl_key_def Let_def with_capacity_def)
next
  case False
  then show ?thesis
    using assms skip_char_len [of "tl_cursor s - 1" 0 "tl_inner_text s"]
      skip_char_len [of "tl_cursor s" 0 "tl_inner_text s"]
    by (cases k) (auto simp: tl_key_def Let_def with_capacity_def)
qed

text \<open>
  C39. The text line keeps to its length. Let the maximal length be below \<open>2 ^ 63\<close>, the largest that
  can be allocated. Whatever keys are pressed on whatever text, handling them (the part of
  \<open>handle_event\<close> before the cursor is shown) never panics, and the text is never longer in bytes
  than three more than the maximal length (the last character accepted may have four bytes) or
  than the initial text, whichever is more.
\<close>

theorem tl_len_bounded:
  assumes "tl_max_len s < 2 ^ 63"
  shows "\<exists>s'. tl_keys ks s = Some s' \<and>
     str_len (tl_inner_text s') \<le> max (str_len (tl_inner_text s)) (tl_max_len s + 3)"
  using assms
proof (induction ks arbitrary: s)
  case (Cons k ks)
  obtain s1 where s1: "tl_key s k = Some s1" "tl_max_len s1 = tl_max_len s"
    "str_len (tl_inner_text s1) \<le> max (str_len (tl_inner_text s)) (tl_max_len s + 3)"
    using tl_key_ok [OF Cons.prems] by blast
  then obtain s' where "tl_keys ks s1 = Some s'"
    "str_len (tl_inner_text s') \<le> max (str_len (tl_inner_text s1)) (tl_max_len s1 + 3)"
    using Cons.IH [of s1] Cons.prems by auto
  then show ?case using s1 by auto
qed simp

theorem tl_len_bounded_witness:
  "\<exists>s'. tl_keys [KChar 99, KDelete, KEnd, KChar 0xe9] (demo_line\<lparr>tl_max_len := 3\<rparr>) = Some s' \<and>
     str_len (tl_inner_text s') \<le> 6"
  using tl_len_bounded [of "demo_line\<lparr>tl_max_len := 3\<rparr>" "[KChar 99, KDelete, KEnd, KChar 0xe9]"]
  by (simp add: demo_line_def len_utf8_def)

text \<open>The cursor counts bytes in some places and characters in others.\<close>

lemma tl_backspace_multibyte:
  "map_option (\<lambda>s. (tl_inner_text s, tl_cursor s)) (tl_keys [KEnd, KBackspace] (demo_line\<lparr>tl_inner_text := [0xe9]\<rparr>)) =
     Some ([0xe9], 1)"
  by (simp add: tl_key_def demo_line_def len_utf8_def with_capacity_def Let_def)

text \<open>Setting a shorter text leaves the cursor behind its end, where a typed character is lost.\<close>

lemma tl_set_text_loses_char:
  assumes "0 < tl_cursor s" and "0 < tl_max_len s" and "tl_max_len s < 2 ^ 63" and "c \<noteq> newline" and "c \<noteq> 13"
  shows "tl_key (tl_set_text s []) (KChar c) = Some (s\<lparr>tl_inner_text := [], tl_cursor := tl_cursor s + 1\<rparr>)"
  using assms by (simp add: tl_key_def tl_set_text_def with_capacity_def Let_def)

text \<open>A page that gives a text line an enormous maximal length makes the backspace key panic.\<close>

lemma tl_huge_max_len_panics:
  assumes "2 ^ 63 \<le> tl_max_len s" and "0 < tl_cursor s"
  shows "tl_key s KBackspace = None"
  using assms by (simp add: tl_key_def with_capacity_def Let_def)

lemma edits_spec_set:
  "set (fst (edits_spec es z)) \<union> set (snd (edits_spec es z)) \<subseteq> set (fst z) \<union> set (snd z) \<union> set (typed es)"
proof (induction es arbitrary: z)
  case (Cons e es)
  have "set (fst (edit_spec e z)) \<union> set (snd (edit_spec e z)) \<subseteq> set (fst z) \<union> set (snd z) \<union> set (typed [e])"
    by (cases z; cases e) (auto dest: in_set_butlastD split: list.splits if_splits)
  moreover have "set (typed (e # es)) = set (typed [e]) \<union> set (typed es)" by (cases e) auto
  ultimately show ?case using Cons [of "edit_spec e z"] by auto
qed simp

text \<open>
  The text area edits its text. A text area made from an ASCII text, in insert mode, takes
  any sequence of typed characters, backspaces and moves without a panic (up to the initial
  gap of insertions), however it scrolls, and its text is the one the edits give, with the
  cursor starting at the end of the initial text.
\<close>

theorem ta_edits_refine:
  assumes "ascii text" and "insertions es < GAP_SIZE" and "\<forall>c \<in> set (typed es). is_scalar c"
    and "ta_new_detached text rows cols max_len = Some s"
  shows "\<exists>s'. run_edits (\<lambda>s c. ta_key s (KChar c)) (\<lambda>s. ta_key s KBackspace)
             (\<lambda>s. ta_key s KLeft) (\<lambda>s. ta_key s KRight) es s = Some s' \<and>
           ta_text s' = fst (edits_spec es (text, [])) @ snd (edits_spec es (text, []))"
proof -
  obtain g where g: "gb_new text GAP_SIZE = Some g" "gb_rep g text []" "gb_gap g = GAP_SIZE"
    using gb_new_rep [of "text" GAP_SIZE] assms(1) by (auto simp: GAP_SIZE_def)
  have s: "ta_inner_text s = g" "ta_insert s"
    using assms(4) g(1) by (auto simp: ta_new_detached_def bind_Some_iff)
  have h: "gb_halves g = (text, [])" "gb_inv g" using gb_halves_rep [OF g(2)] by simp_all
  have "gb_buffer g \<noteq> []" using g(2,3) by (simp add: gb_rep_def GAP_SIZE_def)
  then have inv: "ta_inv s" using s h(2) by (simp add: ta_inv_def)
  obtain s' where run: "run_edits (\<lambda>s c. ta_key s (KChar c)) (\<lambda>s. ta_key s KBackspace)
        (\<lambda>s. ta_key s KLeft) (\<lambda>s. ta_key s KRight) es s = Some s'"
    and inv': "ta_inv s'" and hs: "gb_halves (ta_inner_text s') = edits_spec es (text, [])"
    using area_text.run_edits_refines [OF inv, of es] s g(3) h(1) assms(2) by auto
  let ?z = "edits_spec es (text, [])"
  have rep: "gb_rep (ta_inner_text s') (fst ?z) (snd ?z)"
    using inv' hs gb_inv_rep [of "ta_inner_text s'"] by (simp add: ta_inv_def gb_halves_def prod_eq_iff)
  have "\<forall>c \<in> set text. is_scalar c" using assms(1) ascii_scalar by (auto simp: ascii_def)
  then have "\<forall>c \<in> set (fst ?z @ snd ?z). is_scalar c"
    using edits_spec_set [of es "(text, [])"] assms(3) by auto
  then show ?thesis using run gb_rep_to_string [OF rep] by (simp add: ta_text_def)
qed

theorem ta_edits_refine_witness:
  "\<exists>s s'. ta_new_detached [97, 98] 2 4 10 = Some s \<and>
     run_edits (\<lambda>s c. ta_key s (KChar c)) (\<lambda>s. ta_key s KBackspace)
       (\<lambda>s. ta_key s KLeft) (\<lambda>s. ta_key s KRight) [Lft, Ins 99, Rgt, Bsp] s = Some s' \<and> ta_text s' = [97, 99]"
proof -
  obtain g where g: "gb_new [97, 98] GAP_SIZE = Some g" using gb_new_rep [of "[97, 98]" GAP_SIZE]
    by (auto simp: GAP_SIZE_def)
  then obtain s where s: "ta_new_detached [97, 98] 2 4 10 = Some s"
    by (simp add: ta_new_detached_def color_from_u32_eq)
  have "ascii [97, 98]" "insertions [Lft, Ins 99, Rgt, Bsp] < GAP_SIZE"
    "\<forall>c \<in> set (typed [Lft, Ins 99, Rgt, Bsp]). is_scalar c"
    by (simp_all add: GAP_SIZE_def is_scalar_def)
  from ta_edits_refine [OF this s] show ?thesis using s by auto
qed

text \<open>The maximal length of a text area is not looked at: one character goes into an area of length 0.\<close>

lemma ta_max_len_ignored:
  assumes "ta_new_detached [] rows cols 0 = Some s"
  shows "\<exists>s'. ta_key s (KChar 97) = Some s' \<and> ta_text s' = [97]"
proof -
  obtain g where g: "gb_new [] GAP_SIZE = Some g" "gb_rep g [] []" "gb_gap g = GAP_SIZE"
    using gb_new_rep [of "[]" GAP_SIZE] by (auto simp: GAP_SIZE_def)
  have s: "ta_inner_text s = g" "ta_insert s"
    using assms g(1) by (auto simp: ta_new_detached_def bind_Some_iff)
  obtain g' where g': "gb_insert g 97 = Some g'" "gb_rep g' [97] []"
    using gb_rep_insert [OF g(2), of 97] g(3) by (auto simp: gb_can_insert_def GAP_SIZE_def)
  obtain l where l: "scroll_down (s\<lparr>ta_inner_text := g'\<rparr>) = s\<lparr>ta_inner_text := g', ta_scroll := l\<rparr>"
    using scroll_down_ok [of "s\<lparr>ta_inner_text := g'\<rparr>"] by auto
  have "gb_to_string g' = [97]" using gb_rep_to_string [OF g'(2)] by (simp add: is_scalar_def)
  then show ?thesis using s g'(1) l by (simp add: ta_key_def ta_text_def)
qed

end
