(* ===== verification/Forms.thy ===== *)
theory Forms
  imports Root_Props Text_Props
begin

text \<open>
  The six kinds of forms together, as the boxed trait objects that the root pane holds, and
  the table of their methods. The contract of the root with its forms is the locale
  \<open>scene_forms\<close>: a method draws on viewports and moves the cursor, and a form keeps its
  identity. The operations of the root are followed in any order, and the frame they leave is
  the one the viewports show.
\<close>

section \<open>Boxed forms and their methods\<close>

datatype Form =
    RawForm RawText | PrintForm PrintText | ButtonForm Button | CheckboxForm Checkbox
  | TextLineForm TextLine | TextAreaForm TextArea

fun form_type_id :: "Form \<Rightarrow> WrbFormTypes" where
  "form_type_id (RawForm _) = FText"
| "form_type_id (PrintForm _) = FPrint"
| "form_type_id (ButtonForm _) = FButton"
| "form_type_id (CheckboxForm _) = FCheckbox"
| "form_type_id (TextLineForm _) = FTextLine"
| "form_type_id (TextAreaForm _) = FTextArea"

fun form_element_id :: "Form \<Rightarrow> u128" where
  "form_element_id (RawForm s) = rw_element_id s"
| "form_element_id (PrintForm s) = pt_element_id s"
| "form_element_id (ButtonForm s) = bt_element_id s"
| "form_element_id (CheckboxForm s) = ck_element_id s"
| "form_element_id (TextLineForm s) = tl_element_id s"
| "form_element_id (TextAreaForm s) = ta_element_id s"

fun form_viewport_id :: "Form \<Rightarrow> u128" where
  "form_viewport_id (RawForm s) = rw_viewport_id s"
| "form_viewport_id (PrintForm s) = pt_viewport_id s"
| "form_viewport_id (ButtonForm s) = bt_viewport_id s"
| "form_viewport_id (CheckboxForm s) = ck_viewport_id s"
| "form_viewport_id (TextLineForm s) = tl_viewport_id s"
| "form_viewport_id (TextAreaForm s) = ta_viewport_id s"

text \<open>Focus and rendering do not change the form; static text ignores the focus.\<close>

fun form_focus :: "Form \<Rightarrow> ('f, 'v) Root \<Rightarrow> bool \<Rightarrow> (UiError, ('f, 'v) Root) outcome" where
  "form_focus (RawForm s) root focused = Ok root"
| "form_focus (PrintForm s) root focused = Ok root"
| "form_focus (ButtonForm s) root focused = button_focus s root focused"
| "form_focus (CheckboxForm s) root focused = checkbox_focus s root focused"
| "form_focus (TextLineForm s) root focused = tl_focus s root focused"
| "form_focus (TextAreaForm s) root focused = ta_focus s root focused"

fun form_render ::
  "Form \<Rightarrow> ('f, 'v) Root \<Rightarrow> coord \<times> coord \<Rightarrow> (UiError, ('f, 'v) Root \<times> (coord \<times> coord)) outcome" where
  "form_render (RawForm s) root cursor = raw_render s root cursor"
| "form_render (PrintForm s) root cursor = print_render s root cursor"
| "form_render (ButtonForm s) root cursor = button_render s root cursor"
| "form_render (CheckboxForm s) root cursor = checkbox_render s root cursor"
| "form_render (TextLineForm s) root cursor = tl_render s root cursor"
| "form_render (TextAreaForm s) root cursor = ta_render s root cursor"

fun form_handle_event ::
  "'v clarity \<Rightarrow> Form \<Rightarrow> ('f, 'v) Root \<Rightarrow> WrbFormEvent \<Rightarrow> (UiError, Form \<times> ('f, 'v) Root \<times> 'v option) outcome" where
  "form_handle_event V (RawForm s) root event = Ok (RawForm s, root, None)"
| "form_handle_event V (PrintForm s) root event = Ok (PrintForm s, root, None)"
| "form_handle_event V (ButtonForm s) root event =
     obind (button_handle_event V s root event) (\<lambda>(root, p). Ok (ButtonForm s, root, p))"
| "form_handle_event V (CheckboxForm s) root event =
     obind (checkbox_handle_event s root event) (\<lambda>(s, root, p). Ok (CheckboxForm s, root, p))"
| "form_handle_event V (TextLineForm s) root event =
     obind (tl_handle_event s root event) (\<lambda>(s, root, p). Ok (TextLineForm s, root, p))"
| "form_handle_event V (TextAreaForm s) root event =
     obind (ta_handle_event s root event) (\<lambda>(s, root, p). Ok (TextAreaForm s, root, p))"

fun form_to_clarity_value :: "'v clarity \<Rightarrow> Form \<Rightarrow> (UiError, 'v option) outcome" where
  "form_to_clarity_value V (CheckboxForm s) = checkbox_to_clarity_value V s"
| "form_to_clarity_value V (TextLineForm s) = tl_to_clarity_value V s"
| "form_to_clarity_value V (TextAreaForm s) = ta_to_clarity_value V s"
| "form_to_clarity_value V _ = Ok None"

definition form_table :: "'v clarity \<Rightarrow> (Form, 'v) WrbForm" where
  "form_table V = \<lparr>fm_type_id = form_type_id, fm_element_id = form_element_id,
     fm_viewport_id = form_viewport_id,
     fm_focus = (\<lambda>f root b. obind (form_focus f root b) (\<lambda>root. Ok (f, root))),
     fm_render = (\<lambda>f root c. obind (form_render f root c) (\<lambda>(root, c). Ok (f, root, c))),
     fm_handle_event = form_handle_event V\<rparr>"

section \<open>What a method may do to the root\<close>

definition same_look :: "Viewport \<Rightarrow> Viewport \<Rightarrow> bool" where
  "same_look a b \<longleftrightarrow> same_shape a b \<and> vp_visible a = vp_visible b"

text \<open>Only the contents of viewports and the cursor change.\<close>

definition draws :: "('f, 'v) Root \<Rightarrow> ('f, 'v) Root \<Rightarrow> bool" where
  "draws root root' \<longleftrightarrow>
     (\<exists>vps c. root' = root\<lparr>rt_scenegraph := (rt_scenegraph root)\<lparr>sg_viewports := vps\<rparr>, rt_cursor := c\<rparr> \<and>
        list_all2 same_look (sg_viewports (rt_scenegraph root)) vps)"

lemma same_look_refl [simp]: "same_look a a"
  by (simp add: same_look_def same_shape_def)

lemma same_look_trans: "same_look a b \<Longrightarrow> same_look b c \<Longrightarrow> same_look a c"
  by (simp add: same_look_def same_shape_def)

lemma drawsI:
  assumes "list_all2 same_look (sg_viewports (rt_scenegraph root)) vps"
  shows "draws root (root\<lparr>rt_scenegraph := (rt_scenegraph root)\<lparr>sg_viewports := vps\<rparr>, rt_cursor := c\<rparr>)"
  using assms by (auto simp: draws_def)

lemma draws_cursor: "draws root (root\<lparr>rt_cursor := c\<rparr>)"
  using drawsI [of root "sg_viewports (rt_scenegraph root)" c] by (simp add: list_all2_same)

lemma draws_refl [simp]: "draws root root"
  using draws_cursor [of root "rt_cursor root"] by simp

lemma draws_trans:
  assumes "draws a b" and "draws b c"
  shows "draws a c"
proof -
  obtain v1 c1 where b: "b = a\<lparr>rt_scenegraph := (rt_scenegraph a)\<lparr>sg_viewports := v1\<rparr>, rt_cursor := c1\<rparr>"
    "list_all2 same_look (sg_viewports (rt_scenegraph a)) v1" using assms(1) by (auto simp: draws_def)
  obtain v2 c2 where c: "c = b\<lparr>rt_scenegraph := (rt_scenegraph b)\<lparr>sg_viewports := v2\<rparr>, rt_cursor := c2\<rparr>"
    "list_all2 same_look (sg_viewports (rt_scenegraph b)) v2" using assms(2) by (auto simp: draws_def)
  have "list_all2 same_look (sg_viewports (rt_scenegraph a)) v2"
    by (rule list_all2_trans [of same_look same_look same_look, OF same_look_trans b(2)]) (use b(1) c(2) in simp_all)
  then show ?thesis using b(1) c(1) by (auto simp: draws_def)
qed

lemma put_viewport_draws:
  assumes "viewport_mut root i = Some vp" and "same_look vp vp'"
  shows "draws root (put_viewport root i vp')"
proof -
  obtain k where k: "sg_viewport_table (rt_scenegraph root) i = Some k" "k < length (sg_viewports (rt_scenegraph root))"
      "sg_viewports (rt_scenegraph root) ! k = vp"
    using assms(1) by (auto simp: viewport_mut_def vec_get_def split: option.splits if_splits)
  have "list_all2 same_look (sg_viewports (rt_scenegraph root)) ((sg_viewports (rt_scenegraph root))[k := vp'])"
    using k assms(2) by (auto simp: list_all2_conv_all_nth nth_list_update)
  from drawsI [OF this, of "rt_cursor root"] show ?thesis using k by (simp add: put_viewport_def)
qed

lemma draws_fields:
  assumes "draws root root'"
  shows "rt_forms root' = rt_forms root" "rt_focused root' = rt_focused root"
    "rt_num_rows root' = rt_num_rows root" "rt_num_cols root' = rt_num_cols root"
    "rt_zbuff root' = rt_zbuff root" "rt_dynamic_forms root' = rt_dynamic_forms root"
    "rt_focus_order root' = rt_focus_order root" "rt_reverse_focus_order root' = rt_reverse_focus_order root"
    "rt_focus_first root' = rt_focus_first root" "rt_runtime_events root' = rt_runtime_events root"
    "sg_coord_offsets (rt_scenegraph root') = sg_coord_offsets (rt_scenegraph root)"
  using assms by (auto simp: draws_def)

lemma draws_scene:
  assumes "draws root root'" and "scene_inv (rt_scenegraph root)"
  shows "scene_inv (rt_scenegraph root')"
proof -
  obtain vps where "rt_scenegraph root' = (rt_scenegraph root)\<lparr>sg_viewports := vps\<rparr>"
    "same_shapes (sg_viewports (rt_scenegraph root)) vps"
    using assms(1) by (auto simp: draws_def same_look_def list_all2_conv_all_nth)
  then show ?thesis using scene_inv_shape [OF assms(2)] by simp
qed

text \<open>The z-buffer only depends on where the viewports are and whether they are visible.\<close>

lemma viewport_hit_look:
  assumes "list_all2 same_look (sg_viewports sg) vps"
  shows "viewport_hit (sg\<lparr>sg_viewports := vps\<rparr>) = viewport_hit sg"
proof (intro ext)
  fix row col cv i
  have len: "length vps = length (sg_viewports sg)" using assms by (simp add: list_all2_lengthD)
  have look: "vp_dims (vps ! k) = vp_dims (sg_viewports sg ! k)" "vp_visible (vps ! k) = vp_visible (sg_viewports sg ! k)"
    if "k < length vps" for k
    using assms that by (auto simp: list_all2_conv_all_nth same_look_def same_shape_def vp_dims_def)
  show "viewport_hit (sg\<lparr>sg_viewports := vps\<rparr>) row col cv i = viewport_hit sg row col cv i"
    by (cases "sg_viewport_table sg i") (auto simp: viewport_hit_def vec_get_def len look cong: option.case_cong)
qed

lemma viewport_at_look:
  assumes "list_all2 same_look (sg_viewports sg) vps"
  shows "viewport_at (sg\<lparr>sg_viewports := vps\<rparr>) = viewport_at sg"
proof -
  have ids: "viewport_at_ids (sg\<lparr>sg_viewports := vps\<rparr>) r c cv is = viewport_at_ids sg r c cv is" for r c cv "is"
    by (induction "is") (simp_all add: viewport_hit_look [OF assms] cong: if_cong)
  have "viewport_at_levels (sg\<lparr>sg_viewports := vps\<rparr>) r c cv ls = viewport_at_levels sg r c cv ls" for r c cv ls
    by (induction ls) (simp_all add: ids cong: option.case_cong)
  then show ?thesis by (intro ext) (simp add: viewport_at_def)
qed

lemma zbuff_look:
  assumes "list_all2 same_look (sg_viewports sg) vps"
  shows "zbuff_rows (sg\<lparr>sg_viewports := vps\<rparr>) nc r n = zbuff_rows sg nc r n"
proof -
  have "zbuff_row (sg\<lparr>sg_viewports := vps\<rparr>) r c n = zbuff_row sg r c n" for r c n
    by (induction n arbitrary: c) (simp_all add: viewport_at_look [OF assms])
  then show ?thesis by (induction n arbitrary: r) simp_all
qed

lemma draws_make_zbuff: "draws root root' \<Longrightarrow> make_zbuff root' = make_zbuff root"
  by (auto simp: draws_def make_zbuff_def zbuff_look)

section \<open>The contract of the root with its forms\<close>

text \<open>
  The invariant of the root: a consistent scene, a screen that can be numbered, a z-buffer that
  is the one of the scene when there is one, and every form filed under its identifier.
\<close>

definition root_inv :: "('f, 'v) WrbForm \<Rightarrow> ('f, 'v) Root \<Rightarrow> bool" where
  "root_inv W root \<longleftrightarrow> scene_inv (rt_scenegraph root) \<and> 0 < rt_num_cols root \<and>
     rt_num_rows root * rt_num_cols root < 2 ^ 58 \<and>
     (rt_zbuff root = None \<or> rt_zbuff root = make_zbuff root) \<and>
     (\<forall>e f. rt_forms root e = Some f \<longrightarrow> fm_element_id W f = e) \<and>
     rt_dynamic_forms root \<subseteq> dom (rt_forms root)"

text \<open>The part that drawing keeps, whatever forms are filed.\<close>

definition frame_inv :: "('f, 'v) Root \<Rightarrow> bool" where
  "frame_inv root \<longleftrightarrow> scene_inv (rt_scenegraph root) \<and> 0 < rt_num_cols root \<and>
     rt_num_rows root * rt_num_cols root < 2 ^ 58 \<and>
     (rt_zbuff root = None \<or> rt_zbuff root = make_zbuff root)"

definition filed :: "('f, 'v) WrbForm \<Rightarrow> (u128 \<rightharpoonup> 'f) \<Rightarrow> bool" where
  "filed W forms \<longleftrightarrow> (\<forall>e f. forms e = Some f \<longrightarrow> fm_element_id W f = e)"

lemma root_inv_iff:
  "root_inv W root \<longleftrightarrow> frame_inv root \<and> filed W (rt_forms root) \<and> rt_dynamic_forms root \<subseteq> dom (rt_forms root)"
  by (auto simp: root_inv_def frame_inv_def filed_def)

lemma filed_upd: "filed W forms \<Longrightarrow> fm_element_id W f = e \<Longrightarrow> filed W (forms(e \<mapsto> f))"
  by (simp add: filed_def)

lemma filed_del: "filed W forms \<Longrightarrow> filed W (forms(e := None))"
  by (simp add: filed_def)

lemma make_zbuff_forms [simp]:
  "make_zbuff (root\<lparr>rt_forms := fs\<rparr>) = make_zbuff root"
  "make_zbuff (root\<lparr>rt_dynamic_forms := d\<rparr>) = make_zbuff root"
  "make_zbuff (root\<lparr>rt_focused := x\<rparr>) = make_zbuff root"
  "make_zbuff (root\<lparr>rt_runtime_events := evs\<rparr>) = make_zbuff root"
  "make_zbuff (root\<lparr>rt_focus_order := m1\<rparr>) = make_zbuff root"
  "make_zbuff (root\<lparr>rt_reverse_focus_order := m2\<rparr>) = make_zbuff root"
  "make_zbuff (root\<lparr>rt_focus_first := y\<rparr>) = make_zbuff root"
  "make_zbuff (root\<lparr>rt_zbuff := z\<rparr>) = make_zbuff root"
  by (simp_all add: make_zbuff_def)

lemma frame_inv_fields [simp]:
  "frame_inv (root\<lparr>rt_forms := fs\<rparr>) = frame_inv root"
  "frame_inv (root\<lparr>rt_dynamic_forms := d\<rparr>) = frame_inv root"
  "frame_inv (root\<lparr>rt_focused := x\<rparr>) = frame_inv root"
  "frame_inv (root\<lparr>rt_runtime_events := evs\<rparr>) = frame_inv root"
  "frame_inv (root\<lparr>rt_focus_order := m1\<rparr>) = frame_inv root"
  "frame_inv (root\<lparr>rt_reverse_focus_order := m2\<rparr>) = frame_inv root"
  "frame_inv (root\<lparr>rt_focus_first := y\<rparr>) = frame_inv root"
  by (simp_all add: frame_inv_def)

lemma draws_frame: "draws root root' \<Longrightarrow> frame_inv root \<Longrightarrow> frame_inv root'"
  by (simp add: frame_inv_def draws_scene draws_fields draws_make_zbuff)

definition same_id :: "('f, 'v) WrbForm \<Rightarrow> 'f \<Rightarrow> 'f \<Rightarrow> bool" where
  "same_id W f f' \<longleftrightarrow> fm_type_id W f' = fm_type_id W f \<and> fm_element_id W f' = fm_element_id W f \<and>
     fm_viewport_id W f' = fm_viewport_id W f"

locale scene_forms =
  fixes W :: "('f, 'v) WrbForm"
  assumes focus_law: "fm_focus W f root b = Ok (f', root') \<Longrightarrow> draws root root' \<and> same_id W f f'"
    and render_law: "fm_render W f root c = Ok (f', root', c') \<Longrightarrow> draws root root' \<and> same_id W f f'"
    and event_law: "fm_handle_event W f root ev = Ok (f', root', p) \<Longrightarrow> draws root root' \<and> same_id W f f'"
begin

lemma render_contents_law:
  assumes "render_contents W fs root cs forms ids = Ok (root', cs', forms', ids')" and "filed W forms"
  shows "draws root root' \<and> filed W forms' \<and> dom forms \<subseteq> dom forms' \<and> ids' \<subseteq> ids \<union> dom forms'"
  using assms
proof (induction fs arbitrary: root cs forms ids)
  case (Cons f fs)
  obtain f1 root1 c1 where r: "fm_render W f root (cursor_of cs (fm_viewport_id W f)) = Ok (f1, root1, c1)"
    and rest: "render_contents W fs root1 (cs(fm_viewport_id W f \<mapsto> c1)) (forms(fm_element_id W f1 \<mapsto> f1))
      (insert (fm_element_id W f1) ids) = Ok (root', cs', forms', ids')"
    using Cons.prems(1) by (auto simp: Let_def obind_Ok_iff simp del: fun_upd_apply)
  have "draws root1 root' \<and> filed W forms' \<and> dom (forms(fm_element_id W f1 \<mapsto> f1)) \<subseteq> dom forms' \<and>
      ids' \<subseteq> insert (fm_element_id W f1) ids \<union> dom forms'"
    by (rule Cons.IH [OF rest]) (rule filed_upd [OF Cons.prems(2) refl])
  then show ?case using render_law [OF r] draws_trans by auto
qed simp

lemma redraw_forms_law:
  assumes "redraw_forms W is root cs forms = Ok (root', forms')" and "filed W forms"
  shows "draws root root' \<and> filed W forms' \<and> dom forms' = dom forms"
  using assms
proof (induction "is" arbitrary: root cs forms)
  case (Cons i "is")
  show ?case
  proof (cases "forms i")
    case None
    then show ?thesis using Cons by simp
  next
    case (Some f)
    obtain f1 root1 c1 where r: "fm_render W f root (cursor_of cs (fm_viewport_id W f)) = Ok (f1, root1, c1)"
      and rest: "redraw_forms W is root1 (cs(fm_viewport_id W f \<mapsto> c1)) (forms(i \<mapsto> f1)) = Ok (root', forms')"
      using Cons.prems(1) Some by (auto simp: Let_def obind_Ok_iff simp del: fun_upd_apply)
    have "fm_element_id W f1 = i" using render_law [OF r] Cons.prems(2) Some by (simp add: same_id_def filed_def)
    then have "draws root1 root' \<and> filed W forms' \<and> dom forms' = dom (forms(i \<mapsto> f1))"
      by (intro Cons.IH [OF rest] filed_upd [OF Cons.prems(2)])
    then show ?thesis using render_law [OF r] draws_trans Some by auto
  qed
qed simp

lemma redraw_static_law:
  assumes "redraw_static W is root cs forms = Ok (root', cs', forms')" and "filed W forms"
  shows "draws root root' \<and> filed W forms' \<and> dom forms' = dom forms"
  using assms
proof (induction "is" arbitrary: root cs forms)
  case (Cons i "is")
  show ?case
  proof (cases "\<exists>f. forms i = Some f \<and> viewport_shown root (fm_viewport_id W f)")
    case False
    then show ?thesis using Cons by (cases "forms i") (auto simp: Let_def)
  next
    case True
    then obtain f where f: "forms i = Some f" "viewport_shown root (fm_viewport_id W f)" by blast
    obtain f1 root1 c1 where r: "fm_render W f root (cursor_of cs (fm_viewport_id W f)) = Ok (f1, root1, c1)"
      and rest: "redraw_static W is root1 (cs(fm_viewport_id W f \<mapsto> c1)) (forms(i \<mapsto> f1)) = Ok (root', cs', forms')"
      using Cons.prems(1) f by (auto simp: Let_def obind_Ok_iff simp del: fun_upd_apply)
    have "fm_element_id W f1 = i" using render_law [OF r] Cons.prems(2) f(1) by (simp add: same_id_def filed_def)
    then have "draws root1 root' \<and> filed W forms' \<and> dom forms' = dom (forms(i \<mapsto> f1))"
      by (intro Cons.IH [OF rest] filed_upd [OF Cons.prems(2)])
    then show ?thesis using render_law [OF r] draws_trans f(1) by auto
  qed
qed simp

lemma add_new_contents_law:
  assumes "add_new_contents W fs root cs forms ids = Ok (root', forms', ids')" and "filed W forms"
  shows "draws root root' \<and> filed W forms' \<and> dom forms \<subseteq> dom forms' \<and> ids' \<subseteq> ids \<union> dom forms'"
  using assms
proof (induction fs arbitrary: root cs forms ids)
  case (Cons f fs)
  show ?case
  proof (cases "viewport_shown root (fm_viewport_id W f)")
    case False
    then show ?thesis using Cons by (simp add: Let_def)
  next
    case True
    obtain f1 root1 c1 where r: "fm_render W f root (cursor_of cs (fm_viewport_id W f)) = Ok (f1, root1, c1)"
      and rest: "add_new_contents W fs root1 (cs(fm_viewport_id W f \<mapsto> c1)) (forms(fm_element_id W f \<mapsto> f1))
        (insert (fm_element_id W f) ids) = Ok (root', forms', ids')"
      using Cons.prems(1) True by (auto simp: Let_def obind_Ok_iff simp del: fun_upd_apply)
    have "draws root1 root' \<and> filed W forms' \<and> dom (forms(fm_element_id W f \<mapsto> f1)) \<subseteq> dom forms' \<and>
        ids' \<subseteq> insert (fm_element_id W f) ids \<union> dom forms'"
      by (intro Cons.IH [OF rest] filed_upd [OF Cons.prems(2)]) (use render_law [OF r] in \<open>simp add: same_id_def\<close>)
    then show ?thesis using render_law [OF r] draws_trans by auto
  qed
qed simp

end

section \<open>The operations of the root\<close>

lemma draws_viewport:
  assumes "draws root root'" and "viewport_mut root' i = Some v'"
  shows "\<exists>v. viewport_mut root i = Some v \<and> same_look v v'"
  using assms
  by (auto simp: draws_def viewport_mut_def vec_get_def list_all2_conv_all_nth split: option.splits if_splits)

lemma vp_clear_look: "same_look vp (vp_clear vp)"
  using vp_clear_shape by (simp add: same_look_def vp_clear_def)

lemma clear_viewports_draws: "draws root (clear_viewports root vs)"
proof (induction vs arbitrary: root)
  case (Cons v vs)
  show ?case
  proof (cases "viewport_mut root v")
    case (Some vp)
    then show ?thesis using Cons draws_trans [OF put_viewport_draws [OF Some vp_clear_look]] by simp
  qed (use Cons in simp)
qed simp

definition look_updates :: "('f, 'v) Root \<Rightarrow> Viewport list \<Rightarrow> bool" where
  "look_updates root vps \<longleftrightarrow>
     (\<forall>vp \<in> set vps. \<forall>v. viewport_mut root (vp_id vp) = Some v \<longrightarrow> same_look v (merge_update v vp))"

lemma merge_look: "same_look v v' \<Longrightarrow> same_look v (merge_update v vp) \<Longrightarrow> same_look v' (merge_update v' vp)"
  by (simp add: same_look_def same_shape_def merge_update_def)

lemma look_updates_draws: "look_updates root vps \<Longrightarrow> draws root root' \<Longrightarrow> look_updates root' vps"
  unfolding look_updates_def using draws_viewport merge_look by metis

lemma merge_viewports_draws: "look_updates root vps \<Longrightarrow> draws root (merge_viewports root vps)"
proof (induction vps arbitrary: root)
  case (Cons vp vps)
  have vps: "look_updates root vps" using Cons.prems by (simp add: look_updates_def)
  show ?case
  proof (cases "viewport_mut root (vp_id vp)")
    case None
    then show ?thesis using Cons.IH [OF vps] by simp
  next
    case (Some v)
    then have d: "draws root (put_viewport root (vp_id vp) (merge_update v vp))"
      using Cons.prems put_viewport_draws by (auto simp: look_updates_def)
    then show ?thesis
      using Some Cons.IH [OF look_updates_draws [OF vps d]] draws_trans [OF d] by simp
  qed
qed simp

text \<open>What the viewer and the renderer do to the root of a page, one call at a time.\<close>

inductive root_step :: "('f, 'v) WrbForm \<Rightarrow> ('f, 'v) Root \<Rightarrow> ('f, 'v) Root \<Rightarrow> bool" for W where
  step_render: "root_render W root = Some (root', b) \<Longrightarrow> root_step W root root'"
| step_refresh: "root_refresh W root = Some (root', b) \<Longrightarrow> root_step W root root'"
| step_set_forms: "set_all_forms W root statics dynamics = Ok root' \<Longrightarrow> root_step W root root'"
| step_redraw: "redraw W order root = Ok root' \<Longrightarrow> root_step W root root'"
| step_update: "look_updates root (fu_updated_viewports fu) \<Longrightarrow> update_forms W order root fu = Ok root' \<Longrightarrow>
    root_step W root root'"
| step_next: "next_focus W root = Ok root' \<Longrightarrow> root_step W root root'"
| step_prev: "prev_focus W root = Ok root' \<Longrightarrow> root_step W root root'"
| step_clear: "clear_focus W root = Ok root' \<Longrightarrow> root_step W root root'"
| step_event: "root_handle_event W root event = Ok root' \<Longrightarrow> root_step W root root'"
| step_consume: "consume_runtime_events root = (root', evs) \<Longrightarrow> root_step W root root'"

lemma make_focus_order_fields [simp]:
  "frame_inv (make_focus_order W root b) = frame_inv root"
  "rt_forms (make_focus_order W root b) = rt_forms root"
  "rt_dynamic_forms (make_focus_order W root b) = rt_dynamic_forms root"
  "rt_focused (make_focus_order W root b) = rt_focused root"
  "rt_scenegraph (make_focus_order W root b) = rt_scenegraph root"
  by (simp_all add: make_focus_order_def Let_def)

lemma frame_inv_render:
  assumes "frame_inv root"
  shows "\<exists>root1 b. make_charbuff root = Some (root1, b) \<and> frame_inv root1 \<and> shows_top root b \<and>
     rt_forms root1 = rt_forms root \<and> rt_dynamic_forms root1 = rt_dynamic_forms root \<and> rt_focused root1 = rt_focused root"
proof -
  obtain z b where z: "make_zbuff root = Some z" "make_charbuff root = Some (root\<lparr>rt_zbuff := Some z\<rparr>, b)" "shows_top root b"
    using make_charbuff_top assms unfolding frame_inv_def by blast
  have "frame_inv (root\<lparr>rt_zbuff := Some z\<rparr>)" using assms z(1) by (simp add: frame_inv_def)
  then show ?thesis using z(2,3) by auto
qed

lemma frame_inv_no_zbuff: "frame_inv root \<Longrightarrow> frame_inv (root\<lparr>rt_zbuff := None\<rparr>)"
  by (simp add: frame_inv_def)

lemma root_inv_render:
  assumes "root_inv W root"
  shows "\<exists>root' b. root_render W root = Some (root', b) \<and> root_inv W root' \<and> shows_top root b"
  using frame_inv_render [of root] assms by (auto simp: root_inv_iff root_render_def)

lemma root_inv_refresh:
  assumes "root_inv W root"
  shows "\<exists>root' b. root_refresh W root = Some (root', b) \<and> root_inv W root' \<and> shows_top root b"
  using frame_inv_render [OF frame_inv_no_zbuff [of root]] assms
  by (auto simp: root_inv_iff root_refresh_def shows_top_def)

lemma draws_forms:
  assumes "draws (root\<lparr>rt_forms := fs\<rparr>) root1"
  shows "draws root (root1\<lparr>rt_forms := rt_forms root\<rparr>)"
proof -
  obtain vps c where r: "root1 = root\<lparr>rt_forms := fs, rt_scenegraph := (rt_scenegraph root)\<lparr>sg_viewports := vps\<rparr>, rt_cursor := c\<rparr>"
    and l: "list_all2 same_look (sg_viewports (rt_scenegraph root)) vps"
    using assms by (auto simp: draws_def)
  have "root1\<lparr>rt_forms := rt_forms root\<rparr> =
      root\<lparr>rt_scenegraph := (rt_scenegraph root)\<lparr>sg_viewports := vps\<rparr>, rt_cursor := c\<rparr>"
    by (cases root) (simp add: r)
  then show ?thesis using drawsI [OF l] by simp
qed

context scene_forms
begin

lemma with_form_focus_draws:
  assumes "with_form_focus W root who b = Ok root'"
  shows "\<exists>root1 forms. draws root root1 \<and> root' = root1\<lparr>rt_forms := forms\<rparr> \<and> dom forms = dom (rt_forms root) \<and>
     (filed W (rt_forms root) \<longrightarrow> filed W forms)"
proof (cases "\<exists>i f. who = Some i \<and> rt_forms root i = Some f")
  case False
  then have "root' = root\<lparr>rt_forms := rt_forms root\<rparr>"
    using assms by (auto simp: with_form_focus_def split: option.splits)
  then show ?thesis using draws_refl by blast
next
  case True
  then obtain i f where i: "who = Some i" "rt_forms root i = Some f" by blast
  let ?root0 = "root\<lparr>rt_forms := (rt_forms root)(i := None)\<rparr>"
  obtain f1 root1 where f: "fm_focus W f ?root0 b = Ok (f1, root1)"
    and root': "root' = root1\<lparr>rt_forms := (rt_forms root1)(i \<mapsto> f1)\<rparr>"
    using assms i by (auto simp: with_form_focus_def obind_Ok_iff)
  have d: "draws ?root0 root1" and sid: "same_id W f f1" using focus_law [OF f] by auto
  have "draws root (root1\<lparr>rt_forms := rt_forms root\<rparr>)" using draws_forms [OF d] by simp
  moreover have "rt_forms root1 = (rt_forms root)(i := None)" using draws_fields(1) [OF d] by simp
  moreover have "filed W (rt_forms root) \<longrightarrow> filed W ((rt_forms root)(i \<mapsto> f1))"
    using sid i(2) by (auto simp: filed_def same_id_def)
  ultimately show ?thesis
    using root' i(2)
    by (intro exI [of _ "root1\<lparr>rt_forms := rt_forms root\<rparr>"] exI [of _ "(rt_forms root)(i \<mapsto> f1)"]) auto
qed

lemma with_form_focus_inv:
  assumes "with_form_focus W root who b = Ok root'" and "root_inv W root"
  shows "root_inv W root'"
  using with_form_focus_draws [OF assms(1)] assms(2)
  by (auto simp: root_inv_iff draws_frame draws_fields) (metis domD subsetD)

lemma focus_inv:
  assumes "inner_next_focus W root b = Ok root'" and "root_inv W root"
  shows "root_inv W root'"
proof -
  define root0 where "root0 = (case rt_focused root of
      Some focused \<Rightarrow> root\<lparr>rt_focused := (if b then rt_reverse_focus_order root focused else rt_focus_order root focused)\<rparr>
    | None \<Rightarrow> root\<lparr>rt_focused := rt_focus_first root\<rparr>)"
  obtain root1 where "with_form_focus W root0 (rt_focused root) False = Ok root1"
    "with_form_focus W root1 (rt_focused root1) True = Ok root'"
    using assms(1) by (auto simp: inner_next_focus_def Let_def obind_Ok_iff root0_def)
  moreover have "root_inv W root0" using assms(2) by (auto simp: root_inv_iff root0_def split: option.splits)
  ultimately show ?thesis using with_form_focus_inv by blast
qed

lemma event_inv:
  assumes "root_handle_event W root ev = Ok root'" and "root_inv W root"
  shows "root_inv W root'"
proof (cases "\<exists>i f. rt_focused root = Some i \<and> rt_forms root i = Some f")
  case False
  then show ?thesis using assms by (auto simp: root_handle_event_def split: option.splits)
next
  case True
  then obtain i f where i: "rt_focused root = Some i" "rt_forms root i = Some f" by blast
  let ?root0 = "root\<lparr>rt_forms := (rt_forms root)(i := None)\<rparr>"
  obtain f1 root1 p where f: "fm_handle_event W f ?root0 ev = Ok (f1, root1, p)"
    and root': "root' = (case p of None \<Rightarrow> root1\<lparr>rt_forms := (rt_forms root1)(i \<mapsto> f1)\<rparr>
      | Some q \<Rightarrow> root1\<lparr>rt_forms := (rt_forms root1)(i \<mapsto> f1), rt_runtime_events :=
          rt_runtime_events root1 @ [EvUI (fm_type_id W f1) (fm_element_id W f1) q]\<rparr>)"
    using assms(1) i by (auto simp: root_handle_event_def obind_Ok_iff Let_def cong: option.case_cong)
  have d: "draws ?root0 root1" and sid: "same_id W f f1" using event_law [OF f] by auto
  have "frame_inv root1" using draws_frame [OF d] assms(2) by (simp add: root_inv_iff)
  moreover have "filed W ((rt_forms root)(i \<mapsto> f1))"
    using sid i(2) assms(2) by (auto simp: filed_def same_id_def root_inv_iff)
  ultimately show ?thesis
    using root' assms(2) draws_fields(1,6) [OF d] by (auto simp: root_inv_iff split: option.splits)
qed

lemma set_all_forms_inv:
  assumes "set_all_forms W root statics dynamics = Ok root'" and "root_inv W root"
  shows "root_inv W root'"
proof -
  obtain root1 cs forms ids root2 cs2 forms2 ids2 where
    1: "render_contents W statics root Map.empty Map.empty {} = Ok (root1, cs, forms, ids)" and
    2: "render_contents W dynamics root1 cs forms {} = Ok (root2, cs2, forms2, ids2)" and
    root': "root' = root2\<lparr>rt_forms := forms2, rt_dynamic_forms := ids2\<rparr>"
    using assms(1) by (auto simp: set_all_forms_def obind_Ok_iff)
  have "filed W Map.empty" by (simp add: filed_def)
  note l1 = render_contents_law [OF 1 this]
  note l2 = render_contents_law [OF 2, OF l1 [THEN conjunct2, THEN conjunct1]]
  have "frame_inv root2" using l1 l2 draws_frame assms(2) unfolding root_inv_iff by blast
  then show ?thesis using l2 root' by (auto simp: root_inv_iff)
qed

lemma redraw_inv:
  assumes "redraw W order root = Ok root'" and "root_inv W root"
  shows "root_inv W root'"
proof -
  obtain root1 forms where 1: "redraw_forms W order (root\<lparr>rt_forms := Map.empty\<rparr>) Map.empty (rt_forms root) = Ok (root1, forms)"
    and root': "root' = root1\<lparr>rt_forms := forms\<rparr>"
    using assms(1) by (auto simp: redraw_def obind_Ok_iff)
  have "draws (root\<lparr>rt_forms := Map.empty\<rparr>) root1 \<and> filed W forms \<and> dom forms = dom (rt_forms root)"
    using redraw_forms_law [OF 1] assms(2) by (simp add: root_inv_iff)
  then show ?thesis
    using root' assms(2) draws_frame [of "root\<lparr>rt_forms := Map.empty\<rparr>" root1] by (auto simp: root_inv_iff draws_fields)
qed

lemma update_forms_inv:
  assumes "update_forms W order root fu = Ok root'" and "look_updates root (fu_updated_viewports fu)"
    and "root_inv W root"
  shows "root_inv W root'"
proof -
  define forms where "forms = (\<lambda>i. if i \<in> rt_dynamic_forms root then None else rt_forms root i)"
  define root0 where "root0 = root\<lparr>rt_forms := Map.empty, rt_dynamic_forms := {}\<rparr>"
  define root1 where "root1 = merge_viewports root0 (fu_updated_viewports fu)"
  define root2 where "root2 = clear_viewports root1 (map (fm_viewport_id W) (List.map_filter forms order))"
  define root3 where "root3 = clear_viewports root2 (map (fm_viewport_id W) (fu_new_contents fu))"
  obtain root4 cs forms4 root5 forms5 ids where
    4: "redraw_static W order root3 Map.empty forms = Ok (root4, cs, forms4)" and
    5: "add_new_contents W (fu_new_contents fu) root4 cs forms4 {} = Ok (root5, forms5, ids)" and
    root': "root' = root5\<lparr>rt_forms := forms5, rt_dynamic_forms := ids,
      rt_focused := (case rt_focused root5 of Some f \<Rightarrow> (if forms5 f = None then None else Some f) | None \<Rightarrow> None)\<rparr>"
    using assms(1) unfolding update_forms_def Let_def forms_def root0_def root1_def root2_def root3_def
    by (auto simp: obind_Ok_iff)
  have "look_updates root0 (fu_updated_viewports fu)"
    using assms(2) by (simp add: look_updates_def root0_def viewport_mut_def cong: option.case_cong)
  then have d3: "draws root0 root3"
    unfolding root3_def root2_def root1_def
    using merge_viewports_draws clear_viewports_draws draws_trans by metis
  have "filed W forms" using assms(3) by (simp add: forms_def filed_def root_inv_iff)
  note l4 = redraw_static_law [OF 4 this]
  note l5 = add_new_contents_law [OF 5, OF l4 [THEN conjunct2, THEN conjunct1]]
  have "draws root0 root5" by (rule draws_trans [OF d3 draws_trans [OF conjunct1 [OF l4] conjunct1 [OF l5]]])
  then have "frame_inv root5" by (rule draws_frame) (use assms(3) in \<open>simp add: root_inv_iff root0_def\<close>)
  then show ?thesis using l5 root' by (auto simp: root_inv_iff)
qed

lemma root_step_inv: "root_step W root root' \<Longrightarrow> root_inv W root \<Longrightarrow> root_inv W root'"
proof (induction rule: root_step.induct)
  case (step_render root root' b)
  then show ?case using root_inv_render [of W root] by auto
next
  case (step_refresh root root' b)
  then show ?case using root_inv_refresh [of W root] by auto
next
  case (step_next root root')
  then show ?case using focus_inv by (simp add: next_focus_def)
next
  case (step_prev root root')
  then show ?case using focus_inv by (simp add: prev_focus_def)
next
  case (step_clear root root')
  have "root_inv W (root\<lparr>rt_focused := None\<rparr>)" using step_clear.prems by (simp add: root_inv_iff)
  then show ?case using with_form_focus_inv step_clear.hyps by (simp add: clear_focus_def)
next
  case (step_consume root root' evs)
  then show ?case by (auto simp: consume_runtime_events_def root_inv_iff)
qed (use set_all_forms_inv redraw_inv update_forms_inv event_inv in blast)+

lemma root_steps_inv: "(root_step W)\<^sup>*\<^sup>* root root' \<Longrightarrow> root_inv W root \<Longrightarrow> root_inv W root'"
  by (induction rule: rtranclp_induct) (auto intro: root_step_inv)

end

section \<open>The forms keep the contract\<close>

lemma set_cursor_draws: "set_cursor_if b root i r c = Ok root' \<Longrightarrow> draws root root'"
  by (auto simp: set_cursor_if_def set_form_cursor_def bind_Some_iff draws_cursor split: if_splits)

lemma form_focus_draws: "form_focus f root b = Ok root' \<Longrightarrow> draws root root'"
  by (cases f) (auto simp: button_focus_def checkbox_focus_def tl_focus_def ta_focus_def ta_show_cursor_def
      split: if_splits option.splits dest!: set_cursor_draws)

lemma vp_exec_look: "vp_exec x vp = Some (vp', p) \<Longrightarrow> same_look vp vp'"
  using vp_exec_shape [of x vp vp' p]
  by (cases x) (auto simp: same_look_def vp_exec_def vp_print_to_def vp_print_def vp_println_def
      update_element_coord_def bind_Some_iff split: print_op.splits option.splits)

lemma vp_print_look:
  "vp_print_to vp e r c bg fg s = Some (vp', p) \<Longrightarrow> same_look vp vp'"
  "vp_print vp e r c bg fg s = Some (vp', p) \<Longrightarrow> same_look vp vp'"
  "vp_println vp e r c bg fg s = Some (vp', p) \<Longrightarrow> same_look vp vp'"
  "vp_print_at_iter vp e r c bg fg s = Some (vp', p) \<Longrightarrow> same_look vp vp'"
  using vp_exec_look [of "(PrintAt, e, r, c, bg, fg, s)" vp vp' p]
    vp_exec_look [of "(PrintWrap, e, r, c, bg, fg, s)" vp vp' p]
    vp_exec_look [of "(PrintLn, e, r, c, bg, fg, s)" vp vp' p]
  by (simp_all add: vp_exec_def vp_print_to_def vp_print_at_iter_def print_at_def)

lemma on_viewport_draws:
  assumes "on_viewport root i pr = Ok (root', p)" and "\<And>vp vp' p. pr vp = Some (vp', p) \<Longrightarrow> same_look vp vp'"
  shows "draws root root'"
  using assms put_viewport_draws by (fastforce simp: on_viewport_def obind_Ok_iff)

lemma checkbox_options_look:
  "checkbox_render_options s bg fg i opts vp cur = Some (vp', p) \<Longrightarrow> same_look vp vp'"
proof (induction opts arbitrary: i vp cur)
  case (Cons opt opts)
  then show ?case
    by (auto simp: bind_Some_iff simp del: If_def dest!: vp_print_look(1)) (metis same_look_trans)
qed simp

lemma viewport_cursor_draws:
  assumes "obind (on_viewport root i pr) (\<lambda>(root, nc). obind (cur root) (\<lambda>root. Ok (root, nc))) = Ok (root', c')"
    and "\<And>vp vp' p. pr vp = Some (vp', p) \<Longrightarrow> same_look vp vp'" and "\<And>r r'. cur r = Ok r' \<Longrightarrow> draws r r'"
  shows "draws root root'"
proof -
  obtain r p where r: "on_viewport root i pr = Ok (r, p)" "cur r = Ok root'"
    using assms(1) by (auto simp: obind_Ok_iff)
  show ?thesis by (rule draws_trans [OF on_viewport_draws [OF r(1) assms(2)] assms(3) [OF r(2)]])
qed

lemma form_render_draws:
  assumes "form_render f root c = Ok (root', c')"
  shows "draws root root'"
proof (cases f)
  case (RawForm s)
  then have r: "raw_render s root c = Ok (root', c')" using assms by simp
  show ?thesis by (rule on_viewport_draws [OF r [unfolded raw_render_def]]) (rule vp_print_look)
next
  case (PrintForm s)
  then have r: "print_render s root c = Ok (root', c')" using assms by simp
  show ?thesis
    by (rule on_viewport_draws [OF r [unfolded print_render_def]])
       (auto simp: Let_def split: prod.splits if_splits dest: vp_print_look)
next
  case (ButtonForm s)
  then have r: "button_render s root c = Ok (root', c')" using assms by simp
  show ?thesis
    by (rule viewport_cursor_draws [OF r [unfolded button_render_def Let_def] _ set_cursor_draws])
       (auto split: if_splits dest: vp_print_look)
next
  case (CheckboxForm s)
  then have r: "checkbox_render s root c = Ok (root', c')" using assms by simp
  show ?thesis
    by (rule viewport_cursor_draws [OF r [unfolded checkbox_render_def Let_def] checkbox_options_look set_cursor_draws])
next
  case (TextLineForm s)
  then have r: "tl_render s root c = Ok (root', c')" using assms by simp
  show ?thesis
    by (rule viewport_cursor_draws [OF r [unfolded tl_render_def Let_def] _ set_cursor_draws])
       (auto split: prod.splits dest: vp_print_look)
next
  case (TextAreaForm s)
  then have r: "ta_render s root c = Ok (root', c')" using assms by simp
  have cur: "ta_show_cursor b s r1 = Ok r2 \<Longrightarrow> draws r1 r2" for b r1 r2
    using form_focus_draws [of "TextAreaForm s" r1 b r2] by (simp add: ta_focus_def)
  show ?thesis
    by (rule viewport_cursor_draws [OF r [unfolded ta_render_def Let_def] _ cur])
       (auto simp: bind_Some_iff dest: vp_print_look)
qed

lemma tl_key_ids:
  "tl_key s k = Some s' \<Longrightarrow> tl_element_id s' = tl_element_id s \<and> tl_viewport_id s' = tl_viewport_id s"
  by (cases k) (auto simp: tl_key_def Let_def bind_Some_iff split: if_splits)

lemma scroll_ids:
  "scroll_up s = Some s' \<Longrightarrow> ta_element_id s' = ta_element_id s \<and> ta_viewport_id s' = ta_viewport_id s"
  "ta_element_id (scroll_down s) = ta_element_id s \<and> ta_viewport_id (scroll_down s) = ta_viewport_id s"
  by (auto simp: scroll_up_def scroll_down_def bind_Some_iff split: if_splits)

lemma ta_key_ids:
  "ta_key s k = Some s' \<Longrightarrow> ta_element_id s' = ta_element_id s \<and> ta_viewport_id s' = ta_viewport_id s"
  by (cases k) (auto simp: ta_key_def bind_Some_iff note_col_def scroll_ids dest!: scroll_ids(1) split: if_splits)

lemma checkbox_event_draws:
  assumes "checkbox_handle_event s root ev = Ok (s', root', p)"
  shows "draws root root' \<and> ck_element_id s' = ck_element_id s \<and> ck_viewport_id s' = ck_viewport_id s"
proof -
  obtain k where ev: "ev = Keypress k" by (cases ev)
  have focus: "checkbox_focus s1 r b = Ok r' \<Longrightarrow> draws r r'" for s1 b and r r' :: "('a, 'b) Root"
    using form_focus_draws [of "CheckboxForm s1" r b r'] by simp
  obtain root1 where 1: "checkbox_focus s root (is_focused root (ck_element_id s)) = Ok root1"
    using assms by (auto simp: checkbox_handle_event_def obind_Ok_iff)
  have rest: "root' = root1 \<or> (\<exists>s1 b. checkbox_focus s1 root1 b = Ok root')"
    and ids: "ck_element_id s' = ck_element_id s \<and> ck_viewport_id s' = ck_viewport_id s"
    using assms 1 by (auto simp: ev checkbox_handle_event_def obind_Ok_iff Let_def split: if_splits)
  have "draws root1 root'" using rest focus by auto
  then show ?thesis using ids draws_trans [OF focus [OF 1]] by simp
qed

lemma form_event_draws:
  assumes "form_handle_event V f root ev = Ok (f', root', p)"
  shows "draws root root' \<and> same_id (form_table V) f f'"
proof -
  obtain k where ev: "ev = Keypress k" by (cases ev)
  note focus = form_focus_draws [of "ButtonForm _"] form_focus_draws [of "TextLineForm _"]
    form_focus_draws [of "TextAreaForm _"]
  show ?thesis
  proof (cases f)
    case (ButtonForm s)
    then show ?thesis
      using assms focus(1) by (auto simp: ev button_handle_event_def obind_Ok_iff same_id_def split: if_splits)
  next
    case (CheckboxForm s)
    then show ?thesis
      using assms by (auto simp: obind_Ok_iff same_id_def form_table_def dest: checkbox_event_draws)
  next
    case (TextLineForm s)
    then show ?thesis
      using assms focus(2) tl_key_ids
      by (auto simp: ev tl_handle_event_def obind_Ok_iff same_id_def form_table_def)
  next
    case (TextAreaForm s)
    then show ?thesis
      using assms focus(3) ta_key_ids
      by (auto simp: ev ta_handle_event_def obind_Ok_iff same_id_def form_table_def)
  qed (use assms in \<open>auto simp: same_id_def\<close>)
qed

interpretation wrb_forms: scene_forms "form_table V" for V :: "'v clarity"
proof (unfold_locales, goal_cases)
  case (1 f root b f' root')
  then show ?case by (auto simp: form_table_def obind_Ok_iff same_id_def dest: form_focus_draws)
next
  case (2 f root c f' root' c')
  then show ?case by (auto simp: form_table_def obind_Ok_iff same_id_def dest: form_render_draws)
next
  case (3 f root ev f' root' p)
  then show ?case using form_event_draws [of V f root ev f' root' p] by (simp add: form_table_def)
qed

end
