(* ===== verification/Renderer.thy ===== *)
theory Renderer
  imports Globals Forms
begin

text \<open>
  The renderer (\<open>src/ui/render.rs\<close>): it asks the page for its viewports and UI elements by
  evaluating queries in the Clarity virtual machine and builds the root pane, or an update of
  it, from the answers. The virtual machine is that of the \<open>clarity\<close> crate: its environment
  is a type argument and its two operations are the fields of a record. The renderer threads
  the environment and the global state, and so does an evaluation: the special functions that
  it calls store large strings and open sessions.
\<close>

section \<open>Queries\<close>

text \<open>Events of an evaluation; the renderer looks at the \<open>print\<close> events of contracts.\<close>

datatype 'v vm_event = SmartContractEvent string 'v | OtherEvent

type_synonym ('e, 'g, 'w) rstate = "'e \<times> ('g, 'w) Globals"

record ('e, 'g, 'w, 'v) clarity_vm =
  vm_get_contract :: "'e \<Rightarrow> QualifiedContractIdentifier \<Rightarrow> (UiError, 'e \<times> Contract) outcome"
  vm_eval_raw :: "('e, 'g, 'w) rstate \<Rightarrow> Contract \<Rightarrow> string \<Rightarrow> (UiError, ('e, 'g, 'w) rstate \<times> 'v vm_event list) outcome"

definition print_value :: "'v vm_event \<Rightarrow> 'v option" where
  "print_value event =
     (case event of SmartContractEvent key value \<Rightarrow> (if key = ''print'' then Some value else None)
      | OtherEvent \<Rightarrow> None)"

definition run_query_code ::
  "('e, 'g, 'w, 'v) clarity_vm \<Rightarrow> ('e, 'g, 'w) rstate \<Rightarrow> QualifiedContractIdentifier \<Rightarrow> string \<Rightarrow>
   (UiError, ('e, 'g, 'w) rstate \<times> 'v list) outcome" where
  "run_query_code M st main_code_id code =
     (case st of (env, globals) \<Rightarrow>
      obind (case load_cached_contract globals main_code_id of
               Some main_contract \<Rightarrow> Ok (env, globals, main_contract)
             | None \<Rightarrow>
                 obind (vm_get_contract M env main_code_id) (\<lambda>(env, contract).
                 let (globals, contract) = store_cached_contract globals main_code_id contract
                 in Ok (env, globals, contract))) (\<lambda>(env, globals, contract).
      obind (vm_eval_raw M (env, globals) contract code) (\<lambda>(st, events).
      Ok (st, List.map_filter print_value events))))"

text \<open>\<open>.pop().expect(..)\<close> on the values of a query.\<close>

definition query_value ::
  "('e, 'g, 'w, 'v) clarity_vm \<Rightarrow> ('e, 'g, 'w) rstate \<Rightarrow> QualifiedContractIdentifier \<Rightarrow> string \<Rightarrow>
   (UiError, ('e, 'g, 'w) rstate \<times> 'v) outcome" where
  "query_value M st main_code_id code =
     obind (run_query_code M st main_code_id code) (\<lambda>(st, values).
     if values = [] then Panic else Ok (st, last values))"

definition expect_u128 :: "'v clarity \<Rightarrow> 'v \<Rightarrow> (UiError, u128) outcome" where
  "expect_u128 V v = map_err Clarity (cl_expect_u128 V v)"

definition expect_list :: "'v clarity \<Rightarrow> 'v \<Rightarrow> (UiError, 'v list) outcome" where
  "expect_list V v = map_err Clarity (cl_expect_list V v)"

definition expect_optional :: "'v clarity \<Rightarrow> 'v \<Rightarrow> (UiError, 'v option) outcome" where
  "expect_optional V v = map_err Clarity (cl_expect_optional V v)"

text \<open>Numbers in decimal, as \<open>format!\<close> writes them.\<close>

fun show_nat :: "nat \<Rightarrow> string" where
  "show_nat n = (if n < 10 then [char_of (48 + n)] else show_nat (n div 10) @ [char_of (48 + n mod 10)])"

declare show_nat.simps [simp del]

definition show_u128 :: "u128 \<Rightarrow> string" where
  "show_u128 x = show_nat (unat x)"

definition uint_arg :: "string \<Rightarrow> u128 \<Rightarrow> string" where
  "uint_arg name x = ''(print ('' @ name @ '' u'' @ show_u128 x @ ''))''"

section \<open>Viewports\<close>

definition viewports_query :: "u128 option \<Rightarrow> string" where
  "viewports_query cursor =
     ''(print (wrb-get-viewports '' @
       (case cursor of None \<Rightarrow> ''none'' | Some i \<Rightarrow> ''(some u'' @ show_u128 i @ '')'') @ ''))''"

text \<open>One answer: the viewports and the predecessor of the last one.\<close>

fun read_viewports :: "'v clarity \<Rightarrow> 'v list \<Rightarrow> u128 option \<Rightarrow> (UiError, Viewport list \<times> u128 option) outcome" where
  "read_viewports V [] last_viewport = Ok ([], last_viewport)"
| "read_viewports V (vp_value # rest) last_viewport =
     obind (vp_from_clarity_value V vp_value) (\<lambda>viewport.
     obind (read_viewports V rest (vp_prev_viewport viewport)) (\<lambda>(viewports, last_viewport).
     Ok (viewport # viewports, last_viewport)))"

text \<open>The loop goes on as long as the page answers; \<open>None\<close> is a loop that never ends.\<close>

partial_function (option) viewports_loop ::
  "('e, 'g, 'w, 'v) clarity_vm \<Rightarrow> 'v clarity \<Rightarrow> ('e, 'g, 'w) rstate \<Rightarrow> QualifiedContractIdentifier \<Rightarrow> u128 option \<Rightarrow>
   Viewport list \<Rightarrow> (UiError, ('e, 'g, 'w) rstate \<times> Viewport list) outcome option" where
  "viewports_loop M V st main_code_id cursor viewports =
     (case obind (query_value M st main_code_id (viewports_query cursor)) (\<lambda>(st, v).
           obind (expect_list V v) (\<lambda>vs.
           obind (read_viewports V vs None) (\<lambda>(vps, last_viewport). Ok (st, vps, last_viewport)))) of
        Err e \<Rightarrow> Some (Err e)
      | Panic \<Rightarrow> Some Panic
      | Ok (st, vps, last_viewport) \<Rightarrow>
          if vps = [] then Some (Ok (st, viewports))
          else (case last_viewport of
                  Some i \<Rightarrow> viewports_loop M V st main_code_id (Some i) (viewports @ vps)
                | None \<Rightarrow> Some (Ok (st, viewports @ vps))))"

definition get_viewports ::
  "('e, 'g, 'w, 'v) clarity_vm \<Rightarrow> 'v clarity \<Rightarrow> ('e, 'g, 'w) rstate \<Rightarrow> QualifiedContractIdentifier \<Rightarrow>
   (UiError, ('e, 'g, 'w) rstate \<times> SceneGraph) outcome option" where
  "get_viewports M V st main_code_id =
     do { r \<leftarrow> viewports_loop M V st main_code_id None [];
          (case r of
             Err e \<Rightarrow> Some (Err e)
           | Panic \<Rightarrow> Some Panic
           | Ok (st, viewports) \<Rightarrow> do { sg \<leftarrow> sg_new (rev viewports); Some (Ok (st, sg)) }) }"

section \<open>UI elements\<close>

definition load_and_cache_large_string ::
  "('e, 'g, 'w, 'v) clarity_vm \<Rightarrow> 'v clarity \<Rightarrow> ('e, 'g, 'w) rstate \<Rightarrow> QualifiedContractIdentifier \<Rightarrow> u128 \<Rightarrow>
   (UiError, ('e, 'g, 'w) rstate) outcome" where
  "load_and_cache_large_string M V st main_code_id handle =
     (if load_large_string_utf8 (snd st) handle = None then
        obind (query_value M st main_code_id (uint_arg ''wrb-internal-cache-bypass-load-large-string-utf8'' handle)) (\<lambda>(st, v).
        obind (expect_optional V v) (\<lambda>opt.
        (case opt of
           None \<Rightarrow> Ok st
         | Some s_value \<Rightarrow>
             obind (map_err Clarity (expect_utf8 V s_value)) (\<lambda>large_string.
             Ok (fst st, store_large_string_utf8 (snd st) handle large_string)))))
      else Ok st)"

text \<open>The value of an element, which must be there.\<close>

definition element_value ::
  "('e, 'g, 'w, 'v) clarity_vm \<Rightarrow> 'v clarity \<Rightarrow> ('e, 'g, 'w) rstate \<Rightarrow> QualifiedContractIdentifier \<Rightarrow> string \<Rightarrow>
   (UiError, ('e, 'g, 'w) rstate \<times> 'v) outcome" where
  "element_value M V st main_code_id qry =
     obind (query_value M st main_code_id qry) (\<lambda>(st, v).
     obind (expect_optional V v) (\<lambda>opt.
     obind (from_opt opt) (\<lambda>x. Ok (st, x))))"

text \<open>A text element: its large string is loaded before it is read.\<close>

definition with_large_string ::
  "('e, 'g, 'w, 'v) clarity_vm \<Rightarrow> 'v clarity \<Rightarrow> ('e, 'g, 'w) rstate \<Rightarrow> QualifiedContractIdentifier \<Rightarrow> 'v \<Rightarrow>
   ((u128 \<rightharpoonup> rchar list) \<Rightarrow> 'v \<Rightarrow> (UiError, Form) outcome) \<Rightarrow> (UiError, ('e, 'g, 'w) rstate \<times> Form) outcome" where
  "with_large_string M V st main_code_id v mk =
     obind (expect_tuple V v) (\<lambda>t.
     obind (get_u128 V t ''text-handle'') (\<lambda>handle.
     obind (load_and_cache_large_string M V st main_code_id handle) (\<lambda>st.
     obind (mk (gl_large_strings (snd st)) v) (\<lambda>form. Ok (st, form)))))"

definition box_form :: "('a \<Rightarrow> Form) \<Rightarrow> (UiError, 'a) outcome \<Rightarrow> (UiError, Form) outcome" where
  "box_form c m = obind m (\<lambda>x. Ok (c x))"

definition static_element ::
  "('e, 'g, 'w, 'v) clarity_vm \<Rightarrow> 'v clarity \<Rightarrow> ('e, 'g, 'w) rstate \<Rightarrow> QualifiedContractIdentifier \<Rightarrow> u128 \<Rightarrow>
   (UiError, ('e, 'g, 'w) rstate \<times> Form option) outcome" where
  "static_element M V st main_code_id index =
     obind (element_value M V st main_code_id (uint_arg ''wrb-ui-element-descriptor'' index)) (\<lambda>(st, desc).
     obind (expect_tuple V desc) (\<lambda>t.
     obind (get_u128 V t ''type'') (\<lambda>ui_type_value.
     obind (get_u128 V t ''viewport'') (\<lambda>viewport_id.
     (case form_type_try_from ui_type_value of
        None \<Rightarrow> Ok (st, None)
      | Some FText \<Rightarrow>
          obind (element_value M V st main_code_id (uint_arg ''wrb-ui-get-text-element'' index)) (\<lambda>(st, v).
          obind (with_large_string M V st main_code_id v
                   (\<lambda>ls v. box_form RawForm (raw_from_clarity_value V ls viewport_id v))) (\<lambda>(st, f). Ok (st, Some f)))
      | Some FPrint \<Rightarrow>
          obind (element_value M V st main_code_id (uint_arg ''wrb-ui-get-print-element'' index)) (\<lambda>(st, v).
          obind (with_large_string M V st main_code_id v
                   (\<lambda>ls v. box_form PrintForm (print_from_clarity_value V ls viewport_id v))) (\<lambda>(st, f). Ok (st, Some f)))
      | Some FButton \<Rightarrow>
          obind (element_value M V st main_code_id (uint_arg ''wrb-ui-get-button-element'' index)) (\<lambda>(st, v).
          obind (box_form ButtonForm (button_from_clarity_value V viewport_id v)) (\<lambda>f. Ok (st, Some f)))
      | Some FCheckbox \<Rightarrow>
          obind (element_value M V st main_code_id (uint_arg ''wrb-ui-get-checkbox-element'' index)) (\<lambda>(st, v).
          obind (box_form CheckboxForm (checkbox_from_clarity_value V viewport_id v)) (\<lambda>f. Ok (st, Some f)))
      | Some FTextLine \<Rightarrow>
          obind (element_value M V st main_code_id (uint_arg ''wrb-ui-get-textline-element'' index)) (\<lambda>(st, v).
          obind (box_form TextLineForm (tl_from_clarity_value V viewport_id v)) (\<lambda>f. Ok (st, Some f)))
      | Some FTextArea \<Rightarrow>
          obind (element_value M V st main_code_id (uint_arg ''wrb-ui-get-textarea-element'' index)) (\<lambda>(st, v).
          obind (box_form TextAreaForm (ta_from_clarity_value V viewport_id v)) (\<lambda>f. Ok (st, Some f))))))))"

fun static_elements ::
  "('e, 'g, 'w, 'v) clarity_vm \<Rightarrow> 'v clarity \<Rightarrow> ('e, 'g, 'w) rstate \<Rightarrow> QualifiedContractIdentifier \<Rightarrow> nat \<Rightarrow> nat \<Rightarrow>
   (UiError, ('e, 'g, 'w) rstate \<times> Form list) outcome" where
  "static_elements M V st main_code_id index 0 = Ok (st, [])"
| "static_elements M V st main_code_id index (Suc n) =
     obind (static_element M V st main_code_id (of_nat index)) (\<lambda>(st, f).
     obind (static_elements M V st main_code_id (index + 1) n) (\<lambda>(st, fs).
     Ok (st, (case f of None \<Rightarrow> fs | Some f \<Rightarrow> f # fs))))"

text \<open>\<open>Vec::with_capacity\<close> of boxed trait objects, sixteen bytes each.\<close>

definition boxes_capacity :: "nat \<Rightarrow> unit option" where
  "boxes_capacity n = (if 16 * n < 2 ^ 63 then Some () else None)"

definition get_static_ui_contents ::
  "('e, 'g, 'w, 'v) clarity_vm \<Rightarrow> 'v clarity \<Rightarrow> ('e, 'g, 'w) rstate \<Rightarrow> QualifiedContractIdentifier \<Rightarrow>
   (UiError, ('e, 'g, 'w) rstate \<times> Form list) outcome" where
  "get_static_ui_contents M V st main_code_id =
     obind (query_value M st main_code_id ''(print (wrb-ui-len))'') (\<lambda>(st, v).
     obind (expect_u128 V v) (\<lambda>num_elements.
     obind (from_opt (boxes_capacity (unat num_elements mod 2 ^ 64))) (\<lambda>_.
     static_elements M V st main_code_id 0 (unat num_elements))))"

fun dynamic_elements ::
  "('e, 'g, 'w, 'v) clarity_vm \<Rightarrow> 'v clarity \<Rightarrow> (u128 \<Rightarrow> (u128 \<rightharpoonup> rchar list) \<Rightarrow> 'v \<Rightarrow> (UiError, Form) outcome) \<Rightarrow>
   ('e, 'g, 'w) rstate \<Rightarrow> QualifiedContractIdentifier \<Rightarrow> 'v list \<Rightarrow>
   (UiError, ('e, 'g, 'w) rstate \<times> Form list) outcome" where
  "dynamic_elements M V mk st main_code_id [] = Ok (st, [])"
| "dynamic_elements M V mk st main_code_id (v # vs) =
     obind (expect_tuple V v) (\<lambda>t.
     obind (get_u128 V t ''viewport-id'') (\<lambda>viewport_id.
     obind (with_large_string M V st main_code_id v (mk viewport_id)) (\<lambda>(st, f).
     obind (dynamic_elements M V mk st main_code_id vs) (\<lambda>(st, fs). Ok (st, f # fs)))))"

definition get_dynamic_ui_contents ::
  "('e, 'g, 'w, 'v) clarity_vm \<Rightarrow> 'v clarity \<Rightarrow> ('e, 'g, 'w) rstate \<Rightarrow> QualifiedContractIdentifier \<Rightarrow>
   (UiError, ('e, 'g, 'w) rstate \<times> Form list) outcome" where
  "get_dynamic_ui_contents M V st main_code_id =
     obind (query_value M st main_code_id ''(print (wrb-dynamic-ui-get-text-elements))'') (\<lambda>(st, v).
     obind (expect_list V v) (\<lambda>text_ui_list.
     obind (dynamic_elements M V (\<lambda>i ls v. box_form RawForm (raw_from_clarity_value V ls i v)) st main_code_id
              text_ui_list) (\<lambda>(st, texts).
     obind (query_value M st main_code_id ''(print (wrb-dynamic-ui-get-print-elements))'') (\<lambda>(st, v).
     obind (expect_list V v) (\<lambda>print_ui_list.
     obind (dynamic_elements M V (\<lambda>i ls v. box_form PrintForm (print_from_clarity_value V ls i v)) st main_code_id
              print_ui_list) (\<lambda>(st, prints).
     Ok (st, texts @ prints)))))))"

section \<open>Updates\<close>

fun read_updates ::
  "('e, 'g, 'w, 'v) clarity_vm \<Rightarrow> 'v clarity \<Rightarrow> ('e, 'g, 'w) rstate \<Rightarrow> QualifiedContractIdentifier \<Rightarrow> u128 list \<Rightarrow>
   (UiError, ('e, 'g, 'w) rstate \<times> Viewport list) outcome" where
  "read_updates M V st main_code_id [] = Ok (st, [])"
| "read_updates M V st main_code_id (i # is) =
     obind (query_value M st main_code_id (uint_arg ''wrb-get-viewport'' i)) (\<lambda>(st, v).
     obind (expect_optional V v) (\<lambda>opt.
     (case opt of
        None \<Rightarrow> read_updates M V st main_code_id is
      | Some viewport_val \<Rightarrow>
          obind (vp_from_clarity_value V viewport_val) (\<lambda>viewport.
          obind (read_updates M V st main_code_id is) (\<lambda>(st, vps). Ok (st, viewport # vps))))))"

definition ok_u128 :: "'v clarity \<Rightarrow> 'v \<Rightarrow> u128 option" where
  "ok_u128 V v = (case cl_expect_u128 V v of Ok x \<Rightarrow> Some x | _ \<Rightarrow> None)"

definition get_updated_viewports ::
  "('e, 'g, 'w, 'v) clarity_vm \<Rightarrow> 'v clarity \<Rightarrow> ('e, 'g, 'w) rstate \<Rightarrow> QualifiedContractIdentifier \<Rightarrow>
   (UiError, ('e, 'g, 'w) rstate \<times> Viewport list) outcome" where
  "get_updated_viewports M V st main_code_id =
     obind (query_value M st main_code_id ''(print (wrb-take-viewport-updates))'') (\<lambda>(st, v).
     obind (expect_list V v) (\<lambda>vs.
     read_updates M V st main_code_id (List.map_filter (ok_u128 V) vs)))"

section \<open>The root pane\<close>

definition make_root ::
  "('e, 'g, 'w, 'v) clarity_vm \<Rightarrow> 'v clarity \<Rightarrow> ('e, 'g, 'w) rstate \<Rightarrow> QualifiedContractIdentifier \<Rightarrow>
   (UiError, ('e, 'g, 'w) rstate \<times> (Form, 'v) Root) outcome option" where
  "make_root M V st main_code_id =
     do { r \<leftarrow> get_viewports M V st main_code_id;
          Some (obind r (\<lambda>(st, scenegraph).
                obind (query_value M st main_code_id ''(print (wrb-get-root))'') (\<lambda>(st, v).
                obind (expect_tuple V v) (\<lambda>t.
                obind (get_u128 V t ''rows'') (\<lambda>x. obind (from_opt (u64_try_from x)) (\<lambda>rows.
                obind (get_u128 V t ''cols'') (\<lambda>x. obind (from_opt (u64_try_from x)) (\<lambda>cols.
                obind (get_static_ui_contents M V st main_code_id) (\<lambda>(st, statics).
                obind (get_dynamic_ui_contents M V st main_code_id) (\<lambda>(st, dynamics).
                obind (set_all_forms (form_table V) (root_new rows cols scenegraph) statics dynamics) (\<lambda>root.
                Ok (st, root)))))))))))) }"

definition make_root_update ::
  "('e, 'g, 'w, 'v) clarity_vm \<Rightarrow> 'v clarity \<Rightarrow> ('e, 'g, 'w) rstate \<Rightarrow> QualifiedContractIdentifier \<Rightarrow>
   (UiError, ('e, 'g, 'w) rstate \<times> Form FrameUpdate) outcome" where
  "make_root_update M V st main_code_id =
     obind (get_dynamic_ui_contents M V st main_code_id) (\<lambda>(st, dynamics).
     obind (get_updated_viewports M V st main_code_id) (\<lambda>(st, vps).
     Ok (st, \<lparr>fu_new_contents = dynamics, fu_updated_viewports = vps\<rparr>)))"

end
