(* ===== verification/Event_Loop.thy ===== *)
theory Event_Loop
  imports Renderer
begin

text \<open>
  The event loop of a page (\<open>src/ui/events.rs\<close>) and the evaluation of a page to text
  (\<open>src/ui/render.rs\<close>). A page is decoded, installed in the virtual machine and then asked for
  its event handler; every event it has subscribed to runs the handler and sends a frame. The
  events come in the order of the channel, as a list: its end is a channel whose sender is
  gone. The frames sent are a list too; whether the receiver is still there when a frame is
  sent is an argument. The operations of the virtual machine and of the LZMA decoder are
  fields of a record. One of them, \<open>pv_dropped\<close>, is the state after a handler that failed on an
  event: its environment is dropped, and what its special functions did to the global state stays.
\<close>

section \<open>The interface of the virtual machine\<close>

record arg_type =
  at_admits_uint :: bool
  at_admits_buff1024 :: bool

datatype fn_type = Fixed "arg_type list" | NotFixed

record analysis =
  an_read_only :: "string \<rightharpoonup> fn_type"
  an_public :: "string \<rightharpoonup> fn_type"

record ('e, 'g, 'w, 'v) page_vm =
  pv_vm :: "('e, 'g, 'w, 'v) clarity_vm"
  pv_decode :: "bytes \<Rightarrow> (UiError, bytes) outcome"
  pv_initialize_app :: "('e, 'g, 'w) rstate \<Rightarrow> string \<Rightarrow> (UiError, ('e, 'g, 'w) rstate \<times> QualifiedContractIdentifier) outcome"
  pv_begin_page_load :: "'e \<Rightarrow> (UiError, 'e) outcome"
  pv_begin :: "'e \<Rightarrow> 'e"
  pv_roll_back :: "'e \<Rightarrow> (UiError, 'e) outcome"
  pv_commit :: "'e \<Rightarrow> (UiError, 'e) outcome"
  pv_tx_commit :: "'e \<Rightarrow> (UiError, 'e) outcome"
  pv_dropped :: "('e, 'g, 'w) rstate \<Rightarrow> string \<Rightarrow> 'v WrbEvent \<Rightarrow> ('e, 'g, 'w) rstate"
  pv_load_analysis :: "'e \<Rightarrow> QualifiedContractIdentifier \<Rightarrow> (UiError, analysis option) outcome"
  pv_clarity_name :: "string \<Rightarrow> bool"
  pv_expect_ascii :: "'v \<Rightarrow> (clarity_error, string) outcome"
  pv_none :: 'v
  pv_uint :: "u128 \<Rightarrow> 'v"
  pv_serialize :: "'v \<Rightarrow> bytes option"

section \<open>Decoding a page\<close>

definition read_as_ascii :: "('e, 'g, 'w, 'v) page_vm \<Rightarrow> bytes \<Rightarrow> (UiError, string) outcome" where
  "read_as_ascii P compressed_input =
     obind (pv_decode P compressed_input) (\<lambda>decompressed_code.
     if \<not> utf8_valid decompressed_code then Err (Codec ''Compressed bytes did not decode to a utf8 string'')
     else if \<not> (\<forall>b \<in> set decompressed_code. b < 0x80) then Err (Codec ''Expected ASCII string'')
     else Ok (map (\<lambda>b. char_of (unat b)) decompressed_code))"

section \<open>Finding the event loop\<close>

text \<open>A query in a fresh environment whose changes are rolled back.\<close>

definition in_env :: "('e, 'g, 'w, 'v) page_vm \<Rightarrow> ('e, 'g, 'w) rstate \<Rightarrow> ('e, 'g, 'w) rstate" where
  "in_env P st = (pv_begin P (fst st), snd st)"

definition leave_env ::
  "('e \<Rightarrow> (UiError, 'e) outcome) \<Rightarrow> ('e, 'g, 'w) rstate \<Rightarrow> (UiError, ('e, 'g, 'w) rstate) outcome" where
  "leave_env f st = obind (f (fst st)) (\<lambda>env. Ok (env, snd st))"

fun check_args :: "arg_type list \<Rightarrow> nat \<Rightarrow> (UiError, unit) outcome" where
  "check_args [] i = Ok ()"
| "check_args (arg # args) i =
     (if i < 3 \<and> \<not> at_admits_uint arg then Err (Page ''expects uint arguments for the first three args'')
      else if i = 3 \<and> \<not> at_admits_buff1024 arg then Err (Page ''expects (buff 1024) arguments the last arg'')
      else check_args args (i + 1))"

definition find_event_loop_function ::
  "('e, 'g, 'w, 'v) page_vm \<Rightarrow> 'v clarity \<Rightarrow> ('e, 'g, 'w) rstate \<Rightarrow> QualifiedContractIdentifier \<Rightarrow>
   (UiError, ('e, 'g, 'w) rstate \<times> string option) outcome" where
  "find_event_loop_function P V st main_code_id =
     obind (query_value (pv_vm P) (in_env P st) main_code_id ''(print (wrb-get-event-loop-name))'') (\<lambda>(st, v).
     obind (expect_optional V v) (\<lambda>opt.
     obind (case opt of None \<Rightarrow> Ok None
            | Some name_val \<Rightarrow> obind (map_err Clarity (pv_expect_ascii P name_val)) (\<lambda>name. Ok (Some name))) (\<lambda>name_opt.
     obind (leave_env (pv_roll_back P) st) (\<lambda>st.
     (case name_opt of
        None \<Rightarrow> Ok (st, None)
      | Some event_loop_name \<Rightarrow>
          if \<not> pv_clarity_name P event_loop_name then Err (Codec ''Invalid event loop function name'')
          else
          obind (pv_load_analysis P (fst st) main_code_id) (\<lambda>analysis_opt.
          obind (from_opt analysis_opt) (\<lambda>analysis.
          obind (case an_read_only analysis event_loop_name of
                   Some f \<Rightarrow> Ok f
                 | None \<Rightarrow> ok_or (an_public analysis event_loop_name) (Page ''No such event loop function'')) (\<lambda>func.
          (case func of
             Fixed args \<Rightarrow>
               if length args \<noteq> 4 then Err (Page ''expects 4 arguments'')
               else obind (check_args args 0) (\<lambda>_. Ok (st, Some event_loop_name))
           | NotFixed \<Rightarrow> Err (Page ''is not a fixed function''))))))))))"

fun read_subscriptions ::
  "('e, 'g, 'w, 'v) page_vm \<Rightarrow> 'v clarity \<Rightarrow> ('e, 'g, 'w) rstate \<Rightarrow> QualifiedContractIdentifier \<Rightarrow> nat \<Rightarrow> nat \<Rightarrow>
   (UiError, ('e, 'g, 'w) rstate \<times> u128 set) outcome" where
  "read_subscriptions P V st main_code_id index 0 = Ok (st, {})"
| "read_subscriptions P V st main_code_id index (Suc n) =
     obind (element_value (pv_vm P) V st main_code_id (uint_arg ''wrb-get-event-subscription'' (of_nat index))) (\<lambda>(st, v).
     obind (expect_u128 V v) (\<lambda>event_type.
     obind (read_subscriptions P V st main_code_id (index + 1) n) (\<lambda>(st, subscriptions).
     Ok (st, insert event_type subscriptions))))"

definition find_event_subscriptions ::
  "('e, 'g, 'w, 'v) page_vm \<Rightarrow> 'v clarity \<Rightarrow> ('e, 'g, 'w) rstate \<Rightarrow> QualifiedContractIdentifier \<Rightarrow>
   (UiError, ('e, 'g, 'w) rstate \<times> u128 set) outcome" where
  "find_event_subscriptions P V st main_code_id =
     obind (query_value (pv_vm P) (in_env P st) main_code_id ''(print (wrb-get-num-event-subscriptions))'') (\<lambda>(st, v).
     obind (expect_u128 V v) (\<lambda>num_subscriptions.
     obind (read_subscriptions P V st main_code_id 0 (unat num_subscriptions)) (\<lambda>(st, subscriptions).
     obind (leave_env (pv_roll_back P) st) (\<lambda>st. Ok (st, subscriptions)))))"

definition find_event_loop_delay ::
  "('e, 'g, 'w, 'v) page_vm \<Rightarrow> 'v clarity \<Rightarrow> ('e, 'g, 'w) rstate \<Rightarrow> QualifiedContractIdentifier \<Rightarrow>
   (UiError, ('e, 'g, 'w) rstate \<times> coord) outcome" where
  "find_event_loop_delay P V st main_code_id =
     obind (query_value (pv_vm P) (in_env P st) main_code_id ''(print (wrb-get-event-loop-time))'') (\<lambda>(st, v).
     obind (expect_u128 V v) (\<lambda>delay_ms.
     let delay_ms = (if delay_ms > 0xFFFFFFFFFFFFFFFF then 0xFFFFFFFFFFFFFFFF else delay_ms) in
     obind (leave_env (pv_roll_back P) st) (\<lambda>st. Ok (st, unat delay_ms))))"

section \<open>One pass\<close>

definition event_payload :: "('e, 'g, 'w, 'v) page_vm \<Rightarrow> 'v clarity \<Rightarrow> 'v WrbEvent \<Rightarrow> (UiError, bytes) outcome" where
  "event_payload P V event =
     (case event of
        EvResize rows cols \<Rightarrow>
          obind (to_panic (cl_tuple V [(''rows'', pv_uint P (of_nat rows)), (''cols'', pv_uint P (of_nat cols))])) (\<lambda>t.
          from_opt (pv_serialize P t))
      | EvUI _ _ payload \<Rightarrow> from_opt (pv_serialize P payload)
      | _ \<Rightarrow> from_opt (pv_serialize P (pv_none P)))"

definition run_one_event_loop_pass ::
  "('e, 'g, 'w, 'v) page_vm \<Rightarrow> 'v clarity \<Rightarrow> ('e, 'g, 'w) rstate \<Rightarrow> QualifiedContractIdentifier \<Rightarrow> string \<Rightarrow> 'v WrbEvent \<Rightarrow>
   (UiError, ('e, 'g, 'w) rstate \<times> 'v) outcome" where
  "run_one_event_loop_pass P V st main_code_id event_handler event =
     obind (event_payload P V event) (\<lambda>payload.
     obind (query_value (pv_vm P) (in_env P st) main_code_id
              (''(print ('' @ event_handler @ '' u'' @ show_u128 (event_element_type event) @ '' u'' @
               show_u128 (event_element_id event) @ '' u'' @ show_u128 (event_type event) @ '' 0x'' @
               to_hex payload @ ''))'')) (\<lambda>(st, res).
     obind (leave_env (pv_commit P) st) (\<lambda>st. Ok (st, res))))"

section \<open>The loop\<close>

datatype 'v WrbFrameData = FrameRoot "(Form, 'v) Root" | FrameUpdate "Form FrameUpdate"

record ('e, 'g, 'w, 'v) page_run =
  pr_state :: "('e, 'g, 'w) rstate"
  pr_result :: "'v option"
  pr_sent :: "'v WrbFrameData list"
  pr_has_root :: bool

text \<open>What the loop does not change.\<close>

record page_config =
  pc_main :: QualifiedContractIdentifier
  pc_handler :: string
  pc_subscriptions :: "u128 set"
  pc_delay :: coord

fun is_close :: "'v WrbEvent \<Rightarrow> bool" where
  "is_close EvClose = True"
| "is_close _ = False"

fun is_open :: "'v WrbEvent \<Rightarrow> bool" where
  "is_open EvOpen = True"
| "is_open _ = False"

definition not_subscribed :: "page_config \<Rightarrow> 'v WrbEvent \<Rightarrow> bool" where
  "not_subscribed C event \<longleftrightarrow>
     pc_subscriptions C \<noteq> {} \<and> event_type event \<notin> pc_subscriptions C \<and> \<not> is_open event"

text \<open>The frame of a pass: the whole root pane the first time, then updates.\<close>

definition next_frame_data ::
  "('e, 'g, 'w, 'v) page_vm \<Rightarrow> 'v clarity \<Rightarrow> page_config \<Rightarrow> bool \<Rightarrow> ('e, 'g, 'w) rstate \<Rightarrow>
   (UiError, ('e, 'g, 'w) rstate \<times> 'v WrbFrameData) outcome option" where
  "next_frame_data P V C has_root st =
     (if has_root then
        Some (obind (make_root_update (pv_vm P) V (in_env P st) (pc_main C)) (\<lambda>(st, root_update).
              obind (leave_env (pv_commit P) st) (\<lambda>st. Ok (st, FrameUpdate root_update))))
      else
        do { r \<leftarrow> make_root (pv_vm P) V (in_env P st) (pc_main C);
             Some (obind r (\<lambda>(st, root).
                   let root = root\<lparr>rt_frame_delay := (if event_type (EvTimer :: 'v WrbEvent) \<in> pc_subscriptions C
                                                      then Some (pc_delay C) else None)\<rparr> in
                   obind (leave_env (pv_commit P) st) (\<lambda>st. Ok (st, FrameRoot root)))) })"

fun page_loop ::
  "('e, 'g, 'w, 'v) page_vm \<Rightarrow> 'v clarity \<Rightarrow> page_config \<Rightarrow> (nat \<Rightarrow> bool) \<Rightarrow> 'v WrbEvent list \<Rightarrow> ('e, 'g, 'w, 'v) page_run \<Rightarrow>
   (UiError, ('e, 'g, 'w, 'v) page_run) outcome option" where
  "page_loop P V C receiving [] s = Some (Ok s)"
| "page_loop P V C receiving (next_event # events) s =
     (if not_subscribed C next_event then
        (if is_close next_event then Some (Ok s) else page_loop P V C receiving events s)
      else
       (case run_one_event_loop_pass P V (pr_state s) (pc_main C) (pc_handler C) next_event of
          Panic \<Rightarrow> Some Panic
        | Err e \<Rightarrow> Some (Ok (s\<lparr>pr_state := pv_dropped P (pr_state s) (pc_handler C) next_event\<rparr>))
        | Ok (st, result) \<Rightarrow>
            (let s = s\<lparr>pr_state := st, pr_result := Some result\<rparr> in
             do { f \<leftarrow> next_frame_data P V C (pr_has_root s) (pr_state s);
                  (case f of
                     Panic \<Rightarrow> Some Panic
                   | Err e \<Rightarrow> Some (Err e)
                   | Ok (st, frame) \<Rightarrow>
                       (let s = s\<lparr>pr_state := st\<rparr> in
                        if \<not> receiving (length (pr_sent s)) then Some (Ok s)
                        else (let s = s\<lparr>pr_sent := pr_sent s @ [frame], pr_has_root := True\<rparr> in
                              if is_close next_event then Some (Ok s)
                              else page_loop P V C receiving events s))) })))"

text \<open>\<open>run_page\<close>, up to the loop and as a whole: the frames sent and the last result of the handler.\<close>

definition setup_page ::
  "('e, 'g, 'w, 'v) page_vm \<Rightarrow> 'v clarity \<Rightarrow> ('e, 'g, 'w) rstate \<Rightarrow> bytes \<Rightarrow>
   (UiError, ('e, 'g, 'w) rstate \<times> QualifiedContractIdentifier \<times> string option \<times> u128 set \<times> coord) outcome" where
  "setup_page P V st compressed_input =
     obind (read_as_ascii P compressed_input) (\<lambda>app_code.
     obind (pv_initialize_app P st app_code) (\<lambda>(st, main_code_id).
     obind (leave_env (pv_begin_page_load P) st) (\<lambda>st.
     obind (find_event_loop_function P V st main_code_id) (\<lambda>(st, func_opt).
     obind (find_event_subscriptions P V st main_code_id) (\<lambda>(st, subscriptions).
     obind (find_event_loop_delay P V st main_code_id) (\<lambda>(st, delay).
     Ok (st, main_code_id, func_opt, subscriptions, delay)))))))"

definition run_page ::
  "('e, 'g, 'w, 'v) page_vm \<Rightarrow> 'v clarity \<Rightarrow> ('e, 'g, 'w) rstate \<Rightarrow> bytes \<Rightarrow> (nat \<Rightarrow> bool) \<Rightarrow> 'v WrbEvent list \<Rightarrow>
   (UiError, ('e, 'g, 'w) rstate \<times> 'v WrbFrameData list \<times> 'v option) outcome option" where
  "run_page P V st compressed_input receiving events =
     (case setup_page P V st compressed_input of
        Panic \<Rightarrow> Some Panic
      | Err e \<Rightarrow> Some (Err e)
      | Ok (st, main_code_id, func_opt, subscriptions, delay) \<Rightarrow>
         (case func_opt of
            None \<Rightarrow>
              do { r \<leftarrow> make_root (pv_vm P) V (in_env P st) main_code_id;
                   Some (obind r (\<lambda>(st, root).
                         obind (leave_env (pv_commit P) st) (\<lambda>st.
                         let sent = (if receiving 0 then [FrameRoot root] else []) in
                         obind (leave_env (pv_tx_commit P) st) (\<lambda>st. Ok (st, sent, None))))) }
          | Some event_loop_func \<Rightarrow>
              do { r \<leftarrow> page_loop P V \<lparr>pc_main = main_code_id, pc_handler = event_loop_func,
                                        pc_subscriptions = subscriptions, pc_delay = delay\<rparr> receiving events
                         \<lparr>pr_state = st, pr_result = None, pr_sent = [], pr_has_root = False\<rparr>;
                   Some (obind r (\<lambda>s.
                         obind (leave_env (pv_tx_commit P) (pr_state s)) (\<lambda>st. Ok (st, pr_sent s, pr_result s)))) }))"

section \<open>Evaluating a page\<close>

text \<open>One pass with a close event in the channel, then the frame is taken.\<close>

definition eval_root ::
  "('e, 'g, 'w, 'v) page_vm \<Rightarrow> 'v clarity \<Rightarrow> ('e, 'g, 'w) rstate \<Rightarrow> bytes \<Rightarrow>
   (UiError, ('e, 'g, 'w) rstate \<times> (Form, 'v) Root) outcome option" where
  "eval_root P V st compressed_input =
     do { r \<leftarrow> run_page P V st compressed_input (\<lambda>_. True) [EvClose];
          Some (obind r (\<lambda>(st, frames, _).
                (case frames of
                   [] \<Rightarrow> Err (Event ''Failed to poll next frame'')
                 | FrameRoot root # _ \<Rightarrow> Ok (st, root)
                 | _ \<Rightarrow> Err (Event ''Did not receive root'')))) }"

definition eval_to_charbuff ::
  "('e, 'g, 'w, 'v) page_vm \<Rightarrow> 'v clarity \<Rightarrow> ('e, 'g, 'w) rstate \<Rightarrow> bytes \<Rightarrow>
   (UiError, ('e, 'g, 'w) rstate \<times> CharBuff) outcome option" where
  "eval_to_charbuff P V st compressed_input =
     do { r \<leftarrow> eval_root P V st compressed_input;
          Some (obind r (\<lambda>(st, root).
                obind (from_opt (root_refresh (form_table V) root)) (\<lambda>(_, buff). Ok (st, buff)))) }"

definition eval_to_scanlines ::
  "('e, 'g, 'w, 'v) page_vm \<Rightarrow> 'v clarity \<Rightarrow> ('e, 'g, 'w) rstate \<Rightarrow> bytes \<Rightarrow>
   (UiError, ('e, 'g, 'w) rstate \<times> Scanline list) outcome option" where
  "eval_to_scanlines P V st compressed_input =
     do { r \<leftarrow> eval_to_charbuff P V st compressed_input;
          Some (obind r (\<lambda>(st, buff).
                obind (from_opt (scan_compile buff)) (\<lambda>scanlines. Ok (st, scanlines)))) }"

definition scanlines_into_text :: "Scanline list \<Rightarrow> rchar list" where
  "scanlines_into_text scanlines = concat (map into_text scanlines)"

definition eval_to_text ::
  "('e, 'g, 'w, 'v) page_vm \<Rightarrow> 'v clarity \<Rightarrow> ('e, 'g, 'w) rstate \<Rightarrow> bytes \<Rightarrow>
   (UiError, ('e, 'g, 'w) rstate \<times> rchar list) outcome option" where
  "eval_to_text P V st compressed_input =
     do { r \<leftarrow> eval_to_scanlines P V st compressed_input;
          Some (obind r (\<lambda>(st, scanlines). Ok (st, scanlines_into_text scanlines))) }"

text \<open>The escape sequences of \<open>termion\<close> are arguments, as in \<open>into_term_code\<close>.\<close>

definition scanlines_into_term_string ::
  "(u8 \<Rightarrow> u8 \<Rightarrow> u8 \<Rightarrow> rchar list) \<Rightarrow> (u8 \<Rightarrow> u8 \<Rightarrow> u8 \<Rightarrow> rchar list) \<Rightarrow> rchar list \<Rightarrow> rchar list \<Rightarrow> rchar list \<Rightarrow>
   Scanline list \<Rightarrow> rchar list" where
  "scanlines_into_term_string fg bg clr fg_reset bg_reset scanlines =
     concat (map (into_term_code fg bg clr fg_reset bg_reset) scanlines)"

definition eval_to_string ::
  "(u8 \<Rightarrow> u8 \<Rightarrow> u8 \<Rightarrow> rchar list) \<Rightarrow> (u8 \<Rightarrow> u8 \<Rightarrow> u8 \<Rightarrow> rchar list) \<Rightarrow> rchar list \<Rightarrow> rchar list \<Rightarrow> rchar list \<Rightarrow>
   ('e, 'g, 'w, 'v) page_vm \<Rightarrow> 'v clarity \<Rightarrow> ('e, 'g, 'w) rstate \<Rightarrow> bytes \<Rightarrow>
   (UiError, ('e, 'g, 'w) rstate \<times> rchar list) outcome option" where
  "eval_to_string fg bg clr fg_reset bg_reset P V st compressed_input =
     do { r \<leftarrow> eval_to_scanlines P V st compressed_input;
          Some (obind r (\<lambda>(st, scanlines).
                Ok (st, scanlines_into_term_string fg bg clr fg_reset bg_reset scanlines))) }"

end
