(* ===== verification/Page_Store.thy ===== *)
theory Page_Store
  imports Root_Props
begin

text \<open>
  The viewports of a page as the runtime contract keeps them (\<open>src/vm/contracts/wrb.clar\<close>): a map
  of records in which every viewport knows the one created before it. A failed \<open>asserts!\<close> or an
  arithmetic overflow aborts the call, which is \<open>None\<close>. What the renderer reads back is shown
  to be a scene that can be drawn.
\<close>

section \<open>The store\<close>

record viewport_rec =
  wv_start_col :: u128
  wv_start_row :: u128
  wv_num_cols :: u128
  wv_num_rows :: u128
  wv_visible :: bool
  wv_parent :: "u128 option"
  wv_last :: "u128 option"

record wrb_store =
  ws_viewports :: "u128 \<rightharpoonup> viewport_rec"
  ws_last_viewport_id :: "u128 option"

definition ws_empty :: wrb_store where
  "ws_empty = \<lparr>ws_viewports = Map.empty, ws_last_viewport_id = None\<rparr>"

text \<open>Addition of Clarity unsigned integers aborts on overflow.\<close>

definition uint_add :: "u128 \<Rightarrow> u128 \<Rightarrow> u128 option" where
  "uint_add a b = (if unat a + unat b < 2 ^ 128 then Some (a + b) else None)"

definition wrb_check_dims :: "u128 \<Rightarrow> u128 \<Rightarrow> u128 \<Rightarrow> u128 \<Rightarrow> unit option" where
  "wrb_check_dims start_row start_col num_rows num_cols =
     (if \<not> start_col < 65536 then None else
      if \<not> start_row < 65536 then None else
      do { c \<leftarrow> uint_add start_col num_cols;
           if \<not> c < 65536 then None else
           do { r \<leftarrow> uint_add start_row num_rows;
                if \<not> r < 65536 then None else Some () } })"

definition wrb_viewport :: "wrb_store \<Rightarrow> u128 \<Rightarrow> u128 \<Rightarrow> u128 \<Rightarrow> u128 \<Rightarrow> u128 \<Rightarrow> wrb_store option" where
  "wrb_viewport s i start_row start_col num_rows num_cols =
     do { wrb_check_dims start_row start_col num_rows num_cols;
          if ws_viewports s i \<noteq> None then None
          else Some \<lparr>ws_viewports = (ws_viewports s)(i \<mapsto>
                       \<lparr>wv_start_col = start_col, wv_start_row = start_row, wv_num_cols = num_cols, wv_num_rows = num_rows,
                        wv_visible = True, wv_parent = None, wv_last = ws_last_viewport_id s\<rparr>),
                     ws_last_viewport_id = Some i\<rparr> }"

definition wrb_child_viewport ::
  "wrb_store \<Rightarrow> u128 \<Rightarrow> u128 \<Rightarrow> u128 \<Rightarrow> u128 \<Rightarrow> u128 \<Rightarrow> u128 \<Rightarrow> wrb_store option" where
  "wrb_child_viewport s i parent_id start_row start_col num_rows num_cols =
     do { wrb_check_dims start_row start_col num_rows num_cols;
          if ws_viewports s i \<noteq> None then None
          else if ws_viewports s parent_id = None then None
          else Some \<lparr>ws_viewports = (ws_viewports s)(i \<mapsto>
                       \<lparr>wv_start_col = start_col, wv_start_row = start_row, wv_num_cols = num_cols, wv_num_rows = num_rows,
                        wv_visible = True, wv_parent = Some parent_id, wv_last = ws_last_viewport_id s\<rparr>),
                     ws_last_viewport_id = Some i\<rparr> }"

fun wrb_get_viewports_iter ::
  "wrb_store \<Rightarrow> u128 option \<times> (u128 \<times> viewport_rec) list \<Rightarrow> u128 option \<times> (u128 \<times> viewport_rec) list" where
  "wrb_get_viewports_iter s (cursor, viewports) =
     (case cursor of
        None \<Rightarrow> (cursor, viewports)
      | Some c \<Rightarrow>
         (case ws_viewports s c of
            None \<Rightarrow> (cursor, viewports)
          | Some r \<Rightarrow> (wv_last r, if length viewports < 1024 then viewports @ [(c, r)] else viewports)))"

definition wrb_get_viewports :: "wrb_store \<Rightarrow> u128 option \<Rightarrow> (u128 \<times> viewport_rec) list" where
  "wrb_get_viewports s cursor =
     snd ((wrb_get_viewports_iter s ^^ 20) (if cursor = None then ws_last_viewport_id s else cursor, []))"

section \<open>Pages\<close>

text \<open>The calls a page makes, in order.\<close>

datatype create = Create u128 "u128 option" u128 u128 u128 u128  \<comment> \<open>id, parent, row, column, rows, columns\<close>

fun create_viewport :: "wrb_store \<Rightarrow> create \<Rightarrow> wrb_store option" where
  "create_viewport s (Create i None r c nr nc) = wrb_viewport s i r c nr nc"
| "create_viewport s (Create i (Some p) r c nr nc) = wrb_child_viewport s i p r c nr nc"

fun create_viewports :: "wrb_store \<Rightarrow> create list \<Rightarrow> wrb_store option" where
  "create_viewports s [] = Some s"
| "create_viewports s (c # cs) = do { s \<leftarrow> create_viewport s c; create_viewports s cs }"

text \<open>The records the store has after the calls, in order of creation.\<close>

fun create_id :: "create \<Rightarrow> u128" where
  "create_id (Create i _ _ _ _ _) = i"

fun create_rec :: "u128 option \<Rightarrow> create \<Rightarrow> viewport_rec" where
  "create_rec prev (Create i p r c nr nc) =
     \<lparr>wv_start_col = c, wv_start_row = r, wv_num_cols = nc, wv_num_rows = nr, wv_visible = True,
      wv_parent = p, wv_last = prev\<rparr>"

fun entries :: "u128 option \<Rightarrow> create list \<Rightarrow> (u128 \<times> viewport_rec) list" where
  "entries prev [] = []"
| "entries prev (c # cs) = (create_id c, create_rec prev c) # entries (Some (create_id c)) cs"

definition dims_ok :: "viewport_rec \<Rightarrow> bool" where
  "dims_ok r \<longleftrightarrow> unat (wv_start_row r) + unat (wv_num_rows r) < 65536 \<and>
     unat (wv_start_col r) + unat (wv_num_cols r) < 65536"

text \<open>What holds of the store after creating the entries \<open>es\<close>.\<close>

definition store_rep :: "wrb_store \<Rightarrow> (u128 \<times> viewport_rec) list \<Rightarrow> bool" where
  "store_rep s es \<longleftrightarrow> ws_viewports s = map_of es \<and> distinct (map fst es) \<and>
     ws_last_viewport_id s = (if es = [] then None else Some (fst (last es))) \<and>
     (\<forall>k < length es. wv_last (snd (es ! k)) = (if k = 0 then None else Some (fst (es ! (k - 1))))) \<and>
     (\<forall>k < length es. dims_ok (snd (es ! k)) \<and> wv_visible (snd (es ! k)) \<and>
        (\<forall>p. wv_parent (snd (es ! k)) = Some p \<longrightarrow> (\<exists>j < k. fst (es ! j) = p)))"

lemma store_repD:
  assumes "store_rep s es" and "k < length es"
  shows "ws_viewports s (fst (es ! k)) = Some (snd (es ! k))"
    and "wv_last (snd (es ! k)) = (if k = 0 then None else Some (fst (es ! (k - 1))))"
    and "dims_ok (snd (es ! k))" and "wv_parent (snd (es ! k)) = Some p \<Longrightarrow> \<exists>j < k. fst (es ! j) = p"
proof -
  have "map_of es (fst (es ! k)) = Some (snd (es ! k))"
    using assms by (intro map_of_is_SomeI) (auto simp: store_rep_def)
  then show "ws_viewports s (fst (es ! k)) = Some (snd (es ! k))" using assms by (simp add: store_rep_def)
qed (use assms in \<open>simp_all add: store_rep_def\<close>)

lemma check_dims_ok:
  assumes "wrb_check_dims r c nr nc = Some x"
  shows "unat r + unat nr < 65536 \<and> unat c + unat nc < 65536"
proof -
  have "unat (a + b) = unat a + unat b" if "uint_add a b = Some y" for a b y
    using that by (auto simp: uint_add_def unat_word_ariths split: if_splits)
  then show ?thesis
    using assms by (auto simp: wrb_check_dims_def uint_add_def bind_Some_iff word_less_nat_alt split: if_splits)
qed

lemma map_of_snoc: "k \<notin> fst ` set es \<Longrightarrow> map_of (es @ [(k, v)]) = (map_of es)(k \<mapsto> v)"
  by (induction es) (auto simp: fun_eq_iff)

lemma create_step:
  assumes rep: "store_rep s es" and step: "create_viewport s c = Some s'"
  shows "store_rep s' (es @ [(create_id c, create_rec (ws_last_viewport_id s) c)])"
proof -
  obtain i p r cl nr nc where c: "c = Create i p r cl nr nc" by (cases c)
  let ?e = "create_rec (ws_last_viewport_id s) c"
  have s': "s' = \<lparr>ws_viewports = (ws_viewports s)(i \<mapsto> ?e), ws_last_viewport_id = Some i\<rparr>"
    and new: "ws_viewports s i = None" and dims: "dims_ok ?e"
    and par: "\<forall>q. p = Some q \<longrightarrow> ws_viewports s q \<noteq> None"
    using step check_dims_ok
    by (cases p; auto simp: c wrb_viewport_def wrb_child_viewport_def bind_Some_iff dims_ok_def split: if_splits)+
  have i: "i \<notin> fst ` set es" using new rep by (auto simp: store_rep_def map_of_eq_None_iff)
  have "\<exists>j < length es. fst (es ! j) = q" if "p = Some q" for q
  proof -
    have "map_of es q \<noteq> None" using par that rep by (simp add: store_rep_def)
    then have "q \<in> set (map fst es)" by (simp add: map_of_eq_None_iff)
    then show ?thesis unfolding in_set_conv_nth by auto
  qed
  then show ?thesis
    using rep i s' dims map_of_snoc [OF i, of ?e]
    by (auto simp: store_rep_def c nth_append last_conv_nth less_Suc_eq) (meson order.strict_trans)
qed

lemma create_rep_gen:
  assumes "store_rep s es" and "create_viewports s cs = Some s'"
  shows "store_rep s' (es @ entries (ws_last_viewport_id s) cs)"
  using assms
proof (induction cs arbitrary: s es)
  case (Cons c cs)
  then obtain s1 where s1: "create_viewport s c = Some s1" "create_viewports s1 cs = Some s'"
    by (auto simp: bind_Some_iff)
  have rep: "store_rep s1 (es @ [(create_id c, create_rec (ws_last_viewport_id s) c)])"
    by (rule create_step [OF Cons.prems(1) s1(1)])
  then have "ws_last_viewport_id s1 = Some (create_id c)" by (simp add: store_rep_def)
  then show ?case using Cons.IH [OF rep s1(2)] by simp
qed simp

lemma create_rep:
  assumes "create_viewports ws_empty cs = Some s"
  shows "store_rep s (entries None cs)"
  using create_rep_gen [OF _ assms, of "[]"] by (simp add: store_rep_def ws_empty_def)

section \<open>Reading the store\<close>

lemma get_viewports_iterate:
  assumes rep: "store_rep s es" and n: "n \<le> length es" and acc: "length acc + m \<le> 1024"
  shows "(wrb_get_viewports_iter s ^^ m) (if n = 0 then None else Some (fst (es ! (n - 1))), acc) =
     (if n - m = 0 then None else Some (fst (es ! (n - m - 1))), acc @ take m (rev (take n es)))"
  using n acc
proof (induction m arbitrary: n acc)
  case (Suc m)
  show ?case
  proof (cases n)
    case 0
    have "(wrb_get_viewports_iter s ^^ k) (None, acc) = (None, acc)" for k by (induction k) simp_all
    then show ?thesis using 0 by simp
  next
    case (Suc k)
    then have k: "k < length es" using Suc.prems by simp
    have "wrb_get_viewports_iter s (Some (fst (es ! k)), acc) =
        (if k = 0 then None else Some (fst (es ! (k - 1))), acc @ [es ! k])"
      using store_repD [OF rep k] Suc.prems(2) by simp
    then show ?thesis
      using Suc.IH [of k "acc @ [es ! k]"] Suc Suc.prems k
      by (simp add: funpow_Suc_right take_Suc_conv_app_nth del: funpow.simps)
  qed
qed simp

lemma get_viewports_chunk:
  assumes "store_rep s es" and "0 < n" and "n \<le> length es"
  shows "wrb_get_viewports s (Some (fst (es ! (n - 1)))) = take 20 (rev (take n es))"
  using get_viewports_iterate [OF assms(1,3), of "[]" 20] assms(2) by (simp add: wrb_get_viewports_def)

lemma get_viewports_first:
  assumes "store_rep s es"
  shows "wrb_get_viewports s None = take 20 (rev es)"
  using get_viewports_iterate [OF assms order_refl, of "[]" 20] assms
  by (auto simp: wrb_get_viewports_def store_rep_def last_conv_nth)

section \<open>The viewports of a store make a scene\<close>

definition viewport_of :: "u128 \<times> viewport_rec \<Rightarrow> Viewport" where
  "viewport_of e = (case e of (i, r) \<Rightarrow>
     \<lparr>vp_id = i, vp_start_row = unat (wv_start_row r), vp_start_col = unat (wv_start_col r),
      vp_num_rows = unat (wv_num_rows r), vp_scroll_offset = 0, vp_visible = wv_visible r,
      vp_parent = wv_parent r, vp_prev_viewport = wv_last r, vp_buff = cb_new (unat (wv_num_cols r)),
      vp_element_coords = Map.empty\<rparr>)"

lemma viewport_of_simps [simp]:
  "vp_id (viewport_of e) = fst e" "vp_start_row (viewport_of e) = unat (wv_start_row (snd e))"
  "vp_start_col (viewport_of e) = unat (wv_start_col (snd e))" "vp_num_rows (viewport_of e) = unat (wv_num_rows (snd e))"
  "vp_scroll_offset (viewport_of e) = 0" "vp_parent (viewport_of e) = wv_parent (snd e)"
  "vp_prev_viewport (viewport_of e) = wv_last (snd e)"
  "cb_num_cols (vp_buff (viewport_of e)) = unat (wv_num_cols (snd e))"
  by (cases e; simp add: viewport_of_def cb_new_def)+

lemma store_abs_at:
  assumes rep: "store_rep s es" and k: "k < length es"
  shows "\<exists>r c d. abs_at (map viewport_of es) (viewport_of (es ! k)) r c d \<and>
     r + unat (wv_num_rows (snd (es ! k))) \<le> 65536 * Suc k \<and> c + unat (wv_num_cols (snd (es ! k))) \<le> 65536 * Suc k"
  using k
proof (induction k rule: less_induct)
  case (less k)
  let ?vps = "map viewport_of es" and ?e = "snd (es ! k)"
  have dims: "dims_ok ?e" by (rule store_repD(3) [OF rep less.prems])
  have mem: "viewport_of (es ! k) \<in> set ?vps" using less.prems by simp
  show ?case
  proof (cases "wv_parent ?e")
    case None
    have "abs_at ?vps (viewport_of (es ! k)) (unat (wv_start_row ?e)) (unat (wv_start_col ?e)) 0"
      using abs_at.at_root [OF mem] None by simp
    then show ?thesis
      using dims unfolding dims_ok_def
      by (intro exI [of _ "unat (wv_start_row ?e)"] exI [of _ "unat (wv_start_col ?e)"] exI [of _ 0]) auto
  next
    case (Some p)
    then obtain j where j: "j < k" "fst (es ! j) = p" using store_repD(4) [OF rep less.prems Some] by blast
    obtain r c d where at: "abs_at ?vps (viewport_of (es ! j)) r c d" "r \<le> 65536 * Suc j" "c \<le> 65536 * Suc j"
      using less.IH [OF j(1)] less.prems j(1) by fastforce
    have "abs_at ?vps (viewport_of (es ! k)) (r + unat (wv_start_row ?e)) (c + unat (wv_start_col ?e)) (d + 1)"
      using abs_at.at_child [OF mem _ at(1)] Some j(2) by simp
    moreover have "65536 * Suc j \<le> 65536 * k" using j(1) by simp
    ultimately show ?thesis
      using dims at(2,3) unfolding dims_ok_def
      by (intro exI [of _ "r + unat (wv_start_row ?e)"] exI [of _ "c + unat (wv_start_col ?e)"] exI [of _ "d + 1"]) auto
  qed
qed

lemma store_scene:
  assumes rep: "store_rep s es" and few: "length es < 2 ^ 40"
  shows "\<exists>sg. sg_new (map viewport_of es) = Some sg \<and> sg_viewports sg = map viewport_of es \<and> scene_inv sg"
proof -
  let ?vps = "map viewport_of es"
  have dist: "distinct (map vp_id ?vps)" using rep by (simp add: store_rep_def comp_def)
  have lim: "x \<le> 65536 * Suc k \<Longrightarrow> k < length es \<Longrightarrow> x < u64_lim" for x k :: nat
    using few unfolding u64_lim_def by simp
  have fits: "scene_fits ?vps"
    unfolding scene_fits_def
  proof (intro conjI ballI)
    fix vp assume "vp \<in> set ?vps"
    then obtain k where k: "k < length es" "vp = viewport_of (es ! k)" by (auto simp: in_set_conv_nth)
    then show "\<exists>r c d. abs_at ?vps vp r c d \<and> r + vp_num_rows vp < u64_lim \<and> c + cb_num_cols (vp_buff vp) < u64_lim"
      using store_abs_at [OF rep k(1)] lim by fastforce
  qed (rule dist)
  have pf: "parents_first ?vps" using rep by (force simp: parents_first_def store_rep_def)
  have box: "\<forall>vp \<in> set ?vps. vp_scroll_offset vp = 0 \<and> cb_num_cols (vp_buff vp) * vp_num_rows vp < u64_lim"
  proof
    fix vp assume "vp \<in> set ?vps"
    then obtain k where k: "k < length es" "vp = viewport_of (es ! k)" by (auto simp: in_set_conv_nth)
    then have "vp_num_rows vp \<le> 65536" "cb_num_cols (vp_buff vp) \<le> 65536"
      using rep by (auto simp: store_rep_def dims_ok_def)
    then have "cb_num_cols (vp_buff vp) * vp_num_rows vp \<le> 65536 * 65536" by (rule mult_le_mono [rotated])
    then show "vp_scroll_offset vp = 0 \<and> cb_num_cols (vp_buff vp) * vp_num_rows vp < u64_lim"
      using k(2) by (simp add: u64_lim_def)
  qed
  obtain sg where sg: "sg_new ?vps = Some sg" "sg_viewports sg = ?vps"
    using sg_new_ok [OF scene_fits_ok [OF fits]] by blast
  then show ?thesis using fits pf box by (auto simp: scene_inv_def)
qed

end
