(* ===== verification/Form_Props.thy ===== *)
theory Form_Props
  imports Forms
begin

text \<open>
  Properties of the page as the user sees it: what is on the screen after any interaction,
  where the focus goes, what a checkbox does with its keys, and which events reach the page.
\<close>

section \<open>Any interaction leaves a frame that can be drawn\<close>

lemma root_inv_new:
  "scene_inv sg \<Longrightarrow> 0 < cols \<Longrightarrow> rows * cols < 2 ^ 58 \<Longrightarrow> root_inv W (root_new rows cols sg)"
  by (simp add: root_inv_def root_new_def)

text \<open>
  C1. The screen after interactions that leave the layout. From a new root with a consistent scene
  and a screen of fewer than \<open>2 ^ 58\<close> cells, after any sequence of calls by the viewer and the renderer
  (setting forms, drawing, moving the focus, key presses, redrawing, taking the events, and those
  updates that give a viewport it has only content: its position, size and visibility stay as they
  are) every form is filed under its identifier, and drawing never panics: it gives a frame in
  which every place shows the viewport on top. An update that moves, resizes or hides a viewport
  is not among these calls: the z-buffer is not made anew for it.
\<close>

theorem interaction_keeps_frames:
  assumes "scene_inv sg" and "0 < cols" and "rows * cols < 2 ^ 58"
    and "(root_step (form_table V))\<^sup>*\<^sup>* (root_new rows cols sg) root"
  shows "root_inv (form_table V) root \<and>
     (\<exists>root' b. root_render (form_table V) root = Some (root', b) \<and> shows_top root b)"
proof -
  have "root_inv (form_table V) root"
    using wrb_forms.root_steps_inv [OF assms(4)] root_inv_new [OF assms(1-3)] by blast
  then show ?thesis using root_inv_render by blast
qed

section \<open>Tabbing through the page\<close>

lemma form_focus_False [simp]: "form_focus f root False = Ok root"
  by (cases f) (simp_all add: button_focus_def checkbox_focus_def tl_focus_def ta_focus_def
      set_cursor_if_def ta_show_cursor_def)

lemma set_cursor_ok_cong:
  assumes "sg_coord_offsets (rt_scenegraph r2) = sg_coord_offsets (rt_scenegraph r1)"
    and "\<exists>x. set_cursor_if b r1 i r c = Ok x"
  shows "\<exists>x. set_cursor_if b r2 i r c = Ok x"
  using assms
  by (auto simp: set_cursor_if_def set_form_cursor_def form_cursor_to_root_cursor_def viewport_coords_def
      abs_coords_def bind_Some_iff split: if_splits)

lemma form_focus_ok_cong:
  assumes "sg_coord_offsets (rt_scenegraph r2) = sg_coord_offsets (rt_scenegraph r1)"
    and "\<exists>x. form_focus f r1 b = Ok x"
  shows "\<exists>x. form_focus f r2 b = Ok x"
  using set_cursor_ok_cong [OF assms(1)] assms(2)
  by (cases f) (auto simp: button_focus_def checkbox_focus_def tl_focus_def ta_focus_def ta_show_cursor_def
      split: if_splits option.splits)

definition is_ok :: "('e, 'a) outcome \<Rightarrow> bool" where
  "is_ok m = (case m of Ok _ \<Rightarrow> True | _ \<Rightarrow> False)"

lemma is_ok_iff: "is_ok m \<longleftrightarrow> (\<exists>x. m = Ok x)"
  by (cases m) (simp_all add: is_ok_def)

text \<open>The elements can show their cursor: no sum of coordinates overflows.\<close>

definition cursors_fit :: "u128 list \<Rightarrow> (Form, 'v) Root \<Rightarrow> bool" where
  "cursors_fit ids root \<longleftrightarrow>
     (\<forall>e \<in> set ids. case rt_forms root e of None \<Rightarrow> True | Some f \<Rightarrow>
        is_ok (form_focus f root True))"

lemma cursors_fit_iff:
  "cursors_fit ids root \<longleftrightarrow> (\<forall>e \<in> set ids. \<forall>f. rt_forms root e = Some f \<longrightarrow> (\<exists>r. form_focus f root True = Ok r))"
  by (auto simp: cursors_fit_def is_ok_iff split: option.splits)

lemma table_focus:
  assumes "b \<Longrightarrow> \<forall>i. who = Some i \<longrightarrow> i \<in> set ids" and "cursors_fit ids root"
  shows "\<exists>root'. with_form_focus (form_table V) root who b = Ok root' \<and> draws root root'"
proof (cases "\<exists>i f. who = Some i \<and> rt_forms root i = Some f")
  case False
  then have "with_form_focus (form_table V) root who b = Ok root"
    by (auto simp: with_form_focus_def split: option.splits)
  then show ?thesis by simp
next
  case True
  then obtain i f where i: "who = Some i" "rt_forms root i = Some f" by blast
  let ?root0 = "root\<lparr>rt_forms := (rt_forms root)(i := None)\<rparr>"
  have "\<exists>x. form_focus f ?root0 b = Ok x"
    using assms i form_focus_ok_cong [of ?root0 root f b] by (cases b) (auto simp: cursors_fit_iff)
  then obtain root1 where f: "form_focus f ?root0 b = Ok root1" by blast
  have d: "draws ?root0 root1" by (rule form_focus_draws [OF f])
  have "(rt_forms root1)(i \<mapsto> f) = rt_forms root" using draws_fields(1) [OF d] i(2) by auto
  then show ?thesis using i f draws_forms [OF d] by (simp add: with_form_focus_def form_table_def)
qed

lemma cursors_fit_cong:
  assumes "cursors_fit ids root" and "rt_forms root' = rt_forms root"
    and "sg_coord_offsets (rt_scenegraph root') = sg_coord_offsets (rt_scenegraph root)"
  shows "cursors_fit ids root'"
  using assms form_focus_ok_cong [OF assms(3)] by (auto simp: cursors_fit_iff)

lemma draws_focused: "draws a b \<Longrightarrow> draws (a\<lparr>rt_focused := x\<rparr>) (b\<lparr>rt_focused := x\<rparr>)"
  unfolding draws_def by (cases a) auto

lemma next_focus_to:
  assumes "cursors_fit ids root" and "y \<in> set ids"
    and "(case rt_focused root of Some x \<Rightarrow> rt_focus_order root x | None \<Rightarrow> rt_focus_first root) = Some y"
  shows "\<exists>root'. next_focus (form_table V) root = Ok root' \<and> draws (root\<lparr>rt_focused := Some y\<rparr>) root'"
proof -
  let ?root0 = "root\<lparr>rt_focused := Some y\<rparr>"
  have fit: "cursors_fit ids ?root0" by (rule cursors_fit_cong [OF assms(1)]) simp_all
  obtain root1 where 1: "with_form_focus (form_table V) ?root0 (rt_focused root) False = Ok root1" "draws ?root0 root1"
    using table_focus [OF _ fit, of False "rt_focused root" V] by auto
  have fit1: "cursors_fit ids root1" by (rule cursors_fit_cong [OF fit]) (simp_all add: draws_fields [OF 1(2)])
  have "rt_focused root1 = Some y" using draws_fields(2) [OF 1(2)] by simp
  then obtain root2 where 2: "with_form_focus (form_table V) root1 (rt_focused root1) True = Ok root2" "draws root1 root2"
    using table_focus [OF _ fit1, of True "rt_focused root1" V] assms(2) by auto
  have "next_focus (form_table V) root = Ok root2"
    using 1(1) 2(1) assms(3) by (auto simp: next_focus_def inner_next_focus_def Let_def split: option.splits)
  then show ?thesis using draws_trans [OF 1(2) 2(2)] by blast
qed

fun tabs :: "('f, 'v) WrbForm \<Rightarrow> nat \<Rightarrow> ('f, 'v) Root \<Rightarrow> (UiError, ('f, 'v) Root) outcome" where
  "tabs W 0 root = Ok root"
| "tabs W (Suc n) root = obind (tabs W n root) (next_focus W)"

text \<open>
  C4. Every element is reached. On a page that has been drawn, with nothing focused, each focusable
  element one run of cells (an element of several runs can hide others) and room for the cursor of
  each element, pressing tab \<open>n + 1\<close> times succeeds and puts the focus on
  the element number \<open>n\<close> in reading order, counted modulo their number: every focusable
  element is reached, and after the last one the first one again.
\<close>

theorem tabs_reach_every_element:
  assumes "root_render (form_table V) root0 = Some (root, b)" and "rt_focused root0 = None"
    and "cursors_fit ids root0"
    and "ids = focus_elements (form_table V) (rt_forms root0) (cb_cells b) None" and "distinct ids" and "ids \<noteq> []"
  shows "\<exists>root'. tabs (form_table V) (Suc n) root = Ok root' \<and> rt_focused root' = Some (ids ! (n mod length ids))"
proof -
  let ?W = "form_table V" and ?at = "\<lambda>n. root\<lparr>rt_focused := Some (ids ! (n mod length ids))\<rparr>"
  obtain z where root: "root = make_focus_order ?W (root0\<lparr>rt_zbuff := Some z\<rparr>) b"
    using assms(1) by (auto simp: root_render_def make_charbuff_def bind_Some_iff Let_def)
  have fo: "rt_focused root = None" using assms(2) root by simp
  have fit: "cursors_fit ids root" by (rule cursors_fit_cong [OF assms(3)]) (simp_all add: root)
  have links: "rt_focus_order root (ids ! i) = Some (ids ! (Suc i mod length ids)) \<and> rt_focus_first root = Some (ids ! 0)"
    if "i < length ids" for i
    using focus_links [OF _ assms(5) that root] assms(4) by simp
  have first: "rt_focus_first root = Some (ids ! 0)" using links [of 0] assms(6) by simp
  have "\<exists>root'. tabs ?W (Suc n) root = Ok root' \<and> draws (?at n) root'"
  proof (induction n)
    case 0
    then show ?case using next_focus_to [OF fit, of "ids ! 0" V] fo first assms(6) by simp
  next
    case (Suc n)
    then obtain r where r: "tabs ?W (Suc n) root = Ok r" "draws (?at n) r" by blast
    have "n mod length ids < length ids" using assms(6) by simp
    then have "rt_focus_order r (ids ! (n mod length ids)) = Some (ids ! (Suc n mod length ids))"
      using links [of "n mod length ids"] draws_fields(7) [OF r(2)] by (simp add: mod_Suc_eq)
    moreover have "rt_focused r = Some (ids ! (n mod length ids))" using draws_fields(2) [OF r(2)] by simp
    moreover have "cursors_fit ids r" by (rule cursors_fit_cong [OF fit]) (simp_all add: draws_fields [OF r(2)])
    moreover have "ids ! (Suc n mod length ids) \<in> set ids" using assms(6) by simp
    ultimately obtain r' where r': "next_focus ?W r = Ok r'" "draws (r\<lparr>rt_focused := Some (ids ! (Suc n mod length ids))\<rparr>) r'"
      using next_focus_to [of ids r "ids ! (Suc n mod length ids)" V] by auto
    have "draws (?at (Suc n)) r'"
      using draws_trans [OF draws_focused [OF r(2), of "Some (ids ! (Suc n mod length ids))"] r'(2)] by simp
    then show ?case using r(1) r'(1) by simp
  qed
  then show ?thesis using draws_fields(2) by fastforce
qed

section \<open>Checkboxes\<close>

text \<open>What a key should do to the position of the selector and the boxes that are ticked.\<close>

definition check_spec :: "Key \<Rightarrow> nat \<times> bool list \<Rightarrow> nat \<times> bool list" where
  "check_spec k st = (case st of (i, bs) \<Rightarrow>
     if k = KUp then (i - 1, bs)
     else if k = KDown then (if i + 1 < length bs then i + 1 else i, bs)
     else if k = KChar newline \<or> k = KChar space then (i, bs[i := \<not> bs ! i])
     else (i, bs))"

fun checkbox_keys ::
  "Key list \<Rightarrow> Checkbox \<Rightarrow> ('f, 'v) Root \<Rightarrow> (UiError, Checkbox \<times> ('f, 'v) Root) outcome" where
  "checkbox_keys [] s root = Ok (s, root)"
| "checkbox_keys (k # ks) s root =
     obind (checkbox_handle_event s root (Keypress k)) (\<lambda>(s, root, _ :: 'v option). checkbox_keys ks s root)"

text \<open>The cursor of the root can be put next to every option.\<close>

definition checkbox_fits :: "Checkbox \<Rightarrow> ('f, 'v) Root \<Rightarrow> bool" where
  "checkbox_fits s root \<longleftrightarrow>
     (\<forall>i \<in> set [0..<length (ck_options s)]. is_ok (checkbox_focus (s\<lparr>ck_selector := i\<rparr>) root True))"

lemma checkbox_focus_ok:
  assumes "checkbox_fits s root" and "ck_selector s' < length (ck_options s)"
    and "ck_row s' = ck_row s" "ck_col s' = ck_col s" "ck_viewport_id s' = ck_viewport_id s"
    and "sg_coord_offsets (rt_scenegraph root') = sg_coord_offsets (rt_scenegraph root)"
  shows "\<exists>r. checkbox_focus s' root' b = Ok r \<and> draws root' r"
proof -
  let ?s = "s\<lparr>ck_selector := ck_selector s'\<rparr>"
  have "\<exists>r. form_focus (CheckboxForm ?s) root b = Ok r"
    using assms(1,2) by (cases b) (auto simp: checkbox_fits_def is_ok_iff)
  then obtain r where "form_focus (CheckboxForm ?s) root' b = Ok r"
    using form_focus_ok_cong [OF assms(6)] by blast
  moreover have "checkbox_focus s' root' b = checkbox_focus ?s root' b"
    using assms(3-5) by (simp add: checkbox_focus_def)
  ultimately show ?thesis using form_focus_draws [of "CheckboxForm ?s" root' b r] by auto
qed

abbreviation check_state :: "Checkbox \<Rightarrow> nat \<times> bool list" where
  "check_state s \<equiv> (ck_selector s, map co_selected (ck_options s))"

lemma checkbox_key_refines:
  assumes "ck_selector s < length (ck_options s)" and "checkbox_fits s root"
  shows "\<exists>s' root'. checkbox_handle_event s root (Keypress k) = Ok (s', root', None) \<and>
     check_state s' = check_spec k (check_state s) \<and> map co_text (ck_options s') = map co_text (ck_options s) \<and>
     ck_selector s' < length (ck_options s') \<and> checkbox_fits s' root'"
proof -
  obtain root1 where r1: "checkbox_focus s root (is_focused root (ck_element_id s)) = Ok root1" "draws root root1"
    using checkbox_focus_ok [OF assms(2) assms(1)] by blast
  have fits: "checkbox_fits s' root'" if "draws root1 root'" "length (ck_options s') = length (ck_options s)"
      "ck_row s' = ck_row s" "ck_col s' = ck_col s" "ck_viewport_id s' = ck_viewport_id s" for s' root'
    unfolding checkbox_fits_def
  proof
    fix i assume "i \<in> set [0..<length (ck_options s')]"
    then have "\<exists>r. checkbox_focus (s'\<lparr>ck_selector := i\<rparr>) root' True = Ok r"
      using checkbox_focus_ok [OF assms(2), of "s'\<lparr>ck_selector := i\<rparr>" root' True] that
        draws_fields(11) [OF draws_trans [OF r1(2) that(1)]] by auto
    then show "is_ok (checkbox_focus (s'\<lparr>ck_selector := i\<rparr>) root' True)" by (simp add: is_ok_iff)
  qed
  have move: "\<exists>root'. checkbox_focus (s\<lparr>ck_selector := i\<rparr>) root1 b = Ok root' \<and> checkbox_fits (s\<lparr>ck_selector := i\<rparr>) root'"
    if "i < length (ck_options s)" for i b
    using checkbox_focus_ok [OF assms(2), of "s\<lparr>ck_selector := i\<rparr>" root1 b] that draws_fields(11) [OF r1(2)] fits
    by auto
  let ?i = "ck_selector s" and ?o = "ck_options s"
  consider (up) "k = KUp" | (down) "k = KDown" | (tick) "k = KChar newline \<or> k = KChar space"
    | (other) "k \<noteq> KUp" "k \<noteq> KDown" "k \<noteq> KChar newline" "k \<noteq> KChar space" by blast
  then show ?thesis
  proof cases
    case up
    obtain root' where "checkbox_focus (s\<lparr>ck_selector := ?i - 1\<rparr>) root1 (is_focused root1 (ck_element_id s)) = Ok root'"
      "checkbox_fits (s\<lparr>ck_selector := ?i - 1\<rparr>) root'"
      using move [of "?i - 1"] assms(1) by (meson diff_le_self le_less_trans)
    then show ?thesis
      using up r1(1) assms(1) by (auto simp: checkbox_handle_event_def check_spec_def Let_def)
  next
    case down
    define j where "j = (if ?i + 1 < length ?o then ?i + 1 else ?i)"
    have j: "min (?i + 1) (length ?o - 1) = j" "j < length ?o" using assms(1) by (auto simp: j_def)
    obtain root' where r': "checkbox_focus (s\<lparr>ck_selector := j\<rparr>) root1 (is_focused root1 (ck_element_id s)) = Ok root'"
      "checkbox_fits (s\<lparr>ck_selector := j\<rparr>) root'"
      using move [OF j(2)] by blast
    have "check_spec k (check_state s) = (j, map co_selected ?o)" using down by (simp add: check_spec_def j_def)
    then show ?thesis
      using down r1(1) r' j by (simp add: checkbox_handle_event_def Let_def del: One_nat_def add_Suc_right)
  next
    case tick
    let ?s = "s\<lparr>ck_options := ?o[?i := (?o ! ?i)\<lparr>co_selected := \<not> co_selected (?o ! ?i)\<rparr>]\<rparr>"
    have "map co_text (ck_options ?s) = map co_text ?o"
      by (simp add: map_update) (metis assms(1) length_map list_update_id nth_map)
    moreover have "checkbox_fits ?s root1" by (rule fits) simp_all
    ultimately show ?thesis
      using tick r1(1) assms(1) by (auto simp: checkbox_handle_event_def check_spec_def panic_simps map_update)
  next
    case other
    then show ?thesis
      using r1(1) assms(1) fits [of root1 s] by (auto simp: checkbox_handle_event_def check_spec_def)
  qed
qed

text \<open>
  C38. A checkbox takes its keys. With at least one option and room for the cursor, any sequence of
  keys is handled without a panic or an error: up and down move the selector and stop at the
  ends, enter and space flip exactly the option under the selector, other keys do nothing. The
  selector stays on an option and the texts stay as they are.
\<close>

theorem checkbox_refines:
  assumes "ck_selector s < length (ck_options s)" and "checkbox_fits s root"
  shows "\<exists>s' root'. checkbox_keys ks s root = Ok (s', root') \<and> check_state s' = fold check_spec ks (check_state s) \<and>
     map co_text (ck_options s') = map co_text (ck_options s) \<and> ck_selector s' < length (ck_options s')"
  using assms
proof (induction ks arbitrary: s root)
  case (Cons k ks)
  obtain s1 root1 where 1: "checkbox_handle_event s root (Keypress k) = Ok (s1, root1, None)"
    "check_state s1 = check_spec k (check_state s)" "map co_text (ck_options s1) = map co_text (ck_options s)"
    "ck_selector s1 < length (ck_options s1)" "checkbox_fits s1 root1"
    using checkbox_key_refines [OF Cons.prems] by blast
  then show ?case using Cons.IH [OF 1(4,5)] by simp
qed simp

text \<open>A page may have a checkbox without options; space or enter on it ends the viewer.\<close>

lemma checkbox_empty_panics:
  assumes "ck_options s = []" and "\<not> is_focused root (ck_element_id s)"
  shows "checkbox_handle_event s root (Keypress (KChar space)) = Panic"
  using assms by (simp add: checkbox_handle_event_def checkbox_focus_def set_cursor_if_def panic_simps)

section \<open>The events of a page\<close>

lemma payload_only_button:
  "form_handle_event V f root (Keypress k) = Ok (f', root', p) \<Longrightarrow>
     p = (case f of ButtonForm _ \<Rightarrow> (if k = keycode_enter then Some (cl_bool V True) else None) | _ \<Rightarrow> None)"
  by (cases f) (auto simp: button_handle_event_def checkbox_handle_event_def tl_handle_event_def ta_handle_event_def
      obind_Ok_iff Let_def split: if_splits)

text \<open>
  C37. Only buttons speak to the page. A key press handled by the root appends one event, with the
  identifier of the focused form and the value true, when the focused form is a button and the
  key is enter; every other key on every other form, and any key without a focus, leaves the
  events of the page as they are.
\<close>

theorem events_only_from_buttons:
  assumes "root_inv (form_table V) root" and "root_handle_event (form_table V) root (Keypress k) = Ok root'"
  shows "rt_runtime_events root' = rt_runtime_events root @
     (case rt_focused root of None \<Rightarrow> [] | Some e \<Rightarrow>
       (case rt_forms root e of
          Some (ButtonForm _) \<Rightarrow> (if k = keycode_enter then [EvUI FButton e (cl_bool V True)] else [])
        | _ \<Rightarrow> []))"
proof (cases "\<exists>i f. rt_focused root = Some i \<and> rt_forms root i = Some f")
  case False
  then show ?thesis using assms(2) by (auto simp: root_handle_event_def split: option.splits)
next
  case True
  then obtain i f where i: "rt_focused root = Some i" "rt_forms root i = Some f" by blast
  let ?root0 = "root\<lparr>rt_forms := (rt_forms root)(i := None)\<rparr>"
  obtain f1 root1 p where f: "form_handle_event V f ?root0 (Keypress k) = Ok (f1, root1, p)"
    and root': "root' = (case p of None \<Rightarrow> root1\<lparr>rt_forms := (rt_forms root1)(i \<mapsto> f1)\<rparr>
      | Some q \<Rightarrow> root1\<lparr>rt_forms := (rt_forms root1)(i \<mapsto> f1), rt_runtime_events :=
          rt_runtime_events root1 @ [EvUI (form_type_id f1) (form_element_id f1) q]\<rparr>)"
    using assms(2) i
    by (auto simp: root_handle_event_def obind_Ok_iff Let_def form_table_def cong: option.case_cong)
  have ev: "rt_runtime_events root' = rt_runtime_events root1 @
      (case p of None \<Rightarrow> [] | Some q \<Rightarrow> [EvUI (form_type_id f1) (form_element_id f1) q])"
    unfolding root' by (cases p) simp_all
  have "rt_runtime_events root1 = rt_runtime_events root" "form_type_id f1 = form_type_id f" "form_element_id f1 = i"
    using form_event_draws [OF f] draws_fields(10) [of ?root0 root1] assms(1) i(2)
    by (auto simp: same_id_def form_table_def root_inv_def)
  then show ?thesis using ev payload_only_button [OF f] i by (cases f) auto
qed

section \<open>Witnesses\<close>

text \<open>A model of the Clarity values: a data type of the values that pages use.\<close>

datatype demo_value =
    DNone | DSome demo_value | DUInt u128 | DBool bool | DUtf8 "bytes list"
  | DList "demo_value list" | DTuple "(string \<times> demo_value) list"

definition demo_clarity :: "demo_value clarity" where
  "demo_clarity = \<lparr>
     cl_expect_tuple = (\<lambda>v. case v of DTuple t \<Rightarrow> Ok (map_of t) | _ \<Rightarrow> Err undefined),
     cl_expect_u128 = (\<lambda>v. case v of DUInt n \<Rightarrow> Ok n | _ \<Rightarrow> Err undefined),
     cl_expect_bool = (\<lambda>v. case v of DBool b \<Rightarrow> Ok b | _ \<Rightarrow> Err undefined),
     cl_expect_optional = (\<lambda>v. case v of DNone \<Rightarrow> Ok None | DSome x \<Rightarrow> Ok (Some x) | _ \<Rightarrow> Err undefined),
     cl_expect_list = (\<lambda>v. case v of DList xs \<Rightarrow> Ok xs | _ \<Rightarrow> Err undefined),
     cl_utf8_data = (\<lambda>v. case v of DUtf8 d \<Rightarrow> Some d | _ \<Rightarrow> None),
     cl_interpreter_expect = (\<lambda>_. undefined),
     cl_bool = DBool,
     cl_string_utf8 = (\<lambda>s. Ok (DUtf8 (map (\<lambda>c. [ucast (drop_bit 24 c), ucast (drop_bit 16 c), ucast (drop_bit 8 c), ucast c]) s))),
     cl_tuple = (\<lambda>t. Ok (DTuple t)),
     cl_cons_list = (\<lambda>xs. Ok (DList xs))\<rparr>"

definition demo_button :: "u128 \<Rightarrow> coord \<Rightarrow> Form" where
  "demo_button e col = ButtonForm \<lparr>bt_element_id = e, bt_viewport_id = 1, bt_row = 0, bt_col = col,
     bt_bg_color = demo_color, bt_fg_color = demo_color, bt_focused_bg_color = demo_color,
     bt_focused_fg_color = demo_color, bt_text = [111]\<rparr>"

definition demo_page :: "(Form, demo_value) Root" where
  "demo_page =
     (case sg_new [vp_new 1 0 0 1 6] of None \<Rightarrow> root_new 1 6 undefined
      | Some sg \<Rightarrow>
         (case set_all_forms (form_table demo_clarity) (root_new 1 6 sg) [demo_button 5 0, demo_button 6 3] [] of
            Ok root \<Rightarrow> root | _ \<Rightarrow> root_new 1 6 sg))"

lemma demo_page_scene:
  assumes "sg_new [vp_new 1 0 0 1 6] = Some sg"
  shows "scene_inv sg"
proof -
  let ?vp = "vp_new 1 0 0 1 6"
  have "abs_at [?vp] ?vp 0 0 0" using abs_at.at_root [of ?vp "[?vp]"] by (simp add: vp_new_def)
  then have "scene_fits [?vp]"
    unfolding scene_fits_def
    by (auto simp: u64_lim_def intro!: exI [of _ 0]) (simp_all add: vp_new_def cb_new_def)
  moreover have "parents_first [?vp]" by (simp add: parents_first_def vp_new_def)
  ultimately show ?thesis
    using assms sg_new_viewports [OF assms] by (simp add: scene_inv_def vp_new_def cb_new_def u64_lim_def)
qed

theorem interaction_keeps_frames_witness:
  "\<exists>sg root b. sg_new [vp_new 1 0 0 1 6] = Some sg \<and>
     set_all_forms (form_table demo_clarity) (root_new 1 6 sg) [demo_button 5 0, demo_button 6 3] [] = Ok root \<and>
     shows_top root b"
proof -
  have "case sg_new [vp_new 1 0 0 1 6] of None \<Rightarrow> False | Some sg \<Rightarrow>
      is_ok (set_all_forms (form_table demo_clarity) (root_new 1 6 sg) [demo_button 5 0, demo_button 6 3] [])"
    by code_simp
  then obtain sg root where sg: "sg_new [vp_new 1 0 0 1 6] = Some sg"
    and root: "set_all_forms (form_table demo_clarity) (root_new 1 6 sg) [demo_button 5 0, demo_button 6 3] [] = Ok root"
    by (auto simp: is_ok_iff split: option.splits)
  have "(root_step (form_table demo_clarity))\<^sup>*\<^sup>* (root_new 1 6 sg) root"
    by (rule r_into_rtranclp) (rule step_set_forms [OF root])
  moreover have "0 < (6 :: nat)" "1 * 6 < (2 :: nat) ^ 58" by simp_all
  ultimately obtain b where "shows_top root b" using interaction_keeps_frames [OF demo_page_scene [OF sg]] by blast
  then show ?thesis using sg root by blast
qed

theorem tabs_reach_every_element_witness:
  "\<exists>root b root'. root_render (form_table demo_clarity) demo_page = Some (root, b) \<and>
     tabs (form_table demo_clarity) 4 root = Ok root' \<and> rt_focused root' = Some 6"
proof -
  have "map_option (\<lambda>(root, b). focus_elements (form_table demo_clarity) (rt_forms demo_page) (cb_cells b) None)
      (root_render (form_table demo_clarity) demo_page) = Some [5, 6]" by code_simp
  then obtain root b where r: "root_render (form_table demo_clarity) demo_page = Some (root, b)"
    and ids: "[5, 6] = focus_elements (form_table demo_clarity) (rt_forms demo_page) (cb_cells b) None"
    by auto
  have "rt_focused demo_page = None" "cursors_fit [5, 6] demo_page" "distinct [5, 6 :: u128]" by code_simp+
  then show ?thesis
    using tabs_reach_every_element [OF r _ _ ids, of 3] r by (auto simp: eval_nat_numeral mod_Suc)
qed

definition demo_checkbox :: Checkbox where
  "demo_checkbox = \<lparr>ck_element_id = 7, ck_viewport_id = 1, ck_row = 0, ck_col = 0, ck_bg_color = demo_color,
     ck_fg_color = demo_color, ck_focused_bg_color = demo_color, ck_focused_fg_color = demo_color,
     ck_selector_color = demo_color,
     ck_options = [\<lparr>co_text = [97], co_selected = False\<rparr>, \<lparr>co_text = [98], co_selected = True\<rparr>], ck_selector = 0\<rparr>"

theorem checkbox_refines_witness:
  "\<exists>s' root'. checkbox_keys [KDown, KChar space, KDown, KUp, KChar newline] demo_checkbox demo_page = Ok (s', root') \<and>
     check_state s' = (0, [True, False])"
proof -
  have "ck_selector demo_checkbox < length (ck_options demo_checkbox)" "checkbox_fits demo_checkbox demo_page"
    by code_simp+
  from checkbox_refines [OF this, of "[KDown, KChar space, KDown, KUp, KChar newline]"] show ?thesis
    by (auto simp: check_spec_def demo_checkbox_def)
qed

theorem events_only_from_buttons_witness:
  "\<exists>sg root'. sg_new [vp_new 1 0 0 1 6] = Some sg \<and>
     root_handle_event (form_table demo_clarity)
       ((root_new 1 6 sg)\<lparr>rt_forms := [5 \<mapsto> demo_button 5 0], rt_focused := Some 5\<rparr>) (Keypress keycode_enter) = Ok root' \<and>
     rt_runtime_events root' = [EvUI FButton 5 (DBool True)]"
proof -
  let ?root = "\<lambda>sg. (root_new 1 6 sg)\<lparr>rt_forms := [5 \<mapsto> demo_button 5 0], rt_focused := Some 5\<rparr>"
  have "case sg_new [vp_new 1 0 0 1 6] of None \<Rightarrow> False | Some sg \<Rightarrow>
      is_ok (root_handle_event (form_table demo_clarity) (?root sg) (Keypress keycode_enter))" by code_simp
  then obtain sg root' where sg: "sg_new [vp_new 1 0 0 1 6] = Some sg"
    and ev: "root_handle_event (form_table demo_clarity) (?root sg) (Keypress keycode_enter) = Ok root'"
    by (auto simp: is_ok_iff split: option.splits)
  have "root_inv (form_table demo_clarity) (?root sg)"
    using demo_page_scene [OF sg] by (simp add: root_inv_def root_new_def form_table_def demo_button_def)
  from events_only_from_buttons [OF this ev] show ?thesis
    using sg ev by (simp add: root_new_def demo_button_def demo_clarity_def)
qed

end
