(* ===== verification/Renderer_Props.thy ===== *)
theory Renderer_Props
  imports Renderer Page_Store Form_Props
begin

text \<open>
  From the page to the screen. When the virtual machine answers the viewport query with what
  the runtime contract keeps, the renderer's loop ends and collects all viewports in order of
  creation, their scene graph is consistent, and the root pane built from it can be drawn.
\<close>

section \<open>Reading one answer\<close>

text \<open>A Clarity value that holds one viewport of the store.\<close>

definition holds_uint :: "'v clarity \<Rightarrow> (string \<Rightarrow> 'v option) \<Rightarrow> string \<Rightarrow> u128 \<Rightarrow> bool" where
  "holds_uint V t name x \<longleftrightarrow> (\<exists>v. t name = Some v \<and> cl_expect_u128 V v = Ok x)"

definition holds_optional_uint :: "'v clarity \<Rightarrow> (string \<Rightarrow> 'v option) \<Rightarrow> string \<Rightarrow> u128 option \<Rightarrow> bool" where
  "holds_optional_uint V t name x \<longleftrightarrow>
     (\<exists>v. t name = Some v \<and>
        (case x of None \<Rightarrow> cl_expect_optional V v = Ok None
         | Some y \<Rightarrow> \<exists>w. cl_expect_optional V v = Ok (Some w) \<and> cl_expect_u128 V w = Ok y))"

definition viewport_value :: "'v clarity \<Rightarrow> 'v \<Rightarrow> u128 \<times> viewport_rec \<Rightarrow> bool" where
  "viewport_value V v e \<longleftrightarrow> (\<exists>t b. cl_expect_tuple V v = Ok t \<and> holds_uint V t ''id'' (fst e) \<and>
     holds_uint V t ''start-row'' (wv_start_row (snd e)) \<and> holds_uint V t ''start-col'' (wv_start_col (snd e)) \<and>
     holds_uint V t ''num-rows'' (wv_num_rows (snd e)) \<and> holds_uint V t ''num-cols'' (wv_num_cols (snd e)) \<and>
     t ''visible'' = Some b \<and> cl_expect_bool V b = Ok (wv_visible (snd e)) \<and>
     holds_optional_uint V t ''last'' (wv_last (snd e)) \<and> holds_optional_uint V t ''parent'' (wv_parent (snd e)))"

lemma holds_uint_get: "holds_uint V t name x \<Longrightarrow> get_u128 V t name = Ok x"
  by (auto simp: holds_uint_def get_u128_def tuple_get_def)

lemma holds_optional_get: "holds_optional_uint V t name x \<Longrightarrow> get_optional_u128 V t name = Ok x"
  by (auto simp: holds_optional_uint_def get_optional_u128_def get_optional_def tuple_get_def split: option.splits)

lemma small_u64: "unat x < 65536 \<Longrightarrow> u64_try_from x = Some (unat x)"
  by (simp add: u64_try_from_def word_less_nat_alt)

lemma read_viewport:
  assumes "viewport_value V v e" and "dims_ok (snd e)"
  shows "vp_from_clarity_value V v = Ok (viewport_of e)"
proof -
  obtain i r where e: "e = (i, r)" by (cases e)
  have small: "unat (wv_start_row r) < 65536" "unat (wv_start_col r) < 65536"
    "unat (wv_num_rows r) < 65536" "unat (wv_num_cols r) < 65536"
    using assms(2) by (auto simp: dims_ok_def e)
  show ?thesis
    using assms(1) small
    by (auto simp: viewport_value_def vp_from_clarity_value_def e viewport_of_def expect_tuple_def small_u64
        holds_uint_get holds_optional_get get_bool_def tuple_get_def)
qed

lemma read_viewports_chunk:
  assumes "list_all2 (viewport_value V) vs es" and "\<forall>e \<in> set es. dims_ok (snd e)"
  shows "read_viewports V vs prev = Ok (map viewport_of es, if es = [] then prev else wv_last (snd (last es)))"
  using assms
proof (induction arbitrary: prev rule: list_all2_induct)
  case (Cons v vs e es)
  then show ?case using read_viewport [of V v e] by simp
qed simp

section \<open>The loop over the answers\<close>

text \<open>
  The virtual machine on the page: its read-only calls stay within the environments \<open>E\<close> of the
  page and leave the contract of the page in the cache, this contract is \<open>c\<close>, and the viewport
  query prints what the runtime contract computes from the store.
\<close>

definition page_state ::
  "'e set \<Rightarrow> QualifiedContractIdentifier \<Rightarrow> Contract \<Rightarrow> ('e, 'g, 'w) rstate \<Rightarrow> bool" where
  "page_state E main c st \<longleftrightarrow> fst st \<in> E \<and> load_cached_contract (snd st) main \<in> {None, Some c}"

definition answers_viewports ::
  "('e, 'g, 'w, 'v) clarity_vm \<Rightarrow> 'v clarity \<Rightarrow> 'e set \<Rightarrow> QualifiedContractIdentifier \<Rightarrow> Contract \<Rightarrow> wrb_store \<Rightarrow> bool" where
  "answers_viewports M V E main c s \<longleftrightarrow>
     (\<forall>env \<in> E. \<exists>env' \<in> E. vm_get_contract M env main = Ok (env', c)) \<and>
     (\<forall>st cursor. page_state E main c st \<longrightarrow> (\<exists>st' v vs. page_state E main c st' \<and>
        vm_eval_raw M st c (viewports_query cursor) = Ok (st', [SmartContractEvent ''print'' v]) \<and>
        cl_expect_list V v = Ok vs \<and> list_all2 (viewport_value V) vs (wrb_get_viewports s cursor)))"

lemma viewports_answer:
  assumes "answers_viewports M V E main c s" and "page_state E main c st"
  shows "\<exists>st' v vs. query_value M st main (viewports_query cursor) = Ok (st', v) \<and> page_state E main c st' \<and>
     cl_expect_list V v = Ok vs \<and> list_all2 (viewport_value V) vs (wrb_get_viewports s cursor)"
proof -
  obtain env g where st: "st = (env, g)" by (cases st)
  have E: "env \<in> E" and cached: "load_cached_contract g main \<in> {None, Some c}"
    using assms(2) by (simp_all add: st page_state_def)
  obtain env1 where env1: "vm_get_contract M env main = Ok (env1, c)" "env1 \<in> E"
    using assms(1) E by (auto simp: answers_viewports_def)
  have ev: "\<exists>st' v vs. page_state E main c st' \<and> vm_eval_raw M st c (viewports_query cursor) = Ok (st', [SmartContractEvent ''print'' v]) \<and>
      cl_expect_list V v = Ok vs \<and> list_all2 (viewport_value V) vs (wrb_get_viewports s cursor)" if "page_state E main c st" for st
    using assms(1) that unfolding answers_viewports_def by blast
  show ?thesis
  proof (cases "load_cached_contract g main")
    case None
    have "page_state E main c (env1, fst (store_cached_contract g main c))"
      using env1(2) by (simp add: page_state_def store_cached_contract_def load_cached_contract_def)
    from ev [OF this] show ?thesis
      using env1(1) None
      by (auto simp: st query_value_def run_query_code_def store_cached_contract_def print_value_def map_filter_simps)
  next
    case (Some c')
    have "page_state E main c (env, g)" using assms(2) by (simp add: st)
    from ev [OF this] show ?thesis
      using Some cached
      by (auto simp: st query_value_def run_query_code_def print_value_def map_filter_simps)
  qed
qed

lemma rev_take_split: "m \<le> n \<Longrightarrow> n \<le> length es \<Longrightarrow> rev (take n es) = take m (rev (take n es)) @ rev (take (n - m) es)"
proof -
  assume "m \<le> n" "n \<le> length es"
  then have "drop m (rev (take n es)) = rev (take (n - m) es)" by (simp add: drop_rev min_def)
  then show ?thesis by (metis append_take_drop_id)
qed

lemma viewports_loop_collects:
  assumes M: "answers_viewports M V E main c s" and rep: "store_rep s es"
    and "page_state E main c st" and "n \<le> length es"
    and "(0 < n \<and> cursor = Some (fst (es ! (n - 1)))) \<or> (cursor = None \<and> n = length es)"
  shows "\<exists>st'. viewports_loop M V st main cursor acc = Some (Ok (st', acc @ map viewport_of (rev (take n es)))) \<and>
     page_state E main c st'"
  using assms(3-)
proof (induction n arbitrary: st cursor acc rule: less_induct)
  case (less n)
  let ?chunk = "take 20 (rev (take n es))"
  have chunk: "wrb_get_viewports s cursor = ?chunk"
    using less.prems(2,3) get_viewports_chunk [OF rep] get_viewports_first [OF rep] by auto
  obtain st1 v vs where q: "query_value M st main (viewports_query cursor) = Ok (st1, v)" "page_state E main c st1"
    "cl_expect_list V v = Ok vs" "list_all2 (viewport_value V) vs ?chunk"
    using viewports_answer [OF M less.prems(1), of cursor] chunk by auto
  have "\<forall>e \<in> set ?chunk. dims_ok (snd e)"
  proof
    fix e assume "e \<in> set ?chunk"
    then have "e \<in> set es" by (auto dest!: in_set_takeD)
    then show "dims_ok (snd e)" using store_repD(3) [OF rep] by (auto simp: in_set_conv_nth)
  qed
  then have read: "read_viewports V vs None =
      Ok (map viewport_of ?chunk, if ?chunk = [] then None else wv_last (snd (last ?chunk)))"
    using read_viewports_chunk [OF q(4)] by blast
  define m where "m = min 20 n"
  have m: "?chunk = take m (rev (take n es))" using less.prems(2) by (auto simp: m_def min_def)
  show ?case
  proof (cases "n = 0")
    case True
    then show ?thesis
      using q(1-3) read by (subst viewports_loop.simps) (simp add: expect_list_def)
  next
    case False
    then have ne: "?chunk \<noteq> []" and m0: "0 < m" "m \<le> n" using less.prems(2) by (auto simp: m_def)
    have "last ?chunk = es ! (n - m)"
      using ne m0 less.prems(2) unfolding m
      by (simp add: last_conv_nth rev_nth min_def)
    then have last: "wv_last (snd (last ?chunk)) = (if n - m = 0 then None else Some (fst (es ! (n - m - 1))))"
      using store_repD(2) [OF rep, of "n - m"] less.prems(2) m0 by simp
    show ?thesis
    proof (cases "n - m = 0")
      case True
      then have "?chunk = rev (take n es)" using m0 m by simp
      then show ?thesis
        using q(1-3) read ne last True by (subst viewports_loop.simps) (simp add: expect_list_def)
    next
      case n': False
      have "\<exists>st'. viewports_loop M V st1 main (Some (fst (es ! (n - m - 1)))) (acc @ map viewport_of ?chunk) =
          Some (Ok (st', (acc @ map viewport_of ?chunk) @ map viewport_of (rev (take (n - m) es)))) \<and> page_state E main c st'"
        by (rule less.IH) (use q(2) m0 n' less.prems(2) in auto)
      moreover have "map viewport_of ?chunk @ map viewport_of (rev (take (n - m) es)) = map viewport_of (rev (take n es))"
        using rev_take_split [OF m0(2) less.prems(2)] m by (metis map_append)
      ultimately show ?thesis
        using q(1-3) read ne last n' by (subst viewports_loop.simps) (simp add: expect_list_def)
    qed
  qed
qed

lemma get_viewports_ok:
  assumes "answers_viewports M V E main c s" and "page_state E main c st"
    and "create_viewports ws_empty cs = Some s" and "length cs < 2 ^ 40"
  shows "\<exists>st' sg. get_viewports M V st main = Some (Ok (st', sg)) \<and> page_state E main c st' \<and>
     sg_viewports sg = map viewport_of (entries None cs) \<and> scene_inv sg"
proof -
  let ?es = "entries None cs"
  have len: "length (entries p cs) = length cs" for p by (induction cs arbitrary: p) auto
  have rep: "store_rep s ?es" by (rule create_rep [OF assms(3)])
  obtain sg where sg: "sg_new (map viewport_of ?es) = Some sg" "sg_viewports sg = map viewport_of ?es" "scene_inv sg"
    using store_scene [OF rep] assms(4) len by auto
  obtain st' where "viewports_loop M V st main None [] = Some (Ok (st', map viewport_of (rev ?es)))" "page_state E main c st'"
    using viewports_loop_collects [OF assms(1) rep assms(2), of "length ?es" None "[]"] by auto
  then show ?thesis using sg by (auto simp: get_viewports_def rev_map [symmetric])
qed

section \<open>Properties\<close>

text \<open>
  C3. The renderer collects the viewports. For every sequence of viewport creations that the
  runtime contract accepts (fewer than \<open>2 ^ 40\<close>), and a virtual machine that answers the viewport
  query with twenty viewports at a time, the renderer's loop ends, the scene graph has exactly
  the created viewports in order of creation with their places, sizes and parents, and it is
  consistent.
\<close>

theorem get_viewports_collects:
  assumes "answers_viewports M V E main c s" and "page_state E main c st"
    and "create_viewports ws_empty cs = Some s" and "length cs < 2 ^ 40"
  shows "\<exists>st' sg. get_viewports M V st main = Some (Ok (st', sg)) \<and>
     sg_viewports sg = map viewport_of (entries None cs) \<and> scene_inv sg"
  using get_viewports_ok [OF assms] by blast

lemma set_all_forms_dims:
  assumes "set_all_forms (form_table V) root statics dynamics = Ok root'"
  shows "rt_num_rows root' = rt_num_rows root \<and> rt_num_cols root' = rt_num_cols root"
proof -
  obtain root1 cs forms ids root2 cs2 forms2 ids2 where
    1: "render_contents (form_table V) statics root Map.empty Map.empty {} = Ok (root1, cs, forms, ids)" and
    2: "render_contents (form_table V) dynamics root1 cs forms {} = Ok (root2, cs2, forms2, ids2)" and
    root': "root' = root2\<lparr>rt_forms := forms2, rt_dynamic_forms := ids2\<rparr>"
    using assms by (auto simp: set_all_forms_def obind_Ok_iff)
  have "filed (form_table V) Map.empty" by (simp add: filed_def)
  note l1 = wrb_forms.render_contents_law [OF 1 this]
  note l2 = wrb_forms.render_contents_law [OF 2, OF l1 [THEN conjunct2, THEN conjunct1]]
  show ?thesis
    using draws_fields(3,4) [OF conjunct1 [OF l1]] draws_fields(3,4) [OF conjunct1 [OF l2]] by (simp add: root')
qed

text \<open>
  C5. From the page to the screen. On such a page, when building the root pane succeeds and the
  page asked for a screen of fewer than \<open>2 ^ 58\<close> cells, the root pane satisfies its invariant,
  and drawing it gives a frame that shows the viewport on top in every place.
\<close>

theorem make_root_draws:
  assumes "answers_viewports M V E main c s" and "page_state E main c st"
    and "create_viewports ws_empty cs = Some s" and "length cs < 2 ^ 40"
    and "make_root M V st main = Some (Ok (st', root))"
    and "0 < rt_num_cols root" and "rt_num_rows root * rt_num_cols root < 2 ^ 58"
  shows "root_inv (form_table V) root \<and>
     (\<exists>root' b. root_render (form_table V) root = Some (root', b) \<and> shows_top root b)"
proof -
  obtain st1 sg where g: "get_viewports M V st main = Some (Ok (st1, sg))" "scene_inv sg"
    using get_viewports_ok [OF assms(1-4)] by blast
  obtain rows cols statics dynamics where
    set: "set_all_forms (form_table V) (root_new rows cols sg) statics dynamics = Ok root"
    using assms(5) g(1) by (auto simp: make_root_def obind_Ok_iff)
  have "rt_num_rows root = rows" "rt_num_cols root = cols"
    using set_all_forms_dims [OF set] by (simp_all add: root_new_def)
  then have "root_inv (form_table V) (root_new rows cols sg)"
    using root_inv_new [OF g(2)] assms(6,7) by simp
  then have "root_inv (form_table V) root" by (rule wrb_forms.set_all_forms_inv [OF set])
  then show ?thesis using root_inv_render by blast
qed

section \<open>Witnesses\<close>

text \<open>Decimal numbers can be read back, so different cursors are different queries.\<close>

definition read_nat :: "string \<Rightarrow> nat" where
  "read_nat s = foldl (\<lambda>n c. 10 * n + (of_char c - 48)) 0 s"

lemma read_show_nat: "read_nat (show_nat n) = n"
proof (induction n rule: less_induct)
  case (less n)
  have digit: "of_char (char_of (48 + d :: nat)) - 48 = d" if "d < 10" for d :: nat
    using that by (simp add: of_char_of)
  show ?case
  proof (cases "n < 10")
    case True
    then show ?thesis using digit [of n] by (subst show_nat.simps) (simp add: read_nat_def)
  next
    case False
    then have "read_nat (show_nat (n div 10)) = n div 10" using less by simp
    then show ?thesis
      using False digit [of "n mod 10"] by (subst show_nat.simps) (simp add: read_nat_def)
  qed
qed

lemma show_u128_inj: "show_u128 x = show_u128 y \<longleftrightarrow> x = y"
  by (metis read_show_nat show_u128_def word_unat_eq_iff)

text \<open>
  A virtual machine for the page with one viewport, an empty user interface and an event
  handler that is subscribed to the timer.
\<close>

definition demo_store :: wrb_store where
  "demo_store = \<lparr>ws_viewports = [1 \<mapsto> create_rec None (Create 1 None 0 0 1 6)], ws_last_viewport_id = Some 1\<rparr>"

definition demo_viewport_value :: demo_value where
  "demo_viewport_value = DTuple [(''id'', DUInt 1), (''start-row'', DUInt 0), (''start-col'', DUInt 0),
     (''num-rows'', DUInt 1), (''num-cols'', DUInt 6), (''visible'', DBool True), (''last'', DNone), (''parent'', DNone)]"

definition demo_answer :: "string \<Rightarrow> demo_value" where
  "demo_answer code =
     (if code = viewports_query None \<or> code = viewports_query (Some 1) then DList [demo_viewport_value]
      else if code = ''(print (wrb-get-root))'' then DTuple [(''rows'', DUInt 1), (''cols'', DUInt 6)]
      else if code = ''(print (wrb-ui-len))'' then DUInt 0
      else if code = ''(print (wrb-get-event-loop-name))'' then DSome (DBool True)
      else if code = ''(print (wrb-get-num-event-subscriptions))'' then DUInt 1
      else if code = ''(print (wrb-get-event-subscription u0))'' then DSome (DUInt 1)
      else if code = ''(print (wrb-get-event-loop-time))'' then DUInt 100
      else DList [])"

definition demo_vm :: "(unit, unit, unit, demo_value) clarity_vm" where
  "demo_vm = \<lparr>vm_get_contract = (\<lambda>_ _. Ok ((), undefined)),
     vm_eval_raw = (\<lambda>st _ code. Ok (st, [SmartContractEvent ''print'' (demo_answer code)]))\<rparr>"

abbreviation demo_state :: "unit \<times> (unit, unit) Globals" where
  "demo_state \<equiv> ((), gl_default)"

lemma demo_answers: "answers_viewports demo_vm demo_clarity UNIV main undefined demo_store"
proof -
  let ?e = "(1, create_rec None (Create 1 None 0 0 1 6)) :: u128 \<times> viewport_rec"
  have "list_all2 (viewport_value demo_clarity) [demo_viewport_value] [?e]"
    by (simp add: viewport_value_def holds_uint_def holds_optional_uint_def demo_clarity_def demo_viewport_value_def)
  moreover have none: "(wrb_get_viewports_iter demo_store ^^ k) (None, acc) = (None, acc)" for k acc
    by (induction k) simp_all
  have twenty: "(wrb_get_viewports_iter demo_store ^^ 20) x = (wrb_get_viewports_iter demo_store ^^ 19) (wrb_get_viewports_iter demo_store x)" for x
    using funpow_Suc_right [of 19 "wrb_get_viewports_iter demo_store"] by simp
  have "wrb_get_viewports demo_store cursor = (if cursor \<in> {None, Some 1} then [?e] else [])" for cursor
  proof -
    have stuck: "(wrb_get_viewports_iter demo_store ^^ k) (Some i, []) = (Some i, [])" if "i \<noteq> 1" for k i
      using that by (induction k) (simp_all add: demo_store_def)
    show ?thesis
      using stuck none by (cases cursor) (auto simp: wrb_get_viewports_def twenty, auto simp: demo_store_def)
  qed
  moreover have "viewports_query cursor = viewports_query c \<longleftrightarrow> cursor = c" for cursor c
    by (cases cursor; cases c) (auto simp: viewports_query_def show_u128_inj)
  moreover have "viewports_query cursor \<noteq> ''(print (wrb-get-root))''" "viewports_query cursor \<noteq> ''(print (wrb-ui-len))''"
    "viewports_query cursor \<noteq> ''(print (wrb-get-event-loop-name))''"
    "viewports_query cursor \<noteq> ''(print (wrb-get-num-event-subscriptions))''"
    "viewports_query cursor \<noteq> ''(print (wrb-get-event-subscription u0))''"
    "viewports_query cursor \<noteq> ''(print (wrb-get-event-loop-time))''" for cursor
    by (simp_all add: viewports_query_def)
  ultimately show ?thesis
    by (simp add: answers_viewports_def demo_vm_def demo_answer_def demo_clarity_def)
qed

lemma demo_created: "create_viewports ws_empty [Create 1 None 0 0 1 6] = Some demo_store"
  by (simp add: wrb_viewport_def wrb_check_dims_def uint_add_def ws_empty_def demo_store_def)

abbreviation demo_main :: QualifiedContractIdentifier where
  "demo_main \<equiv> undefined"

theorem get_viewports_collects_witness:
  "\<exists>st' sg. get_viewports demo_vm demo_clarity demo_state demo_main = Some (Ok (st', sg)) \<and>
     map vp_id (sg_viewports sg) = [1]"
  using get_viewports_collects [OF demo_answers _ demo_created, of demo_main demo_state]
  by (auto simp: page_state_def load_cached_contract_def gl_default_def)

text \<open>Every query of this machine answers, and caches the contract.\<close>

definition demo_after :: "unit \<times> (unit, unit) Globals \<Rightarrow> unit \<times> (unit, unit) Globals" where
  "demo_after st = ((), if load_cached_contract (snd st) demo_main = None
     then fst (store_cached_contract (snd st) demo_main undefined) else snd st)"

abbreviation demo_ok :: "unit \<times> (unit, unit) Globals \<Rightarrow> bool" where
  "demo_ok \<equiv> page_state UNIV demo_main undefined"

lemma demo_query: "query_value demo_vm st demo_main code = Ok (demo_after st, demo_answer code)"
  by (cases st) (auto simp: query_value_def run_query_code_def demo_vm_def store_cached_contract_def demo_after_def
      print_value_def map_filter_simps split: option.splits)

lemma demo_after_ok [simp]: "demo_ok st \<Longrightarrow> demo_ok (demo_after st)"
  by (auto simp: page_state_def demo_after_def load_cached_contract_def store_cached_contract_def)

lemma demo_state_ok [simp]: "demo_ok demo_state"
  by (simp add: page_state_def load_cached_contract_def gl_default_def)

lemma demo_make_root:
  assumes "demo_ok st"
  shows "\<exists>st' root. make_root demo_vm demo_clarity st demo_main = Some (Ok (st', root)) \<and> demo_ok st' \<and>
     rt_num_rows root = 1 \<and> rt_num_cols root = 6"
proof -
  obtain st1 sg where g: "get_viewports demo_vm demo_clarity st demo_main = Some (Ok (st1, sg))" "demo_ok st1"
    using get_viewports_ok [OF demo_answers assms demo_created] by auto
  then show ?thesis
    by (simp add: make_root_def get_static_ui_contents_def get_dynamic_ui_contents_def demo_query demo_answer_def
        viewports_query_def expect_u128_def expect_list_def expect_tuple_def get_u128_def tuple_get_def demo_clarity_def
        u64_try_from_def boxes_capacity_def set_all_forms_def root_new_def)
qed

theorem make_root_draws_witness:
  "\<exists>st' root root' b. make_root demo_vm demo_clarity demo_state demo_main = Some (Ok (st', root)) \<and>
     root_render (form_table demo_clarity) root = Some (root', b) \<and> shows_top root b"
  using demo_make_root [OF demo_state_ok] make_root_draws [OF demo_answers demo_state_ok demo_created]
  by fastforce

end
