(* ===== verification/Event_Props.thy ===== *)
theory Event_Props
  imports Event_Loop Renderer_Props
begin

text \<open>
  Properties of the event loop: which events reach the handler, what is sent for them, and
  when a page can be evaluated at all.
\<close>

section \<open>Frames\<close>

text \<open>The events that reach the handler: the subscribed ones up to the first close.\<close>

fun handled :: "page_config \<Rightarrow> 'v WrbEvent list \<Rightarrow> 'v WrbEvent list" where
  "handled C [] = []"
| "handled C (e # es) =
     (if not_subscribed C e then [] else [e]) @ (if is_close e then [] else handled C es)"

fun is_root_frame :: "'v WrbFrameData \<Rightarrow> bool" where
  "is_root_frame (FrameRoot _) = True"
| "is_root_frame (FrameUpdate _) = False"

text \<open>In the states \<open>S\<close> of the page, handler and frame construction succeed.\<close>

definition page_runs ::
  "('e, 'g, 'w, 'v) page_vm \<Rightarrow> 'v clarity \<Rightarrow> page_config \<Rightarrow> ('e, 'g, 'w) rstate set \<Rightarrow> bool" where
  "page_runs P V C S \<longleftrightarrow>
     (\<forall>st \<in> S. \<forall>e. \<exists>st' \<in> S. \<exists>v. run_one_event_loop_pass P V st (pc_main C) (pc_handler C) e = Ok (st', v)) \<and>
     (\<forall>st \<in> S. \<forall>h. \<exists>st' \<in> S. \<exists>f. next_frame_data P V C h st = Some (Ok (st', f)))"

lemma next_frame_kind: "next_frame_data P V C h st = Some (Ok (st', f)) \<Longrightarrow> is_root_frame f = (\<not> h)"
  by (auto simp: next_frame_data_def bind_Some_iff obind_Ok_iff Let_def split: if_splits)

lemma page_loop_sends:
  assumes "page_runs P V C S" and "pr_state s \<in> S"
  shows "\<exists>s' fs. page_loop P V C (\<lambda>_. True) es s = Some (Ok s') \<and> pr_state s' \<in> S \<and> pr_sent s' = pr_sent s @ fs \<and>
     length fs = length (handled C es) \<and> (pr_result s' = None \<longleftrightarrow> pr_result s = None \<and> handled C es = []) \<and>
     map is_root_frame fs = (if fs = [] then [] else (\<not> pr_has_root s) # replicate (length fs - 1) False)"
  using assms(2)
proof (induction es arbitrary: s)
  case (Cons e es)
  show ?case
  proof (cases "not_subscribed C e")
    case True
    then show ?thesis using Cons by auto
  next
    case False
    obtain st1 v where 1: "run_one_event_loop_pass P V (pr_state s) (pc_main C) (pc_handler C) e = Ok (st1, v)" "st1 \<in> S"
      using assms(1) Cons.prems unfolding page_runs_def by blast
    obtain st2 f where 2: "next_frame_data P V C (pr_has_root s) st1 = Some (Ok (st2, f))" "st2 \<in> S"
      using assms(1) 1(2) unfolding page_runs_def by blast
    let ?s = "s\<lparr>pr_result := Some v, pr_state := st2, pr_sent := pr_sent s @ [f], pr_has_root := True\<rparr>"
    have loop: "page_loop P V C (\<lambda>_. True) (e # es) s =
        (if is_close e then Some (Ok ?s) else page_loop P V C (\<lambda>_. True) es ?s)"
      using False 1(1) 2(1) by (simp add: Let_def)
    have kind: "is_root_frame f = (\<not> pr_has_root s)" by (rule next_frame_kind [OF 2(1)])
    show ?thesis
    proof (cases "is_close e")
      case True
      then show ?thesis using loop kind False 2(2) by simp
    next
      case c: False
      obtain s' fs where IH: "page_loop P V C (\<lambda>_. True) es ?s = Some (Ok s')" "pr_state s' \<in> S" "pr_sent s' = pr_sent ?s @ fs"
        "length fs = length (handled C es)" "pr_result s' \<noteq> None"
        "map is_root_frame fs = (if fs = [] then [] else False # replicate (length fs - 1) False)"
        using Cons.IH [of ?s] 2(2) by auto
      have "map is_root_frame fs = replicate (length fs) False" using IH(6) by (cases fs) auto
      then show ?thesis
        using loop IH(1-5) kind False c by (intro exI [of _ s'] exI [of _ "f # fs"]) simp
    qed
  qed
qed simp

abbreviation fresh_run :: "('e, 'g, 'w) rstate \<Rightarrow> ('e, 'g, 'w, 'v) page_run" where
  "fresh_run st \<equiv> \<lparr>pr_state = st, pr_result = None, pr_sent = [], pr_has_root = False\<rparr>"

lemma page_loop_fresh:
  assumes "page_runs P V C S" and "st \<in> S"
  shows "\<exists>s. page_loop P V C (\<lambda>_. True) es (fresh_run st) = Some (Ok s) \<and> pr_state s \<in> S \<and>
     length (pr_sent s) = length (handled C es) \<and> (pr_result s = None \<longleftrightarrow> handled C es = []) \<and>
     (\<forall>k < length (pr_sent s). is_root_frame (pr_sent s ! k) = (k = 0))"
proof -
  let ?s = "fresh_run st"
  obtain s fs where s: "page_loop P V C (\<lambda>_. True) es ?s = Some (Ok s)" "pr_sent s = fs" "pr_state s \<in> S"
    "length fs = length (handled C es)" "pr_result s = None \<longleftrightarrow> handled C es = []"
    "map is_root_frame fs = (if fs = [] then [] else True # replicate (length fs - 1) False)"
    using page_loop_sends [OF assms(1), of ?s es] assms(2) by auto
  have "is_root_frame (fs ! k) = (k = 0)" if "k < length fs" for k
  proof -
    have "is_root_frame (fs ! k) = map is_root_frame fs ! k" using that by simp
    then show ?thesis using that s(6) by (cases k) (auto split: if_splits)
  qed
  then show ?thesis using s by auto
qed

text \<open>
  C36. One frame per event. While handler and frame construction succeed and the viewer listens,
  the loop ends with the channel or after a close event, sends exactly one frame for every
  event that reaches the handler, the first one a whole root pane and all later ones updates,
  and has a result exactly when an event reached the handler.
\<close>

theorem page_loop_frames:
  assumes "page_runs P V C S" and "st \<in> S"
  shows "\<exists>s. page_loop P V C (\<lambda>_. True) es \<lparr>pr_state = st, pr_result = None, pr_sent = [], pr_has_root = False\<rparr> = Some (Ok s) \<and>
     length (pr_sent s) = length (handled C es) \<and> (pr_result s = None \<longleftrightarrow> handled C es = []) \<and>
     (\<forall>k < length (pr_sent s). is_root_frame (pr_sent s ! k) = (k = 0))"
  using page_loop_fresh [OF assms, of es] by (elim ex_forward conjE) (intro conjI; assumption)

section \<open>Evaluating a page\<close>

text \<open>
  When a page can be evaluated. A page with an event loop whose handler and frames succeed is
  evaluated to a root pane exactly when it has no subscriptions or has subscribed to the close
  event; otherwise the close event that the evaluation sends is dropped, no frame is made, and
  the evaluation fails.
\<close>

theorem eval_root_closes:
  fixes V :: "'v clarity"
  assumes "setup_page P V st input = Ok (st1, main, Some handler, subs, delay)"
    and "page_runs P V \<lparr>pc_main = main, pc_handler = handler, pc_subscriptions = subs, pc_delay = delay\<rparr> S"
    and "st1 \<in> S" and "\<forall>st \<in> S. \<exists>env. pv_tx_commit P (fst st) = Ok env"
  shows "if subs = {} \<or> 0 \<in> subs then \<exists>st' root. eval_root P V st input = Some (Ok (st', root))
     else eval_root P V st input = Some (Err (Event ''Failed to poll next frame''))"
proof -
  let ?C = "\<lparr>pc_main = main, pc_handler = handler, pc_subscriptions = subs, pc_delay = delay\<rparr>"
  let ?s = "fresh_run st1"
  obtain s where s: "page_loop P V ?C (\<lambda>_. True) [EvClose] ?s = Some (Ok s)" "pr_state s \<in> S"
    "length (pr_sent s) = length (handled ?C [EvClose :: 'v WrbEvent])" "\<forall>k < length (pr_sent s). is_root_frame (pr_sent s ! k) = (k = 0)"
    using page_loop_fresh [OF assms(2,3), of "[EvClose]"] by blast
  obtain env where env: "pv_tx_commit P (fst (pr_state s)) = Ok env" using assms(4) s(2) by blast
  have run: "run_page P V st input (\<lambda>_. True) [EvClose] = Some (Ok ((env, snd (pr_state s)), pr_sent s, pr_result s))"
    using assms(1) s(1) env by (simp add: run_page_def leave_env_def)
  show ?thesis
  proof (cases "subs = {} \<or> 0 \<in> subs")
    case True
    then have "length (pr_sent s) = 1" using s(3) by (auto simp: not_subscribed_def)
    then obtain f where f: "pr_sent s = [f]" by (metis One_nat_def length_0_conv length_Suc_conv)
    then have "is_root_frame f" "pr_sent s = [f]" using s(4) by simp_all
    then show ?thesis using True run by (cases f) (auto simp: eval_root_def)
  next
    case False
    then have "pr_sent s = []" using s(3) by (simp add: not_subscribed_def)
    then show ?thesis using False run by (simp add: eval_root_def)
  qed
qed

section \<open>Witnesses\<close>

definition demo_page_vm :: "(unit, unit, unit, demo_value) page_vm" where
  "demo_page_vm = \<lparr>pv_vm = demo_vm, pv_decode = Ok, pv_initialize_app = (\<lambda>st code. Ok (st, demo_main)),
     pv_begin_page_load = Ok, pv_begin = id, pv_roll_back = Ok, pv_commit = Ok, pv_tx_commit = Ok, pv_dropped = (\<lambda>st _ _. st),
     pv_load_analysis = (\<lambda>_ _. Ok (Some \<lparr>an_read_only = Map.empty, an_public = (\<lambda>_. Some (Fixed
       [\<lparr>at_admits_uint = True, at_admits_buff1024 = False\<rparr>, \<lparr>at_admits_uint = True, at_admits_buff1024 = False\<rparr>,
        \<lparr>at_admits_uint = True, at_admits_buff1024 = False\<rparr>, \<lparr>at_admits_uint = False, at_admits_buff1024 = True\<rparr>]))\<rparr>)),
     pv_clarity_name = (\<lambda>_. True), pv_expect_ascii = (\<lambda>_. Ok ''main''), pv_none = DNone, pv_uint = DUInt,
     pv_serialize = (\<lambda>_. Some [])\<rparr>"

lemma demo_ok_snd [simp]: "demo_ok ((), snd st) = demo_ok st"
  by (cases st) simp

abbreviation demo_config :: page_config where
  "demo_config \<equiv> \<lparr>pc_main = demo_main, pc_handler = ''main'', pc_subscriptions = {1}, pc_delay = 100\<rparr>"

lemma demo_runs: "page_runs demo_page_vm demo_clarity demo_config {st. demo_ok st}"
proof -
  have "\<exists>st'. demo_ok st' \<and> (\<exists>v. run_one_event_loop_pass demo_page_vm demo_clarity st demo_main ''main'' e = Ok (st', v))"
    if "demo_ok st" for st e
    using that demo_after_ok [OF that]
    by (cases e) (simp_all add: run_one_event_loop_pass_def event_payload_def demo_page_vm_def demo_query in_env_def
        leave_env_def to_panic_def demo_clarity_def)
  moreover have "\<exists>st'. demo_ok st' \<and> (\<exists>f. next_frame_data demo_page_vm demo_clarity demo_config h st = Some (Ok (st', f)))"
    if "demo_ok st" for st h
  proof (cases h)
    case True
    then show ?thesis
      using that
      by (simp add: next_frame_data_def make_root_update_def get_dynamic_ui_contents_def get_updated_viewports_def
          demo_page_vm_def demo_query demo_answer_def viewports_query_def expect_list_def demo_clarity_def in_env_def
          leave_env_def map_filter_simps)
  next
    case False
    then show ?thesis
      using demo_make_root [OF that] that
      by (cases st) (auto simp: next_frame_data_def demo_page_vm_def in_env_def leave_env_def Let_def)
  qed
  ultimately show ?thesis by (simp add: page_runs_def)
qed

theorem page_loop_frames_witness:
  "\<exists>s. page_loop demo_page_vm demo_clarity demo_config (\<lambda>_. True) [EvOpen, EvResize 1 2, EvTimer, EvClose, EvTimer]
      \<lparr>pr_state = demo_state, pr_result = None, pr_sent = [], pr_has_root = False\<rparr> = Some (Ok s) \<and>
     map is_root_frame (pr_sent s) = [True, False]"
proof -
  obtain s where s: "page_loop demo_page_vm demo_clarity demo_config (\<lambda>_. True) [EvOpen, EvResize 1 2, EvTimer, EvClose, EvTimer]
      \<lparr>pr_state = demo_state, pr_result = None, pr_sent = [], pr_has_root = False\<rparr> = Some (Ok s)"
    "length (pr_sent s) = 2" "\<forall>k < length (pr_sent s). is_root_frame (pr_sent s ! k) = (k = 0)"
    using page_loop_frames [OF demo_runs, of demo_state "[EvOpen, EvResize 1 2, EvTimer, EvClose, EvTimer]"]
    by (auto simp: not_subscribed_def)
  then obtain f g where "pr_sent s = [f, g]" by (auto simp: numeral_2_eq_2 length_Suc_conv)
  then show ?thesis using s(1,3) by (auto simp: numeral_2_eq_2 All_less_Suc)
qed

theorem eval_root_closes_witness:
  "eval_root demo_page_vm demo_clarity demo_state [] = Some (Err (Event ''Failed to poll next frame''))"
proof -
  have q0: "uint_arg ''wrb-get-event-subscription'' 0 = ''(print (wrb-get-event-subscription u0))''"
    by code_simp
  have "\<exists>st1. setup_page demo_page_vm demo_clarity demo_state [] = Ok (st1, demo_main, Some ''main'', {1}, 100) \<and> demo_ok st1"
    by (simp add: setup_page_def read_as_ascii_def find_event_loop_function_def find_event_subscriptions_def
        find_event_loop_delay_def element_value_def q0 demo_page_vm_def demo_query demo_answer_def viewports_query_def
        expect_u128_def expect_optional_def demo_clarity_def in_env_def leave_env_def)
  then obtain st1 where "setup_page demo_page_vm demo_clarity demo_state [] = Ok (st1, demo_main, Some ''main'', {1}, 100)"
    "st1 \<in> {st. demo_ok st}" by auto
  from eval_root_closes [OF this(1) demo_runs this(2)] show ?thesis by (simp add: demo_page_vm_def)
qed

end
