(* ===== verification/Area_Keys.thy ===== *)
theory Area_Keys
  imports Text_Props
begin

text \<open>
  The text area under all of its keys. \<open>Text_Props\<close> has the keys that edit at the cursor in
  insert mode; here are the keys that delete behind the cursor, overwrite and move by lines, and
  the specification of any sequence of keys as steps on the text around the cursor.
\<close>

section \<open>Operations of the gap buffer\<close>





section \<open>Moves\<close>















section \<open>What a key should do\<close>











fun typed_keys :: "Key list \<Rightarrow> rchar list" where
  "typed_keys [] = []"
| "typed_keys (KChar c # ks) = c # typed_keys ks"
| "typed_keys (_ # ks) = typed_keys ks"

section \<open>One key\<close>







definition chars_in :: "Key \<Rightarrow> rchar list" where
  "chars_in k = typed_keys [k]"


lemma chars_in_char [simp]: "chars_in (KChar c) = [c]"
  by (simp add: chars_in_def)



lemma note_col_simps [simp]:
  "ta_inner_text (note_col s) = ta_inner_text s" "ta_insert (note_col s) = ta_insert s"
  by (simp_all add: note_col_def)










section \<open>Any keys\<close>



lemma page_area:
  "ta_from_clarity_value V viewport_id v = Ok s \<Longrightarrow> \<exists>text. gb_new text GAP_SIZE = Some (ta_inner_text s) \<and> ta_insert s \<and> ta_cursor_col s = 0"
  by (auto simp: ta_from_clarity_value_def obind_Ok_iff)



end
