(* ===== verification/Wrbpod_Codec.thy ===== *)
theory Wrbpod_Codec
  imports Btree_Map
begin

text \<open>
  The codec that wrbpod chunks are written with. Reading and writing of integers, hashes and
  vectors is that of \<open>stacks_common\<close>: a record that the operations of \<open>src/storage/mod.rs\<close> take,
  with the laws they rely on. A writer appends to a vector of bytes, a reader returns the rest
  of its input.
\<close>

section \<open>Errors and slots\<close>

typedecl codec_io_error

datatype CodecError =
    SerializeError string | ReadError codec_io_error | DeserializeError string | WriteError codec_io_error
  | UnderflowError string | OverflowError string | ArrayTooLong | SigningError string | GenericError string

type_synonym 'a writer = "'a \<Rightarrow> (CodecError, bytes) outcome"
type_synonym 'a reader = "bytes \<Rightarrow> (CodecError, 'a \<times> bytes) outcome"
type_synonym Hash160 = bytes  \<comment> \<open>20 bytes\<close>

datatype WrbpodSlot = Filled u32 | Free u32

section \<open>The codec\<close>

record codec =
  wr_u8 :: "u8 writer"
  rd_u8 :: "u8 reader"
  wr_u32 :: "u32 writer"
  rd_u32 :: "u32 reader"
  wr_u64 :: "u64 writer"
  rd_u64 :: "u64 reader"
  wr_hash160 :: "Hash160 writer"
  rd_hash160 :: "Hash160 reader"
  wr_bytes :: "bytes writer"
  rd_bytes :: "bytes reader"
  wr_u32s :: "u32 list writer"
  rd_u32s :: "u32 list reader"
  wr_names :: "bytes list writer"
  rd_names :: "bytes list reader"
  wr_slots :: "WrbpodSlot writer \<Rightarrow> WrbpodSlot list writer"
  rd_slots_at_most :: "WrbpodSlot reader \<Rightarrow> u32 \<Rightarrow> WrbpodSlot list reader"

text \<open>
  What the sources rely on: integers take their width, a buffer takes four bytes more than its
  length, and a written value can be read back from the front of any input. Vectors of more
  than \<open>limit\<close> elements need not be readable. A vector of slots is written and read with the
  functions for one slot.
\<close>

definition reads_back :: "'a writer \<Rightarrow> 'a reader \<Rightarrow> 'a \<Rightarrow> nat \<Rightarrow> bool" where
  "reads_back w r x n \<longleftrightarrow> (\<exists>b. w x = Ok b \<and> length b = n \<and> (\<forall>rest. r (b @ rest) = Ok (x, rest)))"

definition readable :: "'a writer \<Rightarrow> 'a reader \<Rightarrow> 'a \<Rightarrow> bool" where
  "readable w r x \<longleftrightarrow> (\<exists>n. reads_back w r x n)"

definition codec_ok :: "codec \<Rightarrow> nat \<Rightarrow> bool" where
  "codec_ok C limit \<longleftrightarrow>
     (\<forall>x. reads_back (wr_u8 C) (rd_u8 C) x 1) \<and>
     (\<forall>x. reads_back (wr_u32 C) (rd_u32 C) x 4) \<and>
     (\<forall>x. reads_back (wr_u64 C) (rd_u64 C) x 8) \<and>
     (\<forall>x. length x = 20 \<longrightarrow> readable (wr_hash160 C) (rd_hash160 C) x) \<and>
     (\<forall>x. length x \<le> limit \<longrightarrow> reads_back (wr_bytes C) (rd_bytes C) x (4 + length x)) \<and>
     (\<forall>x. length x \<le> limit \<longrightarrow> readable (wr_u32s C) (rd_u32s C) x) \<and>
     (\<forall>x. length x \<le> limit \<and> (\<forall>y \<in> set x. length y \<le> limit) \<longrightarrow> readable (wr_names C) (rd_names C) x) \<and>
     (\<forall>w r x n. length x \<le> limit \<and> length x \<le> unat n \<and> (\<forall>y \<in> set x. readable w r y) \<longrightarrow>
        readable (wr_slots C w) (rd_slots_at_most C r n) x)"

text \<open>The bytes of a string of Latin-1 characters, and back.\<close>

definition as_bytes :: "string \<Rightarrow> bytes" where
  "as_bytes s = map (\<lambda>c. word_of_nat (of_char c)) s"

definition of_bytes :: "bytes \<Rightarrow> string" where
  "of_bytes bs = map (\<lambda>b. char_of (unat b)) bs"

definition wseq :: "(CodecError, bytes) outcome \<Rightarrow> (CodecError, bytes) outcome \<Rightarrow> (CodecError, bytes) outcome" where
  "wseq a b = obind a (\<lambda>x. obind b (\<lambda>y. Ok (x @ y)))"

fun write_all :: "'a writer \<Rightarrow> 'a list \<Rightarrow> (CodecError, bytes) outcome" where
  "write_all w [] = Ok []"
| "write_all w (x # xs) = wseq (w x) (write_all w xs)"

text \<open>\<open>serialize_to_vec\<close>: writing to a vector in memory must not fail.\<close>

definition serialize_to_vec :: "(CodecError, bytes) outcome \<Rightarrow> bytes option" where
  "serialize_to_vec w = (case w of Ok b \<Rightarrow> Some b | _ \<Rightarrow> None)"

definition u128_consensus_serialize :: "u128 writer" where
  "u128_consensus_serialize value = Ok (to_be_bytes 16 value)"

definition u128_consensus_deserialize :: "u128 reader" where
  "u128_consensus_deserialize fd =
     (if length fd < 16 then Err (DeserializeError ''Failed to read u128'')
      else Ok (from_be_bytes (take 16 fd), drop 16 fd))"

lemma reads_back_seq:
  assumes "reads_back w r x n"
  obtains b where "w x = Ok b" "length b = n" "\<And>rest. r (b @ rest) = Ok (x, rest)"
  using assms by (auto simp: reads_back_def)

lemma readableE:
  assumes "readable w r x"
  obtains b where "w x = Ok b" "\<And>rest. r (b @ rest) = Ok (x, rest)"
  using assms by (auto simp: readable_def reads_back_def)

lemma readableI: "w x = Ok b \<Longrightarrow> (\<And>rest. r (b @ rest) = Ok (x, rest)) \<Longrightarrow> readable w r x"
  by (auto simp: readable_def reads_back_def)

lemma reads_back_readable: "reads_back w r x n \<Longrightarrow> readable w r x"
  by (auto simp: readable_def)

lemma wseq_Ok [simp]: "wseq (Ok a) (Ok b) = Ok (a @ b)"
  by (simp add: wseq_def)

section \<open>A codec\<close>

text \<open>Big-endian integers, and vectors after their length: the laws of the codec can hold.\<close>

definition rd_word :: "nat \<Rightarrow> 'a::len word reader" where
  "rd_word n fd = (if length fd < n then Err (DeserializeError ''short input'') else Ok (from_be_bytes (take n fd), drop n fd))"

definition rd_prefixed :: "bytes reader" where
  "rd_prefixed fd = obind (rd_word 4 fd) (\<lambda>(n :: u32, fd).
     if length fd < unat n then Err (DeserializeError ''short input'') else Ok (take (unat n) fd, drop (unat n) fd))"

definition wr_prefixed :: "bytes writer" where
  "wr_prefixed bs = (if length bs < 2 ^ 32 then Ok (to_be_bytes 4 (word_of_nat (length bs) :: u32) @ bs)
     else Err (SerializeError ''too long''))"

fun rd_many :: "'a reader \<Rightarrow> nat \<Rightarrow> 'a list reader" where
  "rd_many r 0 fd = Ok ([], fd)"
| "rd_many r (Suc n) fd = obind (r fd) (\<lambda>(x, fd). obind (rd_many r n fd) (\<lambda>(xs, fd). Ok (x # xs, fd)))"

definition wr_vec :: "'a writer \<Rightarrow> 'a list writer" where
  "wr_vec w xs = (if length xs < 2 ^ 32 then wseq (Ok (to_be_bytes 4 (word_of_nat (length xs) :: u32))) (write_all w xs)
     else Err (SerializeError ''too long''))"

definition rd_vec :: "'a reader \<Rightarrow> u32 \<Rightarrow> 'a list reader" where
  "rd_vec r most fd = obind (rd_word 4 fd) (\<lambda>(n :: u32, fd).
     if most < n then Err (DeserializeError ''too long'') else rd_many r (unat n) fd)"

definition be_codec :: codec where
  "be_codec = \<lparr>wr_u8 = (\<lambda>x. Ok (to_be_bytes 1 x)), rd_u8 = rd_word 1, wr_u32 = (\<lambda>x. Ok (to_be_bytes 4 x)), rd_u32 = rd_word 4,
     wr_u64 = (\<lambda>x. Ok (to_be_bytes 8 x)), rd_u64 = rd_word 8, wr_hash160 = wr_prefixed, rd_hash160 = rd_prefixed,
     wr_bytes = wr_prefixed, rd_bytes = rd_prefixed,
     wr_u32s = wr_vec (\<lambda>x. Ok (to_be_bytes 4 x)), rd_u32s = rd_vec (rd_word 4) 0xFFFFFFFF,
     wr_names = wr_vec wr_prefixed, rd_names = rd_vec rd_prefixed 0xFFFFFFFF, wr_slots = wr_vec, rd_slots_at_most = rd_vec\<rparr>"

lemma rd_word_back: "LENGTH('a) \<le> 8 * n \<Longrightarrow> rd_word n (to_be_bytes n x @ rest) = Ok (x :: 'a::len word, rest)"
  by (simp add: rd_word_def from_to_be_bytes)

lemma prefixed_back: "length x < 2 ^ 32 \<Longrightarrow> reads_back wr_prefixed rd_prefixed x (4 + length x)"
  by (simp add: reads_back_def wr_prefixed_def rd_prefixed_def rd_word_back unat_of_nat)

lemma rd_many_back:
  "\<forall>y \<in> set xs. readable w r y \<Longrightarrow> \<exists>b. write_all w xs = Ok b \<and> (\<forall>rest. rd_many r (length xs) (b @ rest) = Ok (xs, rest))"
proof (induction xs)
  case (Cons x xs)
  have "readable w r x" using Cons.prems by simp
  then obtain c where c: "w x = Ok c" "\<And>rest. r (c @ rest) = Ok (x, rest)" by (rule readableE) blast
  obtain b where b: "write_all w xs = Ok b" "\<And>rest. rd_many r (length xs) (b @ rest) = Ok (xs, rest)"
    using Cons by auto
  have "write_all w (x # xs) = Ok (c @ b)" using b(1) c(1) by simp
  moreover have "rd_many r (length (x # xs)) ((c @ b) @ rest) = Ok (x # xs, rest)" for rest
    using b(2) c(2) by simp
  ultimately show ?case by blast
qed simp

lemma vec_back:
  assumes "length xs < 2 ^ 32" and "length xs \<le> unat n" and "\<forall>y \<in> set xs. readable w r y"
  shows "readable (wr_vec w) (rd_vec r n) xs"
proof -
  obtain b where b: "write_all w xs = Ok b" "\<And>rest. rd_many r (length xs) (b @ rest) = Ok (xs, rest)"
    using rd_many_back [OF assms(3)] by blast
  have u: "unat (word_of_nat (length xs) :: u32) = length xs" using assms(1) by (simp add: unat_of_nat)
  then have "\<not> n < word_of_nat (length xs)" using assms(2) by (simp add: word_less_nat_alt)
  then show ?thesis using assms(1) b u
    by (intro readableI [where b = "to_be_bytes 4 (word_of_nat (length xs) :: u32) @ b"]) (simp_all add: wr_vec_def rd_vec_def rd_word_back)
qed

lemma codec_ok_be:
  assumes "limit < 2 ^ 32"
  shows "codec_ok be_codec limit"
proof -
  have u32: "readable (\<lambda>x. Ok (to_be_bytes 4 x)) (rd_word 4) (y :: u32)" for y
    by (rule readableI [where b = "to_be_bytes 4 y"]) (simp_all add: rd_word_back)
  have max: "length xs \<le> limit \<Longrightarrow> length xs \<le> unat (0xFFFFFFFF :: u32)" for xs :: "'b list"
    using assms by simp
  have "readable (wr_vec wr_prefixed) (rd_vec rd_prefixed 0xFFFFFFFF) xs"
    if "length xs \<le> limit" "\<forall>y \<in> set xs. length y \<le> limit" for xs
    using that assms by (intro vec_back max) (auto intro!: reads_back_readable prefixed_back dest!: bspec)
  moreover have "readable (wr_vec (\<lambda>x. Ok (to_be_bytes 4 x))) (rd_vec (rd_word 4) 0xFFFFFFFF) xs"
    if "length xs \<le> limit" for xs :: "u32 list"
    using that assms u32 by (intro vec_back max) auto
  ultimately show ?thesis using assms
    by (auto simp: codec_ok_def be_codec_def reads_back_def [of "\<lambda>x. Ok (to_be_bytes _ x)"] rd_word_back
        intro!: prefixed_back vec_back reads_back_readable [OF prefixed_back])
qed

end
