(* ===== verification/Wrbpod_Slices.thy ===== *)
theory Wrbpod_Slices
  imports Wrbpod_Codec
begin

text \<open>
  The slices of a wrbpod slot (\<open>WrbpodSlices\<close> of \<open>src/storage/mod.rs\<close> and \<open>wrbpod.rs\<close>): slicefers
  under 128-bit identifiers, bundled into one chunk of bounded size. The largest size of a chunk,
  a constant of \<open>libstackerdb\<close>, is an argument.
\<close>

section \<open>Slices\<close>

record WrbpodSlices =
  sl_version :: u8
  sl_slices :: "bytes list"
  sl_index :: "(u128, usize) btree"
  sl_dirty :: bool
  sl_encoded_size :: nat
  sl_max_size :: nat

definition WRBPOD_SLICES_VERSION :: u8 where
  "WRBPOD_SLICES_VERSION = 0"

definition WRBPOD_SLICES_INITIAL_SIZE :: nat where
  "WRBPOD_SLICES_INITIAL_SIZE = 1 + 8"

definition slices_new :: "u32 \<Rightarrow> WrbpodSlices" where
  "slices_new chunk_max = \<lparr>sl_version = WRBPOD_SLICES_VERSION, sl_slices = [], sl_index = [], sl_dirty = False,
     sl_encoded_size = WRBPOD_SLICES_INITIAL_SIZE, sl_max_size = unat chunk_max\<rparr>"

definition slice_encoded_size :: "usize \<Rightarrow> bool \<Rightarrow> nat option" where
  "slice_encoded_size slice_len present =
     do { sz \<leftarrow> add64 4 slice_len;
          if present then Some sz else do { a \<leftarrow> add64 sz 16; add64 a 8 } }"

definition slices_can_fit :: "WrbpodSlices \<Rightarrow> u128 \<Rightarrow> usize \<Rightarrow> bool option" where
  "slices_can_fit s i len =
     do { sz \<leftarrow> slice_encoded_size len (map_of (sl_index s) i \<noteq> None);
          total \<leftarrow> add64 (sl_encoded_size s) sz;
          Some (total \<le> sl_max_size s) }"

definition slices_put :: "WrbpodSlices \<Rightarrow> u128 \<Rightarrow> bytes \<Rightarrow> (WrbpodSlices \<times> bool) option" where
  "slices_put s i buf =
     (case map_of (sl_index s) i of
        Some k \<Rightarrow>
          do { sz \<leftarrow> slice_encoded_size (length buf) True;
               total \<leftarrow> add64 (sl_encoded_size s) sz;
               if total > sl_max_size s then Some (s, False)
               else do { slices \<leftarrow> store (sl_slices s) k buf;
                         Some (s\<lparr>sl_encoded_size := total, sl_slices := slices, sl_dirty := True\<rparr>, True) } }
      | None \<Rightarrow>
          do { sz \<leftarrow> slice_encoded_size (length buf) False;
               total \<leftarrow> add64 (sl_encoded_size s) sz;
               if total > sl_max_size s then Some (s, False)
               else Some (s\<lparr>sl_encoded_size := total, sl_index := bt_insert i (length (sl_slices s)) (sl_index s),
                            sl_slices := sl_slices s @ [buf], sl_dirty := True\<rparr>, True) })"

definition slices_get :: "WrbpodSlices \<Rightarrow> u128 \<Rightarrow> bytes option" where
  "slices_get s i = (case map_of (sl_index s) i of None \<Rightarrow> None | Some k \<Rightarrow> vec_get (sl_slices s) k)"

definition is_dirty :: "WrbpodSlices \<Rightarrow> bool" where
  "is_dirty s = sl_dirty s"

definition set_dirty :: "WrbpodSlices \<Rightarrow> bool \<Rightarrow> WrbpodSlices" where
  "set_dirty s dirty = s\<lparr>sl_dirty := dirty\<rparr>"

definition write_index_entry :: "codec \<Rightarrow> (u128 \<times> usize) writer" where
  "write_index_entry C e = wseq (u128_consensus_serialize (fst e)) (wr_u64 C (word_of_nat (snd e)))"

definition slices_serialize :: "codec \<Rightarrow> WrbpodSlices writer" where
  "slices_serialize C s =
     wseq (wr_u8 C (sl_version s))
       (wseq (wr_u64 C (word_of_nat (length (sl_index s))))
         (wseq (write_all (write_index_entry C) (sl_index s)) (write_all (wr_bytes C) (sl_slices s))))"

text \<open>The loops of the reader; they also count the bytes read.\<close>

fun read_index ::
  "codec \<Rightarrow> u64 \<Rightarrow> nat \<Rightarrow> (u128, usize) btree \<times> nat \<Rightarrow> ((u128, usize) btree \<times> nat) reader" where
  "read_index C index_count 0 (index, encoded_size) fd = Ok ((index, encoded_size), fd)"
| "read_index C index_count (Suc n) (index, encoded_size) fd =
     obind (u128_consensus_deserialize fd) (\<lambda>(i, fd).
     obind (rd_u64 C fd) (\<lambda>(idx_u64, fd).
     if index_count \<le> idx_u64 then Err (DeserializeError ''index exceeds number of slices'')
     else if map_of index i \<noteq> None then Err (DeserializeError ''duplicate slice ID'')
     else read_index C index_count n (bt_insert i (unat idx_u64) index, encoded_size + 16 + 8) fd))"

fun read_slices :: "codec \<Rightarrow> nat \<Rightarrow> bytes list \<times> nat \<Rightarrow> (bytes list \<times> nat) reader" where
  "read_slices C 0 (slices, encoded_size) fd = Ok ((slices, encoded_size), fd)"
| "read_slices C (Suc n) (slices, encoded_size) fd =
     obind (rd_bytes C fd) (\<lambda>(buf, fd).
     read_slices C n (slices @ [buf], encoded_size + (4 + length buf)) fd)"

definition slices_deserialize :: "codec \<Rightarrow> u32 \<Rightarrow> WrbpodSlices reader" where
  "slices_deserialize C chunk_max fd =
     obind (rd_u8 C fd) (\<lambda>(version, fd).
     obind (rd_u64 C fd) (\<lambda>(index_count, fd).
     obind (read_index C index_count (unat index_count) ([], 1 + 8) fd) (\<lambda>((index, encoded_size), fd).
     obind (read_slices C (unat index_count) ([], encoded_size) fd) (\<lambda>((slices, encoded_size), fd).
     Ok (\<lparr>sl_version = version, sl_slices = slices, sl_index = index, sl_dirty = False,
          sl_encoded_size = encoded_size, sl_max_size = unat chunk_max\<rparr>, fd)))))"

definition slices_from_slice :: "codec \<Rightarrow> u32 \<Rightarrow> bytes \<Rightarrow> (CodecError, WrbpodSlices) outcome" where
  "slices_from_slice C chunk_max data = obind (slices_deserialize C chunk_max data) (\<lambda>(s, rest). Ok s)"

section \<open>The invariant\<close>

text \<open>The bytes a bundle really takes.\<close>

definition slices_size :: "WrbpodSlices \<Rightarrow> nat" where
  "slices_size s = 9 + 24 * length (sl_index s) + sum_list (map (\<lambda>b. 4 + length b) (sl_slices s))"

definition slices_inv :: "WrbpodSlices \<Rightarrow> bool" where
  "slices_inv s \<longleftrightarrow> bt_ok (sl_index s) \<and> length (sl_index s) = length (sl_slices s) \<and>
     snd ` set (sl_index s) = {0..<length (sl_slices s)} \<and>
     slices_size s \<le> sl_encoded_size s \<and> sl_encoded_size s \<le> sl_max_size s \<and> sl_max_size s < 2 ^ 32"

lemma slices_inv_new: "9 \<le> chunk_max \<Longrightarrow> slices_inv (slices_new chunk_max)"
  using unsigned_less [of chunk_max, where 'a = nat]
  by (auto simp: slices_inv_def slices_new_def slices_size_def WRBPOD_SLICES_INITIAL_SIZE_def word_le_nat_alt)

text \<open>The identifiers of a bundle name different slices.\<close>

lemma index_inj:
  assumes "slices_inv s" and "map_of (sl_index s) i = Some k" and "map_of (sl_index s) j = Some k"
  shows "i = j"
proof -
  have "card (snd ` set (sl_index s)) = length (sl_index s)" using assms(1) by (simp add: slices_inv_def)
  then have "distinct (map snd (sl_index s))" by (metis card_distinct length_map list.set_map)
  then have "inj_on snd (set (sl_index s))" by (simp add: distinct_map)
  then show ?thesis using assms(2,3) by (metis map_of_SomeD inj_onD prod.inject snd_conv)
qed

lemma index_bound: "slices_inv s \<Longrightarrow> map_of (sl_index s) i = Some k \<Longrightarrow> k < length (sl_slices s)"
  by (force simp: slices_inv_def dest: map_of_SomeD)

lemma sum_list_update_le:
  "k < length xs \<Longrightarrow> sum_list (map f (xs[k := x])) \<le> sum_list (map f xs) + (f x :: nat)"
  by (induction xs arbitrary: k) (auto split: nat.splits)

lemma slices_get_saved [simp]:
  "slices_get (s\<lparr>sl_dirty := d, sl_encoded_size := n\<rparr>) = slices_get s"
  by (simp add: slices_get_def fun_eq_iff split: option.splits)

text \<open>
  A put of a slice that a \<open>Vec\<close> can hold: it never panics, refuses a slice that would exceed the
  limit and changes nothing then, and otherwise the slice can be got back and no other slice
  changes.
\<close>

lemma slices_put_step:
  assumes inv: "slices_inv s" and small: "length buf < 2 ^ 63"
  shows "\<exists>s' ok. slices_put s i buf = Some (s', ok) \<and> slices_inv s' \<and> slices_can_fit s i (length buf) = Some ok \<and>
     (if ok then slices_get s' = (slices_get s)(i \<mapsto> buf) else s' = s)"
proof (cases "map_of (sl_index s) i")
  case None
  have lim: "sl_encoded_size s < 2 ^ 32" using inv by (simp add: slices_inv_def)
  show ?thesis
  proof (cases "sl_max_size s < sl_encoded_size s + (4 + length buf + 24)")
    case True
    then show ?thesis using None lim small inv
      by (simp add: slices_put_def slices_can_fit_def slice_encoded_size_def panic_simps u64_lim_def add.assoc) blast
  next
    case False
    let ?s = "s\<lparr>sl_encoded_size := sl_encoded_size s + (4 + length buf + 24),
      sl_index := bt_insert i (length (sl_slices s)) (sl_index s), sl_slices := sl_slices s @ [buf], sl_dirty := True\<rparr>"
    have put: "slices_put s i buf = Some (?s, True)" "slices_can_fit s i (length buf) = Some True"
      using None lim small False
      by (simp_all add: slices_put_def slices_can_fit_def slice_encoded_size_def panic_simps u64_lim_def add.assoc)
    have new: "i \<notin> fst ` set (sl_index s)" using None by (simp add: map_of_eq_None_iff)
    have "slices_inv ?s" using inv False new
      by (auto simp: slices_inv_def slices_size_def length_bt_insert set_bt_insert_new lessThan_Suc atLeast0LessThan)
    moreover have "slices_get ?s = (slices_get s)(i \<mapsto> buf)"
      using index_bound [OF inv]
      by (auto simp: slices_get_def fun_eq_iff vec_get_def nth_append less_SucI split: option.splits)
    ultimately show ?thesis using put by auto
  qed
next
  case (Some k)
  have lim: "sl_encoded_size s < 2 ^ 32" using inv by (simp add: slices_inv_def)
  note k = index_bound [OF inv Some]
  show ?thesis
  proof (cases "sl_max_size s < sl_encoded_size s + (4 + length buf)")
    case True
    then show ?thesis using Some lim small inv
      by (simp add: slices_put_def slices_can_fit_def slice_encoded_size_def panic_simps u64_lim_def) blast
  next
    case False
    let ?s = "s\<lparr>sl_encoded_size := sl_encoded_size s + (4 + length buf), sl_slices := (sl_slices s)[k := buf], sl_dirty := True\<rparr>"
    have put: "slices_put s i buf = Some (?s, True)" "slices_can_fit s i (length buf) = Some True"
      using Some lim small False k
      by (simp_all add: slices_put_def slices_can_fit_def slice_encoded_size_def panic_simps u64_lim_def)
    have "slices_size ?s \<le> slices_size s + (4 + length buf)"
      using sum_list_update_le [OF k, of "\<lambda>b. 4 + length b" buf] by (simp add: slices_size_def)
    then have "slices_inv ?s" using inv False by (simp add: slices_inv_def)
    moreover have "slices_get ?s j = ((slices_get s)(i \<mapsto> buf)) j" for j
    proof (cases "map_of (sl_index s) j")
      case None
      then show ?thesis using Some by (auto simp: slices_get_def)
    next
      case (Some k')
      then have "k' = k \<Longrightarrow> j = i" using index_inj [OF inv] \<open>map_of (sl_index s) i = Some k\<close> by blast
      then show ?thesis using Some k \<open>map_of (sl_index s) i = Some k\<close> by (cases "j = i") (auto simp: slices_get_def vec_get_def nth_list_update)
    qed
    ultimately show ?thesis using put by (auto simp: fun_eq_iff)
  qed
qed

section \<open>Reading back what was written\<close>

lemma read_index_back:
  assumes C: "codec_ok C limit" and "bt_ok (m @ es)" and "\<forall>e \<in> set es. snd e < unat count"
  shows "\<exists>b. write_all (write_index_entry C) es = Ok b \<and> length b = 24 * length es \<and>
     (\<forall>rest n. read_index C count (length es) (m, n) (b @ rest) = Ok ((m @ es, n + 24 * length es), rest))"
  using assms(2,3)
proof (induction es arbitrary: m)
  case (Cons e es)
  obtain i k where e: "e = (i, k)" by (cases e)
  have u64: "reads_back (wr_u64 C) (rd_u64 C) (word_of_nat k) 8" using C by (simp add: codec_ok_def)
  obtain c where c: "wr_u64 C (word_of_nat k) = Ok c" "length c = 8" "\<And>rest. rd_u64 C (c @ rest) = Ok (word_of_nat k, rest)"
    using reads_back_seq [OF u64] by metis
  have k: "unat (word_of_nat k :: u64) = k"
    using Cons.prems(2) e unsigned_less [of count, where 'a = nat] by (simp add: unat_of_nat)
  have "\<forall>k' \<in> fst ` set m. k' < i" using Cons.prems(1) e by (auto simp: bt_ok_def sorted_wrt_append)
  then have new: "map_of m i = None" and ins: "bt_insert i k m = m @ [e]"
    using e by (auto simp: map_of_eq_None_iff bt_insert_last)
  have not_le: "\<not> count \<le> word_of_nat k" using k Cons.prems(2) e by (simp add: word_le_nat_alt)
  obtain b where b: "write_all (write_index_entry C) es = Ok b" "length b = 24 * length es"
    "\<And>rest n. read_index C count (length es) (m @ [e], n) (b @ rest) = Ok (((m @ [e]) @ es, n + 24 * length es), rest)"
    using Cons.IH [of "m @ [e]"] Cons.prems by fastforce
  show ?case
  proof (intro exI conjI allI)
    show "write_all (write_index_entry C) (e # es) = Ok ((to_be_bytes 16 i @ c) @ b)"
      using b(1) c(1) e by (simp add: write_index_entry_def u128_consensus_serialize_def)
    show "length ((to_be_bytes 16 i @ c) @ b) = 24 * length (e # es)" using b(2) c(2) by simp
  next
    fix rest n
    show "read_index C count (length (e # es)) (m, n) (((to_be_bytes 16 i @ c) @ b) @ rest) =
        Ok ((m @ e # es, n + 24 * length (e # es)), rest)"
      using b(3) [of "n + 24"] c(3) new ins not_le k
      by (simp add: u128_consensus_deserialize_def from_to_be_bytes add.assoc)
  qed
qed simp

lemma read_slices_back:
  assumes C: "codec_ok C limit" and "\<forall>b \<in> set bs. length b \<le> limit"
  shows "\<exists>b. write_all (wr_bytes C) bs = Ok b \<and> length b = sum_list (map (\<lambda>b. 4 + length b) bs) \<and>
     (\<forall>rest acc n. read_slices C (length bs) (acc, n) (b @ rest) = Ok ((acc @ bs, n + length b), rest))"
  using assms(2)
proof (induction bs)
  case (Cons x bs)
  have "reads_back (wr_bytes C) (rd_bytes C) x (4 + length x)" using C Cons.prems by (simp add: codec_ok_def)
  then obtain c where c: "wr_bytes C x = Ok c" "length c = 4 + length x" "\<And>rest. rd_bytes C (c @ rest) = Ok (x, rest)"
    by (rule reads_back_seq) blast
  obtain b where b: "write_all (wr_bytes C) bs = Ok b" "length b = sum_list (map (\<lambda>b. 4 + length b) bs)"
    "\<And>rest acc n. read_slices C (length bs) (acc, n) (b @ rest) = Ok ((acc @ bs, n + length b), rest)"
    using Cons by auto
  have "write_all (wr_bytes C) (x # bs) = Ok (c @ b)" using b(1) c(1) by simp
  moreover have "read_slices C (length (x # bs)) (acc, n) ((c @ b) @ rest) = Ok ((acc @ x # bs, n + length (c @ b)), rest)"
    for rest acc n using b(3) c(2,3) by (simp add: add.assoc)
  ultimately show ?case using b(2) c(2) by fastforce
qed simp

lemma slices_fit: "b \<in> set (sl_slices s) \<Longrightarrow> length b \<le> slices_size s"
  using member_le_sum_list [of "4 + length b" "map (\<lambda>b. 4 + length b) (sl_slices s)"]
  by (auto simp: slices_size_def)

lemma slices_codec:
  assumes C: "codec_ok C limit" and inv: "slices_inv s" and "unat chunk_max \<le> limit"
    and max: "sl_max_size s = unat chunk_max"
  shows "\<exists>b. serialize_to_vec (slices_serialize C s) = Some b \<and> length b = slices_size s \<and>
     slices_from_slice C chunk_max b = Ok (s\<lparr>sl_dirty := False, sl_encoded_size := slices_size s\<rparr>)"
proof -
  have len: "length (sl_index s) = length (sl_slices s)" and small: "slices_size s < 2 ^ 32"
    using inv by (auto simp: slices_inv_def)
  let ?count = "word_of_nat (length (sl_index s)) :: u64"
  have count: "unat ?count = length (sl_index s)"
    using small by (simp add: unat_of_nat slices_size_def)
  have u8: "reads_back (wr_u8 C) (rd_u8 C) (sl_version s) 1" and u64: "reads_back (wr_u64 C) (rd_u64 C) ?count 8"
    using C by (simp_all add: codec_ok_def)
  obtain a where a: "wr_u8 C (sl_version s) = Ok a" "length a = 1" "\<And>rest. rd_u8 C (a @ rest) = Ok (sl_version s, rest)"
    by (rule reads_back_seq [OF u8]) blast
  obtain c where c: "wr_u64 C ?count = Ok c" "length c = 8" "\<And>rest. rd_u64 C (c @ rest) = Ok (?count, rest)"
    by (rule reads_back_seq [OF u64]) blast
  have "\<forall>e \<in> set (sl_index s). snd e < unat ?count" using inv count by (force simp: slices_inv_def)
  then obtain d where d: "write_all (write_index_entry C) (sl_index s) = Ok d" "length d = 24 * length (sl_index s)"
    "\<And>rest n. read_index C ?count (length (sl_index s)) ([], n) (d @ rest) = Ok ((sl_index s, n + 24 * length (sl_index s)), rest)"
    using read_index_back [OF C, of "[]" "sl_index s" ?count] inv by (auto simp: slices_inv_def)
  have "\<forall>b \<in> set (sl_slices s). length b \<le> limit"
    using slices_fit [of _ s] inv assms(3) max by (fastforce simp: slices_inv_def)
  then obtain e where e: "write_all (wr_bytes C) (sl_slices s) = Ok e"
    "length e = sum_list (map (\<lambda>b. 4 + length b) (sl_slices s))"
    "\<And>rest acc n. read_slices C (length (sl_index s)) (acc, n) (e @ rest) = Ok ((acc @ sl_slices s, n + length e), rest)"
    using read_slices_back [OF C] len by metis
  have rec: "\<lparr>sl_version = sl_version s, sl_slices = sl_slices s, sl_index = sl_index s, sl_dirty = False,
      sl_encoded_size = n, sl_max_size = unat chunk_max\<rparr> = s\<lparr>sl_dirty := False, sl_encoded_size := n\<rparr>" for n
    using max by (cases s) simp
  have "serialize_to_vec (slices_serialize C s) = Some (a @ c @ d @ e)"
    by (simp add: serialize_to_vec_def slices_serialize_def a(1) c(1) d(1) e(1))
  moreover have "length (a @ c @ d @ e) = slices_size s"
    by (simp add: a(2) c(2) d(2) e(2) slices_size_def)
  moreover have "slices_from_slice C chunk_max (a @ c @ d @ e) = Ok (s\<lparr>sl_dirty := False, sl_encoded_size := slices_size s\<rparr>)"
    using e(3) [of _ _ "[]"] by (simp add: slices_from_slice_def slices_deserialize_def a(3) c(3) d(3) count e(2) slices_size_def rec)
  ultimately show ?thesis by blast
qed

section \<open>Storing slices\<close>

fun slices_puts :: "WrbpodSlices \<Rightarrow> (u128 \<times> bytes) list \<Rightarrow> (WrbpodSlices \<times> bool list) option" where
  "slices_puts s [] = Some (s, [])"
| "slices_puts s ((i, buf) # ps) =
     do { (s, ok) \<leftarrow> slices_put s i buf; (s, oks) \<leftarrow> slices_puts s ps; Some (s, ok # oks) }"

text \<open>The slices that the accepted puts leave.\<close>

fun stored :: "(u128 \<rightharpoonup> bytes) \<Rightarrow> (u128 \<times> bytes) list \<Rightarrow> bool list \<Rightarrow> (u128 \<rightharpoonup> bytes)" where
  "stored m ((i, buf) # ps) (ok # oks) = stored (if ok then m(i \<mapsto> buf) else m) ps oks"
| "stored m _ _ = m"

lemma slices_puts_stored:
  assumes "slices_inv s" and "\<forall>p \<in> set ps. length (snd p) < 2 ^ 63"
  shows "\<exists>s' oks. slices_puts s ps = Some (s', oks) \<and> length oks = length ps \<and> slices_inv s' \<and>
     sl_max_size s' = sl_max_size s \<and> slices_get s' = stored (slices_get s) ps oks"
  using assms
proof (induction ps arbitrary: s)
  case (Cons p ps)
  obtain i buf where p: "p = (i, buf)" by (cases p)
  obtain s1 ok where s1: "slices_put s i buf = Some (s1, ok)" "slices_inv s1"
    "if ok then slices_get s1 = (slices_get s)(i \<mapsto> buf) else s1 = s"
    using slices_put_step [OF Cons.prems(1), of buf i] Cons.prems(2) p by auto
  have "sl_max_size s1 = sl_max_size s"
    using s1(1) by (auto simp: slices_put_def bind_Some_iff split: option.splits if_splits)
  moreover obtain s' oks where "slices_puts s1 ps = Some (s', oks)" "length oks = length ps" "slices_inv s'"
    "sl_max_size s' = sl_max_size s1" "slices_get s' = stored (slices_get s1) ps oks"
    using Cons.IH [OF s1(2)] Cons.prems(2) by auto
  moreover have "slices_get s1 = (if ok then (slices_get s)(i \<mapsto> buf) else slices_get s)" using s1(3) by auto
  ultimately show ?case using p s1(1) by auto
qed simp

text \<open>
  C11. The slices of a slot survive. Start from an empty bundle and put slices under any
  identifiers, in any order and repeatedly: no put panics; the bundle is written to a chunk
  of at most the maximal size; and reading that chunk gives, for every identifier, the
  slice put last among those that were accepted.
\<close>

theorem slices_survive:
  assumes "codec_ok C limit" and "unat chunk_max \<le> limit" and "9 \<le> chunk_max"
    and "\<forall>p \<in> set ps. length (snd p) < 2 ^ 63"
  shows "\<exists>s oks b s'. slices_puts (slices_new chunk_max) ps = Some (s, oks) \<and> length oks = length ps \<and>
     slices_get s = stored Map.empty ps oks \<and>
     serialize_to_vec (slices_serialize C s) = Some b \<and> length b \<le> unat chunk_max \<and>
     slices_from_slice C chunk_max b = Ok s' \<and> slices_get s' = slices_get s"
proof -
  have "slices_get (slices_new chunk_max) = Map.empty" by (simp add: slices_get_def slices_new_def fun_eq_iff)
  then obtain s oks where s: "slices_puts (slices_new chunk_max) ps = Some (s, oks)" "length oks = length ps"
    "slices_inv s" "sl_max_size s = unat chunk_max" "slices_get s = stored Map.empty ps oks"
    using slices_puts_stored [OF slices_inv_new [OF assms(3)] assms(4)] by (auto simp: slices_new_def)
  moreover obtain b where "serialize_to_vec (slices_serialize C s) = Some b" "length b = slices_size s"
    "slices_from_slice C chunk_max b = Ok (s\<lparr>sl_dirty := False, sl_encoded_size := slices_size s\<rparr>)"
    using slices_codec [OF assms(1) s(3) assms(2) s(4)] by blast
  moreover have "slices_size s \<le> unat chunk_max" using s(3,4) by (simp add: slices_inv_def)
  ultimately show ?thesis by auto
qed

text \<open>
  Replacing a slice adds its size to the count without taking off the old one, so that
  replacing one slice again and again is refused in the end, though the bundle stays small.
\<close>

lemma slices_put_overcounts:
  assumes "slices_inv s" and "slices_get s i = Some buf" and "slices_put s i buf = Some (s', True)"
  shows "slices_size s' = slices_size s \<and> sl_encoded_size s' = sl_encoded_size s + 4 + length buf"
proof -
  obtain k where k: "map_of (sl_index s) i = Some k" "k < length (sl_slices s)" "sl_slices s ! k = buf"
    using assms(2) by (auto simp: slices_get_def vec_get_def split: option.splits if_splits)
  then have "(sl_slices s)[k := buf] = sl_slices s" using list_update_id by metis
  then show ?thesis using assms(3) k
    by (auto simp: slices_put_def bind_Some_iff slice_encoded_size_def panic_simps slices_size_def split: if_splits)
qed

theorem slices_survive_witness:
  "\<exists>s oks b s'. slices_puts (slices_new 100) [(5, [1, 2]), (7, [3]), (5, [4, 5, 6])] = Some (s, oks) \<and> length oks = 3 \<and>
     slices_get s = stored Map.empty [(5, [1, 2]), (7, [3]), (5, [4, 5, 6])] oks \<and>
     serialize_to_vec (slices_serialize be_codec s) = Some b \<and> length b \<le> 100 \<and>
     slices_from_slice be_codec 100 b = Ok s' \<and> slices_get s' = slices_get s"
  using slices_survive [OF codec_ok_be, of 100 100 "[(5, [1, 2]), (7, [3]), (5, [4, 5, 6])]"]
  by (simp add: numeral_3_eq_3 del: slices_puts.simps)

end
