(* ===== verification/Superblock.thy ===== *)
theory Superblock
  imports Wrbpod_Codec "HOL-Library.Multiset"
begin

text \<open>
  The superblock of a wrbpod (\<open>src/storage/mod.rs\<close> and \<open>wrbpod.rs\<close>): which slots of the StackerDB
  belong to the wrbpod, which are free, and which app has which. Slots are allocated and
  freed per app, and the superblock is written to a chunk and read back. Names of apps are
  byte strings; an ordered map iterates them in the order of their bytes.
\<close>

section \<open>Slots and apps\<close>

fun slot_id :: "WrbpodSlot \<Rightarrow> u32" where
  "slot_id (Filled x) = x"
| "slot_id (Free x) = x"

fun is_free :: "WrbpodSlot \<Rightarrow> bool" where
  "is_free (Filled _) = False"
| "is_free (Free _) = True"

definition as_filled :: "WrbpodSlot \<Rightarrow> WrbpodSlot" where
  "as_filled s = Filled (slot_id s)"

definition as_free :: "WrbpodSlot \<Rightarrow> WrbpodSlot" where
  "as_free s = Free (slot_id s)"

record WrbpodAppState =
  app_version :: u8
  app_code_hash :: Hash160
  app_slots :: "u32 list"

record WrbpodSuperblock =
  sb_version :: u8
  sb_slot_ids :: "WrbpodSlot list"
  sb_apps :: "(string, WrbpodAppState) btree"

definition WRBPOD_SUPERBLOCK_VERSION :: u8 where
  "WRBPOD_SUPERBLOCK_VERSION = 0"

definition WRBPOD_APP_STATE_VERSION :: u8 where
  "WRBPOD_APP_STATE_VERSION = 0"

definition WRBPOD_MAX_SLOTS :: u32 where
  "WRBPOD_MAX_SLOTS = 4096"

definition sb_empty :: WrbpodSuperblock where
  "sb_empty = \<lparr>sb_version = WRBPOD_SUPERBLOCK_VERSION, sb_slot_ids = [], sb_apps = []\<rparr>"

definition sb_new :: "u32 list \<Rightarrow> WrbpodSuperblock" where
  "sb_new slot_ids = \<lparr>sb_version = WRBPOD_SUPERBLOCK_VERSION, sb_slot_ids = map Free slot_ids, sb_apps = []\<rparr>"

section \<open>Allocation\<close>

text \<open>The index that the loop of \<open>fill_free_slot\<close> stops at.\<close>

fun free_slot_index :: "u32 list \<Rightarrow> nat \<Rightarrow> WrbpodSlot list \<Rightarrow> nat option" where
  "free_slot_index used i [] = None"
| "free_slot_index used i (s # slots) =
     (if 2 ^ 32 \<le> i then None
      else if word_of_nat i \<in> set used then free_slot_index used (i + 1) slots
      else if is_free s then Some i
      else free_slot_index used (i + 1) slots)"

definition fill_free_slot :: "WrbpodSuperblock \<Rightarrow> u32 list \<Rightarrow> (WrbpodSuperblock \<times> u32 list \<times> u32) option" where
  "fill_free_slot sb used =
     (case free_slot_index used 0 (sb_slot_ids sb) of
        None \<Rightarrow> None
      | Some i \<Rightarrow> (let filled = as_filled (sb_slot_ids sb ! i) in
          Some (sb\<lparr>sb_slot_ids := (sb_slot_ids sb)[i := filled]\<rparr>, word_of_nat i # used, slot_id filled)))"

text \<open>Giving back the slots at the indexes taken so far; an index out of range panics.\<close>

fun free_all :: "u32 list \<Rightarrow> WrbpodSlot list \<Rightarrow> WrbpodSlot list option" where
  "free_all [] slots = Some slots"
| "free_all (i # used) slots =
     do { s \<leftarrow> idx slots (unat i); slots \<leftarrow> store slots (unat i) (as_free s); free_all used slots }"

text \<open>The loop of \<open>allocate_slots\<close>: \<open>Inr\<close> when enough slots were found, \<open>Inl\<close> with the slots given back.\<close>

fun alloc_loop ::
  "nat \<Rightarrow> WrbpodSuperblock \<Rightarrow> u32 list \<Rightarrow> u32 list \<Rightarrow> (WrbpodSuperblock + WrbpodSuperblock \<times> u32 list) option" where
  "alloc_loop 0 sb used slots = Some (Inr (sb, slots))"
| "alloc_loop (Suc n) sb used slots =
     (case fill_free_slot sb used of
        Some (sb, used, slot) \<Rightarrow> alloc_loop n sb used (slots @ [slot])
      | None \<Rightarrow> do { ids \<leftarrow> free_all used (sb_slot_ids sb); Some (Inl (sb\<lparr>sb_slot_ids := ids\<rparr>)) })"

definition sb_allocate_slots ::
  "WrbpodSuperblock \<Rightarrow> string \<Rightarrow> Hash160 \<Rightarrow> u32 \<Rightarrow> (WrbpodSuperblock \<times> bool) option" where
  "sb_allocate_slots sb app_name code_hash num_slots =
     do { r \<leftarrow> alloc_loop (unat num_slots) sb [] [];
          case r of
            Inl sb \<Rightarrow> Some (sb, False)
          | Inr (sb, slots) \<Rightarrow>
             (case map_of (sb_apps sb) app_name of
                None \<Rightarrow> Some (sb\<lparr>sb_apps := bt_insert app_name
                   \<lparr>app_version = WRBPOD_APP_STATE_VERSION, app_code_hash = code_hash, app_slots = slots\<rparr> (sb_apps sb)\<rparr>, True)
              | Some app \<Rightarrow> Some (sb\<lparr>sb_apps := bt_insert app_name (app\<lparr>app_slots := app_slots app @ slots\<rparr>) (sb_apps sb)\<rparr>, True)) }"

fun free_first :: "u32 \<Rightarrow> WrbpodSlot list \<Rightarrow> WrbpodSlot list" where
  "free_first slot [] = []"
| "free_first slot (s # slots) = (if slot_id s = slot then as_free s # slots else s # free_first slot slots)"

definition sb_delete_slots :: "WrbpodSuperblock \<Rightarrow> string \<Rightarrow> WrbpodSuperblock" where
  "sb_delete_slots sb app_name =
     (case map_of (sb_apps sb) app_name of
        None \<Rightarrow> sb
      | Some app \<Rightarrow> sb\<lparr>sb_apps := bt_remove app_name (sb_apps sb),
                      sb_slot_ids := fold free_first (app_slots app) (sb_slot_ids sb)\<rparr>)"

definition sb_app_state :: "WrbpodSuperblock \<Rightarrow> string \<Rightarrow> WrbpodAppState option" where
  "sb_app_state sb app_name = map_of (sb_apps sb) app_name"

definition num_app_slots :: "WrbpodSuperblock \<Rightarrow> string \<Rightarrow> u32 option" where
  "num_app_slots sb app_name =
     (case sb_app_state sb app_name of
        Some app \<Rightarrow> if length (app_slots app) < 2 ^ 32 then Some (word_of_nat (length (app_slots app))) else None
      | None \<Rightarrow> Some 0)"

definition sb_chunk_id :: "WrbpodSuperblock \<Rightarrow> string \<Rightarrow> u32 \<Rightarrow> u32 option" where
  "sb_chunk_id sb app_name app_slot_id =
     (case map_of (sb_apps sb) app_name of None \<Rightarrow> None | Some app \<Rightarrow> vec_get (app_slots app) (unat app_slot_id))"

section \<open>The codec\<close>

fun slot_serialize :: "codec \<Rightarrow> WrbpodSlot writer" where
  "slot_serialize C (Filled x) = wseq (wr_u8 C 1) (wr_u32 C x)"
| "slot_serialize C (Free x) = wseq (wr_u8 C 0) (wr_u32 C x)"

definition slot_deserialize :: "codec \<Rightarrow> WrbpodSlot reader" where
  "slot_deserialize C fd =
     obind (rd_u8 C fd) (\<lambda>(filled, fd).
     if filled = 0 then obind (rd_u32 C fd) (\<lambda>(x, fd). Ok (Free x, fd))
     else if filled = 1 then obind (rd_u32 C fd) (\<lambda>(x, fd). Ok (Filled x, fd))
     else Err (DeserializeError ''Invalid fill/free byte''))"

definition app_serialize :: "codec \<Rightarrow> WrbpodAppState writer" where
  "app_serialize C a = wseq (wr_u8 C (app_version a)) (wseq (wr_hash160 C (app_code_hash a)) (wr_u32s C (app_slots a)))"

definition app_deserialize :: "codec \<Rightarrow> WrbpodAppState reader" where
  "app_deserialize C fd =
     obind (rd_u8 C fd) (\<lambda>(version, fd).
     obind (rd_hash160 C fd) (\<lambda>(code_hash, fd).
     obind (rd_u32s C fd) (\<lambda>(slots, fd).
     Ok (\<lparr>app_version = version, app_code_hash = code_hash, app_slots = slots\<rparr>, fd))))"

definition sb_serialize :: "codec \<Rightarrow> WrbpodSuperblock writer" where
  "sb_serialize C sb =
     wseq (wr_u8 C (sb_version sb))
       (wseq (wr_slots C (slot_serialize C) (sb_slot_ids sb))
         (wseq (wr_names C (map (\<lambda>e. as_bytes (fst e)) (sb_apps sb)))
           (write_all (app_serialize C) (map snd (sb_apps sb)))))"

fun check_names :: "bytes list \<Rightarrow> (CodecError, string list) outcome" where
  "check_names [] = Ok []"
| "check_names (b # bs) =
     (if \<not> utf8_valid b then Err (DeserializeError ''BNS name is not UTF-8'')
      else if \<not> (\<forall>x \<in> set b. x < 0x80) then Err (DeserializeError ''BNS name is not ASCII'')
      else obind (check_names bs) (\<lambda>names. Ok (of_bytes b # names)))"

fun read_apps :: "codec \<Rightarrow> string list \<Rightarrow> (string, WrbpodAppState) btree \<Rightarrow> (string, WrbpodAppState) btree reader" where
  "read_apps C [] apps fd = Ok (apps, fd)"
| "read_apps C (name # names) apps fd =
     obind (app_deserialize C fd) (\<lambda>(app, fd). read_apps C names (bt_insert name app apps) fd)"

definition sb_deserialize :: "codec \<Rightarrow> WrbpodSuperblock reader" where
  "sb_deserialize C fd =
     obind (rd_u8 C fd) (\<lambda>(version, fd).
     obind (rd_slots_at_most C (slot_deserialize C) WRBPOD_MAX_SLOTS fd) (\<lambda>(slot_ids, fd).
     obind (rd_names C fd) (\<lambda>(names_bytes, fd).
     obind (check_names names_bytes) (\<lambda>names.
     obind (read_apps C names [] fd) (\<lambda>(apps, fd).
     Ok (\<lparr>sb_version = version, sb_slot_ids = slot_ids, sb_apps = apps\<rparr>, fd))))))"

section \<open>What allocation does\<close>

definition free_ids :: "WrbpodSlot list \<Rightarrow> u32 list" where
  "free_ids slots = map slot_id (filter is_free slots)"

text \<open>The list with its first \<open>n\<close> free slots filled.\<close>

fun fill_first :: "nat \<Rightarrow> WrbpodSlot list \<Rightarrow> WrbpodSlot list" where
  "fill_first 0 slots = slots"
| "fill_first (Suc n) [] = []"
| "fill_first (Suc n) (Free a # slots) = Filled a # fill_first n slots"
| "fill_first (Suc n) (Filled a # slots) = Filled a # fill_first (Suc n) slots"

lemma fill_first_ids [simp]: "map slot_id (fill_first n slots) = map slot_id slots"
  by (induction n slots rule: fill_first.induct) auto

lemma length_fill_first [simp]: "length (fill_first n slots) = length slots"
  by (induction n slots rule: fill_first.induct) auto

lemma free_ids_simps [simp]:
  "free_ids [] = []" "free_ids (Free a # slots) = a # free_ids slots" "free_ids (Filled a # slots) = free_ids slots"
  by (simp_all add: free_ids_def)

lemma free_ids_fill_first [simp]: "free_ids (fill_first n slots) = drop n (free_ids slots)"
  by (induction n slots rule: fill_first.induct) auto

lemma fill_first_simps [simp]:
  "fill_first m [] = []" "fill_first m (Filled a # slots) = Filled a # fill_first m slots"
  by (cases m; simp)+

lemma fill_first_add: "fill_first m (fill_first n slots) = fill_first (m + n) slots"
  by (induction n slots rule: fill_first.induct) auto

lemma free_slot_index_first:
  assumes "length slots + i \<le> 2 ^ 32" and "\<forall>j < length slots. word_of_nat (i + j) \<in> set used \<longrightarrow> \<not> is_free (slots ! j)"
  shows "case free_slot_index used i slots of
      None \<Rightarrow> free_ids slots = []
    | Some k \<Rightarrow> i \<le> k \<and> k - i < length slots \<and> is_free (slots ! (k - i)) \<and>
        fill_first 1 slots = slots[k - i := as_filled (slots ! (k - i))] \<and>
        free_ids slots \<noteq> [] \<and> hd (free_ids slots) = slot_id (slots ! (k - i))"
  using assms
proof (induction used i slots rule: free_slot_index.induct)
  case (2 used i s slots)
  have len: "\<not> 2 ^ 32 \<le> i" using 2(3) by simp
  have rest: "\<forall>j < length slots. word_of_nat (i + 1 + j) \<in> set used \<longrightarrow> \<not> is_free (slots ! j)"
    using 2(4) [rule_format, of "Suc _"] by (simp add: add.assoc)
  have head: "word_of_nat i \<in> set used \<Longrightarrow> \<not> is_free s" using 2(4) [rule_format, of 0] by simp
  have IH: "case free_slot_index used (i + 1) slots of
      None \<Rightarrow> free_ids slots = []
    | Some k \<Rightarrow> i + 1 \<le> k \<and> k - (i + 1) < length slots \<and> is_free (slots ! (k - (i + 1))) \<and>
        fill_first 1 slots = slots[k - (i + 1) := as_filled (slots ! (k - (i + 1)))] \<and>
        free_ids slots \<noteq> [] \<and> hd (free_ids slots) = slot_id (slots ! (k - (i + 1)))" if s: "s = Filled a" for a
  proof (cases "word_of_nat i \<in> set used")
    case True
    show ?thesis by (rule 2(1) [OF len True _ rest]) (use 2(3) in simp)
  next
    case False
    show ?thesis by (rule 2(2) [OF len False _ _ rest]) (use 2(3) s in simp_all)
  qed
  show ?case
  proof (cases s)
    case (Filled a)
    have eq: "free_slot_index used i (s # slots) = free_slot_index used (i + 1) slots" using Filled len by simp
    show ?thesis
    proof (cases "free_slot_index used (i + 1) slots")
      case None
      then show ?thesis using IH [OF Filled] eq Filled by simp
    next
      case (Some k)
      then have "k - i = Suc (k - (i + 1))" using IH [OF Filled] by auto
      then show ?thesis using IH [OF Filled] Some Filled unfolding eq by simp
    qed
  next
    case (Free a)
    then show ?thesis using head len by (auto simp: as_filled_def)
  qed
qed simp

lemma as_free_as_filled: "is_free s \<Longrightarrow> as_free (as_filled s) = s"
  by (cases s) (simp_all add: as_free_def as_filled_def)

text \<open>
  The loop takes the first free slots in order, or gives all of them back. The marks in \<open>used\<close>
  are the indexes taken so far.
\<close>

lemma fill_free_slot_step:
  assumes len: "length (sb_slot_ids sb) \<le> 2 ^ 32"
    and used: "\<forall>j < length (sb_slot_ids sb). word_of_nat j \<in> set used \<longrightarrow> \<not> is_free (sb_slot_ids sb ! j)"
    and undo: "free_all used (sb_slot_ids sb) = Some orig"
  shows "case fill_free_slot sb used of
      None \<Rightarrow> free_ids (sb_slot_ids sb) = []
    | Some (sb', used', slot) \<Rightarrow> sb' = sb\<lparr>sb_slot_ids := fill_first 1 (sb_slot_ids sb)\<rparr> \<and>
        free_ids (sb_slot_ids sb) = slot # free_ids (sb_slot_ids sb') \<and>
        (\<forall>j < length (sb_slot_ids sb'). word_of_nat j \<in> set used' \<longrightarrow> \<not> is_free (sb_slot_ids sb' ! j)) \<and>
        free_all used' (sb_slot_ids sb') = Some orig"
proof (cases "free_slot_index used 0 (sb_slot_ids sb)")
  case None
  then show ?thesis using free_slot_index_first [of "sb_slot_ids sb" 0 used] len used by (simp add: fill_free_slot_def)
next
  case (Some k)
  let ?slots = "sb_slot_ids sb"
  have k: "k < length ?slots" "is_free (?slots ! k)" "fill_first 1 ?slots = ?slots[k := as_filled (?slots ! k)]"
    "free_ids ?slots \<noteq> []" "hd (free_ids ?slots) = slot_id (?slots ! k)"
    using free_slot_index_first [of ?slots 0 used] len used Some by simp_all
  have unat_k: "unat (word_of_nat j :: u32) = j" if "j < length ?slots" for j
    using that len by (simp add: unat_of_nat)
  have not_free: "\<not> is_free (as_filled (?slots ! k))" by (simp add: as_filled_def)
  have marks: "\<not> is_free (fill_first 1 ?slots ! j)" if "j < length ?slots" "word_of_nat j \<in> set (word_of_nat k # used)" for j
  proof (cases "j = k")
    case False
    then have "word_of_nat j \<in> set used" using that k(1) unat_k by (metis set_ConsD)
    then show ?thesis using used that(1) False k(3) by (simp add: nth_list_update)
  qed (use k not_free in simp)
  have "free_all (word_of_nat k # used) (fill_first 1 ?slots) = Some orig"
    using k(1,2) unat_k [of k] undo unfolding k(3) by (simp add: panic_simps as_free_as_filled)
  moreover have "free_ids ?slots = slot_id (?slots ! k) # free_ids (fill_first 1 ?slots)"
    using k(4,5) by (cases "free_ids ?slots") simp_all
  moreover have "fill_free_slot sb used =
      Some (sb\<lparr>sb_slot_ids := fill_first 1 ?slots\<rparr>, word_of_nat k # used, slot_id (?slots ! k))"
    unfolding k(3) by (simp add: fill_free_slot_def Some Let_def as_filled_def)
  ultimately show ?thesis using marks by (simp del: free_all.simps One_nat_def)
qed

lemma alloc_loop_spec:
  assumes "length (sb_slot_ids sb) \<le> 2 ^ 32"
    and "\<forall>j < length (sb_slot_ids sb). word_of_nat j \<in> set used \<longrightarrow> \<not> is_free (sb_slot_ids sb ! j)"
    and "free_all used (sb_slot_ids sb) = Some orig"
  shows "alloc_loop n sb used acc = Some (
     if n \<le> length (free_ids (sb_slot_ids sb))
     then Inr (sb\<lparr>sb_slot_ids := fill_first n (sb_slot_ids sb)\<rparr>, acc @ take n (free_ids (sb_slot_ids sb)))
     else Inl (sb\<lparr>sb_slot_ids := orig\<rparr>))"
  using assms
proof (induction n arbitrary: sb used acc)
  case (Suc n)
  show ?case
  proof (cases "fill_free_slot sb used")
    case None
    then show ?thesis using fill_free_slot_step [OF Suc.prems] Suc.prems(3) by simp
  next
    case (Some r)
    obtain sb' used' slot where r: "fill_free_slot sb used = Some (sb', used', slot)" using Some by (cases r) auto
    have step: "sb' = sb\<lparr>sb_slot_ids := fill_first 1 (sb_slot_ids sb)\<rparr>"
      "free_ids (sb_slot_ids sb) = slot # free_ids (sb_slot_ids sb')"
      "\<forall>j < length (sb_slot_ids sb'). word_of_nat j \<in> set used' \<longrightarrow> \<not> is_free (sb_slot_ids sb' ! j)"
      "free_all used' (sb_slot_ids sb') = Some orig"
      using fill_free_slot_step [OF Suc.prems] unfolding r option.case prod.case by blast+
    have "length (sb_slot_ids sb') \<le> 2 ^ 32" using Suc.prems(1) step(1) by simp
    note IH = Suc.IH [OF this step(3,4), of "acc @ [slot]"]
    define fs where "fs = free_ids (sb_slot_ids sb')"
    have "free_ids (sb_slot_ids sb) = slot # fs" using step(2) by (simp add: fs_def)
    moreover have "sb_slot_ids sb' = fill_first 1 (sb_slot_ids sb)" using step(1) by simp
    ultimately show ?thesis using r IH [folded fs_def] step(1) by (simp add: fill_first_add del: free_ids_fill_first)
  qed
qed simp

section \<open>The invariant\<close>

definition filled_ids :: "WrbpodSlot list \<Rightarrow> u32 list" where
  "filled_ids slots = map slot_id (filter (\<lambda>s. \<not> is_free s) slots)"

definition app_ids :: "(string, WrbpodAppState) btree \<Rightarrow> u32 list" where
  "app_ids apps = concat (map (\<lambda>e. app_slots (snd e)) apps)"

text \<open>The filled slots are exactly those of the apps, each of one app and once.\<close>

definition sb_inv :: "WrbpodSuperblock \<Rightarrow> bool" where
  "sb_inv sb \<longleftrightarrow> bt_ok (sb_apps sb) \<and> distinct (map slot_id (sb_slot_ids sb)) \<and>
     mset (app_ids (sb_apps sb)) = mset (filled_ids (sb_slot_ids sb))"

lemma filled_ids_simps [simp]:
  "filled_ids [] = []" "filled_ids (Free a # slots) = filled_ids slots" "filled_ids (Filled a # slots) = a # filled_ids slots"
  by (simp_all add: filled_ids_def)

lemma sb_inv_new: "distinct ids \<Longrightarrow> sb_inv (sb_new ids)"
  by (simp add: sb_inv_def sb_new_def app_ids_def filled_ids_def comp_def)

lemma slot_ids_bound:
  assumes "sb_inv sb"
  shows "length (sb_slot_ids sb) \<le> 2 ^ 32"
proof -
  have "length (sb_slot_ids sb) = card (set (map slot_id (sb_slot_ids sb)))"
    using assms by (metis distinct_card length_map sb_inv_def)
  also have "\<dots> \<le> card (UNIV :: u32 set)" by (rule card_mono) simp_all
  finally show ?thesis by (simp add: card_word)
qed

lemma app_ids_bt_insert_new:
  "k \<notin> fst ` set m \<Longrightarrow> mset (app_ids (bt_insert k v m)) = mset (app_slots v) + mset (app_ids m)"
  by (induction k v m rule: bt_insert.induct) (auto simp: app_ids_def)

lemma app_ids_bt_remove:
  assumes "bt_ok m" and "map_of m k = Some v"
  shows "mset (app_ids m) = mset (app_slots v) + mset (app_ids (bt_remove k m))"
  using assms
proof (induction m)
  case (Cons e m)
  show ?case
  proof (cases "fst e = k")
    case True
    then have "k \<notin> fst ` set m" using Cons.prems(1) by (cases e) auto
    then have "bt_remove k m = m" by (induction m) (auto simp: bt_remove_def)
    then show ?thesis using True Cons.prems(2) by (cases e) (simp add: app_ids_def bt_remove_def)
  next
    case False
    then have "mset (app_ids m) = mset (app_slots v) + mset (app_ids (bt_remove k m))"
      using Cons by (cases e) auto
    then show ?thesis using False by (cases e) (simp add: app_ids_def bt_remove_def)
  qed
qed simp

lemma bt_insert_remove: "bt_ok m \<Longrightarrow> bt_insert k v (bt_remove k m) = bt_insert k v m"
proof (induction m)
  case (Cons e m)
  then show ?case
  proof (cases "fst e = k")
    case True
    then have "\<forall>k' \<in> fst ` set m. k < k'" using Cons.prems by (cases e) auto
    then have "bt_remove k m = m" "bt_insert k v m = (k, v) # m"
      by (induction m) (auto simp: bt_remove_def)
    then show ?thesis using True by (cases e) (simp add: bt_remove_def)
  next
    case False
    show ?thesis
    proof (cases "k < fst e")
      case True
      then have "\<forall>k' \<in> fst ` set m. k' \<noteq> k" using Cons.prems by (cases e) (auto dest: order_less_trans)
      then have "bt_remove k m = m" by (induction m) (auto simp: bt_remove_def)
      then show ?thesis using True by (cases e) (auto simp: bt_remove_def)
    next
      case False
      then show ?thesis using Cons \<open>fst e \<noteq> k\<close> by (cases e) (simp add: bt_remove_def)
    qed
  qed
qed (simp add: bt_remove_def)

lemma filled_ids_fill_first:
  "mset (filled_ids (fill_first n slots)) = mset (filled_ids slots) + mset (take n (free_ids slots))"
  by (induction n slots rule: fill_first.induct) auto

lemma free_first_ids [simp]: "map slot_id (free_first a slots) = map slot_id slots"
  by (induction slots) (auto simp: as_free_def)

lemma filled_ids_free_first:
  "distinct (map slot_id slots) \<Longrightarrow> a \<in> set (filled_ids slots) \<Longrightarrow>
     mset (filled_ids (free_first a slots)) = mset (filled_ids slots) - {#a#}"
proof (induction slots)
  case (Cons s slots)
  have sub: "set (filled_ids slots) \<subseteq> slot_id ` set slots" by (auto simp: filled_ids_def)
  show ?case using Cons sub by (cases s) (auto simp: as_free_def)
qed simp

lemma free_many_ids [simp]: "map slot_id (fold free_first ids slots) = map slot_id slots"
  by (induction ids arbitrary: slots) simp_all

lemma filled_ids_free_many:
  "distinct (map slot_id slots) \<Longrightarrow> mset ids \<subseteq># mset (filled_ids slots) \<Longrightarrow>
     mset (filled_ids (fold free_first ids slots)) = mset (filled_ids slots) - mset ids"
proof (induction ids arbitrary: slots)
  case (Cons a ids)
  have a: "a \<in> set (filled_ids slots)" using Cons.prems(2) by (metis insert_subset_eq_iff mset.simps(2) set_mset_mset)
  have "mset ids \<subseteq># mset (filled_ids (free_first a slots))"
    using Cons.prems filled_ids_free_first [OF Cons.prems(1) a] by (simp add: insert_subset_eq_iff)
  then show ?case using Cons filled_ids_free_first [OF Cons.prems(1) a] by simp
qed simp

section \<open>Properties\<close>

text \<open>The state of an app after it got more slots.\<close>

definition with_slots :: "WrbpodAppState option \<Rightarrow> Hash160 \<Rightarrow> u32 list \<Rightarrow> WrbpodAppState" where
  "with_slots app code_hash slots =
     (case app of None \<Rightarrow> \<lparr>app_version = WRBPOD_APP_STATE_VERSION, app_code_hash = code_hash, app_slots = slots\<rparr>
      | Some a \<Rightarrow> a\<lparr>app_slots := app_slots a @ slots\<rparr>)"

lemma sb_allocate_eq:
  assumes "sb_inv sb"
  shows "sb_allocate_slots sb name h n = Some (
     if unat n \<le> length (free_ids (sb_slot_ids sb))
     then (sb\<lparr>sb_slot_ids := fill_first (unat n) (sb_slot_ids sb),
              sb_apps := bt_insert name (with_slots (map_of (sb_apps sb) name) h (take (unat n) (free_ids (sb_slot_ids sb)))) (sb_apps sb)\<rparr>, True)
     else (sb, False))"
proof -
  note loop = alloc_loop_spec [OF slot_ids_bound [OF assms], of "[]" "sb_slot_ids sb" "unat n" "[]"]
  show ?thesis
  proof (cases "unat n \<le> length (free_ids (sb_slot_ids sb))")
    case True
    then show ?thesis using loop
      by (simp add: sb_allocate_slots_def with_slots_def split: option.splits)
  next
    case False
    then show ?thesis using loop by (simp add: sb_allocate_slots_def)
  qed
qed

lemma sb_inv_allocate:
  assumes inv: "sb_inv sb" and alloc: "sb_allocate_slots sb name h n = Some (sb', ok)"
  shows "sb_inv sb' \<and> map slot_id (sb_slot_ids sb') = map slot_id (sb_slot_ids sb)"
proof (cases "unat n \<le> length (free_ids (sb_slot_ids sb))")
  case True
  let ?slots = "take (unat n) (free_ids (sb_slot_ids sb))" and ?app = "map_of (sb_apps sb) name"
  let ?apps = "bt_insert name (with_slots ?app h ?slots) (sb_apps sb)"
  have sb': "sb' = sb\<lparr>sb_slot_ids := fill_first (unat n) (sb_slot_ids sb), sb_apps := ?apps\<rparr>"
    using alloc True by (simp add: sb_allocate_eq [OF inv])
  have ok: "bt_ok (sb_apps sb)" using inv by (simp add: sb_inv_def)
  have "mset (app_ids ?apps) = mset (app_ids (sb_apps sb)) + mset ?slots"
  proof (cases ?app)
    case None
    then have "name \<notin> fst ` set (sb_apps sb)" by (simp add: map_of_eq_None_iff)
    from app_ids_bt_insert_new [OF this] show ?thesis by (simp add: None with_slots_def)
  next
    case (Some a)
    have "name \<notin> fst ` set (bt_remove name (sb_apps sb))" by (auto simp: bt_remove_def)
    then have "mset (app_ids (bt_insert name v (sb_apps sb))) = mset (app_slots v) + mset (app_ids (bt_remove name (sb_apps sb)))" for v
      using app_ids_bt_insert_new [of name "bt_remove name (sb_apps sb)" v] by (simp add: bt_insert_remove [OF ok])
    then show ?thesis using app_ids_bt_remove [OF ok Some] by (simp add: Some with_slots_def)
  qed
  then show ?thesis using inv sb' ok filled_ids_fill_first [of "unat n" "sb_slot_ids sb"] by (simp add: sb_inv_def)
next
  case False
  then show ?thesis using alloc inv by (simp add: sb_allocate_eq [OF inv])
qed

lemma sb_inv_delete:
  assumes inv: "sb_inv sb"
  shows "sb_inv (sb_delete_slots sb name) \<and> map slot_id (sb_slot_ids (sb_delete_slots sb name)) = map slot_id (sb_slot_ids sb)"
proof (cases "map_of (sb_apps sb) name")
  case None
  then show ?thesis using inv by (simp add: sb_delete_slots_def)
next
  case (Some a)
  have ok: "bt_ok (sb_apps sb)" "distinct (map slot_id (sb_slot_ids sb))"
    and ids: "mset (app_ids (sb_apps sb)) = mset (filled_ids (sb_slot_ids sb))"
    using inv by (simp_all add: sb_inv_def)
  have split: "mset (filled_ids (sb_slot_ids sb)) = mset (app_slots a) + mset (app_ids (bt_remove name (sb_apps sb)))"
    using app_ids_bt_remove [OF ok(1) Some] ids by simp
  then have "mset (filled_ids (fold free_first (app_slots a) (sb_slot_ids sb))) = mset (app_ids (bt_remove name (sb_apps sb)))"
    using filled_ids_free_many [OF ok(2), of "app_slots a"] by simp
  then show ?thesis using ok Some by (simp add: sb_inv_def sb_delete_slots_def)
qed

datatype sb_op = Allocate string Hash160 u32 | Delete string

fun sb_step :: "WrbpodSuperblock \<Rightarrow> sb_op \<Rightarrow> WrbpodSuperblock option" where
  "sb_step sb (Allocate name h n) = map_option fst (sb_allocate_slots sb name h n)"
| "sb_step sb (Delete name) = Some (sb_delete_slots sb name)"

fun sb_steps :: "WrbpodSuperblock \<Rightarrow> sb_op list \<Rightarrow> WrbpodSuperblock option" where
  "sb_steps sb [] = Some sb"
| "sb_steps sb (c # cs) = do { sb \<leftarrow> sb_step sb c; sb_steps sb cs }"

lemma sb_step_inv:
  assumes "sb_inv sb"
  shows "\<exists>sb'. sb_step sb c = Some sb' \<and> sb_inv sb' \<and> map slot_id (sb_slot_ids sb') = map slot_id (sb_slot_ids sb)"
proof (cases c)
  case (Allocate name h n)
  obtain sb' ok where "sb_allocate_slots sb name h n = Some (sb', ok)" using sb_allocate_eq [OF assms] by (metis surj_pair)
  then show ?thesis using sb_inv_allocate [OF assms] Allocate by auto
next
  case (Delete name)
  then show ?thesis using sb_inv_delete [OF assms] by simp
qed

lemma sb_steps_inv:
  "sb_inv sb \<Longrightarrow> \<exists>sb'. sb_steps sb cs = Some sb' \<and> sb_inv sb' \<and> map slot_id (sb_slot_ids sb') = map slot_id (sb_slot_ids sb)"
proof (induction cs arbitrary: sb)
  case (Cons c cs)
  obtain sb1 where "sb_step sb c = Some sb1" "sb_inv sb1" "map slot_id (sb_slot_ids sb1) = map slot_id (sb_slot_ids sb)"
    using sb_step_inv [OF Cons.prems] by blast
  then show ?case using Cons.IH [of sb1] by auto
qed simp

lemma chunk_ids_distinct:
  assumes "distinct (app_ids apps)" and "map_of apps n1 = Some a1" and "map_of apps n2 = Some a2"
    and "i < length (app_slots a1)" and "j < length (app_slots a2)" and "app_slots a1 ! i = app_slots a2 ! j"
  shows "n1 = n2 \<and> i = j"
  using assms
proof (induction apps)
  case (Cons e apps)
  have in_app: "k < length (app_slots a) \<Longrightarrow> map_of apps n = Some a \<Longrightarrow> app_slots a ! k \<in> set (app_ids apps)" for k a n
    by (auto simp: app_ids_def dest!: map_of_SomeD intro!: bexI [rotated])
  have dist: "distinct (app_slots (snd e))" "distinct (app_ids apps)" "set (app_slots (snd e)) \<inter> set (app_ids apps) = {}"
    using Cons.prems(1) by (auto simp: app_ids_def)
  show ?case
  proof (cases "n1 = fst e")
    case True
    then have a1: "a1 = snd e" using Cons.prems(2) by (cases e) simp
    show ?thesis
    proof (cases "n2 = fst e")
      case True
      then have "a2 = snd e" using Cons.prems(3) by (cases e) simp
      then show ?thesis using \<open>n1 = fst e\<close> True a1 Cons.prems(4-6) dist(1) by (simp add: nth_eq_iff_index_eq)
    next
      case False
      then have "app_slots a2 ! j \<in> set (app_ids apps)" using Cons.prems(3,5) in_app by (cases e) auto
      then show ?thesis using dist(3) Cons.prems(4,6) a1 by (metis disjoint_iff nth_mem)
    qed
  next
    case False
    then have m1: "map_of apps n1 = Some a1" using Cons.prems(2) by (cases e) auto
    show ?thesis
    proof (cases "n2 = fst e")
      case True
      then have "a2 = snd e" using Cons.prems(3) by (cases e) simp
      then show ?thesis using in_app [OF Cons.prems(4) m1] dist(3) Cons.prems(5,6) by (metis disjoint_iff nth_mem)
    next
      case False
      then have "map_of apps n2 = Some a2" using Cons.prems(3) by (cases e) auto
      then show ?thesis using Cons.IH dist(2) m1 Cons.prems(4-6) by blast
    qed
  qed
qed simp

lemma chunk_ids_inj:
  assumes inv: "sb_inv sb" and "sb_chunk_id sb name1 k1 = Some c" and "sb_chunk_id sb name2 k2 = Some c"
  shows "name1 = name2 \<and> k1 = k2"
proof -
  have "distinct (filled_ids (sb_slot_ids sb))" using inv by (simp add: sb_inv_def filled_ids_def distinct_map_filter)
  then have dist: "distinct (app_ids (sb_apps sb))" using inv by (metis mset_eq_imp_distinct_iff sb_inv_def)
  obtain a1 a2 where "map_of (sb_apps sb) name1 = Some a1" "unat k1 < length (app_slots a1)" "app_slots a1 ! unat k1 = c"
    "map_of (sb_apps sb) name2 = Some a2" "unat k2 < length (app_slots a2)" "app_slots a2 ! unat k2 = c"
    using assms(2,3) by (auto simp: sb_chunk_id_def vec_get_def split: option.splits if_splits)
  then show ?thesis using chunk_ids_distinct [OF dist] by (metis word_unat_eq_iff)
qed

text \<open>
  C8. Apps never share a slot. Take a wrbpod with different StackerDB slots and any sequence of
  allocations and deletions of app slots: none panics, the wrbpod keeps its slots, and
  afterwards every app slot is mapped to a slot of the wrbpod that is marked filled, different
  app slots, of one app or of two, to different ones.
\<close>

theorem apps_never_share:
  assumes "distinct ids"
  shows "\<exists>sb. sb_steps (sb_new ids) cs = Some sb \<and> map slot_id (sb_slot_ids sb) = ids \<and>
     (\<forall>name k c. sb_chunk_id sb name k = Some c \<longrightarrow> Filled c \<in> set (sb_slot_ids sb)) \<and>
     (\<forall>name1 k1 name2 k2 c. sb_chunk_id sb name1 k1 = Some c \<and> sb_chunk_id sb name2 k2 = Some c \<longrightarrow>
        name1 = name2 \<and> k1 = k2)"
proof -
  obtain sb where sb: "sb_steps (sb_new ids) cs = Some sb" "sb_inv sb" "map slot_id (sb_slot_ids sb) = map slot_id (sb_slot_ids (sb_new ids))"
    using sb_steps_inv [OF sb_inv_new [OF assms]] by blast
  have ids: "map slot_id (sb_slot_ids (sb_new ids)) = ids" by (simp add: sb_new_def comp_def)
  have eq: "mset (app_ids (sb_apps sb)) = mset (filled_ids (sb_slot_ids sb))" using sb(2) by (simp add: sb_inv_def)
  have chunk: "\<exists>a. map_of (sb_apps sb) name = Some a \<and> unat k < length (app_slots a) \<and> app_slots a ! unat k = c"
    if "sb_chunk_id sb name k = Some c" for name k c
    using that by (auto simp: sb_chunk_id_def vec_get_def split: option.splits if_splits)
  have "Filled c \<in> set (sb_slot_ids sb)" if "sb_chunk_id sb name k = Some c" for name k c
  proof -
    have "c \<in> set (app_ids (sb_apps sb))"
      using chunk [OF that] by (force simp: app_ids_def dest: map_of_SomeD)
    then have "c \<in> set (filled_ids (sb_slot_ids sb))" using eq by (metis set_mset_mset)
    then obtain s where "s \<in> set (sb_slot_ids sb)" "\<not> is_free s" "slot_id s = c" by (auto simp: filled_ids_def)
    then have "s = Filled c" by (cases s rule: WrbpodSlot.exhaust) simp_all
    then show ?thesis using \<open>s \<in> set (sb_slot_ids sb)\<close> by simp
  qed
  moreover have "name1 = name2 \<and> k1 = k2"
    if "sb_chunk_id sb name1 k1 = Some c" "sb_chunk_id sb name2 k2 = Some c" for name1 k1 name2 k2 c
    using chunk_ids_inj [OF sb(2) that] .
  ultimately show ?thesis using sb ids by auto
qed

text \<open>
  C33. Allocation. When the superblock is consistent, asking for slots for an app never panics.
  It succeeds exactly when enough slots are free; the app then has its old slots followed by
  the first free ones, no other app changes and just those slots are no longer free. A
  refused request leaves the superblock as it was.
\<close>

theorem allocate_slots_spec:
  assumes "sb_inv sb"
  shows "\<exists>sb' ok. sb_allocate_slots sb name h n = Some (sb', ok) \<and>
     (ok \<longleftrightarrow> unat n \<le> length (free_ids (sb_slot_ids sb))) \<and>
     (if ok
      then sb_app_state sb' = (sb_app_state sb)(name \<mapsto>
             with_slots (sb_app_state sb name) h (take (unat n) (free_ids (sb_slot_ids sb)))) \<and>
           free_ids (sb_slot_ids sb') = drop (unat n) (free_ids (sb_slot_ids sb))
      else sb' = sb)"
  using sb_allocate_eq [OF assms, of name h n] by (auto simp: sb_app_state_def fun_eq_iff)

section \<open>Reading the superblock back\<close>

lemma slot_back: "codec_ok C limit \<Longrightarrow> readable (slot_serialize C) (slot_deserialize C) s"
proof -
  assume C: "codec_ok C limit"
  have u8: "readable (wr_u8 C) (rd_u8 C) x" and u32: "readable (wr_u32 C) (rd_u32 C) y" for x y
    using C by (auto simp: codec_ok_def intro: reads_back_readable)
  obtain a where a: "wr_u8 C (if is_free s then 0 else 1) = Ok a" "\<And>rest. rd_u8 C (a @ rest) = Ok (if is_free s then 0 else 1, rest)"
    by (rule readableE [OF u8]) blast
  obtain b where b: "wr_u32 C (slot_id s) = Ok b" "\<And>rest. rd_u32 C (b @ rest) = Ok (slot_id s, rest)"
    by (rule readableE [OF u32]) blast
  show ?thesis using a b
    by (intro readableI [where b = "a @ b"]) (cases s; simp add: slot_deserialize_def)+
qed

lemma app_back:
  assumes C: "codec_ok C limit" and "length (app_code_hash a) = 20" and "length (app_slots a) \<le> limit"
  shows "readable (app_serialize C) (app_deserialize C) a"
proof -
  have r: "readable (wr_u8 C) (rd_u8 C) (app_version a)" "readable (wr_hash160 C) (rd_hash160 C) (app_code_hash a)"
    "readable (wr_u32s C) (rd_u32s C) (app_slots a)"
    using assms by (auto simp: codec_ok_def intro: reads_back_readable)
  obtain x where x: "wr_u8 C (app_version a) = Ok x" "\<And>rest. rd_u8 C (x @ rest) = Ok (app_version a, rest)"
    by (rule readableE [OF r(1)]) blast
  obtain y where y: "wr_hash160 C (app_code_hash a) = Ok y" "\<And>rest. rd_hash160 C (y @ rest) = Ok (app_code_hash a, rest)"
    by (rule readableE [OF r(2)]) blast
  obtain z where z: "wr_u32s C (app_slots a) = Ok z" "\<And>rest. rd_u32s C (z @ rest) = Ok (app_slots a, rest)"
    by (rule readableE [OF r(3)]) blast
  show ?thesis by (rule readableI [where b = "x @ y @ z"]) (simp_all add: app_serialize_def app_deserialize_def x y z)
qed

lemma read_apps_back:
  assumes "\<forall>e \<in> set es. readable (app_serialize C) (app_deserialize C) (snd e)" and "bt_ok (m @ es)"
  shows "\<exists>b. write_all (app_serialize C) (map snd es) = Ok b \<and> (\<forall>rest. read_apps C (map fst es) m (b @ rest) = Ok (m @ es, rest))"
  using assms
proof (induction es arbitrary: m)
  case (Cons e es)
  have "readable (app_serialize C) (app_deserialize C) (snd e)" using Cons.prems(1) by simp
  then obtain c where c: "app_serialize C (snd e) = Ok c" "\<And>rest. app_deserialize C (c @ rest) = Ok (snd e, rest)"
    by (rule readableE) blast
  obtain b where b: "write_all (app_serialize C) (map snd es) = Ok b"
    "\<And>rest. read_apps C (map fst es) (m @ [e]) (b @ rest) = Ok ((m @ [e]) @ es, rest)"
    using Cons.IH [of "m @ [e]"] Cons.prems by auto
  have "\<forall>k' \<in> fst ` set m. k' < fst e" using Cons.prems(2) by (auto simp: bt_ok_def sorted_wrt_append)
  then have "bt_insert (fst e) (snd e) m = m @ [e]" by (simp add: bt_insert_last)
  then have "read_apps C (map fst (e # es)) m ((c @ b) @ rest) = Ok (m @ e # es, rest)" for rest
    using b(2) c(2) by simp
  moreover have "write_all (app_serialize C) (map snd (e # es)) = Ok (c @ b)" using b(1) c(1) by simp
  ultimately show ?case by blast
qed simp

definition ascii_name :: "string \<Rightarrow> bool" where
  "ascii_name s \<longleftrightarrow> (\<forall>c \<in> set s. of_char c < (128 :: nat))"

lemma check_names_back: "\<forall>s \<in> set names. ascii_name s \<Longrightarrow> check_names (map as_bytes names) = Ok names"
proof (induction names)
  case (Cons s names)
  have "\<forall>b \<in> set (as_bytes s). b < 0x80"
    using Cons.prems by (auto simp: as_bytes_def ascii_name_def word_less_nat_alt unat_of_nat)
  moreover have "of_bytes (as_bytes s) = s"
    by (simp add: of_bytes_def as_bytes_def comp_def unat_of_nat map_idI)
  ultimately show ?case using Cons by (simp add: ascii_utf8_valid)
qed simp

lemma superblock_codec:
  assumes C: "codec_ok C limit" and inv: "sb_inv sb"
    and "length (sb_slot_ids sb) \<le> 4096" and "4096 \<le> limit" and "length (sb_apps sb) \<le> limit"
    and apps: "\<forall>e \<in> set (sb_apps sb). ascii_name (fst e) \<and> length (fst e) \<le> limit \<and> length (app_code_hash (snd e)) = 20"
  shows "\<exists>b. serialize_to_vec (sb_serialize C sb) = Some b \<and> (\<forall>rest. sb_deserialize C (b @ rest) = Ok (sb, rest))"
proof -
  have few: "length (app_slots (snd e)) \<le> limit" if "e \<in> set (sb_apps sb)" for e
  proof -
    have "length (app_slots (snd e)) \<le> length (app_ids (sb_apps sb))"
      using that member_le_sum_list [of "length (app_slots (snd e))" "map (\<lambda>e. length (app_slots (snd e))) (sb_apps sb)"]
      by (simp add: app_ids_def length_concat comp_def)
    also have "\<dots> = length (filled_ids (sb_slot_ids sb))" using inv by (metis mset_eq_length sb_inv_def)
    also have "\<dots> \<le> limit" using assms(3,4) length_filter_le [of "\<lambda>s. \<not> is_free s" "sb_slot_ids sb"]
      by (simp add: filled_ids_def del: length_filter_le)
    finally show ?thesis .
  qed
  have r: "readable (wr_u8 C) (rd_u8 C) (sb_version sb)"
    "readable (wr_slots C (slot_serialize C)) (rd_slots_at_most C (slot_deserialize C) WRBPOD_MAX_SLOTS) (sb_slot_ids sb)"
    "readable (wr_names C) (rd_names C) (map (\<lambda>e. as_bytes (fst e)) (sb_apps sb))"
    using assms slot_back [OF C] by (auto simp: codec_ok_def WRBPOD_MAX_SLOTS_def as_bytes_def intro: reads_back_readable)
  obtain x where x: "wr_u8 C (sb_version sb) = Ok x" "\<And>rest. rd_u8 C (x @ rest) = Ok (sb_version sb, rest)"
    by (rule readableE [OF r(1)]) blast
  obtain y where y: "wr_slots C (slot_serialize C) (sb_slot_ids sb) = Ok y"
    "\<And>rest. rd_slots_at_most C (slot_deserialize C) WRBPOD_MAX_SLOTS (y @ rest) = Ok (sb_slot_ids sb, rest)"
    by (rule readableE [OF r(2)]) blast
  obtain z where z: "wr_names C (map (\<lambda>e. as_bytes (fst e)) (sb_apps sb)) = Ok z"
    "\<And>rest. rd_names C (z @ rest) = Ok (map (\<lambda>e. as_bytes (fst e)) (sb_apps sb), rest)"
    by (rule readableE [OF r(3)]) blast
  obtain b where b: "write_all (app_serialize C) (map snd (sb_apps sb)) = Ok b"
    "\<And>rest. read_apps C (map fst (sb_apps sb)) [] (b @ rest) = Ok (sb_apps sb, rest)"
    using read_apps_back [of "sb_apps sb" C "[]"] apps few app_back [OF C] inv by (auto simp: sb_inv_def)
  have names: "check_names (map (\<lambda>e. as_bytes (fst e)) (sb_apps sb)) = Ok (map fst (sb_apps sb))"
    using check_names_back [of "map fst (sb_apps sb)"] apps by (simp add: comp_def)
  have "serialize_to_vec (sb_serialize C sb) = Some (x @ y @ z @ b)"
    by (simp add: serialize_to_vec_def sb_serialize_def x(1) y(1) z(1) b(1))
  moreover have "sb_deserialize C ((x @ y @ z @ b) @ rest) = Ok (sb, rest)" for rest
    by (simp add: sb_deserialize_def x(2) y(2) z(2) names b(2))
  ultimately show ?thesis by blast
qed

text \<open>
  C32. The superblock survives. A superblock with at most 4096 slots, whose apps have ASCII names
  and hashes of 20 bytes, is read back from what it is written as, unless one of its vectors
  is longer than the codec can read.
\<close>

theorem superblock_roundtrip:
  assumes "codec_ok C limit" and "sb_inv sb"
    and "length (sb_slot_ids sb) \<le> 4096" and "4096 \<le> limit" and "length (sb_apps sb) \<le> limit"
    and "\<forall>e \<in> set (sb_apps sb). ascii_name (fst e) \<and> length (fst e) \<le> limit \<and> length (app_code_hash (snd e)) = 20"
  shows "\<exists>b. serialize_to_vec (sb_serialize C sb) = Some b \<and> (\<forall>rest. sb_deserialize C (b @ rest) = Ok (sb, rest))"
  using superblock_codec [OF assms] .

section \<open>Witnesses\<close>

theorem apps_never_share_witness:
  "\<exists>sb. sb_steps (sb_new [1, 2, 3]) [Allocate ''a.btc'' (replicate 20 0) 1, Allocate ''b.btc'' (replicate 20 1) 2,
       Delete ''a.btc'', Allocate ''b.btc'' (replicate 20 1) 1] = Some sb \<and> map slot_id (sb_slot_ids sb) = [1, 2, 3] \<and>
     (\<forall>name k c. sb_chunk_id sb name k = Some c \<longrightarrow> Filled c \<in> set (sb_slot_ids sb)) \<and>
     (\<forall>name1 k1 name2 k2 c. sb_chunk_id sb name1 k1 = Some c \<and> sb_chunk_id sb name2 k2 = Some c \<longrightarrow>
        name1 = name2 \<and> k1 = k2)"
  by (rule apps_never_share) simp

theorem allocate_slots_spec_witness:
  "\<exists>sb'. sb_allocate_slots (sb_new [4, 7, 9]) ''a.btc'' (replicate 20 0) 2 = Some (sb', True) \<and>
     sb_app_state sb' = [''a.btc'' \<mapsto> \<lparr>app_version = 0, app_code_hash = replicate 20 0, app_slots = [4, 7]\<rparr>] \<and>
     free_ids (sb_slot_ids sb') = [9]"
proof -
  have none: "sb_app_state (sb_new [4, 7, 9]) = Map.empty" by (simp add: sb_app_state_def sb_new_def fun_eq_iff)
  have free: "free_ids (sb_slot_ids (sb_new [4, 7, 9])) = [4, 7, 9]" by (simp add: sb_new_def)
  show ?thesis
    using allocate_slots_spec [OF sb_inv_new, of "[4, 7, 9]" "''a.btc''" "replicate 20 0" 2]
    by (auto simp: none free with_slots_def WRBPOD_APP_STATE_VERSION_def)
qed

theorem superblock_roundtrip_witness:
  "\<exists>b. serialize_to_vec (sb_serialize be_codec (sb_new [1, 2, 3])) = Some b \<and>
     (\<forall>rest. sb_deserialize be_codec (b @ rest) = Ok (sb_new [1, 2, 3], rest))"
  by (rule superblock_roundtrip [OF codec_ok_be [of 5000] sb_inv_new]) (simp_all add: sb_new_def)

end
