(* ===== verification/Stackerdb_Client.thy ===== *)
theory Stackerdb_Client
  imports Wrbpod_Codec
begin

text \<open>
  StackerDB clients: the errors of storage and runner, chunks and their metadata, the trait
  \<open>StackerDBClient\<close> of \<open>src/storage/mod.rs\<close> as a table of its methods, and the client that keeps a
  StackerDB in a local database (\<open>src/storage/mock.rs\<close>). Hashes, addresses and signatures are
  those of \<open>stacks_common\<close> and \<open>libstackerdb\<close>: a record of functions over types of their own. A
  method returns the changed client with its result, also on errors.
\<close>

section \<open>Errors\<close>

datatype RuntimeError =
    FailedToRun string "string list" | FailedToExecute string string | KilledBySignal string | BadExit int
  | InvalidOutput string | RtIO string | RtSerialize string | RtDeserialize string | NotConnected | NotInitialized
  | NoFeeEstimate | MalformedRequest string | MalformedResponse string | HttpError u32 "string \<rightharpoonup> string" usize
  | RPCError string | RtStorage string | RtClarity string | RtDatabase string

typedecl sqlite_failure

datatype StorageError =
    RuntimeErr RuntimeError | CodecErr CodecError | GetChunk string | PutChunk string | OverflowErr string
  | NoSuchChunk | NoSpace | NoSuperblock | NoSuchRow | AlreadyExists | DBErr sqlite_failure

section \<open>Chunks, signatures and clients\<close>

type_synonym Sha512Trunc256Sum = bytes  \<comment> \<open>32 bytes\<close>

record 's SlotMetadata =
  md_slot_id :: u32
  md_slot_version :: u32
  md_data_hash :: Sha512Trunc256Sum
  md_signature :: 's

record 's StackerDBChunkData =
  ch_slot_id :: u32
  ch_slot_version :: u32
  ch_sig :: 's
  ch_data :: bytes

record 's StackerDBChunkAckData =
  ak_accepted :: bool
  ak_reason :: "string option"
  ak_metadata :: "'s SlotMetadata option"
  ak_code :: "u32 option"

text \<open>
  Addresses, keys and signatures. \<open>cr_address\<close> is the p2pkh address of the public key of a private
  key; \<open>cr_sign\<close> the signature that \<open>StackerDBChunkData::sign\<close> puts into a chunk with this slot,
  version and data; \<open>cr_verify\<close> is \<open>SlotMetadata::verify\<close>.
\<close>

record ('a, 'k, 'p, 's) crypto =
  cr_sha :: "bytes \<Rightarrow> Sha512Trunc256Sum"
  cr_new_address :: "u8 \<Rightarrow> Hash160 \<Rightarrow> 'a option"
  cr_bytes :: "'a \<Rightarrow> Hash160"
  cr_address :: "'k \<Rightarrow> 'a"
  cr_empty_sig :: 's
  cr_sign :: "'k \<Rightarrow> u32 \<Rightarrow> u32 \<Rightarrow> bytes \<Rightarrow> 's option"
  cr_verify :: "'s SlotMetadata \<Rightarrow> 'a \<Rightarrow> (string, bool) outcome"
  cr_recover :: "bytes \<Rightarrow> 's \<Rightarrow> 'p option"

text \<open>The methods of a client that wrbpods call, over the state \<open>'c\<close> of the client.\<close>

record ('c, 'a, 's) stackerdb_client =
  sd_list_chunks :: "'c \<Rightarrow> 'c \<times> (RuntimeError, 's SlotMetadata list) outcome"
  sd_get_chunks :: "'c \<Rightarrow> (u32 \<times> u32) list \<Rightarrow> 'c \<times> (RuntimeError, bytes option list) outcome"
  sd_get_latest_chunks :: "'c \<Rightarrow> u32 list \<Rightarrow> 'c \<times> (RuntimeError, bytes option list) outcome"
  sd_put_chunk :: "'c \<Rightarrow> 's StackerDBChunkData \<Rightarrow> 'c \<times> (RuntimeError, 's StackerDBChunkAckData) outcome"
  sd_get_signers :: "'c \<Rightarrow> 'c \<times> (RuntimeError, 'a list) outcome"

definition ZERO_HASH :: Sha512Trunc256Sum where
  "ZERO_HASH = replicate 32 0"

definition md_is_empty :: "'s SlotMetadata \<Rightarrow> bool" where
  "md_is_empty md \<longleftrightarrow> md_slot_version md = 0 \<and> md_data_hash md = ZERO_HASH"

definition chunk_new :: "('a, 'k, 'p, 's) crypto \<Rightarrow> u32 \<Rightarrow> u32 \<Rightarrow> bytes \<Rightarrow> 's StackerDBChunkData" where
  "chunk_new K i v data = \<lparr>ch_slot_id = i, ch_slot_version = v, ch_sig = cr_empty_sig K, ch_data = data\<rparr>"

definition sign_chunk :: "('a, 'k, 'p, 's) crypto \<Rightarrow> 'k \<Rightarrow> 's StackerDBChunkData \<Rightarrow> 's StackerDBChunkData option" where
  "sign_chunk K privkey ch =
     map_option (\<lambda>s. ch\<lparr>ch_sig := s\<rparr>) (cr_sign K privkey (ch_slot_id ch) (ch_slot_version ch) (ch_data ch))"

section \<open>The local client\<close>

text \<open>
  The tables of the database: the rows of \<open>chunks\<close> in ascending order of their slots, and the row
  of \<open>config\<close>. The statements themselves are taken to succeed. The latency of a call is left out.
\<close>

record 's LocalStackerDBChunk =
  lc_slot_id :: u32
  lc_slot_version :: u32
  lc_pubkh :: Hash160
  lc_data_hash :: Sha512Trunc256Sum
  lc_data :: bytes
  lc_signature :: 's

record LocalStackerDBConfig =
  lf_max_slots :: u32
  lf_rpc_latency :: u64
  lf_mainnet :: bool

record 's LocalStackerDB =
  ld_chunks :: "'s LocalStackerDBChunk list"
  ld_config :: "LocalStackerDBConfig option"

text \<open>The rows inserted for the signers of the configuration, numbered from 0.\<close>

fun signer_rows :: "('a, 'k, 'p, 's) crypto \<Rightarrow> nat \<Rightarrow> ('a \<times> u32) list \<Rightarrow> 's LocalStackerDBChunk list" where
  "signer_rows K i [] = []"
| "signer_rows K i ((address, num_slots) # signers) =
     map (\<lambda>j. \<lparr>lc_slot_id = word_of_nat j, lc_slot_version = 0, lc_pubkh = cr_bytes K address, lc_data_hash = ZERO_HASH,
       lc_data = [], lc_signature = cr_empty_sig K\<rparr>) [i..<i + unat num_slots] @
     signer_rows K (i + unat num_slots) signers"

definition local_create :: "('a, 'k, 'p, 's) crypto \<Rightarrow> LocalStackerDBConfig \<Rightarrow> ('a \<times> u32) list \<Rightarrow> 's LocalStackerDB" where
  "local_create K config signers = \<lparr>ld_chunks = signer_rows K 0 signers, ld_config = Some config\<rparr>"

definition inner_get_config :: "'s LocalStackerDB \<Rightarrow> (RuntimeError, LocalStackerDBConfig) outcome" where
  "inner_get_config db = ok_or (ld_config db) (RtStorage ''Storage error: NoSuchRow'')"

definition row_metadata :: "'s LocalStackerDBChunk \<Rightarrow> 's SlotMetadata" where
  "row_metadata r = \<lparr>md_slot_id = lc_slot_id r, md_slot_version = lc_slot_version r, md_data_hash = lc_data_hash r,
     md_signature = lc_signature r\<rparr>"

definition inner_list_chunks :: "'s LocalStackerDB \<Rightarrow> 's SlotMetadata list" where
  "inner_list_chunks db = map row_metadata (ld_chunks db)"

definition local_list_chunks :: "'s LocalStackerDB \<Rightarrow> 's LocalStackerDB \<times> (RuntimeError, 's SlotMetadata list) outcome" where
  "local_list_chunks db = (db, obind (inner_get_config db) (\<lambda>_. Ok (inner_list_chunks db)))"

text \<open>Chunks that were never written have a row but seem not to exist.\<close>

definition hide_empty :: "'s LocalStackerDB \<Rightarrow> u32 \<Rightarrow> bytes option \<Rightarrow> bytes option" where
  "hide_empty db slot_id chunk_opt =
     (case map_of (map (\<lambda>md. (md_slot_id md, md)) (rev (inner_list_chunks db))) slot_id of
        Some chunk_md \<Rightarrow> if md_is_empty chunk_md then None else chunk_opt
      | None \<Rightarrow> chunk_opt)"

definition local_get_chunks ::
  "'s LocalStackerDB \<Rightarrow> (u32 \<times> u32) list \<Rightarrow> 's LocalStackerDB \<times> (RuntimeError, bytes option list) outcome" where
  "local_get_chunks db slots_and_versions = (db, obind (inner_get_config db) (\<lambda>_.
     Ok (map (\<lambda>(slot_id, slot_version). hide_empty db slot_id
       (map_option lc_data (find (\<lambda>r. lc_slot_id r = slot_id \<and> lc_slot_version r = slot_version) (ld_chunks db)))) slots_and_versions)))"

definition local_get_latest_chunks ::
  "'s LocalStackerDB \<Rightarrow> u32 list \<Rightarrow> 's LocalStackerDB \<times> (RuntimeError, bytes option list) outcome" where
  "local_get_latest_chunks db slot_ids = (db, obind (inner_get_config db) (\<lambda>_.
     Ok (map (\<lambda>slot_id. hide_empty db slot_id
       (map_option lc_data (find (\<lambda>r. lc_slot_id r = slot_id) (ld_chunks db)))) slot_ids)))"

definition refuse :: "string \<Rightarrow> 's SlotMetadata option \<Rightarrow> u32 \<Rightarrow> 's StackerDBChunkAckData" where
  "refuse reason md code = \<lparr>ak_accepted = False, ak_reason = Some reason, ak_metadata = md, ak_code = Some code\<rparr>"

definition put_row ::
  "('a, 'k, 'p, 's) crypto \<Rightarrow> 's StackerDBChunkData \<Rightarrow> 's LocalStackerDBChunk \<Rightarrow> 's LocalStackerDBChunk" where
  "put_row K ch r = (if lc_slot_id r = ch_slot_id ch
     then r\<lparr>lc_slot_version := ch_slot_version ch, lc_data_hash := cr_sha K (ch_data ch), lc_data := ch_data ch,
            lc_signature := ch_sig ch\<rparr>
     else r)"

definition stored_sig_ok :: "('a, 'k, 'p, 's) crypto \<Rightarrow> 's LocalStackerDBChunk \<Rightarrow> bool option" where
  "stored_sig_ok K r =
     do { a \<leftarrow> cr_new_address K 0 (lc_pubkh r);
          case cr_verify K (row_metadata r) a of Ok b \<Rightarrow> Some b | Err _ \<Rightarrow> Some False | Panic \<Rightarrow> None }"

definition local_put_chunk ::
  "('a, 'k, 'p, 's) crypto \<Rightarrow> 's LocalStackerDB \<Rightarrow> 's StackerDBChunkData \<Rightarrow>
     's LocalStackerDB \<times> (RuntimeError, 's StackerDBChunkAckData) outcome" where
  "local_put_chunk K db ch =
     (case inner_get_config db of
        Err e \<Rightarrow> (db, Err e)
      | Panic \<Rightarrow> (db, Panic)
      | Ok config \<Rightarrow>
         if lf_max_slots config \<le> ch_slot_id ch then (db, Ok (refuse ''Slot too big'' None 1))
         else case find (\<lambda>r. lc_slot_id r = ch_slot_id ch) (ld_chunks db) of
           None \<Rightarrow> (db, Ok (refuse ''No such slot'' None 1))
         | Some r \<Rightarrow>
            (let md = row_metadata r in
             case if md_is_empty md then Some True else stored_sig_ok K r of
               None \<Rightarrow> (db, Panic)
             | Some False \<Rightarrow> (db, Ok (refuse ''bad signature'' (Some md) 2))
             | Some True \<Rightarrow>
                if \<not> md_is_empty md \<and> ch_slot_version ch \<le> md_slot_version md
                then (db, Ok (refuse ''version too old'' (Some md) 0))
                else (db\<lparr>ld_chunks := map (put_row K ch) (ld_chunks db)\<rparr>,
                      Ok \<lparr>ak_accepted = True, ak_reason = None, ak_metadata = None, ak_code = None\<rparr>)))"

text \<open>Addresses of the signers; the versions of the two networks are constants of \<open>stacks_common\<close>.\<close>

definition local_get_signers ::
  "('a, 'k, 'p, 's) crypto \<Rightarrow> u8 \<Rightarrow> u8 \<Rightarrow> 's LocalStackerDB \<Rightarrow> 's LocalStackerDB \<times> (RuntimeError, 'a list) outcome" where
  "local_get_signers K mainnet_version testnet_version db =
     (db, obind (inner_get_config db) (\<lambda>config.
        let addr_version = if lf_mainnet config then mainnet_version else testnet_version in
        from_opt (those (map (\<lambda>r. cr_new_address K addr_version (lc_pubkh r)) (ld_chunks db)))))"

definition local_client ::
  "('a, 'k, 'p, 's) crypto \<Rightarrow> u8 \<Rightarrow> u8 \<Rightarrow> ('s LocalStackerDB, 'a, 's) stackerdb_client" where
  "local_client K mv tv = \<lparr>sd_list_chunks = local_list_chunks, sd_get_chunks = local_get_chunks,
     sd_get_latest_chunks = local_get_latest_chunks, sd_put_chunk = local_put_chunk K, sd_get_signers = local_get_signers K mv tv\<rparr>"

end
