(* ===== verification/Wrbpod.thy ===== *)
theory Wrbpod
  imports Wrbpod_Slices Superblock Stackerdb_Client
begin

text \<open>
  The handle of a wrbpod (\<open>Wrbpod\<close> of \<open>src/storage/wrbpod.rs\<close>). It caches the superblock, the list of
  signers and the chunks it has fetched, and talks to two clients: the home node, which is
  trusted for the signers, and a replica. An operation returns the changed handle together
  with its result, since a session goes on after an error. The retry loops may go on forever
  when the replica keeps refusing; they are partial functions, and \<open>None\<close> is no answer.
\<close>

section \<open>The handle and its environment\<close>

record ('h, 'r, 'a, 'k) Wrbpod =
  wp_superblock :: WrbpodSuperblock
  wp_replica :: 'r
  wp_home :: 'h
  wp_privkey :: 'k
  wp_signers :: "'a list option"
  wp_chunks :: "u32 \<rightharpoonup> WrbpodSlices"
  wp_superblock_slot_id :: u32

text \<open>The tables of the two clients, cryptography, codec and the largest size of a chunk.\<close>

record ('h, 'r, 'a, 'k, 'p, 's) wrbpod_env =
  en_home :: "('h, 'a, 's) stackerdb_client"
  en_replica :: "('r, 'a, 's) stackerdb_client"
  en_crypto :: "('a, 'k, 'p, 's) crypto"
  en_codec :: codec
  en_chunk_max :: u32

type_synonym ('w, 'x) op = "'w \<Rightarrow> 'w \<times> (StorageError, 'x) outcome"

definition wbind :: "('w, 'x) op \<Rightarrow> ('x \<Rightarrow> ('w, 'y) op) \<Rightarrow> ('w, 'y) op" where
  "wbind m f w = (case m w of (w, Ok x) \<Rightarrow> f x w | (w, Err e) \<Rightarrow> (w, Err e) | (w, Panic) \<Rightarrow> (w, Panic))"

definition lift :: "(StorageError, 'x) outcome \<Rightarrow> ('w, 'x) op" where
  "lift r w = (w, r)"

definition on_home ::
  "('h \<Rightarrow> 'h \<times> (RuntimeError, 'x) outcome) \<Rightarrow> (('h, 'r, 'a, 'k) Wrbpod, 'x) op" where
  "on_home f w = (case f (wp_home w) of (c, r) \<Rightarrow> (w\<lparr>wp_home := c\<rparr>, map_err RuntimeErr r))"

definition on_replica ::
  "('r \<Rightarrow> 'r \<times> (RuntimeError, 'x) outcome) \<Rightarrow> (('h, 'r, 'a, 'k) Wrbpod, 'x) op" where
  "on_replica f w = (case f (wp_replica w) of (c, r) \<Rightarrow> (w\<lparr>wp_replica := c\<rparr>, map_err RuntimeErr r))"

section \<open>Signers and superblock\<close>

fun available_from :: "('a, 'k, 'p, 's) crypto \<Rightarrow> 'a \<Rightarrow> nat \<Rightarrow> 'a list \<Rightarrow> u32 list" where
  "available_from K addr i [] = []"
| "available_from K addr i (signer # signers) =
     (if 2 ^ 32 \<le> i then []
      else (if cr_bytes K signer = cr_bytes K addr then [word_of_nat i] else []) @ available_from K addr (i + 1) signers)"

definition find_available_slots :: "('a, 'k, 'p, 's) crypto \<Rightarrow> 'a list \<Rightarrow> 'k \<Rightarrow> u32 list" where
  "find_available_slots K signers privkey = available_from K (cr_address K privkey) 0 signers"

definition make_superblock ::
  "('a, 'k, 'p, 's) crypto \<Rightarrow> u32 \<Rightarrow> 'a list \<Rightarrow> 'k \<Rightarrow> (StorageError, WrbpodSuperblock) outcome" where
  "make_superblock K superblock_slot_id signers privkey =
     (let available_slots = find_available_slots K signers privkey;
          wrbpod_slots = filter (\<lambda>slot. slot \<noteq> superblock_slot_id) available_slots
      in if length available_slots = length wrbpod_slots then Err NoSuperblock else Ok (sb_new wrbpod_slots))"

definition superblock_slot_index :: "('h, 'r, 'a, 'k) Wrbpod \<Rightarrow> usize" where
  "superblock_slot_index w = unat (wp_superblock_slot_id w)"

definition refresh_signers :: "('h, 'r, 'a, 'k, 'p, 's) wrbpod_env \<Rightarrow> (('h, 'r, 'a, 'k) Wrbpod, unit) op" where
  "refresh_signers E = wbind (on_home (sd_get_signers (en_home E))) (\<lambda>signers w. (w\<lparr>wp_signers := Some signers\<rparr>, Ok ()))"

text \<open>Refreshing when there are no signers yet; the answer is whether that was done.\<close>

definition ensure_signers :: "('h, 'r, 'a, 'k, 'p, 's) wrbpod_env \<Rightarrow> (('h, 'r, 'a, 'k) Wrbpod, bool) op" where
  "ensure_signers E w =
     (if wp_signers w = None then wbind (refresh_signers E) (\<lambda>_. lift (Ok True)) w else (w, Ok False))"

definition signer_at :: "usize \<Rightarrow> (('h, 'r, 'a, 'k) Wrbpod, 'a list \<times> 'a) op" where
  "signer_at i w =
     (w, case wp_signers w of
           None \<Rightarrow> Err (GetChunk ''Unable to load signer list'')
         | Some signers \<Rightarrow>
            (case vec_get signers i of
               None \<Rightarrow> Err (GetChunk ''No such signer for chunk ID'')
             | Some signer_addr \<Rightarrow> Ok (signers, signer_addr)))"

definition list_replica :: "('h, 'r, 'a, 'k, 'p, 's) wrbpod_env \<Rightarrow> (('h, 'r, 'a, 'k) Wrbpod, 's SlotMetadata list) op" where
  "list_replica E = on_replica (sd_list_chunks (en_replica E))"

definition verify_slot ::
  "('h, 'r, 'a, 'k, 'p, 's) wrbpod_env \<Rightarrow> 's SlotMetadata \<Rightarrow> 'a \<Rightarrow> (StorageError, bool) outcome" where
  "verify_slot E slot_md signer_addr =
     map_err (\<lambda>_. GetChunk ''Failed to verify signature'') (cr_verify (en_crypto E) slot_md signer_addr)"

definition load_superblock ::
  "('h, 'r, 'a, 'k, 'p, 's) wrbpod_env \<Rightarrow> 's SlotMetadata \<Rightarrow> (('h, 'r, 'a, 'k) Wrbpod, unit) op" where
  "load_superblock E slot_md w =
     wbind (on_replica (\<lambda>c. sd_get_latest_chunks (en_replica E) c [wp_superblock_slot_id w])) (\<lambda>chunks w.
       (case vec_get chunks (superblock_slot_index w) of
          None \<Rightarrow> (w, Err NoSuchChunk)
        | Some None \<Rightarrow> (w, Err NoSuchChunk)
        | Some (Some chunk) \<Rightarrow>
           if md_data_hash slot_md \<noteq> cr_sha (en_crypto E) chunk
           then (w, Err (GetChunk ''superblock chunk hash mismatch''))
           else wbind (lift (map_err CodecErr (sb_deserialize (en_codec E) chunk)))
                  (\<lambda>(superblock, _) w. (w\<lparr>wp_superblock := superblock\<rparr>, Ok ())) w)) w"

definition download_superblock :: "('h, 'r, 'a, 'k, 'p, 's) wrbpod_env \<Rightarrow> (('h, 'r, 'a, 'k) Wrbpod, unit) op" where
  "download_superblock E =
     wbind (list_replica E) (\<lambda>all_slot_metadata w.
       wbind (lift (ok_or (vec_get all_slot_metadata (superblock_slot_index w))
               (GetChunk ''no superblock chunk defined in slot metadata''))) (\<lambda>slot_md.
       wbind (ensure_signers E) (\<lambda>_ w.
       wbind (signer_at (superblock_slot_index w)) (\<lambda>(signers, signer_addr) w.
         if md_is_empty slot_md
         then wbind (lift (make_superblock (en_crypto E) (wp_superblock_slot_id w) signers (wp_privkey w)))
                (\<lambda>superblock w. (w\<lparr>wp_superblock := superblock\<rparr>, Ok ())) w
         else wbind (lift (verify_slot E slot_md signer_addr)) (\<lambda>ok.
                if \<not> ok then lift (Err (GetChunk ''Invalid superblock signature'')) else load_superblock E slot_md) w) w)) w)"

definition wrbpod_open ::
  "('h, 'r, 'a, 'k, 'p, 's) wrbpod_env \<Rightarrow> 'h \<Rightarrow> 'r \<Rightarrow> 'k \<Rightarrow> u32 \<Rightarrow> (StorageError, ('h, 'r, 'a, 'k) Wrbpod) outcome" where
  "wrbpod_open E home_client replica_client privkey superblock_slot_id =
     (case wbind (refresh_signers E) (\<lambda>_. download_superblock E)
        \<lparr>wp_superblock = sb_empty, wp_replica = replica_client, wp_home = home_client, wp_privkey = privkey,
         wp_signers = None, wp_chunks = Map.empty, wp_superblock_slot_id = superblock_slot_id\<rparr>
      of (w, Ok _) \<Rightarrow> Ok w | (w, Err e) \<Rightarrow> Err e | (w, Panic) \<Rightarrow> Panic)"

section \<open>Saving chunks\<close>

definition sign_failed :: StorageError where
  "sign_failed = CodecErr (SerializeError ''Failed to sign'')"

text \<open>The reason of a refusal, and the version after the one the replica has.\<close>

definition refusal :: "'s StackerDBChunkAckData \<Rightarrow> StorageError" where
  "refusal result = PutChunk (case ak_reason result of Some r \<Rightarrow> r | None \<Rightarrow> ''(reason not given)'')"

definition next_version :: "u32 \<Rightarrow> u32 option" where
  "next_version v = (if v = - 1 then None else Some (v + 1))"

lemma less_next_version: "next_version v = Some v' \<Longrightarrow> v < v'"
  by (auto simp: next_version_def word_less_nat_alt unatSuc add.commute add_eq_0_iff split: if_splits)

partial_function (option) upload_loop ::
  "('h, 'r, 'a, 'k, 'p, 's) wrbpod_env \<Rightarrow> bytes \<Rightarrow> u32 \<Rightarrow> ('h, 'r, 'a, 'k) Wrbpod \<Rightarrow>
     (('h, 'r, 'a, 'k) Wrbpod \<times> (StorageError, unit) outcome) option" where
  "upload_loop E superblock_bytes slot_version w =
     (case sign_chunk (en_crypto E) (wp_privkey w)
             (chunk_new (en_crypto E) (wp_superblock_slot_id w) slot_version superblock_bytes) of
        None \<Rightarrow> Some (w, Err sign_failed)
      | Some superblock_chunk \<Rightarrow>
         (case on_replica (\<lambda>c. sd_put_chunk (en_replica E) c superblock_chunk) w of
            (w', Err e) \<Rightarrow> Some (w', Err e)
          | (w', Panic) \<Rightarrow> Some (w', Panic)
          | (w', Ok result) \<Rightarrow>
             if ak_accepted result then Some (w', Ok ())
             else (case ak_metadata result of
                     None \<Rightarrow> Some (w', Err (refusal result))
                   | Some metadata \<Rightarrow>
                      (case next_version (md_slot_version metadata) of
                         None \<Rightarrow> Some (w', Panic)
                       | Some v \<Rightarrow> upload_loop E superblock_bytes v w'))))"

partial_function (option) put_loop ::
  "('h, 'r, 'a, 'k, 'p, 's) wrbpod_env \<Rightarrow> 's StackerDBChunkData \<Rightarrow> ('h, 'r, 'a, 'k) Wrbpod \<Rightarrow>
     (('h, 'r, 'a, 'k) Wrbpod \<times> (StorageError, unit) outcome) option" where
  "put_loop E chunk w =
     (case sign_chunk (en_crypto E) (wp_privkey w) chunk of
        None \<Rightarrow> Some (w, Err sign_failed)
      | Some chunk \<Rightarrow>
         (case on_replica (\<lambda>c. sd_put_chunk (en_replica E) c chunk) w of
            (w', Err e) \<Rightarrow> Some (w', Err e)
          | (w', Panic) \<Rightarrow> Some (w', Panic)
          | (w', Ok result) \<Rightarrow>
             if ak_accepted result then Some (w', Ok ())
             else (case ak_metadata result of
                     None \<Rightarrow> Some (w', Err (refusal result))
                   | Some metadata \<Rightarrow>
                      (case next_version (md_slot_version metadata) of
                         None \<Rightarrow> Some (w', Panic)
                       | Some v \<Rightarrow> put_loop E (chunk\<lparr>ch_slot_version := v\<rparr>) w'))))"

text \<open>Going on with an operation that may not return.\<close>

definition then_loop ::
  "('w, 'x) op \<Rightarrow> ('x \<Rightarrow> 'w \<Rightarrow> ('w \<times> (StorageError, 'y) outcome) option) \<Rightarrow> 'w \<Rightarrow> ('w \<times> (StorageError, 'y) outcome) option" where
  "then_loop m f w = (case m w of (w, Ok x) \<Rightarrow> f x w | (w, Err e) \<Rightarrow> Some (w, Err e) | (w, Panic) \<Rightarrow> Some (w, Panic))"

definition upload_superblock ::
  "('h, 'r, 'a, 'k, 'p, 's) wrbpod_env \<Rightarrow> ('h, 'r, 'a, 'k) Wrbpod \<Rightarrow>
     (('h, 'r, 'a, 'k) Wrbpod \<times> (StorageError, unit) outcome) option" where
  "upload_superblock E =
     then_loop (list_replica E) (\<lambda>slot_metadata w.
       then_loop (lift (ok_or (vec_get slot_metadata (superblock_slot_index w))
                    (PutChunk ''No superblock chunk defined in slot metadata''))) (\<lambda>superblock_md w.
         (case serialize_to_vec (sb_serialize (en_codec E) (wp_superblock w)) of
            None \<Rightarrow> Some (w, Panic)
          | Some superblock_bytes \<Rightarrow> upload_loop E superblock_bytes (md_slot_version superblock_md) w)) w)"

definition wrbpod_format ::
  "('h, 'r, 'a, 'k, 'p, 's) wrbpod_env \<Rightarrow> 'h \<Rightarrow> 'r \<Rightarrow> 'k \<Rightarrow> u32 \<Rightarrow>
     (StorageError, ('h, 'r, 'a, 'k) Wrbpod) outcome option" where
  "wrbpod_format E home_client replica_client privkey superblock_slot_id =
     (case sd_get_signers (en_home E) home_client of
        (_, Err e) \<Rightarrow> Some (Err (RuntimeErr e))
      | (_, Panic) \<Rightarrow> Some Panic
      | (home_client, Ok signers) \<Rightarrow>
         (case make_superblock (en_crypto E) superblock_slot_id signers privkey of
            Err e \<Rightarrow> Some (Err e)
          | Panic \<Rightarrow> Some Panic
          | Ok superblock \<Rightarrow>
             map_option (\<lambda>(w, r). obind r (\<lambda>_. Ok w))
               (upload_superblock E \<lparr>wp_superblock = superblock, wp_replica = replica_client, wp_home = home_client,
                  wp_privkey = privkey, wp_signers = Some signers, wp_chunks = Map.empty,
                  wp_superblock_slot_id = superblock_slot_id\<rparr>)))"

definition allocate_slots ::
  "('h, 'r, 'a, 'k, 'p, 's) wrbpod_env \<Rightarrow> string \<Rightarrow> Hash160 \<Rightarrow> u32 \<Rightarrow> ('h, 'r, 'a, 'k) Wrbpod \<Rightarrow>
     (('h, 'r, 'a, 'k) Wrbpod \<times> (StorageError, bool) outcome) option" where
  "allocate_slots E app_name code_hash num_slots =
     then_loop (download_superblock E) (\<lambda>_ w.
       (case sb_allocate_slots (wp_superblock w) app_name code_hash num_slots of
          None \<Rightarrow> Some (w, Panic)
        | Some (superblock, success) \<Rightarrow>
           (let w = w\<lparr>wp_superblock := superblock\<rparr> in
            if success then map_option (\<lambda>(w, r). (w, obind r (\<lambda>_. Ok True))) (upload_superblock E w)
            else Some (w, Ok False))))"

definition delete_slots ::
  "('h, 'r, 'a, 'k, 'p, 's) wrbpod_env \<Rightarrow> string \<Rightarrow> ('h, 'r, 'a, 'k) Wrbpod \<Rightarrow>
     (('h, 'r, 'a, 'k) Wrbpod \<times> (StorageError, unit) outcome) option" where
  "delete_slots E app_name =
     then_loop (download_superblock E) (\<lambda>_ w.
       upload_superblock E (w\<lparr>wp_superblock := sb_delete_slots (wp_superblock w) app_name\<rparr>))"

definition get_num_slots :: "('h, 'r, 'a, 'k) Wrbpod \<Rightarrow> string \<Rightarrow> u64 option" where
  "get_num_slots w app_name = map_option ucast (num_app_slots (wp_superblock w) app_name)"

section \<open>Fetching chunks\<close>

definition get_raw_chunk ::
  "('h, 'r, 'a, 'k, 'p, 's) wrbpod_env \<Rightarrow> u32 \<Rightarrow> Sha512Trunc256Sum \<Rightarrow> (('h, 'r, 'a, 'k) Wrbpod, bytes) op" where
  "get_raw_chunk E slot data_hash =
     wbind (on_replica (\<lambda>c. sd_get_latest_chunks (en_replica E) c [slot])) (\<lambda>chunks.
       lift (case vec_get chunks 0 of
               None \<Rightarrow> Err NoSuchChunk
             | Some None \<Rightarrow> Err NoSuchChunk
             | Some (Some chunk) \<Rightarrow>
                if data_hash \<noteq> cr_sha (en_crypto E) chunk then Err (GetChunk ''chunk hash mismatch'') else Ok chunk))"

definition get_and_verify_raw_chunk ::
  "('h, 'r, 'a, 'k, 'p, 's) wrbpod_env \<Rightarrow> u32 \<Rightarrow> (('h, 'r, 'a, 'k) Wrbpod, bytes option) op" where
  "get_and_verify_raw_chunk E slot =
     wbind (ensure_signers E) (\<lambda>_.
     wbind (signer_at (unat slot)) (\<lambda>(_, signer_addr).
     wbind (list_replica E) (\<lambda>all_slot_metadata.
     wbind (lift (ok_or (vec_get all_slot_metadata (unat slot)) (GetChunk ''no app chunk defined in slot metadata''))) (\<lambda>slot_md.
     if md_is_empty slot_md then lift (Ok None)
     else wbind (lift (verify_slot E slot_md signer_addr)) (\<lambda>ok.
       if \<not> ok then lift (Err (GetChunk ''Invalid chunk signature''))
       else wbind (get_raw_chunk E slot (md_data_hash slot_md)) (\<lambda>chunk. lift (Ok (Some chunk))))))))"

definition get_chunk ::
  "('h, 'r, 'a, 'k, 'p, 's) wrbpod_env \<Rightarrow> u32 \<Rightarrow> Sha512Trunc256Sum \<Rightarrow> (('h, 'r, 'a, 'k) Wrbpod, unit) op" where
  "get_chunk E slot data_hash =
     wbind (get_raw_chunk E slot data_hash) (\<lambda>chunk.
     wbind (lift (map_err CodecErr (slices_from_slice (en_codec E) (en_chunk_max E) chunk))) (\<lambda>slices w.
       (w\<lparr>wp_chunks := (wp_chunks w)(slot \<mapsto> slices)\<rparr>, Ok ())))"

definition ref_chunk :: "('h, 'r, 'a, 'k) Wrbpod \<Rightarrow> u32 \<Rightarrow> WrbpodSlices option" where
  "ref_chunk w slot = wp_chunks w slot"

definition app_chunk_id :: "('h, 'r, 'a, 'k) Wrbpod \<Rightarrow> string \<Rightarrow> u32 \<Rightarrow> u32 option" where
  "app_chunk_id w app_name app_slot_id = sb_chunk_id (wp_superblock w) app_name app_slot_id"

definition ref_app_chunk :: "('h, 'r, 'a, 'k) Wrbpod \<Rightarrow> string \<Rightarrow> u32 \<Rightarrow> WrbpodSlices option" where
  "ref_app_chunk w app_name app_slot_id =
     (case app_chunk_id w app_name app_slot_id of None \<Rightarrow> None | Some slot \<Rightarrow> wp_chunks w slot)"

definition chunk_auth_digest :: "('a, 'k, 'p, 's) crypto \<Rightarrow> u32 \<Rightarrow> u32 \<Rightarrow> Sha512Trunc256Sum \<Rightarrow> Sha512Trunc256Sum" where
  "chunk_auth_digest K slot slot_version data_hash =
     cr_sha K (to_be_bytes 4 slot @ to_be_bytes 4 slot_version @ data_hash)"

text \<open>
  One round of \<open>fetch_chunk\<close> up to the check of the signature: \<open>None\<close> for an empty slot, otherwise
  the metadata, whether its signature is good, and whether the signers are fresh.
\<close>

definition fetch_status ::
  "('h, 'r, 'a, 'k, 'p, 's) wrbpod_env \<Rightarrow> u32 \<Rightarrow> bool \<Rightarrow> (('h, 'r, 'a, 'k) Wrbpod, ('s SlotMetadata \<times> bool \<times> bool) option) op" where
  "fetch_status E chunk_id refreshed_signers =
     wbind (list_replica E) (\<lambda>all_slot_metadata.
     wbind (lift (ok_or (vec_get all_slot_metadata (unat chunk_id)) (GetChunk ''no app chunk defined in slot metadata''))) (\<lambda>slot_md.
     wbind (ensure_signers E) (\<lambda>fresh.
     wbind (signer_at (unat chunk_id)) (\<lambda>(_, signer_addr).
     if md_is_empty slot_md then lift (Ok None)
     else wbind (lift (verify_slot E slot_md signer_addr)) (\<lambda>ok.
       lift (Ok (Some (slot_md, ok, refreshed_signers \<or> fresh))))))))"

definition fetch_finish ::
  "('h, 'r, 'a, 'k, 'p, 's) wrbpod_env \<Rightarrow> u32 \<Rightarrow> 's SlotMetadata \<Rightarrow> (('h, 'r, 'a, 'k) Wrbpod, u32 \<times> 'p option) op" where
  "fetch_finish E chunk_id slot_md =
     wbind (get_chunk E chunk_id (md_data_hash slot_md)) (\<lambda>_.
     lift (case cr_recover (en_crypto E)
                  (chunk_auth_digest (en_crypto E) chunk_id (md_slot_version slot_md) (md_data_hash slot_md)) (md_signature slot_md) of
             None \<Rightarrow> Err (GetChunk ''failed to recover public key'')
           | Some pubk \<Rightarrow> Ok (md_slot_version slot_md, Some pubk)))"

lemma fetch_status_fresh:
  assumes "fetch_status E chunk_id refreshed w = (w', Ok (Some (md, ok, False)))"
  shows "\<not> refreshed"
  using assms by (auto simp: fetch_status_def wbind_def lift_def split: prod.splits outcome.splits if_splits)

function fetch_loop ::
  "('h, 'r, 'a, 'k, 'p, 's) wrbpod_env \<Rightarrow> string \<Rightarrow> u32 \<Rightarrow> bool \<Rightarrow> (('h, 'r, 'a, 'k) Wrbpod, u32 \<times> 'p option) op" where
  "fetch_loop E app_name app_slot_id refreshed_signers w =
     (case sb_chunk_id (wp_superblock w) app_name app_slot_id of
        None \<Rightarrow> (w, Err (GetChunk ''no such app chunk''))
      | Some chunk_id \<Rightarrow>
         (case fetch_status E chunk_id refreshed_signers w of
            (w', Err e) \<Rightarrow> (w', Err e)
          | (w', Panic) \<Rightarrow> (w', Panic)
          | (w', Ok None) \<Rightarrow> (w', Ok (0, None))
          | (w', Ok (Some (slot_md, True, _))) \<Rightarrow> fetch_finish E chunk_id slot_md w'
          | (w', Ok (Some (slot_md, False, True))) \<Rightarrow> (w', Err (GetChunk ''Invalid chunk signature''))
          | (w', Ok (Some (slot_md, False, False))) \<Rightarrow>
             (case refresh_signers E w' of
                (w'', Err e) \<Rightarrow> (w'', Err e)
              | (w'', Panic) \<Rightarrow> (w'', Panic)
              | (w'', Ok _) \<Rightarrow> fetch_loop E app_name app_slot_id True w'')))"
  by pat_completeness auto
termination
  by (relation "measure (\<lambda>(_, _, _, refreshed, _). if refreshed then 0 else 1)") (auto dest!: fetch_status_fresh [OF sym])

declare fetch_loop.simps [simp del]

definition fetch_chunk ::
  "('h, 'r, 'a, 'k, 'p, 's) wrbpod_env \<Rightarrow> string \<Rightarrow> u32 \<Rightarrow> (('h, 'r, 'a, 'k) Wrbpod, u32 \<times> 'p option) op" where
  "fetch_chunk E app_name app_slot_id = fetch_loop E app_name app_slot_id False"

section \<open>Slices\<close>

definition wrbpod_get_slice :: "('h, 'r, 'a, 'k) Wrbpod \<Rightarrow> string \<Rightarrow> u32 \<Rightarrow> u128 \<Rightarrow> bytes option" where
  "wrbpod_get_slice w app_name app_slot_id i =
     (case sb_chunk_id (wp_superblock w) app_name app_slot_id of None \<Rightarrow> None
      | Some chunk_id \<Rightarrow> (case wp_chunks w chunk_id of None \<Rightarrow> None | Some slices \<Rightarrow> slices_get slices i))"

definition wrbpod_can_fit_slice ::
  "('h, 'r, 'a, 'k, 'p, 's) wrbpod_env \<Rightarrow> ('h, 'r, 'a, 'k) Wrbpod \<Rightarrow> string \<Rightarrow> u32 \<Rightarrow> u128 \<Rightarrow> usize \<Rightarrow> bool option" where
  "wrbpod_can_fit_slice E w app_name app_slot_id slice_id len =
     (case sb_chunk_id (wp_superblock w) app_name app_slot_id of
        None \<Rightarrow> Some False
      | Some chunk_id \<Rightarrow>
         (case wp_chunks w chunk_id of
            Some slot_slices \<Rightarrow> slices_can_fit slot_slices slice_id len
          | None \<Rightarrow> do { sz \<leftarrow> slice_encoded_size len False; total \<leftarrow> add64 sz WRBPOD_SLICES_INITIAL_SIZE;
                         Some (total < unat (en_chunk_max E)) }))"

definition wrbpod_put_slice ::
  "('h, 'r, 'a, 'k, 'p, 's) wrbpod_env \<Rightarrow> ('h, 'r, 'a, 'k) Wrbpod \<Rightarrow> string \<Rightarrow> u32 \<Rightarrow> u128 \<Rightarrow> bytes \<Rightarrow>
     (('h, 'r, 'a, 'k) Wrbpod \<times> bool) option" where
  "wrbpod_put_slice E w app_name app_slot_id slice_id slice_bytes =
     (case sb_chunk_id (wp_superblock w) app_name app_slot_id of
        None \<Rightarrow> Some (w, False)
      | Some chunk_id \<Rightarrow>
         (case wp_chunks w chunk_id of
            Some slot_slices \<Rightarrow>
              do { (s, ok) \<leftarrow> slices_put slot_slices slice_id slice_bytes;
                   Some (w\<lparr>wp_chunks := (wp_chunks w)(chunk_id \<mapsto> s)\<rparr>, ok) }
          | None \<Rightarrow>
              do { (s, ok) \<leftarrow> slices_put (slices_new (en_chunk_max E)) slice_id slice_bytes;
                   if \<not> ok then Some (w, False) else Some (w\<lparr>wp_chunks := (wp_chunks w)(chunk_id \<mapsto> s)\<rparr>, True) }))"

definition to_stackerdb_chunk ::
  "('h, 'r, 'a, 'k, 'p, 's) wrbpod_env \<Rightarrow> WrbpodSlices \<Rightarrow> u32 \<Rightarrow> u32 \<Rightarrow> 's StackerDBChunkData option" where
  "to_stackerdb_chunk E slices slot slot_version =
     map_option (chunk_new (en_crypto E) slot slot_version) (serialize_to_vec (slices_serialize (en_codec E) slices))"

definition sync_slot ::
  "('h, 'r, 'a, 'k, 'p, 's) wrbpod_env \<Rightarrow> string \<Rightarrow> u32 \<Rightarrow> ('h, 'r, 'a, 'k) Wrbpod \<Rightarrow>
     (('h, 'r, 'a, 'k) Wrbpod \<times> (StorageError, unit) outcome) option" where
  "sync_slot E app_name app_slot_id w =
     (case sb_chunk_id (wp_superblock w) app_name app_slot_id of
        None \<Rightarrow> Some (w, Err NoSuchChunk)
      | Some chunk_id \<Rightarrow>
         (case wp_chunks w chunk_id of
            None \<Rightarrow> Some (w, Err NoSuchChunk)
          | Some slices \<Rightarrow>
             then_loop (list_replica E) (\<lambda>slot_metadata w.
               (case vec_get slot_metadata (unat chunk_id) of
                  None \<Rightarrow> Some (w, Err NoSuchChunk)
                | Some slot_md \<Rightarrow>
                   (case do { v \<leftarrow> next_version (md_slot_version slot_md); to_stackerdb_chunk E slices chunk_id v } of
                      None \<Rightarrow> Some (w, Panic)
                    | Some chunk \<Rightarrow>
                       map_option (\<lambda>(w, r). case r of
                           Err e \<Rightarrow> (w, Err e)
                         | Panic \<Rightarrow> (w, Panic)
                         | Ok _ \<Rightarrow>
                            (case wp_chunks w chunk_id of
                               None \<Rightarrow> (w, Err NoSuchChunk)
                             | Some slices \<Rightarrow> (w\<lparr>wp_chunks := (wp_chunks w)(chunk_id \<mapsto> set_dirty slices False)\<rparr>, Ok ())))
                         (put_loop E chunk w)))) w))"

end
