(* ===== verification/Wrbpod_Props.thy ===== *)
theory Wrbpod_Props
  imports Wrbpod
begin

text \<open>
  Properties of wrbpod handles: what a fetched chunk says about its signer whatever the replica
  does, and what a replica that follows the rules of a StackerDB gives back.
\<close>

section \<open>Authentic chunks\<close>

text \<open>What fetching keeps: everything but the clients and the signers, which only the home node gives.\<close>

definition same_pod ::
  "('h, 'r, 'a, 'k, 'p, 's) wrbpod_env \<Rightarrow> ('h, 'r, 'a, 'k) Wrbpod \<Rightarrow> ('h, 'r, 'a, 'k) Wrbpod \<Rightarrow> bool" where
  "same_pod E w w' \<longleftrightarrow> wp_superblock w' = wp_superblock w \<and> wp_chunks w' = wp_chunks w \<and>
     wp_privkey w' = wp_privkey w \<and> wp_superblock_slot_id w' = wp_superblock_slot_id w \<and>
     (wp_signers w' = wp_signers w \<or>
      (\<exists>h h' signers. sd_get_signers (en_home E) h = (h', Ok signers) \<and> wp_signers w' = Some signers))"

lemma same_pod_refl [simp]: "same_pod E w w"
  by (simp add: same_pod_def)

lemma same_pod_trans: "same_pod E w w' \<Longrightarrow> same_pod E w' w'' \<Longrightarrow> same_pod E w w''"
  by (auto simp: same_pod_def)

lemma wbind_Ok_iff: "wbind m f w = (w', Ok y) \<longleftrightarrow> (\<exists>w1 x. m w = (w1, Ok x) \<and> f x w1 = (w', Ok y))"
  by (auto simp: wbind_def split: prod.splits outcome.splits)

definition keeps :: "('h, 'r, 'a, 'k, 'p, 's) wrbpod_env \<Rightarrow> (('h, 'r, 'a, 'k) Wrbpod, 'x) op \<Rightarrow> bool" where
  "keeps E m \<longleftrightarrow> (\<forall>w w' r. m w = (w', r) \<longrightarrow> same_pod E w w')"

named_theorems keeps_intros "operations that change clients and signers only"

lemma keepsD: "keeps E m \<Longrightarrow> m w = (w', r) \<Longrightarrow> same_pod E w w'"
  by (simp add: keeps_def)

lemma keeps_wbind [keeps_intros]: "keeps E m \<Longrightarrow> (\<And>x. keeps E (f x)) \<Longrightarrow> keeps E (wbind m f)"
  unfolding keeps_def wbind_def by (auto split: prod.splits outcome.splits) (metis same_pod_trans)+

lemma keeps_lift [keeps_intros]: "keeps E (lift x)"
  by (simp add: keeps_def lift_def)

lemma keeps_if [keeps_intros]: "(c \<Longrightarrow> keeps E f) \<Longrightarrow> (\<not> c \<Longrightarrow> keeps E g) \<Longrightarrow> keeps E (if c then f else g)"
  by simp

lemma keeps_prod [keeps_intros]: "(\<And>x y. p = (x, y) \<Longrightarrow> keeps E (f x y)) \<Longrightarrow> keeps E (case p of (x, y) \<Rightarrow> f x y)"
  by (cases p) simp

lemma keeps_on_replica [keeps_intros]: "keeps E (on_replica f)"
  by (auto simp: keeps_def on_replica_def same_pod_def split: prod.splits)

lemma keeps_refresh_signers [keeps_intros]: "keeps E (refresh_signers E)"
  by (auto simp: keeps_def refresh_signers_def wbind_def on_home_def same_pod_def split: prod.splits outcome.splits)

lemma keeps_ensure_signers [keeps_intros]: "keeps E (ensure_signers E)"
  using keeps_refresh_signers [of E]
  by (auto simp: keeps_def ensure_signers_def wbind_def lift_def split: if_splits prod.splits outcome.splits)

lemma keeps_signer_at [keeps_intros]: "keeps E (signer_at i)"
  by (simp add: keeps_def signer_at_def)

lemma keeps_list_replica [keeps_intros]: "keeps E (list_replica E)"
  unfolding list_replica_def by (rule keeps_on_replica)

lemma keeps_fetch_status: "keeps E (fetch_status E i b)"
  unfolding fetch_status_def by (intro keeps_intros)

lemma keeps_get_raw_chunk: "keeps E (get_raw_chunk E i h)"
  unfolding get_raw_chunk_def by (intro keeps_intros)

text \<open>
  A chunk of the cache is authentic when it was read from data whose hash is in metadata that
  the signer of the slot has signed.
\<close>

definition authentic :: "('h, 'r, 'a, 'k, 'p, 's) wrbpod_env \<Rightarrow> 'a list \<Rightarrow> u32 \<Rightarrow> u32 \<Rightarrow> WrbpodSlices \<Rightarrow> bool" where
  "authentic E signers chunk_id v s \<longleftrightarrow>
     (\<exists>addr md data. vec_get signers (unat chunk_id) = Some addr \<and> cr_verify (en_crypto E) md addr = Ok True \<and>
        md_slot_version md = v \<and> cr_sha (en_crypto E) data = md_data_hash md \<and>
        slices_from_slice (en_codec E) (en_chunk_max E) data = Ok s)"

lemma fetch_status_verified:
  assumes "fetch_status E chunk_id b w = (w', Ok (Some (md, ok, fresh)))"
  shows "\<exists>signers addr. wp_signers w' = Some signers \<and> vec_get signers (unat chunk_id) = Some addr \<and>
     cr_verify (en_crypto E) md addr = Ok ok"
  using assms
  by (auto simp: fetch_status_def wbind_Ok_iff lift_def signer_at_def verify_slot_def split: if_splits option.splits)

lemma get_chunk_cases:
  assumes "get_chunk E chunk_id h w = (w', r)"
  shows "same_pod E w w' \<and> r \<noteq> Ok () \<or>
    (\<exists>w1 data s. same_pod E w w1 \<and> w' = w1\<lparr>wp_chunks := (wp_chunks w)(chunk_id \<mapsto> s)\<rparr> \<and> r = Ok () \<and> wp_signers w1 = wp_signers w \<and>
       cr_sha (en_crypto E) data = h \<and> slices_from_slice (en_codec E) (en_chunk_max E) data = Ok s)"
proof -
  obtain w1 r1 where raw: "get_raw_chunk E chunk_id h w = (w1, r1)" by fastforce
  note same = keepsD [OF keeps_get_raw_chunk raw]
  have sig: "wp_signers w1 = wp_signers w"
    using raw by (auto simp: get_raw_chunk_def wbind_def on_replica_def lift_def split: prod.splits outcome.splits)
  show ?thesis
  proof (cases r1)
    case (Ok data)
    have "cr_sha (en_crypto E) data = h"
      using raw Ok by (auto simp: get_raw_chunk_def wbind_Ok_iff lift_def split: option.splits if_splits)
    then show ?thesis using assms raw Ok same sig
      by (cases "slices_from_slice (en_codec E) (en_chunk_max E) data")
        (auto simp: get_chunk_def wbind_def lift_def same_pod_def)
  qed (use assms raw same in \<open>auto simp: get_chunk_def wbind_def\<close>)
qed

text \<open>What any run of \<open>fetch_chunk\<close> does to the handle.\<close>

definition fetched ::
  "('h, 'r, 'a, 'k, 'p, 's) wrbpod_env \<Rightarrow> string \<Rightarrow> u32 \<Rightarrow> ('h, 'r, 'a, 'k) Wrbpod \<Rightarrow> ('h, 'r, 'a, 'k) Wrbpod \<Rightarrow>
     (StorageError, u32 \<times> 'p option) outcome \<Rightarrow> bool" where
  "fetched E app_name app_slot_id w w' r \<longleftrightarrow>
     same_pod E w w' \<and> (\<forall>v pk. r = Ok (v, pk) \<longrightarrow> v = 0 \<and> pk = None) \<or>
     (\<exists>w1 chunk_id signers v s. same_pod E w w1 \<and> sb_chunk_id (wp_superblock w) app_name app_slot_id = Some chunk_id \<and>
        w' = w1\<lparr>wp_chunks := (wp_chunks w)(chunk_id \<mapsto> s)\<rparr> \<and> wp_signers w1 = Some signers \<and>
        authentic E signers chunk_id v s \<and> (\<forall>v' pk. r = Ok (v', pk) \<longrightarrow> v' = v \<and> pk \<noteq> None))"

lemma fetch_finish_fetched:
  assumes same: "same_pod E w w1" and id: "sb_chunk_id (wp_superblock w) app_name app_slot_id = Some chunk_id"
    and status: "wp_signers w1 = Some signers" "vec_get signers (unat chunk_id) = Some addr"
      "cr_verify (en_crypto E) md addr = Ok True"
    and fin: "fetch_finish E chunk_id md w1 = (w', r)"
  shows "fetched E app_name app_slot_id w w' r"
proof -
  obtain w2 r2 where get: "get_chunk E chunk_id (md_data_hash md) w1 = (w2, r2)" by fastforce
  from get_chunk_cases [OF get] show ?thesis
  proof (elim disjE exE conjE)
    assume "same_pod E w1 w2" "r2 \<noteq> Ok ()"
    then have "same_pod E w w'" "\<forall>x. r \<noteq> Ok x"
      using fin get same_pod_trans [OF same] by (auto simp: fetch_finish_def wbind_def split: outcome.splits)
    then show ?thesis by (simp add: fetched_def)
  next
    fix w3 data s
    assume 3: "same_pod E w1 w3" "w2 = w3\<lparr>wp_chunks := (wp_chunks w1)(chunk_id \<mapsto> s)\<rparr>" "r2 = Ok ()" "wp_signers w3 = wp_signers w1"
      "cr_sha (en_crypto E) data = md_data_hash md" "slices_from_slice (en_codec E) (en_chunk_max E) data = Ok s"
    have w': "w' = w2" and r: "\<forall>v pk. r = Ok (v, pk) \<longrightarrow> v = md_slot_version md \<and> pk \<noteq> None"
      using fin get 3(3) by (auto simp: fetch_finish_def wbind_def lift_def split: option.splits)
    have "authentic E signers chunk_id (md_slot_version md) s" using status 3(5,6) by (auto simp: authentic_def)
    moreover have "wp_chunks w1 = wp_chunks w" using same by (simp add: same_pod_def)
    ultimately show ?thesis using same_pod_trans [OF same 3(1)] id 3 status(1) w' r unfolding fetched_def
      by (intro disjI2 exI [where x = w3] exI [where x = chunk_id] exI [where x = signers] exI [where x = "md_slot_version md"] exI [where x = s]) simp
  qed
qed

lemma fetched_trans:
  assumes same: "same_pod E w w1" and "fetched E app_name app_slot_id w1 w' r"
  shows "fetched E app_name app_slot_id w w' r"
proof -
  have "wp_superblock w1 = wp_superblock w" "wp_chunks w1 = wp_chunks w" using same by (simp_all add: same_pod_def)
  then show ?thesis using assms(2) same_pod_trans [OF same] unfolding fetched_def by metis
qed

lemma status_cases [case_names failed empty good bad stale]:
  obtains "\<forall>x. r \<noteq> Ok x" | "r = Ok None" | md fresh where "r = Ok (Some (md, True, fresh))"
    | md where "r = Ok (Some (md, False, True))" | md where "r = Ok (Some (md, False, False))"
proof (cases "\<exists>md ok fresh. r = Ok (Some (md, ok, fresh))")
  case True
  then obtain md ok fresh where "r = Ok (Some (md, ok, fresh))" by blast
  then show thesis using that(3-5) by (cases ok; cases fresh) blast+
next
  case False
  then have "r = Ok None \<or> (\<forall>x. r \<noteq> Ok x)" by (metis not_None_eq prod_cases3)
  then show thesis using that(1,2) by blast
qed

lemma fetch_loop_fetched:
  "fetch_loop E app_name app_slot_id b w = (w', r) \<Longrightarrow> fetched E app_name app_slot_id w w' r"
proof (induction E app_name app_slot_id b w rule: fetch_loop.induct)
  case (1 E app_name app_slot_id b w)
  show ?case
  proof (cases "sb_chunk_id (wp_superblock w) app_name app_slot_id")
    case None
    then show ?thesis using 1(2) by (auto simp: fetch_loop.simps fetched_def)
  next
    case (Some chunk_id)
    obtain w1 r1 where st: "fetch_status E chunk_id b w = (w1, r1)" by fastforce
    note same = keepsD [OF keeps_fetch_status st]
    show ?thesis
    proof (cases r1 rule: status_cases)
      case (good md fresh)
      then have "fetch_finish E chunk_id md w1 = (w', r)" using 1(2) Some st by (simp add: fetch_loop.simps)
      then show ?thesis using fetch_finish_fetched [OF same Some] fetch_status_verified [OF st [unfolded good]] by blast
    next
      case (stale md)
      obtain w2 r2 where re: "refresh_signers E w1 = (w2, r2)" by fastforce
      note same2 = same_pod_trans [OF same keepsD [OF keeps_refresh_signers re]]
      show ?thesis
      proof (cases r2)
        case (Ok u)
        then have "fetch_loop E app_name app_slot_id True w2 = (w', r)"
          using 1(2) Some st stale re by (simp add: fetch_loop.simps [of E _ _ b])
        then have "fetched E app_name app_slot_id w2 w' r"
          using 1(1) [OF Some st [symmetric] stale refl refl refl] re Ok by simp
        then show ?thesis by (rule fetched_trans [OF same2])
      qed (use 1(2) Some st stale re same2 in \<open>auto simp: fetch_loop.simps [of E _ _ b] fetched_def\<close>)
    qed (use 1(2) Some st same in \<open>auto simp: fetch_loop.simps [of E _ _ b] fetched_def split: outcome.splits\<close>)
  qed
qed

section \<open>A replica that follows the rules\<close>

definition chunk_md :: "('a, 'k, 'p, 's) crypto \<Rightarrow> 's StackerDBChunkData \<Rightarrow> 's SlotMetadata" where
  "chunk_md K ch = \<lparr>md_slot_id = ch_slot_id ch, md_slot_version = ch_slot_version ch, md_data_hash = cr_sha K (ch_data ch),
     md_signature = ch_sig ch\<rparr>"

text \<open>
  What is relied on of the signatures: signing never fails, a signed chunk verifies under every
  address of its signer, the signer's key can be recovered, and an address made of a hash has
  that hash. Nothing is asked of the hash of data.
\<close>

definition crypto_ok :: "('a, 'k, 'p, 's) crypto \<Rightarrow> bool" where
  "crypto_ok K \<longleftrightarrow>
     (\<forall>k ch. \<exists>ch'. sign_chunk K k ch = Some ch' \<and>
        (\<forall>a. cr_bytes K a = cr_bytes K (cr_address K k) \<longrightarrow> cr_verify K (chunk_md K ch') a = Ok True) \<and>
        (\<exists>pk. cr_recover K (chunk_auth_digest K (ch_slot_id ch) (ch_slot_version ch) (cr_sha K (ch_data ch))) (ch_sig ch') = Some pk)) \<and>
     (\<forall>v h. length h = 20 \<longrightarrow> (\<exists>a. cr_new_address K v h = Some a \<and> cr_bytes K a = h))"

text \<open>An environment with this replica.\<close>

definition served :: "('r, 'a, 's) stackerdb_client \<Rightarrow> ('a, 'k, 'p, 's) crypto \<Rightarrow> ('h, 'r, 'a, 'k, 'p, 's) wrbpod_env \<Rightarrow> bool" where
  "served R K E \<longleftrightarrow> en_replica E = R \<and> en_crypto E = K \<and> crypto_ok K"

text \<open>A row that the key has written: it verifies, its key can be recovered, and it holds the data.\<close>

definition wrote :: "('a, 'k, 'p, 's) crypto \<Rightarrow> 'k \<Rightarrow> u32 \<Rightarrow> bytes \<Rightarrow> 's SlotMetadata \<times> bytes \<Rightarrow> bool" where
  "wrote K k i data r \<longleftrightarrow> snd r = data \<and> md_data_hash (fst r) = cr_sha K data \<and> \<not> md_is_empty (fst r) \<and>
     (\<forall>a. cr_bytes K a = cr_bytes K (cr_address K k) \<longrightarrow> cr_verify K (fst r) a = Ok True) \<and>
     (\<exists>pk. cr_recover K (chunk_auth_digest K i (md_slot_version (fst r)) (md_data_hash (fst r))) (md_signature (fst r)) = Some pk)"

locale stackerdb =
  fixes R :: "('r, 'a, 's) stackerdb_client"
    and K :: "('a, 'k, 'p, 's) crypto"
    and ok :: "'r \<Rightarrow> bool"
    and rows :: "'r \<Rightarrow> ('s SlotMetadata \<times> bytes) list"
    and owner :: "'r \<Rightarrow> nat \<Rightarrow> Hash160"
  assumes list_law: "ok c \<Longrightarrow> sd_list_chunks R c = (c, Ok (map fst (rows c)))"
    and latest_law: "ok c \<Longrightarrow> unat i < length (rows c) \<Longrightarrow> \<not> md_is_empty (fst (rows c ! unat i)) \<Longrightarrow>
      sd_get_latest_chunks R c [i] = (c, Ok [Some (snd (rows c ! unat i))])"
    and put_new: "ok c \<Longrightarrow> unat (ch_slot_id ch) < length (rows c) \<Longrightarrow>
      md_is_empty (fst (rows c ! unat (ch_slot_id ch))) \<or> md_slot_version (fst (rows c ! unat (ch_slot_id ch))) < ch_slot_version ch \<Longrightarrow>
      (\<And>a. cr_bytes K a = owner c (unat (ch_slot_id ch)) \<Longrightarrow> cr_verify K (chunk_md K ch) a = Ok True) \<Longrightarrow>
      \<exists>c' ack. sd_put_chunk R c ch = (c', Ok ack) \<and> ak_accepted ack \<and> ok c' \<and> owner c' = owner c \<and>
        rows c' = (rows c)[unat (ch_slot_id ch) := (chunk_md K ch, ch_data ch)]"
    and put_old: "ok c \<Longrightarrow> unat (ch_slot_id ch) < length (rows c) \<Longrightarrow>
      \<not> md_is_empty (fst (rows c ! unat (ch_slot_id ch))) \<Longrightarrow>
      ch_slot_version ch \<le> md_slot_version (fst (rows c ! unat (ch_slot_id ch))) \<Longrightarrow>
      \<exists>ack. sd_put_chunk R c ch = (c, Ok ack) \<and> \<not> ak_accepted ack \<and> ak_metadata ack = Some (fst (rows c ! unat (ch_slot_id ch)))"
begin

lemma signed:
  assumes "served R K E"
  obtains s where "sign_chunk K k ch = Some (ch\<lparr>ch_sig := s\<rparr>)"
    "\<And>a. cr_bytes K a = cr_bytes K (cr_address K k) \<Longrightarrow> cr_verify K (chunk_md K (ch\<lparr>ch_sig := s\<rparr>)) a = Ok True"
    "\<exists>pk. cr_recover K (chunk_auth_digest K (ch_slot_id ch) (ch_slot_version ch) (cr_sha K (ch_data ch))) s = Some pk"
proof -
  obtain ch' where ch': "sign_chunk K k ch = Some ch'"
    "\<forall>a. cr_bytes K a = cr_bytes K (cr_address K k) \<longrightarrow> cr_verify K (chunk_md K ch') a = Ok True"
    "\<exists>pk. cr_recover K (chunk_auth_digest K (ch_slot_id ch) (ch_slot_version ch) (cr_sha K (ch_data ch))) (ch_sig ch') = Some pk"
    using assms unfolding served_def crypto_ok_def by blast
  have "ch' = ch\<lparr>ch_sig := ch_sig ch'\<rparr>" using ch'(1) by (auto simp: sign_chunk_def)
  then show thesis using that [of "ch_sig ch'"] ch' by metis
qed

text \<open>Saving a chunk with a key that owns the slot: accepted at once, or after one refusal.\<close>

lemma put_loop_accepted:
  assumes E: "served R K E" and w: "ok (wp_replica w)" and i: "unat (ch_slot_id ch) < length (rows (wp_replica w))"
    and own: "owner (wp_replica w) (unat (ch_slot_id ch)) = cr_bytes K (cr_address K (wp_privkey w))"
    and fresh: "md_is_empty (fst (rows (wp_replica w) ! unat (ch_slot_id ch))) \<or>
      md_slot_version (fst (rows (wp_replica w) ! unat (ch_slot_id ch))) < ch_slot_version ch"
    and full: "ch_slot_version ch \<noteq> 0 \<or> cr_sha K (ch_data ch) \<noteq> ZERO_HASH"
  shows "\<exists>c r. put_loop E ch w = Some (w\<lparr>wp_replica := c\<rparr>, Ok ()) \<and> ok c \<and> owner c = owner (wp_replica w) \<and>
     rows c = (rows (wp_replica w))[unat (ch_slot_id ch) := r] \<and> wrote K (wp_privkey w) (ch_slot_id ch) (ch_data ch) r \<and>
     md_slot_version (fst r) = ch_slot_version ch"
proof -
  obtain s where s: "sign_chunk K (wp_privkey w) ch = Some (ch\<lparr>ch_sig := s\<rparr>)"
    "\<And>a. cr_bytes K a = cr_bytes K (cr_address K (wp_privkey w)) \<Longrightarrow> cr_verify K (chunk_md K (ch\<lparr>ch_sig := s\<rparr>)) a = Ok True"
    "\<exists>pk. cr_recover K (chunk_auth_digest K (ch_slot_id ch) (ch_slot_version ch) (cr_sha K (ch_data ch))) s = Some pk"
    by (rule signed [OF E]) blast
  obtain c ack where c: "sd_put_chunk R (wp_replica w) (ch\<lparr>ch_sig := s\<rparr>) = (c, Ok ack)" "ak_accepted ack" "ok c"
    "owner c = owner (wp_replica w)"
    "rows c = (rows (wp_replica w))[unat (ch_slot_id ch) := (chunk_md K (ch\<lparr>ch_sig := s\<rparr>), ch_data ch)]"
    using put_new [OF w, of "ch\<lparr>ch_sig := s\<rparr>"] i fresh s(2) own by auto
  have "wrote K (wp_privkey w) (ch_slot_id ch) (ch_data ch) (chunk_md K (ch\<lparr>ch_sig := s\<rparr>), ch_data ch)"
    using s full by (auto simp: wrote_def chunk_md_def md_is_empty_def)
  moreover have "put_loop E ch w = Some (w\<lparr>wp_replica := c\<rparr>, Ok ())"
    using E s(1) c(1,2) by (subst put_loop.simps) (simp add: served_def on_replica_def)
  ultimately show ?thesis using c
    by (intro exI [where x = c] exI [where x = "(chunk_md K (ch\<lparr>ch_sig := s\<rparr>), ch_data ch)"]) (simp add: chunk_md_def)
qed

lemma sync_slot_saves:
  assumes E: "served R K E" and w: "ok (wp_replica w)" and id: "sb_chunk_id (wp_superblock w) app_name app_slot_id = Some i"
    and slices: "wp_chunks w i = Some s" and ser: "serialize_to_vec (slices_serialize (en_codec E) s) = Some data"
    and i: "unat i < length (rows (wp_replica w))" and version: "md_slot_version (fst (rows (wp_replica w) ! unat i)) \<noteq> - 1"
    and own: "owner (wp_replica w) (unat i) = cr_bytes K (cr_address K (wp_privkey w))"
  shows "\<exists>c r. sync_slot E app_name app_slot_id w =
       Some (w\<lparr>wp_replica := c, wp_chunks := (wp_chunks w)(i \<mapsto> set_dirty s False)\<rparr>, Ok ()) \<and>
     ok c \<and> owner c = owner (wp_replica w) \<and> rows c = (rows (wp_replica w))[unat i := r] \<and> wrote K (wp_privkey w) i data r"
proof -
  let ?v = "md_slot_version (fst (rows (wp_replica w) ! unat i))"
  have nv: "next_version ?v = Some (?v + 1)" using version by (simp add: next_version_def)
  let ?ch = "chunk_new K i (?v + 1) data"
  have ch: "ch_slot_id ?ch = i" "ch_slot_version ?ch = ?v + 1" "ch_data ?ch = data" by (simp_all add: chunk_new_def)
  have "?v + 1 \<noteq> 0" using version by (simp add: eq_neg_iff_add_eq_0)
  obtain c r where c: "put_loop E ?ch w = Some (w\<lparr>wp_replica := c\<rparr>, Ok ())" "ok c" "owner c = owner (wp_replica w)"
    "rows c = (rows (wp_replica w))[unat i := r]" "wrote K (wp_privkey w) i data r"
    using put_loop_accepted [OF E w, of ?ch] i own less_next_version [OF nv] \<open>?v + 1 \<noteq> 0\<close> unfolding ch by blast
  have "list_replica E w = (w, Ok (map fst (rows (wp_replica w))))"
    using E list_law [OF w] by (simp add: list_replica_def on_replica_def served_def)
  then have "sync_slot E app_name app_slot_id w =
      Some (w\<lparr>wp_replica := c, wp_chunks := (wp_chunks w)(i \<mapsto> set_dirty s False)\<rparr>, Ok ())"
    using E id slices ser i nv c(1)
    by (simp add: sync_slot_def then_loop_def vec_get_def to_stackerdb_chunk_def served_def)
  then show ?thesis using c by blast
qed

lemma fetch_chunk_loads:
  assumes E: "served R K E" and w: "ok (wp_replica w)" and id: "sb_chunk_id (wp_superblock w) app_name app_slot_id = Some i"
    and i: "unat i < length (rows (wp_replica w))" and r: "wrote K k i data (rows (wp_replica w) ! unat i)"
    and signers: "wp_signers w = Some signers" "unat i < length signers" "cr_bytes K (signers ! unat i) = cr_bytes K (cr_address K k)"
    and s: "slices_from_slice (en_codec E) (en_chunk_max E) data = Ok s"
  shows "\<exists>v pk. fetch_chunk E app_name app_slot_id w = (w\<lparr>wp_chunks := (wp_chunks w)(i \<mapsto> s)\<rparr>, Ok (v, Some pk))"
proof -
  let ?md = "fst (rows (wp_replica w) ! unat i)"
  have md: "snd (rows (wp_replica w) ! unat i) = data" "md_data_hash ?md = cr_sha K data" "\<not> md_is_empty ?md"
    "cr_verify K ?md (signers ! unat i) = Ok True"
    using r signers(3) by (simp_all add: wrote_def)
  obtain pk where pk: "cr_recover K (chunk_auth_digest K i (md_slot_version ?md) (md_data_hash ?md)) (md_signature ?md) = Some pk"
    using r by (auto simp: wrote_def)
  have E': "en_replica E = R" "en_crypto E = K" using E by (simp_all add: served_def)
  have "fetch_status E i False w = (w, Ok (Some (?md, True, False)))"
    using list_law [OF w] i signers(1,2) md(3,4)
    by (simp add: fetch_status_def wbind_def lift_def list_replica_def on_replica_def E' vec_get_def ensure_signers_def
        signer_at_def verify_slot_def)
  moreover have "get_raw_chunk E i (md_data_hash ?md) w = (w, Ok data)"
    using latest_law [OF w i md(3)] md(1,2)
    by (simp add: get_raw_chunk_def wbind_def lift_def on_replica_def E' vec_get_def)
  then have "fetch_finish E i ?md w = (w\<lparr>wp_chunks := (wp_chunks w)(i \<mapsto> s)\<rparr>, Ok (md_slot_version ?md, Some pk))"
    using s pk by (simp add: fetch_finish_def get_chunk_def wbind_def lift_def E')
  ultimately show ?thesis using id by (simp add: fetch_chunk_def fetch_loop.simps)
qed

end

section \<open>The local client follows the rules\<close>

definition local_row :: "'s LocalStackerDBChunk \<Rightarrow> 's SlotMetadata \<times> bytes" where
  "local_row r = (row_metadata r, lc_data r)"

definition local_ok :: "('a, 'k, 'p, 's) crypto \<Rightarrow> 's LocalStackerDB \<Rightarrow> bool" where
  "local_ok K db \<longleftrightarrow> crypto_ok K \<and> length (ld_chunks db) \<le> 2 ^ 32 \<and>
     (\<forall>i < length (ld_chunks db). lc_slot_id (ld_chunks db ! i) = word_of_nat i \<and> length (lc_pubkh (ld_chunks db ! i)) = 20 \<and>
        (md_is_empty (row_metadata (ld_chunks db ! i)) \<or> stored_sig_ok K (ld_chunks db ! i) = Some True)) \<and>
     (\<exists>config. ld_config db = Some config \<and> length (ld_chunks db) \<le> unat (lf_max_slots config))"

definition local_rows :: "'s LocalStackerDB \<Rightarrow> ('s SlotMetadata \<times> bytes) list" where
  "local_rows db = map local_row (ld_chunks db)"

definition local_owner :: "'s LocalStackerDB \<Rightarrow> nat \<Rightarrow> Hash160" where
  "local_owner db i = (if i < length (ld_chunks db) then lc_pubkh (ld_chunks db ! i) else [])"

lemma local_slot_id:
  assumes "local_ok K db" and "j < length (ld_chunks db)"
  shows "lc_slot_id (ld_chunks db ! j) = i \<longleftrightarrow> j = unat i"
proof -
  have "unat (lc_slot_id (ld_chunks db ! j)) = j" using assms by (auto simp: local_ok_def unat_of_nat)
  then show ?thesis by (metis word_unat_eq_iff)
qed

lemma local_find:
  assumes "local_ok K db" and "unat i < length (ld_chunks db)"
  shows "find (\<lambda>r. lc_slot_id r = i) (ld_chunks db) = Some (ld_chunks db ! unat i)"
proof -
  have "\<forall>j < unat i. lc_slot_id (ld_chunks db ! j) \<noteq> i"
    using local_slot_id [OF assms(1)] assms(2) by auto
  then show ?thesis using assms(2) local_slot_id [OF assms] unfolding find_Some_iff by blast
qed

lemma hide_empty_row:
  assumes "local_ok K db" and i: "unat i < length (ld_chunks db)"
  shows "hide_empty db i x = (if md_is_empty (row_metadata (ld_chunks db ! unat i)) then None else x)"
proof -
  let ?mds = "map (\<lambda>md. (md_slot_id md, md)) (rev (inner_list_chunks db))"
  note id = local_slot_id [OF assms(1)]
  have "distinct (map lc_slot_id (ld_chunks db))"
    unfolding distinct_conv_nth by (metis id length_map nth_map)
  then have "distinct (map fst ?mds)"
    by (simp add: inner_list_chunks_def rev_map [symmetric] comp_def row_metadata_def)
  moreover have "(i, row_metadata (ld_chunks db ! unat i)) \<in> set ?mds"
  proof -
    have "md_slot_id (row_metadata (ld_chunks db ! unat i)) = i"
      using id [OF i, of i] by (simp add: row_metadata_def)
    then show ?thesis using i by (force simp: inner_list_chunks_def)
  qed
  ultimately have "map_of ?mds i = Some (row_metadata (ld_chunks db ! unat i))" by (rule map_of_is_SomeI)
  then show ?thesis by (simp add: hide_empty_def)
qed

lemma local_put_rows:
  assumes "local_ok K db" and i: "unat (ch_slot_id ch) < length (ld_chunks db)"
  shows "map (put_row K ch) (ld_chunks db) = (ld_chunks db)[unat (ch_slot_id ch) := put_row K ch (ld_chunks db ! unat (ch_slot_id ch))]"
proof (rule nth_equalityI)
  fix j assume "j < length (map (put_row K ch) (ld_chunks db))"
  moreover have "j < length (ld_chunks db) \<Longrightarrow> lc_slot_id (ld_chunks db ! j) = ch_slot_id ch \<longleftrightarrow> j = unat (ch_slot_id ch)"
    using local_slot_id [OF assms(1)] by blast
  ultimately show "map (put_row K ch) (ld_chunks db) ! j =
      (ld_chunks db)[unat (ch_slot_id ch) := put_row K ch (ld_chunks db ! unat (ch_slot_id ch))] ! j"
    by (auto simp: nth_list_update put_row_def)
qed simp

lemma local_put_db_ok:
  assumes ok: "local_ok K db" and i: "unat (ch_slot_id ch) < length (ld_chunks db)"
    and sig: "\<And>a. cr_bytes K a = local_owner db (unat (ch_slot_id ch)) \<Longrightarrow> cr_verify K (chunk_md K ch) a = Ok True"
  shows "local_ok K (db\<lparr>ld_chunks := map (put_row K ch) (ld_chunks db)\<rparr>)"
    and "local_owner (db\<lparr>ld_chunks := map (put_row K ch) (ld_chunks db)\<rparr>) = local_owner db"
    and "local_rows (db\<lparr>ld_chunks := map (put_row K ch) (ld_chunks db)\<rparr>) = (local_rows db)[unat (ch_slot_id ch) := (chunk_md K ch, ch_data ch)]"
proof -
  let ?i = "unat (ch_slot_id ch)"
  let ?r = "put_row K ch (ld_chunks db ! ?i)"
  have eq: "lc_slot_id (ld_chunks db ! ?i) = ch_slot_id ch" using local_slot_id [OF ok i] by simp
  have r: "lc_slot_id ?r = ch_slot_id ch" "lc_pubkh ?r = lc_pubkh (ld_chunks db ! ?i)" "row_metadata ?r = chunk_md K ch" "lc_data ?r = ch_data ch"
    using eq by (simp_all add: put_row_def row_metadata_def chunk_md_def)
  have len: "length (lc_pubkh (ld_chunks db ! ?i)) = 20" using ok i by (simp add: local_ok_def)
  then obtain a where a: "cr_new_address K 0 (lc_pubkh ?r) = Some a" "cr_bytes K a = lc_pubkh (ld_chunks db ! ?i)"
    using ok r(2) unfolding local_ok_def crypto_ok_def by metis
  then have "stored_sig_ok K ?r = Some True"
    using sig [of a] i r(3) by (simp add: stored_sig_ok_def local_owner_def)
  then show "local_ok K (db\<lparr>ld_chunks := map (put_row K ch) (ld_chunks db)\<rparr>)"
    using ok r(1,2) len i unfolding local_put_rows [OF ok i]
    by (auto simp: local_ok_def nth_list_update)
  show "local_owner (db\<lparr>ld_chunks := map (put_row K ch) (ld_chunks db)\<rparr>) = local_owner db"
    by (auto simp: local_owner_def put_row_def fun_eq_iff)
  show "local_rows (db\<lparr>ld_chunks := map (put_row K ch) (ld_chunks db)\<rparr>) = (local_rows db)[?i := (chunk_md K ch, ch_data ch)]"
    using r(3,4) unfolding local_put_rows [OF ok i] by (simp add: local_rows_def local_row_def map_update)
qed

lemma local_put_cases:
  assumes ok: "local_ok K db" and i: "unat (ch_slot_id ch) < length (ld_chunks db)"
  shows "local_put_chunk K db ch =
     (let md = row_metadata (ld_chunks db ! unat (ch_slot_id ch)) in
      if \<not> md_is_empty md \<and> ch_slot_version ch \<le> md_slot_version md then (db, Ok (refuse ''version too old'' (Some md) 0))
      else (db\<lparr>ld_chunks := map (put_row K ch) (ld_chunks db)\<rparr>,
            Ok \<lparr>ak_accepted = True, ak_reason = None, ak_metadata = None, ak_code = None\<rparr>))"
proof -
  obtain config where config: "ld_config db = Some config" "length (ld_chunks db) \<le> unat (lf_max_slots config)"
    using ok by (auto simp: local_ok_def)
  have "\<not> lf_max_slots config \<le> ch_slot_id ch" using config(2) i by (simp add: word_le_nat_alt)
  moreover have "md_is_empty (row_metadata (ld_chunks db ! unat (ch_slot_id ch))) \<or> stored_sig_ok K (ld_chunks db ! unat (ch_slot_id ch)) = Some True"
    using ok i by (auto simp: local_ok_def)
  ultimately show ?thesis using config local_find [OF ok i]
    by (auto simp: local_put_chunk_def inner_get_config_def Let_def)
qed

interpretation local_db: stackerdb "local_client K mv tv" K "local_ok K" local_rows local_owner
  for K :: "('a, 'k, 'p, 's) crypto" and mv tv :: u8
proof
  fix c :: "'s LocalStackerDB" assume ok: "local_ok K c"
  show "sd_list_chunks (local_client K mv tv) c = (c, Ok (map fst (local_rows c)))"
    using ok by (auto simp: local_ok_def local_client_def local_list_chunks_def inner_get_config_def inner_list_chunks_def
        local_rows_def local_row_def)
  show "sd_get_latest_chunks (local_client K mv tv) c [i] = (c, Ok [Some (snd (local_rows c ! unat i))])"
    if "unat i < length (local_rows c)" "\<not> md_is_empty (fst (local_rows c ! unat i))" for i
    using that ok hide_empty_row [OF ok, of i] local_find [OF ok, of i]
    by (auto simp: local_client_def local_get_latest_chunks_def inner_get_config_def local_ok_def local_rows_def local_row_def)
  fix ch :: "'s StackerDBChunkData" assume "unat (ch_slot_id ch) < length (local_rows c)"
  then have i: "unat (ch_slot_id ch) < length (ld_chunks c)" by (simp add: local_rows_def)
  note put = local_put_cases [OF ok i]
  have md: "fst (local_rows c ! unat (ch_slot_id ch)) = row_metadata (ld_chunks c ! unat (ch_slot_id ch))"
    using i by (simp add: local_rows_def local_row_def)
  show "\<exists>c' ack. sd_put_chunk (local_client K mv tv) c ch = (c', Ok ack) \<and> ak_accepted ack \<and> local_ok K c' \<and>
      local_owner c' = local_owner c \<and> local_rows c' = (local_rows c)[unat (ch_slot_id ch) := (chunk_md K ch, ch_data ch)]"
    if "md_is_empty (fst (local_rows c ! unat (ch_slot_id ch))) \<or> md_slot_version (fst (local_rows c ! unat (ch_slot_id ch))) < ch_slot_version ch"
      "\<And>a. cr_bytes K a = local_owner c (unat (ch_slot_id ch)) \<Longrightarrow> cr_verify K (chunk_md K ch) a = Ok True"
    using that(1) put local_put_db_ok [OF ok i that(2)] unfolding md
    by (auto simp: local_client_def Let_def not_le)
  show "\<exists>ack. sd_put_chunk (local_client K mv tv) c ch = (c, Ok ack) \<and> \<not> ak_accepted ack \<and>
      ak_metadata ack = Some (fst (local_rows c ! unat (ch_slot_id ch)))"
    if "\<not> md_is_empty (fst (local_rows c ! unat (ch_slot_id ch)))"
      "ch_slot_version ch \<le> md_slot_version (fst (local_rows c ! unat (ch_slot_id ch)))"
    using that put unfolding md by (simp add: local_client_def Let_def refuse_def)
qed

end
