(* ===== verification/Wrbpod_Store.thy ===== *)
theory Wrbpod_Store
  imports Wrbpod_Props
begin

text \<open>
  Saving and loading through a replica that follows the rules: slots of an app, and the superblock
  itself; and when saving never comes back.
\<close>

section \<open>The superblock\<close>

context stackerdb
begin

lemma list_replica_rows: "served R K E \<Longrightarrow> ok (wp_replica w) \<Longrightarrow> list_replica E w = (w, Ok (map fst (rows (wp_replica w))))"
  using list_law by (simp add: list_replica_def on_replica_def served_def)

lemma upload_loop_fresh:
  assumes E: "served R K E" and w: "ok (wp_replica w)" and i: "unat i < length (rows (wp_replica w))" and id: "wp_superblock_slot_id w = i"
    and own: "owner (wp_replica w) (unat i) = cr_bytes K (cr_address K (wp_privkey w))"
    and fresh: "md_is_empty (fst (rows (wp_replica w) ! unat i)) \<or> md_slot_version (fst (rows (wp_replica w) ! unat i)) < v"
    and full: "cr_sha K data \<noteq> ZERO_HASH"
  shows "\<exists>c r. upload_loop E data v w = Some (w\<lparr>wp_replica := c\<rparr>, Ok ()) \<and> ok c \<and> owner c = owner (wp_replica w) \<and>
     rows c = (rows (wp_replica w))[unat i := r] \<and> wrote K (wp_privkey w) i data r"
proof -
  let ?ch = "chunk_new K i v data"
  have ch: "ch_slot_id ?ch = i" "ch_slot_version ?ch = v" "ch_data ?ch = data" by (simp_all add: chunk_new_def)
  obtain c r where c: "put_loop E ?ch w = Some (w\<lparr>wp_replica := c\<rparr>, Ok ())" "ok c" "owner c = owner (wp_replica w)"
    "rows c = (rows (wp_replica w))[unat i := r]" "wrote K (wp_privkey w) i data r"
    using put_loop_accepted [OF E w, of ?ch] i own fresh full unfolding ch by blast
  obtain s where s: "sign_chunk K (wp_privkey w) ?ch = Some (?ch\<lparr>ch_sig := s\<rparr>)"
    "\<And>a. cr_bytes K a = cr_bytes K (cr_address K (wp_privkey w)) \<Longrightarrow> cr_verify K (chunk_md K (?ch\<lparr>ch_sig := s\<rparr>)) a = Ok True"
    by (rule signed [OF E]) blast
  obtain c' ack where c': "sd_put_chunk R (wp_replica w) (?ch\<lparr>ch_sig := s\<rparr>) = (c', Ok ack)" "ak_accepted ack"
    using put_new [OF w, of "?ch\<lparr>ch_sig := s\<rparr>"] i fresh s(2) own ch by auto
  have "put_loop E ?ch w = Some (w\<lparr>wp_replica := c'\<rparr>, Ok ())" "upload_loop E data v w = Some (w\<lparr>wp_replica := c'\<rparr>, Ok ())"
    using E s(1) c' id by (subst put_loop.simps upload_loop.simps; simp add: served_def on_replica_def)+
  then show ?thesis using c by metis
qed

lemma upload_loop_stale:
  assumes E: "served R K E" and w: "ok (wp_replica w)" and i: "unat i < length (rows (wp_replica w))" and id: "wp_superblock_slot_id w = i"
    and stale: "\<not> md_is_empty (fst (rows (wp_replica w) ! unat i))" "v \<le> md_slot_version (fst (rows (wp_replica w) ! unat i))"
    and nv: "next_version (md_slot_version (fst (rows (wp_replica w) ! unat i))) = Some v'"
  shows "upload_loop E data v w = upload_loop E data v' w"
proof -
  obtain s where s: "sign_chunk K (wp_privkey w) (chunk_new K i v data) = Some ((chunk_new K i v data)\<lparr>ch_sig := s\<rparr>)"
    by (rule signed [OF E]) blast
  obtain ack where ack: "sd_put_chunk R (wp_replica w) ((chunk_new K i v data)\<lparr>ch_sig := s\<rparr>) = (wp_replica w, Ok ack)"
    "\<not> ak_accepted ack" "ak_metadata ack = Some (fst (rows (wp_replica w) ! unat i))"
    using put_old [OF w, of "(chunk_new K i v data)\<lparr>ch_sig := s\<rparr>"] i stale by (auto simp: chunk_new_def)
  show ?thesis using E s id ack nv
    by (subst upload_loop.simps) (simp add: served_def on_replica_def)
qed

lemma upload_superblock_saves:
  assumes E: "served R K E" and w: "ok (wp_replica w)" and i: "unat i < length (rows (wp_replica w))" and id: "wp_superblock_slot_id w = i"
    and own: "owner (wp_replica w) (unat i) = cr_bytes K (cr_address K (wp_privkey w))"
    and version: "md_slot_version (fst (rows (wp_replica w) ! unat i)) \<noteq> - 1"
    and data: "serialize_to_vec (sb_serialize (en_codec E) (wp_superblock w)) = Some data" and full: "cr_sha K data \<noteq> ZERO_HASH"
  shows "\<exists>c r. upload_superblock E w = Some (w\<lparr>wp_replica := c\<rparr>, Ok ()) \<and> ok c \<and> owner c = owner (wp_replica w) \<and>
     rows c = (rows (wp_replica w))[unat i := r] \<and> wrote K (wp_privkey w) i data r"
proof -
  let ?md = "fst (rows (wp_replica w) ! unat i)"
  have "upload_superblock E w = upload_loop E data (md_slot_version ?md) w"
    using list_replica_rows [OF E w] i id data
    by (simp add: upload_superblock_def then_loop_def lift_def vec_get_def superblock_slot_index_def)
  moreover have "\<exists>v. upload_loop E data (md_slot_version ?md) w = upload_loop E data v w \<and> (md_is_empty ?md \<or> md_slot_version ?md < v)"
  proof (cases "md_is_empty ?md")
    case False
    have nv: "next_version (md_slot_version ?md) = Some (md_slot_version ?md + 1)" using version by (simp add: next_version_def)
    show ?thesis using upload_loop_stale [OF E w i id False _ nv] less_next_version [OF nv] by blast
  qed blast
  ultimately show ?thesis using upload_loop_fresh [OF E w i id own _ full] by metis
qed

text \<open>Only the wrbpod whose superblock is in slot 0 finds it again.\<close>

lemma download_superblock_reads:
  assumes E: "served R K E" and w: "ok (wp_replica w)" and i: "unat i < length (rows (wp_replica w))" and id: "wp_superblock_slot_id w = i"
    and r: "wrote K k i data (rows (wp_replica w) ! unat i)"
    and signers: "wp_signers w = Some signers" "unat i < length signers" "cr_bytes K (signers ! unat i) = cr_bytes K (cr_address K k)"
    and sb: "sb_deserialize (en_codec E) data = Ok (sb, [])"
  shows "download_superblock E w = (if i = 0 then (w\<lparr>wp_superblock := sb\<rparr>, Ok ()) else (w, Err NoSuchChunk))"
proof -
  let ?md = "fst (rows (wp_replica w) ! unat i)"
  have md: "snd (rows (wp_replica w) ! unat i) = data" "md_data_hash ?md = cr_sha K data" "\<not> md_is_empty ?md"
    "cr_verify K ?md (signers ! unat i) = Ok True"
    using r signers(3) by (simp_all add: wrote_def)
  have E': "en_replica E = R" "en_crypto E = K" using E by (simp_all add: served_def)
  have "load_superblock E ?md w = (if i = 0 then (w\<lparr>wp_superblock := sb\<rparr>, Ok ()) else (w, Err NoSuchChunk))"
    using latest_law [OF w i md(3)] md(1,2) sb id
    by (auto simp: load_superblock_def wbind_def lift_def on_replica_def E' vec_get_def superblock_slot_index_def unat_eq_zero)
  then show ?thesis using list_replica_rows [OF E w] i id signers(1,2) md(3,4)
    by (simp add: download_superblock_def wbind_def lift_def vec_get_def superblock_slot_index_def ensure_signers_def
        signer_at_def verify_slot_def E')
qed

end



section \<open>Properties\<close>

text \<open>
  C6. Fetched chunks are authentic. Whatever the replica answers and however the call ends,
  fetching a chunk leaves the superblock alone, and the signers are the cached ones or come
  from the home node. The cache of chunks is unchanged, or the chunk of the asked slot is
  replaced by one whose data has the hash in metadata signed by the signer of that slot; the
  version returned is the signed one.
\<close>

theorem fetch_authentic:
  assumes "fetch_chunk E app_name app_slot_id w = (w', r)"
  shows "wp_superblock w' = wp_superblock w \<and>
     (wp_signers w' = wp_signers w \<or>
      (\<exists>h h' signers. sd_get_signers (en_home E) h = (h', Ok signers) \<and> wp_signers w' = Some signers)) \<and>
     (wp_chunks w' = wp_chunks w \<and> (\<forall>v pk. r = Ok (v, pk) \<longrightarrow> v = 0 \<and> pk = None) \<or>
      (\<exists>chunk_id signers v s. sb_chunk_id (wp_superblock w) app_name app_slot_id = Some chunk_id \<and>
         wp_signers w' = Some signers \<and> authentic E signers chunk_id v s \<and>
         wp_chunks w' = (wp_chunks w)(chunk_id \<mapsto> s) \<and> (\<forall>v' pk. r = Ok (v', pk) \<longrightarrow> v' = v \<and> pk \<noteq> None)))"
proof -
  have "fetched E app_name app_slot_id w w' r"
    using fetch_loop_fetched assms by (simp add: fetch_chunk_def)
  then show ?thesis unfolding fetched_def same_pod_def by fastforce
qed

text \<open>
  C9. Saved slots can be read elsewhere. Let a local replica hold only chunks that verify under the
  owner of their slot, or none (\<open>local_ok\<close>; a chunk of someone else blocks its slot). Let a handle on
  it have a well-formed bundle of slices, of the size of a chunk, for a slot of an app that the
  superblock puts into a row of the replica, with a key that owns this row, and let the version of
  the row be below the last number. Then saving the slot returns without an error, and every
  other handle on that replica with the same superblock and with signers whose entry for the row
  is that key can fetch the slot and finds exactly the same slices.
\<close>

theorem sync_then_fetch:
  fixes E :: "('h, 's LocalStackerDB, 'a, 'k, 'p, 's) wrbpod_env"
  assumes "en_replica E = local_client (en_crypto E) mv tv" and "local_ok (en_crypto E) (wp_replica w)"
    and "codec_ok (en_codec E) limit" and "unat (en_chunk_max E) \<le> limit"
    and "sb_chunk_id (wp_superblock w) app_name app_slot_id = Some i"
    and "wp_chunks w i = Some s" and "slices_inv s" and "sl_max_size s = unat (en_chunk_max E)"
    and "unat i < length (ld_chunks (wp_replica w))"
    and "lc_slot_version (ld_chunks (wp_replica w) ! unat i) \<noteq> - 1"
    and "lc_pubkh (ld_chunks (wp_replica w) ! unat i) = cr_bytes (en_crypto E) (cr_address (en_crypto E) (wp_privkey w))"
  shows "\<exists>w'. sync_slot E app_name app_slot_id w = Some (w', Ok ()) \<and>
     (\<forall>w2 signers. wp_replica w2 = wp_replica w' \<and> wp_superblock w2 = wp_superblock w \<and> wp_signers w2 = Some signers \<and>
        unat i < length signers \<and>
        cr_bytes (en_crypto E) (signers ! unat i) = cr_bytes (en_crypto E) (cr_address (en_crypto E) (wp_privkey w)) \<longrightarrow>
        (\<exists>w3 v pk. fetch_chunk E app_name app_slot_id w2 = (w3, Ok (v, Some pk)) \<and>
           wrbpod_get_slice w3 app_name app_slot_id = wrbpod_get_slice w app_name app_slot_id))"
proof -
  let ?K = "en_crypto E"
  have served: "served (local_client ?K mv tv) ?K E" using assms(1,2) by (simp add: served_def local_ok_def)
  obtain data where data: "serialize_to_vec (slices_serialize (en_codec E) s) = Some data"
    "slices_from_slice (en_codec E) (en_chunk_max E) data = Ok (s\<lparr>sl_dirty := False, sl_encoded_size := slices_size s\<rparr>)"
    using slices_codec [OF assms(3,7,4,8)] by blast
  have row: "md_slot_version (fst (local_rows (wp_replica w) ! unat i)) \<noteq> - 1" "unat i < length (local_rows (wp_replica w))"
    "local_owner (wp_replica w) (unat i) = cr_bytes ?K (cr_address ?K (wp_privkey w))"
    using assms(9-11) by (simp_all add: local_rows_def local_row_def row_metadata_def local_owner_def)
  obtain c r where c: "sync_slot E app_name app_slot_id w =
      Some (w\<lparr>wp_replica := c, wp_chunks := (wp_chunks w)(i \<mapsto> set_dirty s False)\<rparr>, Ok ())"
    "local_ok ?K c" "local_rows c = (local_rows (wp_replica w))[unat i := r]" "wrote ?K (wp_privkey w) i data r"
    using local_db.sync_slot_saves [OF served assms(2,5,6) data(1) row(2,1,3)] by blast
  have "wrbpod_get_slice w3 app_name app_slot_id = wrbpod_get_slice w app_name app_slot_id"
    if "w3 = w2\<lparr>wp_chunks := (wp_chunks w2)(i \<mapsto> s\<lparr>sl_dirty := False, sl_encoded_size := slices_size s\<rparr>)\<rparr>"
      "wp_superblock w2 = wp_superblock w" for w2 w3 :: "('h, 's LocalStackerDB, 'a, 'k) Wrbpod"
    using that assms(5,6) by (simp add: wrbpod_get_slice_def fun_eq_iff)
  moreover have "\<exists>v pk. fetch_chunk E app_name app_slot_id w2 =
      (w2\<lparr>wp_chunks := (wp_chunks w2)(i \<mapsto> s\<lparr>sl_dirty := False, sl_encoded_size := slices_size s\<rparr>)\<rparr>, Ok (v, Some pk))"
    if "wp_replica w2 = c" "wp_superblock w2 = wp_superblock w" "wp_signers w2 = Some signers" "unat i < length signers"
      "cr_bytes ?K (signers ! unat i) = cr_bytes ?K (cr_address ?K (wp_privkey w))" for w2 signers
    using local_db.fetch_chunk_loads [OF served, of w2 app_name app_slot_id i "wp_privkey w" data signers] that c(2-4) row(2) assms(5) data(2)
    by simp
  ultimately show ?thesis using c(1) by fastforce
qed


section \<open>When saving never returns\<close>

text \<open>A row whose signature is not that of its owner: the local client refuses every chunk for its slot.\<close>

definition blocked :: "('a, 'k, 'p, 's) crypto \<Rightarrow> 's LocalStackerDB \<Rightarrow> u32 \<Rightarrow> bool" where
  "blocked K db i \<longleftrightarrow>
     (\<exists>config r. ld_config db = Some config \<and> i < lf_max_slots config \<and>
        find (\<lambda>r. lc_slot_id r = i) (ld_chunks db) = Some r \<and> \<not> md_is_empty (row_metadata r) \<and>
        stored_sig_ok K r = Some False \<and> lc_slot_version r \<noteq> - 1)"

lemma blocked_refuses:
  assumes "blocked K db (ch_slot_id ch)"
  shows "\<exists>ack md. local_put_chunk K db ch = (db, Ok ack) \<and> \<not> ak_accepted ack \<and> ak_metadata ack = Some md \<and> md_slot_version md \<noteq> - 1"
  using assms by (auto simp: blocked_def local_put_chunk_def inner_get_config_def Let_def refuse_def row_metadata_def not_le)

lemma find_put_row:
  "find (\<lambda>r. lc_slot_id r = i) (map (put_row K ch) rs) = map_option (put_row K ch) (find (\<lambda>r. lc_slot_id r = i) rs)"
  by (induction rs) (auto simp: put_row_def)

lemma put_loop_blocked:
  assumes "put_loop E ch w = Some y" and "en_replica E = local_client (en_crypto E) mv tv" and "crypto_ok (en_crypto E)"
    and "blocked (en_crypto E) (wp_replica w) (ch_slot_id ch)"
  shows False
proof -
  have "en_replica E = local_client (en_crypto E) mv tv \<and> crypto_ok (en_crypto E) \<and>
      blocked (en_crypto E) (wp_replica w) (ch_slot_id ch) \<longrightarrow> False"
  apply (rule put_loop.raw_induct [OF _ assms(1), where P = "\<lambda>E ch w y. en_replica E = local_client (en_crypto E) mv tv \<and>
      crypto_ok (en_crypto E) \<and> blocked (en_crypto E) (wp_replica w) (ch_slot_id ch) \<longrightarrow> False"], intro impI)
    subgoal premises p for loop E ch w y
    proof -
      obtain ch' where ch': "sign_chunk (en_crypto E) (wp_privkey w) ch = Some ch'"
        using p(3) unfolding crypto_ok_def by blast
      then have id: "ch_slot_id ch' = ch_slot_id ch" by (auto simp: sign_chunk_def)
      then obtain ack md where ack: "local_put_chunk (en_crypto E) (wp_replica w) ch' = (wp_replica w, Ok ack)" "\<not> ak_accepted ack"
        "ak_metadata ack = Some md" "md_slot_version md \<noteq> - 1"
        using blocked_refuses [of "en_crypto E" "wp_replica w" ch'] p(3) by auto
      have "on_replica (\<lambda>c. sd_put_chunk (en_replica E) c ch') w = (w, Ok ack)"
        using ack(1) p(3) by (simp add: on_replica_def local_client_def)
      then have "loop E (ch'\<lparr>ch_slot_version := md_slot_version md + 1\<rparr>) w = Some y"
        using p(2) ch' ack(2-4) by (simp add: next_version_def)
      from p(1) [OF this] show False using p(3) id by simp
    qed
    done
  then show False using assms(2-4) by blast
qed

text \<open>
  C35. A foreign chunk blocks its slot. The local client checks the signature of the chunk it has,
  not of the chunk it gets: a newer chunk for a slot is accepted with any signature. If that
  signature is not the owner's, every later save of that slot is refused and tried again
  forever.
\<close>

theorem foreign_chunk_blocks:
  assumes "local_ok K db" and "unat (ch_slot_id ch) < length (ld_chunks db)" and "ch_slot_version ch \<noteq> - 1"
    and "lc_slot_version (ld_chunks db ! unat (ch_slot_id ch)) < ch_slot_version ch"
    and "\<forall>a. cr_verify K (chunk_md K ch) a = Ok True \<longrightarrow> cr_bytes K a \<noteq> lc_pubkh (ld_chunks db ! unat (ch_slot_id ch))"
    and "\<forall>a. cr_verify K (chunk_md K ch) a \<noteq> Panic"
  shows "\<exists>db' ack. local_put_chunk K db ch = (db', Ok ack) \<and> ak_accepted ack \<and>
     (\<forall>E w ch'. en_crypto E = K \<and> en_replica E = local_client K mv tv \<and> wp_replica w = db' \<and> ch_slot_id ch' = ch_slot_id ch \<longrightarrow>
        put_loop E ch' w = None)"
proof -
  let ?i = "unat (ch_slot_id ch)"
  let ?r = "put_row K ch (ld_chunks db ! ?i)"
  let ?db = "db\<lparr>ld_chunks := map (put_row K ch) (ld_chunks db)\<rparr>"
  have crypto: "crypto_ok K" and pubkh: "length (lc_pubkh (ld_chunks db ! ?i)) = 20" using assms(1,2) by (auto simp: local_ok_def)
  have id: "lc_slot_id (ld_chunks db ! ?i) = ch_slot_id ch" using local_slot_id [OF assms(1,2)] by simp
  have put: "local_put_chunk K db ch = (?db, Ok \<lparr>ak_accepted = True, ak_reason = None, ak_metadata = None, ak_code = None\<rparr>)"
    using local_put_cases [OF assms(1,2)] assms(4) by (auto simp: Let_def row_metadata_def)
  have md: "row_metadata ?r = chunk_md K ch" using id by (simp add: put_row_def row_metadata_def chunk_md_def)
  have "lc_pubkh ?r = lc_pubkh (ld_chunks db ! ?i)" by (simp add: put_row_def)
  then obtain a where a: "cr_new_address K 0 (lc_pubkh ?r) = Some a" "cr_bytes K a = lc_pubkh (ld_chunks db ! ?i)"
    using crypto pubkh unfolding crypto_ok_def by metis
  have bad: "stored_sig_ok K ?r = Some False"
    using a assms(5,6) by (cases "cr_verify K (chunk_md K ch) a") (auto simp: stored_sig_ok_def md)
  obtain config where config: "ld_config db = Some config" "ch_slot_id ch < lf_max_slots config"
    using assms(1,2) by (auto simp: local_ok_def word_less_nat_alt)
  have find: "find (\<lambda>r. lc_slot_id r = ch_slot_id ch) (ld_chunks ?db) = Some ?r"
    using local_find [OF assms(1,2)] by (simp add: find_put_row)
  have "blocked K ?db (ch_slot_id ch)" unfolding blocked_def
    using config find bad md assms(3) crypto by (intro exI [where x = config] exI [where x = ?r])
      (use assms(4) in \<open>auto simp: md_is_empty_def chunk_md_def put_row_def id\<close>)
  then have "put_loop E ch' w = None"
    if "en_crypto E = K" "en_replica E = local_client K mv tv" "wp_replica w = ?db" "ch_slot_id ch' = ch_slot_id ch" for E w ch'
    using that put_loop_blocked [of E ch' w _ mv tv] crypto by (cases "put_loop E ch' w") auto
  then show ?thesis using put by auto
qed

section \<open>Witnesses\<close>

text \<open>Signatures that are the key itself, and a local database with three slots of one key.\<close>

definition plain_crypto :: "(bytes, bytes, bytes, bytes) crypto" where
  "plain_crypto = \<lparr>cr_sha = (\<lambda>data. 1 # data), cr_new_address = (\<lambda>v h. Some h), cr_bytes = (\<lambda>a. a), cr_address = (\<lambda>k. k),
     cr_empty_sig = [], cr_sign = (\<lambda>k i v data. Some k), cr_verify = (\<lambda>md a. Ok (md_signature md = a)), cr_recover = (\<lambda>d s. Some s)\<rparr>"

definition some_key :: bytes where
  "some_key = replicate 20 7"

definition some_db :: "bytes LocalStackerDB" where
  "some_db = local_create plain_crypto \<lparr>lf_max_slots = 3, lf_rpc_latency = 0, lf_mainnet = True\<rparr> [(some_key, 3)]"

definition some_env :: "(bytes LocalStackerDB, bytes LocalStackerDB, bytes, bytes, bytes, bytes) wrbpod_env" where
  "some_env = \<lparr>en_home = local_client plain_crypto 22 26, en_replica = local_client plain_crypto 22 26, en_crypto = plain_crypto,
     en_codec = be_codec, en_chunk_max = 100\<rparr>"

definition some_pod :: "(bytes LocalStackerDB, bytes LocalStackerDB, bytes, bytes) Wrbpod" where
  "some_pod = \<lparr>wp_superblock = \<lparr>sb_version = 0, sb_slot_ids = [Filled 1, Free 2],
       sb_apps = [(''a.btc'', \<lparr>app_version = 0, app_code_hash = some_key, app_slots = [1]\<rparr>)]\<rparr>,
     wp_replica = some_db, wp_home = some_db, wp_privkey = some_key, wp_signers = Some [some_key, some_key, some_key],
     wp_chunks = [1 \<mapsto> slices_new 100], wp_superblock_slot_id = 0\<rparr>"

lemma some_env_simps [simp]:
  "cr_bytes plain_crypto a = a" "cr_address plain_crypto k = k" "cr_new_address plain_crypto v h = Some h"
  "cr_verify plain_crypto md a = Ok (md_signature md = a)"
  "en_crypto some_env = plain_crypto" "en_replica some_env = local_client plain_crypto 22 26"
  "en_home some_env = local_client plain_crypto 22 26" "en_codec some_env = be_codec" "en_chunk_max some_env = 100"
  by (simp_all add: plain_crypto_def some_env_def)

lemma plain_crypto_ok: "crypto_ok plain_crypto"
  by (simp add: crypto_ok_def plain_crypto_def sign_chunk_def chunk_md_def)


lemma some_db_rows: "ld_chunks some_db = map (\<lambda>i. \<lparr>lc_slot_id = i, lc_slot_version = 0, lc_pubkh = some_key, lc_data_hash = ZERO_HASH,
    lc_data = [], lc_signature = []\<rparr>) [0, 1, 2]"
  by (simp add: some_db_def local_create_def plain_crypto_def upt_conv_Cons)

lemma some_db_ok: "local_ok plain_crypto some_db"
proof -
  have "\<forall>i < 3. i = 0 \<or> i = 1 \<or> i = (2 :: nat)" by auto
  then have "\<forall>i < 3. lc_slot_id (ld_chunks some_db ! i) = word_of_nat i \<and> length (lc_pubkh (ld_chunks some_db ! i)) = 20 \<and>
      md_is_empty (row_metadata (ld_chunks some_db ! i))"
    by (auto simp: some_db_rows some_key_def md_is_empty_def row_metadata_def)
  moreover have "length (ld_chunks some_db) = 3" by (simp add: some_db_rows)
  moreover have "ld_config some_db = Some \<lparr>lf_max_slots = 3, lf_rpc_latency = 0, lf_mainnet = True\<rparr>"
    by (simp add: some_db_def local_create_def)
  ultimately show ?thesis using plain_crypto_ok by (simp add: local_ok_def)
qed

theorem fetch_authentic_witness:
  "\<exists>w' r. fetch_chunk some_env ''a.btc'' 0 some_pod = (w', r) \<and> wp_superblock w' = wp_superblock some_pod \<and>
     (wp_signers w' = wp_signers some_pod \<or>
      (\<exists>h h' signers. sd_get_signers (en_home some_env) h = (h', Ok signers) \<and> wp_signers w' = Some signers)) \<and>
     (wp_chunks w' = wp_chunks some_pod \<and> (\<forall>v pk. r = Ok (v, pk) \<longrightarrow> v = 0 \<and> pk = None) \<or>
      (\<exists>chunk_id signers v s. sb_chunk_id (wp_superblock some_pod) ''a.btc'' 0 = Some chunk_id \<and>
         wp_signers w' = Some signers \<and> authentic some_env signers chunk_id v s \<and>
         wp_chunks w' = (wp_chunks some_pod)(chunk_id \<mapsto> s) \<and> (\<forall>v' pk. r = Ok (v', pk) \<longrightarrow> v' = v \<and> pk \<noteq> None)))"
proof -
  obtain w' r where f: "fetch_chunk some_env ''a.btc'' 0 some_pod = (w', r)" by fastforce
  show ?thesis using fetch_authentic [OF f] by (intro exI [where x = w'] exI [where x = r]) (rule conjI [OF f])
qed

theorem sync_then_fetch_witness:
  "\<exists>w'. sync_slot some_env ''a.btc'' 0 some_pod = Some (w', Ok ()) \<and>
     (\<exists>w3 v pk. fetch_chunk some_env ''a.btc'' 0 (some_pod\<lparr>wp_replica := wp_replica w', wp_chunks := Map.empty\<rparr>) = (w3, Ok (v, Some pk)) \<and>
        wrbpod_get_slice w3 ''a.btc'' 0 = wrbpod_get_slice some_pod ''a.btc'' 0)"
proof -
  have "slices_inv (slices_new 100)" by (rule slices_inv_new) simp
  then have "\<exists>w'. sync_slot some_env ''a.btc'' 0 some_pod = Some (w', Ok ()) \<and>
     (\<forall>w2 signers. wp_replica w2 = wp_replica w' \<and> wp_superblock w2 = wp_superblock some_pod \<and> wp_signers w2 = Some signers \<and>
        unat (1 :: u32) < length signers \<and>
        cr_bytes (en_crypto some_env) (signers ! unat (1 :: u32)) = cr_bytes (en_crypto some_env) (cr_address (en_crypto some_env) (wp_privkey some_pod)) \<longrightarrow>
        (\<exists>w3 v pk. fetch_chunk some_env ''a.btc'' 0 w2 = (w3, Ok (v, Some pk)) \<and>
           wrbpod_get_slice w3 ''a.btc'' 0 = wrbpod_get_slice some_pod ''a.btc'' 0))"
    by (intro sync_then_fetch [where limit = 100 and mv = 22 and tv = 26 and s = "slices_new 100"])
      (simp_all add: some_pod_def some_db_ok codec_ok_be sb_chunk_id_def vec_get_def slices_new_def some_db_rows)
  then show ?thesis by (auto simp: some_pod_def)
qed


theorem foreign_chunk_blocks_witness:
  "\<exists>db' ack. local_put_chunk plain_crypto some_db \<lparr>ch_slot_id = 1, ch_slot_version = 1, ch_sig = [9], ch_data = [1, 2]\<rparr> = (db', Ok ack) \<and>
     ak_accepted ack \<and>
     put_loop some_env \<lparr>ch_slot_id = 1, ch_slot_version = 2, ch_sig = [], ch_data = [3]\<rparr> (some_pod\<lparr>wp_replica := db'\<rparr>) = None"
proof -
  let ?ch = "\<lparr>ch_slot_id = 1, ch_slot_version = 1, ch_sig = [9], ch_data = [1, 2]\<rparr> :: bytes StackerDBChunkData"
  have key: "[9] \<noteq> some_key" by (simp add: some_key_def numeral_eq_Suc)
  have "\<exists>db' ack. local_put_chunk plain_crypto some_db ?ch = (db', Ok ack) \<and> ak_accepted ack \<and>
     (\<forall>(E :: (bytes LocalStackerDB, bytes LocalStackerDB, bytes, bytes, bytes, bytes) wrbpod_env) w ch'. en_crypto E = plain_crypto \<and> en_replica E = local_client plain_crypto 22 26 \<and> wp_replica w = db' \<and> ch_slot_id ch' = ch_slot_id ?ch \<longrightarrow>
        put_loop E ch' w = None)"
    by (rule foreign_chunk_blocks [OF some_db_ok]) (simp_all add: some_db_rows chunk_md_def key)
  then show ?thesis by auto
qed

end
