(* ===== verification/Special_Env.thy ===== *)
theory Special_Env
  imports Globals Wrbpod
begin

text \<open>
  What the special functions of the virtual machine (\<open>src/vm/special.rs\<close>) are written over: Clarity
  values and the context of a running contract (both of the \<open>clarity\<close> crate), the node runner, the
  configuration, and the global state. A special function returns the changed world and
  globals with its result, also on errors; \<open>None\<close> is a call that never comes back.
\<close>

unbundle bit_operations_syntax

section \<open>Text from bytes\<close>

text \<open>The characters of a well-formed UTF-8 sequence, and \<open>std::str::from_utf8\<close>.\<close>

definition cont_bits :: "u8 \<Rightarrow> rchar" where
  "cont_bits b = ucast (b AND 0x3F)"

fun utf8_chars :: "bytes \<Rightarrow> rchar list" where
  "utf8_chars [] = []"
| "utf8_chars (a # bs) =
     (if a < 0x80 then ucast a # utf8_chars bs
      else if a \<le> 0xDF then
        (case bs of b # rest \<Rightarrow> (push_bit 6 (ucast (a AND 0x1F)) OR cont_bits b) # utf8_chars rest | _ \<Rightarrow> [])
      else if a \<le> 0xEF then
        (case bs of b # c # rest \<Rightarrow>
           (push_bit 12 (ucast (a AND 0x0F)) OR push_bit 6 (cont_bits b) OR cont_bits c) # utf8_chars rest
         | _ \<Rightarrow> [])
      else
        (case bs of b # c # d # rest \<Rightarrow>
           (push_bit 18 (ucast (a AND 0x07)) OR push_bit 12 (cont_bits b) OR push_bit 6 (cont_bits c) OR cont_bits d) # utf8_chars rest
         | _ \<Rightarrow> []))"

definition from_utf8 :: "bytes \<Rightarrow> rchar list option" where
  "from_utf8 bs = (if utf8_valid bs then Some (utf8_chars bs) else None)"

section \<open>Values, contexts and runners\<close>

typedecl StandardPrincipalData

datatype PrincipalData = Standard StandardPrincipalData | ContractPrincipal QualifiedContractIdentifier

text \<open>More of the interface of a value: the constructors may refuse values that are too large.\<close>

record 'v value_ops =
  vo_clarity :: "'v clarity"
  vo_expect_buff :: "nat \<Rightarrow> 'v \<Rightarrow> (clarity_error, bytes) outcome"
  vo_expect_ascii :: "'v \<Rightarrow> (clarity_error, rchar list) outcome"
  vo_expect_principal :: "'v \<Rightarrow> (clarity_error, PrincipalData) outcome"
  vo_expect_result_ok :: "'v \<Rightarrow> (clarity_error, 'v) outcome"
  vo_buffer_data :: "'v \<Rightarrow> bytes option"  \<comment> \<open>the match on a buffer\<close>
  vo_deserialize :: "bytes \<Rightarrow> 'v option"  \<comment> \<open>\<open>try_deserialize_hex_untyped\<close> of the bytes in hexadecimal\<close>
  vo_serialize_to_vec :: "'v \<Rightarrow> (clarity_error, bytes) outcome"
  vo_uint :: "u128 \<Rightarrow> 'v"
  vo_principal :: "PrincipalData \<Rightarrow> 'v"
  vo_none :: 'v
  vo_some :: "'v \<Rightarrow> (clarity_error, 'v) outcome"
  vo_okay :: "'v \<Rightarrow> (clarity_error, 'v) outcome"
  vo_error :: "'v \<Rightarrow> (clarity_error, 'v) outcome"
  vo_buff_from :: "bytes \<Rightarrow> (clarity_error, 'v) outcome"
  vo_string_ascii_from_bytes :: "bytes \<Rightarrow> (clarity_error, 'v) outcome"
  vo_interpreter_error :: "string \<Rightarrow> clarity_error"

text \<open>Who calls, and in which contract an environment is set up.\<close>

record caller =
  ca_sender :: PrincipalData
  ca_sponsor :: "PrincipalData option"
  ca_contract :: Contract

text \<open>
  The world of type \<open>'e\<close> is the context of the virtual machine and the node behind the runner. A
  runner is made from the configuration, which is all it is made from.
\<close>

record ('e, 'v, 'g, 'h, 'r, 'a, 'k, 'p, 's) special_env =
  sx_values :: "'v value_ops"
  sx_begin :: "'e \<Rightarrow> 'e"
  sx_commit :: "'e \<Rightarrow> 'e \<times> (clarity_error, unit) outcome"
  sx_execute :: "caller \<Rightarrow> QualifiedContractIdentifier \<Rightarrow> string \<Rightarrow> 'v list \<Rightarrow> 'e \<Rightarrow> 'e \<times> (clarity_error, 'v) outcome"
  sx_eval_read_only :: "caller \<Rightarrow> QualifiedContractIdentifier \<Rightarrow> string \<Rightarrow> 'e \<Rightarrow> 'e \<times> (clarity_error, 'v) outcome"
  sx_get_contract :: "QualifiedContractIdentifier \<Rightarrow> 'e \<Rightarrow> 'e \<times> (clarity_error, Contract) outcome"
  sx_contract_identifier :: "Contract \<Rightarrow> QualifiedContractIdentifier"
  sx_wrb_ll :: QualifiedContractIdentifier  \<comment> \<open>\<open>boot_code_id("wrb-ll", true)\<close>\<close>
  sx_boot_code_addr :: PrincipalData
  sx_issuer :: "QualifiedContractIdentifier \<Rightarrow> StandardPrincipalData"
  sx_version :: "StandardPrincipalData \<Rightarrow> u8"
  sx_new_principal :: "u8 \<Rightarrow> Hash160 \<Rightarrow> StandardPrincipalData option"
  sx_node_key_hash :: "'k \<Rightarrow> Hash160"  \<comment> \<open>\<open>Hash160::from_node_public_key\<close> of its public key\<close>
  sx_private_key :: "'g \<Rightarrow> 'k"
  sx_default_wrbpod :: "'g \<Rightarrow> WrbpodAddress"
  sx_call_readonly :: "'g \<Rightarrow> QualifiedContractIdentifier \<Rightarrow> rchar list \<Rightarrow> 'v list \<Rightarrow> 'e \<Rightarrow> 'e \<times> (RuntimeError, 'v) outcome"
  sx_home_client :: "'g \<Rightarrow> QualifiedContractIdentifier \<Rightarrow> 'k \<Rightarrow> 'e \<Rightarrow> 'e \<times> (RuntimeError, 'h) outcome"
  sx_replica_client :: "'g \<Rightarrow> QualifiedContractIdentifier \<Rightarrow> 'k \<Rightarrow> 'e \<Rightarrow> 'e \<times> (RuntimeError, 'r) outcome"
  sx_pubkey_bytes :: "'p \<Rightarrow> bytes"
  sx_wrbpod :: "('h, 'r, 'a, 'k, 'p, 's) wrbpod_env"
  sx_debug_storage :: "StorageError \<Rightarrow> string"
  sx_debug_runtime :: "RuntimeError \<Rightarrow> string"
  sx_debug_utf8 :: "bytes \<Rightarrow> string"
  sx_debug_str :: "string \<Rightarrow> string"
  sx_show_contract :: "QualifiedContractIdentifier \<Rightarrow> string"
  sx_show_u128 :: "u128 \<Rightarrow> string"

section \<open>Special functions\<close>

type_synonym ('st, 'x) special = "'st \<Rightarrow> ('st \<times> (clarity_error, 'x) outcome) option"

definition hbind :: "('st, 'x) special \<Rightarrow> ('x \<Rightarrow> ('st, 'y) special) \<Rightarrow> ('st, 'y) special" where
  "hbind m f st =
     (case m st of
        None \<Rightarrow> None
      | Some (st, Ok x) \<Rightarrow> f x st
      | Some (st, Err e) \<Rightarrow> Some (st, Err e)
      | Some (st, Panic) \<Rightarrow> Some (st, Panic))"

definition hlift :: "(clarity_error, 'x) outcome \<Rightarrow> ('st, 'x) special" where
  "hlift r st = Some (st, r)"

text \<open>\<open>unwrap\<close> and \<open>expect\<close> on a result.\<close>

fun unwrap :: "('e, 'x) outcome \<Rightarrow> ('f, 'x) outcome" where
  "unwrap (Ok x) = Ok x"
| "unwrap _ = Panic"

definition hexpect :: "('st, 'x) special \<Rightarrow> ('st, 'x) special" where
  "hexpect m st = map_option (\<lambda>(st, r). (st, unwrap r)) (m st)"

type_synonym ('e, 'g, 'h, 'r, 'a, 'k) special_state = "'e \<times> ('g, ('h, 'r, 'a, 'k) Wrbpod) Globals"

text \<open>An operation on the world, and a function of the globals.\<close>

definition on_world :: "('e \<Rightarrow> 'e \<times> (clarity_error, 'x) outcome) \<Rightarrow> ('e \<times> 'gl, 'x) special" where
  "on_world f = (\<lambda>(e, g). case f e of (e, r) \<Rightarrow> Some ((e, g), r))"

text \<open>The runner's errors are values that the special functions look at.\<close>

fun attempt :: "('f, 'x) outcome \<Rightarrow> (clarity_error, 'f + 'x) outcome" where
  "attempt (Ok x) = Ok (Inr x)"
| "attempt (Err e) = Ok (Inl e)"
| "attempt Panic = Panic"

definition on_runner :: "('e \<Rightarrow> 'e \<times> (RuntimeError, 'x) outcome) \<Rightarrow> ('e \<times> 'gl, RuntimeError + 'x) special" where
  "on_runner f = on_world (\<lambda>e. case f e of (e, r) \<Rightarrow> (e, attempt r))"

definition with_globals :: "('gl \<Rightarrow> 'gl \<times> 'x) \<Rightarrow> ('e \<times> 'gl, 'x) special" where
  "with_globals f = (\<lambda>(e, g). case f g of (g, x) \<Rightarrow> Some ((e, g), Ok x))"

definition with_global_config :: "('g \<Rightarrow> 'x) \<Rightarrow> ('e \<times> ('g, 'w) Globals, 'x option) special" where
  "with_global_config f = with_globals (\<lambda>g. (g, map_option f (gl_config g)))"

text \<open>The configuration a runner is made from.\<close>

definition make_runner :: "('e \<times> ('g, 'w) Globals, 'g) special" where
  "make_runner = hbind (with_global_config (\<lambda>cfg. cfg)) (\<lambda>cfg. hlift (from_opt cfg))"

text \<open>A result of an operation on an open session; its errors become texts.\<close>

definition with_session ::
  "u128 \<Rightarrow> string \<Rightarrow> ('w \<Rightarrow> ('w \<times> (string, 'x) outcome) option) \<Rightarrow> ('e \<times> ('g, 'w) Globals, string + 'x) special" where
  "with_session session_id missing f = (\<lambda>(e, g).
     case get_wrbpod_session g session_id of
       None \<Rightarrow> Some ((e, g), Ok (Inl missing))
     | Some w \<Rightarrow>
        map_option (\<lambda>(w, r). ((e, g\<lparr>gl_wrbpod_sessions := (gl_wrbpod_sessions g)(session_id \<mapsto> w)\<rparr>), attempt r)) (f w))"

section \<open>Running contract code\<close>

definition env_with_global_context ::
  "('e, 'v, 'g, 'h, 'r, 'a, 'k, 'p, 's) special_env \<Rightarrow> ('e \<Rightarrow> 'e \<times> (clarity_error, 'x) outcome) \<Rightarrow> ('e \<times> 'gl, 'x) special" where
  "env_with_global_context X f = on_world (\<lambda>e.
     case f (sx_begin X e) of
       (e, Panic) \<Rightarrow> (e, Panic)
     | (e, result) \<Rightarrow> (case sx_commit X e of (e, r) \<Rightarrow> (e, obind r (\<lambda>_. result))))"

definition run_private ::
  "('e, 'v, 'g, 'h, 'r, 'a, 'k, 'p, 's) special_env \<Rightarrow> caller \<Rightarrow> QualifiedContractIdentifier \<Rightarrow> string \<Rightarrow> 'v list \<Rightarrow>
     ('e \<times> 'gl, 'v) special" where
  "run_private X c contract_id f vs = env_with_global_context X (sx_execute X c contract_id f vs)"

text \<open>Handing the result of a special function to the contract; a refusal is fatal.\<close>

definition answer ::
  "('e, 'v, 'g, 'h, 'r, 'a, 'k, 'p, 's) special_env \<Rightarrow> caller \<Rightarrow> QualifiedContractIdentifier \<Rightarrow> string \<Rightarrow> 'v list \<Rightarrow>
     ('e \<times> 'gl, unit) special" where
  "answer X c contract_id f vs = hbind (hexpect (run_private X c contract_id f vs)) (\<lambda>_. hlift (Ok ()))"

end
