(* ===== verification/Special_Handlers.thy ===== *)
theory Special_Handlers
  imports Special_Env
begin

text \<open>
  The special functions themselves (\<open>src/vm/special.rs\<close>). A page calls a public function of
  \<open>wrb-ll.clar\<close>; after the call the virtual machine runs the special function of that name, which
  does the work outside of the contract and hands the result to a private setter of
  \<open>wrb-ll.clar\<close>, where the page reads it.
\<close>

section \<open>Codes and error values\<close>

definition WRB_ERR_INVALID :: u128 where "WRB_ERR_INVALID = 1"
definition WRB_ERR_WRBPOD_NOT_OPEN :: u128 where "WRB_ERR_WRBPOD_NOT_OPEN = 1000"
definition WRB_ERR_WRBPOD_NO_SLICE :: u128 where "WRB_ERR_WRBPOD_NO_SLICE = 1002"
definition WRB_ERR_WRBPOD_OPEN_FAILURE :: u128 where "WRB_ERR_WRBPOD_OPEN_FAILURE = 1003"
definition WRB_ERR_WRBPOD_SLOT_ALLOC_FAILURE :: u128 where "WRB_ERR_WRBPOD_SLOT_ALLOC_FAILURE = 1004"
definition WRB_ERR_WRBPOD_FETCH_SLOT_FAILURE :: u128 where "WRB_ERR_WRBPOD_FETCH_SLOT_FAILURE = 1005"
definition WRB_ERR_WRBPOD_PUT_SLICE_FAILURE :: u128 where "WRB_ERR_WRBPOD_PUT_SLICE_FAILURE = 1006"
definition WRB_ERR_WRBPOD_SYNC_SLOT_FAILURE :: u128 where "WRB_ERR_WRBPOD_SYNC_SLOT_FAILURE = 1007"
definition WRB_ERR_READONLY_FAILURE :: u128 where "WRB_ERR_READONLY_FAILURE = 2000"
definition WRB_ERR_BUFF_TO_UTF8_FAILURE :: u128 where "WRB_ERR_BUFF_TO_UTF8_FAILURE = 3000"
definition WRB_ERR_STRING_ASCII_TO_STRING_UTF8_FAILURE :: u128 where
  "WRB_ERR_STRING_ASCII_TO_STRING_UTF8_FAILURE = 4000"

definition err_ascii_512 :: "'v value_ops \<Rightarrow> u128 \<Rightarrow> string \<Rightarrow> (clarity_error, 'v) outcome" where
  "err_ascii_512 V code msg =
     obind (unwrap (vo_string_ascii_from_bytes V (as_bytes msg))) (\<lambda>message.
     obind (unwrap (cl_tuple (vo_clarity V) [(''code'', vo_uint V code), (''message'', message)])) (\<lambda>t.
     unwrap (vo_error V t)))"

text \<open>\<open>Value::okay(...)\<close> of a value that may have been refused itself.\<close>

definition okay :: "'v value_ops \<Rightarrow> (clarity_error, 'v) outcome \<Rightarrow> (clarity_error, 'v) outcome" where
  "okay V r = obind (unwrap r) (\<lambda>v. unwrap (vo_okay V v))"

text \<open>A result that is a value or a text becomes a response.\<close>

definition respond :: "'v value_ops \<Rightarrow> u128 \<Rightarrow> ('x \<Rightarrow> (clarity_error, 'v) outcome) \<Rightarrow> string + 'x \<Rightarrow> (clarity_error, 'v) outcome" where
  "respond V code f r = (case r of Inr x \<Rightarrow> okay V (f x) | Inl msg \<Rightarrow> err_ascii_512 V code msg)"

definition interpreter_error :: "('e, 'v, 'g, 'h, 'r, 'a, 'k, 'p, 's) special_env \<Rightarrow> string \<Rightarrow> ('st, 'x) special" where
  "interpreter_error X msg = hlift (Err (vo_interpreter_error (sx_values X) msg))"

section \<open>Read-only calls and text\<close>

fun readonly_args :: "('e, 'v, 'g, 'h, 'r, 'a, 'k, 'p, 's) special_env \<Rightarrow> 'v list \<Rightarrow> ('st, 'v list) special" where
  "readonly_args X [] = hlift (Ok [])"
| "readonly_args X (arg # args) =
     (case vo_buffer_data (sx_values X) arg of
        None \<Rightarrow> interpreter_error X ''Value argument is not a serialized value''
      | Some data \<Rightarrow>
         (case vo_deserialize (sx_values X) data of
            None \<Rightarrow> interpreter_error X ''Failed to decode argument''
          | Some val \<Rightarrow> hbind (readonly_args X args) (\<lambda>vals. hlift (Ok (val # vals)))))"

definition handle_wrb_call_readonly ::
  "('e, 'v, 'g, 'h, 'r, 'a, 'k, 'p, 's) special_env \<Rightarrow> caller \<Rightarrow> QualifiedContractIdentifier \<Rightarrow> 'v list \<Rightarrow> 'g \<Rightarrow>
     ('e \<times> 'gl, unit) special" where
  "handle_wrb_call_readonly X c contract_id args runner =
     (let V = sx_values X in
      if length args \<noteq> 3 then interpreter_error X ''Expected 3 arguments''
      else
        hbind (hlift (vo_expect_principal V (args ! 0))) (\<lambda>contract_id_value.
        hbind (hlift (vo_expect_ascii V (args ! 1))) (\<lambda>function_name.
        hbind (hlift (vo_expect_buff V 102400 (args ! 2))) (\<lambda>args_buff.
        case vo_deserialize V args_buff of
          None \<Rightarrow> interpreter_error X ''Failed to decode args list''
        | Some args_list_value \<Rightarrow>
           hbind (hlift (cl_expect_list (vo_clarity V) args_list_value)) (\<lambda>args_list.
           hbind (readonly_args X args_list) (\<lambda>args.
           case contract_id_value of
             Standard _ \<Rightarrow> interpreter_error X ''Expected contract principal''
           | ContractPrincipal target_contract_id \<Rightarrow>
              hbind (on_runner (sx_call_readonly X runner target_contract_id function_name args)) (\<lambda>r.
              hbind (hlift (case r of
                  Inr value \<Rightarrow> obind (vo_serialize_to_vec V value) (\<lambda>bs. okay V (vo_buff_from V bs))
                | Inl e \<Rightarrow> err_ascii_512 V WRB_ERR_READONLY_FAILURE (''wrb: failed call-readonly: '' @ sx_debug_runtime X e))) (\<lambda>value.
              answer X c contract_id ''wrb-ll-set-last-call-readonly'' [value]))))))))"

definition handle_buff_to_string_utf8 ::
  "('e, 'v, 'g, 'h, 'r, 'a, 'k, 'p, 's) special_env \<Rightarrow> caller \<Rightarrow> QualifiedContractIdentifier \<Rightarrow> 'v list \<Rightarrow> ('e \<times> 'gl, unit) special" where
  "handle_buff_to_string_utf8 X c contract_id args =
     (let V = sx_values X in
      if length args \<noteq> 1 then interpreter_error X ''Expected 1 argument''
      else
        hbind (hlift (vo_expect_buff V 102400 (args ! 0))) (\<lambda>hex_buff.
        hbind (hlift (case from_utf8 hex_buff of
            Some s \<Rightarrow> okay V (cl_string_utf8 (vo_clarity V) s)
          | None \<Rightarrow> err_ascii_512 V WRB_ERR_BUFF_TO_UTF8_FAILURE
              (''wrb: failed to decode buffer to UTF-8: '' @ sx_debug_utf8 X hex_buff))) (\<lambda>value.
        answer X c contract_id ''wrb-ll-set-last-wrb-buff-to-string-utf8'' [value])))"

definition handle_string_ascii_to_string_utf8 ::
  "('e, 'v, 'g, 'h, 'r, 'a, 'k, 'p, 's) special_env \<Rightarrow> caller \<Rightarrow> QualifiedContractIdentifier \<Rightarrow> 'v list \<Rightarrow> ('e \<times> 'gl, unit) special" where
  "handle_string_ascii_to_string_utf8 X c contract_id args =
     (let V = sx_values X in
      if length args \<noteq> 1 then interpreter_error X ''Expected 1 argument''
      else
        hbind (hlift (vo_expect_ascii V (args ! 0))) (\<lambda>ascii_str.
        hbind (hlift (if str_len ascii_str < 25600 then okay V (cl_string_utf8 (vo_clarity V) ascii_str)
          else err_ascii_512 V WRB_ERR_STRING_ASCII_TO_STRING_UTF8_FAILURE
              ''wrb: failed to convert ASCII to UTF-8: too big'')) (\<lambda>value.
        answer X c contract_id ''wrb-ll-set-last-wrb-string-ascii-to-string-utf8'' [value])))"

definition handle_store_large_string_utf8 ::
  "('e, 'v, 'g, 'h, 'r, 'a, 'k, 'p, 's) special_env \<Rightarrow> 'v list \<Rightarrow> ('e, 'g, 'h, 'r, 'a, 'k) special_state \<Rightarrow>
     (('e, 'g, 'h, 'r, 'a, 'k) special_state \<times> (clarity_error, unit) outcome) option" where
  "handle_store_large_string_utf8 X args =
     (let V = sx_values X in
      if length args \<noteq> 2 then interpreter_error X ''Expected 2 arguments''
      else
        hbind (hlift (cl_expect_u128 (vo_clarity V) (args ! 0))) (\<lambda>handle.
        hbind (hlift (expect_utf8 (vo_clarity V) (args ! 1))) (\<lambda>utf8_str.
        with_globals (\<lambda>g. (store_large_string_utf8 g handle utf8_str, ())))))"

text \<open>The answer of the contract when the string is not in the cache: an optional string.\<close>

definition cache_miss_text :: "'v value_ops \<Rightarrow> 'v \<Rightarrow> (clarity_error, rchar list option) outcome" where
  "cache_miss_text V v =
     obind (vo_expect_result_ok V v) (\<lambda>v.
     obind (cl_expect_optional (vo_clarity V) v) (\<lambda>v_opt.
     case v_opt of None \<Rightarrow> Ok None | Some s_value \<Rightarrow> obind (expect_utf8 (vo_clarity V) s_value) (\<lambda>s. Ok (Some s))))"

definition handle_load_large_string_utf8 ::
  "('e, 'v, 'g, 'h, 'r, 'a, 'k, 'p, 's) special_env \<Rightarrow> caller \<Rightarrow> QualifiedContractIdentifier \<Rightarrow> 'v list \<Rightarrow>
     ('e, 'g, 'h, 'r, 'a, 'k) special_state \<Rightarrow> (('e, 'g, 'h, 'r, 'a, 'k) special_state \<times> (clarity_error, unit) outcome) option" where
  "handle_load_large_string_utf8 X c contract_id args =
     (let V = sx_values X in
      if length args \<noteq> 1 then interpreter_error X ''Expected 1 argument''
      else
        hbind (hlift (cl_expect_u128 (vo_clarity V) (args ! 0))) (\<lambda>handle.
        hbind (with_globals (\<lambda>g. (g, load_large_string_utf8 g handle))) (\<lambda>utf8_str_opt.
        case utf8_str_opt of
          Some s \<Rightarrow>
            hbind (hlift (obind (unwrap (cl_string_utf8 (vo_clarity V) s)) (vo_some V))) (\<lambda>v.
            answer X c contract_id ''wrb-ll-set-last-load-large-string-utf8'' [v])
        | None \<Rightarrow>
            hbind (hexpect (run_private X c contract_id ''wrb-ll-cache-miss-load-large-string-utf8'' [vo_uint V handle])) (\<lambda>v.
            hbind (hlift (cache_miss_text V v)) (\<lambda>loaded_str_opt.
            case loaded_str_opt of
              Some s \<Rightarrow> with_globals (\<lambda>g. (store_large_string_utf8 g handle s, ()))
            | None \<Rightarrow> hlift (Ok ()))))))"

section \<open>Opening wrbpods\<close>

definition handle_wrbpod_default ::
  "('e, 'v, 'g, 'h, 'r, 'a, 'k, 'p, 's) special_env \<Rightarrow> caller \<Rightarrow> QualifiedContractIdentifier \<Rightarrow> 'v list \<Rightarrow>
     ('e, 'g, 'h, 'r, 'a, 'k) special_state \<Rightarrow> (('e, 'g, 'h, 'r, 'a, 'k) special_state \<times> (clarity_error, unit) outcome) option" where
  "handle_wrbpod_default X c contract_id args =
     (let V = sx_values X in
      if length args \<noteq> 0 then interpreter_error X ''Expected 0 arguments''
      else
        hbind (with_global_config (sx_default_wrbpod X)) (\<lambda>cfg.
        hbind (hlift (from_opt cfg)) (\<lambda>default_superblock.
        hbind (hlift (unwrap (cl_tuple (vo_clarity V)
            [(''contract'', vo_principal V (ContractPrincipal (wa_contract default_superblock))),
             (''slot'', vo_uint V (ucast (wa_slot default_superblock)))]))) (\<lambda>default_superblock_value.
        answer X c contract_id ''wrb-ll-finish-wrbpod-default'' [default_superblock_value]))))"

text \<open>\<open>privkey_to_principal\<close> of \<open>src/util/mod.rs\<close>.\<close>

definition privkey_to_principal ::
  "('e, 'v, 'g, 'h, 'r, 'a, 'k, 'p, 's) special_env \<Rightarrow> 'k \<Rightarrow> u8 \<Rightarrow> (clarity_error, StandardPrincipalData) outcome" where
  "privkey_to_principal X privk version = from_opt (sx_new_principal X version (sx_node_key_hash X privk))"

text \<open>The end of every branch of \<open>wrbpod-open\<close>: here a refusal by the contract is an error.\<close>

definition finish_open ::
  "('e, 'v, 'g, 'h, 'r, 'a, 'k, 'p, 's) special_env \<Rightarrow> caller \<Rightarrow> QualifiedContractIdentifier \<Rightarrow> 'v \<Rightarrow> u128 \<Rightarrow>
     (clarity_error, 'v) outcome \<Rightarrow> ('e \<times> 'gl, unit) special" where
  "finish_open X c contract_id superblock session_id r =
     hbind (hlift r) (\<lambda>result.
     hbind (run_private X c contract_id ''wrb-ll-finish-wrbpod-open''
         [superblock, vo_uint (sx_values X) session_id, result]) (\<lambda>_.
     hlift (Ok ())))"

definition open_failed ::
  "('e, 'v, 'g, 'h, 'r, 'a, 'k, 'p, 's) special_env \<Rightarrow> caller \<Rightarrow> QualifiedContractIdentifier \<Rightarrow> 'v \<Rightarrow> string \<Rightarrow> ('e \<times> 'gl, unit) special" where
  "open_failed X c contract_id superblock msg =
     finish_open X c contract_id superblock 0 (err_ascii_512 (sx_values X) WRB_ERR_WRBPOD_OPEN_FAILURE msg)"

text \<open>The address in the argument; a slot that is not a \<open>u32\<close> is left to the caller.\<close>

definition superblock_address ::
  "('e, 'v, 'g, 'h, 'r, 'a, 'k, 'p, 's) special_env \<Rightarrow> 'v \<Rightarrow> ('st, QualifiedContractIdentifier \<times> u128) special" where
  "superblock_address X arg =
     (let V = sx_values X in
      hbind (hlift (cl_expect_tuple (vo_clarity V) arg)) (\<lambda>superblock_tuple.
      hbind (hlift (from_opt (superblock_tuple ''contract''))) (\<lambda>contract_value.
      hbind (hlift (vo_expect_principal V contract_value)) (\<lambda>principal.
      case principal of
        Standard _ \<Rightarrow> interpreter_error X ''Expected a contract principal for wrbpod-open superblock tuple''
      | ContractPrincipal wrbpod_contract_id \<Rightarrow>
         hbind (hlift (from_opt (superblock_tuple ''slot''))) (\<lambda>slot_value.
         hbind (hlift (cl_expect_u128 (vo_clarity V) slot_value)) (\<lambda>wrbpod_slot_id.
         hlift (Ok (wrbpod_contract_id, wrbpod_slot_id))))))))"

text \<open>The two clients of a new session; the answer is a text when one cannot be had.\<close>

definition open_clients ::
  "('e, 'v, 'g, 'h, 'r, 'a, 'k, 'p, 's) special_env \<Rightarrow> 'g \<Rightarrow> QualifiedContractIdentifier \<Rightarrow> 'k \<Rightarrow> ('e \<times> 'gl, string + 'h \<times> 'r) special" where
  "open_clients X runner wrbpod_contract_id privkey =
     hbind (on_runner (sx_home_client X runner wrbpod_contract_id privkey)) (\<lambda>home.
     case home of
       Inl e \<Rightarrow> hlift (Ok (Inl (''wrb: failed to open home StackerDB client for '' @ sx_show_contract X wrbpod_contract_id @
                   '': '' @ sx_debug_runtime X e)))
     | Inr home_stackerdb_client \<Rightarrow>
        hbind (on_runner (sx_replica_client X runner wrbpod_contract_id privkey)) (\<lambda>replica.
        case replica of
          Inl e \<Rightarrow> hlift (Ok (Inl (''wrb: failed to open replica StackerDB client for '' @ sx_show_contract X wrbpod_contract_id @
                      '': '' @ sx_debug_runtime X e)))
        | Inr replica_stackerdb_client \<Rightarrow> hlift (Ok (Inr (home_stackerdb_client, replica_stackerdb_client)))))"

text \<open>A session that is new: number, answer to the contract, entry in the globals.\<close>

definition open_new ::
  "('e, 'v, 'g, 'h, 'r, 'a, 'k, 'p, 's) special_env \<Rightarrow> caller \<Rightarrow> QualifiedContractIdentifier \<Rightarrow> 'v \<Rightarrow> WrbpodAddress \<Rightarrow> bool \<Rightarrow>
     (StorageError, ('h, 'r, 'a, 'k) Wrbpod) outcome \<Rightarrow> ('e, 'g, 'h, 'r, 'a, 'k) special_state \<Rightarrow>
     (('e, 'g, 'h, 'r, 'a, 'k) special_state \<times> (clarity_error, unit) outcome) option" where
  "open_new X c contract_id arg wrbpod_addr owned wrbpod_session_result =
     (case wrbpod_session_result of
        Panic \<Rightarrow> hlift Panic
      | Ok wrbpod_session \<Rightarrow>
         hbind (\<lambda>(e, g). case next_wrbpod_session_id g of
             None \<Rightarrow> Some ((e, g), Panic) | Some (g, i) \<Rightarrow> Some ((e, g), Ok i)) (\<lambda>wrbpod_session_id.
         hbind (finish_open X c contract_id arg wrbpod_session_id (okay (sx_values X) (Ok (cl_bool (vo_clarity (sx_values X)) owned)))) (\<lambda>_.
         with_globals (\<lambda>g. (add_wrbpod_session g wrbpod_session_id wrbpod_addr wrbpod_session, ()))))
      | Err e \<Rightarrow>
         open_failed X c contract_id arg (''wrb: failed to store opened home wrbpod session to '' @
           sx_show_contract X (wa_contract wrbpod_addr) @ '': '' @
           sx_debug_str X (''Failed to open home wrbpod session to '' @ sx_show_contract X (wa_contract wrbpod_addr) @
             '': '' @ sx_debug_storage X e)))"

definition handle_wrbpod_open ::
  "('e, 'v, 'g, 'h, 'r, 'a, 'k, 'p, 's) special_env \<Rightarrow> caller \<Rightarrow> QualifiedContractIdentifier \<Rightarrow> 'v list \<Rightarrow>
     ('e, 'g, 'h, 'r, 'a, 'k) special_state \<Rightarrow> (('e, 'g, 'h, 'r, 'a, 'k) special_state \<times> (clarity_error, unit) outcome) option" where
  "handle_wrbpod_open X c contract_id args =
     (let V = sx_values X in
      if length args \<noteq> 1 then interpreter_error X ''Expected 1 argument''
      else
        hbind (superblock_address X (args ! 0)) (\<lambda>(wrbpod_contract_id, wrbpod_slot_id).
        case u32_try_from wrbpod_slot_id of
          None \<Rightarrow> open_failed X c contract_id (args ! 0) ''wrb: invalid superblock slot ID. Must be 32-bit.''
        | Some wrbpod_slot_id \<Rightarrow>
           (let wrbpod_addr = \<lparr>wa_contract = wrbpod_contract_id, wa_slot = wrbpod_slot_id\<rparr> in
            hbind (with_global_config (sx_private_key X)) (\<lambda>cfg.
            hbind (hlift (ok_or cfg (vo_interpreter_error V ''System is not initialized''))) (\<lambda>privkey.
            hbind (hlift (privkey_to_principal X privkey (sx_version X (sx_issuer X wrbpod_contract_id)))) (\<lambda>key_principal.
            let owned = (key_principal = sx_issuer X wrbpod_contract_id) in
            hbind (with_globals (\<lambda>g. (g, get_wrbpod_session_id_by_address g wrbpod_addr))) (\<lambda>opened_session_id.
            case opened_session_id of
              Some wrbpod_session_id \<Rightarrow>
                finish_open X c contract_id (args ! 0) wrbpod_session_id (okay V (Ok (cl_bool (vo_clarity V) owned)))
            | None \<Rightarrow>
                hbind make_runner (\<lambda>runner.
                hbind (open_clients X runner wrbpod_contract_id privkey) (\<lambda>clients.
                case clients of
                  Inl msg \<Rightarrow> open_failed X c contract_id (args ! 0) msg
                | Inr (home_stackerdb_client, replica_stackerdb_client) \<Rightarrow>
                    open_new X c contract_id (args ! 0) wrbpod_addr owned
                      (wrbpod_open (sx_wrbpod X) home_stackerdb_client replica_stackerdb_client privkey wrbpod_slot_id))))))))))"

end
