(* ===== verification/Special_Wrbpod.thy ===== *)
theory Special_Wrbpod
  imports Special_Handlers
begin

text \<open>
  The special functions on open wrbpods, and the dispatcher that the virtual machine calls
  (\<open>src/vm/special.rs\<close>). Except for the number of slots, the name of the app is not an argument: it
  is the one the contract was set up with.
\<close>

section \<open>The app\<close>

definition fqn :: "bytes \<Rightarrow> bytes \<Rightarrow> string" where
  "fqn name namespace = of_bytes name @ ''.'' @ of_bytes namespace"

definition buff_field :: "(string \<Rightarrow> 'v option) \<Rightarrow> string \<Rightarrow> nat \<Rightarrow> 'v value_ops \<Rightarrow> (clarity_error, bytes) outcome" where
  "buff_field t field max_len V = obind (from_opt (t field)) (vo_expect_buff V max_len)"

definition load_app_name ::
  "('e, 'v, 'g, 'h, 'r, 'a, 'k, 'p, 's) special_env \<Rightarrow> caller \<Rightarrow> ('e \<times> 'gl, bytes \<times> bytes) special" where
  "load_app_name X c =
     (let V = sx_values X in
      hexpect (hbind (env_with_global_context X
          (sx_eval_read_only X c (sx_contract_identifier X (ca_contract c)) ''(wrb-ll-get-app-name)'')) (\<lambda>name_value.
      hbind (hlift (cl_expect_tuple (vo_clarity V) name_value)) (\<lambda>name_data.
      hbind (hlift (buff_field name_data ''name'' 48 V)) (\<lambda>name_buff.
      hbind (hlift (buff_field name_data ''namespace'' 20 V)) (\<lambda>namespace_buff.
      hlift (if utf8_valid name_buff \<and> utf8_valid namespace_buff then Ok (name_buff, namespace_buff) else Panic)))))))"

definition load_app_code_hash ::
  "('e, 'v, 'g, 'h, 'r, 'a, 'k, 'p, 's) special_env \<Rightarrow> caller \<Rightarrow> ('e \<times> 'gl, Hash160) special" where
  "load_app_code_hash X c =
     hexpect (hbind (env_with_global_context X
         (sx_eval_read_only X c (sx_contract_identifier X (ca_contract c)) ''(wrb-ll-get-app-code-hash)'')) (\<lambda>hash_value.
     hbind (hlift (vo_expect_buff (sx_values X) 20 hash_value)) (\<lambda>hash_buff.
     hlift (if length hash_buff < 20 then Panic else Ok (take 20 hash_buff)))))"

section \<open>Slots\<close>

definition handle_wrbpod_get_num_slots ::
  "('e, 'v, 'g, 'h, 'r, 'a, 'k, 'p, 's) special_env \<Rightarrow> caller \<Rightarrow> QualifiedContractIdentifier \<Rightarrow> 'v list \<Rightarrow>
     ('e, 'g, 'h, 'r, 'a, 'k) special_state \<Rightarrow> (('e, 'g, 'h, 'r, 'a, 'k) special_state \<times> (clarity_error, unit) outcome) option" where
  "handle_wrbpod_get_num_slots X c contract_id args =
     (let V = sx_values X in
      if length args \<noteq> 2 then interpreter_error X ''Expected 2 arguments''
      else
        hbind (hlift (cl_expect_u128 (vo_clarity V) (args ! 0))) (\<lambda>session_id.
        hbind (hlift (cl_expect_tuple (vo_clarity V) (args ! 1))) (\<lambda>app_name_tuple.
        hbind (hlift (buff_field app_name_tuple ''name'' 48 V)) (\<lambda>app_name_buff.
        if \<not> utf8_valid app_name_buff then interpreter_error X ''Unable to convert name to UTF-8''
        else
          hbind (hlift (buff_field app_name_tuple ''namespace'' 20 V)) (\<lambda>app_namespace_buff.
          if \<not> utf8_valid app_namespace_buff then interpreter_error X ''Unable to convert namespace to UTF-8''
          else
            hbind (with_session session_id ''no such wrbpod session'' (\<lambda>wrbpod.
                Some (wrbpod, from_opt (get_num_slots wrbpod (fqn app_name_buff app_namespace_buff))))) (\<lambda>num_slots_res.
            hbind (hlift (respond V WRB_ERR_WRBPOD_NOT_OPEN (\<lambda>num_slots. Ok (vo_uint V (ucast num_slots))) num_slots_res)) (\<lambda>result.
            answer X c contract_id ''wrb-ll-set-last-wrbpod-get-num-slots'' [result])))))))"

definition handle_wrbpod_alloc_slots ::
  "('e, 'v, 'g, 'h, 'r, 'a, 'k, 'p, 's) special_env \<Rightarrow> caller \<Rightarrow> QualifiedContractIdentifier \<Rightarrow> 'v list \<Rightarrow>
     ('e, 'g, 'h, 'r, 'a, 'k) special_state \<Rightarrow> (('e, 'g, 'h, 'r, 'a, 'k) special_state \<times> (clarity_error, unit) outcome) option" where
  "handle_wrbpod_alloc_slots X c contract_id args =
     (let V = sx_values X in
      if length args \<noteq> 2 then interpreter_error X ''Expected 2 arguments''
      else
        hbind (hlift (cl_expect_u128 (vo_clarity V) (args ! 0))) (\<lambda>session_id.
        hbind (hlift (cl_expect_u128 (vo_clarity V) (args ! 1))) (\<lambda>num_slots_arg.
        case u32_try_from num_slots_arg of
          None \<Rightarrow>
            hbind (hlift (err_ascii_512 V WRB_ERR_INVALID ''too many slots'')) (\<lambda>v.
            answer X c contract_id ''wrb-ll-set-last-wrbpod-alloc-slots-result'' [v])
        | Some num_slots \<Rightarrow>
            hbind (load_app_name X c) (\<lambda>(name, namespace).
            hbind (load_app_code_hash X c) (\<lambda>code_hash.
            hbind (with_session session_id (''No such session '' @ sx_show_u128 X session_id) (\<lambda>wrbpod.
                map_option (\<lambda>(wrbpod, r). (wrbpod, map_err (sx_debug_storage X) r))
                  (allocate_slots (sx_wrbpod X) (fqn name namespace) code_hash num_slots wrbpod))) (\<lambda>alloc_res.
            hbind (hlift (respond V WRB_ERR_WRBPOD_SLOT_ALLOC_FAILURE (\<lambda>res. Ok (cl_bool (vo_clarity V) res)) alloc_res)) (\<lambda>alloc_res_value.
            answer X c contract_id ''wrb-ll-set-last-wrbpod-alloc-slots-result'' [alloc_res_value])))))))"

text \<open>What a page is told about a fetched chunk: one that was never written has version 0.\<close>

definition fetch_report ::
  "('e, 'v, 'g, 'h, 'r, 'a, 'k, 'p, 's) special_env \<Rightarrow> (StorageError, u32 \<times> 'p option) outcome \<Rightarrow> (string, u32 \<times> bytes option) outcome" where
  "fetch_report X r =
     (case r of
        Ok (version, pk) \<Rightarrow> Ok (version, map_option (sx_pubkey_bytes X) pk)
      | Err NoSuchChunk \<Rightarrow> Ok (0, None)
      | Err e \<Rightarrow> Err (sx_debug_storage X e)
      | Panic \<Rightarrow> Panic)"

definition fetch_value :: "'v value_ops \<Rightarrow> u32 \<times> bytes option \<Rightarrow> (clarity_error, 'v) outcome" where
  "fetch_value V res =
     obind (case snd res of
         Some pk_bytes \<Rightarrow> obind (unwrap (vo_buff_from V pk_bytes)) (\<lambda>v. unwrap (vo_some V v))
       | None \<Rightarrow> Ok (vo_none V)) (\<lambda>signer.
     unwrap (cl_tuple (vo_clarity V) [(''version'', vo_uint V (ucast (fst res))), (''signer'', signer)]))"

text \<open>The answer to a slot number that is not a \<open>u32\<close>, after the arguments the setter repeats.\<close>

definition slot_too_big ::
  "('e, 'v, 'g, 'h, 'r, 'a, 'k, 'p, 's) special_env \<Rightarrow> caller \<Rightarrow> QualifiedContractIdentifier \<Rightarrow> string \<Rightarrow> u128 list \<Rightarrow>
     ('e \<times> 'gl, unit) special" where
  "slot_too_big X c contract_id f ids =
     hbind (hlift (err_ascii_512 (sx_values X) WRB_ERR_INVALID ''app slot is too big'')) (\<lambda>v.
     answer X c contract_id f (map (vo_uint (sx_values X)) ids @ [v]))"

definition handle_wrbpod_fetch_slot ::
  "('e, 'v, 'g, 'h, 'r, 'a, 'k, 'p, 's) special_env \<Rightarrow> caller \<Rightarrow> QualifiedContractIdentifier \<Rightarrow> 'v list \<Rightarrow>
     ('e, 'g, 'h, 'r, 'a, 'k) special_state \<Rightarrow> (('e, 'g, 'h, 'r, 'a, 'k) special_state \<times> (clarity_error, unit) outcome) option" where
  "handle_wrbpod_fetch_slot X c contract_id args =
     (let V = sx_values X; setter = ''wrb-ll-set-last-wrbpod-fetch-slot-result'' in
      if length args \<noteq> 2 then interpreter_error X ''Expected 2 arguments''
      else
        hbind (hlift (cl_expect_u128 (vo_clarity V) (args ! 0))) (\<lambda>session_id.
        hbind (hlift (cl_expect_u128 (vo_clarity V) (args ! 1))) (\<lambda>slot_arg.
        case u32_try_from slot_arg of
          None \<Rightarrow> slot_too_big X c contract_id setter [session_id, slot_arg]
        | Some app_slot_id \<Rightarrow>
            hbind (load_app_name X c) (\<lambda>(name, namespace).
            hbind (with_session session_id ''no such session'' (\<lambda>wrbpod.
                case fetch_chunk (sx_wrbpod X) (fqn name namespace) app_slot_id wrbpod of
                  (wrbpod, r) \<Rightarrow> Some (wrbpod, fetch_report X r))) (\<lambda>fetch_res.
            hbind (hlift (respond V WRB_ERR_WRBPOD_FETCH_SLOT_FAILURE (fetch_value V) fetch_res)) (\<lambda>fetch_res_value.
            answer X c contract_id setter [vo_uint V session_id, vo_uint V (ucast app_slot_id), fetch_res_value]))))))"

section \<open>Slices\<close>

definition handle_wrbpod_get_slice ::
  "('e, 'v, 'g, 'h, 'r, 'a, 'k, 'p, 's) special_env \<Rightarrow> caller \<Rightarrow> QualifiedContractIdentifier \<Rightarrow> 'v list \<Rightarrow>
     ('e, 'g, 'h, 'r, 'a, 'k) special_state \<Rightarrow> (('e, 'g, 'h, 'r, 'a, 'k) special_state \<times> (clarity_error, unit) outcome) option" where
  "handle_wrbpod_get_slice X c contract_id args =
     (let V = sx_values X; setter = ''wrb-ll-set-last-wrbpod-get-slice-result'' in
      if length args \<noteq> 3 then interpreter_error X ''Expected 3 arguments''
      else
        hbind (hlift (cl_expect_u128 (vo_clarity V) (args ! 0))) (\<lambda>session_id.
        hbind (hlift (cl_expect_u128 (vo_clarity V) (args ! 2))) (\<lambda>slice_id.
        hbind (hlift (cl_expect_u128 (vo_clarity V) (args ! 1))) (\<lambda>slot_arg.
        case u32_try_from slot_arg of
          None \<Rightarrow> slot_too_big X c contract_id setter [session_id, slot_arg, slice_id]
        | Some app_slot_id \<Rightarrow>
            hbind (load_app_name X c) (\<lambda>(name, namespace).
            hbind (with_session session_id ''no such session'' (\<lambda>wrbpod.
                Some (wrbpod, ok_or (wrbpod_get_slice wrbpod (fqn name namespace) app_slot_id slice_id) ''no such slice''))) (\<lambda>slice_res.
            hbind (hlift (respond V WRB_ERR_WRBPOD_NO_SLICE (vo_buff_from V) slice_res)) (\<lambda>slice_res_value.
            answer X c contract_id setter
              [vo_uint V session_id, vo_uint V (ucast app_slot_id), vo_uint V slice_id, slice_res_value])))))))"

definition handle_wrbpod_put_slice ::
  "('e, 'v, 'g, 'h, 'r, 'a, 'k, 'p, 's) special_env \<Rightarrow> caller \<Rightarrow> QualifiedContractIdentifier \<Rightarrow> 'v list \<Rightarrow>
     ('e, 'g, 'h, 'r, 'a, 'k) special_state \<Rightarrow> (('e, 'g, 'h, 'r, 'a, 'k) special_state \<times> (clarity_error, unit) outcome) option" where
  "handle_wrbpod_put_slice X c contract_id args =
     (let V = sx_values X; setter = ''wrb-ll-set-last-wrbpod-put-slice-result'' in
      if length args \<noteq> 4 then interpreter_error X ''Expected 3 arguments''
      else
        hbind (hlift (cl_expect_u128 (vo_clarity V) (args ! 0))) (\<lambda>session_id.
        hbind (hlift (cl_expect_u128 (vo_clarity V) (args ! 2))) (\<lambda>slice_id.
        hbind (hlift (cl_expect_u128 (vo_clarity V) (args ! 1))) (\<lambda>slot_arg.
        case u32_try_from slot_arg of
          None \<Rightarrow> slot_too_big X c contract_id setter [session_id, slot_arg, slice_id]
        | Some app_slot_id \<Rightarrow>
            hbind (hlift (vo_expect_buff V 786000 (args ! 3))) (\<lambda>slice_data.
            hbind (load_app_name X c) (\<lambda>(name, namespace).
            hbind (with_session session_id ''no such session'' (\<lambda>wrbpod.
                case wrbpod_put_slice (sx_wrbpod X) wrbpod (fqn name namespace) app_slot_id slice_id slice_data of
                  None \<Rightarrow> Some (wrbpod, Panic)
                | Some (wrbpod, put_res) \<Rightarrow> Some (wrbpod, Ok put_res))) (\<lambda>put_res.
            hbind (hlift (respond V WRB_ERR_WRBPOD_PUT_SLICE_FAILURE (\<lambda>res. Ok (cl_bool (vo_clarity V) res)) put_res)) (\<lambda>put_res_value.
            answer X c contract_id setter
              [vo_uint V session_id, vo_uint V (ucast app_slot_id), vo_uint V slice_id, put_res_value]))))))))"

definition handle_wrbpod_sync_slot ::
  "('e, 'v, 'g, 'h, 'r, 'a, 'k, 'p, 's) special_env \<Rightarrow> caller \<Rightarrow> QualifiedContractIdentifier \<Rightarrow> 'v list \<Rightarrow>
     ('e, 'g, 'h, 'r, 'a, 'k) special_state \<Rightarrow> (('e, 'g, 'h, 'r, 'a, 'k) special_state \<times> (clarity_error, unit) outcome) option" where
  "handle_wrbpod_sync_slot X c contract_id args =
     (let V = sx_values X; setter = ''wrb-ll-set-last-wrbpod-sync-slot-result'' in
      if length args \<noteq> 2 then interpreter_error X ''Expected 1 arguments''
      else
        hbind (hlift (cl_expect_u128 (vo_clarity V) (args ! 0))) (\<lambda>session_id.
        hbind (hlift (cl_expect_u128 (vo_clarity V) (args ! 1))) (\<lambda>slot_arg.
        case u32_try_from slot_arg of
          None \<Rightarrow> slot_too_big X c contract_id setter [session_id, slot_arg]
        | Some app_slot_id \<Rightarrow>
            hbind (load_app_name X c) (\<lambda>(name, namespace).
            hbind (with_session session_id ''no such session'' (\<lambda>wrbpod.
                map_option (\<lambda>(wrbpod, r). (wrbpod, map_err (sx_debug_storage X) r))
                  (sync_slot (sx_wrbpod X) (fqn name namespace) app_slot_id wrbpod))) (\<lambda>res.
            hbind (hlift (respond V WRB_ERR_WRBPOD_SYNC_SLOT_FAILURE (\<lambda>_. Ok (cl_bool (vo_clarity V) True)) res)) (\<lambda>res_val.
            answer X c contract_id setter [vo_uint V session_id, vo_uint V slot_arg, res_val]))))))"

section \<open>The dispatcher\<close>

text \<open>The contract \<open>wrb-ll\<close>, from the cache of the globals or from the database.\<close>

definition load_ll_contract ::
  "('e, 'v, 'g, 'h, 'r, 'a, 'k, 'p, 's) special_env \<Rightarrow> QualifiedContractIdentifier \<Rightarrow>
     ('e, 'g, 'h, 'r, 'a, 'k) special_state \<Rightarrow> (('e, 'g, 'h, 'r, 'a, 'k) special_state \<times> (clarity_error, Contract) outcome) option" where
  "load_ll_contract X contract_id =
     hbind (with_globals (\<lambda>g. (g, load_cached_contract g contract_id))) (\<lambda>cached.
     case cached of
       Some contract \<Rightarrow> hlift (Ok contract)
     | None \<Rightarrow>
        hbind (hexpect (on_world (sx_get_contract X contract_id))) (\<lambda>contract.
        with_globals (\<lambda>g. store_cached_contract g contract_id contract)))"

definition special_function ::
  "('e, 'v, 'g, 'h, 'r, 'a, 'k, 'p, 's) special_env \<Rightarrow> string \<Rightarrow> caller \<Rightarrow> QualifiedContractIdentifier \<Rightarrow> 'v list \<Rightarrow> 'g \<Rightarrow>
     ('e, 'g, 'h, 'r, 'a, 'k) special_state \<Rightarrow> (('e, 'g, 'h, 'r, 'a, 'k) special_state \<times> (clarity_error, unit) outcome) option" where
  "special_function X function_name c contract_id args runner =
     (if function_name = ''wrb-ll-call-readonly'' then handle_wrb_call_readonly X c contract_id args runner
      else if function_name = ''wrb-ll-buff-to-string-utf8'' then handle_buff_to_string_utf8 X c contract_id args
      else if function_name = ''wrb-ll-string-ascii-to-string-utf8'' then handle_string_ascii_to_string_utf8 X c contract_id args
      else if function_name = ''wrb-ll-load-large-string-utf8'' then handle_load_large_string_utf8 X c contract_id args
      else if function_name = ''wrb-ll-store-large-string-utf8'' then handle_store_large_string_utf8 X args
      else if function_name = ''wrb-ll-wrbpod-default'' then handle_wrbpod_default X c contract_id args
      else if function_name = ''wrb-ll-wrbpod-open'' then handle_wrbpod_open X c contract_id args
      else if function_name = ''wrb-ll-wrbpod-get-num-slots'' then handle_wrbpod_get_num_slots X c contract_id args
      else if function_name = ''wrb-ll-wrbpod-alloc-slots'' then handle_wrbpod_alloc_slots X c contract_id args
      else if function_name = ''wrb-ll-wrbpod-fetch-slot'' then handle_wrbpod_fetch_slot X c contract_id args
      else if function_name = ''wrb-ll-wrbpod-get-slice'' then handle_wrbpod_get_slice X c contract_id args
      else if function_name = ''wrb-ll-wrbpod-put-slice'' then handle_wrbpod_put_slice X c contract_id args
      else if function_name = ''wrb-ll-wrbpod-sync-slot'' then handle_wrbpod_sync_slot X c contract_id args
      else hlift (Ok ()))"

definition handle_wrb_contract_call_special_cases ::
  "('e, 'v, 'g, 'h, 'r, 'a, 'k, 'p, 's) special_env \<Rightarrow> PrincipalData option \<Rightarrow> PrincipalData option \<Rightarrow>
     QualifiedContractIdentifier \<Rightarrow> string \<Rightarrow> 'v list \<Rightarrow>
     ('e, 'g, 'h, 'r, 'a, 'k) special_state \<Rightarrow> (('e, 'g, 'h, 'r, 'a, 'k) special_state \<times> (clarity_error, unit) outcome) option" where
  "handle_wrb_contract_call_special_cases X sender sponsor contract_id function_name args =
     (if contract_id \<noteq> sx_wrb_ll X then hlift (Ok ())
      else
        hbind make_runner (\<lambda>runner.
        hbind (load_ll_contract X contract_id) (\<lambda>contract.
        special_function X function_name
          \<lparr>ca_sender = (case sender of Some s \<Rightarrow> s | None \<Rightarrow> sx_boot_code_addr X), ca_sponsor = sponsor, ca_contract = contract\<rparr>
          contract_id args runner)))"

end
