(* ===== verification/Special_Props.thy ===== *)
theory Special_Props
  imports Special_Wrbpod Wrbpod_Store
begin

text \<open>
  What the special functions do to the sessions: whatever pages call, they reach only the slots
  of their own app, and what they put into a slice is what they get back.
\<close>

section \<open>Special functions that respect a relation\<close>

text \<open>A relation between the globals before and after a call, however the call ends.\<close>

definition frames :: "('gl \<Rightarrow> 'gl \<Rightarrow> bool) \<Rightarrow> ('e \<times> 'gl, 'x) special \<Rightarrow> bool" where
  "frames R m \<longleftrightarrow> (\<forall>e g e' g' r. m (e, g) = Some ((e', g'), r) \<longrightarrow> R g g')"



lemma framesD: "frames R m \<Longrightarrow> m (e, g) = Some ((e', g'), r) \<Longrightarrow> R g g'"
  unfolding frames_def by blast

locale frame_rel =
  fixes R :: "'gl \<Rightarrow> 'gl \<Rightarrow> bool"
  assumes frame_refl: "R g g"
    and frame_trans: "R g1 g2 \<Longrightarrow> R g2 g3 \<Longrightarrow> R g1 g3"
begin

lemma frames_hlift: "frames R (hlift x)"
  by (simp add: frames_def hlift_def frame_refl)

lemma frames_interpreter_error: "frames R (interpreter_error X msg)"
  unfolding interpreter_error_def by (rule frames_hlift)

lemma frames_hbind:
  assumes m: "frames R m" and f: "\<And>st st' x. m st = Some (st', Ok x) \<Longrightarrow> frames R (f x)"
  shows "frames R (hbind m f)"
  unfolding frames_def
proof (intro allI impI)
  fix e g e' g' r
  assume "hbind m f (e, g) = Some ((e', g'), r)"
  then show "R g g'"
  proof (cases "m (e, g)")
    case (Some a)
    obtain e1 g1 r1 where a: "a = ((e1, g1), r1)" by (metis surj_pair)
    have 1: "R g g1" using framesD [OF m] Some a by blast
    show ?thesis
    proof (cases r1)
      case (Ok x)
      then have "f x (e1, g1) = Some ((e', g'), r)" using \<open>hbind m f (e, g) = _\<close> Some a by (simp add: hbind_def)
      then have "R g1 g'" using framesD [OF f [of "(e, g)" "(e1, g1)" x]] Some a Ok by blast
      then show ?thesis using 1 frame_trans by blast
    qed (use \<open>hbind m f (e, g) = _\<close> Some a 1 in \<open>auto simp: hbind_def\<close>)
  qed (simp add: hbind_def)
qed

lemma frames_hexpect: "frames R m \<Longrightarrow> frames R (hexpect m)"
  by (auto simp: frames_def hexpect_def)

lemma frames_on_world: "frames R (on_world f)"
  by (auto simp: frames_def on_world_def frame_refl split: prod.splits)

lemma frames_on_runner: "frames R (on_runner f)"
  unfolding on_runner_def by (rule frames_on_world)

lemma frames_run_private: "frames R (run_private X c i f vs)"
  unfolding run_private_def env_with_global_context_def by (rule frames_on_world)

lemma frames_answer: "frames R (answer X c i f vs)"
  unfolding answer_def by (intro frames_hbind frames_hexpect frames_run_private frames_hlift)

lemma frames_load_app_name: "frames R (load_app_name X c)"
  unfolding load_app_name_def env_with_global_context_def Let_def
  by (intro frames_hbind frames_hexpect frames_on_world frames_hlift)

lemma frames_load_app_code_hash: "frames R (load_app_code_hash X c)"
  unfolding load_app_code_hash_def env_with_global_context_def
  by (intro frames_hbind frames_hexpect frames_on_world frames_hlift)

lemma frames_slot_too_big: "frames R (slot_too_big X c i f ids)"
  unfolding slot_too_big_def by (intro frames_hbind frames_hlift frames_answer)

lemma frames_finish_open: "frames R (finish_open X c i v s r)"
  unfolding finish_open_def by (intro frames_hbind frames_hlift frames_run_private)

lemma frames_open_failed: "frames R (open_failed X c i v msg)"
  unfolding open_failed_def by (rule frames_finish_open)

lemma frames_if: "(b \<Longrightarrow> frames R m) \<Longrightarrow> (\<not> b \<Longrightarrow> frames R n) \<Longrightarrow> frames R (if b then m else n)"
  by simp

lemma frames_case_option:
  "(x = None \<Longrightarrow> frames R m) \<Longrightarrow> (\<And>y. x = Some y \<Longrightarrow> frames R (f y)) \<Longrightarrow>
     frames R (case x of None \<Rightarrow> m | Some y \<Rightarrow> f y)"
  by (cases x) simp_all

lemma frames_case_sum:
  "(\<And>y. x = Inl y \<Longrightarrow> frames R (f y)) \<Longrightarrow> (\<And>y. x = Inr y \<Longrightarrow> frames R (h y)) \<Longrightarrow>
     frames R (case x of Inl y \<Rightarrow> f y | Inr y \<Rightarrow> h y)"
  by (cases x) simp_all

lemma frames_case_principal:
  "(\<And>y. x = Standard y \<Longrightarrow> frames R (f y)) \<Longrightarrow> (\<And>y. x = ContractPrincipal y \<Longrightarrow> frames R (h y)) \<Longrightarrow>
     frames R (case x of Standard y \<Rightarrow> f y | ContractPrincipal y \<Rightarrow> h y)"
  by (cases x) simp_all

lemma frames_case_prod: "(\<And>a b. x = (a, b) \<Longrightarrow> frames R (f a b)) \<Longrightarrow> frames R (case x of (a, b) \<Rightarrow> f a b)"
  by (cases x) simp

lemma frames_readonly_args: "frames R (readonly_args X args)"
  by (induction args)
    (auto intro!: frames_hlift frames_interpreter_error frames_hbind split: option.splits)

lemma frames_superblock_address: "frames R (superblock_address X v)"
  unfolding superblock_address_def Let_def
  by (intro frames_hbind frames_hlift frames_interpreter_error frames_case_principal)

lemma frames_open_clients: "frames R (open_clients X runner i k)"
  unfolding open_clients_def by (intro frames_hbind frames_hlift frames_on_runner frames_case_sum)

lemma frames_look: "(\<And>g. fst (f g) = g) \<Longrightarrow> frames R (with_globals f)"
  by (auto simp: frames_def with_globals_def frame_refl split: prod.splits) (metis fst_conv frame_refl)

lemmas frames_rules = frames_hlift frames_interpreter_error frames_hexpect frames_on_runner frames_run_private
  frames_answer frames_load_app_name frames_load_app_code_hash frames_slot_too_big frames_finish_open
  frames_open_failed frames_if frames_case_option frames_case_sum frames_case_principal frames_case_prod
  frames_readonly_args frames_superblock_address frames_open_clients

end

section \<open>Isolation of apps\<close>

definition own_chunks :: "('h, 'r, 'a, 'k) Wrbpod \<Rightarrow> string \<Rightarrow> u32 set" where
  "own_chunks w app = {i. \<exists>slot. sb_chunk_id (wp_superblock w) app slot = Some i}"

text \<open>What the app may do to a wrbpod: talk to the clients, and change its own chunks.\<close>

definition own_changes :: "string \<Rightarrow> ('h, 'r, 'a, 'k) Wrbpod \<Rightarrow> ('h, 'r, 'a, 'k) Wrbpod \<Rightarrow> bool" where
  "own_changes app w w' \<longleftrightarrow> wp_superblock w' = wp_superblock w \<and> wp_privkey w' = wp_privkey w \<and>
     wp_superblock_slot_id w' = wp_superblock_slot_id w \<and> (\<forall>i. i \<notin> own_chunks w app \<longrightarrow> wp_chunks w' i = wp_chunks w i)"

lemma own_changes_refl: "own_changes app w w"
  by (simp add: own_changes_def)

lemma own_changes_trans: "own_changes app w1 w2 \<Longrightarrow> own_changes app w2 w3 \<Longrightarrow> own_changes app w1 w3"
  by (simp add: own_changes_def own_chunks_def)

text \<open>The sessions stay open under their numbers and addresses; new ones may appear.\<close>

definition isolated :: "string \<Rightarrow> ('g, ('h, 'r, 'a, 'k) Wrbpod) Globals \<Rightarrow> ('g, ('h, 'r, 'a, 'k) Wrbpod) Globals \<Rightarrow> bool" where
  "isolated app g g' \<longleftrightarrow> (sessions_inv g \<longrightarrow> sessions_inv g' \<and>
     gl_wrbpod_addr_to_session_id g \<subseteq>\<^sub>m gl_wrbpod_addr_to_session_id g' \<and>
     (\<forall>i w. gl_wrbpod_sessions g i = Some w \<longrightarrow> (\<exists>w'. gl_wrbpod_sessions g' i = Some w' \<and> own_changes app w w')))"

lemma isolated_refl: "isolated app g g"
  by (simp add: isolated_def own_changes_refl)

lemma isolated_trans: "isolated app g1 g2 \<Longrightarrow> isolated app g2 g3 \<Longrightarrow> isolated app g1 g3"
  unfolding isolated_def using map_le_trans own_changes_trans by (smt (verit))

interpretation app_frame: frame_rel "isolated app" for app
  by unfold_locales (rule isolated_refl, rule isolated_trans)

lemma frames_with_session:
  assumes "\<And>w w' r. f w = Some (w', r) \<Longrightarrow> own_changes app w w'"
  shows "frames (isolated app) (with_session i missing f)"
proof -
  have "isolated app g (g\<lparr>gl_wrbpod_sessions := (gl_wrbpod_sessions g)(i \<mapsto> w')\<rparr>)"
    if w: "gl_wrbpod_sessions g i = Some w" and "f w = Some (w', r)" for g w w' r
  proof -
    have "insert i (dom (gl_wrbpod_sessions g)) = dom (gl_wrbpod_sessions g)" using w by auto
    then show ?thesis using w assms [OF that(2)] by (auto simp: isolated_def sessions_inv_def own_changes_refl)
  qed
  then show ?thesis
    by (auto simp: frames_def with_session_def get_wrbpod_session_def isolated_refl split: option.splits)
qed

lemma frames_with_globals: "(\<And>g. R g (fst (f g))) \<Longrightarrow> frames R (with_globals f)"
  by (auto simp: frames_def with_globals_def split: prod.splits) (metis fst_conv)

lemma isolated_irrelevant:
  "gl_wrbpod_sessions g' = gl_wrbpod_sessions g \<Longrightarrow> gl_wrbpod_addr_to_session_id g' = gl_wrbpod_addr_to_session_id g \<Longrightarrow>
     gl_next_wrbpod_session_id g' = gl_next_wrbpod_session_id g \<Longrightarrow> isolated app g g'"
  by (simp add: isolated_def sessions_inv_def own_changes_refl)

section \<open>Operations of a wrbpod\<close>

lemma same_pod_own: "same_pod E w w' \<Longrightarrow> own_changes app w w'"
  by (simp add: same_pod_def own_changes_def)

lemma fetch_chunk_own:
  assumes "fetch_chunk E app slot w = (w', r)"
  shows "own_changes app w w'"
proof -
  have "fetched E app slot w w' r" using assms by (simp add: fetch_chunk_def fetch_loop_fetched)
  then show ?thesis unfolding fetched_def
    by (auto simp: same_pod_own own_changes_def own_chunks_def same_pod_def)
qed

lemma put_slice_own:
  assumes "wrbpod_put_slice E w app slot i b = Some (w', ok)"
  shows "own_changes app w w'"
  using assms
  by (auto simp: wrbpod_put_slice_def own_changes_def own_chunks_def bind_Some_iff split: option.splits if_splits)

lemma put_loop_same:
  assumes "put_loop E ch w = Some y"
  shows "same_pod E w (fst y)"
  apply (rule put_loop.raw_induct [OF _ assms, where P = "\<lambda>E ch w y. same_pod E w (fst y)"])
  subgoal premises p for loop E ch w y
  proof (cases "sign_chunk (en_crypto E) (wp_privkey w) ch")
    case None
    then show ?thesis using p(2) by auto
  next
    case (Some ch')
    obtain w1 r1 where put: "on_replica (\<lambda>c. sd_put_chunk (en_replica E) c ch') w = (w1, r1)" by fastforce
    have same: "same_pod E w w1" using keepsD [OF keeps_on_replica put] .
    show ?thesis
    proof (cases "\<exists>v. loop E (ch'\<lparr>ch_slot_version := v\<rparr>) w1 = Some y")
      case True
      then show ?thesis using p(1) same_pod_trans [OF same] by blast
    next
      case False
      then have "fst y = w1" using p(2) Some put by (auto split: outcome.splits if_splits option.splits)
      then show ?thesis using same by simp
    qed
  qed
  done

lemma saved_cases:
  assumes "map_option (\<lambda>(w, r). case r of
      Err e \<Rightarrow> (w, Err e)
    | Panic \<Rightarrow> (w, Panic)
    | Ok _ \<Rightarrow> (case wp_chunks w i of
         None \<Rightarrow> (w, Err NoSuchChunk)
       | Some slices \<Rightarrow> (w\<lparr>wp_chunks := (wp_chunks w)(i \<mapsto> set_dirty slices False)\<rparr>, Ok ()))) m = Some (w', r)"
  obtains w2 r2 where "m = Some (w2, r2)" "w' = w2 \<or> (\<exists>s. w' = w2\<lparr>wp_chunks := (wp_chunks w2)(i \<mapsto> s)\<rparr>)"
proof (cases m)
  case (Some y)
  obtain w2 r2 where y: "y = (w2, r2)" by (cases y)
  show ?thesis using that [of w2 r2] assms Some y by (cases r2; cases "wp_chunks w2 i") auto
qed (use assms in simp)

lemma sync_slot_own:
  assumes "sync_slot E app slot w = Some (w', r)"
  shows "own_changes app w w'"
proof (cases "sb_chunk_id (wp_superblock w) app slot")
  case (Some i)
  obtain w1 r1 where ls: "list_replica E w = (w1, r1)" by fastforce
  have same: "same_pod E w w1" using keepsD [OF keeps_list_replica ls] .
  have "w' = w \<or> w' = w1 \<or> (\<exists>ch w2 r2. put_loop E ch w1 = Some (w2, r2) \<and>
      (w' = w2 \<or> (\<exists>s. w' = w2\<lparr>wp_chunks := (wp_chunks w2)(i \<mapsto> s)\<rparr>)))"
    using assms Some ls unfolding sync_slot_def then_loop_def
    by (simp split: option.split_asm outcome.split_asm del: map_option_eq_Some) (erule saved_cases, blast)
  then have "same_pod E w w' \<or> (\<exists>w2 s. same_pod E w w2 \<and> w' = w2\<lparr>wp_chunks := (wp_chunks w2)(i \<mapsto> s)\<rparr>)"
    using same put_loop_same [THEN same_pod_trans [OF same]] by fastforce
  then show ?thesis using Some by (auto simp: same_pod_own own_changes_def own_chunks_def same_pod_def)
qed (use assms in \<open>auto simp: sync_slot_def own_changes_refl\<close>)

section \<open>The special functions of an app\<close>

text \<open>The contract answers with one name whenever it is asked.\<close>

definition runs_app :: "('e, 'v, 'g, 'h, 'r, 'a, 'k, 'p, 's) special_env \<Rightarrow> string \<Rightarrow> bool" where
  "runs_app X app \<longleftrightarrow> (\<forall>c (st :: ('e, 'g, 'h, 'r, 'a, 'k) special_state) st' name namespace.
     load_app_name X c st = Some (st', Ok (name, namespace)) \<longrightarrow> fqn name namespace = app)"

lemma runs_appD:
  "runs_app X app \<Longrightarrow> load_app_name X c (st :: ('e, 'g, 'h, 'r, 'a, 'k) special_state) = Some (st', Ok (name, namespace)) \<Longrightarrow>
     fqn name namespace = app" for X :: "('e, 'v, 'g, 'h, 'r, 'a, 'k, 'p, 's) special_env"
  unfolding runs_app_def by blast

lemmas iso_intros = app_frame.frames_rules app_frame.frames_hbind

lemma frames_config: "frames (isolated app) (with_global_config f)"
  unfolding with_global_config_def by (rule frames_with_globals) (simp add: isolated_refl)

lemma frames_make_runner: "frames (isolated app) make_runner"
  unfolding make_runner_def by (intro iso_intros frames_config)

lemma frames_get_slice:
  assumes "runs_app X app"
  shows "frames (isolated app) (handle_wrbpod_get_slice X c i args)"
  unfolding handle_wrbpod_get_slice_def Let_def
  by (intro iso_intros frames_with_session) (auto simp: own_changes_refl)

lemma frames_put_slice:
  assumes "runs_app X app"
  shows "frames (isolated app) (handle_wrbpod_put_slice X c i args)"
  unfolding handle_wrbpod_put_slice_def Let_def
  by (intro iso_intros frames_with_session)
    (use assms in \<open>auto simp: own_changes_refl dest: runs_appD put_slice_own split: option.splits\<close>)

lemma frames_fetch_slot:
  assumes "runs_app X app"
  shows "frames (isolated app) (handle_wrbpod_fetch_slot X c i args)"
  unfolding handle_wrbpod_fetch_slot_def Let_def
  by (intro iso_intros frames_with_session)
    (use assms in \<open>auto dest: runs_appD fetch_chunk_own split: prod.splits\<close>)

lemma frames_sync_slot:
  assumes "runs_app X app"
  shows "frames (isolated app) (handle_wrbpod_sync_slot X c i args)"
  unfolding handle_wrbpod_sync_slot_def Let_def
  by (intro iso_intros frames_with_session) (use assms in \<open>auto dest: runs_appD sync_slot_own\<close>)

lemma frames_get_num_slots: "frames (isolated app) (handle_wrbpod_get_num_slots X c i args)"
  unfolding handle_wrbpod_get_num_slots_def Let_def
  by (intro iso_intros frames_with_session) (auto simp: own_changes_refl)

lemma frames_load_ll_contract: "frames (isolated app) (load_ll_contract X i)"
  unfolding load_ll_contract_def
  by (intro iso_intros frames_with_globals app_frame.frames_on_world)
    (auto simp: isolated_refl isolated_irrelevant store_cached_contract_def)

lemma frames_text:
  "frames (isolated app) (handle_wrb_call_readonly X c i args runner)"
  "frames (isolated app) (handle_buff_to_string_utf8 X c i args)"
  "frames (isolated app) (handle_string_ascii_to_string_utf8 X c i args)"
  unfolding handle_wrb_call_readonly_def handle_buff_to_string_utf8_def handle_string_ascii_to_string_utf8_def Let_def
  by (intro iso_intros)+

lemma frames_large_strings:
  "frames (isolated app) (handle_store_large_string_utf8 X args)"
  "frames (isolated app) (handle_load_large_string_utf8 X c i args)"
  unfolding handle_store_large_string_utf8_def handle_load_large_string_utf8_def Let_def
  by ((intro iso_intros frames_with_globals)+; simp add: isolated_refl isolated_irrelevant store_large_string_utf8_def)+

lemma frames_default: "frames (isolated app) (handle_wrbpod_default X c i args)"
  unfolding handle_wrbpod_default_def Let_def by (intro iso_intros frames_config)

section \<open>Opening a wrbpod\<close>

text \<open>From given globals on; steps that only look at the globals come first.\<close>

definition frames_at :: "('gl \<Rightarrow> 'gl \<Rightarrow> bool) \<Rightarrow> 'gl \<Rightarrow> ('e \<times> 'gl, 'x) special \<Rightarrow> bool" where
  "frames_at R g m \<longleftrightarrow> (\<forall>e e' g' r. m (e, g) = Some ((e', g'), r) \<longrightarrow> R g g')"

lemma frames_frames_at: "frames R m \<Longrightarrow> frames_at R g m"
  unfolding frames_def frames_at_def by blast

interpretation same_frame: frame_rel "(=)"
  by unfold_locales simp_all

lemma frames_at_hbind:
  assumes m: "frames (=) m" and R: "R g g" and f: "\<And>e e' x. m (e, g) = Some ((e', g), Ok x) \<Longrightarrow> frames_at R g (f x)"
  shows "frames_at R g (hbind m f)"
  unfolding frames_at_def
proof (intro allI impI)
  fix e e' g' r
  assume run: "hbind m f (e, g) = Some ((e', g'), r)"
  then obtain e1 g1 r1 where 1: "m (e, g) = Some ((e1, g1), r1)" by (cases "m (e, g)") (auto simp: hbind_def)
  have g1: "g1 = g" using framesD [OF m 1] by simp
  show "R g g'"
  proof (cases r1)
    case (Ok x)
    then have "f x (e1, g) = Some ((e', g'), r)" using run 1 g1 by (simp add: hbind_def)
    then show ?thesis using f 1 Ok g1 unfolding frames_at_def by blast
  qed (use run 1 g1 R in \<open>auto simp: hbind_def\<close>)
qed

lemma isolated_next_id:
  assumes "next_wrbpod_session_id g = Some (g', i)"
  shows "isolated app g g' \<and> gl_wrbpod_addr_to_session_id g' = gl_wrbpod_addr_to_session_id g \<and>
     (sessions_inv g \<longrightarrow> sessions_inv g' \<and> gl_wrbpod_sessions g' i = None \<and> i < gl_next_wrbpod_session_id g')"
proof -
  have g': "g' = g\<lparr>gl_next_wrbpod_session_id := i + 1\<rparr>" and i: "i = gl_next_wrbpod_session_id g" "i \<noteq> - 1"
    using assms by (auto simp: next_wrbpod_session_id_def Let_def split: if_splits)
  have "\<forall>j \<in> dom (gl_wrbpod_sessions g). j < i + 1" if "sessions_inv g"
    using that i word_less_Suc [OF i(2)] by (auto simp: sessions_inv_def less_imp_le)
  moreover have "gl_wrbpod_sessions g i = None" if "sessions_inv g"
    using that i(1) unfolding sessions_inv_def by (metis domIff order_less_irrefl)
  ultimately show ?thesis
    using word_less_Suc [OF i(2) order_refl] by (auto simp: g' isolated_def sessions_inv_def own_changes_refl)
qed

lemma isolated_add:
  assumes "gl_wrbpod_addr_to_session_id g addr = None" and "sessions_inv g \<longrightarrow> gl_wrbpod_sessions g i = None \<and> i < gl_next_wrbpod_session_id g"
  shows "isolated app g (add_wrbpod_session g i addr w)"
  using assms
  by (auto simp: isolated_def sessions_inv_def add_wrbpod_session_def ran_def map_le_def own_changes_refl split: if_splits)

lemma frames_open_new:
  assumes "gl_wrbpod_addr_to_session_id g addr = None"
  shows "frames_at (isolated app) g (open_new X c i v addr owned r)"
proof (cases r)
  case (Ok w)
  show ?thesis unfolding frames_at_def
  proof (intro allI impI)
    fix e e' g' r'
    assume run: "open_new X c i v addr owned r (e, g) = Some ((e', g'), r')"
    have "isolated app g g'" if inv: "sessions_inv g"
    proof (cases "next_wrbpod_session_id g")
      case (Some p)
      obtain g1 sid where p: "p = (g1, sid)" by (cases p)
      note 1 = isolated_next_id [OF Some [unfolded p], of app]
      have "isolated app g1 (add_wrbpod_session g1 sid addr w)" using 1 assms inv by (intro isolated_add) auto
      then have "frames_at (isolated app) g1 (hbind (finish_open X c i v sid (okay (sx_values X) (Ok (cl_bool (vo_clarity (sx_values X)) owned))))
          (\<lambda>_. with_globals (\<lambda>g. (add_wrbpod_session g sid addr w, ()))))"
        by (intro frames_at_hbind same_frame.frames_finish_open isolated_refl) (auto simp: frames_at_def with_globals_def)
      then have "isolated app g1 g'" using run Some p Ok by (auto simp: open_new_def hbind_def frames_at_def)
      then show ?thesis using 1 isolated_trans by blast
    qed (use run Ok in \<open>auto simp: open_new_def hbind_def isolated_refl\<close>)
    then show "isolated app g g'" by (auto simp: isolated_def)
  qed
qed (auto simp: open_new_def intro!: frames_frames_at app_frame.frames_open_failed app_frame.frames_hlift)

lemma same_config: "frames (=) (with_global_config f)"
  unfolding with_global_config_def by (rule frames_with_globals) simp

lemma same_runner: "frames (=) make_runner"
  unfolding make_runner_def by (intro same_frame.frames_hbind same_config same_frame.frames_hlift)

lemma frames_at_cases:
  "(b \<Longrightarrow> frames_at R g m) \<Longrightarrow> (\<not> b \<Longrightarrow> frames_at R g n) \<Longrightarrow> frames_at R g (if b then m else n)"
  "(opt = None \<Longrightarrow> frames_at R g m) \<Longrightarrow> (\<And>y. opt = Some y \<Longrightarrow> frames_at R g (f y)) \<Longrightarrow>
     frames_at R g (case opt of None \<Rightarrow> m | Some y \<Rightarrow> f y)"
  "(\<And>y. alt = Inl y \<Longrightarrow> frames_at R g (h y)) \<Longrightarrow> (\<And>y. alt = Inr y \<Longrightarrow> frames_at R g (k y)) \<Longrightarrow>
     frames_at R g (case alt of Inl y \<Rightarrow> h y | Inr y \<Rightarrow> k y)"
  "(\<And>a b. pair = (a, b) \<Longrightarrow> frames_at R g (q a b)) \<Longrightarrow> frames_at R g (case pair of (a, b) \<Rightarrow> q a b)"
  by (simp_all split: option.split sum.split prod.split)

lemma frames_open: "frames (isolated app) (handle_wrbpod_open X c i args)"
proof -
  have "frames_at (isolated app) g (handle_wrbpod_open X c i args)" for g
    unfolding handle_wrbpod_open_def Let_def
    by (intro frames_at_cases frames_at_hbind [where R = "isolated app"] isolated_refl frames_open_new
        same_frame.frames_superblock_address same_frame.frames_hlift same_config same_runner same_frame.frames_open_clients
        same_frame.frames_look app_frame.frames_interpreter_error [THEN frames_frames_at]
        app_frame.frames_open_failed [THEN frames_frames_at] app_frame.frames_finish_open [THEN frames_frames_at])
      (auto simp: with_globals_def get_wrbpod_session_id_by_address_def)
  then show ?thesis unfolding frames_def frames_at_def by blast
qed

section \<open>Calls of a page\<close>

lemma frames_special_function:
  assumes "runs_app X app" and "f \<noteq> ''wrb-ll-wrbpod-alloc-slots''"
  shows "frames (isolated app) (special_function X f c i args runner)"
  unfolding special_function_def
  using assms(2) frames_text frames_large_strings frames_default frames_open frames_get_num_slots
    frames_fetch_slot [OF assms(1)] frames_get_slice [OF assms(1)] frames_put_slice [OF assms(1)] frames_sync_slot [OF assms(1)]
  by (intro app_frame.frames_if app_frame.frames_hlift) simp_all

lemma frames_dispatch:
  assumes "runs_app X app" and "f \<noteq> ''wrb-ll-wrbpod-alloc-slots''"
  shows "frames (isolated app) (handle_wrb_contract_call_special_cases X sender sponsor i f args)"
  unfolding handle_wrb_contract_call_special_cases_def
  by (intro app_frame.frames_if app_frame.frames_hbind app_frame.frames_hlift frames_make_runner frames_load_ll_contract
      frames_special_function assms)

text \<open>
  The special calls that a page makes, one after another until one fails. Before each of them
  the page runs code of its own, which changes the world in any way.
\<close>

fun special_calls ::
  "('e, 'v, 'g, 'h, 'r, 'a, 'k, 'p, 's) special_env \<Rightarrow>
     (('e \<Rightarrow> 'e) \<times> PrincipalData option \<times> PrincipalData option \<times> QualifiedContractIdentifier \<times> string \<times> 'v list) list \<Rightarrow>
     ('e, 'g, 'h, 'r, 'a, 'k) special_state \<Rightarrow> (('e, 'g, 'h, 'r, 'a, 'k) special_state \<times> (clarity_error, unit) outcome) option" where
  "special_calls X [] = hlift (Ok ())"
| "special_calls X ((before, sender, sponsor, contract_id, f, args) # calls) =
     hbind (on_world (\<lambda>e. (before e, Ok ()))) (\<lambda>_.
     hbind (handle_wrb_contract_call_special_cases X sender sponsor contract_id f args) (\<lambda>_.
     special_calls X calls))"

definition called :: "('e \<Rightarrow> 'e) \<times> PrincipalData option \<times> PrincipalData option \<times> QualifiedContractIdentifier \<times> string \<times> 'v list \<Rightarrow> string" where
  "called call = fst (snd (snd (snd (snd call))))"

lemma frames_special_calls:
  assumes "runs_app X app" and "\<forall>call \<in> set calls. called call \<noteq> ''wrb-ll-wrbpod-alloc-slots''"
  shows "frames (isolated app) (special_calls X calls)"
  using assms(2)
proof (induction calls)
  case (Cons call calls)
  obtain before sender sponsor i f args where call: "call = (before, sender, sponsor, i, f, args)" by (metis surj_pair)
  show ?case using Cons assms(1) unfolding call special_calls.simps
    by (intro app_frame.frames_hbind app_frame.frames_on_world frames_dispatch) (auto simp: called_def)
qed (auto intro: app_frame.frames_hlift)

lemma own_changes_foreign:
  assumes "own_changes app w w'" and "sb_inv (wp_superblock w)" and "other \<noteq> app"
  shows "wrbpod_get_slice w' other slot slice_id = wrbpod_get_slice w other slot slice_id"
proof (cases "sb_chunk_id (wp_superblock w) other slot")
  case (Some i)
  have "i \<notin> own_chunks w app"
  proof
    assume "i \<in> own_chunks w app"
    then obtain k where "sb_chunk_id (wp_superblock w) app k = Some i" by (auto simp: own_chunks_def)
    from chunk_ids_inj [OF assms(2) Some this] show False using assms(3) by simp
  qed
  then show ?thesis using assms(1) Some by (simp add: own_changes_def wrbpod_get_slice_def)
qed (use assms(1) in \<open>simp add: own_changes_def wrbpod_get_slice_def\<close>)

section \<open>Properties\<close>

text \<open>
  C7. Pages do not reach the data of other apps. Whatever special functions the pages of an app
  call, in any order and with any arguments (allocation of slots apart, which reads the
  superblock anew), and however the last call ends: open sessions stay open under their
  numbers and addresses with the same superblock and key, new numbers are never in use, and
  every slice of every other app is what it was, in every session whose superblock gives every
  app slots of its own (\<open>sb_inv\<close>, which allocation keeps; a superblock that was downloaded is
  taken as it is).
\<close>

theorem pages_isolated:
  assumes "runs_app X app" and "\<forall>call \<in> set calls. called call \<noteq> ''wrb-ll-wrbpod-alloc-slots''"
    and "special_calls X calls (e, g) = Some ((e', g'), r)" and "sessions_inv g"
  shows "sessions_inv g' \<and> gl_wrbpod_addr_to_session_id g \<subseteq>\<^sub>m gl_wrbpod_addr_to_session_id g' \<and>
     (\<forall>i w. get_wrbpod_session g i = Some w \<longrightarrow> (\<exists>w'. get_wrbpod_session g' i = Some w' \<and>
        wp_superblock w' = wp_superblock w \<and> wp_privkey w' = wp_privkey w \<and>
        (sb_inv (wp_superblock w) \<longrightarrow> (\<forall>other slot slice_id. other \<noteq> app \<longrightarrow>
           wrbpod_get_slice w' other slot slice_id = wrbpod_get_slice w other slot slice_id))))"
proof -
  have iso: "isolated app g g'" using framesD [OF frames_special_calls [OF assms(1,2)] assms(3)] .
  show ?thesis
  proof (intro conjI allI impI)
    fix i w
    assume "get_wrbpod_session g i = Some w"
    then obtain w' where w': "gl_wrbpod_sessions g' i = Some w'" "own_changes app w w'"
      using iso assms(4) by (auto simp: isolated_def get_wrbpod_session_def)
    then have "wp_superblock w' = wp_superblock w" "wp_privkey w' = wp_privkey w" by (simp_all add: own_changes_def)
    then show "\<exists>w'. get_wrbpod_session g' i = Some w' \<and> wp_superblock w' = wp_superblock w \<and> wp_privkey w' = wp_privkey w \<and>
        (sb_inv (wp_superblock w) \<longrightarrow> (\<forall>other slot slice_id. other \<noteq> app \<longrightarrow>
           wrbpod_get_slice w' other slot slice_id = wrbpod_get_slice w other slot slice_id))"
      using w'(1) own_changes_foreign [OF w'(2)] by (auto simp: get_wrbpod_session_def)
  qed (use iso assms(4) in \<open>auto simp: isolated_def\<close>)
qed

lemma put_slice_stores:
  assumes inv: "\<forall>s \<in> ran (wp_chunks w). slices_inv s" and chunk: "9 \<le> en_chunk_max E" and small: "length b < 2 ^ 63"
  shows "\<exists>w' ok. wrbpod_put_slice E w app slot slice_id b = Some (w', ok) \<and>
     wrbpod_get_slice w' app slot = (if ok then (wrbpod_get_slice w app slot)(slice_id \<mapsto> b) else wrbpod_get_slice w app slot) \<and>
     (\<forall>s \<in> ran (wp_chunks w'). slices_inv s)"
proof (cases "sb_chunk_id (wp_superblock w) app slot")
  case None
  then show ?thesis using inv by (intro exI [where x = w] exI [where x = False]) (simp add: wrbpod_put_slice_def)
next
  case (Some i)
  let ?s = "case wp_chunks w i of Some s \<Rightarrow> s | None \<Rightarrow> slices_new (en_chunk_max E)"
  have new: "slices_inv (slices_new (en_chunk_max E))" using slices_inv_new chunk by blast
  have s: "slices_inv ?s" using new inv by (auto split: option.splits intro: ranI)
  obtain s' ok where put: "slices_put ?s slice_id b = Some (s', ok)" "slices_inv s'"
    "if ok then slices_get s' = (slices_get ?s)(slice_id \<mapsto> b) else s' = ?s"
    using slices_put_step [OF s small, of slice_id] by blast
  have empty: "slices_get (slices_new (en_chunk_max E)) = Map.empty" by (simp add: slices_get_def slices_new_def fun_eq_iff)
  have ran: "\<forall>s \<in> ran ((wp_chunks w)(i \<mapsto> s')). slices_inv s" using inv put(2) by (auto simp: ran_def)
  show ?thesis
  proof (cases "wp_chunks w i")
    case None
    have get: "wrbpod_get_slice w app slot = Map.empty" using Some None by (simp add: wrbpod_get_slice_def fun_eq_iff)
    show ?thesis using Some None put ran inv empty by (cases ok) (auto simp: wrbpod_put_slice_def get wrbpod_get_slice_def fun_eq_iff)
  next
    case (Some s)
    have get: "wrbpod_get_slice w app slot = slices_get s"
      using \<open>sb_chunk_id _ _ _ = _\<close> Some by (simp add: wrbpod_get_slice_def fun_eq_iff)
    show ?thesis using \<open>sb_chunk_id _ _ _ = _\<close> Some put ran by (cases ok) (auto simp: wrbpod_put_slice_def get wrbpod_get_slice_def fun_eq_iff)
  qed
qed

text \<open>What the special functions rely on of values: a number in a value is read back.\<close>

definition values_ok :: "'v value_ops \<Rightarrow> bool" where
  "values_ok V \<longleftrightarrow> (\<forall>x. cl_expect_u128 (vo_clarity V) (vo_uint V x) = Ok x)"

lemma u32_try_from_ucast [simp]: "u32_try_from (ucast (x :: u32)) = Some x"
proof -
  have "unat x < 2 ^ 32" using unsigned_less [of x, where 'a = nat] by simp
  then have "(ucast x :: u128) < 0x100000000" by (simp add: word_less_nat_alt unsigned_ucast_eq take_bit_nat_eq_self)
  then show ?thesis by (simp add: u32_try_from_def ucast_up_ucast_id is_up)
qed

lemma put_then_get:
  assumes "values_ok (sx_values X)"
    and "load_app_name X c (e, g) = Some ((e1, g), Ok (name, namespace))"
    and "get_wrbpod_session g session = Some w"
    and "\<forall>s \<in> ran (wp_chunks w). slices_inv s" and "9 \<le> en_chunk_max (sx_wrbpod X)"
    and "vo_expect_buff (sx_values X) 786000 buf = Ok b" and "length b < 2 ^ 63"
    and "\<forall>ok. okay (sx_values X) (Ok (cl_bool (vo_clarity (sx_values X)) ok)) = Ok (told ok)"
    and "okay (sx_values X) (vo_buff_from (sx_values X) b) = Ok v"
  shows "\<exists>w' ok. handle_wrbpod_put_slice X c contract_id
         [vo_uint (sx_values X) session, vo_uint (sx_values X) (ucast slot), vo_uint (sx_values X) slice_id, buf] (e, g) =
       answer X c contract_id ''wrb-ll-set-last-wrbpod-put-slice-result''
         [vo_uint (sx_values X) session, vo_uint (sx_values X) (ucast slot), vo_uint (sx_values X) slice_id, told ok]
         (e1, g\<lparr>gl_wrbpod_sessions := (gl_wrbpod_sessions g)(session \<mapsto> w')\<rparr>) \<and>
     wrbpod_get_slice w' (fqn name namespace) slot =
       (if ok then (wrbpod_get_slice w (fqn name namespace) slot)(slice_id \<mapsto> b)
        else wrbpod_get_slice w (fqn name namespace) slot) \<and>
     (\<forall>c2 e2 e3 g2. ok \<and> get_wrbpod_session g2 session = Some w' \<and>
        load_app_name X c2 (e2, g2) = Some ((e3, g2), Ok (name, namespace)) \<longrightarrow>
        handle_wrbpod_get_slice X c2 contract_id
          [vo_uint (sx_values X) session, vo_uint (sx_values X) (ucast slot), vo_uint (sx_values X) slice_id] (e2, g2) =
        answer X c2 contract_id ''wrb-ll-set-last-wrbpod-get-slice-result''
          [vo_uint (sx_values X) session, vo_uint (sx_values X) (ucast slot), vo_uint (sx_values X) slice_id, v] (e3, g2))"
proof -
  obtain w' ok where put: "wrbpod_put_slice (sx_wrbpod X) w (fqn name namespace) slot slice_id b = Some (w', ok)"
    "wrbpod_get_slice w' (fqn name namespace) slot =
       (if ok then (wrbpod_get_slice w (fqn name namespace) slot)(slice_id \<mapsto> b) else wrbpod_get_slice w (fqn name namespace) slot)"
    using put_slice_stores [OF assms(4,5,7)] by blast
  have u128: "cl_expect_u128 (vo_clarity (sx_values X)) (vo_uint (sx_values X) x) = Ok x" for x
    using assms(1) by (simp add: values_ok_def)
  have "g2\<lparr>gl_wrbpod_sessions := (gl_wrbpod_sessions g2)(session \<mapsto> w')\<rparr> = g2" if "gl_wrbpod_sessions g2 session = Some w'" for g2 :: "('c, ('d, 'e, 'f, 'g) Wrbpod) Globals"
    using that by (simp add: fun_upd_idem)
  then show ?thesis using assms(2,3,6,8,9) put
    by (intro exI [where x = w'] exI [where x = ok])
      (auto simp: Let_def handle_wrbpod_put_slice_def handle_wrbpod_get_slice_def hbind_def hlift_def u128 with_session_def
        respond_def get_wrbpod_session_def)
qed

text \<open>Handing back an answer ends in the state and with the success of the contract's function.\<close>

lemma answer_ends:
  "\<exists>e' r. run_private X c i f vs (e, g) = Some ((e', g), r) \<and>
     answer X c i f vs (e, g) = Some ((e', g), case r of Ok _ \<Rightarrow> Ok () | _ \<Rightarrow> Panic)"
proof -
  obtain e' r where "run_private X c i f vs (e, g) = Some ((e', g), r)"
    by (fastforce simp: run_private_def env_with_global_context_def on_world_def split: prod.splits)
  then show ?thesis by (cases r) (simp_all add: answer_def hexpect_def hbind_def hlift_def)
qed

text \<open>
  C10. A slice that a page puts is the slice it gets. Let the name of the app be read, and let the
  session hold well-formed bundles. Then putting a slice goes through to the contract: the session
  holds the slot with that slice replaced, or unchanged when it did not fit, and the contract's
  function is run with which of the two it was; the call ends as this function does, and panics
  exactly when the function refuses the result. Asking for a slice that fitted, in any later state
  of the world with this session and for any caller of the same app, runs the contract's function
  with exactly these bytes, and again ends as that does.
\<close>

theorem slice_put_get:
  assumes "values_ok (sx_values X)"
    and "load_app_name X c (e, g) = Some ((e1, g), Ok (name, namespace))"
    and "get_wrbpod_session g session = Some w"
    and "\<forall>s \<in> ran (wp_chunks w). slices_inv s" and "9 \<le> en_chunk_max (sx_wrbpod X)"
    and "vo_expect_buff (sx_values X) 786000 buf = Ok b" and "length b < 2 ^ 63"
    and "\<forall>ok. okay (sx_values X) (Ok (cl_bool (vo_clarity (sx_values X)) ok)) = Ok (told ok)"
    and "okay (sx_values X) (vo_buff_from (sx_values X) b) = Ok v"
  shows "\<exists>w' ok g' e' r. g' = g\<lparr>gl_wrbpod_sessions := (gl_wrbpod_sessions g)(session \<mapsto> w')\<rparr> \<and>
     wrbpod_get_slice w' (fqn name namespace) slot =
       (if ok then (wrbpod_get_slice w (fqn name namespace) slot)(slice_id \<mapsto> b)
        else wrbpod_get_slice w (fqn name namespace) slot) \<and>
     run_private X c contract_id ''wrb-ll-set-last-wrbpod-put-slice-result''
         [vo_uint (sx_values X) session, vo_uint (sx_values X) (ucast slot), vo_uint (sx_values X) slice_id, told ok]
         (e1, g') = Some ((e', g'), r) \<and>
     handle_wrbpod_put_slice X c contract_id
         [vo_uint (sx_values X) session, vo_uint (sx_values X) (ucast slot), vo_uint (sx_values X) slice_id, buf] (e, g) =
       Some ((e', g'), case r of Ok _ \<Rightarrow> Ok () | _ \<Rightarrow> Panic) \<and>
     (\<forall>c2 e2 e3 g2. ok \<and> get_wrbpod_session g2 session = Some w' \<and>
        load_app_name X c2 (e2, g2) = Some ((e3, g2), Ok (name, namespace)) \<longrightarrow>
        (\<exists>e4 r2. run_private X c2 contract_id ''wrb-ll-set-last-wrbpod-get-slice-result''
             [vo_uint (sx_values X) session, vo_uint (sx_values X) (ucast slot), vo_uint (sx_values X) slice_id, v]
             (e3, g2) = Some ((e4, g2), r2) \<and>
           handle_wrbpod_get_slice X c2 contract_id
             [vo_uint (sx_values X) session, vo_uint (sx_values X) (ucast slot), vo_uint (sx_values X) slice_id] (e2, g2) =
           Some ((e4, g2), case r2 of Ok _ \<Rightarrow> Ok () | _ \<Rightarrow> Panic)))"
proof -
  obtain w' ok where w': "handle_wrbpod_put_slice X c contract_id
         [vo_uint (sx_values X) session, vo_uint (sx_values X) (ucast slot), vo_uint (sx_values X) slice_id, buf] (e, g) =
       answer X c contract_id ''wrb-ll-set-last-wrbpod-put-slice-result''
         [vo_uint (sx_values X) session, vo_uint (sx_values X) (ucast slot), vo_uint (sx_values X) slice_id, told ok]
         (e1, g\<lparr>gl_wrbpod_sessions := (gl_wrbpod_sessions g)(session \<mapsto> w')\<rparr>)"
    "wrbpod_get_slice w' (fqn name namespace) slot =
       (if ok then (wrbpod_get_slice w (fqn name namespace) slot)(slice_id \<mapsto> b)
        else wrbpod_get_slice w (fqn name namespace) slot)"
    "\<And>c2 e2 e3 g2. ok \<Longrightarrow> get_wrbpod_session g2 session = Some w' \<Longrightarrow>
        load_app_name X c2 (e2, g2) = Some ((e3, g2), Ok (name, namespace)) \<Longrightarrow>
        handle_wrbpod_get_slice X c2 contract_id
          [vo_uint (sx_values X) session, vo_uint (sx_values X) (ucast slot), vo_uint (sx_values X) slice_id] (e2, g2) =
        answer X c2 contract_id ''wrb-ll-set-last-wrbpod-get-slice-result''
          [vo_uint (sx_values X) session, vo_uint (sx_values X) (ucast slot), vo_uint (sx_values X) slice_id, v] (e3, g2)"
    using put_then_get [OF assms, where slot = slot and slice_id = slice_id and contract_id = contract_id] by blast
  let ?g' = "g\<lparr>gl_wrbpod_sessions := (gl_wrbpod_sessions g)(session \<mapsto> w')\<rparr>"
  let ?put = "[vo_uint (sx_values X) session, vo_uint (sx_values X) (ucast slot), vo_uint (sx_values X) slice_id, told ok]"
  obtain e' r where put: "run_private X c contract_id ''wrb-ll-set-last-wrbpod-put-slice-result'' ?put (e1, ?g') = Some ((e', ?g'), r)"
    "answer X c contract_id ''wrb-ll-set-last-wrbpod-put-slice-result'' ?put (e1, ?g') = Some ((e', ?g'), case r of Ok _ \<Rightarrow> Ok () | _ \<Rightarrow> Panic)"
    using answer_ends [of X c contract_id "''wrb-ll-set-last-wrbpod-put-slice-result''" ?put e1 ?g'] by blast
  show ?thesis
  proof (intro exI [of _ w'] exI [of _ ok] exI [of _ ?g'] exI [of _ e'] exI [of _ r] conjI, goal_cases)
    case 5
    show ?case
    proof (intro allI impI, goal_cases)
      case (1 c2 e2 e3 g2)
      then show ?case using w'(3) [of g2 c2 e2 e3] answer_ends [of X c2 contract_id "''wrb-ll-set-last-wrbpod-get-slice-result''"
          "[vo_uint (sx_values X) session, vo_uint (sx_values X) (ucast slot), vo_uint (sx_values X) slice_id, v]" e3 g2] by simp
    qed
  qed (use w'(1,2) put in simp_all)
qed

section \<open>Texts at the limits\<close>

text \<open>
  \<open>wrb-ll.clar\<close> takes ASCII strings of up to 25600 characters; one of that length is refused. A
  buffer that is valid UTF-8 but not a literal that the virtual machine accepts is fatal.
\<close>

lemma longest_ascii_refused:
  assumes "vo_expect_ascii (sx_values X) v = Ok s" and "str_len s = 25600"
    and "err_ascii_512 (sx_values X) WRB_ERR_STRING_ASCII_TO_STRING_UTF8_FAILURE ''wrb: failed to convert ASCII to UTF-8: too big'' = Ok refused"
  shows "handle_string_ascii_to_string_utf8 X c i [v] st =
     answer X c i ''wrb-ll-set-last-wrb-string-ascii-to-string-utf8'' [refused] st"
  using assms by (simp add: handle_string_ascii_to_string_utf8_def Let_def hbind_def hlift_def)

lemma bad_literal_panics:
  assumes "vo_expect_buff (sx_values X) 102400 v = Ok bs" and "from_utf8 bs = Some s"
    and "cl_string_utf8 (vo_clarity (sx_values X)) s = Err e"
  shows "handle_buff_to_string_utf8 X c i [v] st = Some (st, Panic)"
  using assms by (simp add: handle_buff_to_string_utf8_def Let_def hbind_def hlift_def okay_def)

section \<open>Witnesses\<close>

text \<open>A small type of values, and a virtual machine that notes the private functions it runs.\<close>

datatype sval = SUInt u128 | SBool bool | SBuf bytes | SText "rchar list" | SNone | SSome sval | SOk sval | SErr sval
  | STuple "(string \<times> sval) list" | SPrincipal PrincipalData | SList "sval list"

definition expected :: "'x option \<Rightarrow> (clarity_error, 'x) outcome" where
  "expected x = ok_or x undefined"

definition sval_clarity :: "sval clarity" where
  "sval_clarity = \<lparr>cl_expect_tuple = (\<lambda>v. expected (case v of STuple fs \<Rightarrow> Some (map_of fs) | _ \<Rightarrow> None)),
     cl_expect_u128 = (\<lambda>v. expected (case v of SUInt x \<Rightarrow> Some x | _ \<Rightarrow> None)),
     cl_expect_bool = (\<lambda>v. expected (case v of SBool b \<Rightarrow> Some b | _ \<Rightarrow> None)),
     cl_expect_optional = (\<lambda>v. expected (case v of SNone \<Rightarrow> Some None | SSome x \<Rightarrow> Some (Some x) | _ \<Rightarrow> None)),
     cl_expect_list = (\<lambda>v. expected (case v of SList xs \<Rightarrow> Some xs | _ \<Rightarrow> None)),
     cl_utf8_data = (\<lambda>v. case v of SText s \<Rightarrow> Some (map (\<lambda>c. [ucast c]) s) | _ \<Rightarrow> None),
     cl_interpreter_expect = (\<lambda>_. undefined), cl_bool = SBool, cl_string_utf8 = (\<lambda>s. Ok (SText s)),
     cl_tuple = (\<lambda>fs. Ok (STuple fs)), cl_cons_list = (\<lambda>xs. Ok (SList xs))\<rparr>"

definition sval_ops :: "sval value_ops" where
  "sval_ops = \<lparr>vo_clarity = sval_clarity,
     vo_expect_buff = (\<lambda>n v. expected (case v of SBuf b \<Rightarrow> if length b \<le> n then Some b else None | _ \<Rightarrow> None)),
     vo_expect_ascii = (\<lambda>v. expected (case v of SText s \<Rightarrow> Some s | _ \<Rightarrow> None)),
     vo_expect_principal = (\<lambda>v. expected (case v of SPrincipal p \<Rightarrow> Some p | _ \<Rightarrow> None)),
     vo_expect_result_ok = (\<lambda>v. expected (case v of SOk x \<Rightarrow> Some x | _ \<Rightarrow> None)),
     vo_buffer_data = (\<lambda>v. case v of SBuf b \<Rightarrow> Some b | _ \<Rightarrow> None), vo_deserialize = (\<lambda>_. None),
     vo_serialize_to_vec = (\<lambda>_. Ok []), vo_uint = SUInt, vo_principal = SPrincipal, vo_none = SNone, vo_some = (\<lambda>v. Ok (SSome v)),
     vo_okay = (\<lambda>v. Ok (SOk v)), vo_error = (\<lambda>v. Ok (SErr v)), vo_buff_from = (\<lambda>b. Ok (SBuf b)),
     vo_string_ascii_from_bytes = (\<lambda>b. Ok (SBuf b)), vo_interpreter_error = (\<lambda>_. undefined)\<rparr>"

type_synonym trace = "(string \<times> sval list) list"

definition some_special ::
  "(trace, sval, unit, bytes LocalStackerDB, bytes LocalStackerDB, bytes, bytes, bytes, bytes) special_env" where
  "some_special = \<lparr>sx_values = sval_ops, sx_begin = (\<lambda>e. e), sx_commit = (\<lambda>e. (e, Ok ())),
     sx_execute = (\<lambda>c i f vs e. (e @ [(f, vs)], Ok (SBool True))),
     sx_eval_read_only = (\<lambda>c i q e. (e, Ok (STuple [(''name'', SBuf [97]), (''namespace'', SBuf [98, 116, 99])]))),
     sx_get_contract = (\<lambda>i e. (e, Ok undefined)), sx_contract_identifier = (\<lambda>_. undefined), sx_wrb_ll = undefined,
     sx_boot_code_addr = undefined, sx_issuer = (\<lambda>_. undefined), sx_version = (\<lambda>_. 0), sx_new_principal = (\<lambda>_ _. None),
     sx_node_key_hash = (\<lambda>k. k), sx_private_key = (\<lambda>_. some_key), sx_default_wrbpod = (\<lambda>_. undefined),
     sx_call_readonly = (\<lambda>_ _ _ _ e. (e, Err NotConnected)), sx_home_client = (\<lambda>_ _ _ e. (e, Ok some_db)),
     sx_replica_client = (\<lambda>_ _ _ e. (e, Ok some_db)), sx_pubkey_bytes = (\<lambda>p. p), sx_wrbpod = some_env,
     sx_debug_storage = (\<lambda>_. []), sx_debug_runtime = (\<lambda>_. []), sx_debug_utf8 = (\<lambda>_. []), sx_debug_str = (\<lambda>s. s),
     sx_show_contract = (\<lambda>_. []), sx_show_u128 = (\<lambda>_. [])\<rparr>"

definition some_globals :: "(unit, (bytes LocalStackerDB, bytes LocalStackerDB, bytes, bytes) Wrbpod) Globals" where
  "some_globals = \<lparr>gl_config = Some (), gl_wrbpod_sessions = [0 \<mapsto> some_pod],
     gl_wrbpod_addr_to_session_id = [\<lparr>wa_contract = undefined, wa_slot = 0\<rparr> \<mapsto> 0],
     gl_next_wrbpod_session_id = 1, gl_large_strings = Map.empty, gl_cached_contracts = [undefined \<mapsto> undefined]\<rparr>"

lemma some_special_simps [simp]:
  "sx_values some_special = sval_ops" "sx_wrb_ll some_special = undefined" "sx_wrbpod some_special = some_env"
  "vo_clarity sval_ops = sval_clarity" "vo_uint sval_ops = SUInt" "vo_buff_from sval_ops b = Ok (SBuf b)"
  "cl_bool sval_clarity = SBool" "okay sval_ops (Ok x) = Ok (SOk x)"
  by (simp_all add: some_special_def sval_ops_def sval_clarity_def okay_def)

lemma some_app_name: "load_app_name some_special c (e, g) = Some ((e, g), Ok ([97], [98, 116, 99]))"
  by (simp add: load_app_name_def hexpect_def hbind_def hlift_def env_with_global_context_def on_world_def some_special_def
      sval_ops_def sval_clarity_def buff_field_def expected_def)

lemma some_boot: "sx_boot_code_addr some_special = undefined"
  by (simp add: some_special_def)

lemma some_fqn: "fqn [97] [98, 116, 99] = ''a.btc''"
  by (simp add: fqn_def of_bytes_def) code_simp

lemma some_runs_app: "runs_app some_special ''a.btc''"
  by (auto simp: runs_app_def some_app_name some_fqn)

lemma some_sessions_inv: "sessions_inv some_globals"
  by (simp add: sessions_inv_def some_globals_def)

lemma some_pod_chunks: "\<forall>s \<in> ran (wp_chunks some_pod). slices_inv s"
  using slices_inv_new [of 100] by (simp add: some_pod_def)

lemma some_private_run: "run_private some_special c i f vs (e, g) = Some ((e @ [(f, vs)], g), Ok (SBool True))"
  by (simp add: run_private_def env_with_global_context_def on_world_def some_special_def)

lemma some_answer: "answer some_special c i f vs (e, g) = Some ((e @ [(f, vs)], g), Ok ())"
  by (simp add: answer_def hbind_def hexpect_def run_private_def env_with_global_context_def on_world_def hlift_def some_special_def)

definition some_caller :: caller where
  "some_caller = \<lparr>ca_sender = undefined, ca_sponsor = None, ca_contract = undefined\<rparr>"

lemma some_put:
  "\<exists>g'. handle_wrbpod_put_slice some_special some_caller undefined [SUInt 0, SUInt 0, SUInt 5, SBuf [1, 2, 3]] ([], some_globals) =
     Some (([(''wrb-ll-set-last-wrbpod-put-slice-result'', [SUInt 0, SUInt 0, SUInt 5, SOk (SBool True)])], g'), Ok ())"
proof -
  have "\<exists>w'. wrbpod_put_slice some_env some_pod ''a.btc'' 0 5 [1, 2, 3] = Some (w', True)"
    by (simp add: wrbpod_put_slice_def some_pod_def sb_chunk_id_def vec_get_def slices_put_def slices_new_def
        slice_encoded_size_def add64_def u64_lim_def WRBPOD_SLICES_INITIAL_SIZE_def)
  then show ?thesis
    by (auto simp: handle_wrbpod_put_slice_def Let_def hbind_def hlift_def with_session_def some_app_name some_fqn some_answer
        respond_def get_wrbpod_session_def some_globals_def sval_ops_def sval_clarity_def expected_def u32_try_from_def okay_def)
qed

theorem slice_put_get_witness:
  "\<exists>w'. handle_wrbpod_put_slice some_special some_caller undefined [SUInt 0, SUInt 0, SUInt 5, SBuf [1, 2, 3]] ([], some_globals) =
       Some (([(''wrb-ll-set-last-wrbpod-put-slice-result'', [SUInt 0, SUInt 0, SUInt 5, SOk (SBool True)])],
         some_globals\<lparr>gl_wrbpod_sessions := [0 \<mapsto> w']\<rparr>), Ok ()) \<and>
     handle_wrbpod_get_slice some_special some_caller undefined [SUInt 0, SUInt 0, SUInt 5]
         ([], some_globals\<lparr>gl_wrbpod_sessions := [0 \<mapsto> w']\<rparr>) =
       Some (([(''wrb-ll-set-last-wrbpod-get-slice-result'', [SUInt 0, SUInt 0, SUInt 5, SOk (SBuf [1, 2, 3])])],
         some_globals\<lparr>gl_wrbpod_sessions := [0 \<mapsto> w']\<rparr>), Ok ())"
proof -
  have vals: "values_ok sval_ops" by (simp add: values_ok_def sval_ops_def sval_clarity_def expected_def)
  have session: "get_wrbpod_session some_globals 0 = Some some_pod" by (simp add: get_wrbpod_session_def some_globals_def)
  have buf: "vo_expect_buff sval_ops 786000 (SBuf [1, 2, 3]) = Ok [1, 2, 3]" by (simp add: sval_ops_def expected_def)
  have sessions: "(gl_wrbpod_sessions some_globals)(0 \<mapsto> w') = [0 \<mapsto> w']" for w' by (simp add: some_globals_def)
  obtain w' ok where w': "handle_wrbpod_put_slice some_special some_caller undefined [SUInt 0, SUInt 0, SUInt 5, SBuf [1, 2, 3]] ([], some_globals) =
       Some (([(''wrb-ll-set-last-wrbpod-put-slice-result'', [SUInt 0, SUInt 0, SUInt 5, SOk (SBool ok)])],
         some_globals\<lparr>gl_wrbpod_sessions := [0 \<mapsto> w']\<rparr>), Ok ())"
    "ok \<Longrightarrow> handle_wrbpod_get_slice some_special some_caller undefined [SUInt 0, SUInt 0, SUInt 5]
         ([], some_globals\<lparr>gl_wrbpod_sessions := [0 \<mapsto> w']\<rparr>) =
       Some (([(''wrb-ll-set-last-wrbpod-get-slice-result'', [SUInt 0, SUInt 0, SUInt 5, SOk (SBuf [1, 2, 3])])],
         some_globals\<lparr>gl_wrbpod_sessions := [0 \<mapsto> w']\<rparr>), Ok ())"
    using slice_put_get [of some_special some_caller "[]" some_globals "[]" "[97]" "[98, 116, 99]" 0 some_pod "SBuf [1, 2, 3]" "[1, 2, 3]"
        "\<lambda>ok. SOk (SBool ok)" "SOk (SBuf [1, 2, 3])" 0 5 undefined] vals session buf some_pod_chunks
    by (auto simp: some_app_name some_private_run sessions get_wrbpod_session_def)
  then have ok using some_put by auto
  then show ?thesis using w' by (intro exI [where x = w']) simp
qed

theorem pages_isolated_witness:
  "\<exists>e' g' w'. special_calls some_special [(\<lambda>e. e, None, None, undefined, ''wrb-ll-wrbpod-put-slice'', [SUInt 0, SUInt 0, SUInt 5, SBuf [1, 2, 3]])]
       ([], some_globals) = Some ((e', g'), Ok ()) \<and> sessions_inv g' \<and> get_wrbpod_session g' 0 = Some w' \<and>
     wrbpod_get_slice w' ''b.btc'' 0 5 = wrbpod_get_slice some_pod ''b.btc'' 0 5"
proof -
  have config: "gl_config some_globals = Some ()" and cached: "gl_cached_contracts some_globals undefined = Some undefined"
    by (simp_all add: some_globals_def)
  let ?calls = "[(\<lambda>e. e, None, None, undefined, ''wrb-ll-wrbpod-put-slice'', [SUInt 0, SUInt 0, SUInt 5, SBuf [1, 2, 3]])]"
  obtain e' g' where run: "special_calls some_special ?calls ([], some_globals) = Some ((e', g'), Ok ())"
  proof -
    have "special_calls some_special ?calls ([], some_globals) =
        handle_wrbpod_put_slice some_special some_caller undefined [SUInt 0, SUInt 0, SUInt 5, SBuf [1, 2, 3]] ([], some_globals)"
      by (simp add: on_world_def hlift_def handle_wrb_contract_call_special_cases_def make_runner_def with_global_config_def
          with_globals_def load_ll_contract_def load_cached_contract_def special_function_def some_caller_def some_boot hbind_def
          config cached split: option.split outcome.split)
    then show ?thesis using some_put that by auto
  qed
  have inv: "sb_inv (wp_superblock some_pod)" by (simp add: some_pod_def sb_inv_def bt_ok_def app_ids_def filled_ids_def)
  have session: "get_wrbpod_session some_globals 0 = Some some_pod" by (simp add: get_wrbpod_session_def some_globals_def)
  have "\<forall>call \<in> set ?calls. called call \<noteq> ''wrb-ll-wrbpod-alloc-slots''" by (simp add: called_def)
  note iso = pages_isolated [OF some_runs_app this run some_sessions_inv]
  from iso [THEN conjunct2, THEN conjunct2, rule_format, OF session] inv
  obtain w' where "get_wrbpod_session g' 0 = Some w'" "wrbpod_get_slice w' ''b.btc'' 0 5 = wrbpod_get_slice some_pod ''b.btc'' 0 5"
    by auto
  then show ?thesis using run iso [THEN conjunct1] by blast
qed

end
