(* ===== verification/Url_Strings.thy ===== *)
theory Url_Strings
  imports Wrbpod_Codec
begin

text \<open>
  The strings of network messages (\<open>src/tx/string.rs\<close>): printable ASCII strings and URLs, each
  with its check and its codec. Parsing a URL is that of the \<open>url\<close> crate: a function to a record
  of what its accessors return.
\<close>

section \<open>The codec of messages\<close>

text \<open>
  The codec of chunks with what messages need beside it: 16-bit integers, arrays of a fixed
  number of bytes, vectors of bytes within a bound, and the limits.
\<close>

record Url =
  url_scheme :: string
  url_username :: string
  url_password :: "string option"
  url_host_str :: "string option"
  url_query :: "string option"
  url_fragment :: "string option"
  url_port_or_known_default :: "u16 option"

record net_codec = codec +
  wr_u16 :: "u16 writer"
  rd_u16 :: "u16 reader"
  wr_array :: "nat \<Rightarrow> bytes writer"
  rd_array :: "nat \<Rightarrow> bytes reader"
  rd_bytes_within :: "nat \<Rightarrow> bytes reader"  \<comment> \<open>through a reader of at most so many bytes\<close>
  read_exact :: "nat \<Rightarrow> bytes reader"
  url_parse :: "bytes \<Rightarrow> Url option"
  CLARITY_MAX_STRING_LENGTH :: u8
  MAX_MESSAGE_LEN :: u32
  MAX_RELAYERS_LEN :: u32
  PREAMBLE_ENCODED_SIZE :: u32

section \<open>Printable strings\<close>

type_synonym StacksString = bytes

definition is_ascii :: "bytes \<Rightarrow> bool" where
  "is_ascii s \<longleftrightarrow> (\<forall>c \<in> set s. c < 0x80)"

definition is_printable :: "bytes \<Rightarrow> bool" where
  "is_printable s \<longleftrightarrow> is_ascii s \<and> (\<forall>c \<in> set s. \<not> (c < 0x20 \<and> c \<noteq> 9 \<and> c \<noteq> 10 \<or> 0x7e < c))"

definition is_valid_string :: "bytes \<Rightarrow> bool" where
  "is_valid_string s \<longleftrightarrow> is_ascii s \<and> is_printable s"

definition stacks_string_from_str :: "bytes \<Rightarrow> StacksString option" where
  "stacks_string_from_str s = (if is_valid_string s then Some s else None)"

definition stacks_string_serialize :: "'x codec_scheme \<Rightarrow> StacksString writer" where
  "stacks_string_serialize C s = wr_bytes C s"

definition stacks_string_deserialize :: "'x net_codec_scheme \<Rightarrow> StacksString reader" where
  "stacks_string_deserialize C fd =
     obind (rd_bytes_within C (unat (MAX_MESSAGE_LEN C)) fd) (\<lambda>(bs, fd).
     if \<not> utf8_valid bs then Err (DeserializeError ''Invalid Stacks string: could not build from utf8'')
     else if \<not> is_valid_string bs then Err (DeserializeError ''Invalid Stacks string: non-printable or non-ASCII string'')
     else Ok (bs, fd))"

text \<open>The text of a string; it is ASCII, so this never panics.\<close>

definition stacks_string_to_string :: "StacksString \<Rightarrow> string option" where
  "stacks_string_to_string s = (if utf8_valid s then Some (of_bytes s) else None)"

section \<open>URLs\<close>

type_synonym UrlString = bytes

text \<open>\<open>URL_STRING_REGEX\<close>: letters, digits and \<open>._~:/?#[]@!$&'()*+,;%=-\<close>, as codes of ASCII.\<close>

definition url_char :: "u8 \<Rightarrow> bool" where
  "url_char c \<longleftrightarrow> 97 \<le> c \<and> c \<le> 122 \<or> 65 \<le> c \<and> c \<le> 90 \<or> 48 \<le> c \<and> c \<le> 57 \<or>
     c \<in> {46, 95, 126, 58, 47, 63, 35, 91, 93, 64, 33, 36, 38, 39, 40, 41, 42, 43, 44, 59, 37, 61, 45}"

definition url_try_from :: "'x net_codec_scheme \<Rightarrow> bytes \<Rightarrow> UrlString option" where
  "url_try_from C s =
     (if length s \<le> unat (CLARITY_MAX_STRING_LENGTH C) \<and> (\<forall>c \<in> set s. url_char c) then Some s else None)"

definition parse_to_block_url :: "'x net_codec_scheme \<Rightarrow> UrlString \<Rightarrow> (CodecError, Url) outcome" where
  "parse_to_block_url C s =
     (case url_parse C s of
        None \<Rightarrow> Err (DeserializeError ''Invalid URL'')
      | Some url \<Rightarrow>
         if url_scheme url \<noteq> ''http'' \<and> url_scheme url \<noteq> ''https'' then Err (DeserializeError ''Invalid URL: invalid scheme'')
         else if url_username url \<noteq> [] \<or> url_password url \<noteq> None
           then Err (DeserializeError ''Invalid URL: must not contain a username/password'')
         else if url_host_str url = None then Err (DeserializeError ''Invalid URL: no host string'')
         else if url_query url \<noteq> None
           then Err (DeserializeError ''Invalid URL: query strings not supported for block URLs'')
         else if url_fragment url \<noteq> None
           then Err (DeserializeError ''Invalid URL: fragments are not supported for block URLs'')
         else Ok url)"

definition url_serialize :: "'x net_codec_scheme \<Rightarrow> UrlString writer" where
  "url_serialize C s =
     (if unat (CLARITY_MAX_STRING_LENGTH C) < length s then Err (SerializeError ''Failed to serialize URL string: too long'')
      else obind (if s = [] then Ok () else obind (parse_to_block_url C s) (\<lambda>_. Ok ())) (\<lambda>_.
        wseq (wr_u8 C (word_of_nat (length s))) (Ok s)))"

definition url_deserialize :: "'x net_codec_scheme \<Rightarrow> UrlString reader" where
  "url_deserialize C fd =
     obind (rd_u8 C fd) (\<lambda>(len_byte, fd).
     if CLARITY_MAX_STRING_LENGTH C < len_byte then Err (DeserializeError ''Failed to deserialize URL string: too long'')
     else
       obind (read_exact C (unat len_byte) fd) (\<lambda>(bs, fd).
       if \<not> utf8_valid bs then Err (DeserializeError ''Failed to parse URL string: could not contruct from utf8'')
       else
         obind (ok_or (url_try_from C bs) (DeserializeError ''Failed to parse URL string'')) (\<lambda>url.
         obind (if url = [] then Ok () else obind (parse_to_block_url C url) (\<lambda>_. Ok ())) (\<lambda>_.
         Ok (url, fd)))))"

definition has_routable_host :: "'x net_codec_scheme \<Rightarrow> UrlString \<Rightarrow> bool" where
  "has_routable_host C s =
     (case url_parse C s of
        None \<Rightarrow> False
      | Some url \<Rightarrow>
         (case url_host_str url of
            Some host_str \<Rightarrow> \<not> (host_str = ''0.0.0.0'' \<or> host_str = ''[::]'' \<or> host_str = ''::'')
          | None \<Rightarrow> False))"

definition get_port :: "'x net_codec_scheme \<Rightarrow> UrlString \<Rightarrow> u16 option" where
  "get_port C s = (case url_parse C s of None \<Rightarrow> None | Some url \<Rightarrow> url_port_or_known_default url)"

section \<open>The laws and the round trip\<close>

definition net_ok :: "'x net_codec_scheme \<Rightarrow> nat \<Rightarrow> bool" where
  "net_ok C limit \<longleftrightarrow> codec_ok (codec.truncate C) limit \<and>
     (\<forall>x. reads_back (wr_u16 C) (rd_u16 C) x 2) \<and>
     (\<forall>n x. length x = n \<longrightarrow> reads_back (wr_array C n) (rd_array C n) x n) \<and>
     (\<forall>n x rest. length x = n \<longrightarrow> read_exact C n (x @ rest) = Ok (x, rest)) \<and>
     PREAMBLE_ENCODED_SIZE C < MAX_MESSAGE_LEN C"

named_theorems codec_back "written values are read back"

lemma net_back [codec_back]:
  assumes "net_ok C limit"
  shows "reads_back (wr_u8 C) (rd_u8 C) a 1" "reads_back (wr_u16 C) (rd_u16 C) b 2" "reads_back (wr_u32 C) (rd_u32 C) c 4"
    "reads_back (wr_u64 C) (rd_u64 C) d 8" "length x = n \<Longrightarrow> reads_back (wr_array C n) (rd_array C n) x n"
  using assms by (auto simp: net_ok_def codec_ok_def codec.truncate_def)

definition written :: "'a writer \<Rightarrow> 'a \<Rightarrow> bytes" where
  "written w x = (case w x of Ok b \<Rightarrow> b | _ \<Rightarrow> [])"

lemma written_back:
  assumes "reads_back w r x n"
  shows "w x = Ok (written w x)" "length (written w x) = n" "r (written w x @ rest) = Ok (x, rest)"
  using assms by (auto simp: reads_back_def written_def)

lemma readable_written:
  assumes "readable w r x"
  shows "w x = Ok (written w x)" "r (written w x @ rest) = Ok (x, rest)"
  using assms by (auto simp: readable_def reads_back_def written_def)

lemma net_simps:
  assumes "net_ok C limit"
  shows "wr_u8 C a = Ok (written (wr_u8 C) a)" "length (written (wr_u8 C) a) = 1" "rd_u8 C (written (wr_u8 C) a @ rest) = Ok (a, rest)"
    "wr_u16 C b = Ok (written (wr_u16 C) b)" "rd_u16 C (written (wr_u16 C) b @ rest) = Ok (b, rest)"
    "wr_u32 C c = Ok (written (wr_u32 C) c)" "rd_u32 C (written (wr_u32 C) c @ rest) = Ok (c, rest)"
    "wr_u64 C d = Ok (written (wr_u64 C) d)" "rd_u64 C (written (wr_u64 C) d @ rest) = Ok (d, rest)"
    "length x = n \<Longrightarrow> wr_array C n x = Ok (written (wr_array C n) x)"
    "length x = n \<Longrightarrow> rd_array C n (written (wr_array C n) x @ rest) = Ok (x, rest)"
  using written_back [OF net_back(1) [OF assms]] written_back [OF net_back(2) [OF assms]] written_back [OF net_back(3) [OF assms]]
    written_back [OF net_back(4) [OF assms]] written_back [OF net_back(5) [OF assms]]
  by auto

text \<open>What the check of a URL string asks for beyond its characters.\<close>

definition block_url :: "'x net_codec_scheme \<Rightarrow> UrlString \<Rightarrow> bool" where
  "block_url C s \<longleftrightarrow> url_try_from C s = Some s \<and> (s = [] \<or> (\<exists>url. parse_to_block_url C s = Ok url))"

lemma url_char_ascii: "url_char c \<Longrightarrow> c < 0x80"
  by (auto simp: url_char_def word_le_nat_alt word_less_nat_alt)

lemma url_back:
  assumes C: "net_ok C limit" and s: "block_url C s"
  shows "reads_back (url_serialize C) (url_deserialize C) s (1 + length s)"
proof -
  have len: "length s \<le> unat (CLARITY_MAX_STRING_LENGTH C)" and chars: "\<forall>c \<in> set s. url_char c"
    using s by (auto simp: block_url_def url_try_from_def split: if_splits)
  have small: "length s < 256" using len unsigned_less [of "CLARITY_MAX_STRING_LENGTH C", where 'a = nat] by simp
  then have u: "unat (word_of_nat (length s) :: u8) = length s" by (simp add: unat_of_nat)
  obtain b where b: "wr_u8 C (word_of_nat (length s)) = Ok b" "length b = 1" "\<And>rest. rd_u8 C (b @ rest) = Ok (word_of_nat (length s), rest)"
    by (rule reads_back_seq [OF net_back(1) [OF C]]) blast
  have "\<not> CLARITY_MAX_STRING_LENGTH C < word_of_nat (length s)" using len u by (simp add: word_less_nat_alt)
  moreover have "utf8_valid s" using chars url_char_ascii by (intro ascii_utf8_valid) blast
  moreover have "read_exact C (length s) (s @ rest) = Ok (s, rest)" for rest using C by (simp add: net_ok_def)
  ultimately show ?thesis using s b u len
    by (auto simp: reads_back_def url_serialize_def url_deserialize_def block_url_def)
qed

end
