(* ===== verification/Net_Message.thy ===== *)
theory Net_Message
  imports Url_Strings
begin

text \<open>
  Messages of the peer network (\<open>src/net/mod.rs\<close>, \<open>src/net/codec.rs\<close>): their data, their codec, and
  signing. Keys and signatures are those of \<open>stacks_common\<close>.
\<close>

section \<open>Errors\<close>

text \<open>The errors that the codec and the signatures raise; the other variants are never made here.\<close>

datatype NetError =
    NeSerializeError string | NeReadError codec_io_error | NeDeserializeError string | NeWriteError codec_io_error
  | NeUnderflowError string | NeOverflowError string | NeArrayTooLong | NeSigningError string | NeVerifyingError string
  | NeInvalidMessage

fun net_error_of_codec :: "CodecError \<Rightarrow> NetError" where
  "net_error_of_codec (SerializeError s) = NeSerializeError s"
| "net_error_of_codec (ReadError e) = NeReadError e"
| "net_error_of_codec (DeserializeError s) = NeDeserializeError s"
| "net_error_of_codec (WriteError e) = NeWriteError e"
| "net_error_of_codec (UnderflowError s) = NeUnderflowError s"
| "net_error_of_codec (OverflowError s) = NeOverflowError s"
| "net_error_of_codec ArrayTooLong = NeArrayTooLong"
| "net_error_of_codec (SigningError s) = NeSigningError s"
| "net_error_of_codec (GenericError _) = NeInvalidMessage"

section \<open>Data\<close>

text \<open>Hashes are 20 or 32 bytes, addresses 16, public keys 33 and signatures 65.\<close>

record Preamble =
  pa_peer_version :: u32
  pa_network_id :: u32
  pa_seq :: u32
  pa_burn_block_height :: u64
  pa_burn_block_hash :: bytes
  pa_burn_stable_block_height :: u64
  pa_burn_stable_block_hash :: bytes
  pa_additional_data :: u32
  pa_signature :: bytes
  pa_payload_len :: u32

record NeighborAddress =
  na_addrbytes :: bytes
  na_port :: u16
  na_public_key_hash :: Hash160

record HandshakeData =
  hd_addrbytes :: bytes
  hd_port :: u16
  hd_services :: u16
  hd_node_public_key :: bytes
  hd_expire_block_height :: u64
  hd_data_url :: UrlString

record HandshakeAcceptData =
  ha_handshake :: HandshakeData
  ha_heartbeat_interval :: u32

record 'c StackerDBHandshakeData =
  sh_rc_consensus_hash :: bytes
  sh_smart_contracts :: "'c list"

record NackData =
  nk_error_code :: u32

record RelayData =
  re_peer :: NeighborAddress
  re_seq :: u32

datatype 'c StacksMessageType =
    Handshake HandshakeData
  | HandshakeAccept HandshakeAcceptData
  | HandshakeReject
  | Nack NackData
  | StackerDBHandshakeAccept HandshakeAcceptData "'c StackerDBHandshakeData"

datatype StacksMessageID = IdHandshake | IdHandshakeAccept | IdHandshakeReject | IdNack | IdStackerDBHandshakeAccept

fun message_id_u8 :: "StacksMessageID \<Rightarrow> u8" where
  "message_id_u8 IdHandshake = 0"
| "message_id_u8 IdHandshakeAccept = 1"
| "message_id_u8 IdHandshakeReject = 2"
| "message_id_u8 IdNack = 14"
| "message_id_u8 IdStackerDBHandshakeAccept = 19"

record 'c StacksMessage =
  sm_preamble :: Preamble
  sm_relayers :: "RelayData list"
  sm_payload :: "'c StacksMessageType"

text \<open>\<open>ServiceFlags\<close>.\<close>

definition SERVICE_RELAY :: u16 where "SERVICE_RELAY = 1"
definition SERVICE_RPC :: u16 where "SERVICE_RPC = 2"

definition clear_public_key :: "NeighborAddress \<Rightarrow> NeighborAddress" where
  "clear_public_key a = a\<lparr>na_public_key_hash := replicate 20 0\<rparr>"

text \<open>
  The rest of the codec: vectors of relayers, and contract identifiers by their parts. A version
  of an address may be refused.
\<close>

record ('c, 'n) msg_codec = net_codec +
  wr_relays :: "RelayData writer \<Rightarrow> RelayData list writer"
  rd_relays_at_most :: "RelayData reader \<Rightarrow> u32 \<Rightarrow> RelayData list reader"
  wr_contract_name :: "'n writer"
  rd_contract_name :: "'n reader"
  cid_version :: "'c \<Rightarrow> u8"
  cid_hash :: "'c \<Rightarrow> Hash160"
  cid_name :: "'c \<Rightarrow> 'n"
  cid_new :: "u8 \<Rightarrow> Hash160 \<Rightarrow> 'n \<Rightarrow> 'c option"

section \<open>Preambles and addresses\<close>

definition SIGNATURE_EMPTY :: bytes where
  "SIGNATURE_EMPTY = replicate 65 0"

definition preamble_new :: "u32 \<Rightarrow> u32 \<Rightarrow> u64 \<Rightarrow> bytes \<Rightarrow> u64 \<Rightarrow> bytes \<Rightarrow> u32 \<Rightarrow> Preamble" where
  "preamble_new peer_version network_id block_height burn_block_hash stable_block_height stable_burn_block_hash payload_len =
     \<lparr>pa_peer_version = peer_version, pa_network_id = network_id, pa_seq = 0, pa_burn_block_height = block_height,
      pa_burn_block_hash = burn_block_hash, pa_burn_stable_block_height = stable_block_height,
      pa_burn_stable_block_hash = stable_burn_block_hash, pa_additional_data = 0, pa_signature = SIGNATURE_EMPTY,
      pa_payload_len = payload_len\<rparr>"

definition preamble_serialize :: "'x net_codec_scheme \<Rightarrow> Preamble writer" where
  "preamble_serialize C p =
     wseq (wr_u32 C (pa_peer_version p)) (wseq (wr_u32 C (pa_network_id p)) (wseq (wr_u32 C (pa_seq p))
     (wseq (wr_u64 C (pa_burn_block_height p)) (wseq (wr_array C 32 (pa_burn_block_hash p))
     (wseq (wr_u64 C (pa_burn_stable_block_height p)) (wseq (wr_array C 32 (pa_burn_stable_block_hash p))
     (wseq (wr_u32 C (pa_additional_data p)) (wseq (wr_array C 65 (pa_signature p)) (wr_u32 C (pa_payload_len p))))))))))"

definition preamble_deserialize :: "'x net_codec_scheme \<Rightarrow> Preamble reader" where
  "preamble_deserialize C fd =
     obind (rd_u32 C fd) (\<lambda>(peer_version, fd).
     obind (rd_u32 C fd) (\<lambda>(network_id, fd).
     obind (rd_u32 C fd) (\<lambda>(seq, fd).
     obind (rd_u64 C fd) (\<lambda>(burn_block_height, fd).
     obind (rd_array C 32 fd) (\<lambda>(burn_block_hash, fd).
     obind (rd_u64 C fd) (\<lambda>(burn_stable_block_height, fd).
     obind (rd_array C 32 fd) (\<lambda>(burn_stable_block_hash, fd).
     obind (rd_u32 C fd) (\<lambda>(additional_data, fd).
     obind (rd_array C 65 fd) (\<lambda>(signature, fd).
     obind (rd_u32 C fd) (\<lambda>(payload_len, fd).
     if payload_len < 5 then Err (DeserializeError ''Payload len is too small'')
     else if MAX_MESSAGE_LEN C \<le> payload_len then Err (DeserializeError ''Payload len is too big'')
     else if burn_block_height \<le> burn_stable_block_height
       then Err (DeserializeError ''Burn block height <= burn stable block height'')
     else Ok (\<lparr>pa_peer_version = peer_version, pa_network_id = network_id, pa_seq = seq,
            pa_burn_block_height = burn_block_height, pa_burn_block_hash = burn_block_hash,
            pa_burn_stable_block_height = burn_stable_block_height, pa_burn_stable_block_hash = burn_stable_block_hash,
            pa_additional_data = additional_data, pa_signature = signature, pa_payload_len = payload_len\<rparr>, fd)))))))))))"

definition neighbor_serialize :: "'x net_codec_scheme \<Rightarrow> NeighborAddress writer" where
  "neighbor_serialize C a =
     wseq (wr_array C 16 (na_addrbytes a)) (wseq (wr_u16 C (na_port a)) (wr_array C 20 (na_public_key_hash a)))"

definition neighbor_deserialize :: "'x net_codec_scheme \<Rightarrow> NeighborAddress reader" where
  "neighbor_deserialize C fd =
     obind (rd_array C 16 fd) (\<lambda>(addrbytes, fd).
     obind (rd_u16 C fd) (\<lambda>(port, fd).
     obind (rd_array C 20 fd) (\<lambda>(public_key_hash, fd).
     Ok (\<lparr>na_addrbytes = addrbytes, na_port = port, na_public_key_hash = public_key_hash\<rparr>, fd))))"

section \<open>Payloads\<close>

definition handshake_serialize :: "'x net_codec_scheme \<Rightarrow> HandshakeData writer" where
  "handshake_serialize C h =
     wseq (wr_array C 16 (hd_addrbytes h)) (wseq (wr_u16 C (hd_port h)) (wseq (wr_u16 C (hd_services h))
     (wseq (wr_array C 33 (hd_node_public_key h)) (wseq (wr_u64 C (hd_expire_block_height h)) (url_serialize C (hd_data_url h))))))"

definition handshake_deserialize :: "'x net_codec_scheme \<Rightarrow> HandshakeData reader" where
  "handshake_deserialize C fd =
     obind (rd_array C 16 fd) (\<lambda>(addrbytes, fd).
     obind (rd_u16 C fd) (\<lambda>(port, fd).
     if port = 0 then Err (DeserializeError ''Invalid handshake data: port is 0'')
     else
       obind (rd_u16 C fd) (\<lambda>(services, fd).
       obind (rd_array C 33 fd) (\<lambda>(node_public_key, fd).
       obind (rd_u64 C fd) (\<lambda>(expire_block_height, fd).
       obind (url_deserialize C fd) (\<lambda>(data_url, fd).
       Ok (\<lparr>hd_addrbytes = addrbytes, hd_port = port, hd_services = services, hd_node_public_key = node_public_key,
            hd_expire_block_height = expire_block_height, hd_data_url = data_url\<rparr>, fd)))))))"

definition accept_serialize :: "'x net_codec_scheme \<Rightarrow> HandshakeAcceptData writer" where
  "accept_serialize C a = wseq (handshake_serialize C (ha_handshake a)) (wr_u32 C (ha_heartbeat_interval a))"

definition accept_deserialize :: "'x net_codec_scheme \<Rightarrow> HandshakeAcceptData reader" where
  "accept_deserialize C fd =
     obind (handshake_deserialize C fd) (\<lambda>(handshake, fd).
     obind (rd_u32 C fd) (\<lambda>(heartbeat_interval, fd).
     Ok (\<lparr>ha_handshake = handshake, ha_heartbeat_interval = heartbeat_interval\<rparr>, fd)))"

definition nack_new :: "u32 \<Rightarrow> NackData" where
  "nack_new error_code = \<lparr>nk_error_code = error_code\<rparr>"

definition nack_serialize :: "'x net_codec_scheme \<Rightarrow> NackData writer" where
  "nack_serialize C n = wr_u32 C (nk_error_code n)"

definition nack_deserialize :: "'x net_codec_scheme \<Rightarrow> NackData reader" where
  "nack_deserialize C fd = obind (rd_u32 C fd) (\<lambda>(error_code, fd). Ok (\<lparr>nk_error_code = error_code\<rparr>, fd))"

definition contract_id_consensus_serialize :: "('c, 'n) msg_codec \<Rightarrow> 'c writer" where
  "contract_id_consensus_serialize C cid =
     wseq (wr_u8 C (cid_version C cid)) (wseq (wr_array C 20 (cid_hash C cid)) (wr_contract_name C (cid_name C cid)))"

definition contract_id_consensus_deserialize :: "('c, 'n) msg_codec \<Rightarrow> 'c reader" where
  "contract_id_consensus_deserialize C fd =
     obind (rd_u8 C fd) (\<lambda>(version, fd).
     obind (rd_array C 20 fd) (\<lambda>(hash, fd).
     obind (rd_contract_name C fd) (\<lambda>(name, fd).
     obind (ok_or (cid_new C version hash name) (DeserializeError ''Failed to make StacksAddress with given version'')) (\<lambda>qn.
     Ok (qn, fd)))))"

text \<open>The number of contracts goes into one byte; the conversion of the length panics.\<close>

definition dbs_serialize :: "('c, 'n) msg_codec \<Rightarrow> 'c StackerDBHandshakeData writer" where
  "dbs_serialize C d =
     (if 256 < length (sh_smart_contracts d) then Err ArrayTooLong
      else obind (from_opt (if length (sh_smart_contracts d) < 256 then Some (word_of_nat (length (sh_smart_contracts d)) :: u8) else None))
        (\<lambda>len_u8.
          wseq (wr_array C 20 (sh_rc_consensus_hash d))
            (wseq (wr_u8 C len_u8) (write_all (contract_id_consensus_serialize C) (sh_smart_contracts d)))))"

definition dbs_deserialize :: "('c, 'n) msg_codec \<Rightarrow> 'c StackerDBHandshakeData reader" where
  "dbs_deserialize C fd =
     obind (rd_array C 20 fd) (\<lambda>(rc_consensus_hash, fd).
     obind (rd_u8 C fd) (\<lambda>(len_u8, fd).
     obind (rd_many (contract_id_consensus_deserialize C) (unat len_u8) fd) (\<lambda>(smart_contracts, fd).
     Ok (\<lparr>sh_rc_consensus_hash = rc_consensus_hash, sh_smart_contracts = smart_contracts\<rparr>, fd))))"

definition relay_serialize :: "'x net_codec_scheme \<Rightarrow> RelayData writer" where
  "relay_serialize C r = wseq (neighbor_serialize C (re_peer r)) (wr_u32 C (re_seq r))"

definition relay_deserialize :: "'x net_codec_scheme \<Rightarrow> RelayData reader" where
  "relay_deserialize C fd =
     obind (neighbor_deserialize C fd) (\<lambda>(peer, fd).
     obind (rd_u32 C fd) (\<lambda>(seq, fd). Ok (\<lparr>re_peer = peer, re_seq = seq\<rparr>, fd)))"

definition message_id_serialize :: "'x net_codec_scheme \<Rightarrow> StacksMessageID writer" where
  "message_id_serialize C i = wr_u8 C (message_id_u8 i)"

definition message_id_deserialize :: "'x net_codec_scheme \<Rightarrow> StacksMessageID reader" where
  "message_id_deserialize C fd =
     obind (rd_u8 C fd) (\<lambda>(as_u8, fd).
     if as_u8 = message_id_u8 IdHandshake then Ok (IdHandshake, fd)
     else if as_u8 = message_id_u8 IdHandshakeAccept then Ok (IdHandshakeAccept, fd)
     else if as_u8 = message_id_u8 IdHandshakeReject then Ok (IdHandshakeReject, fd)
     else if as_u8 = message_id_u8 IdStackerDBHandshakeAccept then Ok (IdStackerDBHandshakeAccept, fd)
     else Err (DeserializeError ''Unknown message ID''))"

fun get_message_id :: "'c StacksMessageType \<Rightarrow> StacksMessageID" where
  "get_message_id (Handshake _) = IdHandshake"
| "get_message_id (HandshakeAccept _) = IdHandshakeAccept"
| "get_message_id HandshakeReject = IdHandshakeReject"
| "get_message_id (Nack _) = IdNack"
| "get_message_id (StackerDBHandshakeAccept _ _) = IdStackerDBHandshakeAccept"

fun payload_body :: "('c, 'n) msg_codec \<Rightarrow> 'c StacksMessageType writer" where
  "payload_body C (Handshake m) = handshake_serialize C m"
| "payload_body C (HandshakeAccept m) = accept_serialize C m"
| "payload_body C HandshakeReject = Ok []"
| "payload_body C (Nack m) = nack_serialize C m"
| "payload_body C (StackerDBHandshakeAccept h m) = wseq (accept_serialize C h) (dbs_serialize C m)"

definition payload_serialize :: "('c, 'n) msg_codec \<Rightarrow> 'c StacksMessageType writer" where
  "payload_serialize C m = wseq (message_id_serialize C (get_message_id m)) (payload_body C m)"

definition payload_deserialize :: "('c, 'n) msg_codec \<Rightarrow> 'c StacksMessageType reader" where
  "payload_deserialize C fd =
     obind (message_id_deserialize C fd) (\<lambda>(message_id, fd).
     case message_id of
       IdHandshake \<Rightarrow> obind (handshake_deserialize C fd) (\<lambda>(m, fd). Ok (Handshake m, fd))
     | IdHandshakeAccept \<Rightarrow> obind (accept_deserialize C fd) (\<lambda>(m, fd). Ok (HandshakeAccept m, fd))
     | IdHandshakeReject \<Rightarrow> Ok (HandshakeReject, fd)
     | IdNack \<Rightarrow> obind (nack_deserialize C fd) (\<lambda>(m, fd). Ok (Nack m, fd))
     | IdStackerDBHandshakeAccept \<Rightarrow>
         obind (accept_deserialize C fd) (\<lambda>(h, fd).
         obind (dbs_deserialize C fd) (\<lambda>(m, fd). Ok (StackerDBHandshakeAccept h m, fd))))"

section \<open>Messages\<close>

definition relayers_serialize :: "('c, 'n) msg_codec \<Rightarrow> RelayData list writer" where
  "relayers_serialize C = wr_relays C (relay_serialize C)"

definition message_serialize :: "('c, 'n) msg_codec \<Rightarrow> 'c StacksMessage writer" where
  "message_serialize C msg =
     wseq (preamble_serialize C (sm_preamble msg))
       (wseq (relayers_serialize C (sm_relayers msg)) (payload_serialize C (sm_payload msg)))"

definition deserialize_body_codec :: "('c, 'n) msg_codec \<Rightarrow> (RelayData list \<times> 'c StacksMessageType) reader" where
  "deserialize_body_codec C fd =
     obind (rd_relays_at_most C (relay_deserialize C) (MAX_RELAYERS_LEN C) fd) (\<lambda>(relayers, fd).
     obind (payload_deserialize C fd) (\<lambda>(payload, fd). Ok ((relayers, payload), fd)))"

definition deserialize_body ::
  "('c, 'n) msg_codec \<Rightarrow> bytes \<Rightarrow> (NetError, (RelayData list \<times> 'c StacksMessageType) \<times> bytes) outcome" where
  "deserialize_body C fd = map_err net_error_of_codec (deserialize_body_codec C fd)"

definition message_deserialize :: "('c, 'n) msg_codec \<Rightarrow> 'c StacksMessage reader" where
  "message_deserialize C fd =
     obind (preamble_deserialize C fd) (\<lambda>(preamble, fd).
     if MAX_MESSAGE_LEN C - PREAMBLE_ENCODED_SIZE C < pa_payload_len preamble
     then Err (DeserializeError ''Message would be too big'')
     else
       obind (deserialize_body_codec C fd) (\<lambda>((relayers, payload), fd).
       Ok (\<lparr>sm_preamble = preamble, sm_relayers = relayers, sm_payload = payload\<rparr>, fd)))"

definition message_new :: "u32 \<Rightarrow> u32 \<Rightarrow> u64 \<Rightarrow> bytes \<Rightarrow> u64 \<Rightarrow> bytes \<Rightarrow> 'c StacksMessageType \<Rightarrow> 'c StacksMessage" where
  "message_new peer_version network_id block_height burn_header_hash stable_block_height stable_burn_header_hash message =
     \<lparr>sm_preamble = preamble_new peer_version network_id block_height burn_header_hash stable_block_height stable_burn_header_hash 0,
      sm_relayers = [], sm_payload = message\<rparr>"

section \<open>Signatures\<close>

text \<open>Keys: signing and verifying a digest, and the buffer of a public key.\<close>

record ('k, 'p) keys =
  ks_sha :: "bytes \<Rightarrow> bytes"  \<comment> \<open>\<open>Sha512_256\<close>, 32 bytes\<close>
  ks_sign :: "'k \<Rightarrow> bytes \<Rightarrow> (string, bytes) outcome"
  ks_verify :: "'p \<Rightarrow> bytes \<Rightarrow> bytes \<Rightarrow> (string, bool) outcome"
  ks_public :: "'k \<Rightarrow> 'p"
  ks_to_buffer :: "'p \<Rightarrow> bytes"
  ks_from_buffer :: "bytes \<Rightarrow> 'p option"

definition preamble_digest ::
  "'x net_codec_scheme \<Rightarrow> ('k, 'p) keys \<Rightarrow> Preamble \<Rightarrow> bytes \<Rightarrow> (CodecError, bytes) outcome" where
  "preamble_digest C S p message_bits =
     obind (preamble_serialize C (p\<lparr>pa_signature := SIGNATURE_EMPTY\<rparr>)) (\<lambda>preamble_bits.
     Ok (ks_sha S (preamble_bits @ message_bits)))"

definition preamble_sign ::
  "'x net_codec_scheme \<Rightarrow> ('k, 'p) keys \<Rightarrow> Preamble \<Rightarrow> bytes \<Rightarrow> 'k \<Rightarrow> (NetError, Preamble) outcome" where
  "preamble_sign C S p message_bits privkey =
     obind (map_err net_error_of_codec (preamble_digest C S p message_bits)) (\<lambda>digest_bits.
     obind (map_err NeSigningError (ks_sign S privkey digest_bits)) (\<lambda>sig.
     Ok (p\<lparr>pa_signature := sig\<rparr>)))"

definition preamble_verify ::
  "'x net_codec_scheme \<Rightarrow> ('k, 'p) keys \<Rightarrow> Preamble \<Rightarrow> bytes \<Rightarrow> 'p \<Rightarrow> (NetError, unit) outcome" where
  "preamble_verify C S p message_bits pubkey =
     obind (map_err net_error_of_codec (preamble_digest C S p message_bits)) (\<lambda>digest_bits.
     obind (map_err (\<lambda>_. NeVerifyingError ''Failed to verify signature'') (ks_verify S pubkey digest_bits (pa_signature p))) (\<lambda>res.
     if res then Ok () else Err (NeVerifyingError ''Invalid message signature'')))"

definition message_bits :: "('c, 'n) msg_codec \<Rightarrow> 'c StacksMessage \<Rightarrow> (CodecError, bytes) outcome" where
  "message_bits C msg = wseq (relayers_serialize C (sm_relayers msg)) (payload_serialize C (sm_payload msg))"

definition do_sign ::
  "('c, 'n) msg_codec \<Rightarrow> ('k, 'p) keys \<Rightarrow> 'c StacksMessage \<Rightarrow> 'k \<Rightarrow> (NetError, 'c StacksMessage) outcome" where
  "do_sign C S msg private_key =
     obind (map_err net_error_of_codec (message_bits C msg)) (\<lambda>bits.
     obind (preamble_sign C S ((sm_preamble msg)\<lparr>pa_payload_len := word_of_nat (length bits)\<rparr>) bits private_key) (\<lambda>p.
     Ok (msg\<lparr>sm_preamble := p\<rparr>)))"

definition message_sign ::
  "('c, 'n) msg_codec \<Rightarrow> ('k, 'p) keys \<Rightarrow> 'c StacksMessage \<Rightarrow> u32 \<Rightarrow> 'k \<Rightarrow> (NetError, 'c StacksMessage) outcome" where
  "message_sign C S msg seq private_key =
     (if sm_relayers msg \<noteq> [] then Err NeInvalidMessage
      else do_sign C S (msg\<lparr>sm_preamble := (sm_preamble msg)\<lparr>pa_seq := seq\<rparr>\<rparr>) private_key)"

definition sign_relay ::
  "('c, 'n) msg_codec \<Rightarrow> ('k, 'p) keys \<Rightarrow> 'c StacksMessage \<Rightarrow> 'k \<Rightarrow> u32 \<Rightarrow> NeighborAddress \<Rightarrow>
     (NetError, 'c StacksMessage) outcome" where
  "sign_relay C S msg private_key our_seq our_addr =
     (if unat (MAX_RELAYERS_LEN C) \<le> length (sm_relayers msg) then Err NeInvalidMessage
      else if \<exists>relayer \<in> set (sm_relayers msg). na_public_key_hash (re_peer relayer) = na_public_key_hash our_addr
        then Err NeInvalidMessage
      else do_sign C S (msg\<lparr>sm_relayers := sm_relayers msg @ [\<lparr>re_peer = our_addr, re_seq = pa_seq (sm_preamble msg)\<rparr>],
             sm_preamble := (sm_preamble msg)\<lparr>pa_seq := our_seq\<rparr>\<rparr>) private_key)"

definition verify_secp256k1 ::
  "('c, 'n) msg_codec \<Rightarrow> ('k, 'p) keys \<Rightarrow> 'c StacksMessage \<Rightarrow> bytes \<Rightarrow> (NetError, unit) outcome" where
  "verify_secp256k1 C S msg public_key =
     obind (ok_or (ks_from_buffer S public_key) (NeDeserializeError ''Failed to decode public key'')) (\<lambda>secp256k1_pubkey.
     obind (map_err net_error_of_codec (message_bits C msg)) (\<lambda>bits.
     preamble_verify C S (sm_preamble msg) bits secp256k1_pubkey))"

end
