(* ===== verification/Net_Session.thy ===== *)
theory Net_Session
  imports Net_Message
begin

text \<open>
  Sessions with a peer (\<open>src/net/session.rs\<close>): the local peer that is made up for one session, its
  handshake, and the exchange that begins the session. The requests to the node, the socket and
  random numbers are parameters.
\<close>

unbundle bit_operations_syntax

section \<open>The local peer\<close>

record SocketAddr =
  so_addr :: bytes  \<comment> \<open>the 16 bytes of \<open>PeerAddress::from_socketaddr\<close>\<close>
  so_port :: u16

record 'k LocalPeer =
  lp_network_id :: u32
  lp_parent_network_id :: u32
  lp_nonce :: bytes
  lp_private_key :: 'k
  lp_private_key_expire :: u64
  lp_addrbytes :: bytes
  lp_port :: u16
  lp_services :: u16
  lp_data_url :: UrlString

text \<open>What \<open>/v2/info\<close> says, as far as it is used.\<close>

record RPCPeerInfoData =
  pi_peer_version :: u32
  pi_pox_consensus :: bytes
  pi_burn_block_height :: u64
  pi_stable_pox_consensus :: bytes
  pi_stable_burn_block_height :: u64
  pi_network_id :: u32
  pi_parent_network_id :: u32

text \<open>
  The environment: random bytes and keys, texts of ports and addresses, the two requests (the
  second gives the burn block hashes of the sortitions found), connecting, and the peer, as
  what it sends back for all that it has been sent.
\<close>

record 'k net_env =
  nv_random_key :: 'k
  nv_random_nonce :: bytes
  nv_set_compress_public :: "'k \<Rightarrow> 'k"
  nv_show_port :: "u16 \<Rightarrow> bytes"
  nv_show_socketaddr :: "bytes \<Rightarrow> u16 \<Rightarrow> bytes"
  nv_get_info :: "SocketAddr \<Rightarrow> (string, RPCPeerInfoData) outcome"
  nv_get_sortition_info :: "SocketAddr \<Rightarrow> bytes \<Rightarrow> (string, bytes list) outcome"
  nv_connect :: "SocketAddr \<Rightarrow> (string, unit) outcome"
  nv_peer :: "SocketAddr \<Rightarrow> bytes \<Rightarrow> bytes"

definition local_peer_new ::
  "'k net_env \<Rightarrow> u32 \<Rightarrow> u32 \<Rightarrow> bytes \<Rightarrow> u16 \<Rightarrow> 'k option \<Rightarrow> u64 \<Rightarrow> UrlString \<Rightarrow> 'k LocalPeer" where
  "local_peer_new N network_id parent_network_id addrbytes port privkey key_expire data_url =
     \<lparr>lp_network_id = network_id, lp_parent_network_id = parent_network_id, lp_nonce = nv_random_nonce N,
      lp_private_key = nv_set_compress_public N (case privkey of Some k \<Rightarrow> k | None \<Rightarrow> nv_random_key N),
      lp_private_key_expire = key_expire, lp_addrbytes = addrbytes, lp_port = port,
      lp_services = SERVICE_RELAY OR SERVICE_RPC, lp_data_url = data_url\<rparr>"

definition handshake_from_local_peer ::
  "'x net_codec_scheme \<Rightarrow> ('k, 'p) keys \<Rightarrow> 'k net_env \<Rightarrow> 'k LocalPeer \<Rightarrow> HandshakeData option" where
  "handshake_from_local_peer C S N local_peer =
     do { data_url \<leftarrow>
            (if has_routable_host C (lp_data_url local_peer) then Some (lp_data_url local_peer)
             else case get_port C (lp_data_url local_peer) of
               Some data_port \<Rightarrow> url_try_from C (as_bytes ''http://'' @ nv_show_socketaddr N (lp_addrbytes local_peer) data_port)
             | None \<Rightarrow> url_try_from C []);
          Some \<lparr>hd_addrbytes = lp_addrbytes local_peer, hd_port = lp_port local_peer, hd_services = lp_services local_peer,
                hd_node_public_key = ks_to_buffer S (ks_public S (lp_private_key local_peer)),
                hd_expire_block_height = lp_private_key_expire local_peer, hd_data_url = data_url\<rparr> }"

section \<open>Sessions\<close>

text \<open>The socket is the address it is connected to, what was sent, and what was read of the answers.\<close>

record ('k, 'c) NodeSession =
  ns_local_peer :: "'k LocalPeer"
  ns_peer_info :: RPCPeerInfoData
  ns_burn_block_hash :: bytes
  ns_stable_burn_block_hash :: bytes
  ns_socket :: SocketAddr
  ns_sent :: bytes
  ns_read :: nat
  ns_handshake_accept_data :: "HandshakeData option"
  ns_stackerdb_accept_data :: "'c StackerDBHandshakeData option"
  ns_seq :: u32

definition make_peer_message ::
  "('c, 'n) msg_codec \<Rightarrow> ('k, 'p) keys \<Rightarrow> ('k, 'c) NodeSession \<Rightarrow> 'c StacksMessageType \<Rightarrow>
     (string, ('k, 'c) NodeSession \<times> 'c StacksMessage) outcome" where
  "make_peer_message C S s payload =
     obind (map_err (\<lambda>_. ''Failed to sign message'')
        (message_sign C S
          (message_new (pi_peer_version (ns_peer_info s)) (pi_network_id (ns_peer_info s)) (pi_burn_block_height (ns_peer_info s))
             (ns_burn_block_hash s) (pi_stable_burn_block_height (ns_peer_info s)) (ns_stable_burn_block_hash s) payload)
          (ns_seq s) (lp_private_key (ns_local_peer s)))) (\<lambda>msg.
     Ok (s\<lparr>ns_seq := ns_seq s + 1\<rparr>, msg))"

definition send_peer_message ::
  "('c, 'n) msg_codec \<Rightarrow> ('k, 'c) NodeSession \<Rightarrow> 'c StacksMessage \<Rightarrow> (string, ('k, 'c) NodeSession) outcome" where
  "send_peer_message C s msg =
     obind (map_err (\<lambda>_. ''Failed to send message'') (message_serialize C msg)) (\<lambda>b.
     Ok (s\<lparr>ns_sent := ns_sent s @ b\<rparr>))"

definition recv_peer_message ::
  "('c, 'n) msg_codec \<Rightarrow> 'k net_env \<Rightarrow> ('k, 'c) NodeSession \<Rightarrow> (string, ('k, 'c) NodeSession \<times> 'c StacksMessage) outcome" where
  "recv_peer_message C N s =
     (let inbox = drop (ns_read s) (nv_peer N (ns_socket s) (ns_sent s)) in
      obind (map_err (\<lambda>_. ''Failed to receive message'') (message_deserialize C inbox)) (\<lambda>(msg, rest).
      Ok (s\<lparr>ns_read := ns_read s + (length inbox - length rest)\<rparr>, msg)))"

text \<open>The burn block hash of the last sortition found for a consensus hash.\<close>

definition burn_hash_of :: "'k net_env \<Rightarrow> SocketAddr \<Rightarrow> bytes \<Rightarrow> (string, bytes) outcome" where
  "burn_hash_of N data_addr consensus =
     obind (map_err (\<lambda>_. ''Failed to decode response from /v3/sortitions'') (nv_get_sortition_info N data_addr consensus)) (\<lambda>sortitions.
     if sortitions = [] then Err ''No sortition returned'' else Ok (last sortitions))"

definition accept_response ::
  "('k, 'c) NodeSession \<Rightarrow> 'c StacksMessageType \<Rightarrow> (string, ('k, 'c) NodeSession) outcome" where
  "accept_response session payload =
     (case payload of
        HandshakeAccept handshake_data \<Rightarrow> Ok (session\<lparr>ns_handshake_accept_data := Some (ha_handshake handshake_data)\<rparr>)
      | StackerDBHandshakeAccept handshake_data stackerdb_data \<Rightarrow>
          Ok (session\<lparr>ns_handshake_accept_data := Some (ha_handshake handshake_data),
                      ns_stackerdb_accept_data := Some stackerdb_data\<rparr>)
      | _ \<Rightarrow> Err ''Peer returned unexpected message (expected HandshakeAccept variant)'')"

definition session_begin ::
  "('c, 'n) msg_codec \<Rightarrow> ('k, 'p) keys \<Rightarrow> 'k net_env \<Rightarrow> SocketAddr \<Rightarrow> SocketAddr \<Rightarrow> (string, ('k, 'c) NodeSession) outcome" where
  "session_begin C S N data_addr replica_peer_addr =
     obind (map_err (\<lambda>_. ''Failed to query /v2/info'') (nv_get_info N data_addr)) (\<lambda>peer_info.
     obind (burn_hash_of N data_addr (pi_pox_consensus peer_info)) (\<lambda>burn_block_hash.
     obind (burn_hash_of N data_addr (pi_stable_pox_consensus peer_info)) (\<lambda>stable_burn_block_hash.
     obind (from_opt (url_try_from C (as_bytes ''http://127.0.0.1:'' @ nv_show_port N (so_port data_addr)))) (\<lambda>data_url.
     let local_peer = local_peer_new N (pi_network_id peer_info) (pi_parent_network_id peer_info) (so_addr replica_peer_addr)
           (so_port replica_peer_addr) (Some (nv_random_key N)) (- 1) data_url in
     obind (map_err (\<lambda>_. ''Failed to open'') (nv_connect N replica_peer_addr)) (\<lambda>_.
     let session = \<lparr>ns_local_peer = local_peer, ns_peer_info = peer_info, ns_burn_block_hash = burn_block_hash,
           ns_stable_burn_block_hash = stable_burn_block_hash, ns_socket = replica_peer_addr, ns_sent = [], ns_read = 0,
           ns_handshake_accept_data = None, ns_stackerdb_accept_data = None, ns_seq = 0\<rparr> in
     obind (from_opt (handshake_from_local_peer C S N local_peer)) (\<lambda>handshake_data.
     obind (make_peer_message C S session (Handshake handshake_data)) (\<lambda>(session, handshake).
     obind (send_peer_message C session handshake) (\<lambda>session.
     obind (recv_peer_message C N session) (\<lambda>(session, resp).
     accept_response session (sm_payload resp))))))))))"

end
