(* ===== verification/Net_Props.thy ===== *)
theory Net_Props
  imports Net_Session
begin

text \<open>
  Properties of the peer network: what a well-formed message becomes on the wire and back, that a
  signed message is accepted by its receiver, and what a session takes for an answer.
\<close>

section \<open>Laws of the codec\<close>

definition msg_codec_ok :: "('c, 'n) msg_codec \<Rightarrow> nat \<Rightarrow> bool" where
  "msg_codec_ok C limit \<longleftrightarrow> net_ok C limit \<and>
     (\<forall>w r xs n. length xs \<le> unat n \<and> (\<forall>x \<in> set xs. readable w r x) \<longrightarrow>
        (\<exists>b. wr_relays C w xs = Ok b \<and> 4 \<le> length b \<and> (\<forall>rest. rd_relays_at_most C r n (b @ rest) = Ok (xs, rest))))"

lemma msg_codec_net: "msg_codec_ok C limit \<Longrightarrow> net_ok C limit"
  by (simp add: msg_codec_ok_def)

section \<open>Parts of a message\<close>

definition preamble_ok :: "'x net_codec_scheme \<Rightarrow> Preamble \<Rightarrow> bool" where
  "preamble_ok C p \<longleftrightarrow> length (pa_burn_block_hash p) = 32 \<and> length (pa_burn_stable_block_hash p) = 32 \<and>
     length (pa_signature p) = 65 \<and> pa_burn_stable_block_height p < pa_burn_block_height p \<and>
     5 \<le> pa_payload_len p \<and> pa_payload_len p \<le> MAX_MESSAGE_LEN C - PREAMBLE_ENCODED_SIZE C \<and> pa_payload_len p < MAX_MESSAGE_LEN C"

definition relay_ok :: "RelayData \<Rightarrow> bool" where
  "relay_ok r \<longleftrightarrow> length (na_addrbytes (re_peer r)) = 16 \<and> length (na_public_key_hash (re_peer r)) = 20"

definition handshake_ok :: "'x net_codec_scheme \<Rightarrow> HandshakeData \<Rightarrow> bool" where
  "handshake_ok C h \<longleftrightarrow> length (hd_addrbytes h) = 16 \<and> hd_port h \<noteq> 0 \<and> length (hd_node_public_key h) = 33 \<and> block_url C (hd_data_url h)"

definition contract_ok :: "('c, 'n) msg_codec \<Rightarrow> 'c \<Rightarrow> bool" where
  "contract_ok C c \<longleftrightarrow> length (cid_hash C c) = 20 \<and> readable (wr_contract_name C) (rd_contract_name C) (cid_name C c) \<and>
     cid_new C (cid_version C c) (cid_hash C c) (cid_name C c) = Some c"

definition dbs_ok :: "('c, 'n) msg_codec \<Rightarrow> 'c StackerDBHandshakeData \<Rightarrow> bool" where
  "dbs_ok C d \<longleftrightarrow> length (sh_rc_consensus_hash d) = 20 \<and> length (sh_smart_contracts d) < 256 \<and>
     (\<forall>c \<in> set (sh_smart_contracts d). contract_ok C c)"

fun payload_ok :: "('c, 'n) msg_codec \<Rightarrow> 'c StacksMessageType \<Rightarrow> bool" where
  "payload_ok C (Handshake h) = handshake_ok C h"
| "payload_ok C (HandshakeAccept a) = handshake_ok C (ha_handshake a)"
| "payload_ok C HandshakeReject = True"
| "payload_ok C (Nack n) = True"
| "payload_ok C (StackerDBHandshakeAccept a d) = (handshake_ok C (ha_handshake a) \<and> dbs_ok C d)"

fun is_nack :: "'c StacksMessageType \<Rightarrow> bool" where
  "is_nack (Nack _) = True"
| "is_nack _ = False"

lemma readable_url: "net_ok C limit \<Longrightarrow> block_url C s \<Longrightarrow> readable (url_serialize C) (url_deserialize C) s"
  by (rule reads_back_readable [OF url_back])

lemma preamble_back:
  assumes C: "net_ok C limit" and p: "preamble_ok C p"
  shows "readable (preamble_serialize C) (preamble_deserialize C) p"
  using p by (auto simp: readable_def reads_back_def preamble_serialize_def preamble_deserialize_def preamble_ok_def net_simps [OF C])

lemma relay_back:
  assumes C: "net_ok C limit" and r: "relay_ok r"
  shows "readable (relay_serialize C) (relay_deserialize C) r"
  using r by (auto simp: readable_def reads_back_def relay_serialize_def relay_deserialize_def neighbor_serialize_def
      neighbor_deserialize_def relay_ok_def net_simps [OF C])

lemma handshake_back:
  assumes C: "net_ok C limit" and h: "handshake_ok C h"
  shows "readable (handshake_serialize C) (handshake_deserialize C) h"
proof -
  have url: "block_url C (hd_data_url h)" using h by (simp add: handshake_ok_def)
  show ?thesis using h
    by (auto simp: readable_def reads_back_def handshake_serialize_def handshake_deserialize_def handshake_ok_def net_simps [OF C]
        readable_written [OF readable_url [OF C url]])
qed

lemma accept_back:
  assumes C: "net_ok C limit" and h: "handshake_ok C (ha_handshake a)"
  shows "readable (accept_serialize C) (accept_deserialize C) a"
  by (auto simp: readable_def reads_back_def accept_serialize_def accept_deserialize_def net_simps [OF C]
      readable_written [OF handshake_back [OF C h]])

lemma contract_back:
  assumes C: "net_ok C limit" and c: "contract_ok C c"
  shows "readable (contract_id_consensus_serialize C) (contract_id_consensus_deserialize C) c"
proof -
  have name: "readable (wr_contract_name C) (rd_contract_name C) (cid_name C c)" using c by (simp add: contract_ok_def)
  show ?thesis using c
    by (auto simp: readable_def reads_back_def contract_id_consensus_serialize_def contract_id_consensus_deserialize_def
        contract_ok_def net_simps [OF C] readable_written [OF name])
qed

lemma dbs_back:
  assumes C: "net_ok C limit" and d: "dbs_ok C d"
  shows "readable (dbs_serialize C) (dbs_deserialize C) d"
proof -
  let ?cs = "sh_smart_contracts d"
  have len: "length ?cs < 256" using d by (simp add: dbs_ok_def)
  have "\<forall>c \<in> set ?cs. readable (contract_id_consensus_serialize C) (contract_id_consensus_deserialize C) c"
    using d contract_back [OF C] by (simp add: dbs_ok_def)
  from rd_many_back [OF this] obtain b where
    b: "write_all (contract_id_consensus_serialize C) ?cs = Ok b"
      "\<And>rest. rd_many (contract_id_consensus_deserialize C) (length ?cs) (b @ rest) = Ok (?cs, rest)" by blast
  have u: "unat (word_of_nat (length ?cs) :: u8) = length ?cs" using len by (simp add: unat_of_nat)
  show ?thesis using d b u len
    by (auto simp: readable_def reads_back_def dbs_serialize_def dbs_deserialize_def dbs_ok_def net_simps [OF C])
qed

lemma payload_back:
  assumes C: "net_ok C limit" and m: "payload_ok C m"
  shows "\<exists>b. payload_serialize C m = Ok b \<and> 1 \<le> length b \<and>
     (\<forall>rest. payload_deserialize C (b @ rest) = (if is_nack m then Err (DeserializeError ''Unknown message ID'') else Ok (m, rest)))"
proof (cases m)
  case (Handshake h)
  then show ?thesis using readable_written [OF handshake_back [OF C]] m
    by (auto simp: payload_serialize_def payload_deserialize_def message_id_serialize_def message_id_deserialize_def net_simps [OF C])
next
  case (HandshakeAccept a)
  then show ?thesis using readable_written [OF accept_back [OF C]] m
    by (auto simp: payload_serialize_def payload_deserialize_def message_id_serialize_def message_id_deserialize_def net_simps [OF C])
next
  case HandshakeReject
  then show ?thesis
    by (auto simp: payload_serialize_def payload_deserialize_def message_id_serialize_def message_id_deserialize_def net_simps [OF C])
next
  case (Nack n)
  then show ?thesis
    by (auto simp: payload_serialize_def payload_deserialize_def message_id_serialize_def message_id_deserialize_def
        nack_serialize_def net_simps [OF C])
next
  case (StackerDBHandshakeAccept a d)
  then show ?thesis using readable_written [OF accept_back [OF C]] readable_written [OF dbs_back [OF C]] m
    by (auto simp: payload_serialize_def payload_deserialize_def message_id_serialize_def message_id_deserialize_def net_simps [OF C])
qed

lemma body_back:
  assumes C: "msg_codec_ok C limit" and rs: "length rs \<le> unat (MAX_RELAYERS_LEN C)" "\<forall>r \<in> set rs. relay_ok r" and m: "payload_ok C m"
  shows "\<exists>b. wseq (relayers_serialize C rs) (payload_serialize C m) = Ok b \<and> 5 \<le> length b \<and>
     (\<forall>rest. deserialize_body_codec C (b @ rest) =
        (if is_nack m then Err (DeserializeError ''Unknown message ID'') else Ok ((rs, m), rest)))"
proof -
  note net = msg_codec_net [OF C]
  have "\<forall>r \<in> set rs. readable (relay_serialize C) (relay_deserialize C) r" using rs(2) relay_back [OF net] by blast
  then obtain b1 where b1: "relayers_serialize C rs = Ok b1" "4 \<le> length b1"
    "\<And>rest. rd_relays_at_most C (relay_deserialize C) (MAX_RELAYERS_LEN C) (b1 @ rest) = Ok (rs, rest)"
    using C rs(1) unfolding msg_codec_ok_def relayers_serialize_def by blast
  obtain b2 where b2: "payload_serialize C m = Ok b2" "1 \<le> length b2"
    "\<And>rest. payload_deserialize C (b2 @ rest) = (if is_nack m then Err (DeserializeError ''Unknown message ID'') else Ok (m, rest))"
    using payload_back [OF net m] by blast
  show ?thesis using b1 b2 by (intro exI [where x = "b1 @ b2"]) (auto simp: deserialize_body_codec_def)
qed

definition message_ok :: "('c, 'n) msg_codec \<Rightarrow> 'c StacksMessage \<Rightarrow> bool" where
  "message_ok C msg \<longleftrightarrow> preamble_ok C (sm_preamble msg) \<and> length (sm_relayers msg) \<le> unat (MAX_RELAYERS_LEN C) \<and>
     (\<forall>r \<in> set (sm_relayers msg). relay_ok r) \<and> payload_ok C (sm_payload msg)"

section \<open>Properties\<close>

lemma message_back:
  assumes "msg_codec_ok C limit" and "message_ok C msg"
  shows "\<exists>b. message_serialize C msg = Ok b \<and>
     (\<forall>rest. message_deserialize C (b @ rest) =
        (if is_nack (sm_payload msg) then Err (DeserializeError ''Unknown message ID'') else Ok (msg, rest)))"
proof -
  note net = msg_codec_net [OF assms(1)]
  have p: "preamble_ok C (sm_preamble msg)" using assms(2) by (simp add: message_ok_def)
  then have fits: "\<not> MAX_MESSAGE_LEN C - PREAMBLE_ENCODED_SIZE C < pa_payload_len (sm_preamble msg)"
    by (simp add: preamble_ok_def not_less)
  obtain b where "wseq (relayers_serialize C (sm_relayers msg)) (payload_serialize C (sm_payload msg)) = Ok b"
    "\<And>rest. deserialize_body_codec C (b @ rest) =
        (if is_nack (sm_payload msg) then Err (DeserializeError ''Unknown message ID'') else Ok ((sm_relayers msg, sm_payload msg), rest))"
    using body_back [OF assms(1), of "sm_relayers msg" "sm_payload msg"] assms(2) by (auto simp: message_ok_def)
  then show ?thesis using readable_written [OF preamble_back [OF net p]] fits
    by (auto simp: message_serialize_def message_deserialize_def)
qed

text \<open>
  C12. Messages on the wire. Every well-formed message can be written. Reading it back, with
  anything behind it, gives the message, except for a \<open>Nack\<close>: its number is written but not
  known to the reader, so that a negative answer is always an error of decoding.
\<close>

theorem message_roundtrip:
  assumes "msg_codec_ok C limit" and "message_ok C msg"
  shows "\<exists>b. message_serialize C msg = Ok b \<and>
     (\<forall>rest. message_deserialize C (b @ rest) =
        (if is_nack (sm_payload msg) then Err (DeserializeError ''Unknown message ID'') else Ok (msg, rest)))"
  by (rule message_back [OF assms])

text \<open>What is relied on of keys: signing works, and what was signed verifies under the public key.\<close>

definition keys_ok :: "('k, 'p) keys \<Rightarrow> bool" where
  "keys_ok S \<longleftrightarrow> (\<forall>k d. \<exists>sig. ks_sign S k d = Ok sig \<and> length sig = 65 \<and> ks_verify S (ks_public S k) d sig = Ok True) \<and>
     (\<forall>p. ks_from_buffer S (ks_to_buffer S p) = Some p)"

lemma do_sign_verifies:
  assumes C: "msg_codec_ok C limit" and S: "keys_ok S"
    and hashes: "length (pa_burn_block_hash (sm_preamble msg)) = 32" "length (pa_burn_stable_block_hash (sm_preamble msg)) = 32"
    and bits: "message_bits C msg = Ok bits"
  shows "\<exists>sig. do_sign C S msg k = Ok (msg\<lparr>sm_preamble := (sm_preamble msg)\<lparr>pa_payload_len := word_of_nat (length bits), pa_signature := sig\<rparr>\<rparr>) \<and>
     length sig = 65 \<and>
     verify_secp256k1 C S (msg\<lparr>sm_preamble := (sm_preamble msg)\<lparr>pa_payload_len := word_of_nat (length bits), pa_signature := sig\<rparr>\<rparr>)
       (ks_to_buffer S (ks_public S k)) = Ok ()"
proof -
  let ?p = "(sm_preamble msg)\<lparr>pa_payload_len := word_of_nat (length bits)\<rparr>"
  have "length SIGNATURE_EMPTY = 65" by (simp add: SIGNATURE_EMPTY_def)
  then obtain d where d: "\<And>sig. preamble_digest C S (?p\<lparr>pa_signature := sig\<rparr>) bits = Ok d" "preamble_digest C S ?p bits = Ok d"
    using hashes by (simp add: preamble_digest_def preamble_serialize_def net_simps [OF msg_codec_net [OF C]])
  obtain sig where sig: "ks_sign S k d = Ok sig" "length sig = 65" "ks_verify S (ks_public S k) d sig = Ok True"
    using S unfolding keys_ok_def by blast
  have "do_sign C S msg k = Ok (msg\<lparr>sm_preamble := ?p\<lparr>pa_signature := sig\<rparr>\<rparr>)"
    using bits d(2) sig(1) by (simp add: do_sign_def preamble_sign_def)
  moreover have "message_bits C (msg\<lparr>sm_preamble := ?p\<lparr>pa_signature := sig\<rparr>\<rparr>) = Ok bits"
    using bits by (simp add: message_bits_def)
  then have "verify_secp256k1 C S (msg\<lparr>sm_preamble := ?p\<lparr>pa_signature := sig\<rparr>\<rparr>) (ks_to_buffer S (ks_public S k)) = Ok ()"
    using d(1) sig(3) S by (simp add: verify_secp256k1_def preamble_verify_def keys_ok_def)
  ultimately show ?thesis using sig(2) by (intro exI [where x = sig]) simp
qed

definition session_ok :: "('c, 'n) msg_codec \<Rightarrow> ('k, 'c) NodeSession \<Rightarrow> bool" where
  "session_ok C s \<longleftrightarrow> length (ns_burn_block_hash s) = 32 \<and> length (ns_stable_burn_block_hash s) = 32 \<and>
     pi_stable_burn_block_height (ns_peer_info s) < pi_burn_block_height (ns_peer_info s)"

text \<open>A payload that fits a message, with no relayers before it.\<close>

definition payload_fits :: "('c, 'n) msg_codec \<Rightarrow> 'c StacksMessageType \<Rightarrow> bool" where
  "payload_fits C m \<longleftrightarrow> payload_ok C m \<and> (\<forall>b. wseq (relayers_serialize C []) (payload_serialize C m) = Ok b \<longrightarrow>
     length b \<le> unat (MAX_MESSAGE_LEN C - PREAMBLE_ENCODED_SIZE C) \<and> length b < unat (MAX_MESSAGE_LEN C))"

lemma sent_back:
  assumes "msg_codec_ok C limit" and "keys_ok S" and "session_ok C s" and "payload_fits C payload"
  shows "\<exists>msg b. make_peer_message C S s payload = Ok (s\<lparr>ns_seq := ns_seq s + 1\<rparr>, msg) \<and>
     pa_seq (sm_preamble msg) = ns_seq s \<and> sm_payload msg = payload \<and> message_serialize C msg = Ok b \<and>
     (\<forall>rest. message_deserialize C (b @ rest) =
        (if is_nack payload then Err (DeserializeError ''Unknown message ID'') else Ok (msg, rest))) \<and>
     verify_secp256k1 C S msg (ks_to_buffer S (ks_public S (lp_private_key (ns_local_peer s)))) = Ok ()"
proof -
  let ?k = "lp_private_key (ns_local_peer s)"
  let ?m = "(message_new (pi_peer_version (ns_peer_info s)) (pi_network_id (ns_peer_info s)) (pi_burn_block_height (ns_peer_info s))
      (ns_burn_block_hash s) (pi_stable_burn_block_height (ns_peer_info s)) (ns_stable_burn_block_hash s) payload)"
  let ?m1 = "?m\<lparr>sm_preamble := (sm_preamble ?m)\<lparr>pa_seq := ns_seq s\<rparr>\<rparr>"
  have parts: "sm_relayers ?m1 = []" "sm_payload ?m1 = payload" by (simp_all add: message_new_def)
  obtain bits where bits: "message_bits C ?m1 = Ok bits" "5 \<le> length bits"
    using body_back [OF assms(1), of "[]" payload] assms(4) unfolding message_bits_def parts payload_fits_def by auto
  have fits: "length bits \<le> unat (MAX_MESSAGE_LEN C - PREAMBLE_ENCODED_SIZE C)" "length bits < unat (MAX_MESSAGE_LEN C)"
    using assms(4) bits(1) unfolding message_bits_def parts payload_fits_def by blast+
  have hashes: "length (pa_burn_block_hash (sm_preamble ?m1)) = 32" "length (pa_burn_stable_block_hash (sm_preamble ?m1)) = 32"
    using assms(3) by (simp_all add: message_new_def preamble_new_def session_ok_def)
  obtain sig where sig: "do_sign C S ?m1 ?k = Ok (?m1\<lparr>sm_preamble := (sm_preamble ?m1)\<lparr>pa_payload_len := word_of_nat (length bits), pa_signature := sig\<rparr>\<rparr>)"
    "length sig = 65"
    "verify_secp256k1 C S (?m1\<lparr>sm_preamble := (sm_preamble ?m1)\<lparr>pa_payload_len := word_of_nat (length bits), pa_signature := sig\<rparr>\<rparr>)
       (ks_to_buffer S (ks_public S ?k)) = Ok ()"
    using do_sign_verifies [OF assms(1,2) hashes bits(1), of ?k] by blast
  let ?msg = "?m1\<lparr>sm_preamble := (sm_preamble ?m1)\<lparr>pa_payload_len := word_of_nat (length bits), pa_signature := sig\<rparr>\<rparr>"
  have "length bits < 2 ^ 32" using fits(2) unsigned_less [of "MAX_MESSAGE_LEN C", where 'a = nat] by simp
  then have len: "unat (word_of_nat (length bits) :: u32) = length bits" by (simp add: unat_of_nat)
  have "message_ok C ?msg" using assms(3,4) hashes sig(2) bits(2) fits len
    by (simp add: message_ok_def preamble_ok_def message_new_def preamble_new_def session_ok_def payload_fits_def
        word_le_nat_alt word_less_nat_alt)
  from message_back [OF assms(1) this] obtain b where b: "message_serialize C ?msg = Ok b"
    "\<And>rest. message_deserialize C (b @ rest) = (if is_nack payload then Err (DeserializeError ''Unknown message ID'') else Ok (?msg, rest))"
    by (auto simp: message_new_def)
  have "make_peer_message C S s payload = Ok (s\<lparr>ns_seq := ns_seq s + 1\<rparr>, ?msg)"
    using sig(1) by (simp add: make_peer_message_def message_sign_def message_new_def)
  then show ?thesis using b sig(3) parts(2)
    by (intro exI [where x = ?msg] exI [where x = b]) (simp add: message_new_def)
qed

text \<open>
  C13. What a session sends is accepted. Making a message of a well-formed payload that fits
  never fails and numbers messages one after another, wrapping around. The message can be
  written, its receiver reads exactly this message (or fails on a \<open>Nack\<close>), and it verifies
  under the public key of the local peer.
\<close>

theorem sent_is_accepted:
  assumes "msg_codec_ok C limit" and "keys_ok S" and "session_ok C s" and "payload_fits C payload"
  shows "\<exists>msg b. make_peer_message C S s payload = Ok (s\<lparr>ns_seq := ns_seq s + 1\<rparr>, msg) \<and>
     pa_seq (sm_preamble msg) = ns_seq s \<and> sm_payload msg = payload \<and> message_serialize C msg = Ok b \<and>
     (\<forall>rest. message_deserialize C (b @ rest) =
        (if is_nack payload then Err (DeserializeError ''Unknown message ID'') else Ok (msg, rest))) \<and>
     verify_secp256k1 C S msg (ks_to_buffer S (ks_public S (lp_private_key (ns_local_peer s)))) = Ok ()"
  by (rule sent_back [OF assms])

text \<open>The local peer that \<open>begin\<close> makes up, when the node has answered.\<close>

definition begin_peer :: "'k net_env \<Rightarrow> RPCPeerInfoData \<Rightarrow> SocketAddr \<Rightarrow> UrlString \<Rightarrow> 'k LocalPeer" where
  "begin_peer N info replica_peer_addr data_url =
     local_peer_new N (pi_network_id info) (pi_parent_network_id info) (so_addr replica_peer_addr) (so_port replica_peer_addr)
       (Some (nv_random_key N)) (- 1) data_url"

text \<open>What \<open>begin\<close> has to have got from the node before it talks to the peer.\<close>

definition node_answers ::
  "('c, 'n) msg_codec \<Rightarrow> ('k, 'p) keys \<Rightarrow> 'k net_env \<Rightarrow> SocketAddr \<Rightarrow> SocketAddr \<Rightarrow> bool" where
  "node_answers C S N data_addr replica_peer_addr \<longleftrightarrow> (\<exists>info h1 h2 data_url hd.
     nv_get_info N data_addr = Ok info \<and> burn_hash_of N data_addr (pi_pox_consensus info) = Ok h1 \<and>
     burn_hash_of N data_addr (pi_stable_pox_consensus info) = Ok h2 \<and> length h1 = 32 \<and> length h2 = 32 \<and>
     pi_stable_burn_block_height info < pi_burn_block_height info \<and>
     url_try_from C (as_bytes ''http://127.0.0.1:'' @ nv_show_port N (so_port data_addr)) = Some data_url \<and>
     nv_connect N replica_peer_addr = Ok () \<and>
     handshake_from_local_peer C S N (begin_peer N info replica_peer_addr data_url) = Some hd \<and>
     payload_fits C (Handshake hd))"

text \<open>\<open>begin\<close> up to the answer: what becomes of it depends on its payload only.\<close>

lemma begin_reaches_answer:
  assumes "msg_codec_ok C limit" and "keys_ok S" and "node_answers C S N data_addr replica_peer_addr"
    and "message_ok C resp" and "message_serialize C resp = Ok b"
    and "\<forall>sent. take (length b) (nv_peer N replica_peer_addr sent) = b"
  shows "\<exists>s. ns_handshake_accept_data s = None \<and> ns_stackerdb_accept_data s = None \<and> ns_seq s = 1 \<and>
     session_begin C S N data_addr replica_peer_addr =
       (if is_nack (sm_payload resp) then Err ''Failed to receive message'' else accept_response s (sm_payload resp))"
proof -
  obtain info h1 h2 data_url hd where node: "nv_get_info N data_addr = Ok info" "burn_hash_of N data_addr (pi_pox_consensus info) = Ok h1"
     "burn_hash_of N data_addr (pi_stable_pox_consensus info) = Ok h2" "length h1 = 32" "length h2 = 32"
     "pi_stable_burn_block_height info < pi_burn_block_height info"
     "url_try_from C (as_bytes ''http://127.0.0.1:'' @ nv_show_port N (so_port data_addr)) = Some data_url"
     "nv_connect N replica_peer_addr = Ok ()"
     "handshake_from_local_peer C S N (begin_peer N info replica_peer_addr data_url) = Some hd"
     "payload_fits C (Handshake hd)"
    using assms(3) unfolding node_answers_def by blast
  let ?s = "\<lparr>ns_local_peer = begin_peer N info replica_peer_addr data_url, ns_peer_info = info, ns_burn_block_hash = h1,
     ns_stable_burn_block_hash = h2, ns_socket = replica_peer_addr, ns_sent = [], ns_read = 0,
     ns_handshake_accept_data = None, ns_stackerdb_accept_data = None, ns_seq = 0\<rparr> :: ('c, 'a) NodeSession"
  have "session_ok C ?s" using node by (simp add: session_ok_def)
  from sent_back [OF assms(1,2) this node(10)] obtain msg b0 where
    msg: "make_peer_message C S ?s (Handshake hd) = Ok (?s\<lparr>ns_seq := 1\<rparr>, msg)" "message_serialize C msg = Ok b0"
    by auto
  have "\<exists>rest. nv_peer N replica_peer_addr b0 = b @ rest" using assms(6) by (metis append_take_drop_id)
  then obtain rest where rest: "nv_peer N replica_peer_addr b0 = b @ rest" ..
  have "message_deserialize C (b @ rest) =
      (if is_nack (sm_payload resp) then Err (DeserializeError ''Unknown message ID'') else Ok (resp, rest))"
    using message_back [OF assms(1,4)] assms(5) by auto
  then show ?thesis using node msg rest
    by (intro exI [where x = "?s\<lparr>ns_seq := 1, ns_sent := b0, ns_read := length b\<rparr>"])
      (simp add: session_begin_def begin_peer_def [symmetric] Let_def send_peer_message_def recv_peer_message_def)
qed

text \<open>
  C14. What a session takes for an answer. Let the node have answered, and the peer send back any
  well-formed message. If it accepts the handshake, with or without the data of its StackerDBs,
  the session begins with the handshake data of this message and with the StackerDB data exactly
  when it has some; if it is of any other kind, the session does not begin. Nothing is asked of
  the message's signature, number or relayers: the signature is never verified, and the number
  is not compared with the one sent.
\<close>

theorem begin_trusts_answer:
  assumes "msg_codec_ok C limit" and "keys_ok S" and "node_answers C S N data_addr replica_peer_addr"
    and "message_ok C resp" and "message_serialize C resp = Ok b"
    and "\<forall>sent. take (length b) (nv_peer N replica_peer_addr sent) = b"
  shows "case sm_payload resp of
      HandshakeAccept a \<Rightarrow> \<exists>s. session_begin C S N data_addr replica_peer_addr = Ok s \<and>
         ns_handshake_accept_data s = Some (ha_handshake a) \<and> ns_stackerdb_accept_data s = None \<and> ns_seq s = 1
    | StackerDBHandshakeAccept a d \<Rightarrow> \<exists>s. session_begin C S N data_addr replica_peer_addr = Ok s \<and>
         ns_handshake_accept_data s = Some (ha_handshake a) \<and> ns_stackerdb_accept_data s = Some d \<and> ns_seq s = 1
    | _ \<Rightarrow> \<exists>e. session_begin C S N data_addr replica_peer_addr = Err e"
proof -
  obtain s where s: "ns_handshake_accept_data s = None" "ns_stackerdb_accept_data s = None" "ns_seq s = 1"
    "session_begin C S N data_addr replica_peer_addr =
       (if is_nack (sm_payload resp) then Err ''Failed to receive message'' else accept_response s (sm_payload resp))"
    using begin_reaches_answer [OF assms] by blast
  show ?thesis using s by (cases "sm_payload resp") (simp_all add: accept_response_def)
qed

text \<open>The check lets 256 contracts through, and their number does not fit into its byte.\<close>

lemma dbs_256_panics: "length (sh_smart_contracts d) = 256 \<Longrightarrow> dbs_serialize C d = Panic"
  by (simp add: dbs_serialize_def)

section \<open>Witnesses\<close>

text \<open>Arrays as they are, integers big-endian; contracts are triples; every URL is a plain one.\<close>

definition plain_array :: "nat \<Rightarrow> bytes writer" where
  "plain_array n x = (if length x = n then Ok x else Err (SerializeError ''length''))"

definition read_array :: "nat \<Rightarrow> bytes reader" where
  "read_array n fd = (if length fd < n then Err (DeserializeError ''short input'') else Ok (take n fd, drop n fd))"

definition be_net :: "(u8 \<times> Hash160 \<times> bytes, bytes) msg_codec" where
  "be_net = \<lparr>wr_u8 = wr_u8 be_codec, rd_u8 = rd_u8 be_codec, wr_u32 = wr_u32 be_codec, rd_u32 = rd_u32 be_codec,
     wr_u64 = wr_u64 be_codec, rd_u64 = rd_u64 be_codec, wr_hash160 = wr_hash160 be_codec, rd_hash160 = rd_hash160 be_codec,
     wr_bytes = wr_bytes be_codec, rd_bytes = rd_bytes be_codec, wr_u32s = wr_u32s be_codec, rd_u32s = rd_u32s be_codec,
     wr_names = wr_names be_codec, rd_names = rd_names be_codec, wr_slots = wr_slots be_codec,
     rd_slots_at_most = rd_slots_at_most be_codec,
     wr_u16 = (\<lambda>x. Ok (to_be_bytes 2 x)), rd_u16 = rd_word 2, wr_array = plain_array, rd_array = read_array,
     rd_bytes_within = (\<lambda>_. rd_prefixed), read_exact = read_array,
     url_parse = (\<lambda>_. Some \<lparr>url_scheme = ''http'', url_username = [], url_password = None, url_host_str = Some ''localhost'',
        url_query = None, url_fragment = None, url_port_or_known_default = Some 80\<rparr>),
     CLARITY_MAX_STRING_LENGTH = 128, MAX_MESSAGE_LEN = 2000000, MAX_RELAYERS_LEN = 16, PREAMBLE_ENCODED_SIZE = 165,
     wr_relays = wr_vec, rd_relays_at_most = rd_vec, wr_contract_name = wr_prefixed, rd_contract_name = rd_prefixed,
     cid_version = fst, cid_hash = (\<lambda>c. fst (snd c)), cid_name = (\<lambda>c. snd (snd c)), cid_new = (\<lambda>v h n. Some (v, h, n))\<rparr>"

lemma be_net_ok: "msg_codec_ok be_net 1000"
proof -
  have base: "codec.truncate be_net = be_codec" by (simp add: be_net_def codec.truncate_def be_codec_def)
  have "net_ok be_net 1000" unfolding net_ok_def base
    by (simp add: codec_ok_be) (simp add: be_net_def reads_back_def rd_word_back plain_array_def read_array_def)
  moreover have "\<exists>b. wr_vec w xs = Ok b \<and> 4 \<le> length b \<and> (\<forall>rest. rd_vec r n (b @ rest) = Ok (xs, rest))"
    if "length xs \<le> unat n" "\<forall>x \<in> set xs. readable w r x" for w r and xs :: "RelayData list" and n :: u32
  proof -
    have "length xs < 2 ^ 32" using that(1) unsigned_less [of n, where 'a = nat] by simp
    then have "readable (wr_vec w) (rd_vec r n) xs" using that by (intro vec_back)
    then obtain b where b: "wr_vec w xs = Ok b" "\<And>rest. rd_vec r n (b @ rest) = Ok (xs, rest)" by (rule readableE) blast
    then have "4 \<le> length b" using \<open>length xs < 2 ^ 32\<close>
      by (cases "write_all w xs") (auto simp: wr_vec_def wseq_def)
    then show ?thesis using b by blast
  qed
  ultimately show ?thesis by (simp add: msg_codec_ok_def be_net_def)
qed

definition plain_keys :: "(bytes, bytes) keys" where
  "plain_keys = \<lparr>ks_sha = (\<lambda>b. b), ks_sign = (\<lambda>k d. Ok (replicate 65 1)), ks_verify = (\<lambda>p d sig. Ok (sig = replicate 65 1)),
     ks_public = (\<lambda>k. k), ks_to_buffer = (\<lambda>p. p), ks_from_buffer = (\<lambda>b. Some b)\<rparr>"

definition some_handshake :: HandshakeData where
  "some_handshake = \<lparr>hd_addrbytes = replicate 16 0, hd_port = 80, hd_services = 3, hd_node_public_key = replicate 33 2,
     hd_expire_block_height = 7, hd_data_url = [104]\<rparr>"

definition some_message :: "(u8 \<times> Hash160 \<times> bytes) StacksMessage" where
  "some_message = \<lparr>sm_preamble = \<lparr>pa_peer_version = 1, pa_network_id = 2, pa_seq = 9, pa_burn_block_height = 8,
       pa_burn_block_hash = replicate 32 0, pa_burn_stable_block_height = 1, pa_burn_stable_block_hash = replicate 32 0,
       pa_additional_data = 0, pa_signature = replicate 65 0, pa_payload_len = 5\<rparr>,
     sm_relayers = [], sm_payload = HandshakeAccept \<lparr>ha_handshake = some_handshake, ha_heartbeat_interval = 60\<rparr>\<rparr>"

lemma some_url: "block_url be_net [104]"
  by (simp add: block_url_def url_try_from_def be_net_def url_char_def parse_to_block_url_def)

lemma some_handshake_ok: "handshake_ok be_net some_handshake"
  using some_url by (simp add: handshake_ok_def some_handshake_def)

lemma some_message_ok: "message_ok be_net some_message"
  using some_handshake_ok by (simp add: message_ok_def some_message_def preamble_ok_def be_net_def)

theorem message_roundtrip_witness:
  "\<exists>b. message_serialize be_net some_message = Ok b \<and> message_deserialize be_net (b @ [1, 2]) = Ok (some_message, [1, 2])"
  using message_roundtrip [OF be_net_ok some_message_ok] by (auto simp: some_message_def)

definition some_info :: RPCPeerInfoData where
  "some_info = \<lparr>pi_peer_version = 1, pi_pox_consensus = [], pi_burn_block_height = 8, pi_stable_pox_consensus = [],
     pi_stable_burn_block_height = 1, pi_network_id = 2, pi_parent_network_id = 3\<rparr>"

definition some_replica :: SocketAddr where
  "some_replica = \<lparr>so_addr = replicate 16 0, so_port = 80\<rparr>"

definition some_net :: "bytes net_env" where
  "some_net = \<lparr>nv_random_key = replicate 33 2, nv_random_nonce = replicate 32 0, nv_set_compress_public = (\<lambda>k. k),
     nv_show_port = (\<lambda>_. [56, 48]), nv_show_socketaddr = (\<lambda>_ _. []), nv_get_info = (\<lambda>_. Ok some_info),
     nv_get_sortition_info = (\<lambda>_ _. Ok [replicate 32 0]), nv_connect = (\<lambda>_. Ok ()),
     nv_peer = (\<lambda>_ _. written (message_serialize be_net) some_message)\<rparr>"

definition some_data_url :: UrlString where
  "some_data_url = as_bytes ''http://127.0.0.1:'' @ [56, 48]"

definition some_session :: "(bytes, u8 \<times> Hash160 \<times> bytes) NodeSession" where
  "some_session = \<lparr>ns_local_peer = begin_peer some_net some_info some_replica some_data_url, ns_peer_info = some_info,
     ns_burn_block_hash = replicate 32 0, ns_stable_burn_block_hash = replicate 32 0, ns_socket = some_replica, ns_sent = [],
     ns_read = 0, ns_handshake_accept_data = None, ns_stackerdb_accept_data = None, ns_seq = 0\<rparr>"

lemma plain_keys_ok: "keys_ok plain_keys"
  by (simp add: keys_ok_def plain_keys_def)

lemma some_handshake_fits:
  assumes "block_url be_net (hd_data_url h)" and "length (hd_addrbytes h) = 16" and "hd_port h \<noteq> 0"
    and "length (hd_node_public_key h) = 33"
  shows "payload_fits be_net (Handshake h)"
proof -
  have url: "url_try_from be_net (hd_data_url h) = Some (hd_data_url h)" using assms(1) by (simp add: block_url_def)
  then have len: "length (hd_data_url h) \<le> 128" by (auto simp: url_try_from_def be_net_def split: if_splits)
  have "length b \<le> 1000" if "wseq (relayers_serialize be_net []) (payload_serialize be_net (Handshake h)) = Ok b" for b
  proof -
    have "url_serialize be_net (hd_data_url h) = Ok (written (url_serialize be_net) (hd_data_url h))"
      "length (written (url_serialize be_net) (hd_data_url h)) = 1 + length (hd_data_url h)"
      using written_back [OF url_back [OF msg_codec_net [OF be_net_ok] assms(1)]] by simp_all
    then show ?thesis using that assms(2,4) len
      by (simp add: payload_serialize_def message_id_serialize_def handshake_serialize_def relayers_serialize_def be_net_def
          wr_vec_def plain_array_def be_codec_def) auto
  qed
  then show ?thesis using assms by (force simp: payload_fits_def handshake_ok_def be_net_def)
qed

lemma some_data_url_ok: "url_try_from be_net some_data_url = Some some_data_url"
  by (simp add: some_data_url_def as_bytes_def url_try_from_def be_net_def url_char_def)

lemma some_data_block_url: "block_url be_net some_data_url"
  using some_data_url_ok by (simp add: block_url_def) (simp add: be_net_def parse_to_block_url_def)

theorem sent_is_accepted_witness:
  "\<exists>msg b. make_peer_message be_net plain_keys some_session (Handshake some_handshake) = Ok (some_session\<lparr>ns_seq := 1\<rparr>, msg) \<and>
     message_serialize be_net msg = Ok b \<and> message_deserialize be_net b = Ok (msg, []) \<and>
     verify_secp256k1 be_net plain_keys msg (replicate 33 2) = Ok ()"
proof -
  have "session_ok be_net some_session" by (simp add: session_ok_def some_session_def some_info_def)
  moreover have "payload_fits be_net (Handshake some_handshake)"
    by (rule some_handshake_fits) (simp_all add: some_handshake_def some_url)
  moreover have "lp_private_key (ns_local_peer some_session) = replicate 33 2" "ns_seq some_session = 0"
    "ks_to_buffer plain_keys (ks_public plain_keys k) = k" for k
    by (simp_all add: some_session_def begin_peer_def local_peer_new_def some_net_def plain_keys_def)
  ultimately show ?thesis using sent_is_accepted [OF be_net_ok plain_keys_ok, of some_session "Handshake some_handshake"]
    by (auto dest: spec [of _ "[]"])
qed

theorem begin_trusts_answer_witness:
  "\<exists>s. session_begin be_net plain_keys some_net some_replica some_replica = Ok s \<and> ns_handshake_accept_data s = Some some_handshake"
proof -
  have "\<exists>hd. handshake_from_local_peer be_net plain_keys some_net (begin_peer some_net some_info some_replica some_data_url) = Some hd \<and>
      payload_fits be_net (Handshake hd)"
  proof -
    have "handshake_from_local_peer be_net plain_keys some_net (begin_peer some_net some_info some_replica some_data_url) =
        Some \<lparr>hd_addrbytes = replicate 16 0, hd_port = 80, hd_services = SERVICE_RELAY OR SERVICE_RPC, hd_node_public_key = replicate 33 2,
          hd_expire_block_height = - 1, hd_data_url = some_data_url\<rparr>"
      by (simp add: handshake_from_local_peer_def has_routable_host_def begin_peer_def local_peer_new_def be_net_def some_replica_def
          plain_keys_def some_net_def)
    then show ?thesis using some_handshake_fits some_data_block_url by auto
  qed
  then have "node_answers be_net plain_keys some_net some_replica some_replica"
    using some_data_url_ok unfolding node_answers_def
    by (intro exI [where x = some_info] exI [where x = "replicate 32 0"] exI [where x = some_data_url])
      (auto simp: some_net_def burn_hash_of_def some_info_def some_data_url_def)
  moreover have "message_serialize be_net some_message = Ok (written (message_serialize be_net) some_message)"
    using message_back [OF be_net_ok some_message_ok] by (auto simp: written_def)
  moreover have "nv_peer some_net some_replica sent = written (message_serialize be_net) some_message" for sent
    by (simp add: some_net_def)
  ultimately show ?thesis
    using begin_trusts_answer [OF be_net_ok plain_keys_ok _ some_message_ok, of some_net some_replica some_replica
        "written (message_serialize be_net) some_message"]
    by (auto simp: some_message_def)
qed

end
