(* ===== verification/Tx_Data.thy ===== *)
theory Tx_Data
  imports Url_Strings
begin

text \<open>
  The data of transactions (\<open>src/tx/mod.rs\<close>): modes and flags with their numbers on the wire,
  spending conditions, payloads and post-conditions. Addresses, principals, Clarity values and
  public keys are those of \<open>stacks_common\<close> and \<open>clarity\<close>: parameters of the types.
\<close>

section \<open>Errors and identifiers\<close>

datatype TxError =
    TxSigningError string | TxVerifyingError string | TxIncomplete | TxCodec CodecError
  | TxIncompatibleSpendingConditionError

type_synonym Txid = bytes  \<comment> \<open>32 bytes\<close>

definition from_bitcoin_tx_hash :: "bytes \<Rightarrow> Txid" where
  "from_bitcoin_tx_hash tx_hash = rev tx_hash"

definition MAX_TRANSACTION_LEN :: u32 where "MAX_TRANSACTION_LEN = 2 * 1024 * 1024"

text \<open>Names are texts that the \<open>clarity\<close> crate has checked.\<close>

type_synonym ContractName = bytes
type_synonym ClarityName = bytes

section \<open>Modes and flags\<close>

datatype TransactionAnchorMode = OnChainOnly | OffChainOnly | AnyMode

fun anchor_mode_u8 :: "TransactionAnchorMode \<Rightarrow> u8" where
  "anchor_mode_u8 OnChainOnly = 1"
| "anchor_mode_u8 OffChainOnly = 2"
| "anchor_mode_u8 AnyMode = 3"

datatype TransactionAuthFlags = AuthStandard | AuthSponsored

fun auth_flags_u8 :: "TransactionAuthFlags \<Rightarrow> u8" where
  "auth_flags_u8 AuthStandard = 0x04"
| "auth_flags_u8 AuthSponsored = 0x05"

datatype TransactionAuthFieldID = PublicKeyCompressed | PublicKeyUncompressed | SignatureCompressed | SignatureUncompressed

fun auth_field_id_u8 :: "TransactionAuthFieldID \<Rightarrow> u8" where
  "auth_field_id_u8 PublicKeyCompressed = 0x00"
| "auth_field_id_u8 PublicKeyUncompressed = 0x01"
| "auth_field_id_u8 SignatureCompressed = 0x02"
| "auth_field_id_u8 SignatureUncompressed = 0x03"

datatype TransactionPublicKeyEncoding = Compressed | Uncompressed

fun key_encoding_u8 :: "TransactionPublicKeyEncoding \<Rightarrow> u8" where
  "key_encoding_u8 Compressed = 0x00"
| "key_encoding_u8 Uncompressed = 0x01"

definition key_encoding_from_u8 :: "u8 \<Rightarrow> TransactionPublicKeyEncoding option" where
  "key_encoding_from_u8 n =
     (if n = key_encoding_u8 Compressed then Some Compressed
      else if n = key_encoding_u8 Uncompressed then Some Uncompressed else None)"

text \<open>Hash modes of \<open>stacks_common\<close>; the sources name four of them.\<close>

datatype AddressHashMode = SerializeP2PKH | SerializeP2SH | SerializeP2WPKH | SerializeP2WSH | OtherHashMode nat

datatype SinglesigHashMode = P2PKH | P2WPKH
datatype MultisigHashMode = P2SH | P2WSH
datatype OrderIndependentMultisigHashMode = OiP2SH | OiP2WSH

fun singlesig_mode_u8 :: "SinglesigHashMode \<Rightarrow> u8" where
  "singlesig_mode_u8 P2PKH = 0x00"
| "singlesig_mode_u8 P2WPKH = 0x02"

fun multisig_mode_u8 :: "MultisigHashMode \<Rightarrow> u8" where
  "multisig_mode_u8 P2SH = 0x01"
| "multisig_mode_u8 P2WSH = 0x03"

fun oi_mode_u8 :: "OrderIndependentMultisigHashMode \<Rightarrow> u8" where
  "oi_mode_u8 OiP2SH = 0x05"
| "oi_mode_u8 OiP2WSH = 0x07"

fun singlesig_to_address_hash_mode :: "SinglesigHashMode \<Rightarrow> AddressHashMode" where
  "singlesig_to_address_hash_mode P2PKH = SerializeP2PKH"
| "singlesig_to_address_hash_mode P2WPKH = SerializeP2WPKH"

fun singlesig_from_address_hash_mode :: "AddressHashMode \<Rightarrow> SinglesigHashMode option" where
  "singlesig_from_address_hash_mode SerializeP2PKH = Some P2PKH"
| "singlesig_from_address_hash_mode SerializeP2WPKH = Some P2WPKH"
| "singlesig_from_address_hash_mode _ = None"

definition singlesig_from_u8 :: "u8 \<Rightarrow> SinglesigHashMode option" where
  "singlesig_from_u8 n =
     (if n = singlesig_mode_u8 P2PKH then Some P2PKH else if n = singlesig_mode_u8 P2WPKH then Some P2WPKH else None)"

fun multisig_to_address_hash_mode :: "MultisigHashMode \<Rightarrow> AddressHashMode" where
  "multisig_to_address_hash_mode P2SH = SerializeP2SH"
| "multisig_to_address_hash_mode P2WSH = SerializeP2WSH"

fun multisig_from_address_hash_mode :: "AddressHashMode \<Rightarrow> MultisigHashMode option" where
  "multisig_from_address_hash_mode SerializeP2SH = Some P2SH"
| "multisig_from_address_hash_mode SerializeP2WSH = Some P2WSH"
| "multisig_from_address_hash_mode _ = None"

definition multisig_from_u8 :: "u8 \<Rightarrow> MultisigHashMode option" where
  "multisig_from_u8 n =
     (if n = multisig_mode_u8 P2SH then Some P2SH else if n = multisig_mode_u8 P2WSH then Some P2WSH else None)"

fun oi_to_address_hash_mode :: "OrderIndependentMultisigHashMode \<Rightarrow> AddressHashMode" where
  "oi_to_address_hash_mode OiP2SH = SerializeP2SH"
| "oi_to_address_hash_mode OiP2WSH = SerializeP2WSH"

fun oi_from_address_hash_mode :: "AddressHashMode \<Rightarrow> OrderIndependentMultisigHashMode option" where
  "oi_from_address_hash_mode SerializeP2SH = Some OiP2SH"
| "oi_from_address_hash_mode SerializeP2WSH = Some OiP2WSH"
| "oi_from_address_hash_mode _ = None"

definition oi_from_u8 :: "u8 \<Rightarrow> OrderIndependentMultisigHashMode option" where
  "oi_from_u8 n = (if n = oi_mode_u8 OiP2SH then Some OiP2SH else if n = oi_mode_u8 OiP2WSH then Some OiP2WSH else None)"

lemma hash_mode_numbers [simp]:
  "singlesig_from_u8 (singlesig_mode_u8 h) = Some h" "multisig_from_u8 (singlesig_mode_u8 h) = None"
  by (cases h; simp add: singlesig_from_u8_def multisig_from_u8_def)+

lemma multisig_mode_numbers [simp]:
  "multisig_from_u8 (multisig_mode_u8 m) = Some m" "singlesig_from_u8 (multisig_mode_u8 m) = None"
  by (cases m; simp add: singlesig_from_u8_def multisig_from_u8_def)+

lemma oi_mode_numbers [simp]:
  "oi_from_u8 (oi_mode_u8 i) = Some i" "singlesig_from_u8 (oi_mode_u8 i) = None" "multisig_from_u8 (oi_mode_u8 i) = None"
  by (cases i; simp add: oi_from_u8_def singlesig_from_u8_def multisig_from_u8_def)+

lemma key_encoding_number [simp]: "key_encoding_from_u8 (key_encoding_u8 e) = Some e"
  by (cases e) (simp_all add: key_encoding_from_u8_def)

section \<open>Spending conditions\<close>

datatype 'p TransactionAuthField = PublicKey 'p | Signature TransactionPublicKeyEncoding bytes

fun is_public_key :: "'p TransactionAuthField \<Rightarrow> bool" where
  "is_public_key (PublicKey _) = True"
| "is_public_key _ = False"

fun is_signature :: "'p TransactionAuthField \<Rightarrow> bool" where
  "is_signature (Signature _ _) = True"
| "is_signature _ = False"

fun as_public_key :: "'p TransactionAuthField \<Rightarrow> 'p option" where
  "as_public_key (PublicKey pubk) = Some pubk"
| "as_public_key _ = None"

fun as_signature :: "'p TransactionAuthField \<Rightarrow> (TransactionPublicKeyEncoding \<times> bytes) option" where
  "as_signature (Signature key_fmt sig) = Some (key_fmt, sig)"
| "as_signature _ = None"

record SinglesigSpendingCondition =
  ss_hash_mode :: SinglesigHashMode
  ss_signer :: Hash160
  ss_nonce :: u64
  ss_tx_fee :: u64
  ss_key_encoding :: TransactionPublicKeyEncoding
  ss_signature :: bytes

text \<open>The two conditions on many keys have the same fields and differ in the type of the hash mode.\<close>

record ('h, 'p) multisig_condition =
  ms_hash_mode :: 'h
  ms_signer :: Hash160
  ms_nonce :: u64
  ms_tx_fee :: u64
  ms_fields :: "'p TransactionAuthField list"
  ms_signatures_required :: u16

type_synonym 'p MultisigSpendingCondition = "(MultisigHashMode, 'p) multisig_condition"
type_synonym 'p OrderIndependentMultisigSpendingCondition = "(OrderIndependentMultisigHashMode, 'p) multisig_condition"

datatype 'p TransactionSpendingCondition =
    Singlesig SinglesigSpendingCondition
  | Multisig "'p MultisigSpendingCondition"
  | OrderIndependentMultisig "'p OrderIndependentMultisigSpendingCondition"

datatype 'p TransactionAuth =
    Standard "'p TransactionSpendingCondition"
  | Sponsored "'p TransactionSpendingCondition" "'p TransactionSpendingCondition"

section \<open>Payloads\<close>

record ('a, 'v) TransactionContractCall =
  cc_address :: 'a
  cc_contract_name :: ContractName
  cc_function_name :: ClarityName
  cc_function_args :: "'v list"

record TransactionSmartContract =
  sc_name :: ContractName
  sc_code_body :: StacksString

datatype ClarityVersion = Clarity1 | Clarity2 | Clarity3

text \<open>A transfer holds the recipient, the amount and a memo of 34 bytes.\<close>

datatype ('a, 'v, 'q) TransactionPayload =
    TokenTransfer 'q u64 bytes
  | ContractCall "('a, 'v) TransactionContractCall"
  | SmartContract TransactionSmartContract "ClarityVersion option"

fun payload_name :: "('a, 'v, 'q) TransactionPayload \<Rightarrow> string" where
  "payload_name (TokenTransfer _ _ _) = ''TokenTransfer''"
| "payload_name (ContractCall _) = ''ContractCall''"
| "payload_name (SmartContract _ version_opt) =
     (if version_opt \<noteq> None then ''SmartContract(Versioned)'' else ''SmartContract'')"

datatype TransactionPayloadID = IdTokenTransfer | IdSmartContract | IdContractCall | IdVersionedSmartContract

fun payload_id_u8 :: "TransactionPayloadID \<Rightarrow> u8" where
  "payload_id_u8 IdTokenTransfer = 0"
| "payload_id_u8 IdSmartContract = 1"
| "payload_id_u8 IdContractCall = 2"
| "payload_id_u8 IdVersionedSmartContract = 6"

definition payload_id_from_u8 :: "u8 \<Rightarrow> TransactionPayloadID option" where
  "payload_id_from_u8 n =
     (if n = 0 then Some IdTokenTransfer else if n = 1 then Some IdSmartContract
      else if n = 2 then Some IdContractCall else if n = 6 then Some IdVersionedSmartContract else None)"

section \<open>Post-conditions\<close>

record 'a AssetInfo =
  ai_contract_address :: 'a
  ai_contract_name :: ContractName
  ai_asset_name :: ClarityName

datatype AssetInfoID = IdSTX | IdFungibleAsset | IdNonfungibleAsset

fun asset_info_id_u8 :: "AssetInfoID \<Rightarrow> u8" where
  "asset_info_id_u8 IdSTX = 0"
| "asset_info_id_u8 IdFungibleAsset = 1"
| "asset_info_id_u8 IdNonfungibleAsset = 2"

definition asset_info_id_from_u8 :: "u8 \<Rightarrow> AssetInfoID option" where
  "asset_info_id_from_u8 b =
     (if b = 0 then Some IdSTX else if b = 1 then Some IdFungibleAsset else if b = 2 then Some IdNonfungibleAsset else None)"

datatype FungibleConditionCode = SentEq | SentGt | SentGe | SentLt | SentLe

fun fungible_code_u8 :: "FungibleConditionCode \<Rightarrow> u8" where
  "fungible_code_u8 SentEq = 0x01"
| "fungible_code_u8 SentGt = 0x02"
| "fungible_code_u8 SentGe = 0x03"
| "fungible_code_u8 SentLt = 0x04"
| "fungible_code_u8 SentLe = 0x05"

definition fungible_code_from_u8 :: "u8 \<Rightarrow> FungibleConditionCode option" where
  "fungible_code_from_u8 b =
     (if b = 0x01 then Some SentEq else if b = 0x02 then Some SentGt else if b = 0x03 then Some SentGe
      else if b = 0x04 then Some SentLt else if b = 0x05 then Some SentLe else None)"

fun fungible_check :: "FungibleConditionCode \<Rightarrow> u128 \<Rightarrow> u128 \<Rightarrow> bool" where
  "fungible_check SentEq amount_sent_condition amount_sent = (amount_sent = amount_sent_condition)"
| "fungible_check SentGt amount_sent_condition amount_sent = (amount_sent > amount_sent_condition)"
| "fungible_check SentGe amount_sent_condition amount_sent = (amount_sent \<ge> amount_sent_condition)"
| "fungible_check SentLt amount_sent_condition amount_sent = (amount_sent < amount_sent_condition)"
| "fungible_check SentLe amount_sent_condition amount_sent = (amount_sent \<le> amount_sent_condition)"

datatype NonfungibleConditionCode = Sent | NotSent

fun nonfungible_code_u8 :: "NonfungibleConditionCode \<Rightarrow> u8" where
  "nonfungible_code_u8 Sent = 0x10"
| "nonfungible_code_u8 NotSent = 0x11"

definition nonfungible_code_from_u8 :: "u8 \<Rightarrow> NonfungibleConditionCode option" where
  "nonfungible_code_from_u8 b = (if b = 0x10 then Some Sent else if b = 0x11 then Some NotSent else None)"

fun was_sent :: "'v \<Rightarrow> 'v list \<Rightarrow> bool" where
  "was_sent nft_sent_condition [] = False"
| "was_sent nft_sent_condition (asset_sent # nfts_sent) =
     (if asset_sent = nft_sent_condition then True else was_sent nft_sent_condition nfts_sent)"

fun nonfungible_check :: "NonfungibleConditionCode \<Rightarrow> 'v \<Rightarrow> 'v list \<Rightarrow> bool" where
  "nonfungible_check Sent nft_sent_condition nfts_sent = was_sent nft_sent_condition nfts_sent"
| "nonfungible_check NotSent nft_sent_condition nfts_sent = (\<not> was_sent nft_sent_condition nfts_sent)"

datatype 'a PostConditionPrincipal = PcOrigin | PcStandard 'a | PcContract 'a ContractName

text \<open>The principals of the \<open>clarity\<close> crate, as what makes them.\<close>

record ('a, 'q, 'c) principals =
  pr_standard :: "'a \<Rightarrow> 'q"
  pr_contract :: "'c \<Rightarrow> 'q"
  pr_identifier :: "'a \<Rightarrow> ContractName \<Rightarrow> 'c"

fun to_principal_data :: "('a, 'q, 'c) principals \<Rightarrow> 'a PostConditionPrincipal \<Rightarrow> 'q \<Rightarrow> 'q" where
  "to_principal_data R PcOrigin origin_principal = origin_principal"
| "to_principal_data R (PcStandard addr) origin_principal = pr_standard R addr"
| "to_principal_data R (PcContract addr contract_name) origin_principal = pr_contract R (pr_identifier R addr contract_name)"

definition contract_identifier :: "('a, 'q, 'c) principals \<Rightarrow> ('a, 'v) TransactionContractCall \<Rightarrow> 'c" where
  "contract_identifier R cc = pr_identifier R (cc_address cc) (cc_contract_name cc)"

definition to_clarity_contract_id :: "('a, 'q, 'c) principals \<Rightarrow> ('a, 'v) TransactionContractCall \<Rightarrow> 'c" where
  "to_clarity_contract_id R cc = pr_identifier R (cc_address cc) (cc_contract_name cc)"

datatype PostConditionPrincipalID = IdOrigin | IdStandard | IdContract

fun principal_id_u8 :: "PostConditionPrincipalID \<Rightarrow> u8" where
  "principal_id_u8 IdOrigin = 0x01"
| "principal_id_u8 IdStandard = 0x02"
| "principal_id_u8 IdContract = 0x03"

datatype ('a, 'v) TransactionPostCondition =
    PcSTX "'a PostConditionPrincipal" FungibleConditionCode u64
  | PcFungible "'a PostConditionPrincipal" "'a AssetInfo" FungibleConditionCode u64
  | PcNonfungible "'a PostConditionPrincipal" "'a AssetInfo" 'v NonfungibleConditionCode

lemma fungible_code_number [simp]: "fungible_code_from_u8 (fungible_code_u8 f) = Some f"
  by (cases f) (simp_all add: fungible_code_from_u8_def)

lemma nonfungible_code_number [simp]: "nonfungible_code_from_u8 (nonfungible_code_u8 n) = Some n"
  by (cases n) (simp_all add: nonfungible_code_from_u8_def)

lemma payload_id_number [simp]: "payload_id_from_u8 (payload_id_u8 i) = Some i"
  by (cases i) (simp_all add: payload_id_from_u8_def)

section \<open>Transactions\<close>

datatype TransactionPostConditionMode = Allow | Deny

fun post_condition_mode_u8 :: "TransactionPostConditionMode \<Rightarrow> u8" where
  "post_condition_mode_u8 Allow = 0x01"
| "post_condition_mode_u8 Deny = 0x02"

datatype TransactionVersion = Mainnet | Testnet

fun version_u8 :: "TransactionVersion \<Rightarrow> u8" where
  "version_u8 Mainnet = 0x00"
| "version_u8 Testnet = 0x80"

record ('a, 'v, 'q, 'p) StacksTransaction =
  tx_version :: TransactionVersion
  tx_chain_id :: u32
  tx_auth :: "'p TransactionAuth"
  tx_anchor_mode :: TransactionAnchorMode
  tx_post_condition_mode :: TransactionPostConditionMode
  tx_post_conditions :: "('a, 'v) TransactionPostCondition list"
  tx_payload :: "('a, 'v, 'q) TransactionPayload"

record ('a, 'v, 'q, 'p) StacksTransactionSigner =
  ts_tx :: "('a, 'v, 'q, 'p) StacksTransaction"
  ts_sighash :: Txid
  ts_origin_done :: bool
  ts_check_oversign :: bool
  ts_check_overlap :: bool

end
