(* ===== verification/Tx_Auth.thy ===== *)
theory Tx_Auth
  imports Tx_Data
begin

text \<open>
  The authorization of transactions (\<open>src/tx/auth.rs\<close>): the codec of spending conditions, their
  accessors, the rolling hash that signers sign and verifiers check, and the verification of a
  condition against the account it spends from.
\<close>

section \<open>The codec and the keys\<close>

text \<open>The codec of messages, with vectors of authorization fields read within a bound.\<close>

record 'p auth_codec = net_codec +
  wr_fields :: "'p TransactionAuthField writer \<Rightarrow> 'p TransactionAuthField list writer"
  rd_fields_within :: "nat \<Rightarrow> 'p TransactionAuthField reader \<Rightarrow> 'p TransactionAuthField list reader"

text \<open>
  Keys, signatures that a public key can be recovered from, hashes and addresses are those of
  \<open>stacks_common\<close>. A buffer of a public key is 33 bytes, a signature 65.
\<close>

record ('k, 'p, 'a) tx_keys =
  tk_sha :: "bytes \<Rightarrow> bytes"  \<comment> \<open>\<open>Sha512Trunc256Sum::from_data\<close>, 32 bytes\<close>
  tk_sign :: "'k \<Rightarrow> bytes \<Rightarrow> (string, bytes) outcome"
  tk_recover :: "bytes \<Rightarrow> bytes \<Rightarrow> (string, 'p) outcome"
  tk_public :: "'k \<Rightarrow> 'p"
  tk_compress_public :: "'k \<Rightarrow> bool"
  tk_compressed :: "'p \<Rightarrow> bool"
  tk_set_compressed :: "'p \<Rightarrow> bool \<Rightarrow> 'p"
  tk_to_buffer :: "'p \<Rightarrow> bytes"
  tk_from_buffer :: "bytes \<Rightarrow> (string, 'p) outcome"
  tk_from_public_keys :: "u8 \<Rightarrow> AddressHashMode \<Rightarrow> nat \<Rightarrow> 'p list \<Rightarrow> 'a option"
  tk_address_bytes :: "'a \<Rightarrow> Hash160"
  tk_address_new :: "u8 \<Rightarrow> Hash160 \<Rightarrow> 'a option"
  MAINNET_SINGLESIG :: u8  \<comment> \<open>\<open>C32_ADDRESS_VERSION_MAINNET_SINGLESIG\<close>, and so on\<close>
  MAINNET_MULTISIG :: u8
  TESTNET_SINGLESIG :: u8
  TESTNET_MULTISIG :: u8

definition SIG_EMPTY :: bytes where
  "SIG_EMPTY = replicate 65 0"

definition from_stacks_tx :: "('k, 'p, 'a) tx_keys \<Rightarrow> bytes \<Rightarrow> Txid" where
  "from_stacks_tx K txdata = tk_sha K txdata"

definition from_sighash_bytes :: "('k, 'p, 'a) tx_keys \<Rightarrow> bytes \<Rightarrow> Txid" where
  "from_sighash_bytes K txdata = from_stacks_tx K txdata"

definition get_public_key :: "('k, 'p, 'a) tx_keys \<Rightarrow> 'p TransactionAuthField \<Rightarrow> bytes \<Rightarrow> (TxError, 'p) outcome" where
  "get_public_key K f sighash_bytes =
     (case f of
        PublicKey pubk \<Rightarrow> Ok pubk
      | Signature key_fmt sig \<Rightarrow>
          obind (map_err TxVerifyingError (tk_recover K sighash_bytes sig)) (\<lambda>pubk.
          Ok (tk_set_compressed K pubk (key_fmt = Compressed))))"

section \<open>The codec of spending conditions\<close>

fun auth_field_serialize :: "'x net_codec_scheme \<Rightarrow> ('k, 'p, 'a) tx_keys \<Rightarrow> 'p TransactionAuthField writer" where
  "auth_field_serialize C K (PublicKey pubk) =
     (let field_id = if tk_compressed K pubk then PublicKeyCompressed else PublicKeyUncompressed in
      wseq (wr_u8 C (auth_field_id_u8 field_id)) (wr_array C 33 (tk_to_buffer K pubk)))"
| "auth_field_serialize C K (Signature key_encoding sig) =
     (let field_id = if key_encoding = Compressed then SignatureCompressed else SignatureUncompressed in
      wseq (wr_u8 C (auth_field_id_u8 field_id)) (wr_array C 65 sig))"

definition auth_field_deserialize :: "'x net_codec_scheme \<Rightarrow> ('k, 'p, 'a) tx_keys \<Rightarrow> 'p TransactionAuthField reader" where
  "auth_field_deserialize C K fd =
     obind (rd_u8 C fd) (\<lambda>(field_id, fd).
     if field_id = auth_field_id_u8 PublicKeyCompressed then
       obind (rd_array C 33 fd) (\<lambda>(pubkey_buf, fd).
       obind (map_err DeserializeError (tk_from_buffer K pubkey_buf)) (\<lambda>pubkey.
       Ok (PublicKey (tk_set_compressed K pubkey True), fd)))
     else if field_id = auth_field_id_u8 PublicKeyUncompressed then
       obind (rd_array C 33 fd) (\<lambda>(pubkey_buf, fd).
       obind (map_err DeserializeError (tk_from_buffer K pubkey_buf)) (\<lambda>pubkey.
       Ok (PublicKey (tk_set_compressed K pubkey False), fd)))
     else if field_id = auth_field_id_u8 SignatureCompressed then
       obind (rd_array C 65 fd) (\<lambda>(sig, fd). Ok (Signature Compressed sig, fd))
     else if field_id = auth_field_id_u8 SignatureUncompressed then
       obind (rd_array C 65 fd) (\<lambda>(sig, fd). Ok (Signature Uncompressed sig, fd))
     else Err (DeserializeError ''Failed to parse auth field: unkonwn auth field ID''))"

text \<open>Counting signatures in 16 bits, and whether a field is about an uncompressed key.\<close>

fun count_signatures :: "u16 \<Rightarrow> 'p TransactionAuthField list \<Rightarrow> u16 option" where
  "count_signatures num_sigs [] = Some num_sigs"
| "count_signatures num_sigs (f # fds) =
     (if is_signature f then (if num_sigs = - 1 then None else count_signatures (num_sigs + 1) fds)
      else count_signatures num_sigs fds)"

fun field_uncompressed :: "('k, 'p, 'a) tx_keys \<Rightarrow> 'p TransactionAuthField \<Rightarrow> bool" where
  "field_uncompressed K (Signature key_encoding _) = (key_encoding = Uncompressed)"
| "field_uncompressed K (PublicKey pubk) = (\<not> tk_compressed K pubk)"

text \<open>What the codecs of both conditions on many keys have in common.\<close>

definition multisig_cond_serialize ::
  "('p, 'x) auth_codec_scheme \<Rightarrow> ('k, 'p, 'a) tx_keys \<Rightarrow> ('h \<Rightarrow> u8) \<Rightarrow> ('h, 'p) multisig_condition writer" where
  "multisig_cond_serialize C K mode_u8 m =
     wseq (wr_u8 C (mode_u8 (ms_hash_mode m))) (wseq (wr_array C 20 (ms_signer m)) (wseq (wr_u64 C (ms_nonce m))
     (wseq (wr_u64 C (ms_tx_fee m)) (wseq (wr_fields C (auth_field_serialize C K) (ms_fields m))
     (wr_u16 C (ms_signatures_required m))))))"

definition multisig_cond_deserialize ::
  "('p, 'x) auth_codec_scheme \<Rightarrow> ('k, 'p, 'a) tx_keys \<Rightarrow> (u8 \<Rightarrow> 'h option) \<Rightarrow> string \<Rightarrow>
     (('h, 'p) multisig_condition \<times> u16 \<times> bool) reader" where
  "multisig_cond_deserialize C K mode_from_u8 too_many fd =
     obind (rd_u8 C fd) (\<lambda>(hash_mode_u8, fd).
     obind (ok_or (mode_from_u8 hash_mode_u8) (DeserializeError ''Failed to parse multisig spending condition: unknown hash mode'')) (\<lambda>hash_mode.
     obind (rd_array C 20 fd) (\<lambda>(signer, fd).
     obind (rd_u64 C fd) (\<lambda>(nonce, fd).
     obind (rd_u64 C fd) (\<lambda>(tx_fee, fd).
     obind (rd_fields_within C (unat (MAX_MESSAGE_LEN C)) (auth_field_deserialize C K) fd) (\<lambda>(fds, fd).
     obind (rd_u16 C fd) (\<lambda>(signatures_required, fd).
     obind (ok_or (count_signatures 0 fds) (DeserializeError too_many)) (\<lambda>num_sigs_given.
     Ok ((\<lparr>ms_hash_mode = hash_mode, ms_signer = signer, ms_nonce = nonce, ms_tx_fee = tx_fee, ms_fields = fds,
           ms_signatures_required = signatures_required\<rparr>, num_sigs_given, \<exists>f \<in> set fds. field_uncompressed K f), fd)))))))))"

definition multisig_serialize :: "('p, 'x) auth_codec_scheme \<Rightarrow> ('k, 'p, 'a) tx_keys \<Rightarrow> 'p MultisigSpendingCondition writer" where
  "multisig_serialize C K m = multisig_cond_serialize C K multisig_mode_u8 m"

definition multisig_deserialize :: "('p, 'x) auth_codec_scheme \<Rightarrow> ('k, 'p, 'a) tx_keys \<Rightarrow> 'p MultisigSpendingCondition reader" where
  "multisig_deserialize C K fd =
     obind (multisig_cond_deserialize C K multisig_from_u8
              ''Failed to parse multisig spending condition: too many signatures'' fd) (\<lambda>((m, num_sigs_given, have_uncompressed), fd).
     if num_sigs_given \<noteq> ms_signatures_required m
       then Err (DeserializeError ''Failed to parse multisig spending condition: wrong number of sigs'')
     else if have_uncompressed \<and> ms_hash_mode m = P2WSH
       then Err (DeserializeError ''Failed to parse multisig spending condition: expected compressed keys only'')
     else Ok (m, fd))"

definition oi_serialize :: "('p, 'x) auth_codec_scheme \<Rightarrow> ('k, 'p, 'a) tx_keys \<Rightarrow> 'p OrderIndependentMultisigSpendingCondition writer" where
  "oi_serialize C K m = multisig_cond_serialize C K oi_mode_u8 m"

definition oi_deserialize :: "('p, 'x) auth_codec_scheme \<Rightarrow> ('k, 'p, 'a) tx_keys \<Rightarrow> 'p OrderIndependentMultisigSpendingCondition reader" where
  "oi_deserialize C K fd =
     obind (multisig_cond_deserialize C K oi_from_u8
              ''Failed to parse order independent multisig spending condition: too many signatures'' fd) (\<lambda>((m, num_sigs_given, have_uncompressed), fd).
     if num_sigs_given < ms_signatures_required m
       then Err (DeserializeError ''Failed to deserialize order independent multisig spending condition: not enough sigs'')
     else if have_uncompressed \<and> ms_hash_mode m = OiP2WSH
       then Err (DeserializeError ''Failed to deserialize order independent multisig spending condition: expected compressed keys only'')
     else Ok (m, fd))"

definition singlesig_serialize :: "'x net_codec_scheme \<Rightarrow> SinglesigSpendingCondition writer" where
  "singlesig_serialize C s =
     wseq (wr_u8 C (singlesig_mode_u8 (ss_hash_mode s))) (wseq (wr_array C 20 (ss_signer s)) (wseq (wr_u64 C (ss_nonce s))
     (wseq (wr_u64 C (ss_tx_fee s)) (wseq (wr_u8 C (key_encoding_u8 (ss_key_encoding s))) (wr_array C 65 (ss_signature s))))))"

definition singlesig_deserialize :: "'x net_codec_scheme \<Rightarrow> SinglesigSpendingCondition reader" where
  "singlesig_deserialize C fd =
     obind (rd_u8 C fd) (\<lambda>(hash_mode_u8, fd).
     obind (ok_or (singlesig_from_u8 hash_mode_u8) (DeserializeError ''Failed to parse singlesig spending condition: unknown hash mode'')) (\<lambda>hash_mode.
     obind (rd_array C 20 fd) (\<lambda>(signer, fd).
     obind (rd_u64 C fd) (\<lambda>(nonce, fd).
     obind (rd_u64 C fd) (\<lambda>(tx_fee, fd).
     obind (rd_u8 C fd) (\<lambda>(key_encoding_u8, fd).
     obind (ok_or (key_encoding_from_u8 key_encoding_u8)
              (DeserializeError ''Failed to parse singlesig spending condition: unknown key encoding'')) (\<lambda>key_encoding.
     obind (rd_array C 65 fd) (\<lambda>(signature, fd).
     if hash_mode = P2WPKH \<and> key_encoding \<noteq> Compressed
       then Err (DeserializeError ''Failed to parse singlesig spending condition: incomaptible hash mode and key encoding'')
     else Ok (\<lparr>ss_hash_mode = hash_mode, ss_signer = signer, ss_nonce = nonce, ss_tx_fee = tx_fee,
                ss_key_encoding = key_encoding, ss_signature = signature\<rparr>, fd)))))))))"

fun condition_serialize :: "('p, 'x) auth_codec_scheme \<Rightarrow> ('k, 'p, 'a) tx_keys \<Rightarrow> 'p TransactionSpendingCondition writer" where
  "condition_serialize C K (Singlesig data) = singlesig_serialize C data"
| "condition_serialize C K (Multisig data) = multisig_serialize C K data"
| "condition_serialize C K (OrderIndependentMultisig data) = oi_serialize C K data"

text \<open>The byte of the hash mode is read first and put back in front of the input.\<close>

definition condition_deserialize :: "('p, 'x) auth_codec_scheme \<Rightarrow> ('k, 'p, 'a) tx_keys \<Rightarrow> 'p TransactionSpendingCondition reader" where
  "condition_deserialize C K fd =
     obind (rd_u8 C fd) (\<lambda>(hash_mode_u8, fd).
     let rrd = hash_mode_u8 # fd in
     if singlesig_from_u8 hash_mode_u8 \<noteq> None then obind (singlesig_deserialize C rrd) (\<lambda>(cond, fd). Ok (Singlesig cond, fd))
     else if multisig_from_u8 hash_mode_u8 \<noteq> None then obind (multisig_deserialize C K rrd) (\<lambda>(cond, fd). Ok (Multisig cond, fd))
     else if oi_from_u8 hash_mode_u8 \<noteq> None then obind (oi_deserialize C K rrd) (\<lambda>(cond, fd). Ok (OrderIndependentMultisig cond, fd))
     else Err (DeserializeError ''Failed to parse spending condition: invalid hash mode''))"

fun auth_serialize :: "('p, 'x) auth_codec_scheme \<Rightarrow> ('k, 'p, 'a) tx_keys \<Rightarrow> 'p TransactionAuth writer" where
  "auth_serialize C K (Standard origin_condition) =
     wseq (wr_u8 C (auth_flags_u8 AuthStandard)) (condition_serialize C K origin_condition)"
| "auth_serialize C K (Sponsored origin_condition sponsor_condition) =
     wseq (wr_u8 C (auth_flags_u8 AuthSponsored))
       (wseq (condition_serialize C K origin_condition) (condition_serialize C K sponsor_condition))"

definition auth_deserialize :: "('p, 'x) auth_codec_scheme \<Rightarrow> ('k, 'p, 'a) tx_keys \<Rightarrow> 'p TransactionAuth reader" where
  "auth_deserialize C K fd =
     obind (rd_u8 C fd) (\<lambda>(type_id, fd).
     if type_id = auth_flags_u8 AuthStandard then
       obind (condition_deserialize C K fd) (\<lambda>(origin_auth, fd). Ok (Standard origin_auth, fd))
     else if type_id = auth_flags_u8 AuthSponsored then
       obind (condition_deserialize C K fd) (\<lambda>(origin_auth, fd).
       obind (condition_deserialize C K fd) (\<lambda>(sponsor_auth, fd). Ok (Sponsored origin_auth sponsor_auth, fd)))
     else Err (DeserializeError ''Failed to parse transaction authorization: unrecognized auth flags''))"

section \<open>Changing conditions\<close>

definition push_signature :: "('h, 'p) multisig_condition \<Rightarrow> TransactionPublicKeyEncoding \<Rightarrow> bytes \<Rightarrow> ('h, 'p) multisig_condition" where
  "push_signature m key_encoding signature = m\<lparr>ms_fields := ms_fields m @ [Signature key_encoding signature]\<rparr>"

definition push_public_key :: "('h, 'p) multisig_condition \<Rightarrow> 'p \<Rightarrow> ('h, 'p) multisig_condition" where
  "push_public_key m public_key = m\<lparr>ms_fields := ms_fields m @ [PublicKey public_key]\<rparr>"

definition pop_multisig_field :: "('h, 'p) multisig_condition \<Rightarrow> ('h, 'p) multisig_condition \<times> 'p TransactionAuthField option" where
  "pop_multisig_field m =
     (if ms_fields m = [] then (m, None) else (m\<lparr>ms_fields := butlast (ms_fields m)\<rparr>, Some (last (ms_fields m))))"

definition set_signature :: "SinglesigSpendingCondition \<Rightarrow> bytes \<Rightarrow> SinglesigSpendingCondition" where
  "set_signature s signature = s\<lparr>ss_signature := signature\<rparr>"

definition pop_signature :: "SinglesigSpendingCondition \<Rightarrow> SinglesigSpendingCondition \<times> 'p TransactionAuthField option" where
  "pop_signature s =
     (if ss_signature s = SIG_EMPTY then (s, None)
      else (s\<lparr>ss_signature := SIG_EMPTY\<rparr>, Some (Signature (ss_key_encoding s) (ss_signature s))))"

text \<open>More than 65535 signatures are a panic.\<close>

fun num_signatures :: "'p TransactionSpendingCondition \<Rightarrow> u16 option" where
  "num_signatures (Singlesig data) = Some (if ss_signature data \<noteq> SIG_EMPTY then 1 else 0)"
| "num_signatures (Multisig data) = count_signatures 0 (ms_fields data)"
| "num_signatures (OrderIndependentMultisig data) = count_signatures 0 (ms_fields data)"

fun signatures_required :: "'p TransactionSpendingCondition \<Rightarrow> u16" where
  "signatures_required (Singlesig _) = 1"
| "signatures_required (Multisig multisig_data) = ms_signatures_required multisig_data"
| "signatures_required (OrderIndependentMultisig multisig_data) = ms_signatures_required multisig_data"

fun cond_nonce :: "'p TransactionSpendingCondition \<Rightarrow> u64" where
  "cond_nonce (Singlesig data) = ss_nonce data"
| "cond_nonce (Multisig data) = ms_nonce data"
| "cond_nonce (OrderIndependentMultisig data) = ms_nonce data"

fun cond_tx_fee :: "'p TransactionSpendingCondition \<Rightarrow> u64" where
  "cond_tx_fee (Singlesig data) = ss_tx_fee data"
| "cond_tx_fee (Multisig data) = ms_tx_fee data"
| "cond_tx_fee (OrderIndependentMultisig data) = ms_tx_fee data"

fun cond_set_nonce :: "'p TransactionSpendingCondition \<Rightarrow> u64 \<Rightarrow> 'p TransactionSpendingCondition" where
  "cond_set_nonce (Singlesig data) n = Singlesig (data\<lparr>ss_nonce := n\<rparr>)"
| "cond_set_nonce (Multisig data) n = Multisig (data\<lparr>ms_nonce := n\<rparr>)"
| "cond_set_nonce (OrderIndependentMultisig data) n = OrderIndependentMultisig (data\<lparr>ms_nonce := n\<rparr>)"

fun cond_set_tx_fee :: "'p TransactionSpendingCondition \<Rightarrow> u64 \<Rightarrow> 'p TransactionSpendingCondition" where
  "cond_set_tx_fee (Singlesig data) tx_fee = Singlesig (data\<lparr>ss_tx_fee := tx_fee\<rparr>)"
| "cond_set_tx_fee (Multisig data) tx_fee = Multisig (data\<lparr>ms_tx_fee := tx_fee\<rparr>)"
| "cond_set_tx_fee (OrderIndependentMultisig data) tx_fee = OrderIndependentMultisig (data\<lparr>ms_tx_fee := tx_fee\<rparr>)"

fun cond_get_tx_fee :: "'p TransactionSpendingCondition \<Rightarrow> u64" where
  "cond_get_tx_fee (Singlesig data) = ss_tx_fee data"
| "cond_get_tx_fee (Multisig data) = ms_tx_fee data"
| "cond_get_tx_fee (OrderIndependentMultisig data) = ms_tx_fee data"

fun cond_clear :: "'p TransactionSpendingCondition \<Rightarrow> 'p TransactionSpendingCondition" where
  "cond_clear (Singlesig data) = Singlesig (data\<lparr>ss_tx_fee := 0, ss_nonce := 0, ss_signature := SIG_EMPTY\<rparr>)"
| "cond_clear (Multisig data) = Multisig (data\<lparr>ms_tx_fee := 0, ms_nonce := 0, ms_fields := []\<rparr>)"
| "cond_clear (OrderIndependentMultisig data) = OrderIndependentMultisig (data\<lparr>ms_tx_fee := 0, ms_nonce := 0, ms_fields := []\<rparr>)"

text \<open>Addresses; a version that is no address byte is a panic.\<close>

definition singlesig_address_mainnet :: "('k, 'p, 'a) tx_keys \<Rightarrow> SinglesigSpendingCondition \<Rightarrow> 'a option" where
  "singlesig_address_mainnet K s =
     tk_address_new K (case ss_hash_mode s of P2PKH \<Rightarrow> MAINNET_SINGLESIG K | P2WPKH \<Rightarrow> MAINNET_MULTISIG K) (ss_signer s)"

definition singlesig_address_testnet :: "('k, 'p, 'a) tx_keys \<Rightarrow> SinglesigSpendingCondition \<Rightarrow> 'a option" where
  "singlesig_address_testnet K s =
     tk_address_new K (case ss_hash_mode s of P2PKH \<Rightarrow> TESTNET_SINGLESIG K | P2WPKH \<Rightarrow> TESTNET_MULTISIG K) (ss_signer s)"

definition multisig_address_mainnet :: "('k, 'p, 'a) tx_keys \<Rightarrow> ('h, 'p) multisig_condition \<Rightarrow> 'a option" where
  "multisig_address_mainnet K m = tk_address_new K (MAINNET_MULTISIG K) (ms_signer m)"

definition multisig_address_testnet :: "('k, 'p, 'a) tx_keys \<Rightarrow> ('h, 'p) multisig_condition \<Rightarrow> 'a option" where
  "multisig_address_testnet K m = tk_address_new K (TESTNET_MULTISIG K) (ms_signer m)"

fun address_mainnet :: "('k, 'p, 'a) tx_keys \<Rightarrow> 'p TransactionSpendingCondition \<Rightarrow> 'a option" where
  "address_mainnet K (Singlesig data) = singlesig_address_mainnet K data"
| "address_mainnet K (Multisig data) = multisig_address_mainnet K data"
| "address_mainnet K (OrderIndependentMultisig data) = multisig_address_mainnet K data"

fun address_testnet :: "('k, 'p, 'a) tx_keys \<Rightarrow> 'p TransactionSpendingCondition \<Rightarrow> 'a option" where
  "address_testnet K (Singlesig data) = singlesig_address_testnet K data"
| "address_testnet K (Multisig data) = multisig_address_testnet K data"
| "address_testnet K (OrderIndependentMultisig data) = multisig_address_testnet K data"

definition get_address :: "('k, 'p, 'a) tx_keys \<Rightarrow> 'p TransactionSpendingCondition \<Rightarrow> bool \<Rightarrow> 'a option" where
  "get_address K c mainnet = (if mainnet then address_mainnet K c else address_testnet K c)"

section \<open>Making conditions\<close>

definition new_singlesig_p2pkh :: "('k, 'p, 'a) tx_keys \<Rightarrow> 'p \<Rightarrow> 'p TransactionSpendingCondition option" where
  "new_singlesig_p2pkh K pubkey =
     map_option (\<lambda>signer_addr. Singlesig \<lparr>ss_hash_mode = P2PKH, ss_signer = tk_address_bytes K signer_addr, ss_nonce = 0, ss_tx_fee = 0,
         ss_key_encoding = (if tk_compressed K pubkey then Compressed else Uncompressed), ss_signature = SIG_EMPTY\<rparr>)
       (tk_from_public_keys K 0 SerializeP2PKH 1 [pubkey])"

definition new_singlesig_p2wpkh :: "('k, 'p, 'a) tx_keys \<Rightarrow> 'p \<Rightarrow> 'p TransactionSpendingCondition option" where
  "new_singlesig_p2wpkh K pubkey =
     map_option (\<lambda>signer_addr. Singlesig \<lparr>ss_hash_mode = P2WPKH, ss_signer = tk_address_bytes K signer_addr, ss_nonce = 0, ss_tx_fee = 0,
         ss_key_encoding = Compressed, ss_signature = SIG_EMPTY\<rparr>)
       (tk_from_public_keys K 0 SerializeP2WPKH 1 [pubkey])"

definition unsigned_multisig :: "'h \<Rightarrow> Hash160 \<Rightarrow> u16 \<Rightarrow> ('h, 'p) multisig_condition" where
  "unsigned_multisig hash_mode signer num_sigs =
     \<lparr>ms_hash_mode = hash_mode, ms_signer = signer, ms_nonce = 0, ms_tx_fee = 0, ms_fields = [], ms_signatures_required = num_sigs\<rparr>"

definition new_multisig_p2sh :: "('k, 'p, 'a) tx_keys \<Rightarrow> u16 \<Rightarrow> 'p list \<Rightarrow> 'p TransactionSpendingCondition option" where
  "new_multisig_p2sh K num_sigs pubkeys =
     map_option (\<lambda>signer_addr. Multisig (unsigned_multisig P2SH (tk_address_bytes K signer_addr) num_sigs))
       (tk_from_public_keys K 0 SerializeP2SH (unat num_sigs) pubkeys)"

definition new_multisig_order_independent_p2sh :: "('k, 'p, 'a) tx_keys \<Rightarrow> u16 \<Rightarrow> 'p list \<Rightarrow> 'p TransactionSpendingCondition option" where
  "new_multisig_order_independent_p2sh K num_sigs pubkeys =
     map_option (\<lambda>signer_addr. OrderIndependentMultisig (unsigned_multisig OiP2SH (tk_address_bytes K signer_addr) num_sigs))
       (tk_from_public_keys K 0 SerializeP2SH (unat num_sigs) pubkeys)"

definition new_multisig_order_independent_p2wsh :: "('k, 'p, 'a) tx_keys \<Rightarrow> u16 \<Rightarrow> 'p list \<Rightarrow> 'p TransactionSpendingCondition option" where
  "new_multisig_order_independent_p2wsh K num_sigs pubkeys =
     map_option (\<lambda>signer_addr. OrderIndependentMultisig (unsigned_multisig OiP2WSH (tk_address_bytes K signer_addr) num_sigs))
       (tk_from_public_keys K 0 SerializeP2WSH (unat num_sigs) pubkeys)"

definition new_multisig_p2wsh :: "('k, 'p, 'a) tx_keys \<Rightarrow> u16 \<Rightarrow> 'p list \<Rightarrow> 'p TransactionSpendingCondition option" where
  "new_multisig_p2wsh K num_sigs pubkeys =
     map_option (\<lambda>signer_addr. Multisig (unsigned_multisig P2WSH (tk_address_bytes K signer_addr) num_sigs))
       (tk_from_public_keys K 0 SerializeP2WSH (unat num_sigs) pubkeys)"

definition new_initial_sighash :: "'p TransactionSpendingCondition" where
  "new_initial_sighash =
     Singlesig \<lparr>ss_hash_mode = P2PKH, ss_signer = replicate 20 0, ss_nonce = 0, ss_tx_fee = 0, ss_key_encoding = Compressed,
       ss_signature = SIG_EMPTY\<rparr>"

section \<open>The rolling hash\<close>

definition make_sighash_presign :: "('k, 'p, 'a) tx_keys \<Rightarrow> Txid \<Rightarrow> TransactionAuthFlags \<Rightarrow> u64 \<Rightarrow> u64 \<Rightarrow> Txid" where
  "make_sighash_presign K cur_sighash cond_code tx_fee nonce =
     from_sighash_bytes K (cur_sighash @ [auth_flags_u8 cond_code] @ to_be_bytes 8 tx_fee @ to_be_bytes 8 nonce)"

definition make_sighash_postsign :: "('k, 'p, 'a) tx_keys \<Rightarrow> Txid \<Rightarrow> 'p \<Rightarrow> bytes \<Rightarrow> Txid" where
  "make_sighash_postsign K cur_sighash pubkey sig =
     (let pubkey_encoding = if tk_compressed K pubkey then Compressed else Uncompressed in
      from_sighash_bytes K (cur_sighash @ [key_encoding_u8 pubkey_encoding] @ sig))"

definition next_signature ::
  "('k, 'p, 'a) tx_keys \<Rightarrow> Txid \<Rightarrow> TransactionAuthFlags \<Rightarrow> u64 \<Rightarrow> u64 \<Rightarrow> 'k \<Rightarrow> (TxError, bytes \<times> Txid) outcome" where
  "next_signature K cur_sighash cond_code tx_fee nonce privk =
     (let sighash_presign = make_sighash_presign K cur_sighash cond_code tx_fee nonce in
      obind (map_err TxSigningError (tk_sign K privk sighash_presign)) (\<lambda>sig.
      Ok (sig, make_sighash_postsign K sighash_presign (tk_public K privk) sig)))"

definition next_verification ::
  "('k, 'p, 'a) tx_keys \<Rightarrow> Txid \<Rightarrow> TransactionAuthFlags \<Rightarrow> u64 \<Rightarrow> u64 \<Rightarrow> TransactionPublicKeyEncoding \<Rightarrow> bytes \<Rightarrow>
     (TxError, 'p \<times> Txid) outcome" where
  "next_verification K cur_sighash cond_code tx_fee nonce key_encoding sig =
     (let sighash_presign = make_sighash_presign K cur_sighash cond_code tx_fee nonce in
      obind (map_err TxVerifyingError (tk_recover K sighash_presign sig)) (\<lambda>pubk.
      let pubk = tk_set_compressed K pubk (case key_encoding of Compressed \<Rightarrow> True | Uncompressed \<Rightarrow> False) in
      Ok (pubk, make_sighash_postsign K sighash_presign pubk sig)))"

section \<open>Verification\<close>

text \<open>
  The loop over the fields, for both conditions: the hash that signatures are checked against
  rolls on with each of them (\<open>rolling\<close>) or stays the initial one. What it gathers is the last
  hash, the number of signatures, whether a key was uncompressed, and the keys.
\<close>

fun verify_fields ::
  "('k, 'p, 'a) tx_keys \<Rightarrow> bool \<Rightarrow> TransactionAuthFlags \<Rightarrow> u64 \<Rightarrow> u64 \<Rightarrow> 'p TransactionAuthField list \<Rightarrow>
     Txid \<Rightarrow> u16 \<Rightarrow> bool \<Rightarrow> 'p list \<Rightarrow> (TxError, Txid \<times> u16 \<times> bool \<times> 'p list) outcome" where
  "verify_fields K rolling cond_code tx_fee nonce [] cur_sighash num_sigs have_uncompressed pubkeys =
     Ok (cur_sighash, num_sigs, have_uncompressed, pubkeys)"
| "verify_fields K rolling cond_code tx_fee nonce (PublicKey pubkey # fds) cur_sighash num_sigs have_uncompressed pubkeys =
     verify_fields K rolling cond_code tx_fee nonce fds cur_sighash num_sigs
       (if \<not> tk_compressed K pubkey then True else have_uncompressed) (pubkeys @ [pubkey])"
| "verify_fields K rolling cond_code tx_fee nonce (Signature pubkey_encoding sigbuf # fds) cur_sighash num_sigs have_uncompressed pubkeys =
     obind (next_verification K cur_sighash cond_code tx_fee nonce pubkey_encoding sigbuf) (\<lambda>(pubkey, next_sighash).
     obind (ok_or (if num_sigs = - 1 then None else Some (num_sigs + 1)) (TxVerifyingError ''Too many signatures'')) (\<lambda>num_sigs.
     verify_fields K rolling cond_code tx_fee nonce fds (if rolling then next_sighash else cur_sighash) num_sigs
       (if pubkey_encoding = Uncompressed then True else have_uncompressed) (pubkeys @ [pubkey])))"

definition multisig_verify ::
  "('k, 'p, 'a) tx_keys \<Rightarrow> 'p MultisigSpendingCondition \<Rightarrow> Txid \<Rightarrow> TransactionAuthFlags \<Rightarrow> (TxError, Txid) outcome" where
  "multisig_verify K m initial_sighash cond_code =
     obind (verify_fields K True cond_code (ms_tx_fee m) (ms_nonce m) (ms_fields m) initial_sighash 0 False [])
       (\<lambda>(cur_sighash, num_sigs, have_uncompressed, pubkeys).
     if num_sigs \<noteq> ms_signatures_required m then Err (TxVerifyingError ''Incorrect number of signatures'')
     else if have_uncompressed \<and> ms_hash_mode m = P2WSH
       then Err (TxVerifyingError ''Uncompressed keys are not allowed in this hash mode'')
     else
       obind (ok_or (tk_from_public_keys K 0 (multisig_to_address_hash_mode (ms_hash_mode m)) (unat (ms_signatures_required m)) pubkeys)
                (TxVerifyingError ''Failed to generate address from public keys'')) (\<lambda>addr.
       if tk_address_bytes K addr \<noteq> ms_signer m then Err (TxVerifyingError ''Signer hash does not equal hash of public key(s)'')
       else Ok cur_sighash))"

definition oi_verify ::
  "('k, 'p, 'a) tx_keys \<Rightarrow> 'p OrderIndependentMultisigSpendingCondition \<Rightarrow> Txid \<Rightarrow> TransactionAuthFlags \<Rightarrow> (TxError, Txid) outcome" where
  "oi_verify K m initial_sighash cond_code =
     obind (verify_fields K False cond_code (ms_tx_fee m) (ms_nonce m) (ms_fields m) initial_sighash 0 False [])
       (\<lambda>(_, num_sigs, have_uncompressed, pubkeys).
     if num_sigs < ms_signatures_required m then Err (TxVerifyingError ''Not enough signatures'')
     else if have_uncompressed \<and> ms_hash_mode m = OiP2WSH
       then Err (TxVerifyingError ''Uncompressed keys are not allowed in this hash mode'')
     else
       obind (ok_or (tk_from_public_keys K 0 (oi_to_address_hash_mode (ms_hash_mode m)) (unat (ms_signatures_required m)) pubkeys)
                (TxVerifyingError ''Failed to generate address from public keys'')) (\<lambda>addr.
       if tk_address_bytes K addr \<noteq> ms_signer m then Err (TxVerifyingError ''Signer hash does not equal hash of public key(s)'')
       else Ok initial_sighash))"

definition singlesig_verify ::
  "('k, 'p, 'a) tx_keys \<Rightarrow> SinglesigSpendingCondition \<Rightarrow> Txid \<Rightarrow> TransactionAuthFlags \<Rightarrow> (TxError, Txid) outcome" where
  "singlesig_verify K s initial_sighash cond_code =
     obind (next_verification K initial_sighash cond_code (ss_tx_fee s) (ss_nonce s) (ss_key_encoding s) (ss_signature s)) (\<lambda>(pubkey, next_sighash).
     obind (ok_or (tk_from_public_keys K 0 (singlesig_to_address_hash_mode (ss_hash_mode s)) 1 [pubkey])
              (TxVerifyingError ''Failed to generate address from public key'')) (\<lambda>addr.
     if tk_address_bytes K addr \<noteq> ss_signer s then Err (TxVerifyingError ''Signer hash does not equal hash of public key(s)'')
     else Ok next_sighash))"

fun condition_verify ::
  "('k, 'p, 'a) tx_keys \<Rightarrow> 'p TransactionSpendingCondition \<Rightarrow> Txid \<Rightarrow> TransactionAuthFlags \<Rightarrow> (TxError, Txid) outcome" where
  "condition_verify K (Singlesig data) initial_sighash cond_code = singlesig_verify K data initial_sighash cond_code"
| "condition_verify K (Multisig data) initial_sighash cond_code = multisig_verify K data initial_sighash cond_code"
| "condition_verify K (OrderIndependentMultisig data) initial_sighash cond_code = oi_verify K data initial_sighash cond_code"

text \<open>Epochs are ordered; conditions that do not depend on the order came with epoch 3.0.\<close>

fun is_supported_in_epoch :: "'e::linorder \<Rightarrow> 'p TransactionSpendingCondition \<Rightarrow> 'e \<Rightarrow> bool" where
  "is_supported_in_epoch Epoch30 (OrderIndependentMultisig _) epoch_id = (epoch_id \<ge> Epoch30)"
| "is_supported_in_epoch Epoch30 _ epoch_id = True"

section \<open>Authorizations\<close>

definition from_p2pkh :: "('k, 'p, 'a) tx_keys \<Rightarrow> 'k \<Rightarrow> 'p TransactionAuth option" where
  "from_p2pkh K privk = map_option Standard (new_singlesig_p2pkh K (tk_public K privk))"

definition from_p2sh :: "('k, 'p, 'a) tx_keys \<Rightarrow> 'k list \<Rightarrow> u16 \<Rightarrow> 'p TransactionAuth option" where
  "from_p2sh K privks num_sigs = map_option Standard (new_multisig_p2sh K num_sigs (map (tk_public K) privks))"

definition from_order_independent_p2sh :: "('k, 'p, 'a) tx_keys \<Rightarrow> 'k list \<Rightarrow> u16 \<Rightarrow> 'p TransactionAuth option" where
  "from_order_independent_p2sh K privks num_sigs =
     map_option Standard (new_multisig_order_independent_p2sh K num_sigs (map (tk_public K) privks))"

definition from_order_independent_p2wsh :: "('k, 'p, 'a) tx_keys \<Rightarrow> 'k list \<Rightarrow> u16 \<Rightarrow> 'p TransactionAuth option" where
  "from_order_independent_p2wsh K privks num_sigs =
     map_option Standard (new_multisig_order_independent_p2wsh K num_sigs (map (tk_public K) privks))"

definition from_p2wpkh :: "('k, 'p, 'a) tx_keys \<Rightarrow> 'k \<Rightarrow> 'p TransactionAuth option" where
  "from_p2wpkh K privk = map_option Standard (new_singlesig_p2wpkh K (tk_public K privk))"

definition from_p2wsh :: "('k, 'p, 'a) tx_keys \<Rightarrow> 'k list \<Rightarrow> u16 \<Rightarrow> 'p TransactionAuth option" where
  "from_p2wsh K privks num_sigs = map_option Standard (new_multisig_p2wsh K num_sigs (map (tk_public K) privks))"

fun into_sponsored :: "'p TransactionAuth \<Rightarrow> 'p TransactionAuth \<Rightarrow> 'p TransactionAuth option" where
  "into_sponsored (Standard sc) (Standard sp) = Some (Sponsored sc sp)"
| "into_sponsored _ _ = None"

fun set_sponsor :: "'p TransactionAuth \<Rightarrow> 'p TransactionSpendingCondition \<Rightarrow> (TxError, 'p TransactionAuth) outcome" where
  "set_sponsor (Sponsored origin _) sponsor_spending_cond = Ok (Sponsored origin sponsor_spending_cond)"
| "set_sponsor (Standard _) sponsor_spending_cond = Err TxIncompatibleSpendingConditionError"

fun is_standard :: "'p TransactionAuth \<Rightarrow> bool" where
  "is_standard (Standard _) = True"
| "is_standard _ = False"

fun is_sponsored :: "'p TransactionAuth \<Rightarrow> bool" where
  "is_sponsored (Sponsored _ _) = True"
| "is_sponsored _ = False"

fun into_initial_sighash_auth :: "'p TransactionAuth \<Rightarrow> 'p TransactionAuth" where
  "into_initial_sighash_auth (Standard origin) = Standard (cond_clear origin)"
| "into_initial_sighash_auth (Sponsored origin _) = Sponsored (cond_clear origin) new_initial_sighash"

fun auth_origin :: "'p TransactionAuth \<Rightarrow> 'p TransactionSpendingCondition" where
  "auth_origin (Standard s) = s"
| "auth_origin (Sponsored s _) = s"

definition get_origin_nonce :: "'p TransactionAuth \<Rightarrow> u64" where
  "get_origin_nonce a = cond_nonce (auth_origin a)"

fun set_origin_nonce :: "'p TransactionAuth \<Rightarrow> u64 \<Rightarrow> 'p TransactionAuth" where
  "set_origin_nonce (Standard s) n = Standard (cond_set_nonce s n)"
| "set_origin_nonce (Sponsored s p) n = Sponsored (cond_set_nonce s n) p"

fun auth_sponsor :: "'p TransactionAuth \<Rightarrow> 'p TransactionSpendingCondition option" where
  "auth_sponsor (Standard _) = None"
| "auth_sponsor (Sponsored _ s) = Some s"

definition get_sponsor_nonce :: "'p TransactionAuth \<Rightarrow> u64 option" where
  "get_sponsor_nonce a = map_option cond_nonce (auth_sponsor a)"

fun set_sponsor_nonce :: "'p TransactionAuth \<Rightarrow> u64 \<Rightarrow> (TxError, 'p TransactionAuth) outcome" where
  "set_sponsor_nonce (Standard _) n = Err TxIncompatibleSpendingConditionError"
| "set_sponsor_nonce (Sponsored o' s) n = Ok (Sponsored o' (cond_set_nonce s n))"

fun auth_set_tx_fee :: "'p TransactionAuth \<Rightarrow> u64 \<Rightarrow> 'p TransactionAuth" where
  "auth_set_tx_fee (Standard s) tx_fee = Standard (cond_set_tx_fee s tx_fee)"
| "auth_set_tx_fee (Sponsored o' s) tx_fee = Sponsored o' (cond_set_tx_fee s tx_fee)"

fun auth_get_tx_fee :: "'p TransactionAuth \<Rightarrow> u64" where
  "auth_get_tx_fee (Standard s) = cond_get_tx_fee s"
| "auth_get_tx_fee (Sponsored _ s) = cond_get_tx_fee s"

fun auth_verify_origin :: "('k, 'p, 'a) tx_keys \<Rightarrow> 'p TransactionAuth \<Rightarrow> Txid \<Rightarrow> (TxError, Txid) outcome" where
  "auth_verify_origin K (Standard origin_condition) initial_sighash = condition_verify K origin_condition initial_sighash AuthStandard"
| "auth_verify_origin K (Sponsored origin_condition _) initial_sighash = condition_verify K origin_condition initial_sighash AuthStandard"

definition auth_verify :: "('k, 'p, 'a) tx_keys \<Rightarrow> 'p TransactionAuth \<Rightarrow> Txid \<Rightarrow> (TxError, unit) outcome" where
  "auth_verify K a initial_sighash =
     obind (auth_verify_origin K a initial_sighash) (\<lambda>origin_sighash.
     case a of
       Standard _ \<Rightarrow> Ok ()
     | Sponsored _ sponsor_condition \<Rightarrow>
         obind (condition_verify K sponsor_condition origin_sighash AuthSponsored) (\<lambda>_. Ok ()))"

fun auth_clear :: "'p TransactionAuth \<Rightarrow> 'p TransactionAuth" where
  "auth_clear (Standard origin_condition) = Standard (cond_clear origin_condition)"
| "auth_clear (Sponsored origin_condition sponsor_condition) = Sponsored (cond_clear origin_condition) (cond_clear sponsor_condition)"

fun auth_is_supported_in_epoch :: "'e::linorder \<Rightarrow> 'p TransactionAuth \<Rightarrow> 'e \<Rightarrow> bool" where
  "auth_is_supported_in_epoch Epoch30 (Standard origin) epoch_id = is_supported_in_epoch Epoch30 origin epoch_id"
| "auth_is_supported_in_epoch Epoch30 (Sponsored origin sponsor) epoch_id =
     (is_supported_in_epoch Epoch30 origin epoch_id \<and> is_supported_in_epoch Epoch30 sponsor epoch_id)"

end
