(* ===== verification/Tx_Transaction.thy ===== *)
theory Tx_Transaction
  imports Tx_Auth
begin

text \<open>
  Transactions (\<open>src/tx/transaction.rs\<close> and the functions of \<open>src/tx/mod.rs\<close>): the codec of
  payloads, post-conditions and transactions, signing and verifying, the signer, and the
  functions that make a signed transaction.
\<close>

unbundle bit_operations_syntax

section \<open>The codec\<close>

text \<open>
  The codec of authorizations with that of addresses, names, principals and Clarity values.
  Reading a whole transaction goes through a reader of at most so many bytes. \<open>contract_name_ok\<close>
  and \<open>clarity_name_ok\<close> say what \<open>try_from\<close> of the \<open>clarity\<close> crate lets through.
\<close>

record ('p, 'a, 'v, 'q) tx_codec = "'p auth_codec" +
  wr_address :: "'a writer"
  rd_address :: "'a reader"
  wr_contract :: "ContractName writer"
  rd_contract :: "ContractName reader"
  wr_clarity :: "ClarityName writer"
  rd_clarity :: "ClarityName reader"
  wr_principal :: "'q writer"
  rd_principal :: "'q reader"
  wr_value :: "'v writer"
  rd_value :: "'v reader"
  wr_values :: "'v list writer"
  rd_values_within :: "nat \<Rightarrow> 'v list reader"
  wr_post_conditions :: "('a, 'v) TransactionPostCondition writer \<Rightarrow> ('a, 'v) TransactionPostCondition list writer"
  rd_post_conditions :: "('a, 'v) TransactionPostCondition reader \<Rightarrow> ('a, 'v) TransactionPostCondition list reader"
  rd_tx_within :: "nat \<Rightarrow> ('a, 'v, 'q, 'p) StacksTransaction reader \<Rightarrow> ('a, 'v, 'q, 'p) StacksTransaction reader"
  contract_name_ok :: "bytes \<Rightarrow> bool"
  clarity_name_ok :: "bytes \<Rightarrow> bool"
  CHAIN_ID_MAINNET :: u32
  CHAIN_ID_TESTNET :: u32

text \<open>Names of contracts and of Clarity, and \<open>StacksString\<close> from a name: what is not valid is a panic.\<close>

definition contract_name_try_from :: "('p, 'a, 'v, 'q) tx_codec \<Rightarrow> bytes \<Rightarrow> ContractName option" where
  "contract_name_try_from C s = (if contract_name_ok C s then Some s else None)"

definition clarity_name_try_from :: "('p, 'a, 'v, 'q) tx_codec \<Rightarrow> bytes \<Rightarrow> ClarityName option" where
  "clarity_name_try_from C s = (if clarity_name_ok C s then Some s else None)"

definition stacks_string_from_clarity :: "ClarityName \<Rightarrow> StacksString option" where
  "stacks_string_from_clarity clarity_name = stacks_string_from_str clarity_name"

definition is_clarity_variable :: "('p, 'a, 'v, 'q) tx_codec \<Rightarrow> StacksString \<Rightarrow> bool option" where
  "is_clarity_variable C s = map_option (\<lambda>_. clarity_name_try_from C s \<noteq> None) (stacks_string_to_string s)"

section \<open>Payloads\<close>

definition call_serialize :: "('p, 'a, 'v, 'q) tx_codec \<Rightarrow> ('a, 'v) TransactionContractCall writer" where
  "call_serialize C cc =
     wseq (wr_address C (cc_address cc)) (wseq (wr_contract C (cc_contract_name cc))
       (wseq (wr_clarity C (cc_function_name cc)) (wr_values C (cc_function_args cc))))"

definition call_deserialize :: "('p, 'a, 'v, 'q) tx_codec \<Rightarrow> ('a, 'v) TransactionContractCall reader" where
  "call_deserialize C fd =
     obind (rd_address C fd) (\<lambda>(address, fd).
     obind (rd_contract C fd) (\<lambda>(contract_name, fd).
     obind (rd_clarity C fd) (\<lambda>(function_name, fd).
     obind (rd_values_within C (unat MAX_TRANSACTION_LEN) fd) (\<lambda>(function_args, fd).
     obind (from_opt (stacks_string_from_clarity function_name)) (\<lambda>s.
     obind (from_opt (is_clarity_variable C s)) (\<lambda>is_variable.
     if \<not> is_variable then Err (DeserializeError ''Failed to parse transaction: invalid function name -- not a Clarity variable'')
     else Ok (\<lparr>cc_address = address, cc_contract_name = contract_name, cc_function_name = function_name,
                cc_function_args = function_args\<rparr>, fd)))))))"

definition smart_contract_serialize :: "('p, 'a, 'v, 'q) tx_codec \<Rightarrow> TransactionSmartContract writer" where
  "smart_contract_serialize C sc = wseq (wr_contract C (sc_name sc)) (stacks_string_serialize C (sc_code_body sc))"

definition smart_contract_deserialize :: "('p, 'a, 'v, 'q) tx_codec \<Rightarrow> TransactionSmartContract reader" where
  "smart_contract_deserialize C fd =
     obind (rd_contract C fd) (\<lambda>(name, fd).
     obind (stacks_string_deserialize C fd) (\<lambda>(code_body, fd).
     Ok (\<lparr>sc_name = name, sc_code_body = code_body\<rparr>, fd)))"

fun clarity_version_serialize :: "'x net_codec_scheme \<Rightarrow> ClarityVersion writer" where
  "clarity_version_serialize C Clarity1 = wr_u8 C 1"
| "clarity_version_serialize C Clarity2 = wr_u8 C 2"
| "clarity_version_serialize C Clarity3 = wr_u8 C 3"

definition clarity_version_deserialize :: "'x net_codec_scheme \<Rightarrow> ClarityVersion reader" where
  "clarity_version_deserialize C fd =
     obind (rd_u8 C fd) (\<lambda>(version_byte, fd).
     if version_byte = 1 then Ok (Clarity1, fd)
     else if version_byte = 2 then Ok (Clarity2, fd)
     else if version_byte = 3 then Ok (Clarity3, fd)
     else Err (DeserializeError ''Unrecognized ClarityVersion byte''))"

fun tx_payload_serialize :: "('p, 'a, 'v, 'q) tx_codec \<Rightarrow> ('a, 'v, 'q) TransactionPayload writer" where
  "tx_payload_serialize C (TokenTransfer address amount memo) =
     wseq (wr_u8 C (payload_id_u8 IdTokenTransfer)) (wseq (wr_principal C address) (wseq (wr_u64 C amount) (wr_array C 34 memo)))"
| "tx_payload_serialize C (ContractCall cc) = wseq (wr_u8 C (payload_id_u8 IdContractCall)) (call_serialize C cc)"
| "tx_payload_serialize C (SmartContract sc version_opt) =
     (case version_opt of
        Some version \<Rightarrow>
          wseq (wr_u8 C (payload_id_u8 IdVersionedSmartContract))
            (wseq (clarity_version_serialize C version) (smart_contract_serialize C sc))
      | None \<Rightarrow> wseq (wr_u8 C (payload_id_u8 IdSmartContract)) (smart_contract_serialize C sc))"

definition tx_payload_deserialize :: "('p, 'a, 'v, 'q) tx_codec \<Rightarrow> ('a, 'v, 'q) TransactionPayload reader" where
  "tx_payload_deserialize C fd =
     obind (rd_u8 C fd) (\<lambda>(type_id_u8, fd).
     obind (ok_or (payload_id_from_u8 type_id_u8) (DeserializeError ''Failed to parse transaction -- unknown payload ID'')) (\<lambda>type_id.
     case type_id of
       IdTokenTransfer \<Rightarrow>
         obind (rd_principal C fd) (\<lambda>(principal, fd).
         obind (rd_u64 C fd) (\<lambda>(amount, fd).
         obind (rd_array C 34 fd) (\<lambda>(memo, fd). Ok (TokenTransfer principal amount memo, fd))))
     | IdContractCall \<Rightarrow> obind (call_deserialize C fd) (\<lambda>(payload, fd). Ok (ContractCall payload, fd))
     | IdSmartContract \<Rightarrow> obind (smart_contract_deserialize C fd) (\<lambda>(payload, fd). Ok (SmartContract payload None, fd))
     | IdVersionedSmartContract \<Rightarrow>
         obind (clarity_version_deserialize C fd) (\<lambda>(version, fd).
         obind (smart_contract_deserialize C fd) (\<lambda>(payload, fd). Ok (SmartContract payload (Some version), fd)))))"

definition new_contract_call :: "('p, 'a, 'v, 'q) tx_codec \<Rightarrow> 'a \<Rightarrow> bytes \<Rightarrow> bytes \<Rightarrow> 'v list \<Rightarrow> ('a, 'v, 'q) TransactionPayload option" where
  "new_contract_call C contract_address contract_name function_name args =
     (case contract_name_try_from C contract_name of
        None \<Rightarrow> None
      | Some contract_name_str \<Rightarrow>
         (case clarity_name_try_from C function_name of
            None \<Rightarrow> None
          | Some function_name_str \<Rightarrow>
             Some (ContractCall \<lparr>cc_address = contract_address, cc_contract_name = contract_name_str,
                     cc_function_name = function_name_str, cc_function_args = args\<rparr>)))"

definition new_smart_contract :: "('p, 'a, 'v, 'q) tx_codec \<Rightarrow> bytes \<Rightarrow> bytes \<Rightarrow> ClarityVersion option \<Rightarrow> ('a, 'v, 'q) TransactionPayload option" where
  "new_smart_contract C name contract version_opt =
     (case (contract_name_try_from C name, stacks_string_from_str contract) of
        (Some s_name, Some s_body) \<Rightarrow> Some (SmartContract \<lparr>sc_name = s_name, sc_code_body = s_body\<rparr> version_opt)
      | _ \<Rightarrow> None)"

section \<open>Post-conditions\<close>

definition asset_info_serialize :: "('p, 'a, 'v, 'q) tx_codec \<Rightarrow> 'a AssetInfo writer" where
  "asset_info_serialize C a =
     wseq (wr_address C (ai_contract_address a)) (wseq (wr_contract C (ai_contract_name a)) (wr_clarity C (ai_asset_name a)))"

definition asset_info_deserialize :: "('p, 'a, 'v, 'q) tx_codec \<Rightarrow> 'a AssetInfo reader" where
  "asset_info_deserialize C fd =
     obind (rd_address C fd) (\<lambda>(contract_address, fd).
     obind (rd_contract C fd) (\<lambda>(contract_name, fd).
     obind (rd_clarity C fd) (\<lambda>(asset_name, fd).
     Ok (\<lparr>ai_contract_address = contract_address, ai_contract_name = contract_name, ai_asset_name = asset_name\<rparr>, fd))))"

fun pc_principal_serialize :: "('p, 'a, 'v, 'q) tx_codec \<Rightarrow> 'a PostConditionPrincipal writer" where
  "pc_principal_serialize C PcOrigin = wr_u8 C (principal_id_u8 IdOrigin)"
| "pc_principal_serialize C (PcStandard address) = wseq (wr_u8 C (principal_id_u8 IdStandard)) (wr_address C address)"
| "pc_principal_serialize C (PcContract address contract_name) =
     wseq (wr_u8 C (principal_id_u8 IdContract)) (wseq (wr_address C address) (wr_contract C contract_name))"

definition pc_principal_deserialize :: "('p, 'a, 'v, 'q) tx_codec \<Rightarrow> 'a PostConditionPrincipal reader" where
  "pc_principal_deserialize C fd =
     obind (rd_u8 C fd) (\<lambda>(principal_id, fd).
     if principal_id = principal_id_u8 IdOrigin then Ok (PcOrigin, fd)
     else if principal_id = principal_id_u8 IdStandard then obind (rd_address C fd) (\<lambda>(addr, fd). Ok (PcStandard addr, fd))
     else if principal_id = principal_id_u8 IdContract then
       obind (rd_address C fd) (\<lambda>(addr, fd).
       obind (rd_contract C fd) (\<lambda>(contract_name, fd). Ok (PcContract addr contract_name, fd)))
     else Err (DeserializeError ''Failed to parse transaction: unknown post condition principal ID''))"

fun post_condition_serialize :: "('p, 'a, 'v, 'q) tx_codec \<Rightarrow> ('a, 'v) TransactionPostCondition writer" where
  "post_condition_serialize C (PcSTX pc_principal fungible_condition amount) =
     wseq (wr_u8 C (asset_info_id_u8 IdSTX)) (wseq (pc_principal_serialize C pc_principal)
       (wseq (wr_u8 C (fungible_code_u8 fungible_condition)) (wr_u64 C amount)))"
| "post_condition_serialize C (PcFungible pc_principal asset_info fungible_condition amount) =
     wseq (wr_u8 C (asset_info_id_u8 IdFungibleAsset)) (wseq (pc_principal_serialize C pc_principal)
       (wseq (asset_info_serialize C asset_info) (wseq (wr_u8 C (fungible_code_u8 fungible_condition)) (wr_u64 C amount))))"
| "post_condition_serialize C (PcNonfungible pc_principal asset_info asset_value nonfungible_condition) =
     wseq (wr_u8 C (asset_info_id_u8 IdNonfungibleAsset)) (wseq (pc_principal_serialize C pc_principal)
       (wseq (asset_info_serialize C asset_info) (wseq (wr_value C asset_value) (wr_u8 C (nonfungible_code_u8 nonfungible_condition)))))"

definition post_condition_deserialize :: "('p, 'a, 'v, 'q) tx_codec \<Rightarrow> ('a, 'v) TransactionPostCondition reader" where
  "post_condition_deserialize C fd =
     obind (rd_u8 C fd) (\<lambda>(asset_info_id, fd).
     if asset_info_id = asset_info_id_u8 IdSTX then
       obind (pc_principal_deserialize C fd) (\<lambda>(principal, fd).
       obind (rd_u8 C fd) (\<lambda>(condition_u8, fd).
       obind (rd_u64 C fd) (\<lambda>(amount, fd).
       obind (ok_or (fungible_code_from_u8 condition_u8)
                (DeserializeError ''Failed to parse transaction: Failed to parse STX fungible condition code'')) (\<lambda>condition_code.
       Ok (PcSTX principal condition_code amount, fd)))))
     else if asset_info_id = asset_info_id_u8 IdFungibleAsset then
       obind (pc_principal_deserialize C fd) (\<lambda>(principal, fd).
       obind (asset_info_deserialize C fd) (\<lambda>(asset, fd).
       obind (rd_u8 C fd) (\<lambda>(condition_u8, fd).
       obind (rd_u64 C fd) (\<lambda>(amount, fd).
       obind (ok_or (fungible_code_from_u8 condition_u8)
                (DeserializeError ''Failed to parse transaction: Failed to parse FungibleAsset condition code'')) (\<lambda>condition_code.
       Ok (PcFungible principal asset condition_code amount, fd))))))
     else if asset_info_id = asset_info_id_u8 IdNonfungibleAsset then
       obind (pc_principal_deserialize C fd) (\<lambda>(principal, fd).
       obind (asset_info_deserialize C fd) (\<lambda>(asset, fd).
       obind (rd_value C fd) (\<lambda>(asset_value, fd).
       obind (rd_u8 C fd) (\<lambda>(condition_u8, fd).
       obind (ok_or (nonfungible_code_from_u8 condition_u8)
                (DeserializeError ''Failed to parse transaction: Failed to parse NonfungibleAsset condition code'')) (\<lambda>condition_code.
       Ok (PcNonfungible principal asset asset_value condition_code, fd))))))
     else Err (DeserializeError ''Failed to aprse transaction: unknown asset info ID''))"

section \<open>Transactions\<close>

definition tx_serialize ::
  "('p, 'a, 'v, 'q) tx_codec \<Rightarrow> ('k, 'p, 'a) tx_keys \<Rightarrow> ('a, 'v, 'q, 'p) StacksTransaction writer" where
  "tx_serialize C K tx =
     wseq (wr_u8 C (version_u8 (tx_version tx))) (wseq (wr_u32 C (tx_chain_id tx)) (wseq (auth_serialize C K (tx_auth tx))
     (wseq (wr_u8 C (anchor_mode_u8 (tx_anchor_mode tx))) (wseq (wr_u8 C (post_condition_mode_u8 (tx_post_condition_mode tx)))
     (wseq (wr_post_conditions C (post_condition_serialize C) (tx_post_conditions tx)) (tx_payload_serialize C (tx_payload tx)))))))"

definition tx_deserialize_inner ::
  "('p, 'a, 'v, 'q) tx_codec \<Rightarrow> ('k, 'p, 'a) tx_keys \<Rightarrow> ('a, 'v, 'q, 'p) StacksTransaction reader" where
  "tx_deserialize_inner C K fd =
     obind (rd_u8 C fd) (\<lambda>(version_u8, fd).
     obind (rd_u32 C fd) (\<lambda>(chain_id, fd).
     obind (auth_deserialize C K fd) (\<lambda>(auth, fd).
     obind (rd_u8 C fd) (\<lambda>(mode_u8, fd).
     obind (rd_u8 C fd) (\<lambda>(pc_mode_u8, fd).
     obind (rd_post_conditions C (post_condition_deserialize C) fd) (\<lambda>(post_conditions, fd).
     obind (tx_payload_deserialize C fd) (\<lambda>(payload, fd).
     let version = (if version_u8 AND 0x80 = 0 then Mainnet else Testnet) in
     obind (if mode_u8 = anchor_mode_u8 OffChainOnly then Ok OffChainOnly
            else if mode_u8 = anchor_mode_u8 OnChainOnly then Ok OnChainOnly
            else if mode_u8 = anchor_mode_u8 AnyMode then Ok AnyMode
            else Err (DeserializeError ''Failed to parse transaction: invalid anchor mode'')) (\<lambda>anchor_mode.
     obind (if pc_mode_u8 = post_condition_mode_u8 Allow then Ok Allow
            else if pc_mode_u8 = post_condition_mode_u8 Deny then Ok Deny
            else Err (DeserializeError ''Failed to parse transaction: invalid post-condition mode'')) (\<lambda>post_condition_mode.
     Ok (\<lparr>tx_version = version, tx_chain_id = chain_id, tx_auth = auth, tx_anchor_mode = anchor_mode,
          tx_post_condition_mode = post_condition_mode, tx_post_conditions = post_conditions, tx_payload = payload\<rparr>, fd))))))))))"

text \<open>The length is what was read through the bounded reader.\<close>

definition tx_deserialize_with_len ::
  "('p, 'a, 'v, 'q) tx_codec \<Rightarrow> ('k, 'p, 'a) tx_keys \<Rightarrow> (('a, 'v, 'q, 'p) StacksTransaction \<times> u64) reader" where
  "tx_deserialize_with_len C K fd =
     obind (rd_tx_within C (unat MAX_TRANSACTION_LEN) (tx_deserialize_inner C K) fd) (\<lambda>(tx, rest).
     Ok ((tx, word_of_nat (length fd - length rest)), rest))"

definition tx_deserialize ::
  "('p, 'a, 'v, 'q) tx_codec \<Rightarrow> ('k, 'p, 'a) tx_keys \<Rightarrow> ('a, 'v, 'q, 'p) StacksTransaction reader" where
  "tx_deserialize C K fd = obind (tx_deserialize_with_len C K fd) (\<lambda>((result, _), fd). Ok (result, fd))"

text \<open>The length and the identifier of a transaction; one that cannot be written is a panic.\<close>

definition tx_len :: "('p, 'a, 'v, 'q) tx_codec \<Rightarrow> ('k, 'p, 'a) tx_keys \<Rightarrow> ('a, 'v, 'q, 'p) StacksTransaction \<Rightarrow> u64 option" where
  "tx_len C K tx = map_option (\<lambda>tx_bytes. word_of_nat (length tx_bytes)) (serialize_to_vec (tx_serialize C K tx))"

definition txid :: "('p, 'a, 'v, 'q) tx_codec \<Rightarrow> ('k, 'p, 'a) tx_keys \<Rightarrow> ('a, 'v, 'q, 'p) StacksTransaction \<Rightarrow> Txid option" where
  "txid C K tx = map_option (from_stacks_tx K) (serialize_to_vec (tx_serialize C K tx))"

definition tx_new :: "TransactionVersion \<Rightarrow> 'p TransactionAuth \<Rightarrow> ('a, 'v, 'q) TransactionPayload \<Rightarrow> ('a, 'v, 'q, 'p) StacksTransaction" where
  "tx_new version auth payload =
     \<lparr>tx_version = version, tx_chain_id = 0, tx_auth = auth, tx_anchor_mode = AnyMode, tx_post_condition_mode = Deny,
      tx_post_conditions = [], tx_payload = payload\<rparr>"

definition tx_get_tx_fee :: "('a, 'v, 'q, 'p) StacksTransaction \<Rightarrow> u64" where
  "tx_get_tx_fee tx = auth_get_tx_fee (tx_auth tx)"

definition tx_set_tx_fee :: "('a, 'v, 'q, 'p) StacksTransaction \<Rightarrow> u64 \<Rightarrow> ('a, 'v, 'q, 'p) StacksTransaction" where
  "tx_set_tx_fee tx tx_fee = tx\<lparr>tx_auth := auth_set_tx_fee (tx_auth tx) tx_fee\<rparr>"

definition tx_get_origin_nonce :: "('a, 'v, 'q, 'p) StacksTransaction \<Rightarrow> u64" where
  "tx_get_origin_nonce tx = get_origin_nonce (tx_auth tx)"

definition tx_get_sponsor_nonce :: "('a, 'v, 'q, 'p) StacksTransaction \<Rightarrow> u64 option" where
  "tx_get_sponsor_nonce tx = get_sponsor_nonce (tx_auth tx)"

definition tx_set_origin_nonce :: "('a, 'v, 'q, 'p) StacksTransaction \<Rightarrow> u64 \<Rightarrow> ('a, 'v, 'q, 'p) StacksTransaction" where
  "tx_set_origin_nonce tx n = tx\<lparr>tx_auth := set_origin_nonce (tx_auth tx) n\<rparr>"

definition tx_set_sponsor_nonce :: "('a, 'v, 'q, 'p) StacksTransaction \<Rightarrow> u64 \<Rightarrow> (TxError, ('a, 'v, 'q, 'p) StacksTransaction) outcome" where
  "tx_set_sponsor_nonce tx n = obind (set_sponsor_nonce (tx_auth tx) n) (\<lambda>auth. Ok (tx\<lparr>tx_auth := auth\<rparr>))"

definition set_anchor_mode :: "('a, 'v, 'q, 'p) StacksTransaction \<Rightarrow> TransactionAnchorMode \<Rightarrow> ('a, 'v, 'q, 'p) StacksTransaction" where
  "set_anchor_mode tx anchor_mode = tx\<lparr>tx_anchor_mode := anchor_mode\<rparr>"

definition set_post_condition_mode :: "('a, 'v, 'q, 'p) StacksTransaction \<Rightarrow> TransactionPostConditionMode \<Rightarrow> ('a, 'v, 'q, 'p) StacksTransaction" where
  "set_post_condition_mode tx postcond_mode = tx\<lparr>tx_post_condition_mode := postcond_mode\<rparr>"

definition add_post_condition :: "('a, 'v, 'q, 'p) StacksTransaction \<Rightarrow> ('a, 'v) TransactionPostCondition \<Rightarrow> ('a, 'v, 'q, 'p) StacksTransaction" where
  "add_post_condition tx post_condition = tx\<lparr>tx_post_conditions := tx_post_conditions tx @ [post_condition]\<rparr>"

text \<open>The first hash to sign, and to verify: of the transaction with its authorization cleared.\<close>

definition sign_begin :: "('p, 'a, 'v, 'q) tx_codec \<Rightarrow> ('k, 'p, 'a) tx_keys \<Rightarrow> ('a, 'v, 'q, 'p) StacksTransaction \<Rightarrow> Txid option" where
  "sign_begin C K tx = txid C K (tx\<lparr>tx_auth := into_initial_sighash_auth (tx_auth tx)\<rparr>)"

definition verify_begin :: "('p, 'a, 'v, 'q) tx_codec \<Rightarrow> ('k, 'p, 'a) tx_keys \<Rightarrow> ('a, 'v, 'q, 'p) StacksTransaction \<Rightarrow> Txid option" where
  "verify_begin C K tx = txid C K (tx\<lparr>tx_auth := into_initial_sighash_auth (tx_auth tx)\<rparr>)"

definition sign_and_append ::
  "('k, 'p, 'a) tx_keys \<Rightarrow> 'p TransactionSpendingCondition \<Rightarrow> Txid \<Rightarrow> TransactionAuthFlags \<Rightarrow> 'k \<Rightarrow>
     (TxError, 'p TransactionSpendingCondition \<times> Txid) outcome" where
  "sign_and_append K condition cur_sighash auth_flag privk =
     obind (next_signature K cur_sighash auth_flag (cond_tx_fee condition) (cond_nonce condition) privk) (\<lambda>(next_sig, next_sighash).
     case condition of
       Singlesig cond \<Rightarrow> Ok (Singlesig (set_signature cond next_sig), next_sighash)
     | Multisig cond \<Rightarrow>
         Ok (Multisig (push_signature cond (if tk_compress_public K privk then Compressed else Uncompressed) next_sig), next_sighash)
     | OrderIndependentMultisig cond \<Rightarrow>
         Ok (OrderIndependentMultisig (push_signature cond (if tk_compress_public K privk then Compressed else Uncompressed) next_sig),
             cur_sighash))"

fun pop_auth_field :: "'p TransactionSpendingCondition \<Rightarrow> 'p TransactionSpendingCondition \<times> 'p TransactionAuthField option" where
  "pop_auth_field (Multisig cond) = (case pop_multisig_field cond of (cond, f) \<Rightarrow> (Multisig cond, f))"
| "pop_auth_field (OrderIndependentMultisig cond) = (case pop_multisig_field cond of (cond, f) \<Rightarrow> (OrderIndependentMultisig cond, f))"
| "pop_auth_field (Singlesig cond) = (case pop_signature cond of (cond, f) \<Rightarrow> (Singlesig cond, f))"

fun append_pubkey :: "'p TransactionSpendingCondition \<Rightarrow> 'p \<Rightarrow> (TxError, 'p TransactionSpendingCondition) outcome" where
  "append_pubkey (Multisig cond) pubkey = Ok (Multisig (push_public_key cond pubkey))"
| "append_pubkey (OrderIndependentMultisig cond) pubkey = Ok (OrderIndependentMultisig (push_public_key cond pubkey))"
| "append_pubkey (Singlesig _) pubkey = Err (TxSigningError ''Not a multisig condition'')"

text \<open>Replacing the condition of the origin or of the sponsor.\<close>

fun with_origin :: "'p TransactionAuth \<Rightarrow> 'p TransactionSpendingCondition \<Rightarrow> 'p TransactionAuth" where
  "with_origin (Standard _) c = Standard c"
| "with_origin (Sponsored _ s) c = Sponsored c s"

definition sign_next_origin ::
  "('k, 'p, 'a) tx_keys \<Rightarrow> ('a, 'v, 'q, 'p) StacksTransaction \<Rightarrow> Txid \<Rightarrow> 'k \<Rightarrow>
     (TxError, ('a, 'v, 'q, 'p) StacksTransaction \<times> Txid) outcome" where
  "sign_next_origin K tx cur_sighash privk =
     obind (sign_and_append K (auth_origin (tx_auth tx)) cur_sighash AuthStandard privk) (\<lambda>(c, next_sighash).
     Ok (tx\<lparr>tx_auth := with_origin (tx_auth tx) c\<rparr>, next_sighash))"

definition append_next_origin ::
  "('a, 'v, 'q, 'p) StacksTransaction \<Rightarrow> 'p \<Rightarrow> (TxError, ('a, 'v, 'q, 'p) StacksTransaction) outcome" where
  "append_next_origin tx pubk =
     obind (append_pubkey (auth_origin (tx_auth tx)) pubk) (\<lambda>c. Ok (tx\<lparr>tx_auth := with_origin (tx_auth tx) c\<rparr>))"

definition sign_next_sponsor ::
  "('k, 'p, 'a) tx_keys \<Rightarrow> ('a, 'v, 'q, 'p) StacksTransaction \<Rightarrow> Txid \<Rightarrow> 'k \<Rightarrow>
     (TxError, ('a, 'v, 'q, 'p) StacksTransaction \<times> Txid) outcome" where
  "sign_next_sponsor K tx cur_sighash privk =
     (case tx_auth tx of
        Standard _ \<Rightarrow> Err (TxSigningError ''Cannot sign standard authorization with a sponsoring private key'')
      | Sponsored origin sponsor_condition \<Rightarrow>
          obind (sign_and_append K sponsor_condition cur_sighash AuthSponsored privk) (\<lambda>(c, next_sighash).
          Ok (tx\<lparr>tx_auth := Sponsored origin c\<rparr>, next_sighash)))"

definition append_next_sponsor ::
  "('a, 'v, 'q, 'p) StacksTransaction \<Rightarrow> 'p \<Rightarrow> (TxError, ('a, 'v, 'q, 'p) StacksTransaction) outcome" where
  "append_next_sponsor tx pubk =
     (case tx_auth tx of
        Standard _ \<Rightarrow> Err (TxSigningError ''Cannot appned a public key to the sponsor of a standard auth condition'')
      | Sponsored origin sponsor_condition \<Rightarrow>
          obind (append_pubkey sponsor_condition pubk) (\<lambda>c. Ok (tx\<lparr>tx_auth := Sponsored origin c\<rparr>)))"

definition tx_verify ::
  "('p, 'a, 'v, 'q) tx_codec \<Rightarrow> ('k, 'p, 'a) tx_keys \<Rightarrow> ('a, 'v, 'q, 'p) StacksTransaction \<Rightarrow> (TxError, unit) outcome" where
  "tx_verify C K tx = obind (from_opt (verify_begin C K tx)) (\<lambda>initial_sighash. auth_verify K (tx_auth tx) initial_sighash)"

definition tx_verify_origin ::
  "('p, 'a, 'v, 'q) tx_codec \<Rightarrow> ('k, 'p, 'a) tx_keys \<Rightarrow> ('a, 'v, 'q, 'p) StacksTransaction \<Rightarrow> (TxError, Txid) outcome" where
  "tx_verify_origin C K tx = obind (from_opt (verify_begin C K tx)) (\<lambda>initial_sighash. auth_verify_origin K (tx_auth tx) initial_sighash)"

definition origin_address :: "('k, 'p, 'a) tx_keys \<Rightarrow> ('a, 'v, 'q, 'p) StacksTransaction \<Rightarrow> 'a option" where
  "origin_address K tx =
     (case (tx_version tx, tx_auth tx) of
        (Mainnet, Standard origin_condition) \<Rightarrow> address_mainnet K origin_condition
      | (Testnet, Standard origin_condition) \<Rightarrow> address_testnet K origin_condition
      | (Mainnet, Sponsored origin_condition _) \<Rightarrow> address_mainnet K origin_condition
      | (Testnet, Sponsored origin_condition _) \<Rightarrow> address_testnet K origin_condition)"

text \<open>No sponsor is \<open>Some None\<close>; an address that cannot be made is a panic.\<close>

definition sponsor_address :: "('k, 'p, 'a) tx_keys \<Rightarrow> ('a, 'v, 'q, 'p) StacksTransaction \<Rightarrow> 'a option option" where
  "sponsor_address K tx =
     (case (tx_version tx, tx_auth tx) of
        (_, Standard _) \<Rightarrow> Some None
      | (Mainnet, Sponsored _ sponsor_condition) \<Rightarrow> map_option Some (address_mainnet K sponsor_condition)
      | (Testnet, Sponsored _ sponsor_condition) \<Rightarrow> map_option Some (address_testnet K sponsor_condition))"

definition get_origin :: "('a, 'v, 'q, 'p) StacksTransaction \<Rightarrow> 'p TransactionSpendingCondition" where
  "get_origin tx = auth_origin (tx_auth tx)"

definition get_payer :: "('a, 'v, 'q, 'p) StacksTransaction \<Rightarrow> 'p TransactionSpendingCondition" where
  "get_payer tx = (case auth_sponsor (tx_auth tx) of Some tsc \<Rightarrow> tsc | None \<Rightarrow> auth_origin (tx_auth tx))"

definition is_mainnet :: "('a, 'v, 'q, 'p) StacksTransaction \<Rightarrow> bool" where
  "is_mainnet tx = (case tx_version tx of Mainnet \<Rightarrow> True | _ \<Rightarrow> False)"

section \<open>The signer\<close>

text \<open>On an error the signer is unchanged: nothing is assigned before the last call that can fail.\<close>

definition signer_new ::
  "('p, 'a, 'v, 'q) tx_codec \<Rightarrow> ('k, 'p, 'a) tx_keys \<Rightarrow> ('a, 'v, 'q, 'p) StacksTransaction \<Rightarrow>
     (TxError, ('a, 'v, 'q, 'p) StacksTransactionSigner) outcome" where
  "signer_new C K tx =
     obind (from_opt (sign_begin C K tx)) (\<lambda>sighash.
     Ok \<lparr>ts_tx = tx, ts_sighash = sighash, ts_origin_done = False, ts_check_oversign = True, ts_check_overlap = True\<rparr>)"

definition signer_new_sponsor ::
  "('p, 'a, 'v, 'q) tx_codec \<Rightarrow> ('k, 'p, 'a) tx_keys \<Rightarrow> ('a, 'v, 'q, 'p) StacksTransaction \<Rightarrow> 'p TransactionSpendingCondition \<Rightarrow>
     (TxError, ('a, 'v, 'q, 'p) StacksTransactionSigner) outcome" where
  "signer_new_sponsor C K tx spending_condition =
     (if \<not> is_sponsored (tx_auth tx) then Err TxIncompatibleSpendingConditionError
      else
        obind (set_sponsor (tx_auth tx) spending_condition) (\<lambda>auth.
        let new_tx = tx\<lparr>tx_auth := auth\<rparr> in
        obind (tx_verify_origin C K new_tx) (\<lambda>origin_sighash.
        Ok \<lparr>ts_tx = new_tx, ts_sighash = origin_sighash, ts_origin_done = True, ts_check_oversign = True, ts_check_overlap = True\<rparr>)))"

definition signer_resume ::
  "('a, 'v, 'q, 'p) StacksTransactionSigner \<Rightarrow> ('a, 'v, 'q, 'p) StacksTransaction \<Rightarrow> ('a, 'v, 'q, 'p) StacksTransactionSigner" where
  "signer_resume s tx = s\<lparr>ts_tx := tx\<rparr>"

definition disable_checks :: "('a, 'v, 'q, 'p) StacksTransactionSigner \<Rightarrow> ('a, 'v, 'q, 'p) StacksTransactionSigner" where
  "disable_checks s = s\<lparr>ts_check_oversign := False, ts_check_overlap := False\<rparr>"

definition fully_signed :: "'p TransactionSpendingCondition \<Rightarrow> bool option" where
  "fully_signed c = map_option (\<lambda>n. n \<ge> signatures_required c) (num_signatures c)"

definition sign_origin ::
  "('k, 'p, 'a) tx_keys \<Rightarrow> ('a, 'v, 'q, 'p) StacksTransactionSigner \<Rightarrow> 'k \<Rightarrow> (TxError, ('a, 'v, 'q, 'p) StacksTransactionSigner) outcome" where
  "sign_origin K s privk =
     (if ts_check_overlap s \<and> ts_origin_done s then Err (TxSigningError ''Cannot sign origin after sponsor key'')
      else
        obind (if ts_check_oversign s then from_opt (fully_signed (auth_origin (tx_auth (ts_tx s)))) else Ok False) (\<lambda>too_many.
        if too_many then Err (TxSigningError ''Origin would have too many signatures'')
        else
          obind (sign_next_origin K (ts_tx s) (ts_sighash s) privk) (\<lambda>(tx, next_sighash).
          Ok (s\<lparr>ts_tx := tx, ts_sighash := next_sighash\<rparr>))))"

definition append_origin ::
  "('a, 'v, 'q, 'p) StacksTransactionSigner \<Rightarrow> 'p \<Rightarrow> (TxError, ('a, 'v, 'q, 'p) StacksTransactionSigner) outcome" where
  "append_origin s pubk =
     (if ts_check_overlap s \<and> ts_origin_done s then Err (TxSigningError ''Cannot append public key to origin after sponsor key'')
      else obind (append_next_origin (ts_tx s) pubk) (\<lambda>tx. Ok (s\<lparr>ts_tx := tx\<rparr>)))"

definition sign_sponsor ::
  "('k, 'p, 'a) tx_keys \<Rightarrow> ('a, 'v, 'q, 'p) StacksTransactionSigner \<Rightarrow> 'k \<Rightarrow> (TxError, ('a, 'v, 'q, 'p) StacksTransactionSigner) outcome" where
  "sign_sponsor K s privk =
     obind (case tx_auth (ts_tx s) of
         Sponsored _ sponsor_condition \<Rightarrow> if ts_check_oversign s then from_opt (fully_signed sponsor_condition) else Ok False
       | _ \<Rightarrow> Ok False) (\<lambda>too_many.
     if too_many then Err (TxSigningError ''Sponsor would have too many signatures'')
     else
       obind (sign_next_sponsor K (ts_tx s) (ts_sighash s) privk) (\<lambda>(tx, next_sighash).
       Ok (s\<lparr>ts_tx := tx, ts_sighash := next_sighash, ts_origin_done := True\<rparr>)))"

definition append_sponsor ::
  "('a, 'v, 'q, 'p) StacksTransactionSigner \<Rightarrow> 'p \<Rightarrow> (TxError, ('a, 'v, 'q, 'p) StacksTransactionSigner) outcome" where
  "append_sponsor s pubk = obind (append_next_sponsor (ts_tx s) pubk) (\<lambda>tx. Ok (s\<lparr>ts_tx := tx\<rparr>))"

definition pop_origin_auth_field ::
  "('a, 'v, 'q, 'p) StacksTransactionSigner \<Rightarrow> ('a, 'v, 'q, 'p) StacksTransactionSigner \<times> 'p TransactionAuthField option" where
  "pop_origin_auth_field s =
     (case pop_auth_field (auth_origin (tx_auth (ts_tx s))) of
        (c, f) \<Rightarrow> (s\<lparr>ts_tx := (ts_tx s)\<lparr>tx_auth := with_origin (tx_auth (ts_tx s)) c\<rparr>\<rparr>, f))"

definition pop_sponsor_auth_field ::
  "('a, 'v, 'q, 'p) StacksTransactionSigner \<Rightarrow> ('a, 'v, 'q, 'p) StacksTransactionSigner \<times> 'p TransactionAuthField option" where
  "pop_sponsor_auth_field s =
     (case tx_auth (ts_tx s) of
        Sponsored origin sponsor_condition \<Rightarrow>
          (case pop_auth_field sponsor_condition of (c, f) \<Rightarrow> (s\<lparr>ts_tx := (ts_tx s)\<lparr>tx_auth := Sponsored origin c\<rparr>\<rparr>, f))
      | Standard _ \<Rightarrow> (s, None))"

definition signer_complete :: "('a, 'v, 'q, 'p) StacksTransactionSigner \<Rightarrow> bool option" where
  "signer_complete s =
     (case tx_auth (ts_tx s) of
        Standard origin_condition \<Rightarrow> fully_signed origin_condition
      | Sponsored origin_condition sponsored_condition \<Rightarrow>
         (case fully_signed origin_condition of
            None \<Rightarrow> None
          | Some False \<Rightarrow> Some False
          | Some True \<Rightarrow> map_option (\<lambda>done. done \<and> (ts_origin_done s \<or> \<not> ts_check_overlap s)) (fully_signed sponsored_condition)))"

definition get_tx_incomplete :: "('a, 'v, 'q, 'p) StacksTransactionSigner \<Rightarrow> ('a, 'v, 'q, 'p) StacksTransaction" where
  "get_tx_incomplete s = ts_tx s"

definition get_tx :: "('a, 'v, 'q, 'p) StacksTransactionSigner \<Rightarrow> ('a, 'v, 'q, 'p) StacksTransaction option option" where
  "get_tx s = map_option (\<lambda>complete. if complete then Some (ts_tx s) else None) (signer_complete s)"

section \<open>Signed transactions\<close>

definition p2pkh_condition :: "('k, 'p, 'a) tx_keys \<Rightarrow> 'k \<Rightarrow> u64 \<Rightarrow> (TxError, 'p TransactionSpendingCondition) outcome" where
  "p2pkh_condition K key nonce =
     obind (from_opt (new_singlesig_p2pkh K (tk_public K key))) (\<lambda>c. Ok (cond_set_nonce c nonce))"

definition serialize_sign_tx ::
  "('p, 'a, 'v, 'q) tx_codec \<Rightarrow> ('k, 'p, 'a) tx_keys \<Rightarrow> TransactionVersion \<Rightarrow> ('a, 'v, 'q) TransactionPayload \<Rightarrow> 'k \<Rightarrow> 'k option \<Rightarrow>
     u64 \<Rightarrow> u64 option \<Rightarrow> u64 \<Rightarrow> TransactionPostConditionMode \<Rightarrow> ('a, 'v) TransactionPostCondition list \<Rightarrow>
     (TxError, ('a, 'v, 'q, 'p) StacksTransaction) outcome" where
  "serialize_sign_tx C K version payload sender payer sender_nonce payer_nonce tx_fee post_condition_mode post_conditions =
     (let chain_id = if version = Mainnet then CHAIN_ID_MAINNET C else CHAIN_ID_TESTNET C in
      obind (p2pkh_condition K sender sender_nonce) (\<lambda>sender_spending_condition.
      obind (case (payer, payer_nonce) of
          (Some payer, Some payer_nonce) \<Rightarrow>
            obind (p2pkh_condition K payer payer_nonce) (\<lambda>payer_spending_condition.
            Ok (Sponsored sender_spending_condition (cond_set_tx_fee payer_spending_condition tx_fee)))
        | _ \<Rightarrow> Ok (Standard (cond_set_tx_fee sender_spending_condition tx_fee))) (\<lambda>auth.
      let unsigned_tx = (tx_new version auth payload)\<lparr>tx_anchor_mode := AnyMode, tx_post_condition_mode := post_condition_mode,
            tx_post_conditions := post_conditions, tx_chain_id := chain_id\<rparr> in
      obind (signer_new C K unsigned_tx) (\<lambda>tx_signer.
      obind (sign_origin K tx_signer sender) (\<lambda>tx_signer.
      obind (case (payer, payer_nonce) of (Some payer, Some _) \<Rightarrow> sign_sponsor K tx_signer payer | _ \<Rightarrow> Ok tx_signer) (\<lambda>tx_signer.
      obind (from_opt (get_tx tx_signer)) (\<lambda>tx. ok_or tx TxIncomplete)))))))"

definition make_contract_call ::
  "('p, 'a, 'v, 'q) tx_codec \<Rightarrow> ('k, 'p, 'a) tx_keys \<Rightarrow> bool \<Rightarrow> 'k \<Rightarrow> u64 \<Rightarrow> u64 \<Rightarrow> 'a \<Rightarrow> bytes \<Rightarrow> bytes \<Rightarrow> 'v list \<Rightarrow>
     TransactionPostConditionMode \<Rightarrow> ('a, 'v) TransactionPostCondition list \<Rightarrow> (TxError, ('a, 'v, 'q, 'p) StacksTransaction) outcome" where
  "make_contract_call C K mainnet sender nonce tx_fee contract_addr contract_name function_name function_args
       post_condition_mode post_conditions =
     obind (from_opt (contract_name_try_from C contract_name)) (\<lambda>contract_name.
     obind (from_opt (clarity_name_try_from C function_name)) (\<lambda>function_name.
     serialize_sign_tx C K (if mainnet then Mainnet else Testnet)
       (ContractCall \<lparr>cc_address = contract_addr, cc_contract_name = contract_name, cc_function_name = function_name,
          cc_function_args = function_args\<rparr>)
       sender None nonce None tx_fee post_condition_mode post_conditions))"

definition make_contract_publish_versioned ::
  "('p, 'a, 'v, 'q) tx_codec \<Rightarrow> ('k, 'p, 'a) tx_keys \<Rightarrow> bool \<Rightarrow> 'k \<Rightarrow> u64 \<Rightarrow> u64 \<Rightarrow> bytes \<Rightarrow> bytes \<Rightarrow> ClarityVersion option \<Rightarrow>
     TransactionPostConditionMode \<Rightarrow> ('a, 'v) TransactionPostCondition list \<Rightarrow> (TxError, ('a, 'v, 'q, 'p) StacksTransaction) outcome" where
  "make_contract_publish_versioned C K mainnet sender nonce tx_fee contract_name contract_content version
       post_condition_mode post_conditions =
     obind (from_opt (contract_name_try_from C contract_name)) (\<lambda>name.
     obind (ok_or (stacks_string_from_str contract_content)
              (TxCodec (DeserializeError ''Failer to decode string to StackString''))) (\<lambda>code_body.
     serialize_sign_tx C K (if mainnet then Mainnet else Testnet)
       (SmartContract \<lparr>sc_name = name, sc_code_body = code_body\<rparr> version)
       sender None nonce None tx_fee post_condition_mode post_conditions))"

definition make_contract_publish ::
  "('p, 'a, 'v, 'q) tx_codec \<Rightarrow> ('k, 'p, 'a) tx_keys \<Rightarrow> bool \<Rightarrow> 'k \<Rightarrow> u64 \<Rightarrow> u64 \<Rightarrow> bytes \<Rightarrow> bytes \<Rightarrow>
     TransactionPostConditionMode \<Rightarrow> ('a, 'v) TransactionPostCondition list \<Rightarrow> (TxError, ('a, 'v, 'q, 'p) StacksTransaction) outcome" where
  "make_contract_publish C K mainnet sender nonce tx_fee contract_name contract_content post_condition_mode post_conditions =
     make_contract_publish_versioned C K mainnet sender nonce tx_fee contract_name contract_content None
       post_condition_mode post_conditions"

end
