(* ===== verification/Tx_Signing.thy ===== *)
theory Tx_Signing
  imports Tx_Transaction
begin

text \<open>
  What signing gives: a signer that runs through any operations keeps to the hash that a verifier
  will compute, so that a complete transaction verifies exactly when the keys are those of its
  accounts.
\<close>

section \<open>Laws of keys\<close>

text \<open>
  A key that is recovered from a signature is that of the signer, up to how it is compressed.
  Buffers keep public keys up to the same. An account of a compressed witness hash has only
  compressed keys, and every key has an account.
\<close>

definition tx_keys_ok :: "('k, 'p, 'a) tx_keys \<Rightarrow> bool" where
  "tx_keys_ok K \<longleftrightarrow>
     (\<forall>k msg sig. tk_sign K k msg = Ok sig \<longrightarrow> length sig = 65 \<and> sig \<noteq> SIG_EMPTY \<and>
        (\<exists>p. tk_recover K msg sig = Ok p \<and> (\<forall>b. tk_set_compressed K p b = tk_set_compressed K (tk_public K k) b))) \<and>
     (\<forall>k. tk_compressed K (tk_public K k) = tk_compress_public K k) \<and>
     (\<forall>p b. tk_compressed K (tk_set_compressed K p b) = b) \<and>
     (\<forall>p. tk_set_compressed K p (tk_compressed K p) = p) \<and>
     (\<forall>p. length (tk_to_buffer K p) = 33 \<and>
        (\<exists>p'. tk_from_buffer K (tk_to_buffer K p) = Ok p' \<and> (\<forall>b. tk_set_compressed K p' b = tk_set_compressed K p b))) \<and>
     (\<forall>a. length (tk_address_bytes K a) = 20) \<and>
     (\<forall>p. tk_from_public_keys K 0 SerializeP2PKH 1 [p] \<noteq> None) \<and>
     (\<forall>n ps. tk_from_public_keys K 0 SerializeP2WPKH n ps \<noteq> None \<longrightarrow> (\<forall>p \<in> set ps. tk_compressed K p))"

definition encoding_of :: "('k, 'p, 'a) tx_keys \<Rightarrow> 'k \<Rightarrow> TransactionPublicKeyEncoding" where
  "encoding_of K k = (if tk_compress_public K k then Compressed else Uncompressed)"

lemma signed_recovers:
  assumes "tx_keys_ok K" and "next_signature K cur flag fee nonce k = Ok (sig, nxt)"
  shows "next_verification K cur flag fee nonce (encoding_of K k) sig = Ok (tk_public K k, nxt)"
    and "length sig = 65" and "sig \<noteq> SIG_EMPTY"
proof -
  let ?m = "make_sighash_presign K cur flag fee nonce"
  have "tk_sign K k ?m = Ok sig \<and> nxt = make_sighash_postsign K ?m (tk_public K k) sig"
    using assms(2) unfolding next_signature_def Let_def
    by (cases "tk_sign K k ?m") (auto simp only: obind.simps map_err.simps outcome.inject outcome.distinct prod.inject)
  then have s: "tk_sign K k ?m = Ok sig" and n: "nxt = make_sighash_postsign K ?m (tk_public K k) sig" by blast+
  obtain p where p: "tk_recover K ?m sig = Ok p" "\<And>b. tk_set_compressed K p b = tk_set_compressed K (tk_public K k) b"
    and len: "length sig = 65" "sig \<noteq> SIG_EMPTY"
    using assms(1) s unfolding tx_keys_ok_def by blast
  have "tk_set_compressed K (tk_public K k) (tk_compressed K (tk_public K k)) = tk_public K k"
    and "tk_compressed K (tk_public K k) = tk_compress_public K k"
    using assms(1) unfolding tx_keys_ok_def by blast+
  then have "tk_set_compressed K p (tk_compress_public K k) = tk_public K k" using p(2) by simp
  then show "next_verification K cur flag fee nonce (encoding_of K k) sig = Ok (tk_public K k, nxt)"
    using p(1) n by (cases "tk_compress_public K k") (simp_all add: next_verification_def encoding_of_def Let_def)
  show "length sig = 65" "sig \<noteq> SIG_EMPTY" by (fact len)+
qed

section \<open>Replaying the fields\<close>

lemma obind_assoc: "obind (obind m f) g = obind m (\<lambda>x. obind (f x) g)"
  by (cases m) simp_all

lemma verify_fields_append:
  "verify_fields K rolling flag fee nonce (fs @ gs) cur n u ps =
     obind (verify_fields K rolling flag fee nonce fs cur n u ps) (\<lambda>(cur, n, u, ps).
       verify_fields K rolling flag fee nonce gs cur n u ps)"
proof (induction fs arbitrary: cur n u ps)
  case (Cons f fs)
  then show ?case by (cases f) (auto simp: obind_assoc ok_or_def split: prod.splits intro!: arg_cong2 [where f = obind])
qed simp

text \<open>What the loop gathers beside the hash: the number of signatures and the keys.\<close>

lemma verify_fields_gathers:
  assumes "tx_keys_ok K" and "verify_fields K rolling flag fee nonce fs cur n u ps = Ok (cur', n', u', ps')"
  shows "count_signatures n fs = Some n' \<and> (rolling \<or> cur' = cur) \<and>
     u' = (u \<or> (\<exists>f \<in> set fs. field_uncompressed K f)) \<and>
     (\<exists>new. ps' = ps @ new \<and> u' = (u \<or> (\<exists>p \<in> set new. \<not> tk_compressed K p)))"
  using assms(2)
proof (induction fs arbitrary: cur n u ps)
  case (Cons f fs)
  show ?case
  proof (cases f)
    case (PublicKey p)
    then show ?thesis using Cons.IH [of cur n "\<not> tk_compressed K p \<or> u" "ps @ [p]"] Cons.prems by (auto split: if_splits)
  next
    case (Signature e sig)
    obtain p nxt where p: "next_verification K cur flag fee nonce e sig = Ok (p, nxt)"
      using Cons.prems Signature by (cases "next_verification K cur flag fee nonce e sig") auto
    then have n: "n \<noteq> - 1"
      and rest: "verify_fields K rolling flag fee nonce fs (if rolling then nxt else cur) (n + 1) (if e = Uncompressed then True else u) (ps @ [p]) = Ok (cur', n', u', ps')"
      using Cons.prems Signature by (auto simp: obind_Ok_iff split: if_splits)
    have "tk_compressed K p = (e = Compressed)"
      using p assms(1) by (cases e) (auto simp: next_verification_def obind_Ok_iff Let_def tx_keys_ok_def)
    then show ?thesis using Cons.IH [OF rest] Signature n by (cases e; cases rolling) auto
  qed
qed simp

fun replays :: "('k, 'p, 'a) tx_keys \<Rightarrow> 'p TransactionSpendingCondition \<Rightarrow> TransactionAuthFlags \<Rightarrow> Txid \<Rightarrow> Txid \<Rightarrow> 'p list \<Rightarrow> bool" where
  "replays K (Singlesig s) flag initial cur ps =
     (if ss_signature s = SIG_EMPTY then cur = initial \<and> ps = []
      else \<exists>p. next_verification K initial flag (ss_tx_fee s) (ss_nonce s) (ss_key_encoding s) (ss_signature s) = Ok (p, cur) \<and> ps = [p])"
| "replays K (Multisig m) flag initial cur ps =
     (\<exists>n u. verify_fields K True flag (ms_tx_fee m) (ms_nonce m) (ms_fields m) initial 0 False [] = Ok (cur, n, u, ps))"
| "replays K (OrderIndependentMultisig m) flag initial cur ps =
     (cur = initial \<and> (\<exists>h n u. verify_fields K False flag (ms_tx_fee m) (ms_nonce m) (ms_fields m) initial 0 False [] = Ok (h, n, u, ps)))"

text \<open>The keys that an account is made of.\<close>

definition account_of :: "('k, 'p, 'a) tx_keys \<Rightarrow> AddressHashMode \<Rightarrow> nat \<Rightarrow> 'p list \<Rightarrow> Hash160 \<Rightarrow> bool" where
  "account_of K mode required ps signer \<longleftrightarrow>
     (case tk_from_public_keys K 0 mode required ps of None \<Rightarrow> False | Some addr \<Rightarrow> tk_address_bytes K addr = signer)"

fun keys_match :: "('k, 'p, 'a) tx_keys \<Rightarrow> 'p TransactionSpendingCondition \<Rightarrow> 'p list \<Rightarrow> bool" where
  "keys_match K (Singlesig s) ps = account_of K (singlesig_to_address_hash_mode (ss_hash_mode s)) 1 ps (ss_signer s)"
| "keys_match K (Multisig m) ps =
     ((ms_hash_mode m = P2WSH \<longrightarrow> (\<forall>p \<in> set ps. tk_compressed K p)) \<and>
      account_of K (multisig_to_address_hash_mode (ms_hash_mode m)) (unat (ms_signatures_required m)) ps (ms_signer m))"
| "keys_match K (OrderIndependentMultisig m) ps =
     ((ms_hash_mode m = OiP2WSH \<longrightarrow> (\<forall>p \<in> set ps. tk_compressed K p)) \<and>
      account_of K (oi_to_address_hash_mode (ms_hash_mode m)) (unat (ms_signatures_required m)) ps (ms_signer m))"

text \<open>A condition with as many signatures as it requires verifies exactly for the keys of its account.\<close>

lemma replayed_verifies:
  assumes K: "tx_keys_ok K" and r: "replays K c flag initial cur ps" and n: "num_signatures c = Some (signatures_required c)"
  shows "condition_verify K c initial flag = Ok x \<longleftrightarrow> x = cur \<and> keys_match K c ps"
proof (cases c)
  case (Singlesig s)
  then obtain p where "next_verification K initial flag (ss_tx_fee s) (ss_nonce s) (ss_key_encoding s) (ss_signature s) = Ok (p, cur)"
    and "ps = [p]" using r n by (auto split: if_splits)
  then show ?thesis using Singlesig
    by (cases "tk_from_public_keys K 0 (singlesig_to_address_hash_mode (ss_hash_mode s)) 1 [p]")
      (auto simp: singlesig_verify_def account_of_def)
next
  case (Multisig m)
  then obtain n' u where v: "verify_fields K True flag (ms_tx_fee m) (ms_nonce m) (ms_fields m) initial 0 False [] = Ok (cur, n', u, ps)"
    using r by auto
  from verify_fields_gathers [OF K this] have "n' = ms_signatures_required m" "u = (\<exists>p \<in> set ps. \<not> tk_compressed K p)"
    using n Multisig by auto
  then show ?thesis using v Multisig
    by (auto simp: multisig_verify_def account_of_def obind_Ok_iff ok_or_def split: option.splits if_splits)
next
  case (OrderIndependentMultisig m)
  then obtain h n' u where v: "verify_fields K False flag (ms_tx_fee m) (ms_nonce m) (ms_fields m) initial 0 False [] = Ok (h, n', u, ps)"
    and cur: "cur = initial" using r by auto
  from verify_fields_gathers [OF K v] have "n' = ms_signatures_required m" "u = (\<exists>p \<in> set ps. \<not> tk_compressed K p)"
    using n OrderIndependentMultisig by auto
  then show ?thesis using v cur OrderIndependentMultisig
    by (auto simp: oi_verify_def account_of_def obind_Ok_iff ok_or_def split: option.splits if_splits)
qed

section \<open>Steps of signing\<close>

text \<open>A condition on one key has to be signed with a key that is compressed as the condition says.\<close>

fun encoding_fits :: "('k, 'p, 'a) tx_keys \<Rightarrow> 'p TransactionSpendingCondition \<Rightarrow> 'k \<Rightarrow> bool" where
  "encoding_fits K (Singlesig s) k = (ss_key_encoding s = encoding_of K k)"
| "encoding_fits K _ k = True"

fun blank :: "'p TransactionSpendingCondition \<Rightarrow> bool" where
  "blank (Singlesig s) = (ss_signature s = SIG_EMPTY)"
| "blank (Multisig m) = (ms_fields m = [])"
| "blank (OrderIndependentMultisig m) = (ms_fields m = [])"

lemma blank_replays: "blank c \<Longrightarrow> replays K c flag initial initial [] \<and> num_signatures c = Some 0"
  by (cases c) auto

lemma count_append:
  "count_signatures n (fs @ [f]) =
     (case count_signatures n fs of None \<Rightarrow> None
      | Some m \<Rightarrow> if is_signature f then (if m = - 1 then None else Some (m + 1)) else Some m)"
  by (induction fs arbitrary: n) auto

lemma account_kept:
  assumes "cond_clear c' = cond_clear c"
  shows "keys_match K c' ps = keys_match K c ps" "signatures_required c' = signatures_required c"
    "encoding_fits K c' k = encoding_fits K c k"
proof -
  have "keys_match K c' ps = keys_match K c ps \<and> signatures_required c' = signatures_required c \<and>
      encoding_fits K c' k = encoding_fits K c k"
  proof (cases c)
    case (Singlesig s)
    then obtain s' where "c' = Singlesig s'" using assms by (cases c') auto
    then show ?thesis using assms Singlesig by (cases s; cases s') auto
  next
    case (Multisig s)
    then obtain s' where "c' = Multisig s'" using assms by (cases c') auto
    then show ?thesis using assms Multisig by (cases s; cases s') auto
  next
    case (OrderIndependentMultisig s)
    then obtain s' where "c' = OrderIndependentMultisig s'" using assms by (cases c') auto
    then show ?thesis using assms OrderIndependentMultisig by (cases s; cases s') auto
  qed
  then show "keys_match K c' ps = keys_match K c ps" "signatures_required c' = signatures_required c"
    "encoding_fits K c' k = encoding_fits K c k" by blast+
qed

lemma sign_step:
  assumes K: "tx_keys_ok K" and r: "replays K c flag initial cur ps"
    and n: "num_signatures c = Some n" "n < signatures_required c" and fits: "encoding_fits K c k"
    and s: "sign_and_append K c cur flag k = Ok (c', nxt)"
  shows "replays K c' flag initial nxt (ps @ [tk_public K k])" "num_signatures c' = Some (n + 1)" "cond_clear c' = cond_clear c"
proof -
  obtain sig nh where sig: "next_signature K cur flag (cond_tx_fee c) (cond_nonce c) k = Ok (sig, nh)"
    using s by (cases "next_signature K cur flag (cond_tx_fee c) (cond_nonce c) k") (auto simp: sign_and_append_def)
  note v = signed_recovers [OF K sig]
  have small: "n \<noteq> - 1" using n(2) by auto
  have "replays K c' flag initial nxt (ps @ [tk_public K k]) \<and> num_signatures c' = Some (n + 1) \<and> cond_clear c' = cond_clear c"
  proof (cases c)
    case (Singlesig d)
    then have "n = 0" using n by (auto split: if_splits)
    then show ?thesis using Singlesig r n s sig v fits
      by (auto simp: sign_and_append_def set_signature_def split: if_splits)
  next
    case (Multisig m)
    then obtain n' u where f: "verify_fields K True flag (ms_tx_fee m) (ms_nonce m) (ms_fields m) initial 0 False [] = Ok (cur, n', u, ps)"
      using r by auto
    then have "n' = n" using verify_fields_gathers [OF K f] n Multisig by auto
    then show ?thesis using Multisig f n s sig v small
      by (auto simp: sign_and_append_def push_signature_def verify_fields_append count_append encoding_of_def [symmetric] cond_clear.simps)
  next
    case (OrderIndependentMultisig m)
    then obtain h n' u where f: "verify_fields K False flag (ms_tx_fee m) (ms_nonce m) (ms_fields m) initial 0 False [] = Ok (h, n', u, ps)"
      and cur: "cur = initial" using r by auto
    then have "n' = n" "h = initial" using verify_fields_gathers [OF K f] n OrderIndependentMultisig by auto
    then show ?thesis using OrderIndependentMultisig f n s sig v small cur
      by (auto simp: sign_and_append_def push_signature_def verify_fields_append count_append encoding_of_def [symmetric])
  qed
  then show "replays K c' flag initial nxt (ps @ [tk_public K k])" "num_signatures c' = Some (n + 1)" "cond_clear c' = cond_clear c"
    by blast+
qed

lemma append_step:
  assumes r: "replays K c flag initial cur ps" and a: "append_pubkey c p = Ok c'"
  shows "replays K c' flag initial cur (ps @ [p])" "num_signatures c' = num_signatures c" "cond_clear c' = cond_clear c"
proof -
  have "replays K c' flag initial cur (ps @ [p]) \<and> num_signatures c' = num_signatures c \<and> cond_clear c' = cond_clear c"
  proof (cases c)
    case (Multisig m)
    then show ?thesis using r a by (auto simp: push_public_key_def verify_fields_append count_append split: option.splits)
  next
    case (OrderIndependentMultisig m)
    then show ?thesis using r a by (auto simp: push_public_key_def verify_fields_append count_append split: option.splits)
  qed (use a in auto)
  then show "replays K c' flag initial cur (ps @ [p])" "num_signatures c' = num_signatures c" "cond_clear c' = cond_clear c"
    by blast+
qed

text \<open>A condition with no signature does not move the hash.\<close>

lemma count_signatures_exact:
  "count_signatures n fs = Some m \<Longrightarrow> unat m = unat n + length (filter is_signature fs)"
proof (induction fs arbitrary: n)
  case (Cons f fs)
  have "n \<noteq> - 1 \<Longrightarrow> unat (n + 1) = unat n + 1" by (metis Suc_eq_plus1 eq_neg_iff_add_eq_0 add.commute unatSuc)
  then show ?case using Cons by (auto split: if_splits)
qed simp

lemma verify_public_keys:
  assumes "\<forall>f \<in> set fs. \<not> is_signature f"
  shows "verify_fields K rolling flag fee nonce fs cur n u ps =
    Ok (cur, n, u \<or> (\<exists>f \<in> set fs. field_uncompressed K f), ps @ List.map_filter as_public_key fs)"
  using assms
proof (induction fs arbitrary: u ps)
  case (Cons f fs)
  then show ?case by (cases f) (auto simp: List.map_filter_simps)
qed (simp add: List.map_filter_simps)

lemma unsigned_fields:
  assumes "count_signatures 0 fs = Some 0"
  shows "verify_fields K rolling flag fee nonce fs cur 0 False [] =
    Ok (cur, 0, \<exists>f \<in> set fs. field_uncompressed K f, List.map_filter as_public_key fs)"
proof -
  have "\<forall>f \<in> set fs. \<not> is_signature f" using count_signatures_exact [OF assms] by (simp add: filter_empty_conv)
  from verify_public_keys [OF this, of K rolling flag fee nonce cur 0 False "[]"] show ?thesis by simp
qed

lemma unsigned_replays:
  assumes "num_signatures c = Some 0" and "replays K c flag initial cur ps"
  shows "cur = initial" "replays K c flag' other other ps"
proof -
  have "cur = initial \<and> replays K c flag' other other ps"
    using assms by (cases c) (auto simp: unsigned_fields split: if_splits)
  then show "cur = initial" "replays K c flag' other other ps" by blast+
qed

section \<open>A signer at work\<close>

datatype ('k, 'p) signer_step = SignOrigin 'k | AppendOrigin 'p | SignSponsor 'k | AppendSponsor 'p

fun signer_do ::
  "('k, 'p, 'a) tx_keys \<Rightarrow> ('a, 'v, 'q, 'p) StacksTransactionSigner \<Rightarrow> ('k, 'p) signer_step \<Rightarrow>
     (TxError, ('a, 'v, 'q, 'p) StacksTransactionSigner) outcome" where
  "signer_do K s (SignOrigin k) = sign_origin K s k"
| "signer_do K s (AppendOrigin p) = append_origin s p"
| "signer_do K s (SignSponsor k) = sign_sponsor K s k"
| "signer_do K s (AppendSponsor p) = append_sponsor s p"

fun signer_run ::
  "('k, 'p, 'a) tx_keys \<Rightarrow> ('a, 'v, 'q, 'p) StacksTransactionSigner \<Rightarrow> ('k, 'p) signer_step list \<Rightarrow>
     (TxError, ('a, 'v, 'q, 'p) StacksTransactionSigner) outcome" where
  "signer_run K s [] = Ok s"
| "signer_run K s (op # ops) = obind (signer_do K s op) (\<lambda>s. signer_run K s ops)"

text \<open>The keys that operations give to the origin and to the sponsor, in order.\<close>

fun origin_keys :: "('k, 'p, 'a) tx_keys \<Rightarrow> ('k, 'p) signer_step list \<Rightarrow> 'p list" where
  "origin_keys K [] = []"
| "origin_keys K (SignOrigin k # ops) = tk_public K k # origin_keys K ops"
| "origin_keys K (AppendOrigin p # ops) = p # origin_keys K ops"
| "origin_keys K (_ # ops) = origin_keys K ops"

fun sponsor_keys :: "('k, 'p, 'a) tx_keys \<Rightarrow> ('k, 'p) signer_step list \<Rightarrow> 'p list" where
  "sponsor_keys K [] = []"
| "sponsor_keys K (SignSponsor k # ops) = tk_public K k # sponsor_keys K ops"
| "sponsor_keys K (AppendSponsor p # ops) = p # sponsor_keys K ops"
| "sponsor_keys K (_ # ops) = sponsor_keys K ops"

fun op_fits :: "('k, 'p, 'a) tx_keys \<Rightarrow> 'p TransactionAuth \<Rightarrow> ('k, 'p) signer_step \<Rightarrow> bool" where
  "op_fits K a (SignOrigin k) = encoding_fits K (auth_origin a) k"
| "op_fits K a (SignSponsor k) = (case auth_sponsor a of None \<Rightarrow> True | Some c \<Rightarrow> encoding_fits K c k)"
| "op_fits K a _ = True"

text \<open>A condition with no more signatures than it asks for, replayed.\<close>

definition signed_so_far ::
  "('k, 'p, 'a) tx_keys \<Rightarrow> 'p TransactionSpendingCondition \<Rightarrow> TransactionAuthFlags \<Rightarrow> Txid \<Rightarrow> Txid \<Rightarrow> 'p list \<Rightarrow> bool" where
  "signed_so_far K c flag initial cur ps \<longleftrightarrow>
     replays K c flag initial cur ps \<and> (\<exists>n. num_signatures c = Some n \<and> n \<le> signatures_required c)"

text \<open>
  The invariant: the transaction is the one that the signer began with, but for its conditions;
  the conditions are of the same accounts; and the hash to sign next is the one that replaying
  the origin, and then the sponsor, leads to.
\<close>

fun sponsor_inv ::
  "('k, 'p, 'a) tx_keys \<Rightarrow> ('a, 'v, 'q, 'p) StacksTransactionSigner \<Rightarrow> Txid \<Rightarrow> 'p TransactionSpendingCondition option \<Rightarrow> 'p list \<Rightarrow> bool" where
  "sponsor_inv K s h None qs = (ts_sighash s = h \<and> \<not> ts_origin_done s)"
| "sponsor_inv K s h (Some c) qs =
     (signed_so_far K c AuthSponsored h (ts_sighash s) qs \<and> (\<not> ts_origin_done s \<longrightarrow> num_signatures c = Some 0))"

definition signer_inv ::
  "('k, 'p, 'a) tx_keys \<Rightarrow> ('a, 'v, 'q, 'p) StacksTransaction \<Rightarrow> Txid \<Rightarrow> ('a, 'v, 'q, 'p) StacksTransactionSigner \<Rightarrow> 'p list \<Rightarrow> 'p list \<Rightarrow> bool" where
  "signer_inv K tx0 initial s ps qs \<longleftrightarrow>
     ts_check_oversign s \<and> ts_check_overlap s \<and>
     (\<exists>a. ts_tx s = tx0\<lparr>tx_auth := a\<rparr> \<and> cond_clear (auth_origin a) = cond_clear (auth_origin (tx_auth tx0)) \<and>
        map_option cond_clear (auth_sponsor a) = map_option cond_clear (auth_sponsor (tx_auth tx0)) \<and>
        (\<exists>h. signed_so_far K (auth_origin a) AuthStandard initial h ps \<and> sponsor_inv K s h (auth_sponsor a) qs))"

lemma with_origin_simps [simp]:
  "auth_origin (with_origin a c) = c" "auth_sponsor (with_origin a c) = auth_sponsor a"
  by (cases a; simp)+

lemma signed_so_far_sign:
  assumes "tx_keys_ok K" and "signed_so_far K c flag initial cur ps" and "fully_signed c = Some False"
    and "encoding_fits K c k" and "sign_and_append K c cur flag k = Ok (c', nxt)"
  shows "signed_so_far K c' flag initial nxt (ps @ [tk_public K k])" "cond_clear c' = cond_clear c"
proof -
  obtain n where n: "num_signatures c = Some n" "n < signatures_required c"
    using assms(3) by (auto simp: fully_signed_def)
  have r: "replays K c flag initial cur ps" using assms(2) by (simp add: signed_so_far_def)
  note step = sign_step [OF assms(1) r n assms(4,5)]
  have "n + 1 \<le> signatures_required c" using n(2) by (rule inc_le)
  then show "signed_so_far K c' flag initial nxt (ps @ [tk_public K k])"
    using step account_kept(2) [OF step(3)] by (simp add: signed_so_far_def)
  show "cond_clear c' = cond_clear c" by (fact step(3))
qed

lemma signed_so_far_append:
  assumes "signed_so_far K c flag initial cur ps" and "append_pubkey c p = Ok c'"
  shows "signed_so_far K c' flag initial cur (ps @ [p])" "cond_clear c' = cond_clear c" "num_signatures c' = num_signatures c"
  using assms append_step [of K c flag initial cur ps p c'] account_kept(2) [of c' c] by (auto simp: signed_so_far_def)

lemma unsigned_so_far:
  assumes "signed_so_far K c flag initial cur ps" and "num_signatures c = Some 0"
  shows "cur = initial" "signed_so_far K c flag other other ps"
  using assms unsigned_replays [of c K flag initial cur ps] by (auto simp: signed_so_far_def)

lemma sign_origin_keeps:
  assumes K: "tx_keys_ok K" and inv: "signer_inv K tx0 initial s ps qs" and fits: "encoding_fits K (auth_origin (tx_auth tx0)) k"
    and run: "sign_origin K s k = Ok s'"
  shows "signer_inv K tx0 initial s' (ps @ [tk_public K k]) qs"
proof -
  obtain a h where checks: "ts_check_oversign s" "ts_check_overlap s" and tx: "ts_tx s = tx0\<lparr>tx_auth := a\<rparr>"
    and clear: "cond_clear (auth_origin a) = cond_clear (auth_origin (tx_auth tx0))"
      "map_option cond_clear (auth_sponsor a) = map_option cond_clear (auth_sponsor (tx_auth tx0))"
    and o: "signed_so_far K (auth_origin a) AuthStandard initial h ps" and sp: "sponsor_inv K s h (auth_sponsor a) qs"
    using inv by (auto simp: signer_inv_def)
  have early: "\<not> ts_origin_done s" using run checks by (auto simp: sign_origin_def split: if_splits)
  then have hash: "ts_sighash s = h" using sp by (cases "auth_sponsor a") (auto intro: unsigned_so_far(1))
  obtain c' nxt where step: "sign_and_append K (auth_origin a) h AuthStandard k = Ok (c', nxt)"
    and more: "fully_signed (auth_origin a) = Some False" and s': "s' = s\<lparr>ts_tx := tx0\<lparr>tx_auth := with_origin a c'\<rparr>, ts_sighash := nxt\<rparr>"
    using run checks early tx hash by (auto simp: sign_origin_def sign_next_origin_def obind_Ok_iff split: if_splits)
  have "encoding_fits K (auth_origin a) k" using fits by (simp add: account_kept(3) [OF clear(1)])
  note signed = signed_so_far_sign [OF K o more this step]
  have "sponsor_inv K s' nxt (auth_sponsor a) qs"
  proof (cases "auth_sponsor a")
    case (Some c)
    then have "signed_so_far K c AuthSponsored h (ts_sighash s) qs" "num_signatures c = Some 0" using sp early by auto
    then have "signed_so_far K c AuthSponsored nxt nxt qs" by (rule unsigned_so_far(2))
    then show ?thesis using Some s' early \<open>num_signatures c = Some 0\<close> by simp
  qed (use s' early in simp)
  then show ?thesis using checks clear signed s' unfolding signer_inv_def
    by (intro conjI exI [where x = "with_origin a c'"] exI [where x = nxt]) simp_all
qed

lemma append_origin_keeps:
  assumes inv: "signer_inv K tx0 initial s ps qs" and run: "append_origin s p = Ok s'"
  shows "signer_inv K tx0 initial s' (ps @ [p]) qs"
proof -
  obtain a h where checks: "ts_check_oversign s" "ts_check_overlap s" and tx: "ts_tx s = tx0\<lparr>tx_auth := a\<rparr>"
    and clear: "cond_clear (auth_origin a) = cond_clear (auth_origin (tx_auth tx0))"
      "map_option cond_clear (auth_sponsor a) = map_option cond_clear (auth_sponsor (tx_auth tx0))"
    and o: "signed_so_far K (auth_origin a) AuthStandard initial h ps" and sp: "sponsor_inv K s h (auth_sponsor a) qs"
    using inv by (auto simp: signer_inv_def)
  obtain c' where step: "append_pubkey (auth_origin a) p = Ok c'" and s': "s' = s\<lparr>ts_tx := tx0\<lparr>tx_auth := with_origin a c'\<rparr>\<rparr>"
    using run tx by (auto simp: append_origin_def append_next_origin_def obind_Ok_iff split: if_splits)
  note appended = signed_so_far_append [OF o step]
  have "sponsor_inv K s' h (auth_sponsor a) qs" using sp s' by (cases "auth_sponsor a") auto
  then show ?thesis using checks clear appended s' unfolding signer_inv_def
    by (intro conjI exI [where x = "with_origin a c'"] exI [where x = h]) simp_all
qed

lemma sign_sponsor_keeps:
  assumes K: "tx_keys_ok K" and inv: "signer_inv K tx0 initial s ps qs"
    and fits: "op_fits K (tx_auth tx0) (SignSponsor k)" and run: "sign_sponsor K s k = Ok s'"
  shows "signer_inv K tx0 initial s' ps (qs @ [tk_public K k])"
proof -
  obtain a h where checks: "ts_check_oversign s" "ts_check_overlap s" and tx: "ts_tx s = tx0\<lparr>tx_auth := a\<rparr>"
    and clear: "cond_clear (auth_origin a) = cond_clear (auth_origin (tx_auth tx0))"
      "map_option cond_clear (auth_sponsor a) = map_option cond_clear (auth_sponsor (tx_auth tx0))"
    and o: "signed_so_far K (auth_origin a) AuthStandard initial h ps" and sp: "sponsor_inv K s h (auth_sponsor a) qs"
    using inv by (auto simp: signer_inv_def)
  obtain og c c' nxt where a: "a = Sponsored og c" and step: "sign_and_append K c (ts_sighash s) AuthSponsored k = Ok (c', nxt)"
    and more: "fully_signed c = Some False"
    and s': "s' = s\<lparr>ts_tx := tx0\<lparr>tx_auth := Sponsored og c'\<rparr>, ts_sighash := nxt, ts_origin_done := True\<rparr>"
    using run checks tx by (cases a) (auto simp: sign_sponsor_def sign_next_sponsor_def obind_Ok_iff split: if_splits)
  obtain c0 where c0: "auth_sponsor (tx_auth tx0) = Some c0" "cond_clear c = cond_clear c0"
    using clear(2) a by (cases "auth_sponsor (tx_auth tx0)") auto
  then have "encoding_fits K c k" using fits by (simp add: account_kept(3) [OF c0(2)])
  moreover have "signed_so_far K c AuthSponsored h (ts_sighash s) qs" using sp a by simp
  ultimately have signed: "signed_so_far K c' AuthSponsored h nxt (qs @ [tk_public K k])" "cond_clear c' = cond_clear c"
    using signed_so_far_sign [OF K _ more _ step] by blast+
  then show ?thesis using checks clear a o s' c0 unfolding signer_inv_def
    by (intro conjI exI [where x = "Sponsored og c'"] exI [where x = h]) simp_all
qed

lemma append_sponsor_keeps:
  assumes inv: "signer_inv K tx0 initial s ps qs" and run: "append_sponsor s p = Ok s'"
  shows "signer_inv K tx0 initial s' ps (qs @ [p])"
proof -
  obtain a h where checks: "ts_check_oversign s" "ts_check_overlap s" and tx: "ts_tx s = tx0\<lparr>tx_auth := a\<rparr>"
    and clear: "cond_clear (auth_origin a) = cond_clear (auth_origin (tx_auth tx0))"
      "map_option cond_clear (auth_sponsor a) = map_option cond_clear (auth_sponsor (tx_auth tx0))"
    and o: "signed_so_far K (auth_origin a) AuthStandard initial h ps" and sp: "sponsor_inv K s h (auth_sponsor a) qs"
    using inv by (auto simp: signer_inv_def)
  obtain og c c' where a: "a = Sponsored og c" and step: "append_pubkey c p = Ok c'"
    and s': "s' = s\<lparr>ts_tx := tx0\<lparr>tx_auth := Sponsored og c'\<rparr>\<rparr>"
    using run tx by (cases a) (auto simp: append_sponsor_def append_next_sponsor_def obind_Ok_iff)
  have so: "signed_so_far K c AuthSponsored h (ts_sighash s) qs" using sp a by simp
  note appended = signed_so_far_append [OF so step]
  then show ?thesis using checks clear a o s' sp unfolding signer_inv_def
    by (intro conjI exI [where x = "Sponsored og c'"] exI [where x = h]) simp_all
qed

lemmas signer_keeps = sign_origin_keeps append_origin_keeps sign_sponsor_keeps append_sponsor_keeps

lemma signer_run_inv:
  assumes "tx_keys_ok K" and "signer_inv K tx0 initial s ps qs" and "\<forall>op \<in> set ops. op_fits K (tx_auth tx0) op"
    and "signer_run K s ops = Ok s'"
  shows "signer_inv K tx0 initial s' (ps @ origin_keys K ops) (qs @ sponsor_keys K ops)"
  using assms(2-4)
proof (induction ops arbitrary: s ps qs)
  case (Cons op ops)
  obtain s1 where s1: "signer_do K s op = Ok s1" "signer_run K s1 ops = Ok s'" using Cons.prems(3) by (auto simp: obind_Ok_iff)
  have fits: "op_fits K (tx_auth tx0) op" "\<forall>op \<in> set ops. op_fits K (tx_auth tx0) op" using Cons.prems(2) by auto
  note IH = Cons.IH [OF _ fits(2) s1(2)]
  show ?case
  proof (cases op)
    case (SignOrigin k)
    then show ?thesis using IH [OF sign_origin_keeps [OF assms(1) Cons.prems(1)]] fits(1) s1(1) by simp
  next
    case (AppendOrigin p)
    then show ?thesis using IH [OF append_origin_keeps [OF Cons.prems(1)]] s1(1) by simp
  next
    case (SignSponsor k)
    then show ?thesis using IH [OF sign_sponsor_keeps [OF assms(1) Cons.prems(1)]] fits(1) s1(1) by simp
  next
    case (AppendSponsor p)
    then show ?thesis using IH [OF append_sponsor_keeps [OF Cons.prems(1)]] s1(1) by simp
  qed
qed simp

section \<open>Complete transactions\<close>

definition blank_auth :: "'p TransactionAuth \<Rightarrow> bool" where
  "blank_auth a \<longleftrightarrow> blank (auth_origin a) \<and> (case auth_sponsor a of None \<Rightarrow> True | Some c \<Rightarrow> blank c)"

lemma blank_unsigned: "blank c \<Longrightarrow> num_signatures c = Some 0"
  by (cases c) auto

lemma blank_so_far: "blank c \<Longrightarrow> signed_so_far K c flag initial initial []"
  using blank_replays [of c K flag initial] by (auto simp: signed_so_far_def)

lemma signer_new_inv:
  assumes "signer_new C K tx = Ok s" and "blank_auth (tx_auth tx)"
  shows "signer_inv K tx (ts_sighash s) s [] []" "sign_begin C K tx = Some (ts_sighash s)"
proof -
  have s: "s = \<lparr>ts_tx = tx, ts_sighash = ts_sighash s, ts_origin_done = False, ts_check_oversign = True, ts_check_overlap = True\<rparr>"
    "sign_begin C K tx = Some (ts_sighash s)"
    using assms(1) by (auto simp: signer_new_def obind_Ok_iff)
  then have flags: "ts_tx s = tx" "\<not> ts_origin_done s" "ts_check_oversign s" "ts_check_overlap s" by (metis StacksTransactionSigner.select_convs)+
  have "sponsor_inv K s (ts_sighash s) (auth_sponsor (tx_auth tx)) []"
    using assms(2) flags by (cases "auth_sponsor (tx_auth tx)") (auto simp: blank_auth_def blank_so_far blank_unsigned)
  then show "signer_inv K tx (ts_sighash s) s [] []" using flags assms(2) unfolding signer_inv_def
    by (intro conjI exI [where x = "tx_auth tx"] exI [where x = "ts_sighash s"]) (simp_all add: blank_auth_def blank_so_far)
  show "sign_begin C K tx = Some (ts_sighash s)" by (fact s(2))
qed

lemma initial_auth_kept:
  assumes "cond_clear (auth_origin a) = cond_clear (auth_origin b)" and "map_option cond_clear (auth_sponsor a) = map_option cond_clear (auth_sponsor b)"
  shows "into_initial_sighash_auth a = into_initial_sighash_auth b"
  using assms by (cases a; cases b) auto

lemma fully_signed_so_far:
  assumes "signed_so_far K c flag initial cur ps" and "fully_signed c = Some True"
  shows "replays K c flag initial cur ps" "num_signatures c = Some (signatures_required c)"
  using assms by (auto simp: signed_so_far_def fully_signed_def)

lemma complete_verifies:
  assumes K: "tx_keys_ok K" and inv: "signer_inv K tx0 initial s ps qs" and start: "sign_begin C K tx0 = Some initial"
    and get: "get_tx s = Some (Some tx)"
  shows "tx_verify C K tx = Ok () \<longleftrightarrow>
    keys_match K (auth_origin (tx_auth tx0)) ps \<and> (\<forall>c. auth_sponsor (tx_auth tx0) = Some c \<longrightarrow> keys_match K c qs)"
proof -
  obtain a h where tx: "ts_tx s = tx0\<lparr>tx_auth := a\<rparr>"
    and clear: "cond_clear (auth_origin a) = cond_clear (auth_origin (tx_auth tx0))"
      "map_option cond_clear (auth_sponsor a) = map_option cond_clear (auth_sponsor (tx_auth tx0))"
    and o: "signed_so_far K (auth_origin a) AuthStandard initial h ps" and sp: "sponsor_inv K s h (auth_sponsor a) qs"
    using inv by (auto simp: signer_inv_def)
  have fin: "tx = tx0\<lparr>tx_auth := a\<rparr>" "signer_complete s = Some True" using get tx by (auto simp: get_tx_def split: if_splits)
  have full: "fully_signed (auth_origin a) = Some True"
    using fin(2) tx by (cases a) (auto simp: signer_complete_def split: option.splits bool.splits)
  have vb: "verify_begin C K tx = Some initial"
    using start fin(1) initial_auth_kept [OF clear] by (simp add: verify_begin_def sign_begin_def)
  note ov = replayed_verifies [OF K fully_signed_so_far [OF o full]]
  show ?thesis
  proof (cases a)
    case (Standard c)
    then have none: "auth_sponsor (tx_auth tx0) = None" using clear(2) by simp
    have "keys_match K c ps = keys_match K (auth_origin (tx_auth tx0)) ps" using account_kept(1) [OF clear(1)] Standard by simp
    then show ?thesis using vb fin(1) Standard ov none by (auto simp: tx_verify_def auth_verify_def obind_Ok_iff)
  next
    case (Sponsored c d)
    obtain d0 where d0: "auth_sponsor (tx_auth tx0) = Some d0" "cond_clear d = cond_clear d0"
      using clear(2) Sponsored by (cases "auth_sponsor (tx_auth tx0)") auto
    have dfull: "fully_signed d = Some True"
      using fin(2) tx Sponsored by (auto simp: signer_complete_def split: option.splits bool.splits)
    have "signed_so_far K d AuthSponsored h (ts_sighash s) qs" using sp Sponsored by simp
    note dv = replayed_verifies [OF K fully_signed_so_far [OF this dfull]]
    have "keys_match K c ps = keys_match K (auth_origin (tx_auth tx0)) ps" "keys_match K d qs = keys_match K d0 qs"
      using Sponsored account_kept(1) [OF clear(1), of K] account_kept(1) [OF d0(2), of K] by simp_all
    then show ?thesis using vb fin(1) Sponsored ov dv d0 by (auto simp: tx_verify_def auth_verify_def obind_Ok_iff)
  qed
qed

end
