(* ===== verification/Tx_Wire.thy ===== *)
theory Tx_Wire
  imports Tx_Signing
begin

text \<open>
  Transactions on the wire: what of a transaction is read back as it was written. Up to the length
  that the readers allow, everything is, if the conditions have the signatures that they ask for;
  and every transaction that verifies is of this kind.
\<close>

section \<open>Laws of the codec\<close>

definition readable_upto :: "nat \<Rightarrow> 'a writer \<Rightarrow> 'a reader \<Rightarrow> 'a \<Rightarrow> bool" where
  "readable_upto N w r x \<longleftrightarrow> (\<exists>b. w x = Ok b \<and> (length b \<le> N \<longrightarrow> (\<forall>rest. r (b @ rest) = Ok (x, rest))))"

definition readable_if :: "bool \<Rightarrow> nat \<Rightarrow> 'a writer \<Rightarrow> 'a reader \<Rightarrow> 'a \<Rightarrow> bool" where
  "readable_if ok N w r x \<longleftrightarrow> (\<exists>b. w x = Ok b \<and> (length b \<le> N \<longrightarrow>
     (if ok then \<forall>rest. r (b @ rest) = Ok (x, rest) else \<exists>e. \<forall>rest. r (b @ rest) = Err (DeserializeError e))))"

text \<open>
  A byte is written as itself. Vectors of readable elements can be read by a reader that is bound
  to no less than their length, and a bound on a whole transaction does not change what a reader
  does that stays within it.
\<close>

definition tx_codec_ok :: "('p, 'a, 'v, 'q) tx_codec \<Rightarrow> nat \<Rightarrow> bool" where
  "tx_codec_ok C limit \<longleftrightarrow> net_ok C limit \<and>
     (\<forall>x. wr_u8 C x = Ok [x]) \<and>
     (\<forall>n s. length s \<le> limit \<longrightarrow> readable_upto n (wr_bytes C) (rd_bytes_within C n) s) \<and>
     (\<forall>n w r xs. length xs \<le> limit \<and> (\<forall>x \<in> set xs. readable w r x) \<longrightarrow> readable_upto n (wr_fields C w) (rd_fields_within C n r) xs) \<and>
     (\<forall>w r xs. length xs \<le> limit \<and> (\<forall>x \<in> set xs. readable w r x) \<longrightarrow> readable (wr_post_conditions C w) (rd_post_conditions C r) xs) \<and>
     (\<forall>n r b x. length b \<le> n \<and> (\<forall>rest. r (b @ rest) = Ok (x, rest)) \<longrightarrow> (\<forall>rest. rd_tx_within C n r (b @ rest) = Ok (x, rest))) \<and>
     (\<forall>n r b e. length b \<le> n \<and> (\<forall>rest. r (b @ rest) = Err e) \<longrightarrow> (\<forall>rest. rd_tx_within C n r (b @ rest) = Err e)) \<and>
     MAX_TRANSACTION_LEN \<le> MAX_MESSAGE_LEN C"

lemma tx_codec_net: "tx_codec_ok C limit \<Longrightarrow> net_ok C limit"
  by (simp add: tx_codec_ok_def)

lemma tx_codec_laws:
  assumes "tx_codec_ok C limit"
  shows "length s \<le> limit \<Longrightarrow> readable_upto n (wr_bytes C) (rd_bytes_within C n) s"
    "length fs \<le> limit \<Longrightarrow> \<forall>x \<in> set fs. readable wd rd x \<Longrightarrow> readable_upto n (wr_fields C wd) (rd_fields_within C n rd) fs"
    "length ps \<le> limit \<Longrightarrow> \<forall>x \<in> set ps. readable wq rq x \<Longrightarrow> readable (wr_post_conditions C wq) (rd_post_conditions C rq) ps"
    "length b \<le> n \<Longrightarrow> (\<And>rest. r (b @ rest) = Ok (x, rest)) \<Longrightarrow> rd_tx_within C n r (b @ rest) = Ok (x, rest)"
    "length b \<le> n \<Longrightarrow> (\<And>rest. r (b @ rest) = Err e) \<Longrightarrow> rd_tx_within C n r (b @ rest) = Err e"
    "MAX_TRANSACTION_LEN \<le> MAX_MESSAGE_LEN C"
  using assms by (simp_all add: tx_codec_ok_def)

lemma upto_written:
  assumes "readable_upto N w r x"
  shows "w x = Ok (written w x)" "length (written w x) \<le> N \<Longrightarrow> r (written w x @ rest) = Ok (x, rest)"
  using assms by (auto simp: readable_upto_def written_def)

lemma if_written:
  assumes "readable_if ok N w r x"
  shows "w x = Ok (written w x)" "ok \<Longrightarrow> length (written w x) \<le> N \<Longrightarrow> r (written w x @ rest) = Ok (x, rest)"
    "\<not> ok \<Longrightarrow> length (written w x) \<le> N \<Longrightarrow> \<exists>e. \<forall>rest. r (written w x @ rest) = Err (DeserializeError e)"
  using assms by (auto simp: readable_if_def written_def)

lemma readable_uptoI: "readable w r x \<Longrightarrow> readable_upto N w r x"
  by (auto simp: readable_upto_def readable_def reads_back_def)

lemma byte_simps:
  assumes "tx_codec_ok C limit"
  shows "wr_u8 C x = Ok [x]" "rd_u8 C (x # rest) = Ok (x, rest)"
proof -
  have "reads_back (wr_u8 C) (rd_u8 C) x 1" using net_back(1) tx_codec_net [OF assms] by blast
  then show "rd_u8 C (x # rest) = Ok (x, rest)" "wr_u8 C x = Ok [x]"
    using assms by (force simp: reads_back_def tx_codec_ok_def)+
qed

lemmas tx_simps = net_simps(4-) [OF tx_codec_net] byte_simps

section \<open>Conditions\<close>

text \<open>The types of the fields: hashes of 20 bytes and signatures of 65, and no more fields than a vector has.\<close>

fun field_wf :: "'p TransactionAuthField \<Rightarrow> bool" where
  "field_wf (PublicKey _) = True"
| "field_wf (Signature _ sig) = (length sig = 65)"

fun cond_wf :: "nat \<Rightarrow> 'p TransactionSpendingCondition \<Rightarrow> bool" where
  "cond_wf limit (Singlesig s) = (length (ss_signer s) = 20 \<and> length (ss_signature s) = 65)"
| "cond_wf limit (Multisig m) = (length (ms_signer m) = 20 \<and> length (ms_fields m) \<le> limit \<and> (\<forall>f \<in> set (ms_fields m). field_wf f))"
| "cond_wf limit (OrderIndependentMultisig m) =
     (length (ms_signer m) = 20 \<and> length (ms_fields m) \<le> limit \<and> (\<forall>f \<in> set (ms_fields m). field_wf f))"

fun auth_wf :: "nat \<Rightarrow> 'p TransactionAuth \<Rightarrow> bool" where
  "auth_wf limit (Standard c) = cond_wf limit c"
| "auth_wf limit (Sponsored c d) = (cond_wf limit c \<and> cond_wf limit d)"

text \<open>What the reader of a condition lets through.\<close>

fun cond_reads :: "('k, 'p, 'a) tx_keys \<Rightarrow> 'p TransactionSpendingCondition \<Rightarrow> bool" where
  "cond_reads K (Singlesig s) = (ss_hash_mode s = P2WPKH \<longrightarrow> ss_key_encoding s = Compressed)"
| "cond_reads K (Multisig m) =
     (count_signatures 0 (ms_fields m) = Some (ms_signatures_required m) \<and>
      (ms_hash_mode m = P2WSH \<longrightarrow> \<not> (\<exists>f \<in> set (ms_fields m). field_uncompressed K f)))"
| "cond_reads K (OrderIndependentMultisig m) =
     ((case count_signatures 0 (ms_fields m) of None \<Rightarrow> False | Some n \<Rightarrow> ms_signatures_required m \<le> n) \<and>
      (ms_hash_mode m = OiP2WSH \<longrightarrow> \<not> (\<exists>f \<in> set (ms_fields m). field_uncompressed K f)))"

fun auth_reads :: "('k, 'p, 'a) tx_keys \<Rightarrow> 'p TransactionAuth \<Rightarrow> bool" where
  "auth_reads K (Standard c) = cond_reads K c"
| "auth_reads K (Sponsored c d) = (cond_reads K c \<and> cond_reads K d)"

lemma field_back:
  assumes C: "tx_codec_ok C limit" and K: "tx_keys_ok K" and f: "field_wf f"
  shows "readable (auth_field_serialize C K) (auth_field_deserialize C K) f"
proof (cases f)
  case (PublicKey p)
  obtain p' where p': "tk_from_buffer K (tk_to_buffer K p) = Ok p'" "\<And>b. tk_set_compressed K p' b = tk_set_compressed K p b"
    and len: "length (tk_to_buffer K p) = 33" and same: "tk_set_compressed K p (tk_compressed K p) = p"
    using K unfolding tx_keys_ok_def by blast
  show ?thesis using PublicKey p' len same
    by (cases "tk_compressed K p") (auto simp: readable_def reads_back_def auth_field_deserialize_def Let_def tx_simps [OF C])
next
  case (Signature e sig)
  then show ?thesis using f
    by (cases e) (auto simp: readable_def reads_back_def auth_field_deserialize_def Let_def tx_simps [OF C])
qed

lemma multisig_cond_back:
  assumes C: "tx_codec_ok C limit" and K: "tx_keys_ok K" and N: "N \<le> unat (MAX_MESSAGE_LEN C)"
    and m: "length (ms_signer m) = 20" "length (ms_fields m) \<le> limit" "\<forall>f \<in> set (ms_fields m). field_wf f"
    and mode: "from_byte (to_byte (ms_hash_mode m)) = Some (ms_hash_mode m)"
  shows "\<exists>b. multisig_cond_serialize C K to_byte m = Ok (to_byte (ms_hash_mode m) # b) \<and> (length b < N \<longrightarrow>
    (\<forall>rest. multisig_cond_deserialize C K from_byte too_many (to_byte (ms_hash_mode m) # b @ rest) =
       (case count_signatures 0 (ms_fields m) of
          None \<Rightarrow> Err (DeserializeError too_many)
        | Some n \<Rightarrow> Ok ((m, n, \<exists>f \<in> set (ms_fields m). field_uncompressed K f), rest))))"
proof -
  have "\<forall>f \<in> set (ms_fields m). readable (auth_field_serialize C K) (auth_field_deserialize C K) f"
    using m(3) field_back [OF C K] by blast
  note fields_law = tx_codec_laws(2) [OF C m(2) this]
  note fs = upto_written [OF fields_law [of "unat (MAX_MESSAGE_LEN C)"]]
  let ?b = "written (wr_array C 20) (ms_signer m) @ written (wr_u64 C) (ms_nonce m) @ written (wr_u64 C) (ms_tx_fee m) @
    written (wr_fields C (auth_field_serialize C K)) (ms_fields m) @ written (wr_u16 C) (ms_signatures_required m)"
  have "multisig_cond_serialize C K to_byte m = Ok (to_byte (ms_hash_mode m) # ?b)"
    using m(1) by (simp add: multisig_cond_serialize_def tx_simps [OF C] fs(1))
  moreover have "multisig_cond_deserialize C K from_byte too_many (to_byte (ms_hash_mode m) # ?b @ rest) =
       (case count_signatures 0 (ms_fields m) of
          None \<Rightarrow> Err (DeserializeError too_many)
        | Some n \<Rightarrow> Ok ((m, n, \<exists>f \<in> set (ms_fields m). field_uncompressed K f), rest))"
    if "length ?b < N" for rest
  proof -
    have "length (written (wr_fields C (auth_field_serialize C K)) (ms_fields m)) \<le> unat (MAX_MESSAGE_LEN C)" using that N by simp
    note fs2 = fs(2) [OF this]
    show ?thesis using m(1) mode
      by (simp add: multisig_cond_deserialize_def tx_simps [OF C] fs2 split: option.splits)
  qed
  ultimately show ?thesis by blast
qed

lemma singlesig_back:
  assumes C: "tx_codec_ok C limit" and s: "length (ss_signer s) = 20" "length (ss_signature s) = 65"
  shows "\<exists>b. singlesig_serialize C s = Ok (singlesig_mode_u8 (ss_hash_mode s) # b) \<and>
    (\<forall>rest. singlesig_deserialize C (singlesig_mode_u8 (ss_hash_mode s) # b @ rest) =
       (if ss_hash_mode s = P2WPKH \<longrightarrow> ss_key_encoding s = Compressed then Ok (s, rest)
        else Err (DeserializeError ''Failed to parse singlesig spending condition: incomaptible hash mode and key encoding'')))"
  using s by (intro exI [where x = "written (wr_array C 20) (ss_signer s) @ written (wr_u64 C) (ss_nonce s) @
      written (wr_u64 C) (ss_tx_fee s) @ [key_encoding_u8 (ss_key_encoding s)] @ written (wr_array C 65) (ss_signature s)"])
    (simp add: singlesig_serialize_def singlesig_deserialize_def tx_simps [OF C])

lemma cond_back:
  assumes C: "tx_codec_ok C limit" and K: "tx_keys_ok K" and N: "N \<le> unat (MAX_MESSAGE_LEN C)" and c: "cond_wf limit c"
  shows "readable_if (cond_reads K c) N (condition_serialize C K) (condition_deserialize C K) c"
proof (cases c)
  case (Singlesig s)
  obtain b where "singlesig_serialize C s = Ok (singlesig_mode_u8 (ss_hash_mode s) # b)"
    "\<And>rest. singlesig_deserialize C (singlesig_mode_u8 (ss_hash_mode s) # b @ rest) =
       (if ss_hash_mode s = P2WPKH \<longrightarrow> ss_key_encoding s = Compressed then Ok (s, rest)
        else Err (DeserializeError ''Failed to parse singlesig spending condition: incomaptible hash mode and key encoding''))"
    using singlesig_back [OF C] c Singlesig by fastforce
  moreover have "condition_deserialize C K (singlesig_mode_u8 (ss_hash_mode s) # fd) =
      obind (singlesig_deserialize C (singlesig_mode_u8 (ss_hash_mode s) # fd)) (\<lambda>(cond, fd). Ok (Singlesig cond, fd))" for fd
    by (simp add: condition_deserialize_def tx_simps [OF C] Let_def)
  ultimately show ?thesis unfolding readable_if_def using Singlesig
    by (cases "ss_hash_mode s = P2WPKH \<longrightarrow> ss_key_encoding s = Compressed")
      (auto intro!: exI [where x = "singlesig_mode_u8 (ss_hash_mode s) # b"])
next
  case (Multisig m)
  have m: "length (ms_signer m) = 20" "length (ms_fields m) \<le> limit" "\<forall>f \<in> set (ms_fields m). field_wf f" using c Multisig by auto
  obtain b where "multisig_serialize C K m = Ok (multisig_mode_u8 (ms_hash_mode m) # b)"
    "length b < N \<Longrightarrow> multisig_cond_deserialize C K multisig_from_u8 ''Failed to parse multisig spending condition: too many signatures''
        (multisig_mode_u8 (ms_hash_mode m) # b @ rest) =
       (case count_signatures 0 (ms_fields m) of
          None \<Rightarrow> Err (DeserializeError ''Failed to parse multisig spending condition: too many signatures'')
        | Some n \<Rightarrow> Ok ((m, n, \<exists>f \<in> set (ms_fields m). field_uncompressed K f), rest))" for rest
    using multisig_cond_back [where from_byte = multisig_from_u8 and to_byte = multisig_mode_u8, OF C K N m multisig_mode_numbers(1)] unfolding multisig_serialize_def by blast
  moreover have "condition_deserialize C K (multisig_mode_u8 (ms_hash_mode m) # fd) =
      obind (multisig_deserialize C K (multisig_mode_u8 (ms_hash_mode m) # fd)) (\<lambda>(cond, fd). Ok (Multisig cond, fd))" for fd
    by (simp add: condition_deserialize_def tx_simps [OF C] Let_def)
  ultimately show ?thesis unfolding readable_if_def using Multisig
    by (intro exI [where x = "multisig_mode_u8 (ms_hash_mode m) # b"], cases "count_signatures 0 (ms_fields m)";
        cases "\<exists>f \<in> set (ms_fields m). field_uncompressed K f"; cases "ms_hash_mode m = P2WSH";
        cases "count_signatures 0 (ms_fields m) = Some (ms_signatures_required m)";
        auto simp: multisig_deserialize_def not_le)
next
  case (OrderIndependentMultisig m)
  have m: "length (ms_signer m) = 20" "length (ms_fields m) \<le> limit" "\<forall>f \<in> set (ms_fields m). field_wf f"
    using c OrderIndependentMultisig by auto
  obtain b where "oi_serialize C K m = Ok (oi_mode_u8 (ms_hash_mode m) # b)"
    "length b < N \<Longrightarrow> multisig_cond_deserialize C K oi_from_u8 ''Failed to parse order independent multisig spending condition: too many signatures''
        (oi_mode_u8 (ms_hash_mode m) # b @ rest) =
       (case count_signatures 0 (ms_fields m) of
          None \<Rightarrow> Err (DeserializeError ''Failed to parse order independent multisig spending condition: too many signatures'')
        | Some n \<Rightarrow> Ok ((m, n, \<exists>f \<in> set (ms_fields m). field_uncompressed K f), rest))" for rest
    using multisig_cond_back [where from_byte = oi_from_u8 and to_byte = oi_mode_u8, OF C K N m oi_mode_numbers(1)] unfolding oi_serialize_def by blast
  moreover have "condition_deserialize C K (oi_mode_u8 (ms_hash_mode m) # fd) =
      obind (oi_deserialize C K (oi_mode_u8 (ms_hash_mode m) # fd)) (\<lambda>(cond, fd). Ok (OrderIndependentMultisig cond, fd))" for fd
    by (simp add: condition_deserialize_def tx_simps [OF C] Let_def)
  ultimately show ?thesis unfolding readable_if_def using OrderIndependentMultisig
    by (intro exI [where x = "oi_mode_u8 (ms_hash_mode m) # b"], cases "count_signatures 0 (ms_fields m)";
        cases "\<exists>f \<in> set (ms_fields m). field_uncompressed K f"; cases "ms_hash_mode m = OiP2WSH";
        cases "the (count_signatures 0 (ms_fields m)) < ms_signatures_required m";
        auto simp: oi_deserialize_def not_le not_less)
qed

lemma auth_back:
  assumes C: "tx_codec_ok C limit" and K: "tx_keys_ok K" and N: "N \<le> unat (MAX_MESSAGE_LEN C)" and a: "auth_wf limit a"
  shows "readable_if (auth_reads K a) N (auth_serialize C K) (auth_deserialize C K) a"
proof (cases a)
  case (Standard c)
  have "cond_wf limit c" using a Standard by simp
  note c = if_written [OF cond_back [OF C K N this]]
  let ?b = "auth_flags_u8 AuthStandard # written (condition_serialize C K) c"
  have w: "auth_serialize C K a = Ok ?b" using Standard by (simp add: tx_simps [OF C] c(1))
  show ?thesis unfolding readable_if_def
  proof (intro exI [where x = ?b] conjI impI w)
    assume "length ?b \<le> N"
    then have len: "length (written (condition_serialize C K) c) \<le> N" by simp
    show "if auth_reads K a then \<forall>rest. auth_deserialize C K (?b @ rest) = Ok (a, rest)
        else \<exists>e. \<forall>rest. auth_deserialize C K (?b @ rest) = Err (DeserializeError e)"
    proof (cases "cond_reads K c")
      case True
      then show ?thesis using Standard c(2) [OF True len] by (simp add: auth_deserialize_def tx_simps [OF C])
    next
      case False
      then show ?thesis using Standard c(3) [OF False len] by (auto simp: auth_deserialize_def tx_simps [OF C])
    qed
  qed
next
  case (Sponsored c d)
  have "cond_wf limit c" "cond_wf limit d" using a Sponsored by auto
  note c = if_written [OF cond_back [OF C K N this(1)]] and d = if_written [OF cond_back [OF C K N this(2)]]
  let ?b = "auth_flags_u8 AuthSponsored # written (condition_serialize C K) c @ written (condition_serialize C K) d"
  have w: "auth_serialize C K a = Ok ?b" using Sponsored by (simp add: tx_simps [OF C] c(1) d(1))
  show ?thesis unfolding readable_if_def
  proof (intro exI [where x = ?b] conjI impI w)
    assume "length ?b \<le> N"
    then have len: "length (written (condition_serialize C K) c) \<le> N" "length (written (condition_serialize C K) d) \<le> N" by auto
    show "if auth_reads K a then \<forall>rest. auth_deserialize C K (?b @ rest) = Ok (a, rest)
        else \<exists>e. \<forall>rest. auth_deserialize C K (?b @ rest) = Err (DeserializeError e)"
    proof (cases "cond_reads K c")
      case True
      note c2 = c(2) [OF True len(1)]
      show ?thesis
      proof (cases "cond_reads K d")
        case d1: True
        then show ?thesis using Sponsored True c2 d(2) [OF d1 len(2)] by (simp add: auth_deserialize_def tx_simps [OF C])
      next
        case d1: False
        then show ?thesis using Sponsored True c2 d(3) [OF d1 len(2)] by (auto simp: auth_deserialize_def tx_simps [OF C])
      qed
    next
      case False
      obtain e where "\<And>rest. condition_deserialize C K (written (condition_serialize C K) c @ rest) = Err (DeserializeError e)"
        using c(3) [OF False len(1)] by blast
      then show ?thesis using Sponsored False by (auto simp: auth_deserialize_def tx_simps [OF C])
    qed
  qed
qed

text \<open>A condition that verifies is one that can be read.\<close>

lemma verified_reads:
  assumes K: "tx_keys_ok K" and v: "condition_verify K c initial flag = Ok x"
  shows "cond_reads K c"
proof (cases c)
  case (Singlesig s)
  show ?thesis
  proof (cases "ss_hash_mode s = P2WPKH")
    case True
    obtain p nxt where p: "next_verification K initial flag (ss_tx_fee s) (ss_nonce s) (ss_key_encoding s) (ss_signature s) = Ok (p, nxt)"
      and some: "tk_from_public_keys K 0 SerializeP2WPKH 1 [p] \<noteq> None"
      using v Singlesig True
      by (cases "next_verification K initial flag (ss_tx_fee s) (ss_nonce s) (ss_key_encoding s) (ss_signature s)")
        (auto simp: singlesig_verify_def obind_Ok_iff)
    have "tk_compressed K p" using K some by (auto simp: tx_keys_ok_def)
    moreover have "tk_compressed K p = (ss_key_encoding s = Compressed)"
      using p K by (cases "ss_key_encoding s") (auto simp: next_verification_def obind_Ok_iff Let_def tx_keys_ok_def)
    ultimately show ?thesis using Singlesig by simp
  qed (use Singlesig in simp)
next
  case (Multisig m)
  then obtain h n u ps where f: "verify_fields K True flag (ms_tx_fee m) (ms_nonce m) (ms_fields m) initial 0 False [] = Ok (h, n, u, ps)"
    and "n = ms_signatures_required m" "\<not> (u \<and> ms_hash_mode m = P2WSH)"
    using v by (auto simp: multisig_verify_def obind_Ok_iff split: if_splits)
  then show ?thesis using verify_fields_gathers [OF K f] Multisig by auto
next
  case (OrderIndependentMultisig m)
  then obtain h n u ps where f: "verify_fields K False flag (ms_tx_fee m) (ms_nonce m) (ms_fields m) initial 0 False [] = Ok (h, n, u, ps)"
    and "\<not> n < ms_signatures_required m" "\<not> (u \<and> ms_hash_mode m = OiP2WSH)"
    using v by (auto simp: oi_verify_def obind_Ok_iff split: if_splits)
  then show ?thesis using verify_fields_gathers [OF K f] OrderIndependentMultisig by auto
qed

section \<open>Payloads and post-conditions\<close>

text \<open>Parts that the crates outside write and read: addresses, names, principals and values.\<close>

definition address_wf :: "('p, 'a, 'v, 'q) tx_codec \<Rightarrow> 'a \<Rightarrow> bool" where
  "address_wf C x = readable (wr_address C) (rd_address C) x"

definition contract_wf :: "('p, 'a, 'v, 'q) tx_codec \<Rightarrow> ContractName \<Rightarrow> bool" where
  "contract_wf C x = readable (wr_contract C) (rd_contract C) x"

definition clarity_wf :: "('p, 'a, 'v, 'q) tx_codec \<Rightarrow> ClarityName \<Rightarrow> bool" where
  "clarity_wf C x = readable (wr_clarity C) (rd_clarity C) x"

text \<open>The name of a function is printable ASCII and a Clarity name; code is printable ASCII.\<close>

fun payload_wf :: "('p, 'a, 'v, 'q) tx_codec \<Rightarrow> nat \<Rightarrow> ('a, 'v, 'q) TransactionPayload \<Rightarrow> bool" where
  "payload_wf C limit (TokenTransfer q amount memo) = (readable (wr_principal C) (rd_principal C) q \<and> length memo = 34)"
| "payload_wf C limit (ContractCall cc) =
     (address_wf C (cc_address cc) \<and> contract_wf C (cc_contract_name cc) \<and> clarity_wf C (cc_function_name cc) \<and>
      is_valid_string (cc_function_name cc) \<and> clarity_name_ok C (cc_function_name cc) \<and>
      readable_upto (unat MAX_TRANSACTION_LEN) (wr_values C) (rd_values_within C (unat MAX_TRANSACTION_LEN)) (cc_function_args cc))"
| "payload_wf C limit (SmartContract sc v) =
     (contract_wf C (sc_name sc) \<and> is_valid_string (sc_code_body sc) \<and> length (sc_code_body sc) \<le> limit)"

fun pc_principal_wf :: "('p, 'a, 'v, 'q) tx_codec \<Rightarrow> 'a PostConditionPrincipal \<Rightarrow> bool" where
  "pc_principal_wf C PcOrigin = True"
| "pc_principal_wf C (PcStandard a) = address_wf C a"
| "pc_principal_wf C (PcContract a n) = (address_wf C a \<and> contract_wf C n)"

definition asset_wf :: "('p, 'a, 'v, 'q) tx_codec \<Rightarrow> 'a AssetInfo \<Rightarrow> bool" where
  "asset_wf C a \<longleftrightarrow> address_wf C (ai_contract_address a) \<and> contract_wf C (ai_contract_name a) \<and> clarity_wf C (ai_asset_name a)"

fun post_condition_wf :: "('p, 'a, 'v, 'q) tx_codec \<Rightarrow> ('a, 'v) TransactionPostCondition \<Rightarrow> bool" where
  "post_condition_wf C (PcSTX p f amount) = pc_principal_wf C p"
| "post_condition_wf C (PcFungible p a f amount) = (pc_principal_wf C p \<and> asset_wf C a)"
| "post_condition_wf C (PcNonfungible p a v n) = (pc_principal_wf C p \<and> asset_wf C a \<and> readable (wr_value C) (rd_value C) v)"

definition tx_wf :: "('p, 'a, 'v, 'q) tx_codec \<Rightarrow> nat \<Rightarrow> ('a, 'v, 'q, 'p) StacksTransaction \<Rightarrow> bool" where
  "tx_wf C limit tx \<longleftrightarrow> auth_wf limit (tx_auth tx) \<and> payload_wf C limit (tx_payload tx) \<and>
     length (tx_post_conditions tx) \<le> limit \<and> (\<forall>pc \<in> set (tx_post_conditions tx). post_condition_wf C pc)"

lemma part_simps:
  "address_wf C x \<Longrightarrow> wr_address C x = Ok (written (wr_address C) x)"
  "address_wf C x \<Longrightarrow> rd_address C (written (wr_address C) x @ rest) = Ok (x, rest)"
  "contract_wf C n \<Longrightarrow> wr_contract C n = Ok (written (wr_contract C) n)"
  "contract_wf C n \<Longrightarrow> rd_contract C (written (wr_contract C) n @ rest) = Ok (n, rest)"
  "clarity_wf C n \<Longrightarrow> wr_clarity C n = Ok (written (wr_clarity C) n)"
  "clarity_wf C n \<Longrightarrow> rd_clarity C (written (wr_clarity C) n @ rest) = Ok (n, rest)"
  by (auto simp: address_wf_def contract_wf_def clarity_wf_def intro: readable_written)

lemma pc_principal_back:
  assumes C: "tx_codec_ok C limit" and p: "pc_principal_wf C p"
  shows "readable (pc_principal_serialize C) (pc_principal_deserialize C) p"
  using p by (cases p) (auto simp: readable_def reads_back_def pc_principal_deserialize_def tx_simps [OF C] part_simps)

lemma asset_back:
  assumes "asset_wf C a"
  shows "readable (asset_info_serialize C) (asset_info_deserialize C) a"
  using assms by (auto simp: readable_def reads_back_def asset_info_serialize_def asset_info_deserialize_def asset_wf_def part_simps)

lemma post_condition_back:
  assumes C: "tx_codec_ok C limit" and pc: "post_condition_wf C pc"
  shows "readable (post_condition_serialize C) (post_condition_deserialize C) pc"
proof (cases pc)
  case (PcSTX p f amount)
  have "pc_principal_wf C p" using pc PcSTX by simp
  note p = readable_written [OF pc_principal_back [OF C this]]
  show ?thesis using PcSTX
    by (auto simp: readable_def reads_back_def post_condition_deserialize_def tx_simps [OF C] p)
next
  case (PcFungible p a f amount)
  have "pc_principal_wf C p" "asset_wf C a" using pc PcFungible by auto
  note p = readable_written [OF pc_principal_back [OF C this(1)]] readable_written [OF asset_back [OF this(2)]]
  show ?thesis using PcFungible
    by (auto simp: readable_def reads_back_def post_condition_deserialize_def tx_simps [OF C] p)
next
  case (PcNonfungible p a v n)
  have "pc_principal_wf C p" "asset_wf C a" "readable (wr_value C) (rd_value C) v" using pc PcNonfungible by auto
  note p = readable_written [OF pc_principal_back [OF C this(1)]] readable_written [OF asset_back [OF this(2)]] readable_written [OF this(3)]
  show ?thesis using PcNonfungible
    by (auto simp: readable_def reads_back_def post_condition_deserialize_def tx_simps [OF C] p)
qed

lemma ascii_utf8: "is_ascii s \<Longrightarrow> utf8_valid s"
  by (auto simp: is_ascii_def intro: ascii_utf8_valid)

lemma call_back:
  assumes "payload_wf C limit (ContractCall cc)"
  shows "readable_upto (unat MAX_TRANSACTION_LEN) (call_serialize C) (call_deserialize C) cc"
proof -
  have wf: "address_wf C (cc_address cc)" "contract_wf C (cc_contract_name cc)" "clarity_wf C (cc_function_name cc)"
    "is_valid_string (cc_function_name cc)" "clarity_name_ok C (cc_function_name cc)" using assms by auto
  have "readable_upto (unat MAX_TRANSACTION_LEN) (wr_values C) (rd_values_within C (unat MAX_TRANSACTION_LEN)) (cc_function_args cc)"
    using assms by simp
  note vs = upto_written [OF this]
  have "utf8_valid (cc_function_name cc)" using wf(4) ascii_utf8 by (simp add: is_valid_string_def)
  then have name: "stacks_string_from_clarity (cc_function_name cc) = Some (cc_function_name cc)"
      "is_clarity_variable C (cc_function_name cc) = Some True"
    using wf(4,5) by (simp_all add: stacks_string_from_clarity_def stacks_string_from_str_def is_clarity_variable_def
        stacks_string_to_string_def clarity_name_try_from_def)
  let ?b = "written (wr_address C) (cc_address cc) @ written (wr_contract C) (cc_contract_name cc) @
    written (wr_clarity C) (cc_function_name cc) @ written (wr_values C) (cc_function_args cc)"
  have "call_serialize C cc = Ok ?b" using wf by (simp add: call_serialize_def part_simps vs(1))
  moreover have "call_deserialize C (?b @ rest) = Ok (cc, rest)" if "length ?b \<le> unat MAX_TRANSACTION_LEN" for rest
    using that wf name by (simp add: call_deserialize_def part_simps vs(2))
  ultimately show ?thesis unfolding readable_upto_def by blast
qed

lemma smart_contract_back:
  assumes C: "tx_codec_ok C limit" and wf: "payload_wf C limit (SmartContract sc v)"
  shows "readable_upto (unat MAX_TRANSACTION_LEN) (smart_contract_serialize C) (smart_contract_deserialize C) sc"
proof -
  have "length (sc_code_body sc) \<le> limit" using wf by simp
  note s = upto_written [OF tx_codec_laws(1) [OF C this, of "unat (MAX_MESSAGE_LEN C)"]]
  have big: "unat MAX_TRANSACTION_LEN \<le> unat (MAX_MESSAGE_LEN C)" using tx_codec_laws(6) [OF C] by (simp add: word_le_nat_alt)
  have ok: "contract_wf C (sc_name sc)" "is_valid_string (sc_code_body sc)" using wf by auto
  have u: "utf8_valid (sc_code_body sc)" using ok(2) ascii_utf8 by (simp add: is_valid_string_def)
  let ?b = "written (wr_contract C) (sc_name sc) @ written (wr_bytes C) (sc_code_body sc)"
  have "smart_contract_serialize C sc = Ok ?b" using ok by (simp add: smart_contract_serialize_def stacks_string_serialize_def part_simps s(1))
  moreover have "smart_contract_deserialize C (?b @ rest) = Ok (sc, rest)" if "length ?b \<le> unat MAX_TRANSACTION_LEN" for rest
    using that big ok u by (simp add: smart_contract_deserialize_def stacks_string_deserialize_def part_simps s(2))
  ultimately show ?thesis unfolding readable_upto_def by blast
qed

lemma clarity_version_back:
  assumes C: "tx_codec_ok C limit"
  shows "readable (clarity_version_serialize C) (clarity_version_deserialize C) v"
  by (cases v) (auto simp: readable_def reads_back_def clarity_version_deserialize_def tx_simps [OF C])

lemma tx_payload_back:
  assumes C: "tx_codec_ok C limit" and wf: "payload_wf C limit p"
  shows "readable_upto (unat MAX_TRANSACTION_LEN) (tx_payload_serialize C) (tx_payload_deserialize C) p"
proof (cases p)
  case (TokenTransfer q amount memo)
  have "readable (wr_principal C) (rd_principal C) q" "length memo = 34" using wf TokenTransfer by auto
  note q = readable_written [OF this(1)] this(2)
  show ?thesis using TokenTransfer q(3)
    by (auto simp: readable_upto_def tx_payload_deserialize_def payload_id_from_u8_def tx_simps [OF C] q)
next
  case (ContractCall cc)
  have "payload_wf C limit (ContractCall cc)" using wf ContractCall by simp
  note cc = upto_written [OF call_back [OF this]]
  show ?thesis using ContractCall
    by (auto simp: readable_upto_def tx_payload_deserialize_def payload_id_from_u8_def tx_simps [OF C] cc)
next
  case (SmartContract sc v)
  have "payload_wf C limit (SmartContract sc v)" using wf SmartContract by simp
  note sc = upto_written [OF smart_contract_back [OF C this]]
  note vs = readable_written [OF clarity_version_back [OF C]]
  show ?thesis using SmartContract
    by (cases v) (auto simp: readable_upto_def tx_payload_deserialize_def payload_id_from_u8_def tx_simps [OF C] sc vs)
qed

section \<open>Whole transactions\<close>

lemma tx_back:
  assumes C: "tx_codec_ok C limit" and K: "tx_keys_ok K" and wf: "tx_wf C limit tx"
  shows "readable_if (auth_reads K (tx_auth tx)) (unat MAX_TRANSACTION_LEN) (tx_serialize C K) (tx_deserialize_inner C K) tx"
proof -
  have big: "unat MAX_TRANSACTION_LEN \<le> unat (MAX_MESSAGE_LEN C)" using tx_codec_laws(6) [OF C] by (simp add: word_le_nat_alt)
  have "auth_wf limit (tx_auth tx)" "payload_wf C limit (tx_payload tx)" "length (tx_post_conditions tx) \<le> limit"
    and pcs: "\<forall>pc \<in> set (tx_post_conditions tx). readable (post_condition_serialize C) (post_condition_deserialize C) pc"
    using wf post_condition_back [OF C] by (auto simp: tx_wf_def)
  note a = if_written [OF auth_back [OF C K big this(1)]] and p = upto_written [OF tx_payload_back [OF C this(2)]]
    and ps = readable_written [OF tx_codec_laws(3) [OF C this(3) pcs]]
  let ?auth = "written (auth_serialize C K) (tx_auth tx)" and ?payload = "written (tx_payload_serialize C) (tx_payload tx)"
  let ?tail = "anchor_mode_u8 (tx_anchor_mode tx) # post_condition_mode_u8 (tx_post_condition_mode tx) #
    written (wr_post_conditions C (post_condition_serialize C)) (tx_post_conditions tx) @ ?payload"
  let ?b = "version_u8 (tx_version tx) # written (wr_u32 C) (tx_chain_id tx) @ ?auth @ ?tail"
  have w: "tx_serialize C K tx = Ok ?b" by (simp add: tx_serialize_def tx_simps [OF C] a(1) p(1) ps(1))
  have head: "tx_deserialize_inner C K (?b @ rest) = Err e"
    if "auth_deserialize C K (?auth @ ?tail @ rest) = Err e" for rest e
    using that by (simp add: tx_deserialize_inner_def tx_simps [OF C])
  show ?thesis unfolding readable_if_def
  proof (intro exI [where x = ?b] conjI impI w)
    assume "length ?b \<le> unat MAX_TRANSACTION_LEN"
    then have len: "length ?auth \<le> unat MAX_TRANSACTION_LEN" "length ?payload \<le> unat MAX_TRANSACTION_LEN" by auto
    show "if auth_reads K (tx_auth tx) then \<forall>rest. tx_deserialize_inner C K (?b @ rest) = Ok (tx, rest)
        else \<exists>e. \<forall>rest. tx_deserialize_inner C K (?b @ rest) = Err (DeserializeError e)"
    proof (cases "auth_reads K (tx_auth tx)")
      case True
      have "tx_deserialize_inner C K (?b @ rest) = Ok (tx, rest)" for rest
        by (cases "tx_version tx"; cases "tx_anchor_mode tx"; cases "tx_post_condition_mode tx")
          (simp_all add: tx_deserialize_inner_def tx_simps [OF C] a(2) [OF True len(1)] p(2) [OF len(2)] ps(2) Let_def)
      then show ?thesis using True by simp
    next
      case False
      obtain e where "\<And>rest. auth_deserialize C K (?auth @ rest) = Err (DeserializeError e)" using a(3) [OF False len(1)] by blast
      then have "tx_deserialize_inner C K (?b @ rest) = Err (DeserializeError e)" for rest by (intro head) simp
      then show ?thesis using False by auto
    qed
  qed
qed

text \<open>The transaction through the bounded reader, with its length.\<close>

lemma tx_back_bounded:
  assumes C: "tx_codec_ok C limit" and K: "tx_keys_ok K" and wf: "tx_wf C limit tx"
  shows "\<exists>b. tx_serialize C K tx = Ok b \<and> (length b \<le> unat MAX_TRANSACTION_LEN \<longrightarrow>
    (if auth_reads K (tx_auth tx)
     then \<forall>rest. tx_deserialize_with_len C K (b @ rest) = Ok ((tx, word_of_nat (length b)), rest)
     else \<exists>e. \<forall>rest. tx_deserialize_with_len C K (b @ rest) = Err (DeserializeError e)))"
proof -
  note t = if_written [OF tx_back [OF C K wf]]
  let ?b = "written (tx_serialize C K) tx"
  show ?thesis
  proof (intro exI [where x = ?b] conjI impI t(1))
    assume len: "length ?b \<le> unat MAX_TRANSACTION_LEN"
    show "if auth_reads K (tx_auth tx)
     then \<forall>rest. tx_deserialize_with_len C K (?b @ rest) = Ok ((tx, word_of_nat (length ?b)), rest)
     else \<exists>e. \<forall>rest. tx_deserialize_with_len C K (?b @ rest) = Err (DeserializeError e)"
    proof (cases "auth_reads K (tx_auth tx)")
      case True
      note r = tx_codec_laws(4) [OF C len t(2) [OF True len]]
      show ?thesis using True by (simp add: tx_deserialize_with_len_def r)
    next
      case False
      obtain e where "\<And>rest. tx_deserialize_inner C K (?b @ rest) = Err (DeserializeError e)" using t(3) [OF False len] by blast
      note r = tx_codec_laws(5) [where r = "tx_deserialize_inner C K", OF C len this]
      show ?thesis using False by (simp add: tx_deserialize_with_len_def r)
    qed
  qed
qed

lemma tx_verified_reads:
  assumes K: "tx_keys_ok K" and v: "tx_verify C K tx = Ok ()"
  shows "auth_reads K (tx_auth tx)"
proof (cases "tx_auth tx")
  case (Standard c)
  then show ?thesis using v verified_reads [OF K] by (auto simp: tx_verify_def auth_verify_def obind_Ok_iff)
next
  case (Sponsored c d)
  then show ?thesis using v verified_reads [OF K] by (auto simp: tx_verify_def auth_verify_def obind_Ok_iff)
qed

section \<open>Types of signed transactions\<close>

lemma sign_and_append_wf:
  assumes K: "tx_keys_ok K" and c: "cond_wf limit c" and s: "sign_and_append K c cur flag k = Ok (c', nxt)"
  shows "cond_wf (Suc limit) c'"
proof -
  obtain sig nh where sig: "next_signature K cur flag (cond_tx_fee c) (cond_nonce c) k = Ok (sig, nh)"
    using s by (cases "next_signature K cur flag (cond_tx_fee c) (cond_nonce c) k") (auto simp: sign_and_append_def)
  have "length sig = 65" by (rule signed_recovers(2) [OF K sig])
  then show ?thesis using c s sig
    by (cases c) (auto simp: sign_and_append_def set_signature_def push_signature_def)
qed

lemma append_pubkey_wf: "cond_wf limit c \<Longrightarrow> append_pubkey c p = Ok c' \<Longrightarrow> cond_wf (Suc limit) c'"
  by (cases c) (auto simp: push_public_key_def)

lemma cond_wf_Suc: "cond_wf n c \<Longrightarrow> cond_wf (Suc n) c"
  by (cases c) auto

lemma signer_do_wf:
  assumes K: "tx_keys_ok K" and wf: "auth_wf limit (tx_auth (ts_tx s))" and run: "signer_do K s op = Ok s'"
  shows "auth_wf (Suc limit) (tx_auth (ts_tx s'))" "ts_tx s' = (ts_tx s)\<lparr>tx_auth := tx_auth (ts_tx s')\<rparr>"
proof -
  note defs = sign_origin_def append_origin_def sign_sponsor_def append_sponsor_def sign_next_origin_def append_next_origin_def
    sign_next_sponsor_def append_next_sponsor_def obind_Ok_iff
  have "auth_wf (Suc limit) (tx_auth (ts_tx s')) \<and> ts_tx s' = (ts_tx s)\<lparr>tx_auth := tx_auth (ts_tx s')\<rparr>"
    using run wf by (cases op; cases "tx_auth (ts_tx s)"; auto simp: defs split: if_splits prod.splits;
        metis sign_and_append_wf [OF K] append_pubkey_wf cond_wf_Suc)
  then show "auth_wf (Suc limit) (tx_auth (ts_tx s'))" "ts_tx s' = (ts_tx s)\<lparr>tx_auth := tx_auth (ts_tx s')\<rparr>" by blast+
qed

lemma signer_run_wf:
  assumes K: "tx_keys_ok K" and "auth_wf n (tx_auth (ts_tx s))" and "signer_run K s ops = Ok s'"
  shows "auth_wf (n + length ops) (tx_auth (ts_tx s')) \<and> ts_tx s' = (ts_tx s)\<lparr>tx_auth := tx_auth (ts_tx s')\<rparr>"
  using assms(2,3)
proof (induction ops arbitrary: s n)
  case (Cons op ops)
  obtain s1 where s1: "signer_do K s op = Ok s1" "signer_run K s1 ops = Ok s'" using Cons.prems(2) by (auto simp: obind_Ok_iff)
  note step = signer_do_wf [OF K Cons.prems(1) s1(1)]
  have "auth_wf (Suc n + length ops) (tx_auth (ts_tx s')) \<and> ts_tx s' = (ts_tx s1)\<lparr>tx_auth := tx_auth (ts_tx s')\<rparr>"
    by (rule Cons.IH [OF step(1) s1(2)])
  then show ?case using step(2) by (cases "ts_tx s"; cases "ts_tx s1") auto
qed simp

end
