(* ===== verification/Tx_Props.thy ===== *)
theory Tx_Props
  imports Tx_Wire Net_Props
begin

text \<open>
  Properties of transactions: when signed transactions verify, what a sponsor can change, and what
  survives the way to the reader.
\<close>

section \<open>Making signed transactions\<close>

definition signs :: "('k, 'p, 'a) tx_keys \<Rightarrow> 'k \<Rightarrow> bool" where
  "signs K k \<longleftrightarrow> (\<forall>msg. \<exists>sig. tk_sign K k msg = Ok sig)"

text \<open>The condition of one key, before and after it is signed.\<close>

definition key_condition :: "('k, 'p, 'a) tx_keys \<Rightarrow> 'k \<Rightarrow> u64 \<Rightarrow> u64 \<Rightarrow> bytes \<Rightarrow> SinglesigSpendingCondition" where
  "key_condition K k nonce fee sig =
     \<lparr>ss_hash_mode = P2PKH, ss_signer = tk_address_bytes K (the (tk_from_public_keys K 0 SerializeP2PKH 1 [tk_public K k])),
      ss_nonce = nonce, ss_tx_fee = fee, ss_key_encoding = encoding_of K k, ss_signature = sig\<rparr>"

lemma p2pkh_is_key_condition:
  assumes "tx_keys_ok K"
  shows "p2pkh_condition K k nonce = Ok (Singlesig (key_condition K k nonce 0 SIG_EMPTY))"
proof -
  have "tk_from_public_keys K 0 SerializeP2PKH 1 [tk_public K k] \<noteq> None" "tk_compressed K (tk_public K k) = tk_compress_public K k"
    using assms unfolding tx_keys_ok_def by blast+
  then show ?thesis by (auto simp: p2pkh_condition_def new_singlesig_p2pkh_def key_condition_def encoding_of_def)
qed

lemma key_condition_facts:
  assumes "tx_keys_ok K"
  shows "keys_match K (Singlesig (key_condition K k nonce fee sig)) [tk_public K k]"
    "encoding_fits K (Singlesig (key_condition K k nonce fee sig)) k"
    "length sig = 65 \<Longrightarrow> cond_wf limit (Singlesig (key_condition K k nonce fee sig))"
    "cond_set_tx_fee (Singlesig (key_condition K k nonce fee sig)) fee' = Singlesig (key_condition K k nonce fee' sig)"
    "cond_clear (Singlesig (key_condition K k nonce fee sig)) = Singlesig (key_condition K k 0 0 SIG_EMPTY)"
proof -
  obtain a where "tk_from_public_keys K 0 SerializeP2PKH 1 [tk_public K k] = Some a" "length (tk_address_bytes K a) = 20"
    using assms unfolding tx_keys_ok_def by blast
  then show "keys_match K (Singlesig (key_condition K k nonce fee sig)) [tk_public K k]"
    "encoding_fits K (Singlesig (key_condition K k nonce fee sig)) k"
    "length sig = 65 \<Longrightarrow> cond_wf limit (Singlesig (key_condition K k nonce fee sig))"
    "cond_set_tx_fee (Singlesig (key_condition K k nonce fee sig)) fee' = Singlesig (key_condition K k nonce fee' sig)"
    "cond_clear (Singlesig (key_condition K k nonce fee sig)) = Singlesig (key_condition K k 0 0 SIG_EMPTY)"
    by (simp_all add: key_condition_def account_of_def)
qed

lemma key_condition_signs:
  assumes K: "tx_keys_ok K" and k: "signs K k"
  shows "\<exists>sig nxt. sign_and_append K (Singlesig (key_condition K k nonce fee SIG_EMPTY)) cur flag k =
    Ok (Singlesig (key_condition K k nonce fee sig), nxt) \<and> sig \<noteq> SIG_EMPTY"
proof -
  obtain sig where s: "tk_sign K k (make_sighash_presign K cur flag fee nonce) = Ok sig" using k unfolding signs_def by blast
  then have n: "next_signature K cur flag fee nonce k =
      Ok (sig, make_sighash_postsign K (make_sighash_presign K cur flag fee nonce) (tk_public K k) sig)"
    by (simp add: next_signature_def Let_def)
  show ?thesis using n signed_recovers(3) [OF K n] by (simp add: sign_and_append_def key_condition_def set_signature_def)
qed

lemma sig_empty_length [simp]: "length SIG_EMPTY = 65"
  by (simp add: SIG_EMPTY_def)

lemma sign_begin_some:
  assumes C: "tx_codec_ok C limit" and K: "tx_keys_ok K" and "tx_wf C limit (tx\<lparr>tx_auth := into_initial_sighash_auth (tx_auth tx)\<rparr>)"
  shows "\<exists>h. sign_begin C K tx = Some h"
  using tx_back_bounded [OF assms] by (auto simp: sign_begin_def txid_def serialize_to_vec_def)

text \<open>The transaction to sign, and what has become of it when it is signed.\<close>

definition tx_of ::
  "('p, 'a, 'v, 'q) tx_codec \<Rightarrow> TransactionVersion \<Rightarrow> 'p TransactionAuth \<Rightarrow> ('a, 'v, 'q) TransactionPayload \<Rightarrow>
     TransactionPostConditionMode \<Rightarrow> ('a, 'v) TransactionPostCondition list \<Rightarrow> ('a, 'v, 'q, 'p) StacksTransaction" where
  "tx_of C version auth payload mode pcs =
     \<lparr>tx_version = version, tx_chain_id = (if version = Mainnet then CHAIN_ID_MAINNET C else CHAIN_ID_TESTNET C), tx_auth = auth,
      tx_anchor_mode = AnyMode, tx_post_condition_mode = mode, tx_post_conditions = pcs, tx_payload = payload\<rparr>"

lemma tx_of_auth [simp]: "tx_auth (tx_of C version auth payload mode pcs) = auth"
  "(tx_of C version auth payload mode pcs)\<lparr>tx_auth := a\<rparr> = tx_of C version a payload mode pcs"
  by (simp_all add: tx_of_def)

lemma key_condition_kept [simp]:
  "ss_signature (key_condition K k nonce fee sig) = sig" "ss_nonce (key_condition K k nonce fee sig) = nonce"
  "ss_tx_fee (key_condition K k nonce fee sig) = fee"
  by (simp_all add: key_condition_def)

lemma cleared_wf:
  assumes K: "tx_keys_ok K" and "payload_wf C limit payload" and "length pcs \<le> limit" and "\<forall>pc \<in> set pcs. post_condition_wf C pc"
    and "a = Standard (Singlesig (key_condition K k n f SIG_EMPTY)) \<or>
      (\<exists>d. a = Sponsored (Singlesig (key_condition K k n f SIG_EMPTY)) d)"
  shows "tx_wf C limit ((tx_of C version a payload mode pcs)\<lparr>tx_auth := into_initial_sighash_auth a\<rparr>)"
proof -
  have c: "cond_clear (Singlesig (key_condition K k n f SIG_EMPTY)) = Singlesig (key_condition K k 0 0 SIG_EMPTY)"
    by (rule key_condition_facts(5) [OF K])
  have "cond_wf limit (Singlesig (key_condition K k 0 0 SIG_EMPTY))" by (rule key_condition_facts(3) [OF K]) simp
  moreover have "cond_wf limit new_initial_sighash" by (simp add: new_initial_sighash_def)
  ultimately have "auth_wf limit (into_initial_sighash_auth a)" using assms(5) c by (elim disjE exE) simp_all
  then show ?thesis using assms(2-4) by (simp add: tx_wf_def tx_of_def)
qed

lemma signs_standard:
  assumes C: "tx_codec_ok C limit" and K: "tx_keys_ok K" and k: "signs K k"
    and wf: "payload_wf C limit payload" "length pcs \<le> limit" "\<forall>pc \<in> set pcs. post_condition_wf C pc"
    and u_def: "u = tx_of C version (Standard (Singlesig (key_condition K k nonce fee SIG_EMPTY))) payload mode pcs"
  shows "\<exists>s0 s sig. signer_new C K u = Ok s0 \<and> sign_origin K s0 k = Ok s \<and>
    get_tx s = Some (Some (tx_of C version (Standard (Singlesig (key_condition K k nonce fee sig))) payload mode pcs)) \<and>
    tx_verify C K (tx_of C version (Standard (Singlesig (key_condition K k nonce fee sig))) payload mode pcs) = Ok ()"
proof -
  obtain h where h: "sign_begin C K u = Some h"
    using sign_begin_some [OF C K] cleared_wf [OF K wf] unfolding u_def by (metis tx_of_auth(1))
  define s0 where "s0 = \<lparr>ts_tx = u, ts_sighash = h, ts_origin_done = False, ts_check_oversign = True, ts_check_overlap = True\<rparr>"
  have new: "signer_new C K u = Ok s0" using h by (simp add: signer_new_def s0_def)
  obtain sig nxt where sig: "sign_and_append K (Singlesig (key_condition K k nonce fee SIG_EMPTY)) h AuthStandard k =
      Ok (Singlesig (key_condition K k nonce fee sig), nxt)" "sig \<noteq> SIG_EMPTY"
    using key_condition_signs [OF K k] by blast
  let ?t = "tx_of C version (Standard (Singlesig (key_condition K k nonce fee sig))) payload mode pcs"
  define s where "s = s0\<lparr>ts_tx := ?t, ts_sighash := nxt\<rparr>"
  have so: "sign_origin K s0 k = Ok s"
    using sig by (simp add: sign_origin_def s_def s0_def u_def fully_signed_def sign_next_origin_def)
  have get: "get_tx s = Some (Some ?t)" using sig(2) by (simp add: get_tx_def signer_complete_def s_def fully_signed_def)
  have "blank_auth (tx_auth u)" by (simp add: u_def blank_auth_def key_condition_def)
  note inv = signer_new_inv [OF new this]
  have "\<forall>op \<in> set [SignOrigin k]. op_fits K (tx_auth u) op" using key_condition_facts(2) [OF K] by (simp add: u_def)
  note run = signer_run_inv [OF K inv(1) this, of s]
  have "tx_verify C K ?t = Ok ()"
    using complete_verifies [OF K run inv(2) get] so key_condition_facts(1) [OF K] by (simp add: u_def)
  then show ?thesis using new so get by blast
qed

lemma signs_sponsored:
  assumes C: "tx_codec_ok C limit" and K: "tx_keys_ok K" and k: "signs K k" "signs K p"
    and wf: "payload_wf C limit payload" "length pcs \<le> limit" "\<forall>pc \<in> set pcs. post_condition_wf C pc"
    and u_def: "u = tx_of C version (Sponsored (Singlesig (key_condition K k nonce 0 SIG_EMPTY)) (Singlesig (key_condition K p pnonce fee SIG_EMPTY)))
    payload mode pcs"
  shows "\<exists>s0 s1 s sig psig. signer_new C K u = Ok s0 \<and> sign_origin K s0 k = Ok s1 \<and> sign_sponsor K s1 p = Ok s \<and>
    get_tx s = Some (Some (tx_of C version (Sponsored (Singlesig (key_condition K k nonce 0 sig)) (Singlesig (key_condition K p pnonce fee psig)))
      payload mode pcs)) \<and>
    tx_verify C K (tx_of C version (Sponsored (Singlesig (key_condition K k nonce 0 sig)) (Singlesig (key_condition K p pnonce fee psig)))
      payload mode pcs) = Ok ()"
proof -
  obtain h where h: "sign_begin C K u = Some h"
    using sign_begin_some [OF C K] cleared_wf [OF K wf] unfolding u_def by (metis tx_of_auth(1))
  define s0 where "s0 = \<lparr>ts_tx = u, ts_sighash = h, ts_origin_done = False, ts_check_oversign = True, ts_check_overlap = True\<rparr>"
  have new: "signer_new C K u = Ok s0" using h by (simp add: signer_new_def s0_def)
  obtain sig nxt where sig: "sign_and_append K (Singlesig (key_condition K k nonce 0 SIG_EMPTY)) h AuthStandard k =
      Ok (Singlesig (key_condition K k nonce 0 sig), nxt)" "sig \<noteq> SIG_EMPTY"
    using key_condition_signs [OF K k(1)] by blast
  let ?t1 = "tx_of C version (Sponsored (Singlesig (key_condition K k nonce 0 sig)) (Singlesig (key_condition K p pnonce fee SIG_EMPTY)))
      payload mode pcs"
  define s1 where "s1 = s0\<lparr>ts_tx := ?t1, ts_sighash := nxt\<rparr>"
  have so: "sign_origin K s0 k = Ok s1"
    using sig by (simp add: sign_origin_def s1_def s0_def u_def fully_signed_def sign_next_origin_def)
  obtain psig pnxt where psig: "sign_and_append K (Singlesig (key_condition K p pnonce fee SIG_EMPTY)) nxt AuthSponsored p =
      Ok (Singlesig (key_condition K p pnonce fee psig), pnxt)" "psig \<noteq> SIG_EMPTY"
    using key_condition_signs [OF K k(2)] by blast
  let ?t = "tx_of C version (Sponsored (Singlesig (key_condition K k nonce 0 sig)) (Singlesig (key_condition K p pnonce fee psig)))
      payload mode pcs"
  define s where "s = s1\<lparr>ts_tx := ?t, ts_sighash := pnxt, ts_origin_done := True\<rparr>"
  have ss: "sign_sponsor K s1 p = Ok s"
    using psig by (simp add: sign_sponsor_def s_def s1_def s0_def fully_signed_def sign_next_sponsor_def)
  have get: "get_tx s = Some (Some ?t)"
    using sig(2) psig(2) by (simp add: get_tx_def signer_complete_def s_def fully_signed_def)
  have "blank_auth (tx_auth u)" by (simp add: u_def blank_auth_def key_condition_def)
  note inv = signer_new_inv [OF new this]
  have "\<forall>op \<in> set [SignOrigin k, SignSponsor p]. op_fits K (tx_auth u) op" using key_condition_facts(2) [OF K] by (simp add: u_def)
  note run = signer_run_inv [OF K inv(1) this, of s]
  have "tx_verify C K ?t = Ok ()"
    using complete_verifies [OF K run inv(2) get] so ss key_condition_facts(1) [OF K] by (simp add: u_def)
  then show ?thesis using new so ss get by blast
qed

section \<open>Handing a transaction to a sponsor\<close>

text \<open>The invariant of a signer that a sponsor has begun: the origin is closed.\<close>

definition handoff_inv ::
  "('k, 'p, 'a) tx_keys \<Rightarrow> ('a, 'v, 'q, 'p) StacksTransaction \<Rightarrow> 'p TransactionSpendingCondition \<Rightarrow> 'p TransactionSpendingCondition \<Rightarrow>
     Txid \<Rightarrow> ('a, 'v, 'q, 'p) StacksTransactionSigner \<Rightarrow> 'p list \<Rightarrow> bool" where
  "handoff_inv K tx c d h s qs \<longleftrightarrow>
     ts_check_oversign s \<and> ts_check_overlap s \<and> ts_origin_done s \<and>
     (\<exists>d'. ts_tx s = tx\<lparr>tx_auth := Sponsored c d'\<rparr> \<and> cond_clear d' = cond_clear d \<and>
        signed_so_far K d' AuthSponsored h (ts_sighash s) qs)"

lemma handoff_step:
  assumes K: "tx_keys_ok K" and inv: "handoff_inv K tx c d h s qs" and fits: "\<forall>k. op = SignSponsor k \<longrightarrow> encoding_fits K d k"
    and run: "signer_do K s op = Ok s'"
  shows "handoff_inv K tx c d h s' (qs @ sponsor_keys K [op])" "origin_keys K [op] = []"
proof -
  obtain d' where checks: "ts_check_oversign s" "ts_check_overlap s" "ts_origin_done s" and tx: "ts_tx s = tx\<lparr>tx_auth := Sponsored c d'\<rparr>"
    and clear: "cond_clear d' = cond_clear d" and so: "signed_so_far K d' AuthSponsored h (ts_sighash s) qs"
    using inv by (auto simp: handoff_inv_def)
  have "handoff_inv K tx c d h s' (qs @ sponsor_keys K [op]) \<and> origin_keys K [op] = []"
  proof (cases op)
    case (SignSponsor k)
    obtain c' nxt where step: "sign_and_append K d' (ts_sighash s) AuthSponsored k = Ok (c', nxt)" and more: "fully_signed d' = Some False"
      and s': "s' = s\<lparr>ts_tx := tx\<lparr>tx_auth := Sponsored c c'\<rparr>, ts_sighash := nxt, ts_origin_done := True\<rparr>"
      using run checks tx SignSponsor by (auto simp: sign_sponsor_def sign_next_sponsor_def obind_Ok_iff split: if_splits)
    have "encoding_fits K d' k" using fits SignSponsor by (simp add: account_kept(3) [OF clear])
    note signed = signed_so_far_sign [OF K so more this step]
    show ?thesis using checks clear signed s' SignSponsor by (auto simp: handoff_inv_def)
  next
    case (AppendSponsor p)
    obtain c' where step: "append_pubkey d' p = Ok c'" and s': "s' = s\<lparr>ts_tx := tx\<lparr>tx_auth := Sponsored c c'\<rparr>\<rparr>"
      using run tx AppendSponsor by (auto simp: append_sponsor_def append_next_sponsor_def obind_Ok_iff)
    note appended = signed_so_far_append [OF so step]
    show ?thesis using checks clear appended s' AppendSponsor by (auto simp: handoff_inv_def)
  qed (use run checks in \<open>simp_all add: sign_origin_def append_origin_def\<close>)
  then show "handoff_inv K tx c d h s' (qs @ sponsor_keys K [op])" "origin_keys K [op] = []" by blast+
qed

lemma handoff_run:
  assumes K: "tx_keys_ok K" and "handoff_inv K tx c d h s qs" and "\<forall>k. SignSponsor k \<in> set ops \<longrightarrow> encoding_fits K d k"
    and "signer_run K s ops = Ok s'"
  shows "handoff_inv K tx c d h s' (qs @ sponsor_keys K ops) \<and> origin_keys K ops = []"
  using assms(2-4)
proof (induction ops arbitrary: s qs)
  case (Cons op ops)
  obtain s1 where s1: "signer_do K s op = Ok s1" "signer_run K s1 ops = Ok s'" using Cons.prems(3) by (auto simp: obind_Ok_iff)
  have fits: "\<forall>k. op = SignSponsor k \<longrightarrow> encoding_fits K d k" "\<forall>k. SignSponsor k \<in> set ops \<longrightarrow> encoding_fits K d k"
    using Cons.prems(2) by auto
  note step = handoff_step [OF K Cons.prems(1) fits(1) s1(1)]
  note rest = Cons.IH [OF step(1) fits(2) s1(2)]
  show ?case using rest step(2) by (cases op) simp_all
qed simp

lemma verify_origin_sponsor:
  "tx_verify_origin C K (tx\<lparr>tx_auth := Sponsored c d\<rparr>) = tx_verify_origin C K (tx\<lparr>tx_auth := Sponsored c d'\<rparr>)"
  by (simp add: tx_verify_origin_def verify_begin_def)

lemma payload_wf_mono: "payload_wf C n p \<Longrightarrow> n \<le> m \<Longrightarrow> payload_wf C m p"
  by (cases p) auto

section \<open>Properties\<close>

text \<open>
  C16. When a signed transaction verifies. A signer begins with a transaction that nobody has
  signed and goes through any operations of the origin and the sponsor, in any order that it
  allows, with signatures and with plain public keys; a condition with one key is signed with a
  key of the encoding that it names. If it then says that the transaction is
  complete, the transaction verifies exactly when the keys given by the origin, in their order,
  are those of the origin's account and the keys of the sponsor, if there is one, are those of the
  sponsor's: rolling hashes, counts of signatures and the two flags agree between signer and
  verifier on every path.
\<close>

theorem signed_run_verifies:
  assumes "tx_keys_ok K" and "blank_auth (tx_auth tx0)" and "signer_new C K tx0 = Ok s0"
    and "\<forall>op \<in> set ops. op_fits K (tx_auth tx0) op" and "signer_run K s0 ops = Ok s" and "get_tx s = Some (Some tx)"
  shows "tx_verify C K tx = Ok () \<longleftrightarrow>
    keys_match K (auth_origin (tx_auth tx0)) (origin_keys K ops) \<and>
    (\<forall>c. auth_sponsor (tx_auth tx0) = Some c \<longrightarrow> keys_match K c (sponsor_keys K ops))"
proof -
  note new = signer_new_inv [OF assms(3,2)]
  have "signer_inv K tx0 (ts_sighash s0) s (origin_keys K ops) (sponsor_keys K ops)"
    using signer_run_inv [OF assms(1) new(1) assms(4,5)] by simp
  then show ?thesis by (rule complete_verifies [OF assms(1) _ new(2) assms(6)])
qed

text \<open>
  C17. Handing a transaction on to a sponsor. The origin of a sponsored transaction signs without
  knowing the sponsor: whoever replaces the sponsor's condition by a blank one, and signs it with
  keys of the encoding that it names, gets a signer, whatever stood there before, whose next hash is what verifying the origin gives. From then on the origin is
  closed, as no operation of the origin succeeds, its condition is never changed, and once the
  sponsor has as many signatures as required the transaction verifies exactly when the
  sponsor's keys are those of its account.
\<close>

theorem sponsor_handoff:
  assumes "tx_keys_ok K" and "tx_auth tx = Sponsored c d0" and "tx_verify_origin C K tx = Ok h" and "blank d"
    and "\<forall>k. SignSponsor k \<in> set ops \<longrightarrow> encoding_fits K d k"
  shows "\<exists>s. signer_new_sponsor C K tx d = Ok s \<and> ts_sighash s = h \<and>
    (\<forall>s'. signer_run K s ops = Ok s' \<longrightarrow> origin_keys K ops = [] \<and>
       (\<exists>d'. ts_tx s' = tx\<lparr>tx_auth := Sponsored c d'\<rparr> \<and> cond_clear d' = cond_clear d \<and>
          (fully_signed d' = Some True \<longrightarrow>
             (tx_verify C K (ts_tx s') = Ok () \<longleftrightarrow> keys_match K d (sponsor_keys K ops)))))"
proof -
  have same: "tx_verify_origin C K (tx\<lparr>tx_auth := Sponsored c e\<rparr>) = Ok h" for e
    using verify_origin_sponsor [where C = C and K = K and tx = tx and c = c and d = e and d' = d0] assms(2,3) by (cases tx) simp
  let ?s = "\<lparr>ts_tx = tx\<lparr>tx_auth := Sponsored c d\<rparr>, ts_sighash = h, ts_origin_done = True, ts_check_oversign = True, ts_check_overlap = True\<rparr>"
  have new: "signer_new_sponsor C K tx d = Ok ?s" using assms(2) same by (simp add: signer_new_sponsor_def)
  have inv: "handoff_inv K tx c d h ?s []" using blank_so_far [OF assms(4)] by (auto simp: handoff_inv_def)
  have "origin_keys K ops = [] \<and> (\<exists>d'. ts_tx s' = tx\<lparr>tx_auth := Sponsored c d'\<rparr> \<and> cond_clear d' = cond_clear d \<and>
      (fully_signed d' = Some True \<longrightarrow> (tx_verify C K (ts_tx s') = Ok () \<longleftrightarrow> keys_match K d (sponsor_keys K ops))))"
    if run: "signer_run K ?s ops = Ok s'" for s'
  proof -
    have "handoff_inv K tx c d h s' (sponsor_keys K ops)" and none: "origin_keys K ops = []"
      using handoff_run [OF assms(1) inv assms(5) run] by auto
    then obtain d' where d': "ts_tx s' = tx\<lparr>tx_auth := Sponsored c d'\<rparr>" "cond_clear d' = cond_clear d"
      and so: "signed_so_far K d' AuthSponsored h (ts_sighash s') (sponsor_keys K ops)" by (auto simp: handoff_inv_def)
    have "tx_verify C K (ts_tx s') = Ok () \<longleftrightarrow> keys_match K d (sponsor_keys K ops)" if full: "fully_signed d' = Some True"
    proof -
      note sv = replayed_verifies [OF assms(1) fully_signed_so_far [OF so full]]
      obtain i where i: "verify_begin C K (ts_tx s') = Some i" "condition_verify K c i AuthStandard = Ok h"
        using same [of d'] d'(1) by (auto simp: tx_verify_origin_def obind_Ok_iff)
      show ?thesis using i sv d'(1) account_kept(1) [OF d'(2), of K]
        by (simp add: tx_verify_def auth_verify_def obind_Ok_iff)
    qed
    then show ?thesis using none d' by blast
  qed
  then show ?thesis using new by (intro exI [where x = ?s]) simp
qed

text \<open>
  C20. Made and signed at once. For any payload and post-conditions that can be written and keys
  that sign, a transaction is made, with or without a payer: it verifies, and it has the payload,
  the nonce of the sender and the fee that were asked for, the fee with the payer when there is
  one.
\<close>

theorem signed_tx_verifies:
  assumes C: "tx_codec_ok C limit" and K: "tx_keys_ok K" and "signs K sender" and "\<forall>p. payer = Some p \<longrightarrow> signs K p"
    and wf: "payload_wf C limit payload" "length pcs \<le> limit" "\<forall>pc \<in> set pcs. post_condition_wf C pc"
  shows "\<exists>tx. serialize_sign_tx C K version payload sender payer sender_nonce payer_nonce tx_fee mode pcs = Ok tx \<and>
    tx_verify C K tx = Ok () \<and> tx_payload tx = payload \<and> tx_post_conditions tx = pcs \<and> tx_get_origin_nonce tx = sender_nonce \<and>
    tx_get_tx_fee tx = tx_fee \<and> tx_get_sponsor_nonce tx = (if payer = None then None else payer_nonce)"
proof (cases "payer \<noteq> None \<and> payer_nonce \<noteq> None")
  case False
  from signs_standard [OF C K assms(3) wf refl, of version sender_nonce tx_fee mode]
  obtain s0 s sig where steps:
    "signer_new C K (tx_of C version (Standard (Singlesig (key_condition K sender sender_nonce tx_fee SIG_EMPTY))) payload mode pcs) = Ok s0"
    "sign_origin K s0 sender = Ok s"
    "get_tx s = Some (Some (tx_of C version (Standard (Singlesig (key_condition K sender sender_nonce tx_fee sig))) payload mode pcs))"
    "tx_verify C K (tx_of C version (Standard (Singlesig (key_condition K sender sender_nonce tx_fee sig))) payload mode pcs) = Ok ()"
    by blast
  let ?t = "tx_of C version (Standard (Singlesig (key_condition K sender sender_nonce tx_fee sig))) payload mode pcs"
  have "p2pkh_condition K sender sender_nonce = Ok (Singlesig (key_condition K sender sender_nonce 0 SIG_EMPTY))"
    by (rule p2pkh_is_key_condition [OF K])
  then have "serialize_sign_tx C K version payload sender payer sender_nonce payer_nonce tx_fee mode pcs = Ok ?t"
    using steps(1-3) False key_condition_facts(4) [OF K]
    by (cases payer; cases payer_nonce) (simp_all add: serialize_sign_tx_def tx_new_def tx_of_def Let_def)
  then show ?thesis using steps(4) False
    by (intro exI [where x = ?t]) (auto simp: tx_of_def tx_get_origin_nonce_def get_origin_nonce_def tx_get_tx_fee_def
        tx_get_sponsor_nonce_def get_sponsor_nonce_def)
next
  case True
  then obtain p pn where p: "payer = Some p" "payer_nonce = Some pn" by auto
  then have "signs K p" using assms(4) by simp
  from signs_sponsored [OF C K assms(3) this wf refl, of version sender_nonce pn tx_fee mode]
  obtain s0 s1 s sig psig where steps:
    "signer_new C K (tx_of C version (Sponsored (Singlesig (key_condition K sender sender_nonce 0 SIG_EMPTY))
       (Singlesig (key_condition K p pn tx_fee SIG_EMPTY))) payload mode pcs) = Ok s0"
    "sign_origin K s0 sender = Ok s1" "sign_sponsor K s1 p = Ok s"
    "get_tx s = Some (Some (tx_of C version (Sponsored (Singlesig (key_condition K sender sender_nonce 0 sig))
       (Singlesig (key_condition K p pn tx_fee psig))) payload mode pcs))"
    "tx_verify C K (tx_of C version (Sponsored (Singlesig (key_condition K sender sender_nonce 0 sig))
       (Singlesig (key_condition K p pn tx_fee psig))) payload mode pcs) = Ok ()"
    by blast
  let ?t = "tx_of C version (Sponsored (Singlesig (key_condition K sender sender_nonce 0 sig))
       (Singlesig (key_condition K p pn tx_fee psig))) payload mode pcs"
  have "serialize_sign_tx C K version payload sender payer sender_nonce payer_nonce tx_fee mode pcs = Ok ?t"
    using steps(1-4) p p2pkh_is_key_condition [OF K, of sender sender_nonce] p2pkh_is_key_condition [OF K, of p pn]
      key_condition_facts(4) [OF K]
    by (simp add: serialize_sign_tx_def tx_new_def tx_of_def Let_def)
  then show ?thesis using steps(5) p
    by (intro exI [where x = ?t]) (simp add: tx_of_def tx_get_origin_nonce_def get_origin_nonce_def tx_get_tx_fee_def
        tx_get_sponsor_nonce_def get_sponsor_nonce_def)
qed

text \<open>
  C18. Transactions on the wire. Every transaction of well-formed parts can be written. If it is no
  longer than the limit, reading it back gives the transaction and its length when the reader
  accepts each of its conditions, and is an error otherwise. A condition with several keys is
  accepted when it has the number of signatures it asks for (at least that number, when their
  order is free) and no uncompressed key in a segwit mode. A condition with one key is accepted
  whatever its signature, signed or not, unless it is segwit with an uncompressed key.
\<close>

theorem transaction_roundtrip:
  assumes "tx_codec_ok C limit" and "tx_keys_ok K" and "tx_wf C limit tx"
  shows "\<exists>b. tx_serialize C K tx = Ok b \<and> (length b \<le> unat MAX_TRANSACTION_LEN \<longrightarrow>
    (if auth_reads K (tx_auth tx)
     then \<forall>rest. tx_deserialize_with_len C K (b @ rest) = Ok ((tx, word_of_nat (length b)), rest)
     else \<exists>e. \<forall>rest. tx_deserialize_with_len C K (b @ rest) = Err (DeserializeError e)))"
  by (rule tx_back_bounded [OF assms])

text \<open>
  C19. What verifies can be sent. A transaction of well-formed parts that verifies and is no longer
  than the limit is read back as it was written, and verifies for its reader: the checks of the readers ask for nothing that
  verification does not ask for.
\<close>

theorem verified_survives_wire:
  assumes "tx_codec_ok C limit" and "tx_keys_ok K" and "tx_wf C limit tx" and "tx_verify C K tx = Ok ()"
  shows "\<exists>b. tx_serialize C K tx = Ok b \<and> (length b \<le> unat MAX_TRANSACTION_LEN \<longrightarrow>
    (\<exists>tx'. tx_deserialize C K b = Ok (tx', []) \<and> tx' = tx \<and> tx_verify C K tx' = Ok ()))"
proof -
  obtain b where b: "tx_serialize C K tx = Ok b"
    and rb: "length b \<le> unat MAX_TRANSACTION_LEN \<longrightarrow> (\<forall>rest. tx_deserialize_with_len C K (b @ rest) = Ok ((tx, word_of_nat (length b)), rest))"
    using tx_back_bounded [OF assms(1-3)] tx_verified_reads [OF assms(2,4)] by auto
  have "tx_deserialize C K b = Ok (tx, [])" if "length b \<le> unat MAX_TRANSACTION_LEN"
    using mp [OF rb that, THEN spec, of "[]"] by (simp add: tx_deserialize_def)
  then show ?thesis using b assms(4) by auto
qed

text \<open>
  C21. Types of signed transactions. Whatever a signer does, the parts of its transaction keep
  their types: hashes of 20 bytes, signatures of 65, vectors within the limit. Nothing of the
  transaction but its authorization changes, and at every moment the transaction can be written.
\<close>

theorem signer_keeps_types:
  assumes "tx_codec_ok C (n + length ops)" and "tx_keys_ok K" and "tx_wf C n (ts_tx s)" and "signer_run K s ops = Ok s'"
  shows "tx_wf C (n + length ops) (ts_tx s') \<and> ts_tx s' = (ts_tx s)\<lparr>tx_auth := tx_auth (ts_tx s')\<rparr> \<and>
    (\<exists>b. tx_serialize C K (ts_tx s') = Ok b)"
proof -
  have "auth_wf n (tx_auth (ts_tx s))" using assms(3) by (simp add: tx_wf_def)
  note run = signer_run_wf [OF assms(2) this assms(4)]
  then have same: "tx_payload (ts_tx s') = tx_payload (ts_tx s)" "tx_post_conditions (ts_tx s') = tx_post_conditions (ts_tx s)"
    by (metis StacksTransaction.select_convs(6,7) StacksTransaction.surjective StacksTransaction.update_convs(3))+
  then have wf: "tx_wf C (n + length ops) (ts_tx s')"
    using run assms(3) payload_wf_mono [where n = n and m = "n + length ops"] by (auto simp: tx_wf_def)
  then show ?thesis using run tx_back_bounded [OF assms(1,2) wf] by blast
qed

section \<open>Witnesses\<close>

text \<open>
  Keys are a byte and a flag. A signature has the byte and the beginning of what it signs, hashes
  are a polynomial, and an address is made of the bytes of its keys.
\<close>

definition byte_sign :: "u8 \<times> bool \<Rightarrow> bytes \<Rightarrow> bytes" where
  "byte_sign k msg = fst k # 1 # take 63 (msg @ replicate 63 0)"

definition byte_keys :: "(u8 \<times> bool, u8 \<times> bool, bytes) tx_keys" where
  "byte_keys = \<lparr>tk_sha = (\<lambda>m. replicate 32 (foldl (\<lambda>h b. 31 * h + b) 7 m)), tk_sign = (\<lambda>k m. Ok (byte_sign k m)),
     tk_recover = (\<lambda>m sig. if sig = byte_sign (hd sig, True) m then Ok (hd sig, True) else Err ''no key''),
     tk_public = (\<lambda>k. k), tk_compress_public = snd, tk_compressed = snd, tk_set_compressed = (\<lambda>p b. (fst p, b)),
     tk_to_buffer = (\<lambda>p. replicate 33 (fst p)), tk_from_buffer = (\<lambda>b. Ok (hd b, True)),
     tk_from_public_keys = (\<lambda>v mode n ps.
       if length ps < n \<or> (mode \<in> {SerializeP2WPKH, SerializeP2WSH} \<and> (\<exists>p \<in> set ps. \<not> snd p)) then None else Some (map fst ps)),
     tk_address_bytes = (\<lambda>a. take 20 (a @ replicate 20 0)), tk_address_new = (\<lambda>v h. Some h),
     MAINNET_SINGLESIG = 22, MAINNET_MULTISIG = 20, TESTNET_SINGLESIG = 26, TESTNET_MULTISIG = 21\<rparr>"

lemma byte_keys_ok: "tx_keys_ok byte_keys"
  by (auto simp: tx_keys_ok_def byte_keys_def byte_sign_def SIG_EMPTY_def numeral_eq_Suc)

lemma byte_keys_sign: "signs byte_keys k"
  by (simp add: signs_def byte_keys_def)

definition bounded :: "nat \<Rightarrow> 'a reader \<Rightarrow> 'a reader" where
  "bounded n r fd = obind (r (take n fd)) (\<lambda>(x, rest). Ok (x, rest @ drop n fd))"

definition be_tx :: "(u8 \<times> bool, bytes, bytes, bytes) tx_codec" where
  "be_tx = \<lparr>wr_u8 = wr_u8 be_codec, rd_u8 = rd_u8 be_codec, wr_u32 = wr_u32 be_codec, rd_u32 = rd_u32 be_codec,
     wr_u64 = wr_u64 be_codec, rd_u64 = rd_u64 be_codec, wr_hash160 = wr_hash160 be_codec, rd_hash160 = rd_hash160 be_codec,
     wr_bytes = wr_bytes be_codec, rd_bytes = rd_bytes be_codec, wr_u32s = wr_u32s be_codec, rd_u32s = rd_u32s be_codec,
     wr_names = wr_names be_codec, rd_names = rd_names be_codec, wr_slots = wr_slots be_codec,
     rd_slots_at_most = rd_slots_at_most be_codec,
     wr_u16 = (\<lambda>x. Ok (to_be_bytes 2 x)), rd_u16 = rd_word 2, wr_array = plain_array, rd_array = read_array,
     rd_bytes_within = (\<lambda>n. bounded n rd_prefixed), read_exact = read_array, url_parse = (\<lambda>_. None),
     CLARITY_MAX_STRING_LENGTH = 128, MAX_MESSAGE_LEN = 16777217, MAX_RELAYERS_LEN = 16, PREAMBLE_ENCODED_SIZE = 165,
     wr_fields = wr_vec, rd_fields_within = (\<lambda>n r. bounded n (rd_vec r 0xFFFFFFFF)),
     wr_address = wr_prefixed, rd_address = rd_prefixed, wr_contract = wr_prefixed, rd_contract = rd_prefixed,
     wr_clarity = wr_prefixed, rd_clarity = rd_prefixed, wr_principal = wr_prefixed, rd_principal = rd_prefixed,
     wr_value = wr_prefixed, rd_value = rd_prefixed, wr_values = wr_vec wr_prefixed,
     rd_values_within = (\<lambda>n. bounded n (rd_vec rd_prefixed 0xFFFFFFFF)),
     wr_post_conditions = wr_vec, rd_post_conditions = (\<lambda>r. rd_vec r 0xFFFFFFFF), rd_tx_within = bounded,
     contract_name_ok = (\<lambda>_. True), clarity_name_ok = (\<lambda>_. True), CHAIN_ID_MAINNET = 1, CHAIN_ID_TESTNET = 0x80000000\<rparr>"

lemma bounded_Ok:
  assumes "length b \<le> n" and "\<And>rest. r (b @ rest) = Ok (x, rest)"
  shows "bounded n r (b @ rest) = Ok (x, rest)"
proof -
  have "take n (b @ rest) = b @ take (n - length b) rest" "drop n (b @ rest) = drop (n - length b) rest" using assms(1) by auto
  then show ?thesis by (simp add: bounded_def assms(2))
qed

lemma bounded_Err:
  assumes "length b \<le> n" and "\<And>rest. r (b @ rest) = Err e"
  shows "bounded n r (b @ rest) = Err e"
proof -
  have "take n (b @ rest) = b @ take (n - length b) rest" using assms(1) by auto
  then show ?thesis by (simp add: bounded_def assms(2))
qed

lemma bounded_upto:
  assumes "readable w r x"
  shows "readable_upto n w (bounded n r) x"
  using assms bounded_Ok [where r = r and n = n and x = x] unfolding readable_def reads_back_def readable_upto_def by blast

lemma be_tx_vec:
  assumes "length xs \<le> 1000" and "\<forall>x \<in> set xs. readable w r x"
  shows "readable (wr_vec w) (rd_vec r 0xFFFFFFFF) xs"
  using assms by (intro vec_back) simp_all

lemma be_tx_ok: "tx_codec_ok be_tx 1000"
proof -
  have base: "codec.truncate be_tx = be_codec" by (simp add: be_tx_def codec.truncate_def be_codec_def)
  have "net_ok be_tx 1000" unfolding net_ok_def base
    by (simp add: codec_ok_be) (simp add: be_tx_def reads_back_def rd_word_back plain_array_def read_array_def)
  moreover have "wr_u8 be_tx x = Ok [x]" for x by (simp add: be_tx_def be_codec_def to_be_bytes_def)
  moreover have "readable_upto n (wr_bytes be_tx) (rd_bytes_within be_tx n) xs" if "length xs \<le> 1000" for n xs
    using bounded_upto [OF reads_back_readable [OF prefixed_back]] that by (simp add: be_tx_def be_codec_def)
  moreover have "readable_upto n (wr_fields be_tx w) (rd_fields_within be_tx n r) xs"
    if "length xs \<le> 1000" "\<forall>x \<in> set xs. readable w r x" for n w r xs
    using bounded_upto [OF be_tx_vec [OF that]] by (simp add: be_tx_def)
  moreover have "readable (wr_post_conditions be_tx w) (rd_post_conditions be_tx r) xs"
    if "length xs \<le> 1000" "\<forall>x \<in> set xs. readable w r x" for w r xs
    using be_tx_vec [OF that] by (simp add: be_tx_def)
  moreover have "MAX_TRANSACTION_LEN \<le> MAX_MESSAGE_LEN be_tx"
    by (simp_all add: be_tx_def MAX_TRANSACTION_LEN_def)
  moreover have "rd_tx_within be_tx n r (b @ rest) = Ok (x, rest)" if "length b \<le> n" "\<forall>rest. r (b @ rest) = Ok (x, rest)" for n r b x rest
    using bounded_Ok [OF that(1), of r x rest] that(2) by (simp add: be_tx_def)
  moreover have "rd_tx_within be_tx n r (b @ rest) = Err e" if "length b \<le> n" "\<forall>rest. r (b @ rest) = Err e" for n r b e rest
    using bounded_Err [OF that(1), of r e rest] that(2) by (simp add: be_tx_def)
  ultimately show ?thesis unfolding tx_codec_ok_def by simp
qed

definition some_call :: "(bytes, bytes, bytes) TransactionPayload" where
  "some_call = ContractCall \<lparr>cc_address = [1, 2], cc_contract_name = [97], cc_function_name = [98], cc_function_args = [[3], []]\<rparr>"

definition some_pcs :: "(bytes, bytes) TransactionPostCondition list" where
  "some_pcs = [PcSTX PcOrigin SentLe 5]"

lemma some_call_wf: "payload_wf be_tx 900 some_call" "length some_pcs \<le> 900" "\<forall>pc \<in> set some_pcs. post_condition_wf be_tx pc"
proof -
  have p: "readable wr_prefixed rd_prefixed x" if "length x < 100" for x
    by (rule reads_back_readable [OF prefixed_back]) (use that in simp)
  have "readable_upto n (wr_vec wr_prefixed) (bounded n (rd_vec rd_prefixed 0xFFFFFFFF)) [[3], []]" for n
    by (intro bounded_upto be_tx_vec) (simp_all add: p)
  then show "payload_wf be_tx 900 some_call" unfolding some_call_def
    by (simp add: be_tx_def address_wf_def contract_wf_def clarity_wf_def p is_valid_string_def is_printable_def is_ascii_def)
  show "length some_pcs \<le> 900" "\<forall>pc \<in> set some_pcs. post_condition_wf be_tx pc" by (simp_all add: some_pcs_def)
qed

lemma some_call_wf_1000: "payload_wf be_tx 1000 some_call" "length some_pcs \<le> 1000"
  using some_call_wf payload_wf_mono [of be_tx 900 some_call 1000] by auto

definition some_unsigned :: "(bytes, bytes, bytes, u8 \<times> bool) StacksTransaction" where
  "some_unsigned = tx_of be_tx Mainnet (Sponsored (Singlesig (key_condition byte_keys (1, True) 7 0 SIG_EMPTY))
     (Singlesig (key_condition byte_keys (2, False) 8 9 SIG_EMPTY))) some_call Deny some_pcs"

lemmas byte_key_facts = key_condition_facts [OF byte_keys_ok]

lemma some_small:
  assumes "length sig = 65" and "length psig = 65"
    and "tx_serialize be_tx byte_keys (tx_of be_tx Mainnet (Sponsored (Singlesig (key_condition byte_keys (1, True) 7 0 sig))
       (Singlesig (key_condition byte_keys (2, False) 8 9 psig))) some_call Deny some_pcs) = Ok b"
  shows "length b \<le> unat MAX_TRANSACTION_LEN"
proof -
  have "length b \<le> 400"
    using assms unfolding tx_serialize_def tx_of_def
    by (auto simp: be_tx_def be_codec_def plain_array_def singlesig_serialize_def key_condition_def some_call_def call_serialize_def
        some_pcs_def wr_vec_def wr_prefixed_def byte_keys_def stacks_string_from_str_def)
  then show ?thesis by (simp add: MAX_TRANSACTION_LEN_def)
qed

text \<open>A sponsored transaction, signed by its origin and then its sponsor.\<close>

lemma some_run:
  "\<exists>s0 s tx c d. signer_new be_tx byte_keys some_unsigned = Ok s0 \<and>
     signer_run byte_keys s0 [SignOrigin (1, True), SignSponsor (2, False)] = Ok s \<and> get_tx s = Some (Some tx) \<and>
     tx_auth tx = Sponsored c d \<and> tx_verify be_tx byte_keys tx = Ok () \<and> tx_wf be_tx 1000 tx \<and>
     (\<forall>b. tx_serialize be_tx byte_keys tx = Ok b \<longrightarrow> length b \<le> unat MAX_TRANSACTION_LEN)"
proof -
  note signs = signs_sponsored [OF be_tx_ok byte_keys_ok byte_keys_sign [of "(1, True)"] byte_keys_sign [of "(2, False)"]
      some_call_wf_1000 some_call_wf(3) refl, of Mainnet 7 8 9 Deny]
  obtain s0 s1 s sig psig where steps: "signer_new be_tx byte_keys some_unsigned = Ok s0" "sign_origin byte_keys s0 (1, True) = Ok s1"
    "sign_sponsor byte_keys s1 (2, False) = Ok s"
    and get: "get_tx s = Some (Some (tx_of be_tx Mainnet (Sponsored (Singlesig (key_condition byte_keys (1, True) 7 0 sig))
       (Singlesig (key_condition byte_keys (2, False) 8 9 psig))) some_call Deny some_pcs))"
    and ok: "tx_verify be_tx byte_keys (tx_of be_tx Mainnet (Sponsored (Singlesig (key_condition byte_keys (1, True) 7 0 sig))
       (Singlesig (key_condition byte_keys (2, False) 8 9 psig))) some_call Deny some_pcs) = Ok ()"
    using signs unfolding some_unsigned_def by blast
  let ?tx = "tx_of be_tx Mainnet (Sponsored (Singlesig (key_condition byte_keys (1, True) 7 0 sig))
       (Singlesig (key_condition byte_keys (2, False) 8 9 psig))) some_call Deny some_pcs"
  have run: "signer_run byte_keys s0 [SignOrigin (1, True), SignSponsor (2, False)] = Ok s" using steps by simp
  have "signer_new be_tx byte_keys some_unsigned = Ok s0 \<Longrightarrow> ts_tx s0 = some_unsigned" by (auto simp: signer_new_def obind_Ok_iff)
  then have s0: "ts_tx s0 = some_unsigned" using steps(1) by blast
  have "auth_wf 900 (tx_auth (ts_tx s0))" using byte_key_facts(3) by (simp add: s0 some_unsigned_def)
  from signer_run_wf [OF byte_keys_ok this run] have "auth_wf 902 (tx_auth (ts_tx s))" by simp
  moreover have "ts_tx s = ?tx" using get by (auto simp: get_tx_def split: if_splits)
  ultimately have wf: "tx_wf be_tx 1000 ?tx" using some_call_wf_1000 some_call_wf(3) by (simp add: tx_wf_def tx_of_def)
  then have "length sig = 65" "length psig = 65" by (simp_all add: tx_wf_def tx_of_def key_condition_def)
  note small = some_small [OF this]
  show ?thesis using steps(1) run get ok wf small by (intro exI [where x = s0] exI [where x = s] exI [where x = ?tx]) simp
qed

lemma some_unsigned_blank: "blank_auth (tx_auth some_unsigned)"
  by (simp add: some_unsigned_def blank_auth_def)

lemma some_unsigned_fits: "\<forall>op \<in> set [SignOrigin (1, True), SignSponsor (2, False)]. op_fits byte_keys (tx_auth some_unsigned) op"
  using byte_key_facts(2) by (simp add: some_unsigned_def)

theorem signed_run_verifies_witness:
  "\<exists>s0 s tx. signer_new be_tx byte_keys some_unsigned = Ok s0 \<and>
     signer_run byte_keys s0 [SignOrigin (1, True), SignSponsor (2, False)] = Ok s \<and> get_tx s = Some (Some tx) \<and>
     tx_verify be_tx byte_keys tx = Ok ()"
proof -
  obtain s0 s tx where run: "signer_new be_tx byte_keys some_unsigned = Ok s0"
     "signer_run byte_keys s0 [SignOrigin (1, True), SignSponsor (2, False)] = Ok s" "get_tx s = Some (Some tx)"
    using some_run by blast
  have "tx_verify be_tx byte_keys tx = Ok ()"
    using signed_run_verifies [OF byte_keys_ok some_unsigned_blank run(1) some_unsigned_fits run(2,3)] byte_key_facts(1)
    by (simp add: some_unsigned_def)
  then show ?thesis using run by blast
qed

theorem signed_tx_verifies_witness:
  "\<exists>tx. serialize_sign_tx be_tx byte_keys Testnet some_call (1, True) (Some (2, True)) 7 (Some 8) 9 Allow some_pcs = Ok tx \<and>
    tx_verify be_tx byte_keys tx = Ok () \<and> tx_get_sponsor_nonce tx = Some 8"
  using signed_tx_verifies [OF be_tx_ok byte_keys_ok byte_keys_sign [of "(1, True)"] _ some_call_wf_1000 some_call_wf(3),
      of "Some (2, True)" Testnet 7 "Some 8" 9 Allow] byte_keys_sign by auto

theorem transaction_roundtrip_witness:
  "\<exists>tx b. tx_verify be_tx byte_keys tx = Ok () \<and> tx_serialize be_tx byte_keys tx = Ok b \<and>
     tx_deserialize_with_len be_tx byte_keys (b @ [1, 2]) = Ok ((tx, word_of_nat (length b)), [1, 2])"
proof -
  obtain tx where tx: "tx_verify be_tx byte_keys tx = Ok ()" "tx_wf be_tx 1000 tx"
    and small: "\<forall>b. tx_serialize be_tx byte_keys tx = Ok b \<longrightarrow> length b \<le> unat MAX_TRANSACTION_LEN"
    using some_run by blast
  show ?thesis
    using transaction_roundtrip [OF be_tx_ok byte_keys_ok tx(2)] tx_verified_reads [OF byte_keys_ok tx(1)] tx(1) small by fastforce
qed

theorem verified_survives_wire_witness:
  "\<exists>tx b. tx_verify be_tx byte_keys tx = Ok () \<and> tx_serialize be_tx byte_keys tx = Ok b \<and> tx_deserialize be_tx byte_keys b = Ok (tx, [])"
proof -
  obtain tx where tx: "tx_verify be_tx byte_keys tx = Ok ()" "tx_wf be_tx 1000 tx"
    and small: "\<forall>b. tx_serialize be_tx byte_keys tx = Ok b \<longrightarrow> length b \<le> unat MAX_TRANSACTION_LEN"
    using some_run by blast
  show ?thesis using verified_survives_wire [OF be_tx_ok byte_keys_ok tx(2,1)] tx(1) small by blast
qed

theorem signer_keeps_types_witness:
  "\<exists>s0 s b. signer_new be_tx byte_keys some_unsigned = Ok s0 \<and>
     signer_run byte_keys s0 [SignOrigin (1, True), SignSponsor (2, False)] = Ok s \<and> tx_serialize be_tx byte_keys (ts_tx s) = Ok b"
proof -
  obtain s0 s where run: "signer_new be_tx byte_keys some_unsigned = Ok s0"
     "signer_run byte_keys s0 [SignOrigin (1, True), SignSponsor (2, False)] = Ok s"
    using some_run by blast
  have "ts_tx s0 = some_unsigned" using run(1) by (auto simp: signer_new_def obind_Ok_iff)
  then have "tx_wf be_tx 998 (ts_tx s0)"
    using byte_key_facts(3) payload_wf_mono [of be_tx 900 some_call 998] some_call_wf
    by (simp add: some_unsigned_def tx_wf_def tx_of_def)
  then show ?thesis
    using signer_keeps_types [of be_tx 998 "[SignOrigin (1, True), SignSponsor (2, False)]" byte_keys s0 s] be_tx_ok byte_keys_ok run by auto
qed

lemma tx_auth_eq: "tx\<lparr>tx_auth := a\<rparr> = tx\<lparr>tx_auth := b\<rparr> \<longleftrightarrow> a = b"
  by (cases tx) simp

text \<open>Another sponsor takes over the transaction that the second one had signed.\<close>

theorem sponsor_handoff_witness:
  "\<exists>tx c d h s s'. tx_auth tx = Sponsored c d \<and> tx_verify_origin be_tx byte_keys tx = Ok h \<and>
     signer_new_sponsor be_tx byte_keys tx (Singlesig (key_condition byte_keys (3, True) 4 5 SIG_EMPTY)) = Ok s \<and>
     sign_sponsor byte_keys s (3, True) = Ok s' \<and> tx_verify be_tx byte_keys (ts_tx s') = Ok ()"
proof -
  let ?d = "Singlesig (key_condition byte_keys (3, True) 4 5 SIG_EMPTY)"
  obtain tx c d where tx: "tx_verify be_tx byte_keys tx = Ok ()" "tx_auth tx = Sponsored c d" using some_run by blast
  obtain h where h: "tx_verify_origin be_tx byte_keys tx = Ok h"
    using tx(1) by (auto simp: tx_verify_def auth_verify_def tx_verify_origin_def obind_Ok_iff)
  have "blank ?d" "\<forall>k. SignSponsor k \<in> set [SignSponsor (3, True)] \<longrightarrow> encoding_fits byte_keys ?d k"
    using byte_key_facts(2) by simp_all
  from sponsor_handoff [OF byte_keys_ok tx(2) h this] obtain s where
    s: "signer_new_sponsor be_tx byte_keys tx ?d = Ok s" "ts_sighash s = h"
    and after: "\<And>s'. signer_run byte_keys s [SignSponsor (3, True)] = Ok s' \<Longrightarrow>
       \<exists>d'. ts_tx s' = tx\<lparr>tx_auth := Sponsored c d'\<rparr> \<and> (fully_signed d' = Some True \<longrightarrow>
         (tx_verify be_tx byte_keys (ts_tx s') = Ok () \<longleftrightarrow> keys_match byte_keys ?d (sponsor_keys byte_keys [SignSponsor (3, True)])))"
    by blast
  obtain sig nxt where sig: "sign_and_append byte_keys ?d h AuthSponsored (3, True) =
      Ok (Singlesig (key_condition byte_keys (3, True) 4 5 sig), nxt)" "sig \<noteq> SIG_EMPTY"
    using key_condition_signs [OF byte_keys_ok byte_keys_sign] by blast
  have st: "ts_tx s = tx\<lparr>tx_auth := Sponsored c ?d\<rparr>"
    using s(1) tx(2) by (auto simp: signer_new_sponsor_def obind_Ok_iff Let_def)
  let ?s = "s\<lparr>ts_tx := tx\<lparr>tx_auth := Sponsored c (Singlesig (key_condition byte_keys (3, True) 4 5 sig))\<rparr>, ts_sighash := nxt, ts_origin_done := True\<rparr>"
  have ss: "sign_sponsor byte_keys s (3, True) = Ok ?s"
    using sig st s(2) by (simp add: sign_sponsor_def sign_next_sponsor_def fully_signed_def)
  have "tx_verify be_tx byte_keys (ts_tx ?s) = Ok ()"
    using after [of ?s] ss sig(2) byte_key_facts(1) [of "(3, True)" 4 5 SIG_EMPTY]
    by (auto simp: fully_signed_def tx_auth_eq)
  then show ?thesis using tx(2) h s(1) ss by blast
qed

end
