(* ===== verification/Kv_Store.thy ===== *)
theory Kv_Store
  imports Btree_Map
begin

text \<open>
  The database of a page's virtual machine (\<open>src/vm/storage/db.rs\<close>, \<open>util.rs\<close>, \<open>headers.rs\<close> and the
  queries of \<open>src/util/sqlite.rs\<close>): a table of versioned keys, whose rows say at which height of which block
  a key got which hash, and the store of the Clarity crate with the values of the hashes. Blocks
  are visits of the page. A store is opened to read at a block or to write the next one.

  A table is the list of its rows. SQLite keeps its integers as signed, so heights are \<open>int\<close> and
  converted as in the sources. A \<open>SELECT\<close> without \<open>ORDER BY\<close> gives the rows in the order of the
  table. A file that exists has the tables, and statements are taken to succeed but for violations
  of the primary key.
\<close>

type_synonym StacksBlockId = bytes  \<comment> \<open>32 bytes\<close>

section \<open>Errors\<close>

datatype DbError =
    DbNotImplemented | DbNoDBError | DbReadOnly | DbTypeError | DbCorruption | DbSerializationError string | DbParseError
  | DbOverflow | DbNotFoundError | DbExistsError | DbSqliteError string | DbIOError string | DbOldSchema u64
  | DbTooOldForEpoch | DbOther string

datatype KvError = KvUnknownBlockHeaderHash bytes | KvDBError DbError | KvInitializationFailure | KvClarity string

text \<open>The errors of the Clarity crate that a store gives.\<close>

datatype ClarityError = RuntimeUnknownBlockHeaderHash StacksBlockId | InterpreterExpect string

section \<open>Rows and queries\<close>

record kv_row =
  kv_chain_tip :: StacksBlockId
  kv_height :: int
  kv_key :: string
  kv_data_hash :: string

definition u64_from_row :: "int \<Rightarrow> (DbError, u64) outcome" where
  "u64_from_row x = (if x < 0 then Err DbParseError else Ok (word_of_int x))"

definition u64_to_sql :: "u64 \<Rightarrow> (DbError, int) outcome" where
  "u64_to_sql x = (if x > 0x7FFFFFFFFFFFFFFF then Err DbParseError else Ok (uint x))"

definition query_row :: "('r \<Rightarrow> (DbError, 'a) outcome) \<Rightarrow> 'r list \<Rightarrow> (DbError, 'a option) outcome" where
  "query_row from_row rows = (case rows of [] \<Rightarrow> Ok None | r # _ \<Rightarrow> obind (from_row r) (\<lambda>x. Ok (Some x)))"

text \<open>\<open>ORDER BY height DESC\<close>, and the number that orders block hashes as their texts do.\<close>

definition by_height :: "kv_row list \<Rightarrow> kv_row list" where
  "by_height rows = sort_key (\<lambda>r. - kv_height r) rows"

definition id_number :: "StacksBlockId \<Rightarrow> nat" where
  "id_number b = foldl (\<lambda>a x. a * 256 + unat x) 0 b"

definition BOOT_BLOCK_ID :: StacksBlockId where "BOOT_BLOCK_ID = replicate 32 0xFF"
definition GENESIS_BLOCK_ID :: StacksBlockId where "GENESIS_BLOCK_ID = replicate 32 0"

definition tipless_get_block_height_of :: "kv_row list \<Rightarrow> StacksBlockId \<Rightarrow> (KvError, u64 option) outcome" where
  "tipless_get_block_height_of conn bhh =
     (if bhh = BOOT_BLOCK_ID then Ok (Some 0)
      else
        obind (map_err KvDBError (query_row (\<lambda>r. u64_from_row (kv_height r)) [r \<leftarrow> conn. kv_chain_tip r = bhh])) (\<lambda>tip_opt.
        case tip_opt of
          Some tip_height \<Rightarrow> if bhh \<noteq> GENESIS_BLOCK_ID \<and> \<not> tip_height > 0 then Panic else Ok tip_opt
        | None \<Rightarrow> Ok tip_opt))"

definition check_block_hash :: "kv_row list \<Rightarrow> u64 \<Rightarrow> StacksBlockId \<Rightarrow> (KvError, bool) outcome" where
  "check_block_hash conn tip_height bhh =
     obind (map_err KvDBError (u64_to_sql tip_height)) (\<lambda>h.
     obind (map_err KvDBError (query_row (\<lambda>r. Ok ()) [r \<leftarrow> conn. kv_chain_tip r = bhh \<and> kv_height r \<le> h])) (\<lambda>row.
     Ok (row \<noteq> None)))"

definition get_block_height_of :: "kv_row list \<Rightarrow> u64 \<Rightarrow> StacksBlockId \<Rightarrow> (KvError, u64 option) outcome" where
  "get_block_height_of conn tip_height bhh =
     obind (map_err KvDBError (u64_to_sql tip_height)) (\<lambda>h.
     map_err KvDBError (query_row (\<lambda>r. u64_from_row (kv_height r)) [r \<leftarrow> conn. kv_chain_tip r = bhh \<and> kv_height r \<le> h]))"

definition get_block_at_height :: "kv_row list \<Rightarrow> u64 \<Rightarrow> u64 \<Rightarrow> (KvError, StacksBlockId option) outcome" where
  "get_block_at_height conn tip_height height =
     (if tip_height < height then Ok None
      else
        obind (map_err KvDBError (u64_to_sql height)) (\<lambda>h.
        map_err KvDBError (query_row (\<lambda>r. Ok (kv_chain_tip r)) [r \<leftarrow> conn. kv_height r = h])))"

definition get_hash :: "kv_row list \<Rightarrow> u64 \<Rightarrow> string \<Rightarrow> (KvError, string option) outcome" where
  "get_hash conn tip_height key =
     obind (map_err KvDBError (u64_to_sql tip_height)) (\<lambda>h.
     map_err KvDBError (query_row (\<lambda>r. Ok (kv_data_hash r)) (by_height [r \<leftarrow> conn. kv_key r = key \<and> kv_height r \<le> h])))"

definition tipless_get_highest_tip_height :: "kv_row list \<Rightarrow> (KvError, u64) outcome" where
  "tipless_get_highest_tip_height conn =
     obind (map_err KvDBError (query_row u64_from_row [if conn = [] then 0 else Max (kv_height ` set conn)])) (\<lambda>height_opt.
     Ok (case height_opt of Some h \<Rightarrow> h | None \<Rightarrow> 0))"

text \<open>The functions of \<open>util.rs\<close>. An error of a query is a panic there.\<close>

definition make_wrb_chain_tip :: "u64 \<Rightarrow> StacksBlockId" where
  "make_wrb_chain_tip cur_height = to_be_bytes 8 cur_height @ replicate 24 0"

definition get_wrb_chain_tip :: "kv_row list \<Rightarrow> StacksBlockId" where
  "get_wrb_chain_tip conn =
     (case [b \<leftarrow> take 1 (map kv_chain_tip (by_height (sort_key (\<lambda>r. id_number (kv_chain_tip r)) conn))). b \<noteq> BOOT_BLOCK_ID] of
        [] \<Rightarrow> BOOT_BLOCK_ID
      | bhh # _ \<Rightarrow> bhh)"

definition get_wrb_block_height :: "kv_row list \<Rightarrow> StacksBlockId \<Rightarrow> u64 option option" where
  "get_wrb_block_height conn block_id =
     (case [r \<leftarrow> conn. kv_chain_tip r = block_id] of
        [] \<Rightarrow> Some None
      | r # _ \<Rightarrow> (case u64_from_row (kv_height r) of Ok h \<Rightarrow> Some (Some h) | _ \<Rightarrow> None))"

text \<open>\<open>REPLACE INTO kvstore\<close>, and \<open>UPDATE kvstore SET chain_tip\<close>, which fails on rows with one primary key.\<close>

definition same_key :: "kv_row \<Rightarrow> kv_row \<Rightarrow> bool" where
  "same_key r r' \<longleftrightarrow> kv_chain_tip r = kv_chain_tip r' \<and> kv_height r = kv_height r' \<and> kv_key r = kv_key r'"

definition replace_into :: "kv_row \<Rightarrow> kv_row list \<Rightarrow> kv_row list" where
  "replace_into r conn = [r' \<leftarrow> conn. \<not> same_key r r'] @ [r]"

definition rename_tip :: "StacksBlockId \<Rightarrow> StacksBlockId \<Rightarrow> kv_row list \<Rightarrow> (DbError, kv_row list) outcome" where
  "rename_tip final_bhh target_tip conn =
     (if final_bhh \<noteq> target_tip \<and> (\<exists>r \<in> set conn. \<exists>r' \<in> set conn. kv_chain_tip r = target_tip \<and>
            same_key (r\<lparr>kv_chain_tip := final_bhh\<rparr>) r')
      then Err (DbSqliteError ''UNIQUE constraint failed'')
      else Ok (map (\<lambda>r. if kv_chain_tip r = target_tip then r\<lparr>kv_chain_tip := final_bhh\<rparr> else r) conn))"

section \<open>The store of values\<close>

text \<open>
  What the sources use of \<open>SqliteConnection\<close> of the Clarity crate, over its tables \<open>'s\<close>, and the
  hash of a value as text. \<open>sd_fresh\<close> stands for a new file.
\<close>

record 's side_db =
  sd_fresh :: 's
  sd_check_schema :: "'s \<Rightarrow> bool"
  sd_initialize :: "'s \<Rightarrow> 's option"
  sd_put :: "'s \<Rightarrow> string \<Rightarrow> string \<Rightarrow> (string, 's) outcome"
  sd_get :: "'s \<Rightarrow> string \<Rightarrow> (string, string option) outcome"
  sd_commit_metadata :: "'s \<Rightarrow> StacksBlockId \<Rightarrow> StacksBlockId \<Rightarrow> (string, 's) outcome"
  sd_sha_hex :: "string \<Rightarrow> string"

record 's kv_data =
  da_rows :: "kv_row list"
  da_side :: 's

section \<open>The buffer of writes\<close>

record WriteBuffer =
  wb_pending_hashes :: "(string \<times> string) list"
  wb_pending_data :: "string \<rightharpoonup> string"
  wb_pending_index :: "string \<rightharpoonup> usize"

definition write_buffer_new :: WriteBuffer where
  "write_buffer_new = \<lparr>wb_pending_hashes = [], wb_pending_data = Map.empty, wb_pending_index = Map.empty\<rparr>"

definition wb_get :: "WriteBuffer \<Rightarrow> string \<Rightarrow> string option option" where
  "wb_get wb key =
     (case wb_pending_index wb key of
        Some i \<Rightarrow> map_option (\<lambda>(_, hash). wb_pending_data wb hash) (idx (wb_pending_hashes wb) i)
      | None \<Rightarrow> Some None)"

definition wb_put :: "'s side_db \<Rightarrow> WriteBuffer \<Rightarrow> string \<Rightarrow> string \<Rightarrow> WriteBuffer" where
  "wb_put D wb key v =
     (let hash_hex = sd_sha_hex D v;
          pending_hashes = wb_pending_hashes wb @ [(key, hash_hex)] in
      \<lparr>wb_pending_hashes = pending_hashes, wb_pending_data = (wb_pending_data wb)(hash_hex \<mapsto> v),
       wb_pending_index = (wb_pending_index wb)(key \<mapsto> length pending_hashes)\<rparr>)"

definition wb_from_kv :: "'s side_db \<Rightarrow> (string \<times> string) list \<Rightarrow> WriteBuffer" where
  "wb_from_kv D keys = foldl (\<lambda>wb (k, v). wb_put D wb k v) write_buffer_new keys"

definition checked_inc :: "u64 \<Rightarrow> u64 option" where
  "checked_inc x = (if x = - 1 then None else Some (x + 1))"

text \<open>The loop of \<open>dump\<close> over the pending hashes.\<close>

fun wb_dump_rows ::
  "'s side_db \<Rightarrow> (string \<rightharpoonup> string) \<Rightarrow> StacksBlockId \<Rightarrow> StacksBlockId \<Rightarrow> u64 \<Rightarrow> (string \<times> string) list \<Rightarrow> 's kv_data \<Rightarrow>
     (KvError, 's kv_data) outcome" where
  "wb_dump_rows D pending_data cur_tip next_tip next_height [] conn = Ok conn"
| "wb_dump_rows D pending_data cur_tip next_tip next_height ((key, value_hash) # pending) conn =
     (let (target_tip, target_height) =
        (if cur_tip = BOOT_BLOCK_ID then (cur_tip, next_height - 1) else (next_tip, next_height)) in
      obind (map_err KvDBError (u64_to_sql target_height)) (\<lambda>height.
      let conn = conn\<lparr>da_rows := replace_into \<lparr>kv_chain_tip = target_tip, kv_height = height, kv_key = key, kv_data_hash = value_hash\<rparr>
            (da_rows conn)\<rparr> in
      obind (from_opt (pending_data value_hash)) (\<lambda>v.
      obind (map_err KvClarity (sd_put D (da_side conn) value_hash v)) (\<lambda>side.
      wb_dump_rows D pending_data cur_tip next_tip next_height pending (conn\<lparr>da_side := side\<rparr>)))))"

definition wb_dump ::
  "'s side_db \<Rightarrow> WriteBuffer \<Rightarrow> 's kv_data \<Rightarrow> StacksBlockId \<Rightarrow> StacksBlockId \<Rightarrow> (KvError, 's kv_data \<times> WriteBuffer) outcome" where
  "wb_dump D wb conn cur_tip next_tip =
     obind (from_opt (get_wrb_block_height (da_rows conn) cur_tip)) (\<lambda>height_opt.
     obind (from_opt (case height_opt of Some height \<Rightarrow> checked_inc height | None \<Rightarrow> Some 1)) (\<lambda>next_height.
     obind (wb_dump_rows D (wb_pending_data wb) cur_tip next_tip next_height (wb_pending_hashes wb) conn) (\<lambda>conn.
     Ok (conn, write_buffer_new))))"

section \<open>The database\<close>

record 's WrbDB =
  wd_db_path :: string
  wd_domain :: string
  wd_chain_tip :: StacksBlockId
  wd_conn :: "'s kv_data"
  wd_created :: bool

record 's WritableWrbStore =
  ws_chain_tip :: StacksBlockId
  ws_tip_height :: u64
  ws_next_tip :: StacksBlockId
  ws_tx :: "'s kv_data"
  ws_write_buf :: WriteBuffer

record 's ReadOnlyWrbStore =
  ro_chain_tip :: StacksBlockId
  ro_tip_height :: u64
  ro_conn :: "'s kv_data"

text \<open>The file at the path of a domain is given, or there is none.\<close>

definition setup_db :: "'s side_db \<Rightarrow> 's kv_data option \<Rightarrow> (KvError, 's kv_data \<times> bool) outcome" where
  "setup_db D file =
     (let (create, conn) = (case file of Some conn \<Rightarrow> (False, conn) | None \<Rightarrow> (True, \<lparr>da_rows = [], da_side = sd_fresh D\<rparr>)) in
      if sd_check_schema D (da_side conn) then Ok (conn, False)
      else if \<not> create then Ok (conn, False)
      else
        obind (ok_or (sd_initialize D (da_side conn)) KvInitializationFailure) (\<lambda>side.
        Ok (\<lparr>da_rows = replace_into \<lparr>kv_chain_tip = BOOT_BLOCK_ID, kv_height = 0, kv_key = ''genesis'',
                kv_data_hash = to_hex BOOT_BLOCK_ID\<rparr> (da_rows conn), da_side = side\<rparr>, True)))"

definition wrb_db_open ::
  "'s side_db \<Rightarrow> 's kv_data option \<Rightarrow> string \<Rightarrow> string \<Rightarrow> StacksBlockId option \<Rightarrow> (KvError, 's WrbDB) outcome" where
  "wrb_db_open D file path_str domain chain_tip =
     obind (setup_db D file) (\<lambda>(conn, created).
     obind (case chain_tip of
         Some tip \<Rightarrow> Ok tip
       | None \<Rightarrow>
           obind (tipless_get_highest_tip_height (da_rows conn)) (\<lambda>height.
           obind (get_block_at_height (da_rows conn) height height) (\<lambda>bhh_opt.
           Ok (case bhh_opt of Some bhh \<Rightarrow> bhh | None \<Rightarrow> BOOT_BLOCK_ID)))) (\<lambda>chain_tip.
     Ok \<lparr>wd_db_path = path_str, wd_domain = domain, wd_chain_tip = chain_tip, wd_conn = conn, wd_created = created\<rparr>))"

definition wrb_db_begin_read_only :: "'s WrbDB \<Rightarrow> StacksBlockId option \<Rightarrow> 's ReadOnlyWrbStore option" where
  "wrb_db_begin_read_only db at_block =
     (let chain_tip = (case at_block of Some b \<Rightarrow> b | None \<Rightarrow> wd_chain_tip db) in
      case tipless_get_block_height_of (da_rows (wd_conn db)) chain_tip of
        Ok (Some tip_height) \<Rightarrow> Some \<lparr>ro_chain_tip = chain_tip, ro_tip_height = tip_height, ro_conn = wd_conn db\<rparr>
      | _ \<Rightarrow> None)"

definition wrb_db_begin :: "'s WrbDB \<Rightarrow> StacksBlockId \<Rightarrow> StacksBlockId \<Rightarrow> 's WritableWrbStore option" where
  "wrb_db_begin db current next_id =
     (case tipless_get_block_height_of (da_rows (wd_conn db)) current of
        Ok (Some tip_height) \<Rightarrow>
          map_option (\<lambda>current_tip_height.
              \<lparr>ws_chain_tip = current, ws_tip_height = current_tip_height, ws_next_tip = next_id, ws_tx = wd_conn db,
               ws_write_buf = write_buffer_new\<rparr>)
            (if current = BOOT_BLOCK_ID then Some 0
             else
               (case get_block_height_of (da_rows (wd_conn db)) tip_height current of
                  Ok (Some height) \<Rightarrow> checked_inc height
                | _ \<Rightarrow> None))
      | _ \<Rightarrow> None)"

definition set_chain_tip :: "'s WrbDB \<Rightarrow> StacksBlockId \<Rightarrow> 's WrbDB" where
  "set_chain_tip db bhh = db\<lparr>wd_chain_tip := bhh\<rparr>"

section \<open>Stores\<close>

text \<open>Both stores answer by the same queries, at their block and its height.\<close>

definition new_tip_height :: "kv_row list \<Rightarrow> u64 \<Rightarrow> StacksBlockId \<Rightarrow> (ClarityError, u64) outcome" where
  "new_tip_height conn tip_height bhh =
     (case check_block_hash conn tip_height bhh of
        Ok True \<Rightarrow>
          (case tipless_get_block_height_of conn bhh of
             Ok height_opt \<Rightarrow> ok_or height_opt (RuntimeUnknownBlockHeaderHash bhh)
           | _ \<Rightarrow> Panic)
      | Ok False \<Rightarrow> Err (RuntimeUnknownBlockHeaderHash bhh)
      | _ \<Rightarrow> Panic)"

definition u32_from_u64 :: "u64 \<Rightarrow> u32 option" where
  "u32_from_u64 x = (if x \<le> 0xFFFFFFFF then Some (ucast x) else None)"

definition current_block_height :: "kv_row list \<Rightarrow> u64 \<Rightarrow> StacksBlockId \<Rightarrow> u32 option" where
  "current_block_height conn tip_height chain_tip =
     (case get_block_height_of conn tip_height chain_tip of
        Ok (Some x) \<Rightarrow> u32_from_u64 x
      | Ok None \<Rightarrow> if chain_tip = BOOT_BLOCK_ID then Some 0 else None
      | _ \<Rightarrow> None)"

definition stored_data :: "'s side_db \<Rightarrow> 's kv_data \<Rightarrow> u64 \<Rightarrow> string \<Rightarrow> (ClarityError, string option) outcome" where
  "stored_data D conn tip_height key =
     obind (map_err (\<lambda>_. InterpreterExpect ''failed to get hash'') (get_hash (da_rows conn) tip_height key)) (\<lambda>hash_opt.
     case hash_opt of
       None \<Rightarrow> Ok None
     | Some hash \<Rightarrow> (case sd_get D (da_side conn) hash of Ok v \<Rightarrow> Ok v | _ \<Rightarrow> Panic))"

definition ro_set_block_hash :: "'s ReadOnlyWrbStore \<Rightarrow> StacksBlockId \<Rightarrow> (ClarityError, StacksBlockId \<times> 's ReadOnlyWrbStore) outcome" where
  "ro_set_block_hash s bhh =
     obind (new_tip_height (da_rows (ro_conn s)) (ro_tip_height s) bhh) (\<lambda>height.
     Ok (ro_chain_tip s, s\<lparr>ro_chain_tip := bhh, ro_tip_height := height\<rparr>))"

definition ro_get_current_block_height :: "'s ReadOnlyWrbStore \<Rightarrow> u32 option" where
  "ro_get_current_block_height s = current_block_height (da_rows (ro_conn s)) (ro_tip_height s) (ro_chain_tip s)"

definition ro_get_block_at_height :: "'s ReadOnlyWrbStore \<Rightarrow> u32 \<Rightarrow> StacksBlockId option option" where
  "ro_get_block_at_height s block_height =
     (case get_block_at_height (da_rows (ro_conn s)) (ro_tip_height s) (ucast block_height) of Ok bhh \<Rightarrow> Some bhh | _ \<Rightarrow> None)"

definition ro_get_open_chain_tip :: "'s ReadOnlyWrbStore \<Rightarrow> StacksBlockId" where
  "ro_get_open_chain_tip s = ro_chain_tip s"

definition ro_get_open_chain_tip_height :: "'s ReadOnlyWrbStore \<Rightarrow> u32 option" where
  "ro_get_open_chain_tip_height s = u32_from_u64 (ro_tip_height s)"

definition ro_get_data :: "'s side_db \<Rightarrow> 's ReadOnlyWrbStore \<Rightarrow> string \<Rightarrow> (ClarityError, string option) outcome" where
  "ro_get_data D s key = stored_data D (ro_conn s) (ro_tip_height s) key"

text \<open>Writing to a store that was opened to read is a panic.\<close>

definition ro_put_all_data :: "'s ReadOnlyWrbStore \<Rightarrow> (string \<times> string) list \<Rightarrow> (ClarityError, 's ReadOnlyWrbStore) outcome" where
  "ro_put_all_data s items = Panic"

definition ws_set_block_hash :: "'s WritableWrbStore \<Rightarrow> StacksBlockId \<Rightarrow> (ClarityError, StacksBlockId \<times> 's WritableWrbStore) outcome" where
  "ws_set_block_hash s bhh =
     obind (new_tip_height (da_rows (ws_tx s)) (ws_tip_height s) bhh) (\<lambda>height.
     Ok (ws_chain_tip s, s\<lparr>ws_chain_tip := bhh, ws_tip_height := height\<rparr>))"

definition ws_get_data :: "'s side_db \<Rightarrow> 's WritableWrbStore \<Rightarrow> string \<Rightarrow> (ClarityError, string option) outcome" where
  "ws_get_data D s key =
     obind (from_opt (wb_get (ws_write_buf s) key)) (\<lambda>buffered.
     case buffered of
       Some v \<Rightarrow> Ok (Some v)
     | None \<Rightarrow> stored_data D (ws_tx s) (ws_tip_height s) key)"

definition ws_get_block_at_height :: "'s WritableWrbStore \<Rightarrow> u32 \<Rightarrow> StacksBlockId option option" where
  "ws_get_block_at_height s block_height =
     (case get_block_at_height (da_rows (ws_tx s)) (ws_tip_height s) (ucast block_height) of Ok bhh \<Rightarrow> Some bhh | _ \<Rightarrow> None)"

definition ws_get_open_chain_tip :: "'s WritableWrbStore \<Rightarrow> StacksBlockId" where
  "ws_get_open_chain_tip s = (if ws_chain_tip s = BOOT_BLOCK_ID then ws_chain_tip s else ws_next_tip s)"

definition ws_get_open_chain_tip_height :: "'s WritableWrbStore \<Rightarrow> u32 option" where
  "ws_get_open_chain_tip_height s = u32_from_u64 (ws_tip_height s)"

definition ws_get_current_block_height :: "'s WritableWrbStore \<Rightarrow> u32 option" where
  "ws_get_current_block_height s = current_block_height (da_rows (ws_tx s)) (ws_tip_height s) (ws_chain_tip s)"

definition ws_put_all_data ::
  "'s side_db \<Rightarrow> 's WritableWrbStore \<Rightarrow> (string \<times> string) list \<Rightarrow> (ClarityError, 's WritableWrbStore) outcome" where
  "ws_put_all_data D s items =
     (let write_buf = foldl (\<lambda>wb (key, v). wb_put D wb key v) (ws_write_buf s) items in
      case wb_dump D write_buf (ws_tx s) (ws_chain_tip s) (ws_next_tip s) of
        Ok (tx, write_buf) \<Rightarrow> Ok (s\<lparr>ws_tx := tx, ws_write_buf := write_buf\<rparr>)
      | _ \<Rightarrow> Panic)"

text \<open>
  Committing gives the new contents of the file; a store that is dropped or fails to commit
  leaves the file as it was.
\<close>

definition ws_commit_to :: "'s side_db \<Rightarrow> 's WritableWrbStore \<Rightarrow> StacksBlockId \<Rightarrow> (KvError, 's kv_data) outcome" where
  "ws_commit_to D s final_bhh =
     (let target_tip = (if ws_chain_tip s = BOOT_BLOCK_ID then ws_chain_tip s else ws_next_tip s) in
      obind (map_err KvClarity (sd_commit_metadata D (da_side (ws_tx s)) target_tip final_bhh)) (\<lambda>side.
      obind (wb_dump D (ws_write_buf s) ((ws_tx s)\<lparr>da_side := side\<rparr>) target_tip final_bhh) (\<lambda>(tx, _).
      obind (map_err KvDBError (rename_tip final_bhh target_tip (da_rows tx))) (\<lambda>rows.
      Ok (tx\<lparr>da_rows := rows\<rparr>)))))"

definition ws_commit :: "'s side_db \<Rightarrow> 's WritableWrbStore \<Rightarrow> (KvError, 's kv_data) outcome" where
  "ws_commit D s = ws_commit_to D s (ws_next_tip s)"

section \<open>Headers\<close>

text \<open>
  What the virtual machine asks of blocks: mocked from the height of the block. An unknown block
  has no headers.
\<close>

definition height_bytes :: "nat \<Rightarrow> u64 \<Rightarrow> bytes" where
  "height_bytes n height = to_be_bytes 8 height @ replicate (n - 8) 0"

definition get_burn_header_hash_for_block :: "kv_row list \<Rightarrow> StacksBlockId \<Rightarrow> bytes option option" where
  "get_burn_header_hash_for_block conn id_bhh = map_option (map_option (height_bytes 32)) (get_wrb_block_height conn id_bhh)"

definition get_consensus_hash_for_block :: "kv_row list \<Rightarrow> StacksBlockId \<Rightarrow> bytes option option" where
  "get_consensus_hash_for_block conn id_bhh = map_option (map_option (height_bytes 20)) (get_wrb_block_height conn id_bhh)"

definition get_vrf_seed_for_block :: "kv_row list \<Rightarrow> StacksBlockId \<Rightarrow> bytes option option" where
  "get_vrf_seed_for_block conn id_bhh = map_option (map_option (height_bytes 32)) (get_wrb_block_height conn id_bhh)"

definition get_stacks_block_header_hash_for_block :: "kv_row list \<Rightarrow> StacksBlockId \<Rightarrow> bytes option option" where
  "get_stacks_block_header_hash_for_block conn id_bhh =
     map_option (map_option (height_bytes 32)) (get_wrb_block_height conn id_bhh)"

definition get_burn_block_time_for_block :: "kv_row list \<Rightarrow> StacksBlockId \<Rightarrow> u64 option option" where
  "get_burn_block_time_for_block conn id_bhh = get_wrb_block_height conn id_bhh"

definition get_stacks_block_time_for_block :: "kv_row list \<Rightarrow> StacksBlockId \<Rightarrow> u64 option option" where
  "get_stacks_block_time_for_block conn id_bhh = get_wrb_block_height conn id_bhh"

definition get_stacks_height_for_tenure_height :: "StacksBlockId \<Rightarrow> u32 \<Rightarrow> u32 option" where
  "get_stacks_height_for_tenure_height id_bhh tenure_height = Some tenure_height"

definition get_burn_block_height_for_block :: "kv_row list \<Rightarrow> StacksBlockId \<Rightarrow> u32 option option" where
  "get_burn_block_height_for_block conn id_bhh = map_option (map_option ucast) (get_wrb_block_height conn id_bhh)"

definition get_miner_address :: "StacksBlockId \<Rightarrow> bytes option" where
  "get_miner_address id_bhh = None"

text \<open>Tokens spent and earned: a constant for every known block.\<close>

definition get_burnchain_tokens_spent_for_block :: "kv_row list \<Rightarrow> StacksBlockId \<Rightarrow> u128 option option" where
  "get_burnchain_tokens_spent_for_block conn id_bhh = map_option (map_option (\<lambda>_. 1)) (get_wrb_block_height conn id_bhh)"

definition get_burnchain_tokens_spent_for_winning_block :: "kv_row list \<Rightarrow> StacksBlockId \<Rightarrow> u128 option option" where
  "get_burnchain_tokens_spent_for_winning_block conn id_bhh = map_option (map_option (\<lambda>_. 1)) (get_wrb_block_height conn id_bhh)"

definition get_tokens_earned_for_block :: "kv_row list \<Rightarrow> StacksBlockId \<Rightarrow> u128 option option" where
  "get_tokens_earned_for_block conn id_bhh = map_option (map_option (\<lambda>_. 1)) (get_wrb_block_height conn id_bhh)"

end
