(* ===== verification/Clarity_Vm.thy ===== *)
theory Clarity_Vm
  imports Kv_Store
begin

text \<open>
  The virtual machine of a page (\<open>src/vm/clarity_vm.rs\<close>, \<open>src/vm/mod.rs\<close>): its database, its name
  and version, the visits of the page as blocks of the database, and the installation of the page.
  The interpreter, analysis and parser of the Clarity crate are a record of the operations that
  the sources call, over the types of its databases, environments, contracts and syntax trees.
\<close>

datatype VmError = VmDB KvError | VmClarity string | VmInvalidInput string | VmNotInitialized

record 's ClarityVM =
  cv_db :: "'s WrbDB"
  cv_app_name :: string
  cv_app_namespace :: string
  cv_app_version :: u32

section \<open>Names\<close>

text \<open>\<open>str::split\<close> at a character.\<close>

fun str_split :: "char \<Rightarrow> string \<Rightarrow> string list" where
  "str_split c [] = [[]]"
| "str_split c (x # xs) =
     (if x = c then [] # str_split c xs
      else (case str_split c xs of [] \<Rightarrow> [[x]] | w # ws \<Rightarrow> (x # w) # ws))"

definition split_fqn :: "string \<Rightarrow> (string, string \<times> string) outcome" where
  "split_fqn wrbsite_name =
     (case str_split CHR ''.'' wrbsite_name of
        [] \<Rightarrow> Err (''Malformed wrbsite name -- no '' @ [CHR 0x27, CHR ''.'', CHR 0x27])
      | [name] \<Rightarrow> Err ''Malformed wrbsite name -- no namespace''
      | name # namespace # _ \<Rightarrow> Ok (name, namespace))"

section \<open>The interpreter\<close>

text \<open>
  \<open>vx_clarity_db\<close> is \<open>get_clarity_db\<close> with the headers and \<open>begin\<close>, \<open>vx_open_env\<close> is
  \<open>OwnedEnvironment::new_free\<close>, \<open>vx_destruct\<close> gives back the database of an environment, and
  \<open>vx_commit\<close> and \<open>vx_roll_back\<close> the store under it. \<open>vx_contract_id\<close> is the identifier of a contract
  of the boot address.
\<close>

record ('s, 'i, 'ast, 'd, 'e, 'c) vm_env =
  vx_sha256 :: "bytes \<Rightarrow> bytes"
  vx_hash160_from_sha256 :: "bytes \<Rightarrow> bytes"
  vx_utf8 :: "string \<Rightarrow> bytes"
  vx_print_u32 :: "u32 \<Rightarrow> string"
  vx_contract_name :: "string \<Rightarrow> string option"
  vx_contract_id :: "string \<Rightarrow> 'i"
  vx_parse :: "'i \<Rightarrow> string \<Rightarrow> (string, 'ast) outcome"
  vx_analyze :: "'i \<Rightarrow> 'ast \<Rightarrow> 's WritableWrbStore \<Rightarrow> (string, 's WritableWrbStore) outcome"
  vx_clarity_db :: "kv_row list \<Rightarrow> 's WritableWrbStore \<Rightarrow> 'd"
  vx_has_contract :: "'d \<Rightarrow> 'i \<Rightarrow> bool"
  vx_roll_back :: "'d \<Rightarrow> (string, 's WritableWrbStore) outcome"
  vx_commit :: "'d \<Rightarrow> (string, 's WritableWrbStore) outcome"
  vx_open_env :: "'d \<Rightarrow> 'e"
  vx_initialize_contract :: "'e \<Rightarrow> 'i \<Rightarrow> string \<Rightarrow> (string, 'e) outcome"
  vx_get_contract :: "'e \<Rightarrow> 'i \<Rightarrow> (string, 'c \<times> 'e) outcome"
  vx_eval :: "'e \<Rightarrow> 'c \<Rightarrow> string \<Rightarrow> (string, 'e) outcome"
  vx_destruct :: "'e \<Rightarrow> 'd option"
  WRB_LL_CODE :: string
  WRB_CODE :: string

definition wrb_link_app :: "('s, 'i, 'ast, 'd, 'e, 'c) vm_env \<Rightarrow> string \<Rightarrow> string" where
  "wrb_link_app X app_code =
     WRB_CODE X @ CHR 0x0A # '';; ================= END OF WRBLIB ======================='' @ CHR 0x0A # app_code"

section \<open>Visits of a page\<close>

definition clarity_vm_new ::
  "'s side_db \<Rightarrow> 's kv_data option \<Rightarrow> string \<Rightarrow> string \<Rightarrow> u32 \<Rightarrow> (VmError, 's ClarityVM) outcome" where
  "clarity_vm_new D file db_path domain version =
     obind (map_err VmDB (wrb_db_open D file db_path domain None)) (\<lambda>wrbdb.
     obind (map_err VmInvalidInput (split_fqn domain)) (\<lambda>(name, namespace).
     Ok \<lparr>cv_db = wrbdb, cv_app_name = name, cv_app_namespace = namespace, cv_app_version = version\<rparr>))"

definition get_code_hash :: "('s, 'i, 'ast, 'd, 'e, 'c) vm_env \<Rightarrow> 's ClarityVM \<Rightarrow> bytes \<Rightarrow> bytes" where
  "get_code_hash X vm compressed_bytes =
     vx_hash160_from_sha256 X (vx_sha256 X (compressed_bytes @ to_be_bytes 4 (cv_app_version vm)))"

definition begin_page_load :: "'s ClarityVM \<Rightarrow> 's WritableWrbStore option" where
  "begin_page_load vm =
     (let conn = da_rows (wd_conn (cv_db vm));
          cur_tip = get_wrb_chain_tip conn in
      case get_wrb_block_height conn cur_tip of
        Some (Some cur_height) \<Rightarrow>
          (case checked_inc cur_height of
             Some next_height \<Rightarrow> wrb_db_begin (cv_db vm) cur_tip (make_wrb_chain_tip next_height)
           | None \<Rightarrow> None)
      | _ \<Rightarrow> None)"

definition vm_begin_read_only :: "'s ClarityVM \<Rightarrow> 's ReadOnlyWrbStore option" where
  "vm_begin_read_only vm =
     wrb_db_begin_read_only (cv_db vm) (Some (get_wrb_chain_tip (da_rows (wd_conn (cv_db vm)))))"

text \<open>The headers are read from the committed tables, through a connection of their own.\<close>

definition headers_db :: "'s ClarityVM \<Rightarrow> kv_row list" where
  "headers_db vm = da_rows (wd_conn (cv_db vm))"

section \<open>Installing a page\<close>

text \<open>
  Deploying a contract: parse, analyse, initialise in an environment, go on in the environment,
  and commit. An error of the interpreter ends the installation, and with it the transaction.
\<close>

definition deploy_contract ::
  "('s, 'i, 'ast, 'd, 'e, 'c) vm_env \<Rightarrow> kv_row list \<Rightarrow> 'i \<Rightarrow> string \<Rightarrow> ('e \<Rightarrow> (string, 'e) outcome) \<Rightarrow> 's WritableWrbStore \<Rightarrow>
     (VmError, 's WritableWrbStore) outcome" where
  "deploy_contract X headers contract_id code continue write_tx =
     map_err VmClarity
       (obind (vx_parse X contract_id code) (\<lambda>ast.
        obind (vx_analyze X contract_id ast write_tx) (\<lambda>write_tx.
        obind (vx_initialize_contract X (vx_open_env X (vx_clarity_db X headers write_tx)) contract_id code) (\<lambda>env.
        obind (continue env) (\<lambda>env.
        obind (from_opt (vx_destruct X env)) (\<lambda>db.
        vx_commit X db))))))"

text \<open>The calls of \<open>wrb-ll\<close> after it is deployed: the name of the app and the hash of its code.\<close>

definition set_app_name_code :: "('s, 'i, 'ast, 'd, 'e, 'c) vm_env \<Rightarrow> 's ClarityVM \<Rightarrow> string" where
  "set_app_name_code X vm =
     ''(wrb-ll-set-app-name { name: 0x'' @ to_hex (vx_utf8 X (cv_app_name vm)) @ '', namespace: 0x'' @
     to_hex (vx_utf8 X (cv_app_namespace vm)) @ '', version: u'' @ vx_print_u32 X (cv_app_version vm) @ '' })''"

definition set_app_code_hash_code :: "bytes \<Rightarrow> string" where
  "set_app_code_hash_code code_hash = ''(wrb-ll-set-app-code-hash 0x'' @ to_hex code_hash @ '')''"

definition initialize_app ::
  "'s side_db \<Rightarrow> ('s, 'i, 'ast, 'd, 'e, 'c) vm_env \<Rightarrow> 's ClarityVM \<Rightarrow> string \<Rightarrow> (VmError, 'i \<times> 's ClarityVM) outcome" where
  "initialize_app D X vm app_code =
     (let linked_app_code = wrb_link_app X app_code;
          code_hash = get_code_hash X vm (vx_utf8 X linked_app_code);
          app_name = cv_app_name vm @ ''-'' @ cv_app_namespace vm @ ''-'' @ vx_print_u32 X (cv_app_version vm) in
      obind (ok_or (vx_contract_name X app_name) (VmClarity ''Invalid contract name'')) (\<lambda>app_name.
      obind (from_opt (vx_contract_name X ''wrb-ll'')) (\<lambda>ll_name.
      let app_contract_id = vx_contract_id X app_name;
          ll_contract_id = vx_contract_id X ll_name;
          headers = headers_db vm in
      obind (from_opt (wrb_db_begin (cv_db vm) BOOT_BLOCK_ID GENESIS_BLOCK_ID)) (\<lambda>write_tx.
      let db = vx_clarity_db X headers write_tx;
          has_ll_contract = vx_has_contract X db ll_contract_id;
          has_app_contract = vx_has_contract X db app_contract_id in
      obind (map_err VmClarity (vx_roll_back X db)) (\<lambda>write_tx.
      obind (if has_ll_contract then Ok write_tx
             else
               deploy_contract X headers ll_contract_id (WRB_LL_CODE X)
                 (\<lambda>vm_env.
                    obind (vx_get_contract X vm_env ll_contract_id) (\<lambda>(contract, vm_env).
                    obind (vx_eval X vm_env contract (set_app_name_code X vm)) (\<lambda>vm_env.
                    vx_eval X vm_env contract (set_app_code_hash_code code_hash)))) write_tx) (\<lambda>write_tx.
      obind (if has_app_contract then Ok write_tx
             else deploy_contract X headers app_contract_id linked_app_code Ok write_tx) (\<lambda>write_tx.
      obind (map_err VmDB (ws_commit_to D write_tx GENESIS_BLOCK_ID)) (\<lambda>conn.
      Ok (app_contract_id, vm\<lparr>cv_db := (cv_db vm)\<lparr>wd_conn := conn\<rparr>\<rparr>)))))))))"

end
