(* ===== verification/Kv_Rows.thy ===== *)
theory Kv_Rows
  imports Clarity_Vm
begin

text \<open>
  Tables of versioned keys as functions: what a table answers at a height, and how a row, a dump
  of the write buffer and a commit change that.
\<close>

section \<open>Block hashes\<close>

definition tip_at :: "nat \<Rightarrow> StacksBlockId" where
  "tip_at i = make_wrb_chain_tip (word_of_nat i)"

lemma make_wrb_chain_tip_inj [simp]: "make_wrb_chain_tip a = make_wrb_chain_tip b \<longleftrightarrow> a = b"
proof
  assume "make_wrb_chain_tip a = make_wrb_chain_tip b"
  then have "to_be_bytes 8 a = to_be_bytes 8 b" by (simp add: make_wrb_chain_tip_def)
  moreover have "from_be_bytes (to_be_bytes 8 x) = x" for x :: u64 by (simp add: from_to_be_bytes)
  ultimately show "a = b" by metis
qed simp

lemma tip_at_inj: "i < 2 ^ 64 \<Longrightarrow> j < 2 ^ 64 \<Longrightarrow> tip_at i = tip_at j \<longleftrightarrow> i = j"
proof -
  assume "i < 2 ^ 64" "j < 2 ^ 64"
  then have "unat (word_of_nat i :: u64) = i" "unat (word_of_nat j :: u64) = j" by (simp_all add: unat_of_nat)
  then show ?thesis unfolding tip_at_def make_wrb_chain_tip_inj by metis
qed

lemma tip_not_boot [simp]: "tip_at i \<noteq> BOOT_BLOCK_ID" "BOOT_BLOCK_ID \<noteq> tip_at i" "make_wrb_chain_tip h \<noteq> BOOT_BLOCK_ID"
proof -
  have "make_wrb_chain_tip h \<noteq> BOOT_BLOCK_ID" for h
  proof
    assume "make_wrb_chain_tip h = BOOT_BLOCK_ID"
    then have "last (make_wrb_chain_tip h) = last BOOT_BLOCK_ID" by simp
    then show False by (simp add: make_wrb_chain_tip_def BOOT_BLOCK_ID_def)
  qed
  then show "tip_at i \<noteq> BOOT_BLOCK_ID" "BOOT_BLOCK_ID \<noteq> tip_at i" "make_wrb_chain_tip h \<noteq> BOOT_BLOCK_ID"
    unfolding tip_at_def by metis+
qed

lemma genesis_tip: "GENESIS_BLOCK_ID = tip_at 0"
  by (simp add: GENESIS_BLOCK_ID_def tip_at_def make_wrb_chain_tip_def to_be_bytes_def numeral_eq_Suc)

section \<open>Tables\<close>

text \<open>\<open>t\<close> gives the block of each height.\<close>

definition rows_ok :: "(int \<Rightarrow> StacksBlockId) \<Rightarrow> kv_row list \<Rightarrow> bool" where
  "rows_ok t rows \<longleftrightarrow> distinct (map (\<lambda>r. (kv_chain_tip r, kv_height r, kv_key r)) rows) \<and>
     (\<forall>r \<in> set rows. 0 \<le> kv_height r \<and> kv_chain_tip r = t (kv_height r))"

lemma rows_ok_same:
  assumes "rows_ok t rows" and "r \<in> set rows" and "r' \<in> set rows" and "kv_height r = kv_height r'" and "kv_key r = kv_key r'"
  shows "r = r'"
proof -
  have "inj_on (\<lambda>r. (kv_chain_tip r, kv_height r, kv_key r)) (set rows)" using assms(1) by (simp add: rows_ok_def distinct_map)
  then show ?thesis using assms unfolding rows_ok_def inj_on_def by metis
qed

lemma sort_key_first:
  fixes f :: "'r \<Rightarrow> 'k::linorder"
  assumes "sort_key f xs = y # ys"
  shows "y \<in> set xs" "\<forall>x \<in> set xs. f y \<le> f x"
proof -
  have s: "set (y # ys) = set xs" using assms by (metis set_sort)
  have "sorted (map f (y # ys))" using assms by (metis sorted_sort_key)
  then show "\<forall>x \<in> set xs. f y \<le> f x" using s by auto
  show "y \<in> set xs" using s by auto
qed

definition latest :: "kv_row list \<Rightarrow> int \<Rightarrow> string \<Rightarrow> kv_row option" where
  "latest rows h k = (case by_height [r \<leftarrow> rows. kv_key r = k \<and> kv_height r \<le> h] of [] \<Rightarrow> None | r # _ \<Rightarrow> Some r)"

definition is_latest :: "kv_row list \<Rightarrow> int \<Rightarrow> string \<Rightarrow> kv_row \<Rightarrow> bool" where
  "is_latest rows h k r \<longleftrightarrow> r \<in> set rows \<and> kv_key r = k \<and> kv_height r \<le> h \<and>
     (\<forall>r' \<in> set rows. kv_key r' = k \<longrightarrow> kv_height r' \<le> h \<longrightarrow> kv_height r' \<le> kv_height r)"

lemma sort_key_Nil [simp]: "sort_key f xs = [] \<longleftrightarrow> xs = []"
  by (metis length_0_conv length_sort)

lemma latest_None: "latest rows h k = None \<longleftrightarrow> (\<forall>r \<in> set rows. kv_key r = k \<longrightarrow> \<not> kv_height r \<le> h)"
proof -
  have "latest rows h k = None \<longleftrightarrow> [r \<leftarrow> rows. kv_key r = k \<and> kv_height r \<le> h] = []"
    by (metis (no_types, lifting) latest_def by_height_def list.case list.exhaust option.distinct(1) sort_key_Nil)
  then show ?thesis by (auto simp: filter_empty_conv)
qed

lemma latest_is:
  assumes "latest rows h k = Some r"
  shows "is_latest rows h k r"
proof -
  obtain ys where "sort_key (\<lambda>r. - kv_height r) [r \<leftarrow> rows. kv_key r = k \<and> kv_height r \<le> h] = r # ys"
    using assms by (auto simp: latest_def by_height_def split: list.splits)
  note first = sort_key_first [OF this]
  then show ?thesis by (auto simp: is_latest_def)
qed

lemma latest_iff:
  assumes "rows_ok t rows"
  shows "latest rows h k = Some r \<longleftrightarrow> is_latest rows h k r"
proof
  assume r: "is_latest rows h k r"
  then have "latest rows h k \<noteq> None" by (auto simp: latest_None is_latest_def)
  then obtain r' where r': "latest rows h k = Some r'" by auto
  note latest_is [OF r']
  then have "kv_height r' \<le> kv_height r" "kv_height r \<le> kv_height r'" using r unfolding is_latest_def by blast+
  then have "r' = r" using r rows_ok_same [OF assms, of r' r] latest_is [OF r'] unfolding is_latest_def by (metis order_antisym)
  then show "latest rows h k = Some r" using r' by simp
qed (rule latest_is)

lemma get_hash_latest:
  assumes "uint h < 2 ^ 63"
  shows "get_hash rows h k = Ok (map_option kv_data_hash (latest rows (uint h) k))"
proof -
  have "\<not> h > 0x7FFFFFFFFFFFFFFF" using assms by (simp add: word_less_def)
  then show ?thesis by (simp add: get_hash_def u64_to_sql_def latest_def query_row_def split: list.splits)
qed

text \<open>A row at the greatest height hides the earlier rows of its key, from its height on.\<close>

lemma replace_into_ok:
  assumes "rows_ok t rows" and "0 \<le> kv_height r" and "kv_chain_tip r = t (kv_height r)"
  shows "rows_ok t (replace_into r rows)"
proof -
  have "distinct (map (\<lambda>r. (kv_chain_tip r, kv_height r, kv_key r)) [r' \<leftarrow> rows. \<not> same_key r r'])"
    using assms(1) by (simp add: rows_ok_def distinct_map_filter)
  then show ?thesis using assms by (auto simp: rows_ok_def replace_into_def same_key_def)
qed

lemma latest_replace:
  assumes ok: "rows_ok t rows" and r: "0 \<le> kv_height r" "kv_chain_tip r = t (kv_height r)"
    and top: "\<forall>r' \<in> set rows. kv_height r' \<le> kv_height r"
  shows "latest (replace_into r rows) h k = (if k = kv_key r \<and> kv_height r \<le> h then Some r else latest rows h k)"
proof -
  note ok' = replace_into_ok [OF ok r]
  have in_set: "r' \<in> set (replace_into r rows) \<longleftrightarrow> r' = r \<or> r' \<in> set rows \<and> \<not> (kv_height r' = kv_height r \<and> kv_key r' = kv_key r)" for r'
  proof -
    have "r' \<in> set rows \<Longrightarrow> kv_height r' = kv_height r \<Longrightarrow> kv_chain_tip r' = kv_chain_tip r" using ok r by (metis rows_ok_def)
    then show ?thesis unfolding replace_into_def same_key_def set_append set_filter by fastforce
  qed
  show ?thesis
  proof (cases "k = kv_key r \<and> kv_height r \<le> h")
    case True
    then have "is_latest (replace_into r rows) h k r" using top by (auto simp: is_latest_def in_set)
    then show ?thesis using True latest_iff [OF ok'] by simp
  next
    case False
    have "is_latest (replace_into r rows) h k r' \<longleftrightarrow> is_latest rows h k r'" for r'
    proof -
      have "r'' \<in> set (replace_into r rows) \<and> kv_key r'' = k \<and> kv_height r'' \<le> h \<longleftrightarrow>
          r'' \<in> set rows \<and> kv_key r'' = k \<and> kv_height r'' \<le> h" for r''
        using False by (auto simp: in_set)
      then show ?thesis unfolding is_latest_def by blast
    qed
    then have "latest (replace_into r rows) h k = Some r' \<longleftrightarrow> latest rows h k = Some r'" for r'
      by (simp add: latest_iff [OF ok] latest_iff [OF ok'])
    then show ?thesis using False by (metis option.exhaust)
  qed
qed

lemma rows_ok_first:
  assumes "rows_ok t rows" and "r \<in> set rows" and "kv_chain_tip r = b" and "\<forall>h \<in> kv_height ` set rows. t h = b \<longrightarrow> h = kv_height r"
  shows "\<exists>r' rs. [r \<leftarrow> rows. kv_chain_tip r = b] = r' # rs \<and> kv_height r' = kv_height r"
proof -
  have "[r \<leftarrow> rows. kv_chain_tip r = b] \<noteq> []" using assms(2,3) by (auto simp: filter_empty_conv)
  then obtain r' rs where rs: "[r \<leftarrow> rows. kv_chain_tip r = b] = r' # rs" by (cases "[r \<leftarrow> rows. kv_chain_tip r = b]") auto
  then have "r' \<in> set rows" "kv_chain_tip r' = b" by (metis (mono_tags, lifting) filter_eq_ConsD in_set_conv_decomp)+
  then show ?thesis using rs assms(1,4) by (auto simp: rows_ok_def)
qed

section \<open>Values\<close>

text \<open>
  What is relied on of the store of values: a value is got under its key until it is put again,
  metadata is kept apart, and a new file is set up once.
\<close>

definition side_ok :: "'s side_db \<Rightarrow> bool" where
  "side_ok D \<longleftrightarrow>
     (\<forall>s h v. \<exists>s'. sd_put D s h v = Ok s' \<and> sd_get D s' h = Ok (Some v) \<and> (\<forall>h'. h' \<noteq> h \<longrightarrow> sd_get D s' h' = sd_get D s h')) \<and>
     (\<forall>s a b. \<exists>s'. sd_commit_metadata D s a b = Ok s' \<and> (\<forall>h. sd_get D s' h = sd_get D s h)) \<and>
     \<not> sd_check_schema D (sd_fresh D) \<and>
     (\<exists>s. sd_initialize D (sd_fresh D) = Some s \<and> (\<forall>h. sd_get D s h = Ok None))"

text \<open>The values that are written have hashes of their own.\<close>

definition hashes_ok :: "'s side_db \<Rightarrow> string set \<Rightarrow> bool" where
  "hashes_ok D V \<longleftrightarrow> inj_on (sd_sha_hex D) V \<and> to_hex BOOT_BLOCK_ID \<notin> sd_sha_hex D ` V"

definition values_ok :: "'s side_db \<Rightarrow> string set \<Rightarrow> 's kv_data \<Rightarrow> bool" where
  "values_ok D V data \<longleftrightarrow> (\<forall>r \<in> set (da_rows data).
     (\<exists>v \<in> V. kv_data_hash r = sd_sha_hex D v \<and> sd_get D (da_side data) (kv_data_hash r) = Ok (Some v)) \<or>
     (kv_data_hash r = to_hex BOOT_BLOCK_ID \<and> sd_get D (da_side data) (kv_data_hash r) = Ok None))"

text \<open>What a database answers at a height.\<close>

definition value_at :: "'s side_db \<Rightarrow> 's kv_data \<Rightarrow> int \<Rightarrow> string \<Rightarrow> string option" where
  "value_at D data h k =
     (case latest (da_rows data) h k of
        None \<Rightarrow> None
      | Some r \<Rightarrow> (case sd_get D (da_side data) (kv_data_hash r) of Ok v \<Rightarrow> v | _ \<Rightarrow> None))"

lemma stored_value:
  assumes "values_ok D V data" and "uint h < 2 ^ 63"
  shows "stored_data D data h k = Ok (value_at D data (uint h) k)"
proof (cases "latest (da_rows data) (uint h) k")
  case (Some r)
  then have "r \<in> set (da_rows data)" using latest_is by (auto simp: is_latest_def)
  then obtain v where "sd_get D (da_side data) (kv_data_hash r) = Ok v" using assms(1) unfolding values_ok_def by blast
  then show ?thesis using Some assms(2) by (simp add: stored_data_def get_hash_latest value_at_def)
qed (use assms(2) in \<open>simp add: stored_data_def get_hash_latest value_at_def\<close>)

lemma write_row:
  assumes D: "side_ok D" "hashes_ok D V" and ok: "rows_ok t (da_rows data)" "values_ok D V data"
    and H: "0 \<le> H" "\<forall>r \<in> set (da_rows data). kv_height r \<le> H" and v: "v \<in> V"
    and put: "sd_put D (da_side data) (sd_sha_hex D v) v = Ok side"
    and data': "data' = \<lparr>da_rows = replace_into \<lparr>kv_chain_tip = t H, kv_height = H, kv_key = key, kv_data_hash = sd_sha_hex D v\<rparr>
        (da_rows data), da_side = side\<rparr>"
  shows "rows_ok t (da_rows data')" "values_ok D V data'"
    "value_at D data' h k = (if k = key \<and> H \<le> h then Some v else value_at D data h k)"
proof -
  have got: "sd_get D side (sd_sha_hex D v) = Ok (Some v)" "\<And>h'. h' \<noteq> sd_sha_hex D v \<Longrightarrow> sd_get D side h' = sd_get D (da_side data) h'"
    using D(1) put unfolding side_ok_def by (metis outcome.inject(1))+
  have same: "sd_get D side (kv_data_hash r) = sd_get D (da_side data) (kv_data_hash r)" if r: "r \<in> set (da_rows data)" for r
  proof (cases "kv_data_hash r = sd_sha_hex D v")
    case True
    then have "\<not> kv_data_hash r = to_hex BOOT_BLOCK_ID" using D(2) v unfolding hashes_ok_def by (metis image_eqI)
    then obtain w where "w \<in> V" "sd_sha_hex D v = sd_sha_hex D w" "sd_get D (da_side data) (kv_data_hash r) = Ok (Some w)"
      using bspec [OF ok(2) [unfolded values_ok_def] r] unfolding True by blast
    then show ?thesis using D(2) v got(1) True by (auto simp: hashes_ok_def inj_on_def)
  qed (rule got(2))
  show "rows_ok t (da_rows data')" using replace_into_ok [OF ok(1)] H(1) by (simp add: data')
  show "values_ok D V data'" using ok(2) same got(1) v by (auto simp: values_ok_def data' replace_into_def)
  show "value_at D data' h k = (if k = key \<and> H \<le> h then Some v else value_at D data h k)"
    using got(1) same latest_is by (fastforce simp: value_at_def data' latest_replace [OF ok(1)] H is_latest_def split: option.splits)
qed

end
