(* ===== verification/Kv_Visits.thy ===== *)
theory Kv_Visits
  imports Kv_Rows
begin

text \<open>
  Visits of a page: what a database holds before and after a visit, and the history of values
  that it stands for.
\<close>

section \<open>Databases\<close>

definition db_ok :: "(int \<Rightarrow> StacksBlockId) \<Rightarrow> 's side_db \<Rightarrow> string set \<Rightarrow> 's kv_data \<Rightarrow> bool" where
  "db_ok t D V data \<longleftrightarrow> rows_ok t (da_rows data) \<and> values_ok D V data"

definition heights :: "'s kv_data \<Rightarrow> int set" where
  "heights data = kv_height ` set (da_rows data)"

definition put_items :: "(string \<rightharpoonup> string) \<Rightarrow> (string \<times> string) list \<Rightarrow> (string \<rightharpoonup> string)" where
  "put_items m items = foldl (\<lambda>m (k, v). m(k \<mapsto> v)) m items"

lemma put_items_simps [simp]: "put_items m [] = m" "put_items m ((k, v) # items) = put_items (m(k \<mapsto> v)) items"
  "put_items m (items @ xs) = put_items (put_items m items) xs"
  by (simp_all add: put_items_def)

lemma heights_replace: "heights (data\<lparr>da_rows := replace_into r (da_rows data)\<rparr>) = insert (kv_height r) (heights data)"
  by (auto simp: heights_def replace_into_def same_key_def image_iff)

section \<open>Dumping the buffer\<close>

lemma dump_rows_writes:
  assumes D: "side_ok D" "hashes_ok D V" and "db_ok t D V data" and "\<forall>h \<in> heights data. h \<le> H"
    and target: "(if cur = BOOT_BLOCK_ID then (cur, nh - 1) else (nxt, nh)) = (t H, w)" "uint w = H" "H < 2 ^ 63"
    and "\<forall>(k, v) \<in> set items. v \<in> V \<and> pd (sd_sha_hex D v) = Some v"
  shows "\<exists>data'. wb_dump_rows D pd cur nxt nh (map (\<lambda>(k, v). (k, sd_sha_hex D v)) items) data = Ok data' \<and> db_ok t D V data' \<and>
    heights data' = (if items = [] then heights data else insert H (heights data)) \<and>
    (\<forall>h. value_at D data' h = (if H \<le> h then put_items (value_at D data h) items else value_at D data h))"
  using assms(3,4,8)
proof (induction items arbitrary: data)
  case (Cons item items)
  obtain k v where item: "item = (k, v)" by (cases item)
  have v: "v \<in> V" "pd (sd_sha_hex D v) = Some v" and rest: "\<forall>(k, v) \<in> set items. v \<in> V \<and> pd (sd_sha_hex D v) = Some v"
    using Cons.prems(3) by (auto simp: item)
  obtain side where put: "sd_put D (da_side data) (sd_sha_hex D v) v = Ok side" using D(1) unfolding side_ok_def by blast
  define data1 where "data1 = \<lparr>da_rows = replace_into \<lparr>kv_chain_tip = t H, kv_height = H, kv_key = k, kv_data_hash = sd_sha_hex D v\<rparr>
        (da_rows data), da_side = side\<rparr>"
  have H: "0 \<le> H" "\<forall>r \<in> set (da_rows data). kv_height r \<le> H" using target(2) Cons.prems(2) by (auto simp: heights_def)
  have ok: "rows_ok t (da_rows data)" "values_ok D V data" using Cons.prems(1) by (simp_all add: db_ok_def)
  note row = write_row [where t = t and H = H, OF D ok H v(1) put data1_def]
  have w: "db_ok t D V data1" "\<And>h. value_at D data1 h = (if H \<le> h then (value_at D data h)(k \<mapsto> v) else value_at D data h)"
    using row by (auto simp: db_ok_def)
  have h1: "heights data1 = insert H (heights data)"
    using heights_replace [where data = data and r = "\<lparr>kv_chain_tip = t H, kv_height = H, kv_key = k, kv_data_hash = sd_sha_hex D v\<rparr>"]
    by (simp add: data1_def heights_def)
  have "\<not> w > 0x7FFFFFFFFFFFFFFF" using target(2,3) by (simp add: word_less_def)
  then have step: "wb_dump_rows D pd cur nxt nh (map (\<lambda>(k, v). (k, sd_sha_hex D v)) (item # items)) data =
      wb_dump_rows D pd cur nxt nh (map (\<lambda>(k, v). (k, sd_sha_hex D v)) items) data1"
    using target v(2) put by (cases data) (simp add: item u64_to_sql_def data1_def)
  have "\<forall>h \<in> heights data1. h \<le> H" using Cons.prems(2) by (simp add: h1)
  from Cons.IH [OF w(1) this rest] obtain data' where
    "wb_dump_rows D pd cur nxt nh (map (\<lambda>(k, v). (k, sd_sha_hex D v)) items) data1 = Ok data'" "db_ok t D V data'"
    "heights data' = (if items = [] then heights data1 else insert H (heights data1))"
    "\<forall>h. value_at D data' h = (if H \<le> h then put_items (value_at D data1 h) items else value_at D data1 h)" by blast
  then show ?case unfolding step by (intro exI [where x = data']) (simp add: h1 w(2) item)
qed simp

text \<open>Puts into an empty buffer.\<close>

lemma puts_buffered:
  assumes "hashes_ok D V" and "snd ` set items \<subseteq> V"
  shows "let wb = foldl (\<lambda>wb (key, v). wb_put D wb key v) write_buffer_new items in
    wb_pending_hashes wb = map (\<lambda>(k, v). (k, sd_sha_hex D v)) items \<and>
    (\<forall>(k, v) \<in> set items. v \<in> V \<and> wb_pending_data wb (sd_sha_hex D v) = Some v)"
  using assms(2)
proof (induction items rule: rev_induct)
  case (snoc item items)
  obtain k v where item: "item = (k, v)" by (cases item)
  have other: "sd_sha_hex D v = sd_sha_hex D v' \<longleftrightarrow> v = v'" if "(k', v') \<in> set items" for k' v'
  proof -
    have "snd (k', v') \<in> snd ` set items" using that by (rule imageI)
    then have "v \<in> V" "v' \<in> V" using snoc.prems by (auto simp: item)
    then show ?thesis using assms(1) unfolding hashes_ok_def inj_on_def by blast
  qed
  have V: "v \<in> V" "snd ` set items \<subseteq> V" using snoc.prems by (auto simp: item)
  have IH: "wb_pending_hashes wb = map (\<lambda>(k, v). (k, sd_sha_hex D v)) items \<and>
      (\<forall>(k, v) \<in> set items. v \<in> V \<and> wb_pending_data wb (sd_sha_hex D v) = Some v)"
    if "wb = foldl (\<lambda>wb (key, v). wb_put D wb key v) write_buffer_new items" for wb
    using snoc.IH [OF V(2)] unfolding Let_def that .
  define wb where "wb = foldl (\<lambda>wb (key, v). wb_put D wb key v) write_buffer_new items"
  have "foldl (\<lambda>wb (key, v). wb_put D wb key v) write_buffer_new (items @ [item]) = wb_put D wb k v" by (simp add: wb_def item)
  then have s: "wb_pending_hashes (foldl (\<lambda>wb (key, v). wb_put D wb key v) write_buffer_new (items @ [item])) =
      wb_pending_hashes wb @ [(k, sd_sha_hex D v)]"
    "wb_pending_data (foldl (\<lambda>wb (key, v). wb_put D wb key v) write_buffer_new (items @ [item])) =
      (wb_pending_data wb)(sd_sha_hex D v \<mapsto> v)"
    by (simp_all add: wb_put_def Let_def)
  show ?case unfolding Let_def s using IH [OF wb_def] V(1) other by (simp add: item split_beta) (metis prod.collapse)
qed (simp add: write_buffer_new_def)

section \<open>Writing a block\<close>

definition page_tips :: "int \<Rightarrow> StacksBlockId" where
  "page_tips h = tip_at (nat h)"

lemma block_height_of_page:
  assumes "db_ok page_tips D V data" and "\<forall>h \<in> heights data. h < 2 ^ 63" and "i < 2 ^ 63"
  shows "get_wrb_block_height (da_rows data) (tip_at i) = Some (if int i \<in> heights data then Some (word_of_nat i) else None)"
    "[r \<leftarrow> da_rows data. kv_chain_tip r = tip_at i] \<noteq> [] \<longleftrightarrow> int i \<in> heights data"
    "r \<in> set (da_rows data) \<Longrightarrow> kv_chain_tip r = tip_at i \<longleftrightarrow> kv_height r = int i"
proof -
  have tip: "kv_chain_tip r = tip_at i \<longleftrightarrow> kv_height r = int i" if "r \<in> set (da_rows data)" for r
  proof -
    have r: "0 \<le> kv_height r" "kv_chain_tip r = tip_at (nat (kv_height r))" "kv_height r < 2 ^ 63"
      using assms(1,2) that by (auto simp: db_ok_def rows_ok_def page_tips_def heights_def)
    then have "nat (kv_height r) < 2 ^ 64" "i < 2 ^ 64" using assms(3) by auto
    then show ?thesis using r tip_at_inj by auto
  qed
  then show "r \<in> set (da_rows data) \<Longrightarrow> kv_chain_tip r = tip_at i \<longleftrightarrow> kv_height r = int i" .
  have f: "[r \<leftarrow> da_rows data. kv_chain_tip r = tip_at i] = [r \<leftarrow> da_rows data. kv_height r = int i]"
    using tip by (intro filter_cong) auto
  show "[r \<leftarrow> da_rows data. kv_chain_tip r = tip_at i] \<noteq> [] \<longleftrightarrow> int i \<in> heights data"
    unfolding f by (simp add: heights_def filter_empty_conv image_iff) metis
  show "get_wrb_block_height (da_rows data) (tip_at i) = Some (if int i \<in> heights data then Some (word_of_nat i) else None)"
  proof (cases "[r \<leftarrow> da_rows data. kv_height r = int i]")
    case Nil
    then have "int i \<notin> heights data" by (simp add: heights_def filter_empty_conv image_iff) metis
    then show ?thesis using Nil by (simp add: get_wrb_block_height_def f)
  next
    case (Cons r rs)
    then have "r \<in> set [r \<leftarrow> da_rows data. kv_height r = int i]" by simp
    then have "kv_height r = int i" "int i \<in> heights data" by (simp_all add: heights_def image_iff) metis
    then show ?thesis using Cons by (simp add: get_wrb_block_height_def f u64_from_row_def)
  qed
qed

lemma word_of_nat_uint: "i < 2 ^ 63 \<Longrightarrow> uint (word_of_nat i :: u64) = int i" "i + 1 < 2 ^ 63 \<Longrightarrow> uint (word_of_nat i :: u64) = int i"
proof -
  have "uint (word_of_nat i :: u64) = int i" if "i < 2 ^ 63"
  proof -
    have "unat (word_of_nat i :: u64) = i" using that by (simp add: unat_of_nat)
    then show ?thesis by (metis uint_nat)
  qed
  then show "i < 2 ^ 63 \<Longrightarrow> uint (word_of_nat i :: u64) = int i" "i + 1 < 2 ^ 63 \<Longrightarrow> uint (word_of_nat i :: u64) = int i"
    by simp_all
qed

text \<open>A visit writes above all heights there are; the installation of a page writes at 0.\<close>

definition target_ok :: "(int \<Rightarrow> StacksBlockId) \<Rightarrow> int \<Rightarrow> StacksBlockId \<Rightarrow> StacksBlockId \<Rightarrow> int set \<Rightarrow> bool" where
  "target_ok t H cur nxt hs \<longleftrightarrow>
     (cur = BOOT_BLOCK_ID \<and> t = (\<lambda>_. BOOT_BLOCK_ID) \<and> H = 0 \<and> hs \<subseteq> {0}) \<or>
     (\<exists>n. n + 1 < (2 :: nat) ^ 63 \<and> cur = tip_at n \<and> nxt = tip_at (n + 1) \<and> t = page_tips \<and> H = int (n + 1) \<and> int n \<in> hs \<and>
        (\<forall>h \<in> hs. h \<le> H))"

lemma next_target:
  assumes "target_ok t H cur nxt (heights data)" and "db_ok t D V data"
  shows "\<exists>height_opt nh w. get_wrb_block_height (da_rows data) cur = Some height_opt \<and>
    (case height_opt of Some height \<Rightarrow> checked_inc height | None \<Rightarrow> Some 1) = Some nh \<and>
    (if cur = BOOT_BLOCK_ID then (cur, nh - 1) else (nxt, nh)) = (t H, w) \<and> uint w = H \<and> H < 2 ^ 63 \<and> (\<forall>h \<in> heights data. h \<le> H)"
  using assms(1) unfolding target_ok_def
proof (elim disjE exE conjE)
  assume boot: "cur = BOOT_BLOCK_ID" "t = (\<lambda>_. BOOT_BLOCK_ID)" "H = 0" "heights data \<subseteq> {0}"
  show ?thesis
  proof (cases "da_rows data")
    case Nil
    then show ?thesis using boot by (simp add: get_wrb_block_height_def heights_def)
  next
    case (Cons r rs)
    then have "r \<in> set (da_rows data)" by simp
    then have "kv_height r = 0" "kv_chain_tip r = BOOT_BLOCK_ID" using boot assms(2) by (auto simp: heights_def db_ok_def rows_ok_def)
    then show ?thesis using boot Cons
      by (auto simp: get_wrb_block_height_def u64_from_row_def checked_inc_def intro!: exI [where x = "Some 0"])
  qed
next
  fix n
  assume n: "n + 1 < (2 :: nat) ^ 63" "cur = tip_at n" "nxt = tip_at (n + 1)" "t = page_tips" "H = int (n + 1)" "int n \<in> heights data"
    "\<forall>h \<in> heights data. h \<le> H"
  have lim: "int (n + 1) < 2 ^ 63" using n(1) by (metis of_nat_less_iff of_nat_numeral of_nat_power)
  then have "\<forall>h \<in> heights data. h < 2 ^ 63" using n(5,7) by fastforce
  then have "get_wrb_block_height (da_rows data) cur = Some (Some (word_of_nat n))"
    using block_height_of_page(1) [of D V data n] assms(2) n by simp
  moreover have "uint (word_of_nat n :: u64) = int n" "uint (word_of_nat (n + 1) :: u64) = int (n + 1)"
    using n(1) by (simp_all only: word_of_nat_uint)
  moreover have "(word_of_nat n :: u64) \<noteq> - 1"
  proof
    assume "(word_of_nat n :: u64) = - 1"
    then have "uint (word_of_nat n :: u64) = 18446744073709551615" by (simp add: unsigned_minus_1_eq_mask mask_eq_exp_minus_1)
    then show False using calculation(2) lim by simp
  qed
  moreover have "page_tips H = tip_at (n + 1)" unfolding n(5) by (simp only: page_tips_def nat_int)
  ultimately have facts: "get_wrb_block_height (da_rows data) cur = Some (Some (word_of_nat n))"
    "checked_inc (word_of_nat n) = Some (word_of_nat (n + 1))" "uint (word_of_nat (n + 1) :: u64) = H" "page_tips H = tip_at (n + 1)"
    by (simp_all add: checked_inc_def n(5) add.commute)
  have "H < 2 ^ 63" using lim by (simp only: n(5))
  then show ?thesis using facts n(2,3,4,7)
    by (intro exI [where x = "Some (word_of_nat n)"] exI [where x = "word_of_nat (n + 1)"]) (simp del: of_nat_add of_nat_Suc)
qed

text \<open>A store that has written some items of its block.\<close>

definition writing ::
  "(int \<Rightarrow> StacksBlockId) \<Rightarrow> int \<Rightarrow> StacksBlockId \<Rightarrow> StacksBlockId \<Rightarrow> 's side_db \<Rightarrow> string set \<Rightarrow> 's kv_data \<Rightarrow> (string \<times> string) list \<Rightarrow>
     's WritableWrbStore \<Rightarrow> bool" where
  "writing t H cur nxt D V data items s \<longleftrightarrow>
     ws_chain_tip s = cur \<and> ws_next_tip s = nxt \<and> ws_write_buf s = write_buffer_new \<and> db_ok t D V (ws_tx s) \<and>
     heights (ws_tx s) = (if items = [] then heights data else insert H (heights data)) \<and>
     (\<forall>h. value_at D (ws_tx s) h = (if H \<le> h then put_items (value_at D data h) items else value_at D data h))"

lemma writing_put:
  assumes D: "side_ok D" "hashes_ok D V" and s: "writing t H cur nxt D V data items s" and target: "target_ok t H cur nxt (heights (ws_tx s))"
    and V: "snd ` set xs \<subseteq> V"
  shows "\<exists>tx. ws_put_all_data D s xs = Ok (s\<lparr>ws_tx := tx\<rparr>) \<and> writing t H cur nxt D V data (items @ xs) (s\<lparr>ws_tx := tx\<rparr>)"
proof -
  obtain height_opt nh w where next_h: "get_wrb_block_height (da_rows (ws_tx s)) cur = Some height_opt"
    "(case height_opt of Some height \<Rightarrow> checked_inc height | None \<Rightarrow> Some 1) = Some nh"
    and t: "(if cur = BOOT_BLOCK_ID then (cur, nh - 1) else (nxt, nh)) = (t H, w)" "uint w = H" "H < 2 ^ 63" "\<forall>h \<in> heights (ws_tx s). h \<le> H"
    using next_target [OF target] s unfolding writing_def by blast
  let ?wb = "foldl (\<lambda>wb (key, v). wb_put D wb key v) write_buffer_new xs"
  have wb: "wb_pending_hashes ?wb = map (\<lambda>(k, v). (k, sd_sha_hex D v)) xs"
    "\<forall>(k, v) \<in> set xs. v \<in> V \<and> wb_pending_data ?wb (sd_sha_hex D v) = Some v"
    using puts_buffered [OF D(2) V] unfolding Let_def by blast+
  have "db_ok t D V (ws_tx s)" using s by (simp add: writing_def)
  from dump_rows_writes [OF D this t(4) t(1-3) wb(2)] obtain tx where
    tx: "wb_dump_rows D (wb_pending_data ?wb) cur nxt nh (map (\<lambda>(k, v). (k, sd_sha_hex D v)) xs) (ws_tx s) = Ok tx" "db_ok t D V tx"
    "heights tx = (if xs = [] then heights (ws_tx s) else insert H (heights (ws_tx s)))"
    "\<forall>h. value_at D tx h = (if H \<le> h then put_items (value_at D (ws_tx s) h) xs else value_at D (ws_tx s) h)" by blast
  have "wb_dump D ?wb (ws_tx s) cur nxt = Ok (tx, write_buffer_new)"
    using next_h tx(1) wb(1) by (simp add: wb_dump_def)
  then have "ws_put_all_data D s xs = Ok (s\<lparr>ws_tx := tx\<rparr>)"
    using s by (simp add: ws_put_all_data_def writing_def)
  moreover have "writing t H cur nxt D V data (items @ xs) (s\<lparr>ws_tx := tx\<rparr>)" using s tx(2-4) by (auto simp: writing_def)
  ultimately show ?thesis by blast
qed

section \<open>Histories\<close>

text \<open>
  A database stands for a history: what every key was at each height. The rows of each height are
  those of one visit, and no height is left out.
\<close>

definition pages :: "'s side_db \<Rightarrow> string set \<Rightarrow> 's kv_data \<Rightarrow> (string \<rightharpoonup> string) list \<Rightarrow> bool" where
  "pages D V data hist \<longleftrightarrow> hist \<noteq> [] \<and> length hist < 2 ^ 63 \<and> db_ok page_tips D V data \<and>
     heights data = int ` {..<length hist} \<and> (\<forall>i < length hist. value_at D data (int i) = hist ! i)"

lemma pages_heights:
  assumes "pages D V data hist"
  shows "\<forall>h \<in> heights data. h < 2 ^ 63" "int i \<in> heights data \<longleftrightarrow> i < length hist" "db_ok page_tips D V data"
    "i < length hist \<Longrightarrow> i < 2 ^ 63"
proof -
  have len: "length hist < 2 ^ 63" and h: "heights data = int ` {..<length hist}" using assms by (auto simp: pages_def)
  have "int j < 2 ^ 63" if "j < length hist" for j using that len by simp
  then show "\<forall>h \<in> heights data. h < 2 ^ 63" unfolding h by auto
  show "int i \<in> heights data \<longleftrightarrow> i < length hist" unfolding h by auto
  show "db_ok page_tips D V data" "i < length hist \<Longrightarrow> i < 2 ^ 63" using assms len by (auto simp: pages_def)
qed

lemma page_rows:
  assumes "db_ok page_tips D V data" and "\<forall>h \<in> heights data. h < 2 ^ 63" and "i < 2 ^ 63"
  shows "[r \<leftarrow> da_rows data. kv_chain_tip r = tip_at i] = [r \<leftarrow> da_rows data. kv_height r = int i]"
    "query_row (\<lambda>r. u64_from_row (kv_height r)) [r \<leftarrow> da_rows data. kv_height r = int i] =
       Ok (if int i \<in> heights data then Some (word_of_nat i) else None)"
    "query_row (\<lambda>r. Ok (kv_chain_tip r)) [r \<leftarrow> da_rows data. kv_height r = int i] =
       Ok (if int i \<in> heights data then Some (tip_at i) else None)"
    "query_row (\<lambda>r. Ok ()) [r \<leftarrow> da_rows data. kv_height r = int i] = Ok (if int i \<in> heights data then Some () else None)"
proof -
  show "[r \<leftarrow> da_rows data. kv_chain_tip r = tip_at i] = [r \<leftarrow> da_rows data. kv_height r = int i]"
    using block_height_of_page(3) [OF assms] by (intro filter_cong) auto
  have "query_row f [r \<leftarrow> da_rows data. kv_height r = int i] = Ok (if int i \<in> heights data then Some c else None)"
    if f: "\<And>r. kv_height r = int i \<Longrightarrow> r \<in> set (da_rows data) \<Longrightarrow> f r = Ok c" for f :: "kv_row \<Rightarrow> (DbError, 'x) outcome" and c
  proof (cases "[r \<leftarrow> da_rows data. kv_height r = int i]")
    case Nil
    then have "int i \<notin> heights data" by (simp add: heights_def filter_empty_conv image_iff) metis
    then show ?thesis using Nil by (simp add: query_row_def)
  next
    case (Cons r rs)
    then have "r \<in> set [r \<leftarrow> da_rows data. kv_height r = int i]" by simp
    then have "kv_height r = int i" "r \<in> set (da_rows data)" "int i \<in> heights data" by (simp_all add: heights_def image_iff) metis
    then show ?thesis using Cons f by (simp add: query_row_def)
  qed
  note first = this
  show "query_row (\<lambda>r. u64_from_row (kv_height r)) [r \<leftarrow> da_rows data. kv_height r = int i] =
       Ok (if int i \<in> heights data then Some (word_of_nat i) else None)"
    by (rule first) (simp add: u64_from_row_def)
  show "query_row (\<lambda>r. Ok (kv_chain_tip r)) [r \<leftarrow> da_rows data. kv_height r = int i] =
       Ok (if int i \<in> heights data then Some (tip_at i) else None)"
    using block_height_of_page(3) [OF assms] by (intro first) auto
  show "query_row (\<lambda>r. Ok ()) [r \<leftarrow> da_rows data. kv_height r = int i] = Ok (if int i \<in> heights data then Some () else None)"
    by (rule first) simp
qed

lemma page_queries:
  assumes ok: "db_ok page_tips D V data" "\<forall>h \<in> heights data. h < 2 ^ 63" and i: "i < 2 ^ 63" and m: "m < 2 ^ 63"
  shows "tipless_get_block_height_of (da_rows data) (tip_at i) = Ok (if int i \<in> heights data then Some (word_of_nat i) else None)"
    "get_block_height_of (da_rows data) (word_of_nat m) (tip_at i) = Ok (if int i \<in> heights data \<and> i \<le> m then Some (word_of_nat i) else None)"
    "check_block_hash (da_rows data) (word_of_nat m) (tip_at i) = Ok (int i \<in> heights data \<and> i \<le> m)"
    "get_block_at_height (da_rows data) (word_of_nat m) (word_of_nat i) = Ok (if int i \<in> heights data \<and> i \<le> m then Some (tip_at i) else None)"
proof -
  note rows = page_rows [OF ok i]
  have w: "uint (word_of_nat i :: u64) = int i" "uint (word_of_nat m :: u64) = int m" using i m by (simp_all only: word_of_nat_uint)
  then have sql: "u64_to_sql (word_of_nat i) = Ok (int i)" "u64_to_sql (word_of_nat m) = Ok (int m)"
    using i m by (simp_all add: u64_to_sql_def word_less_def)
  have less: "(word_of_nat m :: u64) < word_of_nat i \<longleftrightarrow> m < i" using w by (simp add: word_less_def)
  have "0 < (word_of_nat i :: u64) \<longleftrightarrow> 0 < i" using w(1) by (simp add: word_less_def)
  moreover have "tip_at i \<noteq> GENESIS_BLOCK_ID \<longleftrightarrow> 0 < i" using i by (simp add: genesis_tip tip_at_inj)
  ultimately show "tipless_get_block_height_of (da_rows data) (tip_at i) = Ok (if int i \<in> heights data then Some (word_of_nat i) else None)"
    unfolding tipless_get_block_height_of_def rows(1,2) by (cases "i = 0") (simp_all add: genesis_tip)
  have both: "[r \<leftarrow> da_rows data. kv_chain_tip r = tip_at i \<and> kv_height r \<le> int m] =
      (if i \<le> m then [r \<leftarrow> da_rows data. kv_height r = int i] else [])"
    using block_height_of_page(3) [OF ok i] by (auto simp: filter_empty_conv intro!: filter_cong)
  show "get_block_height_of (da_rows data) (word_of_nat m) (tip_at i) = Ok (if int i \<in> heights data \<and> i \<le> m then Some (word_of_nat i) else None)"
    "check_block_hash (da_rows data) (word_of_nat m) (tip_at i) = Ok (int i \<in> heights data \<and> i \<le> m)"
    using rows(2,4) by (simp_all add: get_block_height_of_def check_block_hash_def sql both) (simp_all add: query_row_def)
  show "get_block_at_height (da_rows data) (word_of_nat m) (word_of_nat i) = Ok (if int i \<in> heights data \<and> i \<le> m then Some (tip_at i) else None)"
    using rows(3) by (simp add: get_block_at_height_def sql less)
qed

lemma value_at_top:
  assumes "\<forall>h' \<in> heights data. h' \<le> n" and "n \<le> h"
  shows "value_at D data h = value_at D data n"
proof -
  have "[r \<leftarrow> da_rows data. kv_key r = k \<and> kv_height r \<le> h] = [r \<leftarrow> da_rows data. kv_key r = k \<and> kv_height r \<le> n]" for k
    using assms by (auto simp: heights_def intro!: filter_cong)
  then show ?thesis by (simp add: value_at_def [abs_def] latest_def)
qed

text \<open>Reading at a block of the history.\<close>

lemma stored_page:
  assumes "pages D V data hist" and "i < length hist"
  shows "stored_data D data (word_of_nat i) k = Ok ((hist ! i) k)"
proof -
  have i: "i < 2 ^ 63" using pages_heights(4) [OF assms] .
  then have "uint (word_of_nat i :: u64) = int i" by (rule word_of_nat_uint(1))
  moreover have "values_ok D V data" using assms(1) by (simp add: pages_def db_ok_def)
  ultimately show ?thesis using stored_value [of D V data "word_of_nat i" k] assms i by (simp add: pages_def)
qed

lemma read_only_at:
  assumes "pages D V (wd_conn db) hist" and "i < length hist"
  shows "wrb_db_begin_read_only db (Some (tip_at i)) =
    Some \<lparr>ro_chain_tip = tip_at i, ro_tip_height = word_of_nat i, ro_conn = wd_conn db\<rparr>"
  using page_queries(1) [OF pages_heights(3,1) [OF assms(1)], of i 0] pages_heights(2,4) [OF assms(1)] assms(2)
  by (simp add: wrb_db_begin_read_only_def)

lemma newest_tip:
  assumes "pages D V data hist"
  shows "get_wrb_chain_tip (da_rows data) = tip_at (length hist - 1)"
proof -
  let ?rows = "sort_key (\<lambda>r. id_number (kv_chain_tip r)) (da_rows data)"
  have ne: "hist \<noteq> []" using assms by (simp add: pages_def)
  then have last: "int (length hist - 1) \<in> heights data" using pages_heights(2) [OF assms] by simp
  then have "by_height ?rows \<noteq> []" by (auto simp: by_height_def heights_def)
  then obtain r rs where r: "by_height ?rows = r # rs" by (cases "by_height ?rows") auto
  note first = sort_key_first [OF r [unfolded by_height_def]]
  have set: "r \<in> set (da_rows data)" using first(1) by simp
  then have "kv_height r \<in> heights data" by (simp add: heights_def)
  then obtain i where i: "kv_height r = int i" "i < length hist" using assms by (auto simp: pages_def)
  obtain r' where r': "r' \<in> set (da_rows data)" "int (length hist - 1) = kv_height r'"
    using last by (simp add: heights_def image_iff) metis
  then have "kv_height r' \<le> kv_height r" using first(2) by simp
  then have "i = length hist - 1" using i r'(2) ne by simp
  moreover have "kv_chain_tip r = tip_at i"
    using block_height_of_page(3) [OF pages_heights(3,1) [OF assms] _ set] pages_heights(4) [OF assms i(2)] i(1) by simp
  ultimately show ?thesis by (simp add: get_wrb_chain_tip_def r)
qed

section \<open>Visits\<close>

fun put_batches :: "'s side_db \<Rightarrow> 's WritableWrbStore \<Rightarrow> (string \<times> string) list list \<Rightarrow> (ClarityError, 's WritableWrbStore) outcome" where
  "put_batches D s [] = Ok s"
| "put_batches D s (b # bs) = obind (ws_put_all_data D s b) (\<lambda>s. put_batches D s bs)"

text \<open>A visit commits what its transactions put, each all at once.\<close>

definition visit_page :: "'s side_db \<Rightarrow> 's ClarityVM \<Rightarrow> (string \<times> string) list list \<Rightarrow> (VmError, 's ClarityVM) outcome" where
  "visit_page D vm batches =
     obind (from_opt (begin_page_load vm)) (\<lambda>s.
     obind (map_err (\<lambda>_. VmClarity ''put'') (put_batches D s batches)) (\<lambda>s.
     obind (map_err VmDB (ws_commit D s)) (\<lambda>conn. Ok (vm\<lparr>cv_db := (cv_db vm)\<lparr>wd_conn := conn\<rparr>\<rparr>))))"

fun run_visits :: "'s side_db \<Rightarrow> 's ClarityVM \<Rightarrow> (string \<times> string) list list list \<Rightarrow> (VmError, 's ClarityVM) outcome" where
  "run_visits D vm [] = Ok vm"
| "run_visits D vm (v # vs) = obind (visit_page D vm v) (\<lambda>vm. run_visits D vm vs)"

definition record_visit :: "(string \<rightharpoonup> string) list \<Rightarrow> (string \<times> string) list list \<Rightarrow> (string \<rightharpoonup> string) list" where
  "record_visit hist batches = (if concat batches = [] then hist else hist @ [put_items (last hist) (concat batches)])"

lemma load_page:
  assumes pg: "pages D V (wd_conn (cv_db vm)) hist" and n: "length hist = Suc n" "n + 1 < 2 ^ 63"
  shows "begin_page_load vm = Some \<lparr>ws_chain_tip = tip_at n, ws_tip_height = word_of_nat (n + 1), ws_next_tip = tip_at (n + 1),
    ws_tx = wd_conn (cv_db vm), ws_write_buf = write_buffer_new\<rparr>"
proof -
  note ok = pages_heights(3,1) [OF pg]
  have here: "int n \<in> heights (wd_conn (cv_db vm))" "n < 2 ^ 63" using pages_heights(2) [OF pg] n by auto
  have w: "uint (word_of_nat n :: u64) = int n" by (rule word_of_nat_uint(1) [OF here(2)])
  have "(word_of_nat n :: u64) \<noteq> - 1"
  proof
    assume "(word_of_nat n :: u64) = - 1"
    then have "uint (word_of_nat n :: u64) = 18446744073709551615" by (simp add: unsigned_minus_1_eq_mask mask_eq_exp_minus_1)
    then show False using w here(2) by simp
  qed
  then have inc: "checked_inc (word_of_nat n) = Some (word_of_nat (n + 1))" by (simp add: checked_inc_def add.commute)
  have tip: "get_wrb_chain_tip (da_rows (wd_conn (cv_db vm))) = tip_at n" using newest_tip [OF pg] n by simp
  have "wrb_db_begin (cv_db vm) (tip_at n) (tip_at (n + 1)) = Some \<lparr>ws_chain_tip = tip_at n, ws_tip_height = word_of_nat (n + 1),
      ws_next_tip = tip_at (n + 1), ws_tx = wd_conn (cv_db vm), ws_write_buf = write_buffer_new\<rparr>"
    using page_queries(1,2) [OF ok here(2) here(2)] here inc by (simp add: wrb_db_begin_def del: of_nat_add of_nat_Suc)
  moreover have "make_wrb_chain_tip (word_of_nat (Suc n)) = tip_at (Suc n)" by (simp only: tip_at_def)
  ultimately show ?thesis using block_height_of_page(1) [OF ok here(2)] here inc tip
    by (simp add: begin_page_load_def Let_def del: of_nat_add of_nat_Suc)
qed

end
