(* ===== verification/Kv_Writing.thy ===== *)
theory Kv_Writing
  imports Kv_Visits
begin

text \<open>
  Visits recorded: what a store has written during a visit, and what a commit makes of it.
\<close>

section \<open>Writing and committing\<close>

lemma target_insert: "target_ok t H cur nxt hs \<Longrightarrow> target_ok t H cur nxt (insert H hs)"
  by (auto simp: target_ok_def)

lemma writing_target:
  "target_ok t H cur nxt (heights data) \<Longrightarrow> writing t H cur nxt D V data items s \<Longrightarrow> target_ok t H cur nxt (heights (ws_tx s))"
  by (simp add: writing_def target_insert)

lemma writing_batches:
  assumes D: "side_ok D" "hashes_ok D V" and target: "target_ok t H cur nxt (heights data)"
    and "writing t H cur nxt D V data items s" and "snd ` set (concat batches) \<subseteq> V"
  shows "\<exists>tx. put_batches D s batches = Ok (s\<lparr>ws_tx := tx\<rparr>) \<and> writing t H cur nxt D V data (items @ concat batches) (s\<lparr>ws_tx := tx\<rparr>)"
  using assms(4,5)
proof (induction batches arbitrary: s items)
  case Nil
  then show ?case by (intro exI [where x = "ws_tx s"]) simp
next
  case (Cons b bs)
  have "snd ` set b \<subseteq> V" "snd ` set (concat bs) \<subseteq> V" using Cons.prems(2) by auto
  from writing_put [OF D Cons.prems(1) writing_target [OF target Cons.prems(1)] this(1)] obtain tx where
    tx: "ws_put_all_data D s b = Ok (s\<lparr>ws_tx := tx\<rparr>)" "writing t H cur nxt D V data (items @ b) (s\<lparr>ws_tx := tx\<rparr>)" by blast
  from Cons.IH [OF tx(2) \<open>snd ` set (concat bs) \<subseteq> V\<close>] obtain tx' where
    "put_batches D (s\<lparr>ws_tx := tx\<rparr>) bs = Ok (s\<lparr>ws_tx := tx'\<rparr>)"
    "writing t H cur nxt D V data ((items @ b) @ concat bs) (s\<lparr>ws_tx := tx'\<rparr>)" by auto
  then show ?case using tx(1) by (intro exI [where x = tx']) simp
qed

lemma dump_nothing:
  assumes "get_wrb_block_height (da_rows data) cur = Some height_opt" and "\<forall>h. height_opt = Some h \<longrightarrow> h \<noteq> - 1"
  shows "wb_dump D write_buffer_new data cur nxt = Ok (data, write_buffer_new)"
  using assms by (simp add: wb_dump_def write_buffer_new_def checked_inc_def split: option.splits)

text \<open>A database whose store of values answers the same stands for the same.\<close>

lemma db_ok_side:
  assumes "\<forall>h. sd_get D side h = sd_get D (da_side data) h"
  shows "db_ok t D V (data\<lparr>da_side := side\<rparr>) = db_ok t D V data" "value_at D (data\<lparr>da_side := side\<rparr>) = value_at D data"
    "heights (data\<lparr>da_side := side\<rparr>) = heights data"
proof -
  show "value_at D (data\<lparr>da_side := side\<rparr>) = value_at D data" using assms by (intro ext) (simp add: value_at_def split: option.split)
qed (use assms in \<open>simp_all add: db_ok_def values_ok_def heights_def\<close>)

lemma rename_same: "rename_tip b b rows = Ok rows"
  by (simp add: rename_tip_def map_idI)

lemma minus_one_u64: "i < 2 ^ 63 \<Longrightarrow> (word_of_nat i :: u64) \<noteq> - 1"
proof
  assume i: "i < 2 ^ 63" "(word_of_nat i :: u64) = - 1"
  then have "uint (word_of_nat i :: u64) = 18446744073709551615" by (simp add: unsigned_minus_1_eq_mask mask_eq_exp_minus_1)
  then show False using word_of_nat_uint(1) [OF i(1)] i(1) by simp
qed

lemma commit_page:
  assumes D: "side_ok D" and s: "writing page_tips (int (n + 1)) (tip_at n) (tip_at (n + 1)) D V data items s"
    and n: "n + 1 < 2 ^ 63" "\<forall>h \<in> heights data. h \<le> int n"
  shows "\<exists>conn. ws_commit D s = Ok conn \<and> db_ok page_tips D V conn \<and> heights conn = heights (ws_tx s) \<and>
    value_at D conn = value_at D (ws_tx s)"
proof -
  obtain side where side: "sd_commit_metadata D (da_side (ws_tx s)) (tip_at (n + 1)) (tip_at (n + 1)) = Ok side"
    "\<forall>h. sd_get D side h = sd_get D (da_side (ws_tx s)) h"
    using D unfolding side_ok_def by blast
  note same = db_ok_side [OF side(2)]
  have ok: "db_ok page_tips D V (ws_tx s)" using s by (simp add: writing_def)
  have "int (n + 1) < 2 ^ 63" using n(1) by (metis of_nat_less_iff of_nat_numeral of_nat_power)
  moreover have "\<forall>h \<in> heights (ws_tx s). h \<le> int (n + 1)"
  proof
    fix h
    assume "h \<in> heights (ws_tx s)"
    then have "h = int (n + 1) \<or> h \<in> heights data" using s by (auto simp: writing_def split: if_splits)
    then show "h \<le> int (n + 1)" using n(2) by auto
  qed
  ultimately have "\<forall>h \<in> heights (ws_tx s). h < 2 ^ 63" by fastforce
  from block_height_of_page(1) [OF ok this n(1)]
  have g: "get_wrb_block_height (da_rows ((ws_tx s)\<lparr>da_side := side\<rparr>)) (tip_at (n + 1)) =
      Some (if int (n + 1) \<in> heights (ws_tx s) then Some (word_of_nat (n + 1)) else None)" by (cases "ws_tx s") simp
  have "\<forall>h. (if int (n + 1) \<in> heights (ws_tx s) then Some (word_of_nat (n + 1) :: u64) else None) = Some h \<longrightarrow> h \<noteq> - 1"
    using minus_one_u64 [OF n(1)] by (metis option.distinct(1) option.sel)
  note dump_nothing [OF g this]
  then have "wb_dump D write_buffer_new ((ws_tx s)\<lparr>da_side := side\<rparr>) (tip_at (n + 1)) (tip_at (n + 1)) = Ok ((ws_tx s)\<lparr>da_side := side\<rparr>, write_buffer_new)" .
  then have "ws_commit D s = Ok ((ws_tx s)\<lparr>da_side := side\<rparr>)"
    using s side(1) by (simp add: ws_commit_def ws_commit_to_def Let_def writing_def rename_same)
  then show ?thesis using same ok by simp
qed

lemma begin_writing:
  assumes "pages D V data hist" and "length hist = Suc n" and "n + 1 < 2 ^ 63"
    and "s = \<lparr>ws_chain_tip = tip_at n, ws_tip_height = w, ws_next_tip = tip_at (n + 1), ws_tx = data, ws_write_buf = write_buffer_new\<rparr>"
  shows "target_ok page_tips (int (n + 1)) (tip_at n) (tip_at (n + 1)) (heights data)"
    "writing page_tips (int (n + 1)) (tip_at n) (tip_at (n + 1)) D V data [] s" "\<forall>h \<in> heights data. h \<le> int n"
proof -
  show le: "\<forall>h \<in> heights data. h \<le> int n" using assms(1,2) by (auto simp: pages_def)
  have "\<forall>h \<in> heights data. h \<le> int (n + 1)" using le by fastforce
  then show "target_ok page_tips (int (n + 1)) (tip_at n) (tip_at (n + 1)) (heights data)"
    using assms(2,3) pages_heights(2) [OF assms(1), of n] unfolding target_ok_def
    by (intro disjI2 exI [where x = n]) simp
  show "writing page_tips (int (n + 1)) (tip_at n) (tip_at (n + 1)) D V data [] s"
    using assms(1,4) by (simp add: writing_def pages_def)
qed

lemma visit_recorded:
  assumes D: "side_ok D" "hashes_ok D V" and pg: "pages D V (wd_conn (cv_db vm)) hist" and len: "length hist + 1 < 2 ^ 63"
    and V: "snd ` set (concat batches) \<subseteq> V"
  shows "\<exists>vm'. visit_page D vm batches = Ok vm' \<and> pages D V (wd_conn (cv_db vm')) (record_visit hist batches)"
proof -
  obtain n where n: "length hist = Suc n" using pg by (cases hist) (auto simp: pages_def)
  have n1: "n + 1 < 2 ^ 63" using len n by simp
  let ?data = "wd_conn (cv_db vm)"
  let ?s = "\<lparr>ws_chain_tip = tip_at n, ws_tip_height = word_of_nat (n + 1), ws_next_tip = tip_at (n + 1), ws_tx = ?data,
    ws_write_buf = write_buffer_new\<rparr>"
  note load = load_page [OF pg n n1]
  note start = begin_writing [OF pg n n1 refl [of ?s]]
  from writing_batches [OF D start(1,2) V] obtain tx where
    tx: "put_batches D ?s batches = Ok (?s\<lparr>ws_tx := tx\<rparr>)"
    "writing page_tips (int (n + 1)) (tip_at n) (tip_at (n + 1)) D V ?data (concat batches) (?s\<lparr>ws_tx := tx\<rparr>)" by auto
  from commit_page [OF D(1) tx(2) n1 start(3)] obtain conn where
    conn: "ws_commit D (?s\<lparr>ws_tx := tx\<rparr>) = Ok conn" "db_ok page_tips D V conn" "heights conn = heights tx" "value_at D conn = value_at D tx"
    by auto
  let ?vm = "vm\<lparr>cv_db := (cv_db vm)\<lparr>wd_conn := conn\<rparr>\<rparr>"
  have "visit_page D vm batches = Ok ?vm" using load tx(1) conn(1) by (simp add: visit_page_def)
  moreover have "pages D V conn (record_visit hist batches)"
  proof (cases "concat batches = []")
    case True
    then have "value_at D conn = value_at D ?data" "heights conn = heights ?data"
      using tx(2) conn(3,4) by (auto simp: writing_def simp del: concat_eq_Nil_conv)
    then show ?thesis using True pg conn(2) by (simp add: record_visit_def pages_def del: concat_eq_Nil_conv)
  next
    case False
    have hs: "heights conn = insert (int (n + 1)) (int ` {..<Suc n})"
      using False tx(2) conn(3) pg n by (simp add: writing_def pages_def del: concat_eq_Nil_conv)
    have "int ` {..<Suc (Suc n)} = insert (int (n + 1)) (int ` {..<Suc n})" by (simp add: lessThan_Suc)
    moreover have "value_at D conn (int i) = (hist @ [put_items (last hist) (concat batches)]) ! i" if i: "i < Suc (Suc n)" for i
    proof (cases "i = Suc n")
      case True
      have "value_at D ?data (int (n + 1)) = value_at D ?data (int n)" by (rule value_at_top [OF start(3)]) simp
      also have "\<dots> = last hist" using pg n by (simp add: pages_def last_conv_nth)
      finally show ?thesis using True tx(2) conn(4) n by (simp add: writing_def nth_append)
    next
      case False
      then show ?thesis using i tx(2) conn(4) pg n by (simp add: writing_def nth_append pages_def)
    qed
    ultimately show ?thesis using False n n1 conn(2) hs len by (simp add: record_visit_def pages_def del: concat_eq_Nil_conv)
  qed
  ultimately show ?thesis by (intro exI [where x = ?vm]) simp
qed

lemma length_record: "length (record_visit hist batches) \<le> length hist + 1" "hist \<noteq> [] \<Longrightarrow> record_visit hist batches \<noteq> []"
  by (simp_all add: record_visit_def)

lemma visits_recorded:
  assumes D: "side_ok D" "hashes_ok D V" and "pages D V (wd_conn (cv_db vm)) hist" and "length hist + length visits < 2 ^ 63"
    and "snd ` set (concat (concat visits)) \<subseteq> V"
  shows "\<exists>vm'. run_visits D vm visits = Ok vm' \<and> pages D V (wd_conn (cv_db vm')) (foldl record_visit hist visits)"
  using assms(3-5)
proof (induction visits arbitrary: vm hist)
  case (Cons v vs)
  have "length hist + 1 < 2 ^ 63" "snd ` set (concat v) \<subseteq> V" using Cons.prems(2,3) by auto
  from visit_recorded [OF D Cons.prems(1) this] obtain vm1 where
    vm1: "visit_page D vm v = Ok vm1" "pages D V (wd_conn (cv_db vm1)) (record_visit hist v)" by blast
  have "length (record_visit hist v) + length vs < 2 ^ 63" using Cons.prems(2) length_record(1) [of hist v] by simp
  moreover have "snd ` set (concat (concat vs)) \<subseteq> V" using Cons.prems(3) by (simp add: image_Un)
  ultimately show ?case using Cons.IH [OF vm1(2)] vm1(1) by simp
qed simp

section \<open>Time-shifted reads\<close>

lemma new_tip_at:
  assumes "db_ok page_tips D V data" and "\<forall>h \<in> heights data. h < 2 ^ 63" and "int i \<in> heights data" and "i < 2 ^ 63" and "m < 2 ^ 63"
  shows "new_tip_height (da_rows data) (word_of_nat m) (tip_at i) =
    (if i \<le> m then Ok (word_of_nat i) else Err (RuntimeUnknownBlockHeaderHash (tip_at i)))"
  using page_queries(1,3) [OF assms(1,2,4,5)] assms(3) by (simp add: new_tip_height_def)

text \<open>
  What the interpreter gets of a store when it moves it to another block, for both stores: the
  block it was at before, and a store that reads at the height of the new block.
\<close>

locale block_store =
  fixes at_tip :: "'st \<Rightarrow> StacksBlockId" and at_height :: "'st \<Rightarrow> u64" and data_of :: "'st \<Rightarrow> 's kv_data"
    and set_hash :: "'st \<Rightarrow> StacksBlockId \<Rightarrow> (ClarityError, StacksBlockId \<times> 'st) outcome"
    and read :: "'s side_db \<Rightarrow> 'st \<Rightarrow> string \<Rightarrow> (ClarityError, string option) outcome" and settled :: "'st \<Rightarrow> bool"
  assumes set_hash_Ok: "new_tip_height (da_rows (data_of s)) (at_height s) b = Ok h \<Longrightarrow>
      \<exists>s'. set_hash s b = Ok (at_tip s, s') \<and> at_tip s' = b \<and> at_height s' = h \<and> data_of s' = data_of s \<and> (settled s \<longrightarrow> settled s')"
    and set_hash_Err: "new_tip_height (da_rows (data_of s)) (at_height s) b = Err e \<Longrightarrow> set_hash s b = Err e"
    and read_settled: "settled s \<Longrightarrow> read D s k = stored_data D (data_of s) (at_height s) k"
begin

lemma shift:
  assumes "db_ok page_tips D V (data_of s)" "\<forall>h \<in> heights (data_of s). h < 2 ^ 63" and "settled s"
    and "at_height s = word_of_nat m" "m < 2 ^ 63" and b: "int b \<in> heights (data_of s)" "b \<le> m"
  shows "\<exists>s1. set_hash s (tip_at b) = Ok (at_tip s, s1) \<and> at_tip s1 = tip_at b \<and> at_height s1 = word_of_nat b \<and>
    data_of s1 = data_of s \<and> settled s1 \<and> (\<forall>k. read D s1 k = Ok (value_at D (data_of s) (int b) k))"
proof -
  have b63: "b < 2 ^ 63" using b(2) assms(5) by simp
  have "new_tip_height (da_rows (data_of s)) (at_height s) (tip_at b) = Ok (word_of_nat b)"
    using new_tip_at [OF assms(1,2) b(1) b63 assms(5)] b(2) by (simp add: assms(4))
  from set_hash_Ok [OF this] obtain s1 where s1: "set_hash s (tip_at b) = Ok (at_tip s, s1)" "at_tip s1 = tip_at b"
    "at_height s1 = word_of_nat b" "data_of s1 = data_of s" "settled s1" using assms(3) by blast
  have "values_ok D V (data_of s)" using assms(1) by (simp add: db_ok_def)
  moreover have "uint (word_of_nat b :: u64) = int b" by (rule word_of_nat_uint(1) [OF b63])
  ultimately have "read D s1 k = Ok (value_at D (data_of s) (int b) k)" for k
    using read_settled [OF s1(5), of D k] stored_value [of D V "data_of s" "word_of_nat b" k] b63 by (simp add: s1(3,4))
  then show ?thesis using s1 by blast
qed

lemma no_return:
  assumes "db_ok page_tips D V (data_of s1)" "\<forall>h \<in> heights (data_of s1). h < 2 ^ 63"
    and "at_height s1 = word_of_nat b" and n: "int n \<in> heights (data_of s1)" "b < n" "n < 2 ^ 63"
  shows "set_hash s1 (tip_at n) = Err (RuntimeUnknownBlockHeaderHash (tip_at n))"
proof -
  have "b < 2 ^ 63" using n by simp
  then show ?thesis using new_tip_at [OF assms(1,2) n(1,3), of b] n(2) by (intro set_hash_Err) (simp add: assms(3))
qed

end

interpretation ro_store: block_store ro_chain_tip ro_tip_height ro_conn ro_set_block_hash ro_get_data "\<lambda>_. True"
  by unfold_locales (auto simp: ro_set_block_hash_def ro_get_data_def)

interpretation ws_store: block_store ws_chain_tip ws_tip_height ws_tx ws_set_block_hash ws_get_data "\<lambda>s. ws_write_buf s = write_buffer_new"
  by unfold_locales (auto simp: ws_set_block_hash_def ws_get_data_def wb_get_def write_buffer_new_def)

lemma written_store:
  assumes D: "side_ok D" "hashes_ok D V" and pg: "pages D V (wd_conn (cv_db vm)) hist" and len: "length hist + 1 < 2 ^ 63"
    and V: "snd ` set (concat batches) \<subseteq> V" and n: "length hist = Suc n"
  shows "\<exists>tx. begin_page_load vm = Some \<lparr>ws_chain_tip = tip_at n, ws_tip_height = word_of_nat (n + 1), ws_next_tip = tip_at (n + 1),
        ws_tx = wd_conn (cv_db vm), ws_write_buf = write_buffer_new\<rparr> \<and>
      put_batches D \<lparr>ws_chain_tip = tip_at n, ws_tip_height = word_of_nat (n + 1), ws_next_tip = tip_at (n + 1),
        ws_tx = wd_conn (cv_db vm), ws_write_buf = write_buffer_new\<rparr> batches =
        Ok \<lparr>ws_chain_tip = tip_at n, ws_tip_height = word_of_nat (n + 1), ws_next_tip = tip_at (n + 1), ws_tx = tx,
          ws_write_buf = write_buffer_new\<rparr> \<and>
      db_ok page_tips D V tx \<and> (\<forall>h \<in> heights tx. h < 2 ^ 63) \<and> (\<forall>i \<le> n. int i \<in> heights tx) \<and>
      (\<forall>i \<le> n. value_at D tx (int i) = hist ! i) \<and> value_at D tx (int (n + 1)) = put_items (last hist) (concat batches)"
proof -
  have n1: "n + 1 < 2 ^ 63" using len n by simp
  let ?data = "wd_conn (cv_db vm)"
  let ?s = "\<lparr>ws_chain_tip = tip_at n, ws_tip_height = word_of_nat (n + 1), ws_next_tip = tip_at (n + 1), ws_tx = ?data,
    ws_write_buf = write_buffer_new\<rparr>"
  note start = begin_writing [OF pg n n1 refl [of ?s]]
  from writing_batches [OF D start(1,2) V] obtain tx where
    tx: "put_batches D ?s batches = Ok (?s\<lparr>ws_tx := tx\<rparr>)"
    "writing page_tips (int (n + 1)) (tip_at n) (tip_at (n + 1)) D V ?data (concat batches) (?s\<lparr>ws_tx := tx\<rparr>)" by auto
  have hs: "heights tx = (if concat batches = [] then heights ?data else insert (int (n + 1)) (heights ?data))"
    and val: "\<And>h. value_at D tx h = (if int (n + 1) \<le> h then put_items (value_at D ?data h) (concat batches) else value_at D ?data h)"
    and ok: "db_ok page_tips D V tx" using tx(2) by (simp_all add: writing_def del: concat_eq_Nil_conv)
  have "int (n + 1) < 2 ^ 63" using n1 by (metis of_nat_less_iff of_nat_numeral of_nat_power)
  then have lim: "\<forall>h \<in> heights tx. h < 2 ^ 63" using pages_heights(1) [OF pg] unfolding hs by auto
  have there: "\<forall>i \<le> n. int i \<in> heights tx" using pages_heights(2) [OF pg] n unfolding hs by auto
  have old: "\<forall>i \<le> n. value_at D tx (int i) = hist ! i" using val pg n by (simp add: pages_def)
  have "value_at D ?data (int (n + 1)) = value_at D ?data (int n)" by (rule value_at_top [OF start(3)]) simp
  also have "\<dots> = last hist" using pg n by (simp add: pages_def last_conv_nth)
  finally have "value_at D tx (int (n + 1)) = put_items (last hist) (concat batches)" using val by simp
  then show ?thesis using load_page [OF pg n n1] tx(1) ok lim there old by (intro exI [where x = tx]) simp
qed

lemma written_data:
  assumes "db_ok page_tips D V tx" and "i < 2 ^ 63" and "ws_write_buf s = write_buffer_new" and "ws_tx s = tx" and "ws_tip_height s = word_of_nat i"
  shows "ws_get_data D s k = Ok (value_at D tx (int i) k)"
  using stored_value [of D V tx "word_of_nat i" k] assms word_of_nat_uint(1) [OF assms(2)]
  by (simp add: ws_get_data_def wb_get_def write_buffer_new_def db_ok_def)

end
