(* ===== verification/Kv_Install.thy ===== *)
theory Kv_Install
  imports Kv_Writing
begin

text \<open>
  The installation of a page: a new file, what the interpreter may do to a store, and the commit
  that turns the rows of the boot block into those of the genesis block.
\<close>

section \<open>A new file\<close>

abbreviation boot_tips :: "int \<Rightarrow> StacksBlockId" where
  "boot_tips \<equiv> (\<lambda>_. BOOT_BLOCK_ID)"

lemma new_vm:
  assumes "side_ok D" and "clarity_vm_new D None db_path domain version = Ok vm"
  shows "db_ok boot_tips D V (wd_conn (cv_db vm))" "heights (wd_conn (cv_db vm)) = {0}"
proof -
  obtain side where side: "sd_initialize D (sd_fresh D) = Some side" "\<forall>h. sd_get D side h = Ok None" "\<not> sd_check_schema D (sd_fresh D)"
    using assms(1) unfolding side_ok_def by blast
  then have "wd_conn (cv_db vm) = \<lparr>da_rows = [\<lparr>kv_chain_tip = BOOT_BLOCK_ID, kv_height = 0, kv_key = ''genesis'',
      kv_data_hash = to_hex BOOT_BLOCK_ID\<rparr>], da_side = side\<rparr>"
    using assms(2) by (auto simp: clarity_vm_new_def wrb_db_open_def setup_db_def replace_into_def obind_Ok_iff)
  then show "db_ok boot_tips D V (wd_conn (cv_db vm))" "heights (wd_conn (cv_db vm)) = {0}"
    using side(2) by (auto simp: db_ok_def rows_ok_def values_ok_def heights_def)
qed

text \<open>A store of the boot block.\<close>

definition boot_store :: "'s kv_data \<Rightarrow> StacksBlockId \<Rightarrow> 's WritableWrbStore" where
  "boot_store data nxt =
     \<lparr>ws_chain_tip = BOOT_BLOCK_ID, ws_tip_height = 0, ws_next_tip = nxt, ws_tx = data, ws_write_buf = write_buffer_new\<rparr>"

lemma begin_boot: "wrb_db_begin db BOOT_BLOCK_ID nxt = Some (boot_store (wd_conn db) nxt)"
  by (simp add: wrb_db_begin_def tipless_get_block_height_of_def boot_store_def)

lemma rename_boot:
  assumes "rows_ok boot_tips rows" and "b \<noteq> BOOT_BLOCK_ID"
  shows "rename_tip b BOOT_BLOCK_ID rows = Ok (map (\<lambda>r. r\<lparr>kv_chain_tip := b\<rparr>) rows)"
proof -
  have "kv_chain_tip r = BOOT_BLOCK_ID" if "r \<in> set rows" for r using assms(1) that by (simp add: rows_ok_def)
  then show ?thesis using assms(2) by (auto simp: rename_tip_def same_key_def)
qed

lemma commit_boot:
  assumes D: "side_ok D" and s: "writing boot_tips 0 BOOT_BLOCK_ID nxt D V data items s" and data: "heights data = {0}"
    and b: "b \<noteq> BOOT_BLOCK_ID"
  shows "\<exists>side. ws_commit_to D s b = Ok \<lparr>da_rows = map (\<lambda>r. r\<lparr>kv_chain_tip := b\<rparr>) (da_rows (ws_tx s)), da_side = side\<rparr> \<and>
    (\<forall>h. sd_get D side h = sd_get D (da_side (ws_tx s)) h) \<and> heights (ws_tx s) = {0} \<and> db_ok boot_tips D V (ws_tx s)"
proof -
  obtain side where side: "sd_commit_metadata D (da_side (ws_tx s)) BOOT_BLOCK_ID b = Ok side"
    "\<forall>h. sd_get D side h = sd_get D (da_side (ws_tx s)) h" using D unfolding side_ok_def by blast
  have ok: "db_ok boot_tips D V (ws_tx s)" and hs: "heights (ws_tx s) = {0}" using s data by (simp_all add: writing_def)
  have rows: "kv_height r = 0" if "r \<in> set (da_rows (ws_tx s))" for r using that hs by (auto simp: heights_def)
  have "da_rows (ws_tx s) \<noteq> []" using hs by (auto simp: heights_def)
  then obtain r rs where r: "da_rows (ws_tx s) = r # rs" by (cases "da_rows (ws_tx s)") auto
  then have "kv_height r = 0" "kv_chain_tip r = BOOT_BLOCK_ID" using rows ok by (auto simp: db_ok_def rows_ok_def)
  then have "get_wrb_block_height (da_rows ((ws_tx s)\<lparr>da_side := side\<rparr>)) BOOT_BLOCK_ID = Some (Some 0)"
    using r by (simp add: get_wrb_block_height_def u64_from_row_def)
  from dump_nothing [OF this, where nxt = b and D = D] have "wb_dump D write_buffer_new ((ws_tx s)\<lparr>da_side := side\<rparr>) BOOT_BLOCK_ID b =
      Ok ((ws_tx s)\<lparr>da_side := side\<rparr>, write_buffer_new)" by simp
  then have "ws_commit_to D s b = Ok \<lparr>da_rows = map (\<lambda>r. r\<lparr>kv_chain_tip := b\<rparr>) (da_rows (ws_tx s)), da_side = side\<rparr>"
    using side(1) s ok rename_boot [OF _ b, of "da_rows (ws_tx s)"]
    by (cases "ws_tx s") (simp add: ws_commit_to_def writing_def db_ok_def)
  then show ?thesis using side(2) hs ok by blast
qed

text \<open>The rows of the boot block, renamed to the genesis block, are a history of one block.\<close>

lemma pages_installed:
  assumes "db_ok boot_tips D V tx" and hs: "heights tx = {0}" and side: "\<forall>h. sd_get D side h = sd_get D (da_side tx) h"
    and conn: "conn = \<lparr>da_rows = map (\<lambda>r. r\<lparr>kv_chain_tip := GENESIS_BLOCK_ID\<rparr>) (da_rows tx), da_side = side\<rparr>"
  shows "pages D V conn [value_at D conn 0]"
proof -
  have rows: "kv_height r = 0" "kv_chain_tip r = BOOT_BLOCK_ID" if "r \<in> set (da_rows tx)" for r
    using that hs assms(1) by (auto simp: heights_def db_ok_def rows_ok_def)
  have "distinct (map (\<lambda>r. (kv_chain_tip r, kv_height r, kv_key r)) (da_rows tx))" using assms(1) by (simp add: db_ok_def rows_ok_def)
  also have "map (\<lambda>r. (kv_chain_tip r, kv_height r, kv_key r)) (da_rows tx) =
      map (\<lambda>k. (BOOT_BLOCK_ID, 0, k)) (map kv_key (da_rows tx))" using rows by simp
  finally have "distinct (map (\<lambda>k. (BOOT_BLOCK_ID, 0 :: int, k)) (map kv_key (da_rows tx)))" .
  then have "distinct (map kv_key (da_rows tx))" unfolding distinct_map by blast
  moreover have "map (\<lambda>r. (kv_chain_tip r, kv_height r, kv_key r)) (da_rows conn) = map (\<lambda>k. (tip_at 0, 0, k)) (map kv_key (da_rows tx))"
    using rows by (simp add: conn genesis_tip)
  ultimately have "distinct (map (\<lambda>r. (kv_chain_tip r, kv_height r, kv_key r)) (da_rows conn))" by (simp add: distinct_map inj_on_def)
  then have "rows_ok page_tips (da_rows conn)" using rows by (auto simp: rows_ok_def conn page_tips_def genesis_tip)
  moreover have "values_ok D V conn" using assms(1) side by (auto simp: db_ok_def values_ok_def conn)
  moreover have "heights conn = {0}" using hs by (simp add: heights_def conn image_image)
  ultimately show ?thesis by (simp add: pages_def db_ok_def lessThan_Suc)
qed

section \<open>The interpreter\<close>

text \<open>
  What is relied on of the interpreter when it runs some pieces of code: it writes to a store by
  \<open>put_all_data\<close> and to the metadata only, with values of \<open>V\<close>, and rolling back leaves the store
  alone. \<open>Pd s d\<close> says that the database \<open>d\<close> is open on the store \<open>s\<close>, \<open>Pe s e\<close> the same of an
  environment. An installation runs four pieces of code, so \<open>V\<close> has to have no more values than
  those four write.
\<close>

inductive wrote :: "'s side_db \<Rightarrow> string set \<Rightarrow> 's WritableWrbStore \<Rightarrow> 's WritableWrbStore \<Rightarrow> bool" for D V s where
  wrote_nothing: "wrote D V s s"
| wrote_items: "wrote D V s s' \<Longrightarrow> snd ` set items \<subseteq> V \<Longrightarrow> ws_put_all_data D s' items = Ok s'' \<Longrightarrow> wrote D V s s''"
| wrote_metadata: "wrote D V s s' \<Longrightarrow> \<forall>h. sd_get D side h = sd_get D (da_side (ws_tx s')) h \<Longrightarrow>
    wrote D V s (s'\<lparr>ws_tx := (ws_tx s')\<lparr>da_side := side\<rparr>\<rparr>)"

lemma wrote_trans: "wrote D V s' s'' \<Longrightarrow> wrote D V s s' \<Longrightarrow> wrote D V s s''"
  by (induction rule: wrote.induct) (auto intro: wrote.intros)

definition install_codes :: "('s, 'i, 'ast, 'd, 'e, 'c) vm_env \<Rightarrow> 's ClarityVM \<Rightarrow> string \<Rightarrow> string set" where
  "install_codes X vm app_code =
     {WRB_LL_CODE X, wrb_link_app X app_code, set_app_name_code X vm,
      set_app_code_hash_code (get_code_hash X vm (vx_utf8 X (wrb_link_app X app_code)))}"

definition vm_ok ::
  "('s, 'i, 'ast, 'd, 'e, 'c) vm_env \<Rightarrow> 's side_db \<Rightarrow> string set \<Rightarrow> string set \<Rightarrow> ('s WritableWrbStore \<Rightarrow> 'd \<Rightarrow> bool) \<Rightarrow>
     ('s WritableWrbStore \<Rightarrow> 'e \<Rightarrow> bool) \<Rightarrow> bool" where
  "vm_ok X D V codes Pd Pe \<longleftrightarrow>
     (\<forall>i ast s s'. (\<exists>code \<in> codes. vx_parse X i code = Ok ast) \<longrightarrow> vx_analyze X i ast s = Ok s' \<longrightarrow> wrote D V s s') \<and>
     (\<forall>headers s. Pd s (vx_clarity_db X headers s)) \<and>
     (\<forall>headers s s'. vx_roll_back X (vx_clarity_db X headers s) = Ok s' \<longrightarrow> s' = s) \<and>
     (\<forall>s d s'. Pd s d \<longrightarrow> vx_commit X d = Ok s' \<longrightarrow> wrote D V s s') \<and>
     (\<forall>s d. Pd s d \<longrightarrow> Pe s (vx_open_env X d)) \<and>
     (\<forall>s e i code e'. code \<in> codes \<longrightarrow> Pe s e \<longrightarrow> vx_initialize_contract X e i code = Ok e' \<longrightarrow> Pe s e') \<and>
     (\<forall>s e i c e'. Pe s e \<longrightarrow> vx_get_contract X e i = Ok (c, e') \<longrightarrow> Pe s e') \<and>
     (\<forall>s e c code e'. code \<in> codes \<longrightarrow> Pe s e \<longrightarrow> vx_eval X e c code = Ok e' \<longrightarrow> Pe s e') \<and>
     (\<forall>s e d. Pe s e \<longrightarrow> vx_destruct X e = Some d \<longrightarrow> Pd s d)"

lemma vm_ok_steps:
  assumes "vm_ok X D V codes Pd Pe"
  shows "code \<in> codes \<Longrightarrow> vx_parse X i code = Ok ast \<Longrightarrow> vx_analyze X i ast s = Ok s' \<Longrightarrow> wrote D V s s'"
    "Pd s (vx_clarity_db X headers s)"
    "vx_roll_back X (vx_clarity_db X headers s) = Ok s' \<Longrightarrow> s' = s"
    "Pd s d \<Longrightarrow> vx_commit X d = Ok s' \<Longrightarrow> wrote D V s s'"
    "Pd s d \<Longrightarrow> Pe s (vx_open_env X d)"
    "code \<in> codes \<Longrightarrow> Pe s e \<Longrightarrow> vx_initialize_contract X e i code = Ok e' \<Longrightarrow> Pe s e'"
    "Pe s e \<Longrightarrow> vx_get_contract X e i = Ok (c, e') \<Longrightarrow> Pe s e'"
    "code \<in> codes \<Longrightarrow> Pe s e \<Longrightarrow> vx_eval X e c code = Ok e' \<Longrightarrow> Pe s e'"
    "Pe s e \<Longrightarrow> vx_destruct X e = Some d \<Longrightarrow> Pd s d"
proof -
  note laws = assms [unfolded vm_ok_def]
  note rest = laws [THEN conjunct2] laws [THEN conjunct2, THEN conjunct2] laws [THEN conjunct2, THEN conjunct2, THEN conjunct2]
  note later = rest(3) [THEN conjunct2] rest(3) [THEN conjunct2, THEN conjunct2] rest(3) [THEN conjunct2, THEN conjunct2, THEN conjunct2]
  note last = later(3) [THEN conjunct2] later(3) [THEN conjunct2, THEN conjunct2]
  show "code \<in> codes \<Longrightarrow> vx_parse X i code = Ok ast \<Longrightarrow> vx_analyze X i ast s = Ok s' \<Longrightarrow> wrote D V s s'"
    using laws [THEN conjunct1] by blast
  show "Pd s (vx_clarity_db X headers s)" by (rule rest(1) [THEN conjunct1, rule_format])
  show "vx_roll_back X (vx_clarity_db X headers s) = Ok s' \<Longrightarrow> s' = s" by (rule rest(2) [THEN conjunct1, rule_format])
  show "Pd s d \<Longrightarrow> vx_commit X d = Ok s' \<Longrightarrow> wrote D V s s'" by (rule rest(3) [THEN conjunct1, rule_format])
  show "Pd s d \<Longrightarrow> Pe s (vx_open_env X d)" by (rule later(1) [THEN conjunct1, rule_format])
  show "code \<in> codes \<Longrightarrow> Pe s e \<Longrightarrow> vx_initialize_contract X e i code = Ok e' \<Longrightarrow> Pe s e'" by (rule later(2) [THEN conjunct1, rule_format])
  show "Pe s e \<Longrightarrow> vx_get_contract X e i = Ok (c, e') \<Longrightarrow> Pe s e'" by (rule later(3) [THEN conjunct1, rule_format])
  show "code \<in> codes \<Longrightarrow> Pe s e \<Longrightarrow> vx_eval X e c code = Ok e' \<Longrightarrow> Pe s e'" by (rule last(1) [THEN conjunct1, rule_format])
  show "Pe s e \<Longrightarrow> vx_destruct X e = Some d \<Longrightarrow> Pd s d" by (rule last(2) [rule_format])
qed

lemma deploy_writes:
  assumes X: "vm_ok X D V codes Pd Pe" and go_on: "\<And>s e e'. Pe s e \<Longrightarrow> continue e = Ok e' \<Longrightarrow> Pe s e'" and code: "code \<in> codes"
    and "deploy_contract X headers i code continue s = Ok s'"
  shows "wrote D V s s'"
proof -
  obtain ast s1 e1 e2 d where step: "vx_parse X i code = Ok ast" "vx_analyze X i ast s = Ok s1"
    "vx_initialize_contract X (vx_open_env X (vx_clarity_db X headers s1)) i code = Ok e1" "continue e1 = Ok e2"
    "vx_destruct X e2 = Some d" "vx_commit X d = Ok s'"
    using assms(4) by (auto simp: deploy_contract_def obind_Ok_iff)
  note ops = vm_ok_steps [OF X]
  have "wrote D V s s1" using code step(1,2) by (rule ops(1))
  moreover have "Pe s1 e1" using ops(2,5) step(3) by (blast intro: ops(6) [OF code])
  then have "Pe s1 e2" by (rule go_on) (rule step(4))
  then have "wrote D V s1 s'" using step(5,6) by (blast intro: ops(4,9))
  ultimately show ?thesis by (rule wrote_trans [rotated])
qed

lemma install_writes:
  assumes X: "vm_ok X D V (install_codes X vm app_code) Pd Pe" and "initialize_app D X vm app_code = Ok (i, vm')"
  shows "\<exists>s conn. wrote D V (boot_store (wd_conn (cv_db vm)) GENESIS_BLOCK_ID) s \<and> ws_commit_to D s GENESIS_BLOCK_ID = Ok conn \<and>
    vm' = vm\<lparr>cv_db := (cv_db vm)\<lparr>wd_conn := conn\<rparr>\<rparr>"
proof -
  let ?s = "boot_store (wd_conn (cv_db vm)) GENESIS_BLOCK_ID"
  let ?db = "vx_clarity_db X (headers_db vm) ?s"
  let ?hash = "get_code_hash X vm (vx_utf8 X (wrb_link_app X app_code))"
  obtain app_name ll_name s0 s1 s2 conn where step: "vx_roll_back X ?db = Ok s0"
    "(if vx_has_contract X ?db (vx_contract_id X ll_name) then Ok s0
      else deploy_contract X (headers_db vm) (vx_contract_id X ll_name) (WRB_LL_CODE X)
        (\<lambda>vm_env. obind (vx_get_contract X vm_env (vx_contract_id X ll_name)) (\<lambda>(contract, vm_env).
           obind (vx_eval X vm_env contract (set_app_name_code X vm)) (\<lambda>vm_env.
           vx_eval X vm_env contract (set_app_code_hash_code ?hash)))) s0) = Ok s1"
    "(if vx_has_contract X ?db (vx_contract_id X app_name) then Ok s1
      else deploy_contract X (headers_db vm) (vx_contract_id X app_name) (wrb_link_app X app_code) Ok s1) = Ok s2"
    "ws_commit_to D s2 GENESIS_BLOCK_ID = Ok conn" "vm' = vm\<lparr>cv_db := (cv_db vm)\<lparr>wd_conn := conn\<rparr>\<rparr>"
    using assms(2) by (auto simp: initialize_app_def Let_def obind_Ok_iff begin_boot)
  have "s0 = ?s" by (rule vm_ok_steps(3) [OF X step(1)])
  moreover have "wrote D V s0 s1"
  proof (cases "vx_has_contract X ?db (vx_contract_id X ll_name)")
    case False
    have go_on: "Pe s e'" if e: "Pe s e" and run: "obind (vx_get_contract X e (vx_contract_id X ll_name)) (\<lambda>(contract, vm_env).
           obind (vx_eval X vm_env contract (set_app_name_code X vm)) (\<lambda>vm_env.
           vx_eval X vm_env contract (set_app_code_hash_code ?hash))) = Ok e'" for s e e'
    proof -
      obtain c e1 e2 where get: "vx_get_contract X e (vx_contract_id X ll_name) = Ok (c, e1)"
        and evals: "vx_eval X e1 c (set_app_name_code X vm) = Ok e2" "vx_eval X e2 c (set_app_code_hash_code ?hash) = Ok e'"
        using run by (auto simp: obind_Ok_iff)
      have codes: "set_app_name_code X vm \<in> install_codes X vm app_code" "set_app_code_hash_code ?hash \<in> install_codes X vm app_code"
        by (simp_all add: install_codes_def)
      have "Pe s e1" by (rule vm_ok_steps(7) [OF X e get])
      then have "Pe s e2" by (rule vm_ok_steps(8) [OF X codes(1) _ evals(1)])
      then show ?thesis by (rule vm_ok_steps(8) [OF X codes(2) _ evals(2)])
    qed
    have "WRB_LL_CODE X \<in> install_codes X vm app_code" by (simp add: install_codes_def)
    from deploy_writes [OF X go_on this] show ?thesis using step(2) False by (simp only: if_False)
  qed (use step(2) in \<open>simp add: wrote_nothing\<close>)
  moreover have "wrote D V s1 s2"
  proof (cases "vx_has_contract X ?db (vx_contract_id X app_name)")
    case False
    then have "deploy_contract X (headers_db vm) (vx_contract_id X app_name) (wrb_link_app X app_code) Ok s1 = Ok s2" using step(3) by simp
    then show ?thesis by (rule deploy_writes [OF X, rotated 2]) (simp_all add: install_codes_def)
  qed (use step(3) in \<open>simp add: wrote_nothing\<close>)
  ultimately have "wrote D V ?s s2" using wrote_trans by blast
  then show ?thesis using step(4,5) by blast
qed

lemma wrote_writing:
  assumes D: "side_ok D" "hashes_ok D V" and "wrote D V s0 s" and "writing t H cur nxt D V data [] s0"
    and "target_ok t H cur nxt (heights data)"
  shows "\<exists>items. writing t H cur nxt D V data items s"
  using assms(3)
proof (induction rule: wrote.induct)
  case (wrote_items s' items s'')
  then obtain written where w: "writing t H cur nxt D V data written s'" by blast
  from writing_put [OF D w writing_target [OF assms(5) w] wrote_items.hyps(2)] wrote_items.hyps(3) show ?case by auto
next
  case (wrote_metadata s' side)
  then obtain written where "writing t H cur nxt D V data written s'" by blast
  then have "writing t H cur nxt D V data written (s'\<lparr>ws_tx := (ws_tx s')\<lparr>da_side := side\<rparr>\<rparr>)"
    using db_ok_side [OF wrote_metadata.hyps(2)] by (simp add: writing_def)
  then show ?case by blast
qed (use assms(4) in blast)

lemma installed:
  assumes D: "side_ok D" "hashes_ok D V" and X: "vm_ok X D V (install_codes X vm app_code) Pd Pe"
    and new: "clarity_vm_new D None db_path domain version = Ok vm"
    and "initialize_app D X vm app_code = Ok (i, vm')"
  shows "\<exists>m. pages D V (wd_conn (cv_db vm')) [m]"
proof -
  note fresh = new_vm(1) [OF D(1) new, where V = V] new_vm(2) [OF D(1) new]
  obtain s conn where s: "wrote D V (boot_store (wd_conn (cv_db vm)) GENESIS_BLOCK_ID) s" "ws_commit_to D s GENESIS_BLOCK_ID = Ok conn"
    "vm' = vm\<lparr>cv_db := (cv_db vm)\<lparr>wd_conn := conn\<rparr>\<rparr>" using install_writes [OF X assms(5)] by blast
  have "writing boot_tips 0 BOOT_BLOCK_ID GENESIS_BLOCK_ID D V (wd_conn (cv_db vm)) [] (boot_store (wd_conn (cv_db vm)) GENESIS_BLOCK_ID)"
    using fresh(1) by (simp add: writing_def boot_store_def)
  moreover have "target_ok boot_tips 0 BOOT_BLOCK_ID GENESIS_BLOCK_ID (heights (wd_conn (cv_db vm)))" by (simp add: target_ok_def fresh(2))
  ultimately obtain items where w: "writing boot_tips 0 BOOT_BLOCK_ID GENESIS_BLOCK_ID D V (wd_conn (cv_db vm)) items s"
    using wrote_writing [OF D s(1)] by blast
  have "GENESIS_BLOCK_ID \<noteq> BOOT_BLOCK_ID" by (simp add: genesis_tip)
  from commit_boot [OF D(1) w fresh(2) this] s(2) obtain side where
    c: "conn = \<lparr>da_rows = map (\<lambda>r. r\<lparr>kv_chain_tip := GENESIS_BLOCK_ID\<rparr>) (da_rows (ws_tx s)), da_side = side\<rparr>"
    "\<forall>h. sd_get D side h = sd_get D (da_side (ws_tx s)) h" "heights (ws_tx s) = {0}" "db_ok boot_tips D V (ws_tx s)" by auto
  show ?thesis using pages_installed [OF c(4,3,2,1)] s(3) by auto
qed

end
