(* ===== verification/Kv_Props.thy ===== *)
theory Kv_Props
  imports Kv_Install
begin

text \<open>
  Properties of the database of a page: what visits leave behind and what is read at each block,
  what time-shifted reads can and cannot do, the order of rows, headers, and installations.
\<close>

section \<open>The order of rows\<close>

lemma query_same:
  assumes "set xs = set ys" and "\<forall>x \<in> set xs. \<forall>y \<in> set ys. f x = f y"
  shows "query_row f xs = query_row f ys"
proof (cases xs)
  case Nil
  then show ?thesis using assms(1) by simp
next
  case (Cons x xs')
  then obtain y ys' where "ys = y # ys'" using assms(1) by (cases ys) auto
  moreover from this have "f x = f y" using Cons assms(2) by simp
  ultimately show ?thesis using Cons by (simp add: query_row_def)
qed

lemma pages_same_rows:
  assumes pg: "pages D V data hist" and rows: "distinct rows" "set rows = set (da_rows data)"
  shows "pages D V (data\<lparr>da_rows := rows\<rparr>) hist"
proof -
  have ok: "rows_ok page_tips (da_rows data)" using pg by (simp add: pages_def db_ok_def)
  then have "inj_on (\<lambda>r. (kv_chain_tip r, kv_height r, kv_key r)) (set rows)" by (simp add: rows_ok_def distinct_map rows(2))
  then have ok': "rows_ok page_tips rows" using ok rows by (simp add: rows_ok_def distinct_map)
  have "is_latest rows h k r \<longleftrightarrow> is_latest (da_rows data) h k r" for h k r by (simp add: is_latest_def rows(2))
  then have "latest rows h k = Some r \<longleftrightarrow> latest (da_rows data) h k = Some r" for h k r
    by (simp add: latest_iff [OF ok] latest_iff [OF ok'])
  then have l: "latest rows h k = latest (da_rows data) h k" for h k by (metis option.exhaust)
  have "value_at D (data\<lparr>da_rows := rows\<rparr>) h = value_at D data h" for h by (intro ext) (simp add: value_at_def l split: option.split)
  then show ?thesis using pg ok' rows(2) by (simp add: pages_def db_ok_def values_ok_def heights_def)
qed

section \<open>Properties\<close>

text \<open>
  C15. The history of a page. On a new file, once a page is installed, any visits succeed, whatever
  they put, and afterwards every block of the past is read exactly as it was left: the database
  refines the list of key-value maps to which each visit that puts anything appends the last one
  with what it put, the last put of a key winning. Nothing is needed of the hashes but that the
  values that the installation and these visits write have hashes of their own.
\<close>

theorem page_history:
  assumes D: "side_ok D" "hashes_ok D V" and X: "vm_ok X D V (install_codes X vm app_code) Pd Pe"
    and new: "clarity_vm_new D None db_path domain version = Ok vm"
    and install: "initialize_app D X vm app_code = Ok (i, vm1)"
    and visits: "snd ` set (concat (concat visits)) \<subseteq> V" "length visits + 1 < 2 ^ 63"
  shows "\<exists>m vm2. run_visits D vm1 visits = Ok vm2 \<and>
    (\<forall>b < length (foldl record_visit [m] visits).
       \<exists>s. wrb_db_begin_read_only (cv_db vm2) (Some (tip_at b)) = Some s \<and>
         (\<forall>k. ro_get_data D s k = Ok ((foldl record_visit [m] visits ! b) k))) \<and>
    (\<exists>s. vm_begin_read_only vm2 = Some s \<and> (\<forall>k. ro_get_data D s k = Ok (last (foldl record_visit [m] visits) k)))"
proof -
  obtain m where m: "pages D V (wd_conn (cv_db vm1)) [m]" using installed [OF D X new install] by blast
  let ?hist = "foldl record_visit [m] visits"
  from visits_recorded [OF D m _ visits(1)] visits(2) obtain vm2 where
    vm2: "run_visits D vm1 visits = Ok vm2" "pages D V (wd_conn (cv_db vm2)) ?hist" by auto
  have read: "\<exists>s. wrb_db_begin_read_only (cv_db vm2) (Some (tip_at b)) = Some s \<and> (\<forall>k. ro_get_data D s k = Ok ((?hist ! b) k))"
    if b: "b < length ?hist" for b
    using read_only_at [OF vm2(2) b] stored_page [OF vm2(2) b] by (simp add: ro_get_data_def)
  have "?hist \<noteq> []" using vm2(2) by (simp add: pages_def)
  then have "\<exists>s. vm_begin_read_only vm2 = Some s \<and> (\<forall>k. ro_get_data D s k = Ok (last ?hist k))"
    using read [of "length ?hist - 1"] newest_tip [OF vm2(2)] by (simp add: vm_begin_read_only_def last_conv_nth)
  then show ?thesis using vm2(1) read by blast
qed

text \<open>
  C23. During a visit. On the database of an installed page, a visit begins at the newest block, sees what it has put so far over what the
  last visit left, and nothing else, and never comes upon its own buffer of writes; all the time
  the blocks of the past are read from the file as they were.
\<close>

theorem visit_reads_own_writes:
  assumes D: "side_ok D" "hashes_ok D V" and pg: "pages D V (wd_conn (cv_db vm)) hist" and len: "length hist + 1 < 2 ^ 63"
    and V: "snd ` set (concat batches) \<subseteq> V"
  shows "\<exists>s s'. begin_page_load vm = Some s \<and> put_batches D s batches = Ok s' \<and> ws_write_buf s' = write_buffer_new \<and>
    (\<forall>k. ws_get_data D s' k = Ok (put_items (last hist) (concat batches) k)) \<and>
    ws_get_open_chain_tip s' = tip_at (length hist) \<and>
    (\<forall>b < length hist. \<exists>r. wrb_db_begin_read_only (cv_db vm) (Some (tip_at b)) = Some r \<and> (\<forall>k. ro_get_data D r k = Ok ((hist ! b) k)))"
proof -
  obtain n where n: "length hist = Suc n" using pg by (cases hist) (auto simp: pages_def)
  let ?s = "\<lambda>tx. \<lparr>ws_chain_tip = tip_at n, ws_tip_height = word_of_nat (n + 1), ws_next_tip = tip_at (n + 1), ws_tx = tx,
    ws_write_buf = write_buffer_new\<rparr>"
  obtain tx where tx: "begin_page_load vm = Some (?s (wd_conn (cv_db vm)))" "put_batches D (?s (wd_conn (cv_db vm))) batches = Ok (?s tx)"
    "db_ok page_tips D V tx" "value_at D tx (int (n + 1)) = put_items (last hist) (concat batches)"
    using written_store [OF D pg len V n] by blast
  have n1: "n + 1 < 2 ^ 63" using len n by simp
  have own: "ws_get_data D (?s tx) k = Ok (put_items (last hist) (concat batches) k)" for k
    using written_data [OF tx(3) n1, of "?s tx"] tx(4) by simp
  have tip: "ws_get_open_chain_tip (?s tx) = tip_at (length hist)" by (simp add: ws_get_open_chain_tip_def n)
  have past: "\<exists>r. wrb_db_begin_read_only (cv_db vm) (Some (tip_at b)) = Some r \<and> (\<forall>k. ro_get_data D r k = Ok ((hist ! b) k))"
    if "b < length hist" for b using read_only_at [OF pg that] stored_page [OF pg that] by (simp add: ro_get_data_def)
  show ?thesis
    by (rule exI [where x = "?s (wd_conn (cv_db vm))"], rule exI [where x = "?s tx"]) (intro conjI allI impI tx(1,2) own tip past, simp_all)
qed

text \<open>
  C22. Time-shifted reads do not come back. When a page evaluates \<open>at-block\<close>, the interpreter sets
  the block hash of the store to that of the block, reads, and sets it back to what it was before.
  Reading in the past works, but setting the hash back is an error for every block before the
  newest one, because the newest block is looked up at the height of the old one. For the
  newest block it succeeds, but from then on the visit does not see what it has put itself: the
  store now reads at the height of its block and no longer one above.
\<close>

theorem time_shift_strands:
  assumes D: "side_ok D" "hashes_ok D V" and pg: "pages D V (wd_conn (cv_db vm)) hist" and len: "length hist + 1 < 2 ^ 63"
    and V: "snd ` set (concat batches) \<subseteq> V" and b: "b < length hist"
  shows "\<exists>s s' s1. begin_page_load vm = Some s \<and> put_batches D s batches = Ok s' \<and>
    ws_set_block_hash s' (tip_at b) = Ok (ws_chain_tip s', s1) \<and> (\<forall>k. ws_get_data D s1 k = Ok ((hist ! b) k)) \<and>
    (if b + 1 < length hist
     then ws_set_block_hash s1 (ws_chain_tip s') = Err (RuntimeUnknownBlockHeaderHash (ws_chain_tip s'))
     else \<exists>s2. ws_set_block_hash s1 (ws_chain_tip s') = Ok (tip_at b, s2) \<and> (\<forall>k. ws_get_data D s2 k = Ok (last hist k)))"
proof -
  obtain n where n: "length hist = Suc n" using pg by (cases hist) (auto simp: pages_def)
  let ?s = "\<lambda>tx. \<lparr>ws_chain_tip = tip_at n, ws_tip_height = word_of_nat (n + 1), ws_next_tip = tip_at (n + 1), ws_tx = tx,
    ws_write_buf = write_buffer_new\<rparr>"
  obtain tx where tx: "begin_page_load vm = Some (?s (wd_conn (cv_db vm)))" "put_batches D (?s (wd_conn (cv_db vm))) batches = Ok (?s tx)"
    "db_ok page_tips D V tx" "\<forall>h \<in> heights tx. h < 2 ^ 63" "\<forall>i \<le> n. int i \<in> heights tx" "\<forall>i \<le> n. value_at D tx (int i) = hist ! i"
    using written_store [OF D pg len V n] by blast
  have n1: "n + 1 < 2 ^ 63" "n < 2 ^ 63" and bn: "b \<le> n" using len n b by auto
  have there: "int b \<in> heights (ws_tx (?s tx))" "int n \<in> heights (ws_tx (?s tx))" using tx(5) bn by simp_all
  have at: "db_ok page_tips D V (ws_tx (?s tx))" "\<forall>h \<in> heights (ws_tx (?s tx)). h < 2 ^ 63" using tx(3,4) by simp_all
  have "b \<le> n + 1" using bn by simp
  from ws_store.shift [OF at _ _ n1(1) there(1) this] obtain s1 where
    s1: "ws_set_block_hash (?s tx) (tip_at b) = Ok (tip_at n, s1)" "ws_chain_tip s1 = tip_at b" "ws_tip_height s1 = word_of_nat b"
    "ws_tx s1 = tx" "ws_write_buf s1 = write_buffer_new" "\<forall>k. ws_get_data D s1 k = Ok (value_at D tx (int b) k)" by auto
  have read: "ws_get_data D s1 k = Ok ((hist ! b) k)" for k using s1(6) tx(6) bn by simp
  have after: "if b + 1 < length hist then ws_set_block_hash s1 (tip_at n) = Err (RuntimeUnknownBlockHeaderHash (tip_at n))
      else \<exists>s2. ws_set_block_hash s1 (tip_at n) = Ok (tip_at b, s2) \<and> (\<forall>k. ws_get_data D s2 k = Ok (last hist k))"
  proof (cases "b < n")
    case True
    then show ?thesis using ws_store.no_return [of D V s1 b n] s1(3,4) tx(3,4) there(2) n1(2) n by simp
  next
    case False
    then have "b = n" "last hist = hist ! b" using bn n by (cases hist rule: rev_cases; simp add: nth_append)+
    then show ?thesis using ws_store.shift [of D V s1 b b] s1 tx(3,4,6) there n1(2) n by auto
  qed
  have tip: "ws_chain_tip (?s tx) = tip_at n" by simp
  show ?thesis
    by (rule exI [where x = "?s (wd_conn (cv_db vm))"], rule exI [where x = "?s tx"], rule exI [where x = s1], unfold tip)
      (intro conjI allI tx(1,2) s1(1) read after)
qed

text \<open>The same of a store that only reads: from an older block it does not get back either.\<close>

lemma read_only_strands:
  assumes pg: "pages D V (wd_conn (cv_db vm)) hist" and b: "b < n" "n < length hist"
  shows "\<exists>s s1. wrb_db_begin_read_only (cv_db vm) (Some (tip_at n)) = Some s \<and> ro_set_block_hash s (tip_at b) = Ok (tip_at n, s1) \<and>
    ro_set_block_hash s1 (tip_at n) = Err (RuntimeUnknownBlockHeaderHash (tip_at n))"
proof -
  let ?s = "\<lparr>ro_chain_tip = tip_at n, ro_tip_height = word_of_nat n, ro_conn = wd_conn (cv_db vm)\<rparr>"
  have ok: "db_ok page_tips D V (ro_conn ?s)" "\<forall>h \<in> heights (ro_conn ?s). h < 2 ^ 63" using pages_heights(3,1) [OF pg] by simp_all
  have there: "int b \<in> heights (ro_conn ?s)" "int n \<in> heights (ro_conn ?s)" "n < 2 ^ 63"
    using pages_heights(2,4) [OF pg] b by auto
  from ro_store.shift [OF ok TrueI _ there(3,1)] b(1) obtain s1 where
    s1: "ro_set_block_hash ?s (tip_at b) = Ok (tip_at n, s1)" "ro_tip_height s1 = word_of_nat b" "ro_conn s1 = wd_conn (cv_db vm)" by auto
  then have "ro_set_block_hash s1 (tip_at n) = Err (RuntimeUnknownBlockHeaderHash (tip_at n))"
    using ro_store.no_return [of D V s1 b n] ok there(2,3) b(1) by simp
  then show ?thesis using read_only_at [OF pg b(2)] s1(1) by blast
qed

text \<open>
  C24. The order of rows does not matter. The queries for blocks and heights have no \<open>ORDER BY\<close>,
  and take the first row there is, and that for a key orders by height only. For a database that
  visits have made, every query has the same answer in whatever order SQLite gives the rows.
\<close>

theorem queries_ignore_order:
  assumes pg: "pages D V data hist" and rows: "distinct rows" "set rows = set (da_rows data)"
  shows "tipless_get_block_height_of rows b = tipless_get_block_height_of (da_rows data) b \<and>
    get_block_height_of rows h b = get_block_height_of (da_rows data) h b \<and>
    check_block_hash rows h b = check_block_hash (da_rows data) h b \<and>
    get_block_at_height rows h h' = get_block_at_height (da_rows data) h h' \<and>
    get_hash rows h k = get_hash (da_rows data) h k \<and>
    get_wrb_chain_tip rows = get_wrb_chain_tip (da_rows data) \<and>
    get_wrb_block_height rows b = get_wrb_block_height (da_rows data) b"
proof -
  let ?old = "da_rows data"
  have at: "\<exists>i. kv_height r = int i \<and> i < length hist" if "r \<in> set ?old" for r
  proof -
    have "kv_height r \<in> int ` {..<length hist}" using pg that by (auto simp: pages_def heights_def)
    then show ?thesis by auto
  qed
  have tip: "kv_height r = kv_height r'" if r: "r \<in> set ?old" "r' \<in> set ?old" "kv_chain_tip r = kv_chain_tip r'" for r r'
  proof -
    obtain i j where ij: "kv_height r = int i" "i < length hist" "kv_height r' = int j" "j < length hist"
      using at [OF r(1)] at [OF r(2)] by blast
    then have "i < 2 ^ 63" "j < 2 ^ 63" using pages_heights(4) [OF pg] by blast+
    moreover have "kv_chain_tip r = tip_at i" "kv_chain_tip r' = tip_at j"
      using pg r(1,2) ij by (auto simp: pages_def db_ok_def rows_ok_def page_tips_def)
    ultimately show ?thesis using r(3) ij tip_at_inj [of i j] by simp
  qed
  have height: "kv_chain_tip r = kv_chain_tip r'" if "r \<in> set ?old" "r' \<in> set ?old" "kv_height r = kv_height r'" for r r'
    using pg that by (auto simp: pages_def db_ok_def rows_ok_def)
  have at_tip: "query_row f [r \<leftarrow> rows. kv_chain_tip r = b \<and> P r] = query_row f [r \<leftarrow> ?old. kv_chain_tip r = b \<and> P r]"
    if f: "\<And>r r'. kv_height r = kv_height r' \<Longrightarrow> f r = f r'" for f :: "kv_row \<Rightarrow> (DbError, 'x) outcome" and P
  proof (rule query_same)
    show "\<forall>x \<in> set [r \<leftarrow> rows. kv_chain_tip r = b \<and> P r]. \<forall>y \<in> set [r \<leftarrow> ?old. kv_chain_tip r = b \<and> P r]. f x = f y"
    proof (intro ballI)
      fix x y
      assume "x \<in> set [r \<leftarrow> rows. kv_chain_tip r = b \<and> P r]" "y \<in> set [r \<leftarrow> ?old. kv_chain_tip r = b \<and> P r]"
      then have "kv_height x = kv_height y" using rows(2) by (intro tip) auto
      then show "f x = f y" by (rule f)
    qed
  qed (simp add: rows(2))
  have at_height: "query_row (\<lambda>r. Ok (kv_chain_tip r)) [r \<leftarrow> rows. kv_height r = x] = query_row (\<lambda>r. Ok (kv_chain_tip r)) [r \<leftarrow> ?old. kv_height r = x]"
    for x :: int using height rows(2) by (intro query_same) auto
  note pg' = pages_same_rows [OF pg rows]
  have "latest rows x k = latest ?old x k" for x
  proof -
    have "rows_ok page_tips rows" "rows_ok page_tips ?old" using pg pg' by (simp_all add: pages_def db_ok_def)
    then have "latest rows x k = Some r \<longleftrightarrow> latest ?old x k = Some r" for r by (simp add: latest_iff is_latest_def rows(2))
    then show ?thesis by (metis option.exhaust)
  qed
  then have hash: "get_hash rows h k = get_hash ?old h k"
  proof (cases "h > 0x7FFFFFFFFFFFFFFF")
    case False
    then have "uint h < 2 ^ 63" by (simp add: word_less_def)
    then show ?thesis using \<open>\<And>x. latest rows x k = latest ?old x k\<close> by (simp add: get_hash_latest)
  qed (simp add: get_hash_def u64_to_sql_def)
  have first: "get_wrb_block_height xs b =
      (case query_row (\<lambda>r. u64_from_row (kv_height r)) [r \<leftarrow> xs. kv_chain_tip r = b] of Ok x \<Rightarrow> Some x | _ \<Rightarrow> None)" for xs
    by (simp add: get_wrb_block_height_def query_row_def split: list.split outcome.split)
  note all = at_tip [of "\<lambda>r. u64_from_row (kv_height r)" "\<lambda>_. True", simplified]
  show ?thesis
    using all at_tip [of "\<lambda>r. u64_from_row (kv_height r)" "\<lambda>r. kv_height r \<le> uint h"] at_tip [of "\<lambda>r. Ok ()" "\<lambda>r. kv_height r \<le> uint h"]
      at_height hash newest_tip [OF pg] newest_tip [OF pg']
    by (intro conjI) (simp_all add: tipless_get_block_height_of_def get_block_height_of_def check_block_hash_def get_block_at_height_def u64_to_sql_def first)
qed

text \<open>The name of the contract of a page.\<close>

definition app_contract :: "('s, 'i, 'ast, 'd, 'e, 'c) vm_env \<Rightarrow> 's ClarityVM \<Rightarrow> string" where
  "app_contract X vm = cv_app_name vm @ ''-'' @ cv_app_namespace vm @ ''-'' @ vx_print_u32 X (cv_app_version vm)"

text \<open>
  C25. Installing again. Every visit installs the page first. When \<open>wrb-ll\<close> and the contract of the
  page, whose names are valid, are there already, and rolling back gives the store back, the
  installation succeeds with the identifier of the page. It commits a block of nothing: the rows
  are the same, and the database stands for the same history.
\<close>

theorem reinstall_keeps_history:
  assumes D: "side_ok D" and pg: "pages D V (wd_conn (cv_db vm)) hist"
    and roll: "\<forall>headers s. vx_roll_back X (vx_clarity_db X headers s) = Ok s"
    and names: "vx_contract_name X ''wrb-ll'' = Some ll" "vx_contract_name X (app_contract X vm) = Some app"
    and there: "\<forall>n \<in> {ll, app}. vx_has_contract X
      (vx_clarity_db X (headers_db vm) (boot_store (wd_conn (cv_db vm)) GENESIS_BLOCK_ID)) (vx_contract_id X n)"
  shows "\<exists>vm'. initialize_app D X vm app_code = Ok (vx_contract_id X app, vm') \<and>
     da_rows (wd_conn (cv_db vm')) = da_rows (wd_conn (cv_db vm)) \<and> pages D V (wd_conn (cv_db vm')) hist"
proof -
  let ?data = "wd_conn (cv_db vm)" let ?s = "boot_store ?data GENESIS_BLOCK_ID"
  obtain side where side: "sd_commit_metadata D (da_side ?data) BOOT_BLOCK_ID GENESIS_BLOCK_ID = Ok side"
    "\<forall>h. sd_get D side h = sd_get D (da_side ?data) h" using D unfolding side_ok_def by blast
  have no_boot: "kv_chain_tip r \<noteq> BOOT_BLOCK_ID" if "r \<in> set (da_rows ?data)" for r
    using pg that by (simp add: pages_def db_ok_def rows_ok_def page_tips_def)
  then have "get_wrb_block_height (da_rows (?data\<lparr>da_side := side\<rparr>)) BOOT_BLOCK_ID = Some None"
    by (auto simp: get_wrb_block_height_def filter_empty_conv split: list.split dest!: filter_eq_ConsD)
  from dump_nothing [OF this, where D = D and nxt = GENESIS_BLOCK_ID]
  have "wb_dump D write_buffer_new (?data\<lparr>da_side := side\<rparr>) BOOT_BLOCK_ID GENESIS_BLOCK_ID = Ok (?data\<lparr>da_side := side\<rparr>, write_buffer_new)"
    by simp
  moreover have "rename_tip GENESIS_BLOCK_ID BOOT_BLOCK_ID (da_rows ?data) = Ok (da_rows ?data)"
    using no_boot by (auto simp: rename_tip_def intro!: map_idI)
  ultimately have "ws_commit_to D ?s GENESIS_BLOCK_ID = Ok (?data\<lparr>da_side := side\<rparr>)"
    using side(1) by (simp add: ws_commit_to_def boot_store_def)
  then have "initialize_app D X vm app_code = Ok (vx_contract_id X app, vm\<lparr>cv_db := (cv_db vm)\<lparr>wd_conn := ?data\<lparr>da_side := side\<rparr>\<rparr>\<rparr>)"
    using roll names there by (simp add: initialize_app_def Let_def begin_boot app_contract_def)
  then show ?thesis using pg db_ok_side [OF side(2)] by (simp add: pages_def)
qed

text \<open>
  C40. The buffer of writes is off by one. \<open>put\<close> notes the length of the list after it has grown as
  the index of its entry. Getting the key that was put last panics, and getting another key that
  was put before gives the value of the next one. The stores dump the buffer after each put, so
  pages do not come upon it.
\<close>

theorem write_buffer_off_by_one:
  assumes "k' \<noteq> k"
  shows "wb_get (wb_put D wb k v) k = None \<and> wb_get (wb_put D (wb_put D wb k v) k' v') k = Some (Some v')"
  using assms by (simp add: wb_get_def wb_put_def Let_def idx_def nth_append)

section \<open>Headers and visits before the installation\<close>

text \<open>The header of a block is the block: its hash, its time and its height agree with its hash as a block.\<close>

lemma headers_of_blocks:
  assumes "pages D V data hist" and "i < length hist"
  shows "get_stacks_block_header_hash_for_block (da_rows data) (tip_at i) = Some (Some (tip_at i))"
    "get_burn_header_hash_for_block (da_rows data) (tip_at i) = Some (Some (tip_at i))"
    "get_burn_block_time_for_block (da_rows data) (tip_at i) = Some (Some (word_of_nat i))"
    "get_burn_block_height_for_block (da_rows data) (tip_at i) = Some (Some (word_of_nat i))"
proof -
  have "take_bit 64 i = i" using pages_heights(4) [OF assms] by (simp add: take_bit_eq_mod)
  then show "get_stacks_block_header_hash_for_block (da_rows data) (tip_at i) = Some (Some (tip_at i))"
    "get_burn_header_hash_for_block (da_rows data) (tip_at i) = Some (Some (tip_at i))"
    "get_burn_block_time_for_block (da_rows data) (tip_at i) = Some (Some (word_of_nat i))"
    "get_burn_block_height_for_block (da_rows data) (tip_at i) = Some (Some (word_of_nat i))"
    using block_height_of_page(1) [OF pages_heights(3,1) [OF assms(1)] pages_heights(4) [OF assms]] pages_heights(2) [OF assms(1)] assms(2)
    by (simp_all add: get_stacks_block_header_hash_for_block_def get_burn_header_hash_for_block_def get_burn_block_time_for_block_def
      get_burn_block_height_for_block_def height_bytes_def tip_at_def make_wrb_chain_tip_def unsigned_of_nat)
qed

text \<open>
  A visit of a page that was never installed is committed as a block at height 0 that is not the
  genesis block. The next visit panics on it.
\<close>

lemma visit_before_install:
  assumes D: "side_ok D" "hashes_ok D V" and new: "clarity_vm_new D None db_path domain version = Ok vm"
    and V: "snd ` set (concat batches) \<subseteq> V"
  shows "\<exists>vm'. visit_page D vm batches = Ok vm' \<and> begin_page_load vm' = None"
proof -
  let ?data = "wd_conn (cv_db vm)" let ?s = "boot_store ?data (tip_at 1)"
  note fresh = new_vm(1) [OF D(1) new, where V = V] new_vm(2) [OF D(1) new]
  have rows: "kv_height r = 0" "kv_chain_tip r = BOOT_BLOCK_ID" if "r \<in> set (da_rows ?data)" for r
    using fresh that by (auto simp: heights_def db_ok_def rows_ok_def)
  have "da_rows ?data \<noteq> []" using fresh(2) by (auto simp: heights_def)
  then obtain r rs where r: "da_rows ?data = r # rs" by (cases "da_rows ?data") auto
  moreover from this have "kv_height r = 0" "kv_chain_tip r = BOOT_BLOCK_ID" by (simp_all add: rows)
  ultimately have "get_wrb_block_height (da_rows ?data) BOOT_BLOCK_ID = Some (Some 0)"
    by (simp add: get_wrb_block_height_def u64_from_row_def)
  moreover have "get_wrb_chain_tip (da_rows ?data) = BOOT_BLOCK_ID"
  proof -
    have "b = BOOT_BLOCK_ID" if "b \<in> set (take 1 (map kv_chain_tip (by_height (sort_key (\<lambda>r. id_number (kv_chain_tip r)) (da_rows ?data)))))" for b
      using rows(2) in_set_takeD [OF that] by (auto simp: by_height_def)
    then show ?thesis by (auto simp: get_wrb_chain_tip_def split: list.split dest!: filter_eq_ConsD)
  qed
  ultimately have opens: "begin_page_load vm = Some ?s"
    by (simp add: begin_page_load_def checked_inc_def begin_boot tip_at_def)
  have "writing boot_tips 0 BOOT_BLOCK_ID (tip_at 1) D V ?data [] ?s" using fresh(1) by (simp add: writing_def boot_store_def)
  from writing_batches [OF D _ this V] obtain tx where
    tx: "put_batches D ?s batches = Ok (?s\<lparr>ws_tx := tx\<rparr>)"
    "writing boot_tips 0 BOOT_BLOCK_ID (tip_at 1) D V ?data (concat batches) (?s\<lparr>ws_tx := tx\<rparr>)"
    by (auto simp: target_ok_def fresh(2))
  from commit_boot [OF D(1) tx(2) fresh(2) tip_not_boot(1) [of 1]] obtain side where
    c: "ws_commit D (?s\<lparr>ws_tx := tx\<rparr>) = Ok \<lparr>da_rows = map (\<lambda>r. r\<lparr>kv_chain_tip := tip_at 1\<rparr>) (da_rows tx), da_side = side\<rparr>"
    "heights tx = {0}" by (auto simp: ws_commit_def boot_store_def)
  let ?conn = "\<lparr>da_rows = map (\<lambda>r. r\<lparr>kv_chain_tip := tip_at 1\<rparr>) (da_rows tx), da_side = side\<rparr>"
  let ?vm = "vm\<lparr>cv_db := (cv_db vm)\<lparr>wd_conn := ?conn\<rparr>\<rparr>"
  have new_rows: "kv_height r = 0" "kv_chain_tip r = tip_at 1" if "r \<in> set (da_rows ?conn)" for r
    using that c(2) by (auto simp: heights_def)
  have "da_rows ?conn \<noteq> []" using c(2) by (auto simp: heights_def)
  then obtain q qs where q: "da_rows ?conn = q # qs" by (cases "da_rows ?conn") auto
  have all: "[r \<leftarrow> da_rows ?conn. kv_chain_tip r = tip_at 1] = da_rows ?conn"
    by (intro filter_True ballI) (rule new_rows(2))
  have "q \<in> set (da_rows ?conn)" unfolding q by simp
  then have "kv_height q = 0" by (rule new_rows(1))
  then have panic: "tipless_get_block_height_of (da_rows ?conn) (tip_at 1) = Panic"
    unfolding tipless_get_block_height_of_def all unfolding q by (simp add: query_row_def u64_from_row_def genesis_tip tip_at_inj)
  have "get_wrb_chain_tip (da_rows ?conn) = tip_at 1"
  proof -
    have "b = tip_at 1" if "b \<in> set (take 1 (map kv_chain_tip (by_height (sort_key (\<lambda>r. id_number (kv_chain_tip r)) (da_rows ?conn)))))" for b
    proof -
      have "b \<in> kv_chain_tip ` set (da_rows ?conn)" using in_set_takeD [OF that] by (simp add: by_height_def del: kv_data.simps)
      then show ?thesis using new_rows(2) by blast
    qed
    moreover have "map kv_chain_tip (by_height (sort_key (\<lambda>r. id_number (kv_chain_tip r)) (da_rows ?conn))) \<noteq> []"
      using q by (simp add: by_height_def del: kv_data.simps)
    ultimately have "take 1 (map kv_chain_tip (by_height (sort_key (\<lambda>r. id_number (kv_chain_tip r)) (da_rows ?conn)))) = [tip_at 1]"
      by (cases "map kv_chain_tip (by_height (sort_key (\<lambda>r. id_number (kv_chain_tip r)) (da_rows ?conn)))") auto
    then show ?thesis by (simp add: get_wrb_chain_tip_def del: kv_data.simps)
  qed
  then have "begin_page_load ?vm = None"
    using panic by (simp add: begin_page_load_def wrb_db_begin_def Let_def del: kv_data.simps split: option.split)
  moreover have "visit_page D vm batches = Ok ?vm" using opens tx(1) c(1) by (simp add: visit_page_def)
  ultimately show ?thesis by blast
qed

section \<open>Witnesses\<close>

text \<open>A store of values in memory, and an interpreter that puts the code of a contract under its name.\<close>

definition mem_side :: "(string \<rightharpoonup> string) option side_db" where
  "mem_side = \<lparr>sd_fresh = None, sd_check_schema = (\<lambda>s. s \<noteq> None), sd_initialize = (\<lambda>_. Some (Some Map.empty)),
     sd_put = (\<lambda>s h v. Ok (Some ((case s of Some m \<Rightarrow> m | None \<Rightarrow> Map.empty)(h \<mapsto> v)))),
     sd_get = (\<lambda>s h. Ok (case s of Some m \<Rightarrow> m h | None \<Rightarrow> None)), sd_commit_metadata = (\<lambda>s _ _. Ok s), sd_sha_hex = (\<lambda>v. ''h'' @ v)\<rparr>"

lemma mem_side_ok: "side_ok mem_side" "hashes_ok mem_side V"
proof -
  show "side_ok mem_side" by (auto simp: side_ok_def mem_side_def split: option.split)
  have "hd (to_hex BOOT_BLOCK_ID) \<noteq> CHR ''h''" 
  proof -
    have boot: "BOOT_BLOCK_ID = 0xFF # replicate 31 0xFF" by (simp add: BOOT_BLOCK_ID_def flip: replicate_Suc)
    have "hd (to_hex BOOT_BLOCK_ID) = hex_digit 15" unfolding to_hex_def boot by simp
    moreover have "hex_digit 15 \<noteq> CHR ''h''" by (simp add: hex_digit_def char_of_def)
    ultimately show ?thesis by simp
  qed
  then show "hashes_ok mem_side V" by (auto simp: hashes_ok_def inj_on_def mem_side_def)
qed

type_synonym mem_page = "(string \<rightharpoonup> string) option ClarityVM"
type_synonym mem_store = "(string \<rightharpoonup> string) option WritableWrbStore"

definition mem_vm :: "((string \<rightharpoonup> string) option, string, unit, mem_store, mem_store, unit) vm_env" where
  "mem_vm = \<lparr>vx_sha256 = take 32, vx_hash160_from_sha256 = take 20, vx_utf8 = map (\<lambda>c. of_char c), vx_print_u32 = (\<lambda>_. ''0''),
     vx_contract_name = Some, vx_contract_id = (\<lambda>n. n), vx_parse = (\<lambda>_ _. Ok ()), vx_analyze = (\<lambda>_ _ s. Ok s),
     vx_clarity_db = (\<lambda>_ s. s), vx_has_contract = (\<lambda>s i. value_at mem_side (ws_tx s) 0 i \<noteq> None), vx_roll_back = Ok, vx_commit = Ok,
     vx_open_env = (\<lambda>d. d),
     vx_initialize_contract = (\<lambda>s i code. map_err (\<lambda>_. ''put'') (ws_put_all_data mem_side s [(i, code)])),
     vx_get_contract = (\<lambda>s _. Ok ((), s)), vx_eval = (\<lambda>s _ _. Ok s), vx_destruct = Some, WRB_LL_CODE = ''ll'', WRB_CODE = ''lib''\<rparr>"

lemma mem_vm_ok: "vm_ok mem_vm mem_side UNIV codes (wrote mem_side UNIV) (wrote mem_side UNIV)"
  by (auto simp: vm_ok_def mem_vm_def intro: wrote_nothing wrote_items)

lemma put_items_there: "put_items m items k \<noteq> None \<longleftrightarrow> m k \<noteq> None \<or> k \<in> fst ` set items"
proof (induction items arbitrary: m)
  case (Cons kv items)
  obtain a b where kv: "kv = (a, b)" by (cases kv)
  have "put_items m (kv # items) k \<noteq> None \<longleftrightarrow> (m(a \<mapsto> b)) k \<noteq> None \<or> k \<in> fst ` set items"
    unfolding kv put_items_simps by (rule Cons)
  then show ?case by (simp add: kv)
qed simp

text \<open>Renaming blocks changes no answer.\<close>

lemma insort_key_map: "(\<And>x. f (g x) = f x) \<Longrightarrow> insort_key f (g x) (map g xs) = map g (insort_key f x xs)"
  by (induction xs) simp_all

lemma sort_key_map: "(\<And>x. f (g x) = f x) \<Longrightarrow> sort_key f (map g xs) = map g (sort_key f xs)"
  by (induction xs) (simp_all add: insort_key_map)

lemma value_at_renamed:
  assumes "\<forall>h. sd_get D side h = sd_get D (da_side data) h"
  shows "value_at D \<lparr>da_rows = map (\<lambda>r. r\<lparr>kv_chain_tip := b\<rparr>) (da_rows data), da_side = side\<rparr> h k = value_at D data h k"
proof -
  let ?g = "\<lambda>r. r\<lparr>kv_chain_tip := b\<rparr>"
  have "by_height (map ?g rows) = map ?g (by_height rows)" for rows by (simp add: by_height_def sort_key_map)
  then have "latest (map ?g (da_rows data)) h k = map_option ?g (latest (da_rows data) h k)"
    by (simp add: latest_def filter_map comp_def split: list.split)
  then show ?thesis using assms by (simp add: value_at_def split: option.split)
qed

text \<open>A page that is installed, with its contracts there.\<close>

definition there_at_boot :: "(string \<rightharpoonup> string) option kv_data \<Rightarrow> bool" where
  "there_at_boot data \<longleftrightarrow> value_at mem_side data 0 ''wrb-ll'' \<noteq> None \<and> value_at mem_side data 0 ''page-btc-0'' \<noteq> None"

lemma mem_installed:
  "\<exists>vm i vm1. clarity_vm_new mem_side None ''/db'' ''page.btc'' 1 = Ok vm \<and> initialize_app mem_side mem_vm vm ''code'' = Ok (i, vm1) \<and>
     there_at_boot (wd_conn (cv_db vm1)) \<and> app_contract mem_vm vm1 = ''page-btc-0''"
proof -
  have name: "split_fqn ''page.btc'' = Ok (''page'', ''btc'')" by (simp add: split_fqn_def)
  obtain vm where vm: "clarity_vm_new mem_side None ''/db'' ''page.btc'' 1 = Ok vm"
    by (simp add: clarity_vm_new_def wrb_db_open_def setup_db_def mem_side_def replace_into_def name tipless_get_highest_tip_height_def
        query_row_def u64_from_row_def get_block_at_height_def u64_to_sql_def)
  have app: "cv_app_name vm = ''page''" "cv_app_namespace vm = ''btc''" using vm name by (auto simp: clarity_vm_new_def obind_Ok_iff)
  let ?data = "wd_conn (cv_db vm)" let ?s = "boot_store ?data GENESIS_BLOCK_ID"
  note fresh = new_vm(1) [OF mem_side_ok(1) vm, where V = UNIV] new_vm(2) [OF mem_side_ok(1) vm]
  have target: "target_ok boot_tips 0 BOOT_BLOCK_ID GENESIS_BLOCK_ID (heights ?data)" by (simp add: target_ok_def fresh(2))
  have start: "writing boot_tips 0 BOOT_BLOCK_ID GENESIS_BLOCK_ID mem_side UNIV ?data [] ?s" using fresh(1) by (simp add: writing_def boot_store_def)
  have put: "\<exists>s'. (if has then Ok s else deploy_contract mem_vm headers i code go s) = Ok s' \<and>
      (\<exists>xs. writing boot_tips 0 BOOT_BLOCK_ID GENESIS_BLOCK_ID mem_side UNIV ?data (items @ xs) s' \<and> (has \<or> i \<in> fst ` set xs))"
    if w: "writing boot_tips 0 BOOT_BLOCK_ID GENESIS_BLOCK_ID mem_side UNIV ?data items s" and go: "\<And>s. go s = Ok s" for s has headers i code items go
  proof (cases has)
    case True
    then show ?thesis using w by (intro exI [of _ s]) (auto intro: exI [of _ "[]"])
  next
    case False
    obtain tx where "ws_put_all_data mem_side s [(i, code)] = Ok (s\<lparr>ws_tx := tx\<rparr>)"
      "writing boot_tips 0 BOOT_BLOCK_ID GENESIS_BLOCK_ID mem_side UNIV ?data (items @ [(i, code)]) (s\<lparr>ws_tx := tx\<rparr>)"
      using writing_put [OF mem_side_ok w writing_target [OF target w], of "[(i, code)]"] by auto
    then show ?thesis using False
      by (intro exI [of _ "s\<lparr>ws_tx := tx\<rparr>"] conjI exI [of _ "[(i, code)]"]) (simp_all add: deploy_contract_def mem_vm_def go)
  qed
  have go: "(\<lambda>vm_env. obind (vx_get_contract mem_vm vm_env j) (\<lambda>(contract, vm_env). obind (vx_eval mem_vm vm_env contract c1) (\<lambda>vm_env.
      vx_eval mem_vm vm_env contract c2))) = Ok" for j c1 c2 by (simp add: mem_vm_def fun_eq_iff)
  have "app_contract mem_vm vm = ''page-btc-0''" by (simp add: app_contract_def app mem_vm_def)
  note name0 = this [unfolded app_contract_def]
  have roll: "vx_roll_back mem_vm s = Ok s" "vx_clarity_db mem_vm h s = s" "vx_contract_name mem_vm n = Some n"
    "vx_contract_id mem_vm n = n" "vx_has_contract mem_vm s n = (value_at mem_side (ws_tx s) 0 n \<noteq> None)" for s h n
    by (simp_all add: mem_vm_def)
  have boot: "ws_tx ?s = ?data" by (simp add: boot_store_def)
  let ?has1 = "value_at mem_side ?data 0 ''wrb-ll'' \<noteq> None" and ?has2 = "value_at mem_side ?data 0 ''page-btc-0'' \<noteq> None"
  obtain s1 xs1 where s1: "(if ?has1 then Ok ?s else deploy_contract mem_vm (headers_db vm) ''wrb-ll'' (WRB_LL_CODE mem_vm) Ok ?s) = Ok s1"
    "writing boot_tips 0 BOOT_BLOCK_ID GENESIS_BLOCK_ID mem_side UNIV ?data ([] @ xs1) s1" "?has1 \<or> ''wrb-ll'' \<in> fst ` set xs1"
    using put [OF start, where go = Ok and has = ?has1 and i = "''wrb-ll''" and headers = "headers_db vm" and code = "WRB_LL_CODE mem_vm"] by blast
  obtain s2 xs2 where s2: "(if ?has2 then Ok s1 else deploy_contract mem_vm (headers_db vm) ''page-btc-0'' (wrb_link_app mem_vm ''code'') Ok s1) = Ok s2"
    "writing boot_tips 0 BOOT_BLOCK_ID GENESIS_BLOCK_ID mem_side UNIV ?data (([] @ xs1) @ xs2) s2" "?has2 \<or> ''page-btc-0'' \<in> fst ` set xs2"
    using put [OF s1(2), where go = Ok and has = ?has2 and i = "''page-btc-0''" and headers = "headers_db vm" and code = "wrb_link_app mem_vm ''code''"] by blast
  have "GENESIS_BLOCK_ID \<noteq> BOOT_BLOCK_ID" by (simp add: genesis_tip)
  from commit_boot [OF mem_side_ok(1) s2(2) fresh(2) this] obtain side where
    commit: "ws_commit_to mem_side s2 GENESIS_BLOCK_ID =
        Ok \<lparr>da_rows = map (\<lambda>r. r\<lparr>kv_chain_tip := GENESIS_BLOCK_ID\<rparr>) (da_rows (ws_tx s2)), da_side = side\<rparr>"
    and side: "\<forall>h. sd_get mem_side side h = sd_get mem_side (da_side (ws_tx s2)) h" by blast
  let ?vm1 = "vm\<lparr>cv_db := (cv_db vm)\<lparr>wd_conn := \<lparr>da_rows = map (\<lambda>r. r\<lparr>kv_chain_tip := GENESIS_BLOCK_ID\<rparr>) (da_rows (ws_tx s2)), da_side = side\<rparr>\<rparr>\<rparr>"
  have "initialize_app mem_side mem_vm vm ''code'' = Ok (''page-btc-0'', ?vm1)"
    by (simp only: initialize_app_def Let_def begin_boot roll go ok_or_simps from_opt_simps obind.simps map_err.simps name0 boot s1(1) s2(1) commit)
  moreover have "value_at mem_side (ws_tx s2) 0 = put_items (value_at mem_side ?data 0) (xs1 @ xs2)"
    using s2(2) by (simp add: writing_def)
  then have "there_at_boot (wd_conn (cv_db ?vm1))"
    using s1(3) s2(3) unfolding there_at_boot_def
    by (simp del: not_None_eq put_items_simps add: value_at_renamed [OF side] put_items_there) blast
  moreover have "app_contract mem_vm ?vm1 = ''page-btc-0''" using name0 by (simp add: app_contract_def)
  ultimately show ?thesis using vm by blast
qed

theorem page_history_witness:
  "\<exists>vm i vm1 m vm2. clarity_vm_new mem_side None ''/db'' ''page.btc'' 1 = Ok vm \<and> initialize_app mem_side mem_vm vm ''code'' = Ok (i, vm1) \<and>
     run_visits mem_side vm1 [[[(''k'', ''1'')]], [[(''k'', ''2''), (''l'', ''3'')], [(''k'', ''4'')]]] = Ok vm2 \<and>
     (\<exists>s. wrb_db_begin_read_only (cv_db vm2) (Some (tip_at 1)) = Some s \<and> ro_get_data mem_side s ''k'' = Ok (Some ''1'')) \<and>
     (\<exists>s. vm_begin_read_only vm2 = Some s \<and> ro_get_data mem_side s ''k'' = Ok (Some ''4'') \<and> ro_get_data mem_side s ''x'' = Ok (m ''x''))"
proof -
  obtain vm i vm1 where vm: "clarity_vm_new mem_side None ''/db'' ''page.btc'' 1 = Ok vm" "initialize_app mem_side mem_vm vm ''code'' = Ok (i, vm1)"
    using mem_installed by blast
  let ?visits = "[[[(''k'', ''1'')]], [[(''k'', ''2''), (''l'', ''3'')], [(''k'', ''4'')]]]"
  have "snd ` set (concat (concat ?visits)) \<subseteq> UNIV" "length ?visits + 1 < 2 ^ 63" by simp_all
  from page_history [OF mem_side_ok mem_vm_ok vm this] obtain m vm2 where run: "run_visits mem_side vm1 ?visits = Ok vm2"
    and past: "\<forall>b < length (foldl record_visit [m] ?visits). \<exists>s. wrb_db_begin_read_only (cv_db vm2) (Some (tip_at b)) = Some s \<and>
         (\<forall>k. ro_get_data mem_side s k = Ok ((foldl record_visit [m] ?visits ! b) k))"
    and now: "\<exists>s. vm_begin_read_only vm2 = Some s \<and> (\<forall>k. ro_get_data mem_side s k = Ok (last (foldl record_visit [m] ?visits) k))"
    by blast
  have hist: "foldl record_visit [m] ?visits = [m, m(''k'' \<mapsto> ''1''), m(''k'' \<mapsto> ''4'', ''l'' \<mapsto> ''3'')]" by (simp add: record_visit_def fun_upd_twist)
  have "\<exists>s. wrb_db_begin_read_only (cv_db vm2) (Some (tip_at 1)) = Some s \<and> ro_get_data mem_side s ''k'' = Ok (Some ''1'')"
    using past [rule_format, of 1] unfolding hist by auto
  moreover have "\<exists>s. vm_begin_read_only vm2 = Some s \<and> ro_get_data mem_side s ''k'' = Ok (Some ''4'') \<and> ro_get_data mem_side s ''x'' = Ok (m ''x'')"
    using now unfolding hist by auto
  ultimately show ?thesis using vm run by blast
qed

text \<open>Its database, before and after visits.\<close>

lemma visits_keep_name:
  "run_visits D vm visits = Ok vm' \<Longrightarrow> app_contract X vm' = app_contract X vm"
proof (induction visits arbitrary: vm)
  case (Cons v vs)
  obtain vm1 where vm1: "visit_page D vm v = Ok vm1" "run_visits D vm1 vs = Ok vm'" using Cons.prems by (auto simp: obind_Ok_iff)
  from vm1(1) have "app_contract X vm1 = app_contract X vm" by (auto simp: visit_page_def obind_Ok_iff app_contract_def)
  then show ?case using Cons.IH [OF vm1(2)] by simp
qed simp

lemma mem_pages:
  "\<exists>(vm :: mem_page) hist. pages mem_side UNIV (wd_conn (cv_db vm)) hist \<and> length hist = 3 \<and> last hist ''k'' = Some ''4'' \<and> (hist ! 1) ''k'' = Some ''1'' \<and>
     there_at_boot (wd_conn (cv_db vm)) \<and> app_contract mem_vm vm = ''page-btc-0''"
proof -
  obtain vm i vm1 where vm: "clarity_vm_new mem_side None ''/db'' ''page.btc'' 1 = Ok vm" "initialize_app mem_side mem_vm vm ''code'' = Ok (i, vm1)"
    and there: "there_at_boot (wd_conn (cv_db vm1))" "app_contract mem_vm vm1 = ''page-btc-0''"
    using mem_installed by blast
  obtain m where m: "pages mem_side UNIV (wd_conn (cv_db vm1)) [m]" using installed [OF mem_side_ok mem_vm_ok vm] by blast
  let ?visits = "[[[(''k'', ''1'')]], [[(''k'', ''2''), (''l'', ''3'')], [(''k'', ''4'')]]]"
  let ?hist = "foldl record_visit [m] ?visits"
  have "length [m] + length ?visits < 2 ^ 63" "snd ` set (concat (concat ?visits)) \<subseteq> UNIV" by simp_all
  from visits_recorded [OF mem_side_ok m this] obtain vm2 :: mem_page where
    vm2: "run_visits mem_side vm1 ?visits = Ok vm2" "pages mem_side UNIV (wd_conn (cv_db vm2)) ?hist" by blast
  have hist: "?hist = [m, m(''k'' \<mapsto> ''1''), m(''k'' \<mapsto> ''1'', ''k'' \<mapsto> ''2'', ''l'' \<mapsto> ''3'', ''k'' \<mapsto> ''4'')]" by (simp add: record_visit_def)
  have "value_at mem_side (wd_conn (cv_db vm1)) 0 = m" using m by (simp add: pages_def)
  moreover have "\<forall>i < length ?hist. value_at mem_side (wd_conn (cv_db vm2)) (int i) = ?hist ! i" using vm2(2) unfolding pages_def by blast
  then have "value_at mem_side (wd_conn (cv_db vm2)) 0 = m" unfolding hist by (auto dest: spec [of _ 0])
  ultimately have "there_at_boot (wd_conn (cv_db vm2))" using there(1) by (simp add: there_at_boot_def)
  moreover have "app_contract mem_vm vm2 = ''page-btc-0''" by (rule trans [OF visits_keep_name [OF vm2(1)] there(2)])
  moreover have "length ?hist = 3" "last ?hist ''k'' = Some ''4''" "(?hist ! 1) ''k'' = Some ''1''" unfolding hist by simp_all
  ultimately show ?thesis using vm2(2) by blast
qed

theorem visit_reads_own_writes_witness:
  "\<exists>(vm :: mem_page) s s'. begin_page_load vm = Some s \<and> put_batches mem_side s [[(''l'', ''5'')]] = Ok s' \<and>
     ws_get_data mem_side s' ''l'' = Ok (Some ''5'') \<and> ws_get_data mem_side s' ''k'' = Ok (Some ''4'')"
proof -
  obtain vm :: mem_page and hist where pg: "pages mem_side UNIV (wd_conn (cv_db vm)) hist" "length hist = 3" "last hist ''k'' = Some ''4''" using mem_pages by blast
  have "length hist + 1 < 2 ^ 63" "snd ` set (concat [[(''l'', ''5'')]]) \<subseteq> UNIV" using pg(2) by simp_all
  from visit_reads_own_writes [OF mem_side_ok pg(1) this] obtain s s' where
    "begin_page_load vm = Some s" "put_batches mem_side s [[(''l'', ''5'')]] = Ok s'"
    "\<forall>k. ws_get_data mem_side s' k = Ok (put_items (last hist) (concat [[(''l'', ''5'')]]) k)" by blast
  moreover from this(3) have "ws_get_data mem_side s' ''l'' = Ok (Some ''5'')" "ws_get_data mem_side s' ''k'' = Ok (Some ''4'')"
    using pg(3) by simp_all
  ultimately show ?thesis by blast
qed

theorem time_shift_strands_witness:
  "\<exists>(vm :: mem_page) s s' s1. begin_page_load vm = Some s \<and> put_batches mem_side s [[(''l'', ''5'')]] = Ok s' \<and>
     ws_set_block_hash s' (tip_at 1) = Ok (ws_chain_tip s', s1) \<and> ws_get_data mem_side s1 ''k'' = Ok (Some ''1'') \<and>
     ws_set_block_hash s1 (ws_chain_tip s') = Err (RuntimeUnknownBlockHeaderHash (ws_chain_tip s'))"
proof -
  obtain vm :: mem_page and hist where pg: "pages mem_side UNIV (wd_conn (cv_db vm)) hist" "length hist = 3" "(hist ! 1) ''k'' = Some ''1''" using mem_pages by blast
  have "length hist + 1 < 2 ^ 63" "snd ` set (concat [[(''l'', ''5'')]]) \<subseteq> UNIV" "1 < length hist" using pg(2) by simp_all
  from time_shift_strands [OF mem_side_ok pg(1) this] obtain s s' s1 where
    "begin_page_load vm = Some s" "put_batches mem_side s [[(''l'', ''5'')]] = Ok s'" "ws_set_block_hash s' (tip_at 1) = Ok (ws_chain_tip s', s1)"
    "\<forall>k. ws_get_data mem_side s1 k = Ok ((hist ! 1) k)"
    "if 1 + 1 < length hist then ws_set_block_hash s1 (ws_chain_tip s') = Err (RuntimeUnknownBlockHeaderHash (ws_chain_tip s'))
     else \<exists>s2. ws_set_block_hash s1 (ws_chain_tip s') = Ok (tip_at 1, s2) \<and> (\<forall>k. ws_get_data mem_side s2 k = Ok (last hist k))"
    by blast
  moreover from this(4,5) have "ws_get_data mem_side s1 ''k'' = Ok (Some ''1'')"
    "ws_set_block_hash s1 (ws_chain_tip s') = Err (RuntimeUnknownBlockHeaderHash (ws_chain_tip s'))" using pg(2,3) by simp_all
  ultimately show ?thesis by blast
qed

theorem queries_ignore_order_witness:
  "\<exists>vm :: mem_page. length (da_rows (wd_conn (cv_db vm))) \<ge> 3 \<and> get_hash (rev (da_rows (wd_conn (cv_db vm)))) 2 ''k'' = get_hash (da_rows (wd_conn (cv_db vm))) 2 ''k''"
proof -
  obtain vm :: mem_page and hist where pg: "pages mem_side UNIV (wd_conn (cv_db vm)) hist" "length hist = 3" using mem_pages by blast
  let ?rows = "da_rows (wd_conn (cv_db vm))"
  have "distinct (rev ?rows)" using pg(1) by (simp add: pages_def db_ok_def rows_ok_def distinct_map)
  from queries_ignore_order [OF pg(1) this] have "get_hash (rev ?rows) 2 ''k'' = get_hash ?rows 2 ''k''" by simp
  moreover have "3 \<le> length ?rows"
  proof -
    have "card (heights (wd_conn (cv_db vm))) = 3" using pg by (simp add: pages_def card_image)
    then show ?thesis using card_image_le [of "set ?rows" kv_height] card_length [of ?rows] by (simp add: heights_def)
  qed
  ultimately show ?thesis by blast
qed

theorem write_buffer_off_by_one_witness:
  "wb_get (wb_put mem_side write_buffer_new ''a'' ''1'') ''a'' = None \<and>
   wb_get (wb_put mem_side (wb_put mem_side write_buffer_new ''a'' ''1'') ''b'' ''2'') ''a'' = Some (Some ''2'')"
  using write_buffer_off_by_one [of "''b''" "''a''" mem_side write_buffer_new "''1''" "''2''"] by simp

text \<open>Installing once more, with the contracts there.\<close>

theorem reinstall_keeps_history_witness:
  "\<exists>(vm :: mem_page) i vm' hist. initialize_app mem_side mem_vm vm ''code'' = Ok (i, vm') \<and>
     length hist = 3 \<and> pages mem_side UNIV (wd_conn (cv_db vm')) hist"
proof -
  obtain vm :: mem_page and hist where pg: "pages mem_side UNIV (wd_conn (cv_db vm)) hist" "length hist = 3"
    and there: "there_at_boot (wd_conn (cv_db vm))" "app_contract mem_vm vm = ''page-btc-0''" using mem_pages by blast
  have roll: "\<forall>headers s. vx_roll_back mem_vm (vx_clarity_db mem_vm headers s) = Ok s" by (simp add: mem_vm_def)
  have names: "vx_contract_name mem_vm ''wrb-ll'' = Some ''wrb-ll''" "vx_contract_name mem_vm (app_contract mem_vm vm) = Some ''page-btc-0''"
    unfolding there(2) by (simp_all add: mem_vm_def)
  have has: "\<forall>n \<in> {''wrb-ll'', ''page-btc-0''}. vx_has_contract mem_vm
      (vx_clarity_db mem_vm (headers_db vm) (boot_store (wd_conn (cv_db vm)) GENESIS_BLOCK_ID)) (vx_contract_id mem_vm n)"
    using there(1) by (simp add: mem_vm_def boot_store_def there_at_boot_def)
  show ?thesis using reinstall_keeps_history [OF mem_side_ok(1) pg(1) roll names has] pg(2) by blast
qed

end
